(* ===== verification/Prelude.thy ===== *)
theory Prelude
  imports Complex_Main "HOL-Library.Word" "HOL-Library.AList"
begin

text \<open>
  Shared vocabulary of the development: the result type of a Go call that returns
  \<open>(value, error)\<close>, time and duration values, the collections of simplification rules the
  component theories extend, and generic lemmas on maps, lists and folds that the component
  proofs share.
\<close>

named_theorems mem_defs \<open>definitions of the in-memory store operations\<close>
named_theorems port_defs \<open>definitions of the world-level store ports\<close>

text \<open>
  \<open>time.Time\<close> is the instant in nanoseconds since the Unix epoch and \<open>time.Duration\<close> a number
  of nanoseconds, both unbounded here (Go's are 64 bits wide: the model is exact for instants
  within 292 years of the epoch).
\<close>

type_synonym time = int
type_synonym duration = int

definition nanosecond :: duration where "nanosecond = 1"
definition second :: duration where "second = 1000000000"
definition minute :: duration where "minute = 60 * second"
definition hour :: duration where "hour = 60 * minute"

lemmas duration_defs = nanosecond_def second_def minute_def hour_def

text \<open>\<open>time.Time{}\<close>, the zero value \<open>IsZero\<close> tests for: January 1, year 1, UTC.\<close>

definition zero_time :: time where "zero_time = - 62135596800 * 1000000000"

definition After :: "time \<Rightarrow> time \<Rightarrow> bool" where "After t u \<longleftrightarrow> u < t"
definition Before :: "time \<Rightarrow> time \<Rightarrow> bool" where "Before t u \<longleftrightarrow> t < u"

lemmas time_defs = After_def Before_def

section \<open>Maps\<close>

text \<open>
  \<open>x \<noteq> None\<close> is kept as it stands, rather than rewritten to an existential: it is how the code
  tests a pointer.
\<close>

declare not_None_eq [iff del]

text \<open>\<open>map[string][]string\<close>: a missing key reads as the nil slice.\<close>

type_synonym multimap = "string \<Rightarrow> string list"

definition no_ids :: "'k \<Rightarrow> string list" where "no_ids = (\<lambda>_. [])"

definition append_id :: "'k \<Rightarrow> string \<Rightarrow> ('k \<Rightarrow> string list) \<Rightarrow> 'k \<Rightarrow> string list" where
  "append_id k v m = m(k := m k @ [v])"

lemma append_id_same [simp]: "append_id k v m k = m k @ [v]"
  by (simp add: append_id_def)

lemma append_id_other [simp]: "k' \<noteq> k \<Longrightarrow> append_id k v m k' = m k'"
  by (simp add: append_id_def)

lemma set_append_id: "x \<in> set (append_id k v m k') \<longleftrightarrow> x \<in> set (m k') \<or> (k' = k \<and> x = v)"
  by (auto simp: append_id_def)

text \<open>
  A map from strings to row ids and the rows they name: \<open>points_into\<close> says that every entry of
  a unique index names a row, and \<open>points_into_all\<close> that every entry of a multi-index does. They
  are what keeps \<open>*s.byID[id]\<close> from dereferencing nil.
\<close>

definition points_into :: "('k \<rightharpoonup> string) \<Rightarrow> (string \<rightharpoonup> 'r) \<Rightarrow> bool" where
  "points_into ix rows \<longleftrightarrow> (\<forall>k i. ix k = Some i \<longrightarrow> rows i \<noteq> None)"

definition points_into_all :: "('k \<Rightarrow> string list) \<Rightarrow> (string \<rightharpoonup> 'r) \<Rightarrow> bool" where
  "points_into_all ix rows \<longleftrightarrow> (\<forall>k. \<forall>i \<in> set (ix k). rows i \<noteq> None)"

lemma points_into_empty [simp]: "points_into Map.empty rows"
  by (simp add: points_into_def)

lemma points_into_all_empty [simp]: "points_into_all no_ids rows"
  by (simp add: points_into_all_def no_ids_def)

lemma points_into_row [intro]: "points_into ix rows \<Longrightarrow> points_into ix (rows(i \<mapsto> r))"
  by (auto simp: points_into_def)

lemma points_into_all_row [intro]: "points_into_all ix rows \<Longrightarrow> points_into_all ix (rows(i \<mapsto> r))"
  by (auto simp: points_into_all_def)

lemma points_into_add [intro]:
  "points_into ix rows \<Longrightarrow> rows i \<noteq> None \<Longrightarrow> points_into (ix(k \<mapsto> i)) rows"
  by (auto simp: points_into_def)

lemma points_into_insert [intro]:
  "points_into ix rows \<Longrightarrow> points_into (ix(k \<mapsto> i)) (rows(i \<mapsto> r))"
  by (auto simp: points_into_def)

lemma points_into_all_insert [intro]:
  "points_into_all ix rows \<Longrightarrow> points_into_all (append_id k i ix) (rows(i \<mapsto> r))"
  by (auto simp: points_into_all_def set_append_id)

lemma points_intoD: "points_into ix rows \<Longrightarrow> ix k = Some i \<Longrightarrow> rows i \<noteq> None"
  by (auto simp: points_into_def)

lemma points_into_allD: "points_into_all ix rows \<Longrightarrow> i \<in> set (ix k) \<Longrightarrow> rows i \<noteq> None"
  by (auto simp: points_into_all_def)

text \<open>
  The stronger form for the stores that delete rows: an entry of the hash index names the row
  that carries that hash. \<open>ho\<close> is the row's hash field.
\<close>

definition hash_indexed :: "('r \<Rightarrow> 'k) \<Rightarrow> ('k \<rightharpoonup> string) \<Rightarrow> (string \<rightharpoonup> 'r) \<Rightarrow> bool" where
  "hash_indexed ho ix rows \<longleftrightarrow> (\<forall>h i. ix h = Some i \<longrightarrow> (\<exists>r. rows i = Some r \<and> ho r = h))"

lemma hash_indexed_empty [simp]: "hash_indexed ho Map.empty rows"
  by (simp add: hash_indexed_def)

lemma hash_indexedD:
  "hash_indexed ho ix rows \<Longrightarrow> ix h = Some i \<Longrightarrow> \<exists>r. rows i = Some r \<and> ho r = h"
  by (simp add: hash_indexed_def)

lemma hash_indexed_points: "hash_indexed ho ix rows \<Longrightarrow> points_into ix rows"
  by (force simp: hash_indexed_def points_into_def)

lemma hash_indexed_insert [intro]:
  "hash_indexed ho ix rows \<Longrightarrow> rows i = None \<Longrightarrow> ho r = h \<Longrightarrow>
   hash_indexed ho (ix(h \<mapsto> i)) (rows(i \<mapsto> r))"
  by (force simp: hash_indexed_def)

lemma hash_indexed_update [intro]:
  "hash_indexed ho ix rows \<Longrightarrow> rows i = Some r \<Longrightarrow> ho r' = ho r \<Longrightarrow>
   hash_indexed ho ix (rows(i \<mapsto> r'))"
  by (fastforce simp: hash_indexed_def)

lemma hash_indexed_delete [intro]:
  "hash_indexed ho ix rows \<Longrightarrow> rows i = Some r \<Longrightarrow>
   hash_indexed ho (ix(ho r := None)) (rows(i := None))"
  by (fastforce simp: hash_indexed_def)

text \<open>
  The loop that deletes a user's rows: \<open>for _, id := range ids { if t, ok := byID[id]; ok
  { delete(byHash, hash of t); delete(byID, id) } }\<close>.
\<close>

fun delete_each ::
  "('r \<Rightarrow> string) \<Rightarrow> string list \<Rightarrow> (string \<rightharpoonup> 'r) \<times> (string \<rightharpoonup> string) \<Rightarrow>
   (string \<rightharpoonup> 'r) \<times> (string \<rightharpoonup> string)" where
  "delete_each ho [] s = s"
| "delete_each ho (i # is) (rows, ix) =
     delete_each ho is
       (case rows i of None \<Rightarrow> (rows, ix) | Some r \<Rightarrow> (rows(i := None), ix(ho r := None)))"

lemma delete_each_rows:
  "fst (delete_each ho is (rows, ix)) = (\<lambda>i. if i \<in> set is then None else rows i)"
  by (induction "is" arbitrary: rows ix) (auto simp: fun_eq_iff split: option.splits)

lemma delete_each_indexed:
  "hash_indexed ho ix rows \<Longrightarrow> delete_each ho is (rows, ix) = (rows', ix') \<Longrightarrow>
   hash_indexed ho ix' rows'"
  by (induction "is" arbitrary: rows ix) (auto split: option.splits)

lemma delete_each_index:
  "hash_indexed ho ix rows \<Longrightarrow> delete_each ho is (rows, ix) = (rows', ix') \<Longrightarrow>
   ix' h = Some i \<Longrightarrow> i \<notin> set is \<and> ix h = Some i"
proof (induction "is" arbitrary: rows ix)
  case Nil
  then show ?case by simp
next
  case (Cons j "is")
  show ?case
  proof (cases "rows j")
    case None
    then show ?thesis using Cons by (force dest: hash_indexedD)
  next
    case (Some r)
    then have hi: "hash_indexed ho (ix(ho r := None)) (rows(j := None))"
      using Cons.prems(1) by auto
    from Cons.prems(2) Some
    have "delete_each ho is (rows(j := None), ix(ho r := None)) = (rows', ix')" by simp
    from Cons.IH [OF hi this Cons.prems(3)]
    have notin: "i \<notin> set is" and ix: "(ix(ho r := None)) h = Some i" by blast+
    from hash_indexedD [OF hi ix] have "i \<noteq> j" by auto
    with notin ix show ?thesis by (simp split: if_splits)
  qed
qed

text \<open>
  A multi-index that lists every row exactly once, under the row's key when it has one, and nothing
  else.
\<close>

definition lists_rows ::
  "('r \<Rightarrow> 'k option) \<Rightarrow> ('k \<Rightarrow> string list) \<Rightarrow> (string \<rightharpoonup> 'r) \<Rightarrow> bool" where
  "lists_rows key ix rows \<longleftrightarrow> (\<forall>k. distinct (ix k)) \<and>
     (\<forall>k i. i \<in> set (ix k) \<longleftrightarrow> (\<exists>r. rows i = Some r \<and> key r = Some k))"

lemma lists_rows_empty [simp]: "lists_rows key no_ids Map.empty"
  by (simp add: lists_rows_def no_ids_def)

lemma lists_rows_iff:
  "lists_rows key ix rows \<Longrightarrow> i \<in> set (ix k) \<longleftrightarrow> (\<exists>r. rows i = Some r \<and> key r = Some k)"
  by (simp add: lists_rows_def)

lemma lists_rows_insert:
  assumes "lists_rows key ix rows" and "rows i = None"
  shows "lists_rows key (case key r of None \<Rightarrow> ix | Some k \<Rightarrow> append_id k i ix) (rows(i \<mapsto> r))"
proof (cases "key r")
  case None
  with assms show ?thesis by (fastforce simp: lists_rows_def)
next
  case (Some k)
  have "i \<notin> set (ix k')" for k' using assms by (auto simp: lists_rows_def)
  with assms Some show ?thesis by (auto simp: lists_rows_def append_id_def split: if_splits)
qed

lemma lists_rows_update:
  "lists_rows key ix rows \<Longrightarrow> rows i = Some r \<Longrightarrow> key r' = key r \<Longrightarrow>
   lists_rows key ix (rows(i \<mapsto> r'))"
  unfolding lists_rows_def by (auto split: if_splits)

lemma lists_rows_delete:
  assumes "lists_rows key ix rows" and "rows i = Some r"
  shows "lists_rows key (case key r of None \<Rightarrow> ix | Some k \<Rightarrow> ix(k := remove1 i (ix k)))
           (rows(i := None))"
proof (cases "key r")
  case None
  have "i \<notin> set (ix k')" for k' using assms None by (auto simp: lists_rows_def)
  with assms None show ?thesis by (auto simp: lists_rows_def split: if_splits)
next
  case (Some k)
  have "i \<in> set (ix k') \<longleftrightarrow> k' = k" for k' using assms Some by (auto simp: lists_rows_def)
  with assms Some show ?thesis by (auto simp: lists_rows_def split: if_splits)
qed

lemma lists_rows_keyed:
  assumes "lists_rows key ix rows" and "rows i = None" and "key r = Some k"
  shows "lists_rows key (append_id k i ix) (rows(i \<mapsto> r))"
  using lists_rows_insert [OF assms(1,2), of r] assms(3) by simp

lemma lists_rows_clear:
  assumes "lists_rows key ix rows"
  shows "lists_rows key (ix(k := [])) (\<lambda>i. if i \<in> set (ix k) then None else rows i)"
proof -
  have "i \<in> set (ix k') \<longleftrightarrow> (\<exists>r. rows i = Some r \<and> key r = Some k')" for k' i
    using assms by (rule lists_rows_iff)
  moreover have "distinct (ix k')" for k' using assms by (simp add: lists_rows_def)
  ultimately show ?thesis unfolding lists_rows_def by (auto split: if_splits)
qed

end
