(* ===== verification/Errors.thy ===== *)
theory Errors
  imports Prelude
begin

text \<open>
  The errors of the modelled packages as one value type, and the two parts of \<open>errors.Is\<close> the
  code relies on: the sentinel class \<open>sentinel.InvalidToken\<close> that every plane's
  \<open>ErrInvalidToken\<close> joins (\<open>internal/sentinel/sentinel.go\<close>), and \<open>ratelimit.ErrRateLimited\<close>,
  which every \<open>*ratelimit.Error\<close> unwraps to. An error of the host's own code or of its database
  adapter is \<open>Fault\<close>; a nil dereference is \<open>Panic\<close>.
\<close>

text \<open>\<open>user/errors.go\<close>\<close>

datatype user_error =
    ErrInvalidCredentials | ErrEmailTaken | ErrEmailNotVerified | ErrAccountLocked
  | ErrInvalidToken | ErrTwoFactorRequired | ErrTwoFactorEnabled | ErrTwoFactorNotEnabled
  | ErrInvalidTwoFactor | ErrSessionNotFound | ErrCurrentSessionRequired | ErrWrongSessionMode
  | ErrNotTeamMember | ErrNoMemberStore

text \<open>\<open>pin/errors.go\<close>\<close>

datatype pin_error =
    Pin_ErrInvalidCredentials | Pin_ErrLocked | Pin_ErrInvalidToken | Pin_ErrAccountLocked
  | Pin_ErrInvalidPIN | Pin_ErrInvalidImport

text \<open>\<open>team/errors.go\<close>\<close>

datatype team_error =
    ErrInvitationInvalid | ErrEmailMismatch | ErrLastOwner | Team_ErrNotOwner
  | ErrMemberNotFound | ErrSlugTaken | ErrMembershipRejected

text \<open>\<open>device/errors.go\<close>\<close>

datatype device_error =
    ErrAuthorizationPending | ErrSlowDown | ErrAccessDenied | ErrExpiredToken | ErrInvalidUserCode
  | ErrNoUniqueUserCode

text \<open>\<open>pat/errors.go\<close>\<close>

datatype pat_error = Pat_ErrInvalidToken | ErrExpiryTooFar | ErrExpiryRequired | Pat_ErrNotOwner

text \<open>\<open>emaillogin/errors.go\<close>\<close>

datatype emaillogin_error = Email_ErrInvalidToken | ErrSignUpDisabled

text \<open>\<open>superuser/errors.go\<close>\<close>

datatype superuser_error =
    Super_ErrInvalidCredentials | Super_ErrAccountLocked | ErrInactive | Super_ErrInvalidToken
  | ErrCannotDeactivateSelf | ErrAlreadyBootstrapped | ErrTwoFactorUnavailable
  | Super_ErrTwoFactorEnabled | Super_ErrTwoFactorNotEnabled | Super_ErrInvalidTwoFactor
  | Super_ErrSessionNotFound

text \<open>\<open>oidc/errors.go\<close>\<close>

datatype oidc_error =
    ErrUnknownProvider | ErrProviderMisconfigured | ErrProviderUnreachable | ErrIdentity | ErrStateMismatch
  | ErrExchange | ErrAccountNotLinked | Oidc_ErrSignUpDisabled | ErrProviderEmailUnverified
  | ErrAlreadyLinked | Oidc_ErrLastCredential | ErrNoEmail

text \<open>\<open>passkey/errors.go\<close>\<close>

datatype passkey_error =
    ErrConfig | ErrCeremony | ErrSession | ErrCredentialNotFound | ErrNoCredentials | ErrAlreadyRegistered
  | ErrCloneWarning | ErrUserVerificationRequired | Passkey_ErrLastCredential

text \<open>\<open>authithttp/cookie.go\<close>, \<open>csrf.go\<close>, \<open>validate.go\<close>\<close>

datatype http_error = ErrNoToken | ErrCookiePathRequired | ErrCookiePrefix | ErrCookieValue | ErrCrossOrigin | ErrCSRFToken

text \<open>The sentinels of the JWT library: the faults of a token that \<open>authithttp/validate.go\<close> lists, and the others.\<close>

datatype jwt_error =
    ErrTokenMalformed | ErrTokenUnverifiable | ErrTokenSignatureInvalid | ErrTokenRequiredClaimMissing
  | ErrTokenInvalidAudience | ErrTokenExpired | ErrTokenUsedBeforeIssued | ErrTokenInvalidIssuer
  | ErrTokenInvalidSubject | ErrTokenNotValidYet | ErrTokenInvalidId | ErrTokenInvalidClaims | ErrInvalidType
  | ErrInvalidKey | ErrInvalidKeyType | ErrHashUnavailable

text \<open>\<open>jwt/signer.go\<close>, \<open>jwt/asymmetric.go\<close>\<close>

datatype key_error = ErrInvalidSecret | ErrUnsupportedKey | ErrWeakKey | ErrNoKeys

text \<open>
  \<open>RateLimitError key wait\<close> is \<open>*ratelimit.Error\<close>; \<open>RateLimited\<close> the bare sentinel or a
  host error wrapping it without a hint. \<open>WeakPassword\<close> is a \<open>crypto.ErrWeakPassword\<close> with its
  message. \<open>Wrapped e cause\<close> is \<open>fmt.Errorf("%w: ...", e, cause)\<close> and \<open>errors.Join(e, cause)\<close>, where a
  cause that is a text stands as \<open>Fault\<close>.
\<close>

datatype error =
    ErrNotFound | ErrConflict
  | Fault string | Panic
  | RateLimitError string duration | RateLimited
  | WeakPassword string
  | InvalidKeySize | CiphertextTooShort | ErrUnknownHashFormat
  | errTokenSpent | errLoginMethodRequired
  | User user_error | Pin pin_error | Team team_error | Device device_error | Pat pat_error
  | EmailLogin emaillogin_error | Super superuser_error | Oidc oidc_error | Passkey passkey_error
  | Http http_error | Jwt jwt_error | Key key_error | InvalidTokenClass
  | Wrapped error error

text \<open>\<open>errors.Is(err, ratelimit.ErrRateLimited)\<close>\<close>

fun is_rate_limited :: "error \<Rightarrow> bool" where
  "is_rate_limited (RateLimitError k d) = True"
| "is_rate_limited RateLimited = True"
| "is_rate_limited (Wrapped e cause) = (is_rate_limited e \<or> is_rate_limited cause)"
| "is_rate_limited _ = False"

text \<open>\<open>errors.Is(err, sentinel.InvalidToken)\<close>: the planes that join the class.\<close>

fun is_invalid_token :: "error \<Rightarrow> bool" where
  "is_invalid_token (User ErrInvalidToken) = True"
| "is_invalid_token (Pat Pat_ErrInvalidToken) = True"
| "is_invalid_token (EmailLogin Email_ErrInvalidToken) = True"
| "is_invalid_token (Super Super_ErrInvalidToken) = True"
| "is_invalid_token InvalidTokenClass = True"
| "is_invalid_token (Wrapped e cause) = (is_invalid_token e \<or> is_invalid_token cause)"
| "is_invalid_token _ = False"

section \<open>Audit events\<close>

text \<open>\<open>audit.EventType\<close> and \<open>audit.Result\<close>: the constants of \<open>audit/audit.go\<close>.\<close>

datatype event_type =
    EventUserRegistered | EventUserLoginSucceeded | EventUserLoginFailed | EventUserLoginLocked
  | EventUserLogout | EventUserTokenRefreshed | EventUserTokenReuse | EventUserSessionRevoked
  | EventUserPasswordChanged | EventUserPasswordReset | EventUserEmailVerified
  | EventUserTwoFactorEnabled | EventUserTwoFactorDisabled | EventUserUnlocked
  | EventUserTeamSwitched
  | EventPasskeyRegistered | EventPasskeyRemoved | EventPasskeyLogin | EventPasskeyCloneWarning
  | EventEmailLoginRequested | EventEmailLoginSucceeded | EventEmailLoginExhausted
  | EventAccountLinked | EventAccountUnlinked
  | EventSuperuserCreated | EventSuperuserLoginSucceeded | EventSuperuserLoginFailed
  | EventSuperuserLoginLocked | EventSuperuserLogout | EventSuperuserTokenRefreshed
  | EventSuperuserTokenReuse | EventSuperuserDeactivated | EventSuperuserImpersonated
  | EventSuperuserPasswordChanged | EventSuperuserTwoFactorEnabled
  | EventSuperuserTwoFactorDisabled | EventSuperuserBackupCodesRegenerated
  | EventSuperuserSessionRevoked
  | EventTeamCreated | EventTeamMemberRoleChanged | EventTeamMemberStatusChanged
  | EventTeamMemberRemoved | EventTeamInvitationCreated | EventTeamInvitationAccepted
  | EventTeamInvitationRevoked
  | EventPATCreated | EventPATRevoked
  | EventDeviceApproved | EventDeviceDenied
  | EventPINSet | EventPINCleared | EventPINSignInSucceeded | EventPINSignInFailed
  | EventPINSignInLocked | EventPINDeviceRevoked | EventPINDeviceImported
  | EventPINCredentialImport

datatype event_result = ResultSuccess | ResultFailure | ResultDenied

text \<open>The values a \<open>map[string]any\<close> of metadata holds in this code.\<close>

datatype meta_value = MStr string | MInt int | MBool bool | MStrs "string list"

record event =
  ev_Type :: event_type
  ev_Result :: event_result
  ev_ActorID :: string
  ev_TargetID :: string
  ev_Email :: string
  ev_UserAgent :: string
  ev_IPAddress :: string
  ev_Metadata :: "(string \<times> meta_value) list"

text \<open>A composite literal that names no field leaves every one at its zero value.\<close>

definition event_of :: "event_type \<Rightarrow> event_result \<Rightarrow> event" where
  "event_of t r = \<lparr>ev_Type = t, ev_Result = r, ev_ActorID = '''', ev_TargetID = '''',
     ev_Email = '''', ev_UserAgent = '''', ev_IPAddress = '''', ev_Metadata = []\<rparr>"

end
