(* ===== verification/StoreTypes.thy ===== *)
theory StoreTypes
  imports Errors
begin

text \<open>
  The rows of package \<open>store\<close> (\<open>store/*.go\<close>) as records, field by field, and
  \<open>store.NormalizeEmail\<close>. A Go pointer field is an \<open>option\<close>; a \<open>[]byte\<close> of ciphertext is a
  list of bytes. Pointers to rows never escape the stores, which copy on the way in and out, so a
  row is a value here.
\<close>

type_synonym byte = "8 word"

section \<open>Users, sessions and their tokens (store/user.go)\<close>

record user =
  u_ID :: string
  u_Email :: string
  u_PasswordHash :: string
  u_EmailVerified :: bool
  u_EmailVerifiedAt :: "time option"
  u_CreatedAt :: time
  u_UpdatedAt :: time

record refresh_token =
  rt_ID :: string
  rt_UserID :: string
  rt_TokenHash :: string
  rt_ExpiresAt :: time
  rt_RevokedAt :: "time option"
  rt_UserAgent :: string
  rt_IPAddress :: string
  rt_TeamID :: "string option"
  rt_CreatedAt :: time

record superuser =
  su_ID :: string
  su_Email :: string
  su_PasswordHash :: string
  su_DisplayName :: string
  su_IsActive :: bool
  su_CreatedBy :: "string option"
  su_LastLoginAt :: "time option"
  su_CreatedAt :: time
  su_UpdatedAt :: time

record superuser_token =
  sr_ID :: string
  sr_SuperuserID :: string
  sr_TokenHash :: string
  sr_ExpiresAt :: time
  sr_RevokedAt :: "time option"
  sr_UserAgent :: string
  sr_IPAddress :: string
  sr_CreatedAt :: time

record password_reset_token =
  pr_ID :: string
  pr_UserID :: string
  pr_TokenHash :: string
  pr_ExpiresAt :: time
  pr_UsedAt :: "time option"
  pr_CreatedAt :: time

record email_verification_token =
  ev_ID :: string
  ev_UserID :: string
  ev_TokenHash :: string
  ev_ExpiresAt :: time
  ev_UsedAt :: "time option"
  ev_CreatedAt :: time

record totp_settings =
  ts_ID :: string
  ts_UserID :: string
  ts_SecretEncrypted :: "byte list"
  ts_Enabled :: bool
  ts_VerifiedAt :: "time option"
  ts_RecoveryCodeHashes :: "string list"
  ts_RecoveryCodesUsed :: int
  ts_CreatedAt :: time
  ts_UpdatedAt :: time

record pending_session =
  ps_ID :: string
  ps_UserID :: string
  ps_TokenHash :: string
  ps_ExpiresAt :: time
  ps_CreatedAt :: time

record failed_attempt =
  fa_ID :: string
  fa_Email :: string
  fa_IPAddress :: string
  fa_CreatedAt :: time

section \<open>Teams (store/team.go)\<close>

text \<open>
  \<open>store.Role\<close> is a string type: a host may define roles of its own, so it is a string with the
  three named constants.
\<close>

type_synonym role = string

definition RoleOwner :: role where "RoleOwner = ''owner''"
definition RoleAdmin :: role where "RoleAdmin = ''admin''"
definition RoleMember :: role where "RoleMember = ''member''"

lemmas role_defs = RoleOwner_def RoleAdmin_def RoleMember_def

lemma roles_distinct [simp]:
  "RoleOwner \<noteq> RoleAdmin" "RoleAdmin \<noteq> RoleOwner" "RoleOwner \<noteq> RoleMember"
  "RoleMember \<noteq> RoleOwner" "RoleAdmin \<noteq> RoleMember" "RoleMember \<noteq> RoleAdmin"
  by (simp_all add: role_defs)

record team =
  t_ID :: string
  t_Name :: string
  t_Slug :: string
  t_OwnerID :: string
  t_CreatedAt :: time
  t_UpdatedAt :: time

record member =
  m_ID :: string
  m_TeamID :: string
  m_UserID :: "string option"
  m_Role :: role
  m_DisplayName :: string
  m_Email :: string
  m_IsActive :: bool
  m_CreatedAt :: time
  m_UpdatedAt :: time

datatype invitation_status = InvitationPending | InvitationAccepted | InvitationRevoked

record invitation =
  i_ID :: string
  i_TeamID :: string
  i_Email :: string
  i_TokenHash :: string
  i_Role :: role
  i_Status :: invitation_status
  i_InvitedByID :: string
  i_ExpiresAt :: time
  i_AcceptedAt :: "time option"
  i_CreatedAt :: time
  i_UpdatedAt :: time

section \<open>Non-interactive credentials (store/pat.go, device.go, pin.go, emaillogin.go)\<close>

record pat_token =
  pt_ID :: string
  pt_UserID :: string
  pt_Name :: string
  pt_TokenHash :: string
  pt_Scopes :: "string list"
  pt_ExpiresAt :: "time option"
  pt_LastUsedAt :: "time option"
  pt_RevokedAt :: "time option"
  pt_CreatedAt :: time

datatype device_status =
  DeviceAuthorizationPending | DeviceAuthorizationApproved | DeviceAuthorizationDenied

record device_authorization =
  da_ID :: string
  da_DeviceCodeHash :: string
  da_UserCode :: string
  da_ClientID :: string
  da_Scope :: string
  da_Status :: device_status
  da_UserID :: "string option"
  da_ExpiresAt :: time
  da_IntervalSeconds :: int
  da_LastPolledAt :: "time option"
  da_CreatedAt :: time

record pin_credential =
  pc_UserID :: string
  pc_PINHash :: string
  pc_CreatedAt :: time
  pc_UpdatedAt :: time

record bound_device =
  bd_ID :: string
  bd_UserID :: string
  bd_Name :: string
  bd_TokenHash :: string
  bd_UserAgent :: string
  bd_IPAddress :: string
  bd_ExpiresAt :: "time option"
  bd_LastUsedAt :: "time option"
  bd_RevokedAt :: "time option"
  bd_CreatedAt :: time

datatype email_login_kind = EmailLoginLink | EmailLoginCode

record email_login_token =
  el_ID :: string
  el_Email :: string
  el_Kind :: email_login_kind
  el_TokenHash :: string
  el_Attempts :: int
  el_ExpiresAt :: time
  el_UsedAt :: "time option"
  el_CreatedAt :: time

section \<open>Linked identities and authenticators (store/account.go, webauthn.go)\<close>

record account =
  ac_ID :: string
  ac_UserID :: string
  ac_Provider :: string
  ac_ProviderAccountID :: string
  ac_Email :: string
  ac_EmailVerified :: bool
  ac_AccessTokenEncrypted :: "byte list"
  ac_RefreshTokenEncrypted :: "byte list"
  ac_TokenExpiresAt :: "time option"
  ac_Scopes :: "string list"
  ac_CreatedAt :: time
  ac_UpdatedAt :: time

record webauthn_credential =
  wc_ID :: string
  wc_UserID :: string
  wc_CredentialID :: "byte list"
  wc_Data :: "byte list"
  wc_Name :: string
  wc_Transports :: "string list"
  wc_BackupEligible :: bool
  wc_BackupState :: bool
  wc_CloneWarning :: bool
  wc_LastUsedAt :: "time option"
  wc_CreatedAt :: time
  wc_UpdatedAt :: time

record webauthn_challenge =
  ch_ID :: string
  ch_TokenHash :: string
  ch_UserID :: "string option"
  ch_Data :: "byte list"
  ch_ExpiresAt :: time
  ch_CreatedAt :: time

section \<open>Addresses (store/email.go)\<close>

text \<open>
  \<open>strings.TrimSpace\<close> and \<open>strings.ToLower\<close> on ASCII text: the six ASCII white-space characters
  are trimmed and the 26 upper-case letters lowered. Non-ASCII bytes are left alone here, where Go
  decodes UTF-8 and applies the Unicode tables; addresses outside ASCII are not modelled exactly.
\<close>

definition is_space :: "char \<Rightarrow> bool" where
  "is_space c \<longleftrightarrow> c \<in> {CHR 0x09, CHR 0x0A, CHR 0x0B, CHR 0x0C, CHR 0x0D, CHR 0x20}"

definition TrimSpace :: "string \<Rightarrow> string" where
  "TrimSpace s = rev (dropWhile is_space (rev (dropWhile is_space s)))"

definition lower_char :: "char \<Rightarrow> char" where
  "lower_char c = (let n = (of_char c :: nat) in
     if 65 \<le> n \<and> n \<le> 90 then char_of (n + 32) else c)"

definition ToLower :: "string \<Rightarrow> string" where
  "ToLower s = map lower_char s"

definition NormalizeEmail :: "string \<Rightarrow> string" where
  "NormalizeEmail email = ToLower (TrimSpace email)"

lemma lower_char_idem [simp]: "lower_char (lower_char c) = lower_char c"
proof -
  have "(of_char c :: nat) < 256" by (rule nat_of_char_less_256)
  then show ?thesis by (auto simp: lower_char_def Let_def)
qed

lemma is_space_nat: "is_space c \<longleftrightarrow> (of_char c :: nat) \<in> {9, 10, 11, 12, 13, 32}"
proof -
  have eq: "c = d \<longleftrightarrow> (of_char c :: nat) = of_char d" for d :: char
    by (simp add: of_char_eq_iff)
  show ?thesis by (simp only: is_space_def insert_iff empty_iff eq) simp
qed

lemma is_space_lower [simp]: "is_space (lower_char c) = is_space c"
  by (auto simp: is_space_nat lower_char_def Let_def take_bit_nat_eq_self_iff)

lemma dropWhile_map_lower: "dropWhile is_space (map lower_char s) = map lower_char (dropWhile is_space s)"
  by (induction s) auto

lemma dropWhile_idem: "dropWhile P (dropWhile P s) = dropWhile P s"
  by (induction s) auto

lemma TrimSpace_ToLower: "TrimSpace (ToLower s) = ToLower (TrimSpace s)"
  by (simp add: TrimSpace_def ToLower_def dropWhile_map_lower rev_map)

lemma dropWhile_rev_dropWhile:
  "dropWhile P s = s \<Longrightarrow> dropWhile P (rev (dropWhile P (rev s))) = rev (dropWhile P (rev s))"
  by (induction s rule: rev_induct) (auto simp: dropWhile_append split: if_splits)

lemma TrimSpace_idem [simp]: "TrimSpace (TrimSpace s) = TrimSpace s"
  unfolding TrimSpace_def
  by (simp add: dropWhile_rev_dropWhile dropWhile_idem)

lemma ToLower_idem [simp]: "ToLower (ToLower s) = ToLower s"
  by (simp add: ToLower_def)

text \<open>
  Normalising an address twice is normalising it once, so the key of the account lookup and the
  key of the failed-attempt counter agree whichever of the two was normalised first.
\<close>

lemma NormalizeEmail_idem [simp]: "NormalizeEmail (NormalizeEmail email) = NormalizeEmail email"
  by (simp add: NormalizeEmail_def TrimSpace_ToLower)

end
