(* ===== verification/Ports.thy ===== *)
theory Ports
  imports StoreTypes
begin

text \<open>
  The contracts of the \<open>store\<close> package's interfaces that the services rest on, as locales. A
  locale fixes the operations a service calls and assumes what the interface's documentation
  promises; its lemmas are proved once from the promises, and every in-memory store that provides
  such an interface interprets it in its own theory.
\<close>

section \<open>Reading a row through a unique index\<close>

text \<open>
  \<open>id, ok := s.byHash[hash]; if !ok { return ErrNotFound }; cp := *s.byID[id]\<close>: a dangling entry
  is a nil dereference.
\<close>

definition row_via :: "('k \<rightharpoonup> string) \<Rightarrow> (string \<rightharpoonup> 'r) \<Rightarrow> 'k \<Rightarrow> error + 'r" where
  "row_via ix rows k =
     (case ix k of
        None \<Rightarrow> Inl ErrNotFound
      | Some i \<Rightarrow> (case rows i of None \<Rightarrow> Inl Panic | Some r \<Rightarrow> Inr r))"

lemma row_via_errors: "points_into ix rows \<Longrightarrow> row_via ix rows k = Inl e \<Longrightarrow> e = ErrNotFound"
  by (auto simp: row_via_def points_into_def split: option.splits)

lemma row_via_inserted [simp]: "row_via (ix(k \<mapsto> i)) (rows(i \<mapsto> r)) k = Inr r"
  by (simp add: row_via_def)

lemma row_via_insert_other:
  "points_into ix rows \<Longrightarrow> rows i = None \<Longrightarrow> k' \<noteq> k \<Longrightarrow>
   row_via (ix(k \<mapsto> i)) (rows(i \<mapsto> r)) k' = row_via ix rows k'"
  by (auto simp: row_via_def points_into_def split: option.splits)

lemma row_via_SomeD:
  "row_via ix rows k = Inr r \<Longrightarrow> \<exists>i. ix k = Some i \<and> rows i = Some r"
  by (auto simp: row_via_def split: option.splits)

lemma row_via_indexed:
  "hash_indexed ho ix rows \<Longrightarrow> row_via ix rows k = Inr r \<Longrightarrow>
   ho r = k \<and> (\<exists>i. ix k = Some i \<and> rows i = Some r)"
  by (fastforce simp: row_via_def hash_indexed_def split: option.splits)

lemma row_via_removed [simp]: "row_via (ix(k := None)) rows k = Inl ErrNotFound"
  by (simp add: row_via_def)

text \<open>
  The listing loops: \<open>read_each\<close> dereferences every id, \<open>read_present\<close> skips the ids that have no
  row.
\<close>

fun read_each :: "(string \<rightharpoonup> 'r) \<Rightarrow> string list \<Rightarrow> error + 'r list" where
  "read_each rows [] = Inr []"
| "read_each rows (i # is) =
     (case rows i of
        None \<Rightarrow> Inl Panic
      | Some r \<Rightarrow> (case read_each rows is of Inl e \<Rightarrow> Inl e | Inr rs \<Rightarrow> Inr (r # rs)))"

fun read_present :: "(string \<rightharpoonup> 'r) \<Rightarrow> string list \<Rightarrow> 'r list" where
  "read_present rows [] = []"
| "read_present rows (i # is) =
     (case rows i of None \<Rightarrow> read_present rows is | Some r \<Rightarrow> r # read_present rows is)"

lemma read_each_eq:
  "(\<And>i. i \<in> set is \<Longrightarrow> rows i \<noteq> None) \<Longrightarrow> read_each rows is = Inr (map (the \<circ> rows) is)"
  by (induction "is") (auto split: option.splits)

lemma read_each_ok: "read_each rows is = Inr rs \<Longrightarrow> map rows is = map Some rs"
  by (induction "is" arbitrary: rs) (auto split: option.splits sum.splits)

lemma set_read_present: "set (read_present rows is) = {r. \<exists>i \<in> set is. rows i = Some r}"
  by (induction "is") (auto split: option.splits)

lemma read_present_cong:
  "(\<And>i. i \<in> set is \<Longrightarrow> rows i = rows' i) \<Longrightarrow> read_present rows is = read_present rows' is"
  by (induction "is") (auto split: option.splits)

section \<open>Rows found by the hash of a credential\<close>

text \<open>
  \<open>Create\<dots>\<close> and \<open>Get\<dots>ByHash\<close> of every table of credentials: refresh tokens, personal access
  tokens, reset and verification tokens, pending two-factor sessions, invitations, bound devices,
  device authorisations.
\<close>

locale hash_table =
  fixes create :: "'r \<Rightarrow> 's \<Rightarrow> (error + unit) \<times> 's"
    and get :: "'s \<Rightarrow> string \<Rightarrow> error + 'r"
    and hash_of :: "'r \<Rightarrow> string"
    and id_of :: "'r \<Rightarrow> string"
    and has_id :: "'s \<Rightarrow> string \<Rightarrow> bool"
    and inv :: "'s \<Rightarrow> bool"
  assumes create_inv: "inv s \<Longrightarrow> \<not> has_id s (id_of r) \<Longrightarrow> create r s = (x, s') \<Longrightarrow> inv s'"
    and create_get: "create r s = (Inr (), s') \<Longrightarrow> get s' (hash_of r) = Inr r"
    and create_frame: "create r s = (Inr (), s') \<Longrightarrow> inv s \<Longrightarrow> \<not> has_id s (id_of r) \<Longrightarrow>
           h \<noteq> hash_of r \<Longrightarrow> get s' h = get s h"
    and create_has_id: "create r s = (Inr (), s') \<Longrightarrow> has_id s' i \<longleftrightarrow> has_id s i \<or> i = id_of r"
    and get_errors: "inv s \<Longrightarrow> get s h = Inl e \<Longrightarrow> e = ErrNotFound"
begin

text \<open>A run of creations, stopping at the first refusal.\<close>

fun create_all :: "'r list \<Rightarrow> 's \<Rightarrow> (error + unit) \<times> 's" where
  "create_all [] s = (Inr (), s)"
| "create_all (r # rs) s =
     (case create r s of (Inl e, s') \<Rightarrow> (Inl e, s') | (Inr _, s') \<Rightarrow> create_all rs s')"

text \<open>Fresh ids: \<open>crypto.NewID\<close> draws 122 random bits for each.\<close>

lemma create_all_inv:
  "inv s \<Longrightarrow> distinct (map id_of rs) \<Longrightarrow> (\<And>r. r \<in> set rs \<Longrightarrow> \<not> has_id s (id_of r)) \<Longrightarrow>
   create_all rs s = (Inr (), s') \<Longrightarrow> inv s'"
proof (induction rs arbitrary: s)
  case Nil
  then show ?case by simp
next
  case (Cons r rs)
  from Cons.prems(4) obtain s1 where s1: "create r s = (Inr (), s1)" and
    rest: "create_all rs s1 = (Inr (), s')"
    by (auto split: prod.splits sum.splits)
  have "inv s1" using create_inv [OF Cons.prems(1) _ s1] Cons.prems(3) by auto
  moreover have "\<not> has_id s1 (id_of x)" if "x \<in> set rs" for x
    using that Cons.prems(2,3) create_has_id [OF s1] by (force simp: image_iff)
  ultimately show ?case using Cons.IH rest Cons.prems(2) by auto
qed

lemma get_no_panic: "inv s \<Longrightarrow> get s h \<noteq> Inl Panic"
  using get_errors by blast

lemma create_all_get_other:
  "create_all rs s = (Inr (), s') \<Longrightarrow> inv s \<Longrightarrow> distinct (map id_of rs) \<Longrightarrow>
   (\<And>r. r \<in> set rs \<Longrightarrow> \<not> has_id s (id_of r)) \<Longrightarrow> h \<notin> hash_of ` set rs \<Longrightarrow> get s' h = get s h"
proof (induction rs arbitrary: s)
  case Nil
  then show ?case by simp
next
  case (Cons r rs)
  from Cons.prems(1) obtain s1 where s1: "create r s = (Inr (), s1)" and
    rest: "create_all rs s1 = (Inr (), s')"
    by (auto split: prod.splits sum.splits)
  have "\<not> has_id s1 (id_of x)" if "x \<in> set rs" for x
    using that Cons.prems(3,4) create_has_id [OF s1] by (force simp: image_iff)
  then have "get s' h = get s1 h"
    using Cons.IH [OF rest] create_inv [OF Cons.prems(2) _ s1] Cons.prems(3,4,5) by auto
  also have "get s1 h = get s h"
    using create_frame [OF s1 Cons.prems(2)] Cons.prems(4,5) by auto
  finally show ?case .
qed

text \<open>
  Tokens created with fresh ids and distinct hashes all resolve afterwards, each to its own row:
  issuing a credential never disturbs one issued before it.
\<close>

lemma create_all_get:
  "create_all rs s = (Inr (), s') \<Longrightarrow> inv s \<Longrightarrow> distinct (map id_of rs) \<Longrightarrow>
   distinct (map hash_of rs) \<Longrightarrow> (\<And>r. r \<in> set rs \<Longrightarrow> \<not> has_id s (id_of r)) \<Longrightarrow>
   r \<in> set rs \<Longrightarrow> get s' (hash_of r) = Inr r"
proof (induction rs arbitrary: s)
  case Nil
  then show ?case by simp
next
  case (Cons a rs)
  from Cons.prems(1) obtain s1 where s1: "create a s = (Inr (), s1)" and
    rest: "create_all rs s1 = (Inr (), s')"
    by (auto split: prod.splits sum.splits)
  have fresh: "\<not> has_id s1 (id_of x)" if "x \<in> set rs" for x
    using that Cons.prems(3,5) create_has_id [OF s1] by (force simp: image_iff)
  have inv1: "inv s1" using create_inv [OF Cons.prems(2) _ s1] Cons.prems(5) by auto
  show ?case
  proof (cases "r \<in> set rs")
    case True
    with Cons.IH [OF rest inv1 _ _ fresh] Cons.prems(3,4) show ?thesis by auto
  next
    case False
    then have "r = a" using Cons.prems(6) by simp
    moreover have "hash_of a \<notin> hash_of ` set rs" using Cons.prems(4) by auto
    ultimately show ?thesis
      using create_all_get_other [OF rest inv1 _ fresh] Cons.prems(3) create_get [OF s1] by auto
  qed
qed

end

section \<open>Compare-and-set: credentials that can be spent once\<close>

text \<open>
  \<open>ConsumeRefreshToken\<close>, \<open>ConsumeSuperuserRefreshToken\<close>, \<open>MarkEmailLoginTokenUsed\<close>,
  \<open>ConsumeWebAuthnChallenge\<close>: the call succeeds only on a live row and leaves it dead, atomically.
  \<open>others\<close> is any other step of the system that does not bring a spent row back to life.
\<close>

locale spend_once =
  fixes spend :: "string \<Rightarrow> time \<Rightarrow> 's \<Rightarrow> bool \<times> 's"
    and live :: "'s \<Rightarrow> string \<Rightarrow> bool"
  assumes spend_iff: "fst (spend i t s) \<longleftrightarrow> live s i"
    and spend_dead: "\<not> live (snd (spend i t s)) i"
    and spend_other: "j \<noteq> i \<Longrightarrow> live (snd (spend i t s)) j \<longleftrightarrow> live s j"
begin

text \<open>
  Any number of callers race on any credentials, in any order: the answers of the calls on
  \<open>i\<close>.
\<close>

fun race :: "(string \<times> time) list \<Rightarrow> 's \<Rightarrow> (string \<times> bool) list" where
  "race [] s = []"
| "race ((i, t) # cs) s = (i, fst (spend i t s)) # race cs (snd (spend i t s))"

definition wins :: "string \<Rightarrow> (string \<times> bool) list \<Rightarrow> nat" where
  "wins i answers = length (filter (\<lambda>a. a = (i, True)) answers)"

lemma race_dead: "\<not> live s i \<Longrightarrow> wins i (race cs s) = 0"
proof (induction cs arbitrary: s)
  case Nil
  then show ?case by (simp add: wins_def)
next
  case (Cons c cs)
  obtain j t where c: "c = (j, t)" by (cases c)
  have "\<not> live (snd (spend j t s)) i"
    using Cons.prems spend_dead spend_other by (cases "j = i") auto
  then have "wins i (race cs (snd (spend j t s))) = 0" by (rule Cons.IH)
  then show ?case using Cons.prems by (auto simp: c wins_def spend_iff)
qed

lemma race_at_most_one: "wins i (race cs s) \<le> 1"
proof (induction cs arbitrary: s)
  case Nil
  then show ?case by (simp add: wins_def)
next
  case (Cons c cs)
  obtain j t where c: "c = (j, t)" by (cases c)
  show ?case
  proof (cases "j = i \<and> live s i")
    case True
    then have "wins i (race cs (snd (spend j t s))) = 0"
      by (simp add: race_dead spend_dead)
    then show ?thesis using True by (simp add: c wins_def)
  next
    case False
    then show ?thesis using Cons.IH [of "snd (spend j t s)"] by (auto simp: c wins_def spend_iff)
  qed
qed

lemma race_exactly_one:
  "live s i \<Longrightarrow> (\<exists>t. (i, t) \<in> set cs) \<Longrightarrow> wins i (race cs s) = 1"
proof (induction cs arbitrary: s)
  case Nil
  then show ?case by simp
next
  case (Cons c cs)
  obtain j t where c: "c = (j, t)" by (cases c)
  show ?case
  proof (cases "j = i")
    case True
    then have "wins i (race cs (snd (spend j t s))) = 0"
      by (simp add: race_dead spend_dead)
    then show ?thesis using True Cons.prems(1) by (simp add: c wins_def spend_iff)
  next
    case False
    then have "wins i (race cs (snd (spend j t s))) = 1"
      using Cons.IH [of "snd (spend j t s)"] Cons.prems c spend_other by auto
    then show ?thesis using False by (simp add: c wins_def)
  qed
qed

end

section \<open>The failed-attempt table\<close>

text \<open>
  \<open>LockoutStore\<close>: attempts are recorded under a key with their instant and counted in a window;
  the automatic lockout of every plane is derived from the count.
\<close>

locale attempt_counter =
  fixes record_attempt :: "failed_attempt \<Rightarrow> 's \<Rightarrow> 's"
    and count_since :: "'s \<Rightarrow> string \<Rightarrow> time \<Rightarrow> nat"
    and clear_attempts :: "string \<Rightarrow> 's \<Rightarrow> 's"
  assumes count_record: "count_since (record_attempt a s) k since =
            count_since s k since + (if fa_Email a = k \<and> After (fa_CreatedAt a) since then 1 else 0)"
    and count_clear: "count_since (clear_attempts k' s) k since =
            (if k = k' then 0 else count_since s k since)"
begin

lemma count_record_mono: "count_since s k since \<le> count_since (record_attempt a s) k since"
  by (simp add: count_record)

text \<open>\<open>n\<close> failures inside the window raise the count by \<open>n\<close>: nothing is lost.\<close>

lemma count_fold_record:
  "count_since (fold record_attempt as s) k since =
     count_since s k since + length (filter (\<lambda>a. fa_Email a = k \<and> After (fa_CreatedAt a) since) as)"
  by (induction as arbitrary: s) (auto simp: count_record)

text \<open>Attempts older than the window do not count: the lockout heals by itself.\<close>

lemma count_fold_aged:
  "(\<And>a. a \<in> set as \<Longrightarrow> fa_CreatedAt a \<le> since) \<Longrightarrow>
   count_since (fold record_attempt as s) k since = count_since s k since"
proof -
  assume old: "\<And>a. a \<in> set as \<Longrightarrow> fa_CreatedAt a \<le> since"
  then have "filter (\<lambda>a. fa_Email a = k \<and> After (fa_CreatedAt a) since) as = []"
    by (auto simp: filter_empty_conv After_def dest!: old)
  then show ?thesis by (simp only: count_fold_record) simp
qed

end

end
