(* ===== verification/MemSession.thy ===== *)
theory MemSession
  imports Ports
begin

text \<open>
  The in-memory stores of the user plane: \<open>memstore/user.go\<close>, \<open>refresh_tokens.go\<close>, \<open>tokens.go\<close>,
  \<open>totp.go\<close> and \<open>lockout.go\<close>. A store is a record of its maps; each method is one definition,
  run under the store's mutex and so atomic; \<open>now\<close> is what \<open>nowFunc()\<close> returns. The invariant of a
  store is what every method keeps: rows are filed under their own id and no index entry dangles,
  so no method dereferences nil. The theory ends with the interpretations of the port contracts.
\<close>

section \<open>UserStore (memstore/user.go)\<close>

record user_store =
  us_byID :: "string \<rightharpoonup> user"
  us_byEmail :: "string \<rightharpoonup> string"

definition NewUserStore :: user_store where
  "NewUserStore = \<lparr>us_byID = Map.empty, us_byEmail = Map.empty\<rparr>"

definition mem_CreateUser :: "user \<Rightarrow> user_store \<Rightarrow> (error + unit) \<times> user_store" where
  [mem_defs]: "mem_CreateUser u s =
     (case us_byEmail s (u_Email u) of
        Some _ \<Rightarrow> (Inl ErrConflict, s)
      | None \<Rightarrow> (Inr (), s\<lparr>us_byID := (us_byID s)(u_ID u \<mapsto> u),
                          us_byEmail := (us_byEmail s)(u_Email u \<mapsto> u_ID u)\<rparr>))"

definition mem_GetUserByID :: "user_store \<Rightarrow> string \<Rightarrow> error + user" where
  [mem_defs]: "mem_GetUserByID s i = (case us_byID s i of None \<Rightarrow> Inl ErrNotFound | Some u \<Rightarrow> Inr u)"

definition mem_GetUserByEmail :: "user_store \<Rightarrow> string \<Rightarrow> error + user" where
  [mem_defs]: "mem_GetUserByEmail s email = row_via (us_byEmail s) (us_byID s) email"

definition mem_UpdateUser :: "user \<Rightarrow> user_store \<Rightarrow> (error + unit) \<times> user_store" where
  [mem_defs]: "mem_UpdateUser u s =
     (case us_byID s (u_ID u) of
        None \<Rightarrow> (Inl ErrNotFound, s)
      | Some _ \<Rightarrow> (Inr (), s\<lparr>us_byID := (us_byID s)(u_ID u \<mapsto> u)\<rparr>))"

definition us_inv :: "user_store \<Rightarrow> bool" where
  "us_inv s \<longleftrightarrow> points_into (us_byEmail s) (us_byID s) \<and>
     (\<forall>i u. us_byID s i = Some u \<longrightarrow> u_ID u = i)"

lemma us_inv_new: "us_inv NewUserStore"
  by (simp add: us_inv_def NewUserStore_def)

lemma us_inv_create: "us_inv s \<Longrightarrow> mem_CreateUser u s = (r, s') \<Longrightarrow> us_inv s'"
  by (auto simp: us_inv_def mem_defs split: option.splits if_splits)

lemma us_inv_update: "us_inv s \<Longrightarrow> mem_UpdateUser u s = (r, s') \<Longrightarrow> us_inv s'"
  by (auto simp: us_inv_def mem_defs split: option.splits if_splits)

lemma us_get_id: "us_inv s \<Longrightarrow> mem_GetUserByID s i = Inr u \<Longrightarrow> u_ID u = i"
  by (auto simp: us_inv_def mem_defs split: option.splits)

section \<open>RefreshTokenStore (memstore/refresh_tokens.go)\<close>

record refresh_store =
  rs_byID :: "string \<rightharpoonup> refresh_token"
  rs_byHash :: "string \<rightharpoonup> string"
  rs_byUserID :: multimap

definition NewRefreshTokenStore :: refresh_store where
  "NewRefreshTokenStore = \<lparr>rs_byID = Map.empty, rs_byHash = Map.empty, rs_byUserID = no_ids\<rparr>"

definition mem_CreateRefreshToken ::
  "refresh_token \<Rightarrow> refresh_store \<Rightarrow> (error + unit) \<times> refresh_store" where
  [mem_defs]: "mem_CreateRefreshToken t s =
     (Inr (), s\<lparr>rs_byID := (rs_byID s)(rt_ID t \<mapsto> t),
                rs_byHash := (rs_byHash s)(rt_TokenHash t \<mapsto> rt_ID t),
                rs_byUserID := append_id (rt_UserID t) (rt_ID t) (rs_byUserID s)\<rparr>)"

definition mem_GetRefreshTokenByHash :: "refresh_store \<Rightarrow> string \<Rightarrow> error + refresh_token" where
  [mem_defs]: "mem_GetRefreshTokenByHash s h = row_via (rs_byHash s) (rs_byID s) h"

definition mem_RevokeRefreshToken ::
  "time \<Rightarrow> string \<Rightarrow> refresh_store \<Rightarrow> (error + unit) \<times> refresh_store" where
  [mem_defs]: "mem_RevokeRefreshToken now i s =
     (case rs_byID s i of
        None \<Rightarrow> (Inl ErrNotFound, s)
      | Some t \<Rightarrow> (Inr (), s\<lparr>rs_byID := (rs_byID s)(i \<mapsto> t\<lparr>rt_RevokedAt := Some now\<rparr>)\<rparr>))"

definition mem_ConsumeRefreshToken ::
  "time \<Rightarrow> string \<Rightarrow> refresh_store \<Rightarrow> (error + bool) \<times> refresh_store" where
  [mem_defs]: "mem_ConsumeRefreshToken now i s =
     (case rs_byID s i of
        None \<Rightarrow> (Inr False, s)
      | Some t \<Rightarrow>
          (if rt_RevokedAt t \<noteq> None then (Inr False, s)
           else (Inr True, s\<lparr>rs_byID := (rs_byID s)(i \<mapsto> t\<lparr>rt_RevokedAt := Some now\<rparr>)\<rparr>)))"

definition mem_TouchRefreshToken ::
  "string \<Rightarrow> time \<Rightarrow> refresh_store \<Rightarrow> (error + unit) \<times> refresh_store" where
  [mem_defs]: "mem_TouchRefreshToken i expiresAt s =
     (case rs_byID s i of
        None \<Rightarrow> (Inl ErrNotFound, s)
      | Some t \<Rightarrow>
          (if rt_RevokedAt t \<noteq> None then (Inl ErrNotFound, s)
           else (Inr (), s\<lparr>rs_byID := (rs_byID s)(i \<mapsto> t\<lparr>rt_ExpiresAt := expiresAt\<rparr>)\<rparr>)))"

text \<open>The loop of \<open>RevokeAllUserRefreshTokens\<close> over one user's ids.\<close>

fun revoke_each ::
  "time \<Rightarrow> string list \<Rightarrow> (string \<rightharpoonup> refresh_token) \<Rightarrow> (error + unit) \<times> (string \<rightharpoonup> refresh_token)" where
  "revoke_each now [] rows = (Inr (), rows)"
| "revoke_each now (i # is) rows =
     (case rows i of
        None \<Rightarrow> (Inl Panic, rows)
      | Some t \<Rightarrow>
          revoke_each now is
            (if rt_RevokedAt t = None then rows(i \<mapsto> t\<lparr>rt_RevokedAt := Some now\<rparr>) else rows))"

definition mem_RevokeAllUserRefreshTokens ::
  "time \<Rightarrow> string \<Rightarrow> refresh_store \<Rightarrow> (error + unit) \<times> refresh_store" where
  [mem_defs]: "mem_RevokeAllUserRefreshTokens now userID s =
     (case revoke_each now (rs_byUserID s userID) (rs_byID s) of
        (r, rows) \<Rightarrow> (r, s\<lparr>rs_byID := rows\<rparr>))"

text \<open>The loop of \<open>ListActiveRefreshTokens\<close>.\<close>

fun list_active ::
  "time \<Rightarrow> string list \<Rightarrow> (string \<rightharpoonup> refresh_token) \<Rightarrow> error + refresh_token list" where
  "list_active now [] rows = Inr []"
| "list_active now (i # is) rows =
     (case rows i of
        None \<Rightarrow> Inl Panic
      | Some t \<Rightarrow>
          (case list_active now is rows of
             Inl e \<Rightarrow> Inl e
           | Inr ts \<Rightarrow>
               Inr (if rt_RevokedAt t = None \<and> Before now (rt_ExpiresAt t) then t # ts else ts)))"

definition mem_ListActiveRefreshTokens ::
  "time \<Rightarrow> refresh_store \<Rightarrow> string \<Rightarrow> error + refresh_token list" where
  [mem_defs]: "mem_ListActiveRefreshTokens now s userID =
     list_active now (rs_byUserID s userID) (rs_byID s)"

text \<open>
  The invariant: rows are filed under their own id, no index entry dangles, and every row is
  listed under its user.
\<close>

definition rs_inv :: "refresh_store \<Rightarrow> bool" where
  "rs_inv s \<longleftrightarrow> points_into (rs_byHash s) (rs_byID s) \<and> points_into_all (rs_byUserID s) (rs_byID s) \<and>
     (\<forall>i t. rs_byID s i = Some t \<longrightarrow> rt_ID t = i \<and> i \<in> set (rs_byUserID s (rt_UserID t)))"

text \<open>What revoking does to one row: the first instant is kept.\<close>

definition revoked_at :: "time \<Rightarrow> refresh_token \<Rightarrow> refresh_token" where
  "revoked_at now t = (if rt_RevokedAt t = None then t\<lparr>rt_RevokedAt := Some now\<rparr> else t)"

lemma revoked_at_simps [simp]:
  "rt_RevokedAt (revoked_at now t) \<noteq> None"
  "rt_ID (revoked_at now t) = rt_ID t" "rt_UserID (revoked_at now t) = rt_UserID t"
  "rt_TokenHash (revoked_at now t) = rt_TokenHash t"
  "rt_TeamID (revoked_at now t) = rt_TeamID t"
  "revoked_at now (revoked_at now t) = revoked_at now t"
  by (auto simp: revoked_at_def)

lemma revoke_each_step:
  "rows i = Some t \<Longrightarrow>
   revoke_each now (i # is) rows = revoke_each now is (rows(i \<mapsto> revoked_at now t))"
  by (auto simp: revoked_at_def intro!: arg_cong [where f = "revoke_each now is"])

lemma revoke_each_eq:
  "(\<And>i. i \<in> set is \<Longrightarrow> rows i \<noteq> None) \<Longrightarrow>
   revoke_each now is rows =
     (Inr (), \<lambda>i. if i \<in> set is then map_option (revoked_at now) (rows i) else rows i)"
proof (induction "is" arbitrary: rows)
  case Nil
  then show ?case by simp
next
  case (Cons i "is")
  then obtain t where t: "rows i = Some t" by (meson list.set_intros(1) not_None_eq)
  have "revoke_each now is (rows(i \<mapsto> revoked_at now t)) =
      (Inr (), \<lambda>j. if j \<in> set is then map_option (revoked_at now) ((rows(i \<mapsto> revoked_at now t)) j)
                    else (rows(i \<mapsto> revoked_at now t)) j)"
    by (rule Cons.IH) (use Cons.prems in auto)
  then show ?case
    by (auto simp: revoke_each_step [where rows = rows and i = i and t = t] t fun_eq_iff
        simp del: revoke_each.simps)
qed

lemma list_active_eq:
  "(\<And>i. i \<in> set is \<Longrightarrow> rows i \<noteq> None) \<Longrightarrow>
   list_active now is rows =
     Inr (filter (\<lambda>t. rt_RevokedAt t = None \<and> Before now (rt_ExpiresAt t)) (map (the \<circ> rows) is))"
  by (induction "is") (auto split: option.splits)

lemma rs_inv_new: "rs_inv NewRefreshTokenStore"
  by (simp add: rs_inv_def NewRefreshTokenStore_def)

lemma rs_inv_create: "rs_inv s \<Longrightarrow> mem_CreateRefreshToken t s = (r, s') \<Longrightarrow> rs_inv s'"
  by (auto simp: rs_inv_def mem_defs set_append_id split: if_splits)

text \<open>Any change of rows that keeps ids and owners keeps the invariant.\<close>

lemma rs_inv_rows:
  assumes "rs_inv s" and "\<And>i. rows i = None \<longleftrightarrow> rs_byID s i = None"
    and "\<And>i t'. rows i = Some t' \<Longrightarrow>
           \<exists>t. rs_byID s i = Some t \<and> rt_ID t' = rt_ID t \<and> rt_UserID t' = rt_UserID t"
  shows "rs_inv (s\<lparr>rs_byID := rows\<rparr>)"
  using assms by (fastforce simp: rs_inv_def points_into_def points_into_all_def)

lemma rs_inv_row:
  "rs_inv s \<Longrightarrow> rs_byID s i = Some t \<Longrightarrow> rt_ID t' = rt_ID t \<Longrightarrow> rt_UserID t' = rt_UserID t \<Longrightarrow>
   rs_inv (s\<lparr>rs_byID := (rs_byID s)(i \<mapsto> t')\<rparr>)"
  by (rule rs_inv_rows) (auto split: if_splits)

lemma rs_inv_revoke: "rs_inv s \<Longrightarrow> mem_RevokeRefreshToken now i s = (r, s') \<Longrightarrow> rs_inv s'"
  by (auto simp: mem_defs split: option.splits intro!: rs_inv_row)

lemma rs_inv_consume: "rs_inv s \<Longrightarrow> mem_ConsumeRefreshToken now i s = (r, s') \<Longrightarrow> rs_inv s'"
  by (auto simp: mem_defs split: option.splits if_splits intro!: rs_inv_row)

lemma rs_inv_touch: "rs_inv s \<Longrightarrow> mem_TouchRefreshToken i x s = (r, s') \<Longrightarrow> rs_inv s'"
  by (auto simp: mem_defs split: option.splits if_splits intro!: rs_inv_row)

lemma rs_user_rows: "rs_inv s \<Longrightarrow> i \<in> set (rs_byUserID s u) \<Longrightarrow> rs_byID s i \<noteq> None"
  by (auto simp: rs_inv_def dest: points_into_allD)

lemma revoke_all_eq:
  "rs_inv s \<Longrightarrow> mem_RevokeAllUserRefreshTokens now userID s =
     (Inr (), s\<lparr>rs_byID := \<lambda>i. if i \<in> set (rs_byUserID s userID)
                               then map_option (revoked_at now) (rs_byID s i) else rs_byID s i\<rparr>)"
  by (simp add: mem_defs revoke_each_eq rs_user_rows)

lemma rs_inv_revoke_all:
  "rs_inv s \<Longrightarrow> mem_RevokeAllUserRefreshTokens now userID s = (r, s') \<Longrightarrow> rs_inv s'"
  by (auto simp: revoke_all_eq intro!: rs_inv_rows split: if_splits)

lemma revoke_all_revokes:
  "rs_inv s \<Longrightarrow> mem_RevokeAllUserRefreshTokens now userID s = (r, s') \<Longrightarrow>
   rs_byID s' i = Some t \<Longrightarrow> rt_UserID t = userID \<Longrightarrow> rt_RevokedAt t \<noteq> None"
  by (auto simp: revoke_all_eq rs_inv_def split: if_splits)

lemma list_active_store:
  "rs_inv s \<Longrightarrow> mem_ListActiveRefreshTokens now s userID =
     Inr (filter (\<lambda>t. rt_RevokedAt t = None \<and> Before now (rt_ExpiresAt t))
            (map (the \<circ> rs_byID s) (rs_byUserID s userID)))"
  by (simp add: mem_defs list_active_eq rs_user_rows)

lemma rs_get_row:
  assumes "rs_inv s" and "mem_GetRefreshTokenByHash s h = Inr t"
  shows "rs_byHash s h = Some (rt_ID t)" and "rs_byID s (rt_ID t) = Some t"
  using assms by (auto simp: rs_inv_def mem_defs dest!: row_via_SomeD)

section \<open>PasswordResetStore (memstore/tokens.go)\<close>

record reset_store =
  prs_byID :: "string \<rightharpoonup> password_reset_token"
  prs_byHash :: "string \<rightharpoonup> string"
  prs_byUserID :: multimap

definition NewPasswordResetStore :: reset_store where
  "NewPasswordResetStore = \<lparr>prs_byID = Map.empty, prs_byHash = Map.empty, prs_byUserID = no_ids\<rparr>"

definition mem_CreatePasswordResetToken ::
  "password_reset_token \<Rightarrow> reset_store \<Rightarrow> (error + unit) \<times> reset_store" where
  [mem_defs]: "mem_CreatePasswordResetToken t s =
     (Inr (), s\<lparr>prs_byID := (prs_byID s)(pr_ID t \<mapsto> t),
                prs_byHash := (prs_byHash s)(pr_TokenHash t \<mapsto> pr_ID t),
                prs_byUserID := append_id (pr_UserID t) (pr_ID t) (prs_byUserID s)\<rparr>)"

definition mem_GetPasswordResetTokenByHash ::
  "reset_store \<Rightarrow> string \<Rightarrow> error + password_reset_token" where
  [mem_defs]: "mem_GetPasswordResetTokenByHash s h = row_via (prs_byHash s) (prs_byID s) h"

definition mem_MarkPasswordResetTokenUsed ::
  "time \<Rightarrow> string \<Rightarrow> reset_store \<Rightarrow> (error + unit) \<times> reset_store" where
  [mem_defs]: "mem_MarkPasswordResetTokenUsed now i s =
     (case prs_byID s i of
        None \<Rightarrow> (Inl ErrNotFound, s)
      | Some t \<Rightarrow> (Inr (), s\<lparr>prs_byID := (prs_byID s)(i \<mapsto> t\<lparr>pr_UsedAt := Some now\<rparr>)\<rparr>))"

definition mem_DeleteUserPasswordResetTokens ::
  "string \<Rightarrow> reset_store \<Rightarrow> (error + unit) \<times> reset_store" where
  [mem_defs]: "mem_DeleteUserPasswordResetTokens userID s =
     (case delete_each pr_TokenHash (prs_byUserID s userID) (prs_byID s, prs_byHash s) of
        (rows, ix) \<Rightarrow>
          (Inr (), s\<lparr>prs_byID := rows, prs_byHash := ix,
                     prs_byUserID := (prs_byUserID s)(userID := [])\<rparr>))"

definition prs_inv :: "reset_store \<Rightarrow> bool" where
  "prs_inv s \<longleftrightarrow> hash_indexed pr_TokenHash (prs_byHash s) (prs_byID s) \<and>
     lists_rows (\<lambda>t. Some (pr_UserID t)) (prs_byUserID s) (prs_byID s) \<and>
     (\<forall>i t. prs_byID s i = Some t \<longrightarrow> pr_ID t = i)"

lemma prs_inv_new: "prs_inv NewPasswordResetStore"
  by (simp add: prs_inv_def NewPasswordResetStore_def)

lemma prs_inv_create:
  "prs_inv s \<Longrightarrow> prs_byID s (pr_ID t) = None \<Longrightarrow>
   mem_CreatePasswordResetToken t s = (r, s') \<Longrightarrow> prs_inv s'"
  by (auto simp: prs_inv_def mem_defs intro!: lists_rows_keyed split: if_splits)

lemma prs_inv_mark:
  "prs_inv s \<Longrightarrow> mem_MarkPasswordResetTokenUsed now i s = (r, s') \<Longrightarrow> prs_inv s'"
  by (auto simp: prs_inv_def mem_defs split: option.splits if_splits
      intro!: hash_indexed_update lists_rows_update)

lemma prs_delete_rows:
  assumes "mem_DeleteUserPasswordResetTokens userID s = (r, s')"
  shows "prs_byID s' = (\<lambda>i. if i \<in> set (prs_byUserID s userID) then None else prs_byID s i)"
    and "prs_byUserID s' = (prs_byUserID s)(userID := [])"
  using assms delete_each_rows [of pr_TokenHash "prs_byUserID s userID" "prs_byID s" "prs_byHash s"]
  by (auto simp: mem_defs split: prod.splits)

lemma prs_inv_delete:
  assumes inv: "prs_inv s" and del: "mem_DeleteUserPasswordResetTokens userID s = (r, s')"
  shows "prs_inv s'"
proof -
  note rows = prs_delete_rows [OF del]
  have "hash_indexed pr_TokenHash (prs_byHash s') (prs_byID s')"
    using inv del by (auto simp: prs_inv_def mem_defs dest: delete_each_indexed split: prod.splits)
  moreover have "lists_rows (\<lambda>t. Some (pr_UserID t)) (prs_byUserID s') (prs_byID s')"
    unfolding rows using inv by (intro lists_rows_clear) (simp add: prs_inv_def)
  ultimately show ?thesis using inv by (auto simp: prs_inv_def rows split: if_splits)
qed

text \<open>After the deletion no token of the user is found, whatever its hash.\<close>

lemma prs_delete_all:
  assumes inv: "prs_inv s" and del: "mem_DeleteUserPasswordResetTokens userID s = (r, s')"
    and get: "mem_GetPasswordResetTokenByHash s' h = Inr t"
  shows "pr_UserID t \<noteq> userID"
proof -
  from get obtain i where "prs_byID s' i = Some t" by (auto simp: mem_defs dest!: row_via_SomeD)
  then have row: "prs_byID s i = Some t" and notin: "i \<notin> set (prs_byUserID s userID)"
    by (auto simp: prs_delete_rows [OF del] split: if_splits)
  have "i \<in> set (prs_byUserID s userID) \<longleftrightarrow>
      (\<exists>r. prs_byID s i = Some r \<and> Some (pr_UserID r) = Some userID)"
    by (rule lists_rows_iff [of "\<lambda>t. Some (pr_UserID t)"]) (use inv in \<open>simp add: prs_inv_def\<close>)
  with row notin show ?thesis by auto
qed

lemma prs_get_row:
  assumes "prs_inv s" and "mem_GetPasswordResetTokenByHash s h = Inr t"
  shows "prs_byID s (pr_ID t) = Some t" and "pr_TokenHash t = h"
  using assms by (auto simp: prs_inv_def mem_defs dest!: row_via_indexed)

section \<open>EmailVerificationStore (memstore/tokens.go)\<close>

record verification_store =
  evs_byID :: "string \<rightharpoonup> email_verification_token"
  evs_byHash :: "string \<rightharpoonup> string"
  evs_byUserID :: multimap

definition NewEmailVerificationStore :: verification_store where
  "NewEmailVerificationStore =
     \<lparr>evs_byID = Map.empty, evs_byHash = Map.empty, evs_byUserID = no_ids\<rparr>"

definition mem_CreateEmailVerificationToken ::
  "email_verification_token \<Rightarrow> verification_store \<Rightarrow> (error + unit) \<times> verification_store" where
  [mem_defs]: "mem_CreateEmailVerificationToken t s =
     (Inr (), s\<lparr>evs_byID := (evs_byID s)(ev_ID t \<mapsto> t),
                evs_byHash := (evs_byHash s)(ev_TokenHash t \<mapsto> ev_ID t),
                evs_byUserID := append_id (ev_UserID t) (ev_ID t) (evs_byUserID s)\<rparr>)"

definition mem_GetEmailVerificationTokenByHash ::
  "verification_store \<Rightarrow> string \<Rightarrow> error + email_verification_token" where
  [mem_defs]: "mem_GetEmailVerificationTokenByHash s h = row_via (evs_byHash s) (evs_byID s) h"

definition mem_MarkEmailVerificationTokenUsed ::
  "time \<Rightarrow> string \<Rightarrow> verification_store \<Rightarrow> (error + unit) \<times> verification_store" where
  [mem_defs]: "mem_MarkEmailVerificationTokenUsed now i s =
     (case evs_byID s i of
        None \<Rightarrow> (Inl ErrNotFound, s)
      | Some t \<Rightarrow> (Inr (), s\<lparr>evs_byID := (evs_byID s)(i \<mapsto> t\<lparr>ev_UsedAt := Some now\<rparr>)\<rparr>))"

definition mem_DeleteUserEmailVerificationTokens ::
  "string \<Rightarrow> verification_store \<Rightarrow> (error + unit) \<times> verification_store" where
  [mem_defs]: "mem_DeleteUserEmailVerificationTokens userID s =
     (case delete_each ev_TokenHash (evs_byUserID s userID) (evs_byID s, evs_byHash s) of
        (rows, ix) \<Rightarrow>
          (Inr (), s\<lparr>evs_byID := rows, evs_byHash := ix,
                     evs_byUserID := (evs_byUserID s)(userID := [])\<rparr>))"

definition evs_inv :: "verification_store \<Rightarrow> bool" where
  "evs_inv s \<longleftrightarrow> hash_indexed ev_TokenHash (evs_byHash s) (evs_byID s) \<and>
     lists_rows (\<lambda>t. Some (ev_UserID t)) (evs_byUserID s) (evs_byID s) \<and>
     (\<forall>i t. evs_byID s i = Some t \<longrightarrow> ev_ID t = i)"

lemma evs_inv_new: "evs_inv NewEmailVerificationStore"
  by (simp add: evs_inv_def NewEmailVerificationStore_def)

lemma evs_inv_create:
  "evs_inv s \<Longrightarrow> evs_byID s (ev_ID t) = None \<Longrightarrow>
   mem_CreateEmailVerificationToken t s = (r, s') \<Longrightarrow> evs_inv s'"
  by (auto simp: evs_inv_def mem_defs intro!: lists_rows_keyed split: if_splits)

lemma evs_inv_mark:
  "evs_inv s \<Longrightarrow> mem_MarkEmailVerificationTokenUsed now i s = (r, s') \<Longrightarrow> evs_inv s'"
  by (auto simp: evs_inv_def mem_defs split: option.splits if_splits
      intro!: hash_indexed_update lists_rows_update)

lemma evs_delete_rows:
  assumes "mem_DeleteUserEmailVerificationTokens userID s = (r, s')"
  shows "evs_byID s' = (\<lambda>i. if i \<in> set (evs_byUserID s userID) then None else evs_byID s i)"
    and "evs_byUserID s' = (evs_byUserID s)(userID := [])"
  using assms delete_each_rows [of ev_TokenHash "evs_byUserID s userID" "evs_byID s" "evs_byHash s"]
  by (auto simp: mem_defs split: prod.splits)

lemma evs_inv_delete:
  assumes inv: "evs_inv s" and del: "mem_DeleteUserEmailVerificationTokens userID s = (r, s')"
  shows "evs_inv s'"
proof -
  note rows = evs_delete_rows [OF del]
  have "hash_indexed ev_TokenHash (evs_byHash s') (evs_byID s')"
    using inv del by (auto simp: evs_inv_def mem_defs dest: delete_each_indexed split: prod.splits)
  moreover have "lists_rows (\<lambda>t. Some (ev_UserID t)) (evs_byUserID s') (evs_byID s')"
    unfolding rows using inv by (intro lists_rows_clear) (simp add: evs_inv_def)
  ultimately show ?thesis using inv by (auto simp: evs_inv_def rows split: if_splits)
qed

text \<open>After the deletion no token of the user is found, whatever its hash.\<close>

lemma evs_delete_all:
  assumes inv: "evs_inv s" and del: "mem_DeleteUserEmailVerificationTokens userID s = (r, s')"
    and get: "mem_GetEmailVerificationTokenByHash s' h = Inr t"
  shows "ev_UserID t \<noteq> userID"
proof -
  from get obtain i where "evs_byID s' i = Some t" by (auto simp: mem_defs dest!: row_via_SomeD)
  then have row: "evs_byID s i = Some t" and notin: "i \<notin> set (evs_byUserID s userID)"
    by (auto simp: evs_delete_rows [OF del] split: if_splits)
  have "i \<in> set (evs_byUserID s userID) \<longleftrightarrow>
      (\<exists>r. evs_byID s i = Some r \<and> Some (ev_UserID r) = Some userID)"
    by (rule lists_rows_iff [of "\<lambda>t. Some (ev_UserID t)"]) (use inv in \<open>simp add: evs_inv_def\<close>)
  with row notin show ?thesis by auto
qed

lemma evs_get_row:
  assumes "evs_inv s" and "mem_GetEmailVerificationTokenByHash s h = Inr t"
  shows "evs_byID s (ev_ID t) = Some t" and "ev_TokenHash t = h"
  using assms by (auto simp: evs_inv_def mem_defs dest!: row_via_indexed)

section \<open>TOTPStore and PendingTwoFactorStore (memstore/totp.go)\<close>

type_synonym totp_store = "string \<rightharpoonup> totp_settings"

definition NewTOTPStore :: totp_store where "NewTOTPStore = Map.empty"

definition mem_CreateTOTPSettings ::
  "totp_settings \<Rightarrow> totp_store \<Rightarrow> (error + unit) \<times> totp_store" where
  [mem_defs]: "mem_CreateTOTPSettings t s =
     (if s (ts_UserID t) \<noteq> None then (Inl ErrConflict, s) else (Inr (), s(ts_UserID t \<mapsto> t)))"

definition mem_GetTOTPSettingsByUserID :: "totp_store \<Rightarrow> string \<Rightarrow> error + totp_settings" where
  [mem_defs]: "mem_GetTOTPSettingsByUserID s userID =
     (case s userID of None \<Rightarrow> Inl ErrNotFound | Some t \<Rightarrow> Inr t)"

definition mem_UpdateTOTPSettings ::
  "totp_settings \<Rightarrow> totp_store \<Rightarrow> (error + unit) \<times> totp_store" where
  [mem_defs]: "mem_UpdateTOTPSettings t s =
     (if s (ts_UserID t) = None then (Inl ErrNotFound, s) else (Inr (), s(ts_UserID t \<mapsto> t)))"

definition mem_DeleteTOTPSettings :: "string \<Rightarrow> totp_store \<Rightarrow> (error + unit) \<times> totp_store" where
  [mem_defs]: "mem_DeleteTOTPSettings userID s = (Inr (), s(userID := None))"

record pending_store =
  pss_byID :: "string \<rightharpoonup> pending_session"
  pss_byHash :: "string \<rightharpoonup> string"

definition NewPendingTwoFactorStore :: pending_store where
  "NewPendingTwoFactorStore = \<lparr>pss_byID = Map.empty, pss_byHash = Map.empty\<rparr>"

definition mem_CreatePendingTwoFactorSession ::
  "pending_session \<Rightarrow> pending_store \<Rightarrow> (error + unit) \<times> pending_store" where
  [mem_defs]: "mem_CreatePendingTwoFactorSession x s =
     (Inr (), s\<lparr>pss_byID := (pss_byID s)(ps_ID x \<mapsto> x),
                pss_byHash := (pss_byHash s)(ps_TokenHash x \<mapsto> ps_ID x)\<rparr>)"

definition mem_GetPendingTwoFactorSessionByHash ::
  "pending_store \<Rightarrow> string \<Rightarrow> error + pending_session" where
  [mem_defs]: "mem_GetPendingTwoFactorSessionByHash s h = row_via (pss_byHash s) (pss_byID s) h"

definition mem_DeletePendingTwoFactorSession ::
  "string \<Rightarrow> pending_store \<Rightarrow> (error + unit) \<times> pending_store" where
  [mem_defs]: "mem_DeletePendingTwoFactorSession i s =
     (Inr (), case pss_byID s i of
                None \<Rightarrow> s
              | Some x \<Rightarrow> s\<lparr>pss_byHash := (pss_byHash s)(ps_TokenHash x := None),
                            pss_byID := (pss_byID s)(i := None)\<rparr>)"

definition pss_inv :: "pending_store \<Rightarrow> bool" where
  "pss_inv s \<longleftrightarrow> hash_indexed ps_TokenHash (pss_byHash s) (pss_byID s) \<and>
     (\<forall>i x. pss_byID s i = Some x \<longrightarrow> ps_ID x = i)"

lemma pss_inv_new: "pss_inv NewPendingTwoFactorStore"
  by (simp add: pss_inv_def NewPendingTwoFactorStore_def)

lemma pss_inv_create:
  "pss_inv s \<Longrightarrow> pss_byID s (ps_ID x) = None \<Longrightarrow>
   mem_CreatePendingTwoFactorSession x s = (r, s') \<Longrightarrow> pss_inv s'"
  by (auto simp: pss_inv_def mem_defs split: if_splits)

lemma pss_inv_delete:
  "pss_inv s \<Longrightarrow> mem_DeletePendingTwoFactorSession i s = (r, s') \<Longrightarrow> pss_inv s'"
  by (auto simp: pss_inv_def mem_defs split: option.splits if_splits)

lemma pss_deleted:
  "pss_inv s \<Longrightarrow> mem_GetPendingTwoFactorSessionByHash s h = Inr x \<Longrightarrow>
   mem_DeletePendingTwoFactorSession (ps_ID x) s = (r, s') \<Longrightarrow>
   mem_GetPendingTwoFactorSessionByHash s' h = Inl ErrNotFound"
  by (auto simp: pss_inv_def mem_defs dest!: row_via_indexed)

section \<open>LockoutStore (memstore/lockout.go)\<close>

record lockout_store =
  lo_attempts :: "failed_attempt list"
  lo_locked :: "string \<Rightarrow> bool"

definition NewLockoutStore :: lockout_store where
  "NewLockoutStore = \<lparr>lo_attempts = [], lo_locked = (\<lambda>_. False)\<rparr>"

definition mem_RecordFailedLoginAttempt ::
  "failed_attempt \<Rightarrow> lockout_store \<Rightarrow> (error + unit) \<times> lockout_store" where
  [mem_defs]: "mem_RecordFailedLoginAttempt a s =
     (Inr (), s\<lparr>lo_attempts := lo_attempts s @ [a]\<rparr>)"

definition mem_CountRecentFailedLoginAttempts ::
  "lockout_store \<Rightarrow> string \<Rightarrow> time \<Rightarrow> error + nat" where
  [mem_defs]: "mem_CountRecentFailedLoginAttempts s email since =
     Inr (length (filter (\<lambda>a. fa_Email a = email \<and> After (fa_CreatedAt a) since) (lo_attempts s)))"

definition mem_ClearFailedLoginAttempts ::
  "string \<Rightarrow> lockout_store \<Rightarrow> (error + unit) \<times> lockout_store" where
  [mem_defs]: "mem_ClearFailedLoginAttempts email s =
     (Inr (), s\<lparr>lo_attempts := filter (\<lambda>a. fa_Email a \<noteq> email) (lo_attempts s)\<rparr>)"

definition mem_LockAccount :: "string \<Rightarrow> lockout_store \<Rightarrow> (error + unit) \<times> lockout_store" where
  [mem_defs]: "mem_LockAccount userID s = (Inr (), s\<lparr>lo_locked := (lo_locked s)(userID := True)\<rparr>)"

definition mem_IsAccountLocked :: "lockout_store \<Rightarrow> string \<Rightarrow> error + bool" where
  [mem_defs]: "mem_IsAccountLocked s userID = Inr (lo_locked s userID)"

definition mem_UnlockAccount :: "string \<Rightarrow> lockout_store \<Rightarrow> (error + unit) \<times> lockout_store" where
  [mem_defs]: "mem_UnlockAccount userID s =
     (Inr (), s\<lparr>lo_locked := (lo_locked s)(userID := False)\<rparr>)"

section \<open>The contracts, on these stores\<close>

lemma rs_points: "rs_inv s \<Longrightarrow> points_into (rs_byHash s) (rs_byID s)"
  by (auto simp: rs_inv_def dest: hash_indexed_points)

interpretation refresh_tab: hash_table mem_CreateRefreshToken mem_GetRefreshTokenByHash
  rt_TokenHash rt_ID "\<lambda>s i. rs_byID s i \<noteq> None" rs_inv
proof unfold_locales
  show "rs_inv s'" if "rs_inv s" "\<not> rs_byID s (rt_ID r) \<noteq> None" "mem_CreateRefreshToken r s = (x, s')" for r s x s'
    using that by (auto intro: rs_inv_create)
  show "e = ErrNotFound" if "rs_inv s" "mem_GetRefreshTokenByHash s h = Inl e" for s h e
    using that by (auto simp: mem_GetRefreshTokenByHash_def dest: rs_points intro: row_via_errors)
qed (auto simp: mem_GetRefreshTokenByHash_def mem_CreateRefreshToken_def rs_points row_via_insert_other split: if_splits)

lemma prs_points: "prs_inv s \<Longrightarrow> points_into (prs_byHash s) (prs_byID s)"
  by (auto simp: prs_inv_def dest: hash_indexed_points)

interpretation reset_tab: hash_table mem_CreatePasswordResetToken mem_GetPasswordResetTokenByHash
  pr_TokenHash pr_ID "\<lambda>s i. prs_byID s i \<noteq> None" prs_inv
proof unfold_locales
  show "prs_inv s'" if "prs_inv s" "\<not> prs_byID s (pr_ID r) \<noteq> None" "mem_CreatePasswordResetToken r s = (x, s')" for r s x s'
    using that by (auto intro: prs_inv_create)
  show "e = ErrNotFound" if "prs_inv s" "mem_GetPasswordResetTokenByHash s h = Inl e" for s h e
    using that by (auto simp: mem_GetPasswordResetTokenByHash_def dest: prs_points intro: row_via_errors)
qed (auto simp: mem_GetPasswordResetTokenByHash_def mem_CreatePasswordResetToken_def prs_points row_via_insert_other split: if_splits)

lemma evs_points: "evs_inv s \<Longrightarrow> points_into (evs_byHash s) (evs_byID s)"
  by (auto simp: evs_inv_def dest: hash_indexed_points)

interpretation verification_tab: hash_table mem_CreateEmailVerificationToken mem_GetEmailVerificationTokenByHash
  ev_TokenHash ev_ID "\<lambda>s i. evs_byID s i \<noteq> None" evs_inv
proof unfold_locales
  show "evs_inv s'" if "evs_inv s" "\<not> evs_byID s (ev_ID r) \<noteq> None" "mem_CreateEmailVerificationToken r s = (x, s')" for r s x s'
    using that by (auto intro: evs_inv_create)
  show "e = ErrNotFound" if "evs_inv s" "mem_GetEmailVerificationTokenByHash s h = Inl e" for s h e
    using that by (auto simp: mem_GetEmailVerificationTokenByHash_def dest: evs_points intro: row_via_errors)
qed (auto simp: mem_GetEmailVerificationTokenByHash_def mem_CreateEmailVerificationToken_def evs_points row_via_insert_other split: if_splits)

lemma pss_points: "pss_inv s \<Longrightarrow> points_into (pss_byHash s) (pss_byID s)"
  by (auto simp: pss_inv_def dest: hash_indexed_points)

interpretation pending_tab: hash_table mem_CreatePendingTwoFactorSession mem_GetPendingTwoFactorSessionByHash
  ps_TokenHash ps_ID "\<lambda>s i. pss_byID s i \<noteq> None" pss_inv
proof unfold_locales
  show "pss_inv s'" if "pss_inv s" "\<not> pss_byID s (ps_ID r) \<noteq> None" "mem_CreatePendingTwoFactorSession r s = (x, s')" for r s x s'
    using that by (auto intro: pss_inv_create)
  show "e = ErrNotFound" if "pss_inv s" "mem_GetPendingTwoFactorSessionByHash s h = Inl e" for s h e
    using that by (auto simp: mem_GetPendingTwoFactorSessionByHash_def dest: pss_points intro: row_via_errors)
qed (auto simp: mem_GetPendingTwoFactorSessionByHash_def mem_CreatePendingTwoFactorSession_def pss_points row_via_insert_other split: if_splits)

text \<open>\<open>ConsumeRefreshToken\<close> as a compare-and-set: \<open>true\<close> for exactly one of the callers.\<close>

definition consume_refresh :: "string \<Rightarrow> time \<Rightarrow> refresh_store \<Rightarrow> bool \<times> refresh_store" where
  "consume_refresh i now s =
     (case mem_ConsumeRefreshToken now i s of (r, s') \<Rightarrow> (r = Inr True, s'))"

definition refresh_live :: "refresh_store \<Rightarrow> string \<Rightarrow> bool" where
  "refresh_live s i = (case rs_byID s i of None \<Rightarrow> False | Some t \<Rightarrow> rt_RevokedAt t = None)"

interpretation refresh_spend: spend_once consume_refresh refresh_live
  by unfold_locales
    (auto simp: consume_refresh_def refresh_live_def mem_defs split: option.splits if_splits)

definition lo_count :: "lockout_store \<Rightarrow> string \<Rightarrow> time \<Rightarrow> nat" where
  "lo_count s k since =
     (case mem_CountRecentFailedLoginAttempts s k since of Inl _ \<Rightarrow> 0 | Inr n \<Rightarrow> n)"

interpretation lockout_counter: attempt_counter
  "\<lambda>a s. snd (mem_RecordFailedLoginAttempt a s)" lo_count
  "\<lambda>k s. snd (mem_ClearFailedLoginAttempts k s)"
  by unfold_locales
    (auto simp: lo_count_def mem_defs filter_empty_conv intro!: arg_cong [where f = length] filter_cong)

end
