(* ===== verification/MemSuper.thy ===== *)
theory MemSuper
  imports MemSession
begin

text \<open>
  The in-memory stores of the operator plane: \<open>memstore/superuser.go\<close>. The operators' two-factor store
  holds a \<open>TOTPStore\<close> and a \<open>PendingTwoFactorStore\<close> of its own and passes every call on to them.
\<close>

section \<open>SuperuserStore\<close>

text \<open>
  \<open>byID\<close> is the list of the map's entries, because the store counts and ranges over them; Go ranges in an
  unspecified order, here it is the order of creation.
\<close>

record super_store =
  sus_byID :: "(string \<times> superuser) list"
  sus_byEmail :: "string \<rightharpoonup> string"

definition NewSuperuserStore :: super_store where
  "NewSuperuserStore = \<lparr>sus_byID = [], sus_byEmail = Map.empty\<rparr>"

abbreviation sus_row :: "super_store \<Rightarrow> string \<rightharpoonup> superuser" where
  "sus_row s \<equiv> map_of (sus_byID s)"

definition mem_CreateSuperuser :: "superuser \<Rightarrow> super_store \<Rightarrow> (error + unit) \<times> super_store" where
  [mem_defs]: "mem_CreateSuperuser su s =
     (case sus_byEmail s (su_Email su) of
        Some _ \<Rightarrow> (Inl ErrConflict, s)
      | None \<Rightarrow> (Inr (), s\<lparr>sus_byID := AList.update (su_ID su) su (sus_byID s),
                          sus_byEmail := (sus_byEmail s)(su_Email su \<mapsto> su_ID su)\<rparr>))"

definition mem_GetSuperuserByID :: "super_store \<Rightarrow> string \<Rightarrow> error + superuser" where
  [mem_defs]: "mem_GetSuperuserByID s i = (case sus_row s i of None \<Rightarrow> Inl ErrNotFound | Some su \<Rightarrow> Inr su)"

definition mem_GetSuperuserByEmail :: "super_store \<Rightarrow> string \<Rightarrow> error + superuser" where
  [mem_defs]: "mem_GetSuperuserByEmail s email = row_via (sus_byEmail s) (sus_row s) email"

definition mem_ListSuperusers :: "super_store \<Rightarrow> error + superuser list" where
  [mem_defs]: "mem_ListSuperusers s = Inr (map snd (sus_byID s))"

definition mem_UpdateSuperuser :: "superuser \<Rightarrow> super_store \<Rightarrow> (error + unit) \<times> super_store" where
  [mem_defs]: "mem_UpdateSuperuser su s =
     (case sus_row s (su_ID su) of
        None \<Rightarrow> (Inl ErrNotFound, s)
      | Some _ \<Rightarrow> (Inr (), s\<lparr>sus_byID := AList.update (su_ID su) su (sus_byID s)\<rparr>))"

definition mem_CountSuperusers :: "super_store \<Rightarrow> error + nat" where
  [mem_defs]: "mem_CountSuperusers s = Inr (length (sus_byID s))"

definition sus_inv :: "super_store \<Rightarrow> bool" where
  "sus_inv s \<longleftrightarrow> distinct (map fst (sus_byID s)) \<and> points_into (sus_byEmail s) (sus_row s) \<and>
     (\<forall>i su. sus_row s i = Some su \<longrightarrow> su_ID su = i)"

lemma sus_row_update [simp]: "map_of (AList.update i su rows) = (map_of rows)(i \<mapsto> su)"
  by (simp add: update_conv')

lemma sus_inv_new: "sus_inv NewSuperuserStore"
  by (simp add: sus_inv_def NewSuperuserStore_def)

lemma sus_inv_create: "sus_inv s \<Longrightarrow> mem_CreateSuperuser su s = (r, s') \<Longrightarrow> sus_inv s'"
  by (auto simp: sus_inv_def mem_defs distinct_update split: option.splits if_splits)

lemma sus_inv_update: "sus_inv s \<Longrightarrow> mem_UpdateSuperuser su s = (r, s') \<Longrightarrow> sus_inv s'"
  by (auto simp: sus_inv_def mem_defs distinct_update split: option.splits if_splits)

lemma sus_get_id: "sus_inv s \<Longrightarrow> mem_GetSuperuserByID s i = Inr su \<Longrightarrow> su_ID su = i"
  by (auto simp: sus_inv_def mem_defs split: option.splits)

lemma sus_id_row: "mem_GetSuperuserByID s i = Inr su \<Longrightarrow> sus_row s i = Some su"
  by (simp add: mem_GetSuperuserByID_def split: option.splits)

lemma sus_id_error: "mem_GetSuperuserByID s i = Inl e \<Longrightarrow> e = ErrNotFound"
  by (simp add: mem_GetSuperuserByID_def split: option.splits)

lemma sus_email_row:
  "sus_inv s \<Longrightarrow> mem_GetSuperuserByEmail s email = Inr su \<Longrightarrow> sus_row s (su_ID su) = Some su"
  by (auto simp: sus_inv_def mem_GetSuperuserByEmail_def dest!: row_via_SomeD)

lemma sus_email_error: "sus_inv s \<Longrightarrow> mem_GetSuperuserByEmail s email = Inl e \<Longrightarrow> e = ErrNotFound"
  by (auto simp: sus_inv_def mem_GetSuperuserByEmail_def intro: row_via_errors)

text \<open>Nothing is ever removed: the number of operators is that of the ids ever filed, and only grows.\<close>

lemma update_length: "length (AList.update k v al) = (case map_of al k of None \<Rightarrow> Suc (length al) | Some _ \<Rightarrow> length al)"
  by (induction al) (auto split: option.splits)

lemma count_never_shrinks:
  "mem_CreateSuperuser su s = (r, s') \<Longrightarrow> length (sus_byID s) \<le> length (sus_byID s')"
  "mem_UpdateSuperuser su s = (r, s') \<Longrightarrow> length (sus_byID s') = length (sus_byID s)"
  by (auto simp: mem_defs update_length split: option.splits)

section \<open>SuperuserRefreshTokenStore\<close>

record super_refresh_store =
  srs_byID :: "string \<rightharpoonup> superuser_token"
  srs_byHash :: "string \<rightharpoonup> string"
  srs_bySuID :: multimap

definition NewSuperuserRefreshTokenStore :: super_refresh_store where
  "NewSuperuserRefreshTokenStore = \<lparr>srs_byID = Map.empty, srs_byHash = Map.empty, srs_bySuID = no_ids\<rparr>"

definition mem_CreateSuperuserRefreshToken ::
  "superuser_token \<Rightarrow> super_refresh_store \<Rightarrow> (error + unit) \<times> super_refresh_store" where
  [mem_defs]: "mem_CreateSuperuserRefreshToken t s =
     (Inr (), s\<lparr>srs_byID := (srs_byID s)(sr_ID t \<mapsto> t),
                srs_byHash := (srs_byHash s)(sr_TokenHash t \<mapsto> sr_ID t),
                srs_bySuID := append_id (sr_SuperuserID t) (sr_ID t) (srs_bySuID s)\<rparr>)"

definition mem_GetSuperuserRefreshTokenByHash :: "super_refresh_store \<Rightarrow> string \<Rightarrow> error + superuser_token" where
  [mem_defs]: "mem_GetSuperuserRefreshTokenByHash s h = row_via (srs_byHash s) (srs_byID s) h"

definition mem_RevokeSuperuserRefreshToken ::
  "time \<Rightarrow> string \<Rightarrow> super_refresh_store \<Rightarrow> (error + unit) \<times> super_refresh_store" where
  [mem_defs]: "mem_RevokeSuperuserRefreshToken now i s =
     (case srs_byID s i of
        None \<Rightarrow> (Inl ErrNotFound, s)
      | Some t \<Rightarrow> (Inr (), s\<lparr>srs_byID := (srs_byID s)(i \<mapsto> t\<lparr>sr_RevokedAt := Some now\<rparr>)\<rparr>))"

definition mem_ConsumeSuperuserRefreshToken ::
  "time \<Rightarrow> string \<Rightarrow> super_refresh_store \<Rightarrow> (error + bool) \<times> super_refresh_store" where
  [mem_defs]: "mem_ConsumeSuperuserRefreshToken now i s =
     (case srs_byID s i of
        None \<Rightarrow> (Inr False, s)
      | Some t \<Rightarrow>
          (if sr_RevokedAt t \<noteq> None then (Inr False, s)
           else (Inr True, s\<lparr>srs_byID := (srs_byID s)(i \<mapsto> t\<lparr>sr_RevokedAt := Some now\<rparr>)\<rparr>)))"

text \<open>The loops of \<open>RevokeAllSuperuserRefreshTokens\<close> and \<open>ListActiveSuperuserRefreshTokens\<close>.\<close>

fun revoke_each_super ::
  "time \<Rightarrow> string list \<Rightarrow> (string \<rightharpoonup> superuser_token) \<Rightarrow> (error + unit) \<times> (string \<rightharpoonup> superuser_token)" where
  "revoke_each_super now [] rows = (Inr (), rows)"
| "revoke_each_super now (i # is) rows =
     (case rows i of
        None \<Rightarrow> (Inl Panic, rows)
      | Some t \<Rightarrow>
          revoke_each_super now is
            (if sr_RevokedAt t = None then rows(i \<mapsto> t\<lparr>sr_RevokedAt := Some now\<rparr>) else rows))"

definition mem_RevokeAllSuperuserRefreshTokens ::
  "time \<Rightarrow> string \<Rightarrow> super_refresh_store \<Rightarrow> (error + unit) \<times> super_refresh_store" where
  [mem_defs]: "mem_RevokeAllSuperuserRefreshTokens now superuserID s =
     (case revoke_each_super now (srs_bySuID s superuserID) (srs_byID s) of
        (r, rows) \<Rightarrow> (r, s\<lparr>srs_byID := rows\<rparr>))"

definition mem_ListActiveSuperuserRefreshTokens ::
  "time \<Rightarrow> super_refresh_store \<Rightarrow> string \<Rightarrow> error + superuser_token list" where
  [mem_defs]: "mem_ListActiveSuperuserRefreshTokens now s superuserID =
     (case read_each (srs_byID s) (srs_bySuID s superuserID) of
        Inl e \<Rightarrow> Inl e
      | Inr ts \<Rightarrow> Inr (filter (\<lambda>t. sr_RevokedAt t = None \<and> Before now (sr_ExpiresAt t)) ts))"

definition srs_inv :: "super_refresh_store \<Rightarrow> bool" where
  "srs_inv s \<longleftrightarrow> points_into (srs_byHash s) (srs_byID s) \<and> points_into_all (srs_bySuID s) (srs_byID s) \<and>
     (\<forall>i t. srs_byID s i = Some t \<longrightarrow> sr_ID t = i \<and> i \<in> set (srs_bySuID s (sr_SuperuserID t)))"

definition super_revoked_at :: "time \<Rightarrow> superuser_token \<Rightarrow> superuser_token" where
  "super_revoked_at now t = (if sr_RevokedAt t = None then t\<lparr>sr_RevokedAt := Some now\<rparr> else t)"

lemma super_revoked_at_simps [simp]:
  "sr_RevokedAt (super_revoked_at now t) \<noteq> None"
  "sr_ID (super_revoked_at now t) = sr_ID t" "sr_SuperuserID (super_revoked_at now t) = sr_SuperuserID t"
  "super_revoked_at now (super_revoked_at now t) = super_revoked_at now t"
  by (auto simp: super_revoked_at_def)

lemma revoke_each_super_step:
  "rows i = Some t \<Longrightarrow>
   revoke_each_super now (i # is) rows = revoke_each_super now is (rows(i \<mapsto> super_revoked_at now t))"
  by (auto simp: super_revoked_at_def intro!: arg_cong [where f = "revoke_each_super now is"])

lemma revoke_each_super_eq:
  "(\<And>i. i \<in> set is \<Longrightarrow> rows i \<noteq> None) \<Longrightarrow>
   revoke_each_super now is rows =
     (Inr (), \<lambda>i. if i \<in> set is then map_option (super_revoked_at now) (rows i) else rows i)"
proof (induction "is" arbitrary: rows)
  case Nil
  then show ?case by simp
next
  case (Cons i "is")
  then obtain t where t: "rows i = Some t" by (meson list.set_intros(1) not_None_eq)
  have "revoke_each_super now is (rows(i \<mapsto> super_revoked_at now t)) =
      (Inr (), \<lambda>j. if j \<in> set is then map_option (super_revoked_at now) ((rows(i \<mapsto> super_revoked_at now t)) j)
                    else (rows(i \<mapsto> super_revoked_at now t)) j)"
    by (rule Cons.IH) (use Cons.prems in auto)
  then show ?case
    by (auto simp: revoke_each_super_step [where rows = rows and i = i and t = t] t fun_eq_iff
        simp del: revoke_each_super.simps)
qed

lemma srs_inv_new: "srs_inv NewSuperuserRefreshTokenStore"
  by (simp add: srs_inv_def NewSuperuserRefreshTokenStore_def)

lemma srs_inv_create: "srs_inv s \<Longrightarrow> mem_CreateSuperuserRefreshToken t s = (r, s') \<Longrightarrow> srs_inv s'"
  by (auto simp: srs_inv_def mem_defs set_append_id split: if_splits)

lemma srs_inv_rows:
  assumes "srs_inv s" and "\<And>i. rows i = None \<longleftrightarrow> srs_byID s i = None"
    and "\<And>i t'. rows i = Some t' \<Longrightarrow>
           \<exists>t. srs_byID s i = Some t \<and> sr_ID t' = sr_ID t \<and> sr_SuperuserID t' = sr_SuperuserID t"
  shows "srs_inv (s\<lparr>srs_byID := rows\<rparr>)"
  using assms by (fastforce simp: srs_inv_def points_into_def points_into_all_def)

lemma srs_inv_row:
  "srs_inv s \<Longrightarrow> srs_byID s i = Some t \<Longrightarrow> sr_ID t' = sr_ID t \<Longrightarrow> sr_SuperuserID t' = sr_SuperuserID t \<Longrightarrow>
   srs_inv (s\<lparr>srs_byID := (srs_byID s)(i \<mapsto> t')\<rparr>)"
  by (rule srs_inv_rows) (auto split: if_splits)

lemma srs_inv_revoke: "srs_inv s \<Longrightarrow> mem_RevokeSuperuserRefreshToken now i s = (r, s') \<Longrightarrow> srs_inv s'"
  by (auto simp: mem_defs split: option.splits intro!: srs_inv_row)

lemma srs_inv_consume: "srs_inv s \<Longrightarrow> mem_ConsumeSuperuserRefreshToken now i s = (r, s') \<Longrightarrow> srs_inv s'"
  by (auto simp: mem_defs split: option.splits if_splits intro!: srs_inv_row)

lemma srs_rows: "srs_inv s \<Longrightarrow> i \<in> set (srs_bySuID s u) \<Longrightarrow> srs_byID s i \<noteq> None"
  by (auto simp: srs_inv_def dest: points_into_allD)

lemma super_revoke_all_eq:
  "srs_inv s \<Longrightarrow> mem_RevokeAllSuperuserRefreshTokens now superuserID s =
     (Inr (), s\<lparr>srs_byID := \<lambda>i. if i \<in> set (srs_bySuID s superuserID)
                               then map_option (super_revoked_at now) (srs_byID s i) else srs_byID s i\<rparr>)"
  by (simp add: mem_defs revoke_each_super_eq srs_rows)

lemma srs_inv_revoke_all:
  "srs_inv s \<Longrightarrow> mem_RevokeAllSuperuserRefreshTokens now superuserID s = (r, s') \<Longrightarrow> srs_inv s'"
  by (auto simp: super_revoke_all_eq intro!: srs_inv_rows split: if_splits)

lemma super_revoke_all_revokes:
  "srs_inv s \<Longrightarrow> mem_RevokeAllSuperuserRefreshTokens now superuserID s = (r, s') \<Longrightarrow>
   srs_byID s' i = Some t \<Longrightarrow> sr_SuperuserID t = superuserID \<Longrightarrow> sr_RevokedAt t \<noteq> None"
  by (auto simp: super_revoke_all_eq srs_inv_def split: if_splits)

lemma super_list_active:
  "srs_inv s \<Longrightarrow> mem_ListActiveSuperuserRefreshTokens now s superuserID =
     Inr (filter (\<lambda>t. sr_RevokedAt t = None \<and> Before now (sr_ExpiresAt t))
            (map (the \<circ> srs_byID s) (srs_bySuID s superuserID)))"
  by (simp add: mem_defs read_each_eq srs_rows)

lemma srs_points: "srs_inv s \<Longrightarrow> points_into (srs_byHash s) (srs_byID s)"
  by (simp add: srs_inv_def)

lemma srs_get_row:
  assumes "srs_inv s" and "mem_GetSuperuserRefreshTokenByHash s h = Inr t"
  shows "srs_byHash s h = Some (sr_ID t)" and "srs_byID s (sr_ID t) = Some t"
  using assms by (auto simp: srs_inv_def mem_defs dest!: row_via_SomeD)

interpretation super_tab: hash_table mem_CreateSuperuserRefreshToken mem_GetSuperuserRefreshTokenByHash
  sr_TokenHash sr_ID "\<lambda>s i. srs_byID s i \<noteq> None" srs_inv
proof unfold_locales
  show "srs_inv s'" if "srs_inv s" "\<not> srs_byID s (sr_ID r) \<noteq> None" "mem_CreateSuperuserRefreshToken r s = (x, s')" for r s x s'
    using that by (auto intro: srs_inv_create)
  show "e = ErrNotFound" if "srs_inv s" "mem_GetSuperuserRefreshTokenByHash s h = Inl e" for s h e
    using that by (auto simp: mem_GetSuperuserRefreshTokenByHash_def dest: srs_points intro: row_via_errors)
qed (auto simp: mem_GetSuperuserRefreshTokenByHash_def mem_CreateSuperuserRefreshToken_def srs_points row_via_insert_other split: if_splits)

definition consume_super :: "string \<Rightarrow> time \<Rightarrow> super_refresh_store \<Rightarrow> bool \<times> super_refresh_store" where
  "consume_super i now s =
     (case mem_ConsumeSuperuserRefreshToken now i s of (Inl _, s') \<Rightarrow> (False, s') | (Inr b, s') \<Rightarrow> (b, s'))"

definition super_live :: "super_refresh_store \<Rightarrow> string \<Rightarrow> bool" where
  "super_live s i \<longleftrightarrow> (\<exists>t. srs_byID s i = Some t \<and> sr_RevokedAt t = None)"

interpretation super_spend: spend_once consume_super super_live
  by unfold_locales
    (auto simp: consume_super_def super_live_def mem_defs split: option.splits if_splits)

section \<open>SuperuserTwoFactorStore\<close>

record super_two_factor_store =
  s2_totp :: totp_store
  s2_pending :: pending_store

definition NewSuperuserTwoFactorStore :: super_two_factor_store where
  "NewSuperuserTwoFactorStore = \<lparr>s2_totp = NewTOTPStore, s2_pending = NewPendingTwoFactorStore\<rparr>"

definition in_totp :: "(totp_store \<Rightarrow> 'a \<times> totp_store) \<Rightarrow> super_two_factor_store \<Rightarrow> 'a \<times> super_two_factor_store" where
  "in_totp f s = (fst (f (s2_totp s)), s\<lparr>s2_totp := snd (f (s2_totp s))\<rparr>)"

definition in_pending :: "(pending_store \<Rightarrow> 'a \<times> pending_store) \<Rightarrow> super_two_factor_store \<Rightarrow> 'a \<times> super_two_factor_store" where
  "in_pending f s = (fst (f (s2_pending s)), s\<lparr>s2_pending := snd (f (s2_pending s))\<rparr>)"

definition mem_CreateSuperuserTOTPSettings ::
  "totp_settings \<Rightarrow> super_two_factor_store \<Rightarrow> (error + unit) \<times> super_two_factor_store" where
  [mem_defs]: "mem_CreateSuperuserTOTPSettings t = in_totp (mem_CreateTOTPSettings t)"

definition mem_GetSuperuserTOTPSettings :: "super_two_factor_store \<Rightarrow> string \<Rightarrow> error + totp_settings" where
  [mem_defs]: "mem_GetSuperuserTOTPSettings s superuserID = mem_GetTOTPSettingsByUserID (s2_totp s) superuserID"

definition mem_UpdateSuperuserTOTPSettings ::
  "totp_settings \<Rightarrow> super_two_factor_store \<Rightarrow> (error + unit) \<times> super_two_factor_store" where
  [mem_defs]: "mem_UpdateSuperuserTOTPSettings t = in_totp (mem_UpdateTOTPSettings t)"

definition mem_DeleteSuperuserTOTPSettings ::
  "string \<Rightarrow> super_two_factor_store \<Rightarrow> (error + unit) \<times> super_two_factor_store" where
  [mem_defs]: "mem_DeleteSuperuserTOTPSettings superuserID = in_totp (mem_DeleteTOTPSettings superuserID)"

definition mem_CreateSuperuserPendingTwoFactorSession ::
  "pending_session \<Rightarrow> super_two_factor_store \<Rightarrow> (error + unit) \<times> super_two_factor_store" where
  [mem_defs]: "mem_CreateSuperuserPendingTwoFactorSession p = in_pending (mem_CreatePendingTwoFactorSession p)"

definition mem_GetSuperuserPendingTwoFactorSessionByHash ::
  "super_two_factor_store \<Rightarrow> string \<Rightarrow> error + pending_session" where
  [mem_defs]: "mem_GetSuperuserPendingTwoFactorSessionByHash s h = mem_GetPendingTwoFactorSessionByHash (s2_pending s) h"

definition mem_DeleteSuperuserPendingTwoFactorSession ::
  "string \<Rightarrow> super_two_factor_store \<Rightarrow> (error + unit) \<times> super_two_factor_store" where
  [mem_defs]: "mem_DeleteSuperuserPendingTwoFactorSession i = in_pending (mem_DeletePendingTwoFactorSession i)"

end
