(* ===== verification/MemTeam.thy ===== *)
theory MemTeam
  imports Ports
begin

text \<open>
  The in-memory stores of the team plane, \<open>memstore/team.go\<close>: teams, members and invitations, with
  the invariants their methods keep and the condition under which they do. \<open>UpdateTeam\<close> and
  \<open>UpdateMember\<close> do not move index entries, so the invariants hold across an update that leaves the
  indexed fields alone.
\<close>

section \<open>TeamStore\<close>

record team_store =
  tms_byID :: "string \<rightharpoonup> team"
  tms_bySlug :: "string \<rightharpoonup> string"

definition NewTeamStore :: team_store where
  "NewTeamStore = \<lparr>tms_byID = Map.empty, tms_bySlug = Map.empty\<rparr>"

definition mem_CreateTeam :: "team \<Rightarrow> team_store \<Rightarrow> (error + unit) \<times> team_store" where
  [mem_defs]: "mem_CreateTeam t s =
     (if tms_bySlug s (t_Slug t) \<noteq> None then (Inl ErrConflict, s)
      else (Inr (), s\<lparr>tms_byID := (tms_byID s)(t_ID t \<mapsto> t),
                     tms_bySlug := (tms_bySlug s)(t_Slug t \<mapsto> t_ID t)\<rparr>))"

definition mem_GetTeam :: "team_store \<Rightarrow> string \<Rightarrow> error + team" where
  [mem_defs]: "mem_GetTeam s i = (case tms_byID s i of None \<Rightarrow> Inl ErrNotFound | Some t \<Rightarrow> Inr t)"

definition mem_GetTeamBySlug :: "team_store \<Rightarrow> string \<Rightarrow> error + team" where
  [mem_defs]: "mem_GetTeamBySlug s slug = row_via (tms_bySlug s) (tms_byID s) slug"

definition mem_UpdateTeam :: "team \<Rightarrow> team_store \<Rightarrow> (error + unit) \<times> team_store" where
  [mem_defs]: "mem_UpdateTeam t s =
     (if tms_byID s (t_ID t) = None then (Inl ErrNotFound, s)
      else (Inr (), s\<lparr>tms_byID := (tms_byID s)(t_ID t \<mapsto> t)\<rparr>))"

definition mem_DeleteTeam :: "string \<Rightarrow> team_store \<Rightarrow> (error + unit) \<times> team_store" where
  [mem_defs]: "mem_DeleteTeam i s =
     (case tms_byID s i of
        None \<Rightarrow> (Inl ErrNotFound, s)
      | Some t \<Rightarrow> (Inr (), s\<lparr>tms_bySlug := (tms_bySlug s)(t_Slug t := None),
                            tms_byID := (tms_byID s)(i := None)\<rparr>))"

definition tms_inv :: "team_store \<Rightarrow> bool" where
  "tms_inv s \<longleftrightarrow> hash_indexed t_Slug (tms_bySlug s) (tms_byID s) \<and>
     (\<forall>i t. tms_byID s i = Some t \<longrightarrow> t_ID t = i \<and> tms_bySlug s (t_Slug t) = Some i)"

lemma tms_inv_new: "tms_inv NewTeamStore"
  by (simp add: tms_inv_def NewTeamStore_def)

lemma tms_inv_create:
  "tms_inv s \<Longrightarrow> tms_byID s (t_ID t) = None \<Longrightarrow> mem_CreateTeam t s = (r, s') \<Longrightarrow> tms_inv s'"
  by (fastforce simp: tms_inv_def mem_defs split: if_splits)

lemma tms_inv_update:
  "tms_inv s \<Longrightarrow> (\<And>t0. tms_byID s (t_ID t) = Some t0 \<Longrightarrow> t_Slug t = t_Slug t0) \<Longrightarrow>
   mem_UpdateTeam t s = (r, s') \<Longrightarrow> tms_inv s'"
  by (auto simp: tms_inv_def mem_defs not_None_eq split: if_splits)

text \<open>Slugs are unique: the conflict check of \<open>CreateTeam\<close> is what keeps them so.\<close>

lemma tms_slug_unique:
  "tms_inv s \<Longrightarrow> tms_byID s i = Some t \<Longrightarrow> tms_byID s j = Some t' \<Longrightarrow> t_Slug t = t_Slug t' \<Longrightarrow> i = j"
  unfolding tms_inv_def by (metis option.inject)

lemma tms_inv_delete: "tms_inv s \<Longrightarrow> mem_DeleteTeam i s = (r, s') \<Longrightarrow> tms_inv s'"
proof (cases "tms_byID s i")
  case None
  then show "tms_inv s \<Longrightarrow> mem_DeleteTeam i s = (r, s') \<Longrightarrow> tms_inv s'" by (simp add: mem_defs)
next
  case (Some t)
  assume inv: "tms_inv s" and del: "mem_DeleteTeam i s = (r, s')"
  have "t_Slug t' \<noteq> t_Slug t" if "tms_byID s j = Some t'" and "j \<noteq> i" for j t'
    using tms_slug_unique [OF inv that(1) Some] that(2) by blast
  then show "tms_inv s'"
    using inv del Some by (auto simp: tms_inv_def mem_defs split: if_splits)
qed

text \<open>
  An update that renames the slug and a later deletion leave the old slug dangling: the next
  lookup of it dereferences nil.
\<close>

lemma renamed_slug_dangles:
  assumes "tms_inv s" and "tms_byID s (t_ID t) = Some t0" and "t_Slug t0 \<noteq> t_Slug t"
    and "mem_UpdateTeam t s = (Inr (), s1)" and "mem_DeleteTeam (t_ID t) s1 = (Inr (), s2)"
  shows "mem_GetTeamBySlug s2 (t_Slug t0) = Inl Panic"
  using assms by (auto simp: tms_inv_def mem_defs row_via_def)

section \<open>MemberStore\<close>

record member_store =
  mbs_byID :: "string \<rightharpoonup> member"
  mbs_byTeamID :: multimap
  mbs_byUserID :: multimap

definition NewMemberStore :: member_store where
  "NewMemberStore = \<lparr>mbs_byID = Map.empty, mbs_byTeamID = no_ids, mbs_byUserID = no_ids\<rparr>"

definition mem_CreateMember :: "member \<Rightarrow> member_store \<Rightarrow> (error + unit) \<times> member_store" where
  [mem_defs]: "mem_CreateMember m s =
     (Inr (), s\<lparr>mbs_byID := (mbs_byID s)(m_ID m \<mapsto> m),
                mbs_byTeamID := append_id (m_TeamID m) (m_ID m) (mbs_byTeamID s),
                mbs_byUserID := (case m_UserID m of
                                   None \<Rightarrow> mbs_byUserID s
                                 | Some u \<Rightarrow> append_id u (m_ID m) (mbs_byUserID s))\<rparr>)"

definition mem_GetMember :: "member_store \<Rightarrow> string \<Rightarrow> error + member" where
  [mem_defs]: "mem_GetMember s i = (case mbs_byID s i of None \<Rightarrow> Inl ErrNotFound | Some m \<Rightarrow> Inr m)"

definition mem_GetMemberByUserAndTeam :: "member_store \<Rightarrow> string \<Rightarrow> string \<Rightarrow> error + member" where
  [mem_defs]: "mem_GetMemberByUserAndTeam s userID teamID =
     (case find (\<lambda>m. m_TeamID m = teamID) (read_present (mbs_byID s) (mbs_byUserID s userID)) of
        None \<Rightarrow> Inl ErrNotFound
      | Some m \<Rightarrow> Inr m)"

definition mem_ListMembersByTeam :: "member_store \<Rightarrow> string \<Rightarrow> error + member list" where
  [mem_defs]: "mem_ListMembersByTeam s teamID =
     Inr (read_present (mbs_byID s) (mbs_byTeamID s teamID))"

definition mem_ListMembershipsByUser :: "member_store \<Rightarrow> string \<Rightarrow> error + member list" where
  [mem_defs]: "mem_ListMembershipsByUser s userID = read_each (mbs_byID s) (mbs_byUserID s userID)"

definition mem_UpdateMember :: "member \<Rightarrow> member_store \<Rightarrow> (error + unit) \<times> member_store" where
  [mem_defs]: "mem_UpdateMember m s =
     (if mbs_byID s (m_ID m) = None then (Inl ErrNotFound, s)
      else (Inr (), s\<lparr>mbs_byID := (mbs_byID s)(m_ID m \<mapsto> m)\<rparr>))"

fun removeID :: "string list \<Rightarrow> string \<Rightarrow> string list" where
  "removeID [] i = []"
| "removeID (v # vs) i = (if v = i then vs else v # removeID vs i)"

definition mem_DeleteMember :: "string \<Rightarrow> member_store \<Rightarrow> (error + unit) \<times> member_store" where
  [mem_defs]: "mem_DeleteMember i s =
     (case mbs_byID s i of
        None \<Rightarrow> (Inl ErrNotFound, s)
      | Some m \<Rightarrow>
          (Inr (), s\<lparr>mbs_byID := (mbs_byID s)(i := None),
                     mbs_byTeamID := (mbs_byTeamID s)
                       (m_TeamID m := removeID (mbs_byTeamID s (m_TeamID m)) i),
                     mbs_byUserID := (case m_UserID m of
                        None \<Rightarrow> mbs_byUserID s
                      | Some u \<Rightarrow> (mbs_byUserID s)(u := removeID (mbs_byUserID s u) i))\<rparr>))"

lemma removeID_eq: "removeID ids i = remove1 i ids"
  by (induction ids) auto

text \<open>
  Every row is listed exactly once, under its team and (when it has one) its user, and nothing else
  is listed.
\<close>

definition mbs_inv :: "member_store \<Rightarrow> bool" where
  "mbs_inv s \<longleftrightarrow>
     (\<forall>i m. mbs_byID s i = Some m \<longrightarrow> m_ID m = i) \<and>
     lists_rows (\<lambda>m. Some (m_TeamID m)) (mbs_byTeamID s) (mbs_byID s) \<and>
     lists_rows m_UserID (mbs_byUserID s) (mbs_byID s)"

lemma mbs_inv_new: "mbs_inv NewMemberStore"
  by (simp add: mbs_inv_def NewMemberStore_def)

lemma mbs_inv_create:
  "mbs_inv s \<Longrightarrow> mbs_byID s (m_ID m) = None \<Longrightarrow> mem_CreateMember m s = (r, s') \<Longrightarrow> mbs_inv s'"
  using lists_rows_insert [of "\<lambda>m. Some (m_TeamID m)" "mbs_byTeamID s" "mbs_byID s" "m_ID m" m]
    lists_rows_insert [of m_UserID "mbs_byUserID s" "mbs_byID s" "m_ID m" m]
  by (auto simp: mbs_inv_def mem_defs split: if_splits)

lemma mbs_inv_update:
  "mbs_inv s \<Longrightarrow> mbs_byID s (m_ID m) = Some m0 \<Longrightarrow> m_TeamID m = m_TeamID m0 \<Longrightarrow>
   m_UserID m = m_UserID m0 \<Longrightarrow> mem_UpdateMember m s = (r, s') \<Longrightarrow> mbs_inv s'"
  by (auto simp: mbs_inv_def mem_defs intro: lists_rows_update split: if_splits)

lemma mbs_inv_delete:
  assumes "mbs_inv s" and "mem_DeleteMember i s = (r, s')" shows "mbs_inv s'"
proof (cases "mbs_byID s i")
  case None
  with assms show ?thesis by (simp add: mem_defs)
next
  case (Some m)
  with assms show ?thesis
    using lists_rows_delete [of "\<lambda>m. Some (m_TeamID m)" "mbs_byTeamID s" "mbs_byID s" i m]
      lists_rows_delete [of m_UserID "mbs_byUserID s" "mbs_byID s" i m]
    by (cases "m_UserID m") (auto simp: mbs_inv_def mem_defs removeID_eq split: if_splits)
qed

lemma mbs_in_team:
  "mbs_inv s \<Longrightarrow> i \<in> set (mbs_byTeamID s t) \<longleftrightarrow> (\<exists>m. mbs_byID s i = Some m \<and> m_TeamID m = t)"
  using lists_rows_iff [of "\<lambda>m. Some (m_TeamID m)" "mbs_byTeamID s" "mbs_byID s" i t]
  by (simp add: mbs_inv_def)

lemma mbs_of_user:
  "mbs_inv s \<Longrightarrow> i \<in> set (mbs_byUserID s u) \<longleftrightarrow> (\<exists>m. mbs_byID s i = Some m \<and> m_UserID m = Some u)"
  using lists_rows_iff [of m_UserID "mbs_byUserID s" "mbs_byID s" i u]
  by (simp add: mbs_inv_def)

lemma mbs_own_id: "mbs_inv s \<Longrightarrow> mbs_byID s i = Some m \<Longrightarrow> m_ID m = i"
  by (simp add: mbs_inv_def)

lemma mbs_list_team:
  assumes "mbs_inv s" and "mem_ListMembersByTeam s t = Inr ms"
  shows "set ms = {m. mbs_byID s (m_ID m) = Some m \<and> m_TeamID m = t}"
proof -
  have "m \<in> set ms \<longleftrightarrow> mbs_byID s (m_ID m) = Some m \<and> m_TeamID m = t" for m
  proof
    assume "m \<in> set ms"
    then obtain i where "i \<in> set (mbs_byTeamID s t)" and "mbs_byID s i = Some m"
      using assms(2) by (auto simp: mem_defs set_read_present)
    then show "mbs_byID s (m_ID m) = Some m \<and> m_TeamID m = t"
      using mbs_in_team [OF assms(1), of i t] mbs_own_id [OF assms(1), of i m] by auto
  next
    assume h: "mbs_byID s (m_ID m) = Some m \<and> m_TeamID m = t"
    then have "m_ID m \<in> set (mbs_byTeamID s t)" using mbs_in_team [OF assms(1)] by blast
    then show "m \<in> set ms" using h assms(2) by (auto simp: mem_defs set_read_present)
  qed
  then show ?thesis by auto
qed

lemma find_SomeD: "find P xs = Some x \<Longrightarrow> x \<in> set xs \<and> P x"
  by (induction xs) (auto split: if_splits)

lemma mbs_get_by_user_team:
  assumes "mbs_inv s" and "mem_GetMemberByUserAndTeam s u t = Inr m"
  shows "mbs_byID s (m_ID m) = Some m" and "m_UserID m = Some u" and "m_TeamID m = t"
proof -
  from assms(2) have "m \<in> set (read_present (mbs_byID s) (mbs_byUserID s u))" and
    t: "m_TeamID m = t"
    by (auto simp: mem_defs split: option.splits dest!: find_SomeD)
  then obtain i where i: "i \<in> set (mbs_byUserID s u)" "mbs_byID s i = Some m"
    by (auto simp: set_read_present)
  then show "mbs_byID s (m_ID m) = Some m" and "m_UserID m = Some u" and "m_TeamID m = t"
    using mbs_of_user [OF assms(1), of i u] mbs_own_id [OF assms(1), of i m] t by auto
qed

lemma mbs_get_by_user_team_none:
  assumes "mbs_inv s" and "mem_GetMemberByUserAndTeam s u t = Inl e"
    and "mbs_byID s i = Some m" and "m_UserID m = Some u"
  shows "m_TeamID m \<noteq> t"
proof -
  have "m \<in> set (read_present (mbs_byID s) (mbs_byUserID s u))"
    using assms mbs_of_user [OF assms(1), of i u] by (auto simp: set_read_present)
  then show ?thesis using assms(2) by (auto simp: mem_defs find_None_iff split: option.splits)
qed

lemma mbs_list_user_total: "mbs_inv s \<Longrightarrow> \<exists>ms. mem_ListMembershipsByUser s u = Inr ms"
  unfolding mem_defs by (rule exI, rule read_each_eq) (auto simp: mbs_of_user)

section \<open>InvitationStore\<close>

record invitation_store =
  ivs_byID :: "string \<rightharpoonup> invitation"
  ivs_byHash :: "string \<rightharpoonup> string"
  ivs_byTeamID :: multimap

definition NewInvitationStore :: invitation_store where
  "NewInvitationStore = \<lparr>ivs_byID = Map.empty, ivs_byHash = Map.empty, ivs_byTeamID = no_ids\<rparr>"

definition mem_CreateInvitation ::
  "invitation \<Rightarrow> invitation_store \<Rightarrow> (error + unit) \<times> invitation_store" where
  [mem_defs]: "mem_CreateInvitation x s =
     (Inr (), s\<lparr>ivs_byID := (ivs_byID s)(i_ID x \<mapsto> x),
                ivs_byHash := (ivs_byHash s)(i_TokenHash x \<mapsto> i_ID x),
                ivs_byTeamID := append_id (i_TeamID x) (i_ID x) (ivs_byTeamID s)\<rparr>)"

definition mem_GetInvitation :: "invitation_store \<Rightarrow> string \<Rightarrow> error + invitation" where
  [mem_defs]: "mem_GetInvitation s i =
     (case ivs_byID s i of None \<Rightarrow> Inl ErrNotFound | Some x \<Rightarrow> Inr x)"

definition mem_GetInvitationByTokenHash :: "invitation_store \<Rightarrow> string \<Rightarrow> error + invitation" where
  [mem_defs]: "mem_GetInvitationByTokenHash s h = row_via (ivs_byHash s) (ivs_byID s) h"

definition mem_ListInvitationsByTeam :: "invitation_store \<Rightarrow> string \<Rightarrow> error + invitation list" where
  [mem_defs]: "mem_ListInvitationsByTeam s teamID = read_each (ivs_byID s) (ivs_byTeamID s teamID)"

definition mem_UpdateInvitation ::
  "invitation \<Rightarrow> invitation_store \<Rightarrow> (error + unit) \<times> invitation_store" where
  [mem_defs]: "mem_UpdateInvitation x s =
     (if ivs_byID s (i_ID x) = None then (Inl ErrNotFound, s)
      else (Inr (), s\<lparr>ivs_byID := (ivs_byID s)(i_ID x \<mapsto> x)\<rparr>))"

definition ivs_inv :: "invitation_store \<Rightarrow> bool" where
  "ivs_inv s \<longleftrightarrow> points_into (ivs_byHash s) (ivs_byID s) \<and>
     points_into_all (ivs_byTeamID s) (ivs_byID s) \<and>
     (\<forall>i x. ivs_byID s i = Some x \<longrightarrow> i_ID x = i)"

lemma ivs_inv_new: "ivs_inv NewInvitationStore"
  by (simp add: ivs_inv_def NewInvitationStore_def)

lemma ivs_inv_create: "ivs_inv s \<Longrightarrow> mem_CreateInvitation x s = (r, s') \<Longrightarrow> ivs_inv s'"
  by (auto simp: ivs_inv_def mem_defs split: if_splits)

lemma ivs_inv_update: "ivs_inv s \<Longrightarrow> mem_UpdateInvitation x s = (r, s') \<Longrightarrow> ivs_inv s'"
  by (auto simp: ivs_inv_def mem_defs split: if_splits)

lemma ivs_points: "ivs_inv s \<Longrightarrow> points_into (ivs_byHash s) (ivs_byID s)"
  by (simp add: ivs_inv_def)

lemma ivs_list_total: "ivs_inv s \<Longrightarrow> \<exists>xs. mem_ListInvitationsByTeam s t = Inr xs"
  unfolding mem_defs by (rule exI, rule read_each_eq) (auto simp: ivs_inv_def dest: points_into_allD)

interpretation invitation_tab: hash_table mem_CreateInvitation mem_GetInvitationByTokenHash
  i_TokenHash i_ID "\<lambda>s i. ivs_byID s i \<noteq> None" ivs_inv
proof unfold_locales
  show "ivs_inv s'" if "ivs_inv s" "\<not> ivs_byID s (i_ID r) \<noteq> None" "mem_CreateInvitation r s = (x, s')"
    for r s x s'
    using that by (auto intro: ivs_inv_create)
  show "e = ErrNotFound" if "ivs_inv s" "mem_GetInvitationByTokenHash s h = Inl e" for s h e
    using that by (auto simp: mem_GetInvitationByTokenHash_def dest: ivs_points intro: row_via_errors)
qed (auto simp: mem_GetInvitationByTokenHash_def mem_CreateInvitation_def ivs_points
      row_via_insert_other split: if_splits)

end
