(* ===== verification/MemCreds.thy ===== *)
theory MemCreds
  imports Ports
begin

text \<open>
  The in-memory stores of the other credentials: \<open>memstore/pat.go\<close>, \<open>device.go\<close>, \<open>pin.go\<close>,
  \<open>emaillogin.go\<close>. Each section holds a store's state, its methods, its invariant
  and what the services need to know of it.
\<close>

section \<open>PersonalAccessTokenStore (memstore/pat.go)\<close>

record pat_store =
  pas_byID :: "string \<rightharpoonup> pat_token"
  pas_byHash :: "string \<rightharpoonup> string"
  pas_byUserID :: multimap

definition NewPersonalAccessTokenStore :: pat_store where
  "NewPersonalAccessTokenStore =
     \<lparr>pas_byID = Map.empty, pas_byHash = Map.empty, pas_byUserID = no_ids\<rparr>"

definition mem_CreatePersonalAccessToken ::
  "pat_token \<Rightarrow> pat_store \<Rightarrow> (error + unit) \<times> pat_store" where
  [mem_defs]: "mem_CreatePersonalAccessToken t s =
     (Inr (), s\<lparr>pas_byID := (pas_byID s)(pt_ID t \<mapsto> t),
                pas_byHash := (pas_byHash s)(pt_TokenHash t \<mapsto> pt_ID t),
                pas_byUserID := append_id (pt_UserID t) (pt_ID t) (pas_byUserID s)\<rparr>)"

definition mem_GetPersonalAccessToken :: "pat_store \<Rightarrow> string \<Rightarrow> error + pat_token" where
  [mem_defs]: "mem_GetPersonalAccessToken s i =
     (case pas_byID s i of None \<Rightarrow> Inl ErrNotFound | Some t \<Rightarrow> Inr t)"

definition mem_GetPersonalAccessTokenByHash :: "pat_store \<Rightarrow> string \<Rightarrow> error + pat_token" where
  [mem_defs]: "mem_GetPersonalAccessTokenByHash s h = row_via (pas_byHash s) (pas_byID s) h"

definition mem_ListPersonalAccessTokensByUser :: "pat_store \<Rightarrow> string \<Rightarrow> error + pat_token list" where
  [mem_defs]: "mem_ListPersonalAccessTokensByUser s userID =
     read_each (pas_byID s) (pas_byUserID s userID)"

definition mem_UpdatePersonalAccessToken ::
  "pat_token \<Rightarrow> pat_store \<Rightarrow> (error + unit) \<times> pat_store" where
  [mem_defs]: "mem_UpdatePersonalAccessToken t s =
     (if pas_byID s (pt_ID t) = None then (Inl ErrNotFound, s)
      else (Inr (), s\<lparr>pas_byID := (pas_byID s)(pt_ID t \<mapsto> t)\<rparr>))"

text \<open>No row is ever deleted, so the index need only not dangle.\<close>

definition pas_inv :: "pat_store \<Rightarrow> bool" where
  "pas_inv s \<longleftrightarrow> hash_indexed pt_TokenHash (pas_byHash s) (pas_byID s) \<and>
     points_into_all (pas_byUserID s) (pas_byID s) \<and>
     (\<forall>i t. pas_byID s i = Some t \<longrightarrow> pt_ID t = i)"

lemma pas_inv_new: "pas_inv NewPersonalAccessTokenStore"
  by (simp add: pas_inv_def NewPersonalAccessTokenStore_def)

lemma pas_inv_create:
  "pas_inv s \<Longrightarrow> pas_byID s (pt_ID t) = None \<Longrightarrow>
   mem_CreatePersonalAccessToken t s = (r, s') \<Longrightarrow> pas_inv s'"
  by (auto simp: pas_inv_def mem_defs split: if_splits)

lemma pas_inv_update:
  "pas_inv s \<Longrightarrow> pas_byID s (pt_ID t) = Some t0 \<Longrightarrow> pt_TokenHash t = pt_TokenHash t0 \<Longrightarrow>
   mem_UpdatePersonalAccessToken t s = (r, s') \<Longrightarrow> pas_inv s'"
  by (auto simp: pas_inv_def mem_defs split: if_splits)

lemma pas_points: "pas_inv s \<Longrightarrow> points_into (pas_byHash s) (pas_byID s)"
  by (auto simp: pas_inv_def dest: hash_indexed_points)

lemma pas_get_row:
  assumes "pas_inv s" and "mem_GetPersonalAccessTokenByHash s h = Inr t"
  shows "pas_byID s (pt_ID t) = Some t" and "pt_TokenHash t = h"
  using assms by (auto simp: pas_inv_def mem_defs dest!: row_via_indexed)

interpretation pat_tab: hash_table mem_CreatePersonalAccessToken mem_GetPersonalAccessTokenByHash
  pt_TokenHash pt_ID "\<lambda>s i. pas_byID s i \<noteq> None" pas_inv
proof unfold_locales
  show "pas_inv s'"
    if "pas_inv s" "\<not> pas_byID s (pt_ID r) \<noteq> None" "mem_CreatePersonalAccessToken r s = (x, s')"
    for r s x s'
    using that by (auto intro: pas_inv_create)
  show "e = ErrNotFound" if "pas_inv s" "mem_GetPersonalAccessTokenByHash s h = Inl e" for s h e
    using that by (auto simp: mem_GetPersonalAccessTokenByHash_def dest: pas_points intro: row_via_errors)
qed (auto simp: mem_GetPersonalAccessTokenByHash_def mem_CreatePersonalAccessToken_def pas_points
      row_via_insert_other split: if_splits)

section \<open>DeviceAuthorizationStore (memstore/device.go)\<close>

record devauth_store =
  das_byID :: "string \<rightharpoonup> device_authorization"
  das_byHash :: "string \<rightharpoonup> string"
  das_byUserCode :: "string \<rightharpoonup> string"

definition NewDeviceAuthorizationStore :: devauth_store where
  "NewDeviceAuthorizationStore =
     \<lparr>das_byID = Map.empty, das_byHash = Map.empty, das_byUserCode = Map.empty\<rparr>"

definition mem_CreateDeviceAuthorization ::
  "device_authorization \<Rightarrow> devauth_store \<Rightarrow> (error + unit) \<times> devauth_store" where
  [mem_defs]: "mem_CreateDeviceAuthorization d s =
     (Inr (), s\<lparr>das_byID := (das_byID s)(da_ID d \<mapsto> d),
                das_byHash := (das_byHash s)(da_DeviceCodeHash d \<mapsto> da_ID d),
                das_byUserCode := (das_byUserCode s)(da_UserCode d \<mapsto> da_ID d)\<rparr>)"

definition mem_GetDeviceAuthorizationByDeviceCodeHash ::
  "devauth_store \<Rightarrow> string \<Rightarrow> error + device_authorization" where
  [mem_defs]: "mem_GetDeviceAuthorizationByDeviceCodeHash s h = row_via (das_byHash s) (das_byID s) h"

definition mem_GetDeviceAuthorizationByUserCode ::
  "devauth_store \<Rightarrow> string \<Rightarrow> error + device_authorization" where
  [mem_defs]: "mem_GetDeviceAuthorizationByUserCode s c = row_via (das_byUserCode s) (das_byID s) c"

definition mem_UpdateDeviceAuthorization ::
  "device_authorization \<Rightarrow> devauth_store \<Rightarrow> (error + unit) \<times> devauth_store" where
  [mem_defs]: "mem_UpdateDeviceAuthorization d s =
     (if das_byID s (da_ID d) = None then (Inl ErrNotFound, s)
      else (Inr (), s\<lparr>das_byID := (das_byID s)(da_ID d \<mapsto> d)\<rparr>))"

definition mem_DeleteDeviceAuthorization ::
  "string \<Rightarrow> devauth_store \<Rightarrow> (error + unit) \<times> devauth_store" where
  [mem_defs]: "mem_DeleteDeviceAuthorization i s =
     (case das_byID s i of
        None \<Rightarrow> (Inr (), s)
      | Some d \<Rightarrow> (Inr (), s\<lparr>das_byHash := (das_byHash s)(da_DeviceCodeHash d := None),
                            das_byUserCode := (das_byUserCode s)(da_UserCode d := None),
                            das_byID := (das_byID s)(i := None)\<rparr>))"

definition das_inv :: "devauth_store \<Rightarrow> bool" where
  "das_inv s \<longleftrightarrow> hash_indexed da_DeviceCodeHash (das_byHash s) (das_byID s) \<and>
     hash_indexed da_UserCode (das_byUserCode s) (das_byID s) \<and>
     (\<forall>i d. das_byID s i = Some d \<longrightarrow> da_ID d = i)"

lemma das_inv_new: "das_inv NewDeviceAuthorizationStore"
  by (simp add: das_inv_def NewDeviceAuthorizationStore_def)

lemma das_inv_create:
  "das_inv s \<Longrightarrow> das_byID s (da_ID d) = None \<Longrightarrow>
   mem_CreateDeviceAuthorization d s = (r, s') \<Longrightarrow> das_inv s'"
  by (auto simp: das_inv_def mem_defs split: if_splits)

lemma das_inv_update:
  "das_inv s \<Longrightarrow> das_byID s (da_ID d) = Some d0 \<Longrightarrow> da_DeviceCodeHash d = da_DeviceCodeHash d0 \<Longrightarrow>
   da_UserCode d = da_UserCode d0 \<Longrightarrow> mem_UpdateDeviceAuthorization d s = (r, s') \<Longrightarrow> das_inv s'"
  by (auto simp: das_inv_def mem_defs split: if_splits)

lemma das_inv_delete:
  "das_inv s \<Longrightarrow> mem_DeleteDeviceAuthorization i s = (r, s') \<Longrightarrow> das_inv s'"
  by (auto simp: das_inv_def mem_defs split: option.splits if_splits)

lemma das_points: "das_inv s \<Longrightarrow> points_into (das_byHash s) (das_byID s)"
  by (auto simp: das_inv_def dest: hash_indexed_points)

lemma das_get_row:
  assumes "das_inv s" and "mem_GetDeviceAuthorizationByDeviceCodeHash s h = Inr d"
  shows "das_byID s (da_ID d) = Some d" and "da_DeviceCodeHash d = h"
  using assms by (auto simp: das_inv_def mem_defs dest!: row_via_indexed)

lemma das_get_code_row:
  assumes "das_inv s" and "mem_GetDeviceAuthorizationByUserCode s c = Inr d"
  shows "das_byID s (da_ID d) = Some d" and "da_UserCode d = c"
  using assms by (auto simp: das_inv_def mem_defs dest!: row_via_indexed)

lemma das_deleted:
  "das_inv s \<Longrightarrow> mem_GetDeviceAuthorizationByDeviceCodeHash s h = Inr d \<Longrightarrow>
   mem_DeleteDeviceAuthorization (da_ID d) s = (r, s') \<Longrightarrow>
   mem_GetDeviceAuthorizationByDeviceCodeHash s' h = Inl ErrNotFound"
  by (auto simp: das_inv_def mem_defs dest!: row_via_indexed)

interpretation device_tab: hash_table mem_CreateDeviceAuthorization
  mem_GetDeviceAuthorizationByDeviceCodeHash da_DeviceCodeHash da_ID "\<lambda>s i. das_byID s i \<noteq> None" das_inv
proof unfold_locales
  show "das_inv s'"
    if "das_inv s" "\<not> das_byID s (da_ID r) \<noteq> None" "mem_CreateDeviceAuthorization r s = (x, s')"
    for r s x s'
    using that by (auto intro: das_inv_create)
  show "e = ErrNotFound"
    if "das_inv s" "mem_GetDeviceAuthorizationByDeviceCodeHash s h = Inl e" for s h e
    using that by (auto simp: mem_GetDeviceAuthorizationByDeviceCodeHash_def
        dest: das_points intro: row_via_errors)
qed (auto simp: mem_GetDeviceAuthorizationByDeviceCodeHash_def mem_CreateDeviceAuthorization_def
      das_points row_via_insert_other split: if_splits)

section \<open>PINStore and BoundDeviceStore (memstore/pin.go)\<close>

type_synonym pin_store = "string \<rightharpoonup> pin_credential"

definition NewPINStore :: pin_store where "NewPINStore = Map.empty"

definition mem_SetPINCredential :: "pin_credential \<Rightarrow> pin_store \<Rightarrow> (error + unit) \<times> pin_store" where
  [mem_defs]: "mem_SetPINCredential c s =
     (Inr (), s(pc_UserID c \<mapsto>
        (case s (pc_UserID c) of None \<Rightarrow> c | Some old \<Rightarrow> c\<lparr>pc_CreatedAt := pc_CreatedAt old\<rparr>)))"

definition mem_GetPINCredential :: "pin_store \<Rightarrow> string \<Rightarrow> error + pin_credential" where
  [mem_defs]: "mem_GetPINCredential s userID =
     (case s userID of None \<Rightarrow> Inl ErrNotFound | Some c \<Rightarrow> Inr c)"

definition mem_DeletePINCredential :: "string \<Rightarrow> pin_store \<Rightarrow> (error + unit) \<times> pin_store" where
  [mem_defs]: "mem_DeletePINCredential userID s = (Inr (), s(userID := None))"

record bound_store =
  bds_byID :: "string \<rightharpoonup> bound_device"
  bds_byHash :: "string \<rightharpoonup> string"
  bds_byUserID :: multimap

definition NewBoundDeviceStore :: bound_store where
  "NewBoundDeviceStore = \<lparr>bds_byID = Map.empty, bds_byHash = Map.empty, bds_byUserID = no_ids\<rparr>"

definition mem_CreateBoundDevice :: "bound_device \<Rightarrow> bound_store \<Rightarrow> (error + unit) \<times> bound_store" where
  [mem_defs]: "mem_CreateBoundDevice d s =
     (if bds_byHash s (bd_TokenHash d) \<noteq> None then (Inl ErrConflict, s)
      else if bds_byID s (bd_ID d) \<noteq> None then (Inl ErrConflict, s)
      else (Inr (), s\<lparr>bds_byID := (bds_byID s)(bd_ID d \<mapsto> d),
                     bds_byHash := (bds_byHash s)(bd_TokenHash d \<mapsto> bd_ID d),
                     bds_byUserID := append_id (bd_UserID d) (bd_ID d) (bds_byUserID s)\<rparr>))"

definition mem_GetBoundDevice :: "bound_store \<Rightarrow> string \<Rightarrow> error + bound_device" where
  [mem_defs]: "mem_GetBoundDevice s i =
     (case bds_byID s i of None \<Rightarrow> Inl ErrNotFound | Some d \<Rightarrow> Inr d)"

definition mem_GetBoundDeviceByTokenHash :: "bound_store \<Rightarrow> string \<Rightarrow> error + bound_device" where
  [mem_defs]: "mem_GetBoundDeviceByTokenHash s h = row_via (bds_byHash s) (bds_byID s) h"

definition mem_ListBoundDevicesByUser :: "bound_store \<Rightarrow> string \<Rightarrow> error + bound_device list" where
  [mem_defs]: "mem_ListBoundDevicesByUser s userID = read_each (bds_byID s) (bds_byUserID s userID)"

definition mem_TouchBoundDevice ::
  "string \<Rightarrow> time \<Rightarrow> bound_store \<Rightarrow> (error + unit) \<times> bound_store" where
  [mem_defs]: "mem_TouchBoundDevice i t s =
     (case bds_byID s i of
        None \<Rightarrow> (Inl ErrNotFound, s)
      | Some d \<Rightarrow>
          (if bd_RevokedAt d \<noteq> None then (Inl ErrNotFound, s)
           else (Inr (), s\<lparr>bds_byID := (bds_byID s)(i \<mapsto> d\<lparr>bd_LastUsedAt := Some t\<rparr>)\<rparr>)))"

definition mem_RevokeBoundDevice ::
  "string \<Rightarrow> time \<Rightarrow> bound_store \<Rightarrow> (error + unit) \<times> bound_store" where
  [mem_defs]: "mem_RevokeBoundDevice i t s =
     (case bds_byID s i of
        None \<Rightarrow> (Inl ErrNotFound, s)
      | Some d \<Rightarrow>
          (Inr (), if bd_RevokedAt d = None
                   then s\<lparr>bds_byID := (bds_byID s)(i \<mapsto> d\<lparr>bd_RevokedAt := Some t\<rparr>)\<rparr> else s))"

text \<open>The loop of \<open>RevokeAllBoundDevices\<close>, with its counter \<open>n\<close>.\<close>

fun revoke_bound ::
  "time \<Rightarrow> string list \<Rightarrow> nat \<Rightarrow> (string \<rightharpoonup> bound_device) \<Rightarrow> (error + nat) \<times> (string \<rightharpoonup> bound_device)"
where
  "revoke_bound t [] n rows = (Inr n, rows)"
| "revoke_bound t (i # is) n rows =
     (case rows i of
        None \<Rightarrow> (Inl Panic, rows)
      | Some d \<Rightarrow>
          (if bd_RevokedAt d = None
           then revoke_bound t is (n + 1) (rows(i \<mapsto> d\<lparr>bd_RevokedAt := Some t\<rparr>))
           else revoke_bound t is n rows))"

definition mem_RevokeAllBoundDevices ::
  "string \<Rightarrow> time \<Rightarrow> bound_store \<Rightarrow> (error + nat) \<times> bound_store" where
  [mem_defs]: "mem_RevokeAllBoundDevices userID t s =
     (case revoke_bound t (bds_byUserID s userID) 0 (bds_byID s) of
        (r, rows) \<Rightarrow> (r, s\<lparr>bds_byID := rows\<rparr>))"

definition bds_inv :: "bound_store \<Rightarrow> bool" where
  "bds_inv s \<longleftrightarrow> hash_indexed bd_TokenHash (bds_byHash s) (bds_byID s) \<and>
     lists_rows (\<lambda>d. Some (bd_UserID d)) (bds_byUserID s) (bds_byID s) \<and>
     (\<forall>i d. bds_byID s i = Some d \<longrightarrow> bd_ID d = i)"

lemma bds_inv_new: "bds_inv NewBoundDeviceStore"
  by (simp add: bds_inv_def NewBoundDeviceStore_def)

lemma bds_inv_create: "bds_inv s \<Longrightarrow> mem_CreateBoundDevice d s = (r, s') \<Longrightarrow> bds_inv s'"
  using lists_rows_insert [of "\<lambda>d. Some (bd_UserID d)" "bds_byUserID s" "bds_byID s" "bd_ID d" d]
  by (auto simp: bds_inv_def mem_defs split: if_splits)

lemma bds_inv_row:
  "bds_inv s \<Longrightarrow> bds_byID s i = Some d \<Longrightarrow> bd_ID d' = bd_ID d \<Longrightarrow> bd_UserID d' = bd_UserID d \<Longrightarrow>
   bd_TokenHash d' = bd_TokenHash d \<Longrightarrow> bds_inv (s\<lparr>bds_byID := (bds_byID s)(i \<mapsto> d')\<rparr>)"
  by (auto simp: bds_inv_def intro: lists_rows_update split: if_splits)

lemma bds_inv_touch: "bds_inv s \<Longrightarrow> mem_TouchBoundDevice i t s = (r, s') \<Longrightarrow> bds_inv s'"
  by (auto simp: mem_defs split: option.splits if_splits intro!: bds_inv_row)

lemma bds_inv_revoke: "bds_inv s \<Longrightarrow> mem_RevokeBoundDevice i t s = (r, s') \<Longrightarrow> bds_inv s'"
  by (auto simp: mem_defs split: option.splits if_splits intro!: bds_inv_row)

lemma bds_points: "bds_inv s \<Longrightarrow> points_into (bds_byHash s) (bds_byID s)"
  by (auto simp: bds_inv_def dest: hash_indexed_points)

lemma bds_get_row:
  assumes "bds_inv s" and "mem_GetBoundDeviceByTokenHash s h = Inr d"
  shows "bds_byID s (bd_ID d) = Some d" and "bd_TokenHash d = h"
  using assms by (auto simp: bds_inv_def mem_defs dest!: row_via_indexed)

text \<open>Revoking a device keeps the instant of its first revocation.\<close>

definition bd_revoked :: "time \<Rightarrow> bound_device \<Rightarrow> bound_device" where
  "bd_revoked t d = (if bd_RevokedAt d = None then d\<lparr>bd_RevokedAt := Some t\<rparr> else d)"

lemma bd_revoked_simps [simp]:
  "bd_RevokedAt (bd_revoked t d) \<noteq> None" "bd_ID (bd_revoked t d) = bd_ID d"
  "bd_UserID (bd_revoked t d) = bd_UserID d" "bd_TokenHash (bd_revoked t d) = bd_TokenHash d"
  by (auto simp: bd_revoked_def)

lemma revoke_bound_eq:
  "distinct is \<Longrightarrow> (\<And>i. i \<in> set is \<Longrightarrow> rows i \<noteq> None) \<Longrightarrow>
   revoke_bound t is n rows =
     (Inr (n + length (filter (\<lambda>i. bd_RevokedAt (the (rows i)) = None) is)),
      \<lambda>i. if i \<in> set is then map_option (bd_revoked t) (rows i) else rows i)"
proof (induction "is" arbitrary: n rows)
  case Nil
  then show ?case by simp
next
  case (Cons i "is")
  obtain d where d: "rows i = Some d" using Cons.prems(2) [of i] by (auto simp: not_None_eq)
  let ?rows = "rows(i \<mapsto> bd_revoked t d)"
  have same: "?rows = (if bd_RevokedAt d = None then rows(i \<mapsto> d\<lparr>bd_RevokedAt := Some t\<rparr>) else rows)"
    using d by (auto simp: bd_revoked_def)
  have "filter (\<lambda>j. bd_RevokedAt (the (?rows j)) = None) is =
        filter (\<lambda>j. bd_RevokedAt (the (rows j)) = None) is"
    using Cons.prems(1) by (intro filter_cong) auto
  moreover have "revoke_bound t is m ?rows =
      (Inr (m + length (filter (\<lambda>j. bd_RevokedAt (the (?rows j)) = None) is)),
       \<lambda>j. if j \<in> set is then map_option (bd_revoked t) (?rows j) else ?rows j)" for m
    by (rule Cons.IH) (use Cons.prems in auto)
  ultimately have IH: "revoke_bound t is m ?rows =
      (Inr (m + length (filter (\<lambda>j. bd_RevokedAt (the (rows j)) = None) is)),
       \<lambda>j. if j \<in> set (i # is) then map_option (bd_revoked t) (rows j) else rows j)" for m
    using Cons.prems(1) d by (auto simp: fun_eq_iff)
  show ?case
    using IH [of n] IH [of "n + 1"] same d by (auto split: if_splits)
qed

lemma revoke_all_bound_eq:
  assumes "bds_inv s"
  shows "mem_RevokeAllBoundDevices userID t s =
     (Inr (length (filter (\<lambda>i. bd_RevokedAt (the (bds_byID s i)) = None) (bds_byUserID s userID))),
      s\<lparr>bds_byID := \<lambda>i. if i \<in> set (bds_byUserID s userID)
                       then map_option (bd_revoked t) (bds_byID s i) else bds_byID s i\<rparr>)"
proof -
  have "distinct (bds_byUserID s userID)" and
    "\<And>i. i \<in> set (bds_byUserID s userID) \<Longrightarrow> bds_byID s i \<noteq> None"
    using assms by (auto simp: bds_inv_def lists_rows_def)
  then show ?thesis by (simp add: mem_defs revoke_bound_eq)
qed

lemma revoke_all_bound_revokes:
  assumes "bds_inv s" and "mem_RevokeAllBoundDevices userID t s = (r, s')"
    and "bds_byID s' i = Some d" and "bd_UserID d = userID"
  shows "bd_RevokedAt d \<noteq> None"
proof -
  from assms(2,3) have row: "(if i \<in> set (bds_byUserID s userID)
      then map_option (bd_revoked t) (bds_byID s i) else bds_byID s i) = Some d"
    by (auto simp: revoke_all_bound_eq [OF assms(1)])
  have listed: "i \<in> set (bds_byUserID s userID) \<longleftrightarrow>
      (\<exists>x. bds_byID s i = Some x \<and> Some (bd_UserID x) = Some userID)"
    using assms(1)
      lists_rows_iff [of "\<lambda>d. Some (bd_UserID d)" "bds_byUserID s" "bds_byID s" i userID]
    by (simp add: bds_inv_def)
  show ?thesis
  proof (cases "i \<in> set (bds_byUserID s userID)")
    case True
    then show ?thesis using row by auto
  next
    case False
    with row have "bds_byID s i = Some d" by simp
    with False listed assms(4) show ?thesis by blast
  qed
qed

interpretation bound_tab: hash_table mem_CreateBoundDevice mem_GetBoundDeviceByTokenHash
  bd_TokenHash bd_ID "\<lambda>s i. bds_byID s i \<noteq> None" bds_inv
proof unfold_locales
  show "bds_inv s'" if "bds_inv s" "mem_CreateBoundDevice r s = (x, s')" for r s x s'
    using that by (rule bds_inv_create)
  show "e = ErrNotFound" if "bds_inv s" "mem_GetBoundDeviceByTokenHash s h = Inl e" for s h e
    using that by (auto simp: mem_GetBoundDeviceByTokenHash_def dest: bds_points intro: row_via_errors)
qed (auto simp: mem_GetBoundDeviceByTokenHash_def mem_CreateBoundDevice_def bds_points
      row_via_insert_other split: if_splits)

section \<open>EmailLoginStore (memstore/emaillogin.go)\<close>

record email_login_store =
  els_byID :: "string \<rightharpoonup> email_login_token"
  els_byHash :: "string \<rightharpoonup> string"
  els_byEmail :: "string \<times> email_login_kind \<Rightarrow> string list"

definition NewEmailLoginStore :: email_login_store where
  "NewEmailLoginStore =
     \<lparr>els_byID = Map.empty, els_byHash = Map.empty, els_byEmail = no_ids\<rparr>"

definition mem_CreateEmailLoginToken ::
  "email_login_token \<Rightarrow> email_login_store \<Rightarrow> (error + unit) \<times> email_login_store" where
  [mem_defs]: "mem_CreateEmailLoginToken t s =
     (let key = (el_Email t, el_Kind t) in
      (Inr (), s\<lparr>els_byID := (els_byID s)(el_ID t \<mapsto> t),
                 els_byHash := (els_byHash s)(el_TokenHash t \<mapsto> el_ID t),
                 els_byEmail := append_id key (el_ID t) (els_byEmail s)\<rparr>))"

definition mem_GetEmailLoginTokenByHash ::
  "email_login_store \<Rightarrow> string \<Rightarrow> error + email_login_token" where
  [mem_defs]: "mem_GetEmailLoginTokenByHash s h = row_via (els_byHash s) (els_byID s) h"

text \<open>The loop runs from the newest id backwards and returns the first row it finds.\<close>

definition mem_GetEmailLoginTokenByEmail ::
  "email_login_store \<Rightarrow> string \<Rightarrow> email_login_kind \<Rightarrow> error + email_login_token" where
  [mem_defs]: "mem_GetEmailLoginTokenByEmail s email kind =
     (case read_present (els_byID s) (rev (els_byEmail s (email, kind))) of
        [] \<Rightarrow> Inl ErrNotFound
      | t # _ \<Rightarrow> Inr t)"

definition mem_MarkEmailLoginTokenUsed ::
  "string \<Rightarrow> time \<Rightarrow> email_login_store \<Rightarrow> (error + unit) \<times> email_login_store" where
  [mem_defs]: "mem_MarkEmailLoginTokenUsed i usedAt s =
     (case els_byID s i of
        None \<Rightarrow> (Inl ErrNotFound, s)
      | Some t \<Rightarrow>
          (if el_UsedAt t \<noteq> None then (Inl ErrNotFound, s)
           else (Inr (), s\<lparr>els_byID := (els_byID s)(i \<mapsto> t\<lparr>el_UsedAt := Some usedAt\<rparr>)\<rparr>)))"

definition mem_IncrementEmailLoginTokenAttempts ::
  "string \<Rightarrow> email_login_store \<Rightarrow> (error + int) \<times> email_login_store" where
  [mem_defs]: "mem_IncrementEmailLoginTokenAttempts i s =
     (case els_byID s i of
        None \<Rightarrow> (Inl ErrNotFound, s)
      | Some t \<Rightarrow>
          (Inr (el_Attempts t + 1),
           s\<lparr>els_byID := (els_byID s)(i \<mapsto> t\<lparr>el_Attempts := el_Attempts t + 1\<rparr>)\<rparr>))"

definition mem_DeleteEmailLoginTokens ::
  "string \<Rightarrow> email_login_kind \<Rightarrow> email_login_store \<Rightarrow> (error + unit) \<times> email_login_store" where
  [mem_defs]: "mem_DeleteEmailLoginTokens email kind s =
     (case delete_each el_TokenHash (els_byEmail s (email, kind)) (els_byID s, els_byHash s) of
        (rows, ix) \<Rightarrow>
          (Inr (), s\<lparr>els_byID := rows, els_byHash := ix,
                     els_byEmail := (els_byEmail s)((email, kind) := [])\<rparr>))"

definition el_key :: "email_login_token \<Rightarrow> (string \<times> email_login_kind) option" where
  "el_key t = Some (el_Email t, el_Kind t)"

definition els_inv :: "email_login_store \<Rightarrow> bool" where
  "els_inv s \<longleftrightarrow> hash_indexed el_TokenHash (els_byHash s) (els_byID s) \<and>
     lists_rows el_key (els_byEmail s) (els_byID s) \<and>
     (\<forall>i t. els_byID s i = Some t \<longrightarrow> el_ID t = i)"

lemma els_inv_new: "els_inv NewEmailLoginStore"
  by (simp add: els_inv_def NewEmailLoginStore_def)

lemma els_listed_row:
  "els_inv s \<Longrightarrow> i \<in> set (els_byEmail s (e, k)) \<longleftrightarrow>
   (\<exists>t. els_byID s i = Some t \<and> el_Email t = e \<and> el_Kind t = k)"
  using lists_rows_iff [of el_key "els_byEmail s" "els_byID s" i "(e, k)"]
  by (simp add: els_inv_def el_key_def)

lemma els_inv_create:
  "els_inv s \<Longrightarrow> els_byID s (el_ID t) = None \<Longrightarrow> mem_CreateEmailLoginToken t s = (r, s') \<Longrightarrow>
   els_inv s'"
  by (auto simp: els_inv_def mem_defs Let_def el_key_def intro!: lists_rows_keyed split: if_splits)

lemma els_inv_row:
  assumes "els_inv s" and "els_byID s i = Some t" and "el_ID t' = el_ID t"
    and "el_Email t' = el_Email t" and "el_Kind t' = el_Kind t" and "el_TokenHash t' = el_TokenHash t"
  shows "els_inv (s\<lparr>els_byID := (els_byID s)(i \<mapsto> t')\<rparr>)"
  using assms lists_rows_update [of el_key "els_byEmail s" "els_byID s" i t t']
  by (auto simp: els_inv_def el_key_def split: if_splits)

lemma els_inv_mark: "els_inv s \<Longrightarrow> mem_MarkEmailLoginTokenUsed i t s = (r, s') \<Longrightarrow> els_inv s'"
  by (auto simp: mem_defs split: option.splits if_splits intro!: els_inv_row)

lemma els_inv_increment:
  "els_inv s \<Longrightarrow> mem_IncrementEmailLoginTokenAttempts i s = (r, s') \<Longrightarrow> els_inv s'"
  by (auto simp: mem_defs split: option.splits if_splits intro!: els_inv_row)

lemma els_delete_rows:
  assumes "mem_DeleteEmailLoginTokens e k s = (r, s')"
  shows "els_byID s' = (\<lambda>i. if i \<in> set (els_byEmail s (e, k)) then None else els_byID s i)"
    and "els_byEmail s' = (els_byEmail s)((e, k) := [])"
  using assms delete_each_rows [of el_TokenHash "els_byEmail s (e, k)" "els_byID s" "els_byHash s"]
  by (auto simp: mem_defs split: prod.splits)

lemma els_inv_delete:
  assumes inv: "els_inv s" and del: "mem_DeleteEmailLoginTokens e k s = (r, s')"
  shows "els_inv s'"
proof -
  note rows = els_delete_rows [OF del]
  have "hash_indexed el_TokenHash (els_byHash s') (els_byID s')"
    using inv del by (auto simp: els_inv_def mem_defs dest: delete_each_indexed split: prod.splits)
  moreover have "lists_rows el_key (els_byEmail s') (els_byID s')"
    unfolding rows using inv by (intro lists_rows_clear) (simp add: els_inv_def)
  ultimately show ?thesis using inv by (auto simp: els_inv_def rows split: if_splits)
qed

lemma els_get_row:
  assumes "els_inv s" and "mem_GetEmailLoginTokenByHash s h = Inr t"
  shows "els_byID s (el_ID t) = Some t" and "el_TokenHash t = h"
  using assms by (auto simp: els_inv_def mem_defs dest!: row_via_indexed)

lemma els_get_email_row:
  assumes "els_inv s" and "mem_GetEmailLoginTokenByEmail s e k = Inr t"
  shows "els_byID s (el_ID t) = Some t" and "el_Email t = e" and "el_Kind t = k"
proof -
  from assms(2) have "t \<in> set (read_present (els_byID s) (rev (els_byEmail s (e, k))))"
    by (auto simp: mem_defs split: list.splits)
  then obtain i where i: "i \<in> set (els_byEmail s (e, k))" "els_byID s i = Some t"
    by (auto simp: set_read_present)
  then show "els_byID s (el_ID t) = Some t" and "el_Email t = e" and "el_Kind t = k"
    using els_listed_row [OF assms(1), of i e k] assms(1) by (auto simp: els_inv_def)
qed

text \<open>Requesting a new token deletes the address's old ones: none of them is found again.\<close>

lemma els_delete_all:
  assumes "els_inv s" and "mem_DeleteEmailLoginTokens e k s = (r, s')"
    and "mem_GetEmailLoginTokenByHash s' h = Inr t"
  shows "(el_Email t, el_Kind t) \<noteq> (e, k)"
proof -
  from assms(3) obtain i where "els_byID s' i = Some t" by (auto simp: mem_defs dest!: row_via_SomeD)
  then have "els_byID s i = Some t" and "i \<notin> set (els_byEmail s (e, k))"
    by (auto simp: els_delete_rows [OF assms(2)] split: if_splits)
  then show ?thesis using els_listed_row [OF assms(1), of i e k] by auto
qed

definition mark_login :: "string \<Rightarrow> time \<Rightarrow> email_login_store \<Rightarrow> bool \<times> email_login_store" where
  "mark_login i t s = (case mem_MarkEmailLoginTokenUsed i t s of (r, s') \<Rightarrow> (r = Inr (), s'))"

definition login_live :: "email_login_store \<Rightarrow> string \<Rightarrow> bool" where
  "login_live s i = (case els_byID s i of None \<Rightarrow> False | Some t \<Rightarrow> el_UsedAt t = None)"

interpretation login_spend: spend_once mark_login login_live
  by unfold_locales
    (auto simp: mark_login_def login_live_def mem_defs split: option.splits if_splits)

lemma els_points: "els_inv s \<Longrightarrow> points_into (els_byHash s) (els_byID s)"
  by (auto simp: els_inv_def dest: hash_indexed_points)

interpretation login_tab: hash_table mem_CreateEmailLoginToken mem_GetEmailLoginTokenByHash
  el_TokenHash el_ID "\<lambda>s i. els_byID s i \<noteq> None" els_inv
proof unfold_locales
  show "els_inv s'"
    if "els_inv s" "\<not> els_byID s (el_ID r) \<noteq> None" "mem_CreateEmailLoginToken r s = (x, s')"
    for r s x s'
    using that by (auto intro: els_inv_create)
  show "e = ErrNotFound" if "els_inv s" "mem_GetEmailLoginTokenByHash s h = Inl e" for s h e
    using that by (auto simp: mem_GetEmailLoginTokenByHash_def dest: els_points intro: row_via_errors)
qed (auto simp: mem_GetEmailLoginTokenByHash_def mem_CreateEmailLoginToken_def Let_def els_points
      row_via_insert_other split: if_splits)

end
