(* ===== verification/Encoding.thy ===== *)
theory Encoding
  imports StoreTypes
begin

unbundle bit_operations_syntax

text \<open>
  The pure half of package \<open>crypto\<close>: hexadecimal and base64 text, SHA-256 (the standard library's
  \<open>sha256.Sum256\<close>, written out after FIPS 180-4), and what \<open>NewID\<close>, \<open>GenerateUserCode\<close> and
  \<open>GenerateNumericCode\<close> make of the random bytes they draw. A Go string is its bytes, one \<open>char\<close>
  each.
\<close>

section \<open>Bytes and text\<close>

definition byte_of :: "char \<Rightarrow> byte" where "byte_of c = of_nat (of_char c)"

definition bytes_of :: "string \<Rightarrow> byte list" where "bytes_of s = map byte_of s"

definition char_of_byte :: "byte \<Rightarrow> char" where "char_of_byte b = char_of (unat b)"

lemma char_of_byte_of [simp]: "char_of_byte (byte_of c) = c"
  by (simp add: char_of_byte_def byte_of_def unsigned_of_nat take_bit_eq_mod)

text \<open>The constant string \<open>hex\<close> of \<open>NewID\<close> and of \<open>encoding/hex\<close>.\<close>

definition hex_digits :: string where "hex_digits = ''0123456789abcdef''"

definition hex_byte :: "byte \<Rightarrow> string" where
  "hex_byte b = [hex_digits ! unat (drop_bit 4 b), hex_digits ! unat (b AND 0x0f)]"

definition hex_encode :: "byte list \<Rightarrow> string" where
  "hex_encode bs = concat (map hex_byte bs)"

lemma drop4: "unat (drop_bit 4 (b :: byte)) = unat b div 16"
  by (simp add: drop_bit_eq_div unat_div_distrib)

lemma drop4_less: "unat (drop_bit 4 (b :: byte)) < 16"
proof -
  have "unat b < 256" using unsigned_less [of b] by simp
  then show ?thesis by (auto simp only: drop4)
qed

lemma and15: "unat ((b :: byte) AND 0x0f) = unat b mod 16"
proof -
  have "b AND 0x0f = b mod 16" by (simp add: take_bit_eq_mask mask_eq_exp_minus_1 flip: take_bit_eq_mod [of 4, simplified])
  then show ?thesis by (simp add: unat_mod_distrib)
qed

lemma and15_less: "unat ((b :: byte) AND 0x0f) < 16"
  by (auto simp only: and15)

lemma hex_digits_length [simp]: "length hex_digits = 16"
  by (simp add: hex_digits_def)

lemma hex_digits_distinct: "distinct hex_digits"
  by (simp add: hex_digits_def)

lemma hex_byte_length [simp]: "length (hex_byte b) = 2"
  by (simp add: hex_byte_def)

lemma hex_byte_set: "set (hex_byte b) \<subseteq> set hex_digits"
  using drop4_less [of b] and15_less [of b] by (auto simp: hex_byte_def intro!: nth_mem)

lemma hex_byte_inj: "hex_byte b = hex_byte c \<Longrightarrow> b = c"
proof -
  assume "hex_byte b = hex_byte c"
  then have "unat b div 16 = unat c div 16" and "unat b mod 16 = unat c mod 16"
    using nth_eq_iff_index_eq [OF hex_digits_distinct] drop4_less [of b] drop4_less [of c]
      and15_less [of b] and15_less [of c]
    by (auto simp: hex_byte_def drop4 [symmetric] and15 [symmetric])
  then have "unat b = unat c" by (metis div_mult_mod_eq)
  then show "b = c" by (simp add: word_unat_eq_iff)
qed

lemma hex_encode_length: "length (hex_encode bs) = 2 * length bs"
  by (induction bs) (auto simp: hex_encode_def)

lemma hex_encode_inj: "hex_encode bs = hex_encode cs \<Longrightarrow> bs = cs"
proof (induction bs arbitrary: cs)
  case Nil
  then have "length (hex_encode cs) = 0" by (simp add: hex_encode_def)
  then show ?case by (simp add: hex_encode_length)
next
  case (Cons b bs)
  have "length cs = length (b # bs)"
    using hex_encode_length [of "b # bs"] hex_encode_length [of cs] Cons.prems by simp
  then obtain c cs' where cs: "cs = c # cs'" by (cases cs) auto
  with Cons.prems have "hex_byte b @ hex_encode bs = hex_byte c @ hex_encode cs'"
    by (simp add: hex_encode_def)
  then have "hex_byte b = hex_byte c" and "hex_encode bs = hex_encode cs'" by auto
  then show ?case using cs Cons.IH hex_byte_inj by blast
qed

section \<open>Base64 without padding (\<open>RawURLEncoding\<close>)\<close>

definition url_alphabet :: string where
  "url_alphabet = ''ABCDEFGHIJKLMNOPQRSTUVWXYZabcdefghijklmnopqrstuvwxyz0123456789-_''"

fun sextets :: "nat list \<Rightarrow> nat list" where
  "sextets (a # b # c # r) =
     (a div 4) # ((a mod 4) * 16 + b div 16) # ((b mod 16) * 4 + c div 64) # (c mod 64) # sextets r"
| "sextets [a, b] = [a div 4, (a mod 4) * 16 + b div 16, (b mod 16) * 4]"
| "sextets [a] = [a div 4, (a mod 4) * 16]"
| "sextets [] = []"

definition b64url_encode :: "byte list \<Rightarrow> string" where
  "b64url_encode bs = map (\<lambda>i. url_alphabet ! i) (sextets (map unat bs))"

lemma url_alphabet_length [simp]: "length url_alphabet = 64"
  by (simp add: url_alphabet_def)

lemma url_alphabet_distinct: "distinct url_alphabet"
  by (simp add: url_alphabet_def)

lemma div_bound: "x < 256 \<Longrightarrow> x div 16 < 16" "x < 256 \<Longrightarrow> x div 64 < 4" "x < 256 \<Longrightarrow> x div 4 < 64"
  for x :: nat
  by auto

lemma sextets_less: "(\<And>x. x \<in> set xs \<Longrightarrow> x < 256) \<Longrightarrow> s \<in> set (sextets xs) \<Longrightarrow> s < 64"
proof (induction xs rule: sextets.induct)
  case (1 a b c r)
  have "a div 4 < 64" "b div 16 < 16" "c div 64 < 4" using "1.prems"(1) by (simp_all add: div_bound)
  moreover have "a mod 4 < 4" "b mod 16 < 16" "c mod 64 < 64" by simp_all
  moreover have "s \<in> set (sextets r) \<Longrightarrow> s < 64" using "1.IH" "1.prems"(1) by simp
  ultimately show ?case using "1.prems"(2) by (auto simp only: sextets.simps list.set insert_iff; linarith)
next
  case (2 a b)
  have "a div 4 < 64" "b div 16 < 16" using "2.prems"(1) by (simp_all add: div_bound)
  moreover have "a mod 4 < 4" "b mod 16 < 16" by simp_all
  ultimately show ?case using "2.prems"(2) by (auto simp only: sextets.simps list.set insert_iff empty_iff; linarith)
next
  case (3 a)
  have "a div 4 < 64" using "3.prems"(1) by (simp add: div_bound)
  moreover have "a mod 4 < 4" by simp
  ultimately show ?case using "3.prems"(2) by (auto simp only: sextets.simps list.set insert_iff empty_iff; linarith)
qed simp

lemma sextets_length: "length (sextets xs) = (4 * length xs + 2) div 3"
  by (induction xs rule: sextets.induct) auto

lemma low_part: "y < k \<Longrightarrow> (x * k + y) div k = x" "y < k \<Longrightarrow> (x * k + y) mod k = y" for x y k :: nat
  by simp_all

lemma digit_eq:
  fixes x x' y y' k :: nat
  assumes "x * k + y = x' * k + y'" and "y < k" and "y' < k" shows "x = x'" and "y = y'"
  using low_part [OF assms(2), of x] low_part [OF assms(3), of x'] assms(1) by simp_all

lemma split_eq: "x div k = x' div k \<Longrightarrow> x mod k = x' mod k \<Longrightarrow> x = x'" for x x' k :: nat
  by (metis div_mult_mod_eq)

lemma sextets_inj:
  "length xs = length ys \<Longrightarrow> (\<And>x. x \<in> set xs \<Longrightarrow> x < 256) \<Longrightarrow> (\<And>y. y \<in> set ys \<Longrightarrow> y < 256) \<Longrightarrow>
   sextets xs = sextets ys \<Longrightarrow> xs = ys"
proof (induction xs arbitrary: ys rule: sextets.induct)
  case (1 a b c r)
  then obtain a' b' c' r' where ys: "ys = a' # b' # c' # r'"
    by (metis length_Suc_conv)
  have less: "b < 256" "c < 256" "b' < 256" "c' < 256" using 1 ys by auto
  have "sextets r = sextets r'" and eqs: "a div 4 = a' div 4"
    "(a mod 4) * 16 + b div 16 = (a' mod 4) * 16 + b' div 16"
    "(b mod 16) * 4 + c div 64 = (b' mod 16) * 4 + c' div 64" "c mod 64 = c' mod 64"
    using "1.prems"(4) unfolding ys by (simp_all only: sextets.simps list.inject)
  then have "r = r'" using "1.IH" "1.prems"(1-3) ys by simp
  moreover have "a = a'" by (rule split_eq [OF eqs(1)]) (rule digit_eq(1) [OF eqs(2)]; simp add: less div_bound)
  moreover have "b div 16 = b' div 16" by (rule digit_eq(2) [OF eqs(2)]) (simp_all add: less div_bound)
  moreover have "b mod 16 = b' mod 16" by (rule digit_eq(1) [OF eqs(3)]) (simp_all add: less div_bound)
  ultimately have "r = r'" "a = a'" "b = b'" by (blast intro: split_eq)+
  moreover have "c = c'" by (rule split_eq [OF _ eqs(4)]) (rule digit_eq(2) [OF eqs(3)]; simp add: less div_bound)
  ultimately show ?case by (simp add: ys)
next
  case (2 a b)
  from "2.prems"(1) obtain a' b' where ys: "ys = [a', b']" by (cases ys; cases "tl ys") auto
  have less: "b < 256" "b' < 256" using 2 ys by auto
  have eqs: "a div 4 = a' div 4" "(a mod 4) * 16 + b div 16 = (a' mod 4) * 16 + b' div 16"
    "b mod 16 = b' mod 16" using "2.prems"(4) ys by auto
  have "a = a'" by (rule split_eq [OF eqs(1)]) (rule digit_eq(1) [OF eqs(2)]; simp add: less div_bound)
  moreover have "b = b'"
    by (rule split_eq [OF _ eqs(3)]) (rule digit_eq(2) [OF eqs(2)]; simp add: less div_bound)
  ultimately show ?case by (simp add: ys)
next
  case (3 a)
  from "3.prems"(1) obtain a' where ys: "ys = [a']" by (cases ys) auto
  have "a div 4 = a' div 4" "a mod 4 = a' mod 4" using "3.prems"(4) ys by auto
  then have "a = a'" by (rule split_eq)
  then show ?case by (simp add: ys)
next
  case 4
  then show ?case by simp
qed

text \<open>Different bytes give different tokens: nothing of the 256 random bits is lost in the text.\<close>

lemma b64url_encode_inj:
  assumes "length bs = length cs" and "b64url_encode bs = b64url_encode cs" shows "bs = cs"
proof -
  have less: "x < 256" if "x \<in> set (map unat ds)" for x and ds :: "byte list"
  proof -
    from that obtain b :: byte where "x = unat b" by auto
    then show "x < 256" using unsigned_less [of b] by simp
  qed
  have "sextets (map unat bs) = sextets (map unat cs)"
  proof (rule map_inj_on [of "\<lambda>i. url_alphabet ! i"])
    show "map (\<lambda>i. url_alphabet ! i) (sextets (map unat bs)) =
          map (\<lambda>i. url_alphabet ! i) (sextets (map unat cs))"
      using assms(2) by (simp add: b64url_encode_def)
    show "inj_on (\<lambda>i. url_alphabet ! i) (set (sextets (map unat bs)) \<union> set (sextets (map unat cs)))"
      using sextets_less [of "map unat bs", OF less] sextets_less [of "map unat cs", OF less]
      by (auto intro!: inj_onI simp: nth_eq_iff_index_eq [OF url_alphabet_distinct])
  qed
  then have "map unat bs = map unat cs"
    using sextets_inj [of "map unat bs" "map unat cs"] assms(1) less by simp
  then show "bs = cs" by (rule map_inj_on) (simp add: inj_on_def word_unat_eq_iff)
qed

text \<open>The length of the text tells the length of the bytes, so the encoding is injective on all of them.\<close>

lemma thirds_less: "(4 * m + 2) div 3 < (4 * n + 2) div 3" if "m < n" for m n :: nat
proof -
  have "(4 * m + 2 + 3) div 3 \<le> (4 * n + 2) div 3" using that by (intro div_le_mono) simp
  then show ?thesis by simp
qed

lemma b64url_encode_eq_iff [simp]: "b64url_encode bs = b64url_encode cs \<longleftrightarrow> bs = cs"
proof
  assume eq: "b64url_encode bs = b64url_encode cs"
  have "length (b64url_encode ds) = (4 * length ds + 2) div 3" for ds
    by (simp add: b64url_encode_def sextets_length)
  then have "(4 * length bs + 2) div 3 = (4 * length cs + 2) div 3" using eq by metis
  then have "length bs = length cs"
    using thirds_less [of "length bs" "length cs"] thirds_less [of "length cs" "length bs"] by linarith
  then show "bs = cs" using eq by (rule b64url_encode_inj)
qed simp

section \<open>SHA-256 and \<open>HashToken\<close> (crypto/token.go)\<close>

text \<open>The round constants and the initial hash value, in decimal.\<close>

definition sha_K :: "32 word list" where
  "sha_K = [
    1116352408, 1899447441, 3049323471, 3921009573, 961987163, 1508970993, 2453635748, 2870763221,
    3624381080, 310598401, 607225278, 1426881987, 1925078388, 2162078206, 2614888103, 3248222580,
    3835390401, 4022224774, 264347078, 604807628, 770255983, 1249150122, 1555081692, 1996064986,
    2554220882, 2821834349, 2952996808, 3210313671, 3336571891, 3584528711, 113926993, 338241895,
    666307205, 773529912, 1294757372, 1396182291, 1695183700, 1986661051, 2177026350, 2456956037,
    2730485921, 2820302411, 3259730800, 3345764771, 3516065817, 3600352804, 4094571909, 275423344,
    430227734, 506948616, 659060556, 883997877, 958139571, 1322822218, 1537002063, 1747873779,
    1955562222, 2024104815, 2227730452, 2361852424, 2428436474, 2756734187, 3204031479, 3329325298]"

definition sha_init :: "32 word list" where
  "sha_init = [
    1779033703, 3144134277, 1013904242, 2773480762, 1359893119, 2600822924, 528734635, 1541459225]"

definition sha_Ch :: "32 word \<Rightarrow> 32 word \<Rightarrow> 32 word \<Rightarrow> 32 word" where
  "sha_Ch x y z = (x AND y) XOR (NOT x AND z)"

definition sha_Maj :: "32 word \<Rightarrow> 32 word \<Rightarrow> 32 word \<Rightarrow> 32 word" where
  "sha_Maj x y z = (x AND y) XOR (x AND z) XOR (y AND z)"

definition sha_Sigma0 :: "32 word \<Rightarrow> 32 word" where
  "sha_Sigma0 x = word_rotr 2 x XOR word_rotr 13 x XOR word_rotr 22 x"

definition sha_Sigma1 :: "32 word \<Rightarrow> 32 word" where
  "sha_Sigma1 x = word_rotr 6 x XOR word_rotr 11 x XOR word_rotr 25 x"

definition sha_sigma0 :: "32 word \<Rightarrow> 32 word" where
  "sha_sigma0 x = word_rotr 7 x XOR word_rotr 18 x XOR drop_bit 3 x"

definition sha_sigma1 :: "32 word \<Rightarrow> 32 word" where
  "sha_sigma1 x = word_rotr 17 x XOR word_rotr 19 x XOR drop_bit 10 x"

text \<open>The message schedule, newest word first.\<close>

fun sha_schedule :: "nat \<Rightarrow> 32 word list \<Rightarrow> 32 word list" where
  "sha_schedule 0 ws = ws"
| "sha_schedule (Suc n) ws =
     sha_schedule n ((sha_sigma1 (ws ! 1) + ws ! 6 + sha_sigma0 (ws ! 14) + ws ! 15) # ws)"

fun sha_round :: "32 word list \<Rightarrow> 32 word \<times> 32 word \<Rightarrow> 32 word list" where
  "sha_round [a, b, c, d, e, f, g, h] (k, w) =
     (let t1 = h + sha_Sigma1 e + sha_Ch e f g + k + w;
          t2 = sha_Sigma0 a + sha_Maj a b c
      in [t1 + t2, a, b, c, d + t1, e, f, g])"
| "sha_round s _ = s"

definition sha_compress :: "32 word list \<Rightarrow> 32 word list \<Rightarrow> 32 word list" where
  "sha_compress h block =
     map2 (+) h (foldl sha_round h (zip sha_K (rev (sha_schedule 48 (rev block)))))"

definition word_of_bytes :: "byte list \<Rightarrow> 32 word" where
  "word_of_bytes bs = foldl (\<lambda>w b. push_bit 8 w OR ucast b) 0 bs"

definition bytes_of_word :: "32 word \<Rightarrow> byte list" where
  "bytes_of_word w = map (\<lambda>n. ucast (drop_bit n w)) [24, 16, 8, 0]"

text \<open>The padding: a one bit, zeros, and the length in bits as 64 bits.\<close>

definition sha_pad :: "byte list \<Rightarrow> byte list" where
  "sha_pad bs = bs @ [0x80] @ replicate ((119 - length bs mod 64) mod 64) 0 @
     map (\<lambda>n. of_nat (length bs * 8 div 2 ^ n)) [56, 48, 40, 32, 24, 16, 8, 0]"

fun chunks :: "nat \<Rightarrow> 'a list \<Rightarrow> 'a list list" where
  "chunks n xs = (if n = 0 \<or> xs = [] then [] else take n xs # chunks n (drop n xs))"

declare chunks.simps [simp del]

definition Sum256 :: "byte list \<Rightarrow> byte list" where
  "Sum256 bs = concat (map bytes_of_word
     (foldl (\<lambda>h block. sha_compress h (map word_of_bytes (chunks 4 block))) sha_init
        (chunks 64 (sha_pad bs))))"

definition HashToken :: "string \<Rightarrow> string" where
  "HashToken raw = hex_encode (Sum256 (bytes_of raw))"

lemma sha_round_length: "length h = 8 \<Longrightarrow> length (sha_round h kw) = 8"
proof -
  assume "length h = 8"
  then obtain a b c d e f g i where "h = [a, b, c, d, e, f, g, i]"
    by (auto simp: length_Suc_conv eval_nat_numeral)
  then show ?thesis by (cases kw) (simp add: Let_def)
qed

lemma sha_rounds_length: "length h = 8 \<Longrightarrow> length (foldl sha_round h kws) = 8"
  by (induction kws arbitrary: h) (simp_all add: sha_round_length)

lemma sha_compress_length: "length h = 8 \<Longrightarrow> length (sha_compress h b) = 8"
  by (simp add: sha_compress_def sha_rounds_length)

lemma sha_blocks_length:
  "length h = 8 \<Longrightarrow>
   length (foldl (\<lambda>h block. sha_compress h (map word_of_bytes (chunks 4 block))) h bs) = 8"
  by (induction bs arbitrary: h) (simp_all add: sha_compress_length)

lemma concat_length_const: "(\<And>x. x \<in> set xs \<Longrightarrow> length (f x) = k) \<Longrightarrow> length (concat (map f xs)) = k * length xs"
  by (induction xs) auto

lemma Sum256_length: "length (Sum256 bs) = 32"
  unfolding Sum256_def
  by (subst concat_length_const [where k = 4])
    (simp_all add: bytes_of_word_def sha_blocks_length sha_init_def)

text \<open>A token hash is 64 lower-case hexadecimal digits, whatever the token.\<close>

lemma HashToken_length: "length (HashToken raw) = 64"
  by (simp add: HashToken_def hex_encode_length Sum256_length)

lemma HashToken_digits: "set (HashToken raw) \<subseteq> set hex_digits"
  using hex_byte_set by (force simp: HashToken_def hex_encode_def)

text \<open>Equal hashes mean equal SHA-256 sums: the text form loses nothing.\<close>

lemma HashToken_eq_iff: "HashToken a = HashToken b \<longleftrightarrow> Sum256 (bytes_of a) = Sum256 (bytes_of b)"
  using hex_encode_inj by (auto simp: HashToken_def)

section \<open>\<open>NewID\<close> (crypto/id.go)\<close>

definition uuid_bytes :: "byte list \<Rightarrow> byte list" where
  "uuid_bytes buf = (let buf = buf[6 := (buf ! 6 AND 0x0f) OR 0x40] in
     buf[8 := (buf ! 8 AND 0x3f) OR 0x80])"

text \<open>The loop over \<open>i\<close> and \<open>j\<close>: a dash goes in when \<open>j\<close> stands at 8, 13, 18 or 23.\<close>

fun uuid_text :: "nat \<Rightarrow> byte list \<Rightarrow> string" where
  "uuid_text j [] = []"
| "uuid_text j (b # bs) =
     (if j \<in> {8, 13, 18, 23} then CHR ''-'' # hex_byte b @ uuid_text (j + 3) bs
      else hex_byte b @ uuid_text (j + 2) bs)"

definition uuid_of :: "byte list \<Rightarrow> string" where
  "uuid_of buf = uuid_text 0 (uuid_bytes buf)"

section \<open>\<open>GenerateUserCode\<close> and \<open>GenerateNumericCode\<close> (crypto/usercode.go)\<close>

definition userCodeAlphabet :: string where "userCodeAlphabet = ''BCDFGHJKLMNPQRSTVWXZ''"

fun place_code :: "nat \<Rightarrow> byte list \<Rightarrow> string \<Rightarrow> string" where
  "place_code i [] out = out"
| "place_code i (b # bs) out =
     place_code (i + 1) bs
       (out[(if 4 \<le> i then i + 1 else i) := userCodeAlphabet ! (unat b mod length userCodeAlphabet)])"

definition user_code_of :: "byte list \<Rightarrow> string" where
  "user_code_of buf = (place_code 0 buf (replicate 9 (CHR 0x00)))[4 := CHR ''-'']"

text \<open>One pass of the inner loop over \<open>buf\<close>: rejected bytes are skipped, and it stops at \<open>n\<close>.\<close>

fun code_digits :: "nat \<Rightarrow> byte list \<Rightarrow> string \<Rightarrow> string" where
  "code_digits n [] out = out"
| "code_digits n (b # bs) out =
     (if unat b \<ge> 250 then code_digits n bs out
      else (let out = out @ [''0123456789'' ! (unat b mod 10)] in
            if length out = n then out else code_digits n bs out))"

end
