(* ===== verification/MemLinks.thy ===== *)
theory MemLinks
  imports Encoding Ports
begin

text \<open>
  The in-memory stores of what a user signs in with besides a password: \<open>memstore/account.go\<close> (identities at
  external providers) and \<open>memstore/webauthn.go\<close> (authenticators, and the ceremonies under way).
\<close>

section \<open>Rows of a user\<close>

text \<open>
  Both stores list rows under their user, \<open>slices.DeleteFunc(ids, func(x) { return x == id })\<close> taking one out.
\<close>

definition drop_id :: "string \<Rightarrow> string \<Rightarrow> multimap \<Rightarrow> multimap" where
  "drop_id k i m = m(k := filter (\<lambda>x. x \<noteq> i) (m k))"

text \<open>Every row is listed under its owner, once, and nothing else is listed.\<close>

definition owned :: "('r \<Rightarrow> string) \<Rightarrow> multimap \<Rightarrow> (string \<rightharpoonup> 'r) \<Rightarrow> bool" where
  "owned user_of m rows \<longleftrightarrow>
     (\<forall>u. distinct (m u)) \<and> (\<forall>u i. i \<in> set (m u) \<longleftrightarrow> (\<exists>r. rows i = Some r \<and> user_of r = u))"

lemma owned_empty [simp]: "owned user_of no_ids Map.empty"
  by (simp add: owned_def no_ids_def)

lemma owned_insert [intro]:
  assumes "owned user_of m rows" and "rows i = None" and "user_of r = u"
  shows "owned user_of (append_id u i m) (rows(i \<mapsto> r))"
  using assms by (fastforce simp: owned_def append_id_def)

lemma owned_update [intro]:
  assumes "owned user_of m rows" and "rows i = Some r0" and "user_of r = user_of r0"
  shows "owned user_of m (rows(i \<mapsto> r))"
  using assms by (fastforce simp: owned_def)

lemma owned_delete [intro]:
  assumes "owned user_of m rows" and "rows i = Some r"
  shows "owned user_of (drop_id (user_of r) i m) (rows(i := None))"
  using assms by (fastforce simp: owned_def drop_id_def)

lemma owned_listed:
  assumes "owned user_of m rows" shows "set (read_present rows (m u)) = {r. \<exists>i. rows i = Some r \<and> user_of r = u}"
  using assms by (auto simp: owned_def set_read_present)

lemma owned_mem: "owned user_of m rows \<Longrightarrow> i \<in> set (m u) \<Longrightarrow> \<exists>r. rows i = Some r \<and> user_of r = u"
  by (simp add: owned_def)

lemma read_present_all:
  "(\<And>i. i \<in> set is \<Longrightarrow> rows i \<noteq> None) \<Longrightarrow> read_present rows is = map (the \<circ> rows) is"
  by (induction "is") (auto split: option.splits)

lemma owned_read:
  assumes "owned user_of m rows" shows "read_present rows (m u) = map (the \<circ> rows) (m u)"
  by (rule read_present_all) (use assms in \<open>auto simp: owned_def\<close>)

text \<open>
  Rows with a unique key, indexed by it and listed under their user: a key has one row and a row one key.
\<close>

definition linked ::
  "('r \<Rightarrow> 'k) \<Rightarrow> ('r \<Rightarrow> string) \<Rightarrow> ('r \<Rightarrow> string) \<Rightarrow> (string \<rightharpoonup> 'r) \<Rightarrow> ('k \<rightharpoonup> string) \<Rightarrow> multimap \<Rightarrow> bool" where
  "linked key_of user_of id_of rows ix m \<longleftrightarrow>
     hash_indexed key_of ix rows \<and> owned user_of m rows \<and>
     (\<forall>i r. rows i = Some r \<longrightarrow> id_of r = i \<and> ix (key_of r) = Some i)"

lemma linkedI:
  assumes "hash_indexed key_of ix rows" and "owned user_of m rows"
    and "\<And>i r. rows i = Some r \<Longrightarrow> id_of r = i \<and> ix (key_of r) = Some i"
  shows "linked key_of user_of id_of rows ix m"
  using assms unfolding linked_def by blast

lemma linkedD:
  assumes "linked key_of user_of id_of rows ix m"
  shows "hash_indexed key_of ix rows" and "owned user_of m rows" and "points_into ix rows"
    and "rows i = Some r \<Longrightarrow> id_of r = i" and "rows i = Some r \<Longrightarrow> ix (key_of r) = Some i"
  using assms unfolding linked_def by (blast intro: hash_indexed_points)+

lemma linked_empty [simp]: "linked key_of user_of id_of Map.empty Map.empty no_ids"
  by (simp add: linked_def)

lemma linked_insert:
  assumes inv: "linked key_of user_of id_of rows ix m" and fresh: "rows (id_of r) = None" and free: "ix (key_of r) = None"
  shows "linked key_of user_of id_of (rows(id_of r \<mapsto> r)) (ix(key_of r \<mapsto> id_of r)) (append_id (user_of r) (id_of r) m)"
proof (rule linkedI)
  show "hash_indexed key_of (ix(key_of r \<mapsto> id_of r)) (rows(id_of r \<mapsto> r))"
    by (rule hash_indexed_insert [OF linkedD(1) [OF inv] fresh refl])
  show "owned user_of (append_id (user_of r) (id_of r) m) (rows(id_of r \<mapsto> r))"
    by (rule owned_insert [OF linkedD(2) [OF inv] fresh refl])
  fix i q assume q: "(rows(id_of r \<mapsto> r)) i = Some q"
  show "id_of q = i \<and> (ix(key_of r \<mapsto> id_of r)) (key_of q) = Some i"
  proof (cases "i = id_of r")
    case True
    then show ?thesis using q by simp
  next
    case False
    then have row: "rows i = Some q" using q by simp
    then have "key_of q \<noteq> key_of r" using linkedD(5) [OF inv row] free by auto
    then show ?thesis using linkedD(4,5) [OF inv row] by simp
  qed
qed

lemma linked_update:
  assumes inv: "linked key_of user_of id_of rows ix m" and row: "rows (id_of r) = Some r0"
    and same: "key_of r = key_of r0" "user_of r = user_of r0"
  shows "linked key_of user_of id_of (rows(id_of r \<mapsto> r)) (ix(key_of r \<mapsto> id_of r)) m"
proof -
  have ix: "ix (key_of r) = Some (id_of r)" using linkedD(5) [OF inv row] same by simp
  then have upd: "ix(key_of r \<mapsto> id_of r) = ix" by (simp add: fun_upd_idem)
  show ?thesis unfolding upd
  proof (rule linkedI)
    show "hash_indexed key_of ix (rows(id_of r \<mapsto> r))"
      by (rule hash_indexed_update [OF linkedD(1) [OF inv] row same(1)])
    show "owned user_of m (rows(id_of r \<mapsto> r))"
      by (rule owned_update [OF linkedD(2) [OF inv] row same(2)])
    fix i q assume "(rows(id_of r \<mapsto> r)) i = Some q"
    then show "id_of q = i \<and> ix (key_of q) = Some i"
      using ix linkedD(4,5) [OF inv, of i q] by (cases "i = id_of r") auto
  qed
qed

lemma linked_delete:
  assumes inv: "linked key_of user_of id_of rows ix m" and row: "rows i = Some r"
  shows "linked key_of user_of id_of (rows(i := None)) (ix(key_of r := None)) (drop_id (user_of r) i m)"
proof (rule linkedI)
  show "hash_indexed key_of (ix(key_of r := None)) (rows(i := None))"
    by (rule hash_indexed_delete [OF linkedD(1) [OF inv] row])
  show "owned user_of (drop_id (user_of r) i m) (rows(i := None))"
    by (rule owned_delete [OF linkedD(2) [OF inv] row])
  fix j q assume "(rows(i := None)) j = Some q"
  then have q: "j \<noteq> i" "rows j = Some q" by (auto split: if_splits)
  have "key_of q \<noteq> key_of r" using linkedD(5) [OF inv row] linkedD(5) [OF inv q(2)] q(1) by auto
  then show "id_of q = j \<and> (ix(key_of r := None)) (key_of q) = Some j"
    using linkedD(4,5) [OF inv q(2)] by simp
qed

text \<open>Looking a key up finds the row that has it, or nothing.\<close>

lemma linked_get_iff:
  assumes "linked key_of user_of id_of rows ix m"
  shows "row_via ix rows k = Inr r \<longleftrightarrow> rows (id_of r) = Some r \<and> key_of r = k"
proof
  assume "row_via ix rows k = Inr r"
  then show "rows (id_of r) = Some r \<and> key_of r = k"
    using row_via_indexed [OF linkedD(1) [OF assms]] linkedD(4) [OF assms] by metis
next
  assume "rows (id_of r) = Some r \<and> key_of r = k"
  then show "row_via ix rows k = Inr r" using linkedD(5) [OF assms] by (auto simp: row_via_def)
qed

lemma linked_get_error:
  assumes "linked key_of user_of id_of rows ix m" and "row_via ix rows k = Inl e"
  shows "e = ErrNotFound" and "ix k = None" and "rows i = Some r \<Longrightarrow> key_of r \<noteq> k"
proof -
  show "e = ErrNotFound" by (rule row_via_errors [OF linkedD(3) [OF assms(1)] assms(2)])
  show none: "ix k = None"
  proof (rule ccontr)
    assume "ix k \<noteq> None"
    then obtain i where "ix k = Some i" by (cases "ix k") auto
    with hash_indexedD [OF linkedD(1) [OF assms(1)] this] assms(2) show False by (auto simp: row_via_def)
  qed
  show "rows i = Some r \<Longrightarrow> key_of r \<noteq> k" using none linkedD(5) [OF assms(1), of i r] by auto
qed

lemma linked_listed:
  assumes "linked key_of user_of id_of rows ix m"
  shows "set (read_present rows (m u)) = {r. rows (id_of r) = Some r \<and> user_of r = u}"
    and "distinct (map id_of (read_present rows (m u)))"
proof -
  show "set (read_present rows (m u)) = {r. rows (id_of r) = Some r \<and> user_of r = u}"
    using owned_listed [OF linkedD(2) [OF assms]] linkedD(4) [OF assms] by force
  have "id_of (the (rows i)) = i" if "i \<in> set (m u)" for i
    using owned_mem [OF linkedD(2) [OF assms] that] linkedD(4) [OF assms] by auto
  then have "map id_of (read_present rows (m u)) = m u"
    unfolding owned_read [OF linkedD(2) [OF assms]] by (simp add: map_idI)
  then show "distinct (map id_of (read_present rows (m u)))"
    using linkedD(2) [OF assms] by (simp add: owned_def)
qed

text \<open>
  What \<open>oidc.Unlink\<close> and \<open>passkey.Remove\<close> rely on: deleting a listed row takes it, and only it, out of the listing.
\<close>

locale credential_table =
  fixes listing :: "'s \<Rightarrow> string \<Rightarrow> error + 'r list"
    and delete :: "string \<Rightarrow> 's \<Rightarrow> (error + unit) \<times> 's"
    and id_of :: "'r \<Rightarrow> string"
    and inv :: "'s \<Rightarrow> bool"
  assumes ids_distinct: "inv s \<Longrightarrow> listing s u = Inr rs \<Longrightarrow> distinct (map id_of rs)"
    and delete_listed: "inv s \<Longrightarrow> listing s u = Inr rs \<Longrightarrow> r \<in> set rs \<Longrightarrow> delete (id_of r) s = (x, s') \<Longrightarrow>
           x = Inr () \<and> inv s' \<and> listing s' u = Inr (filter (\<lambda>q. id_of q \<noteq> id_of r) rs)"
begin

lemma one_remains:
  assumes "inv s" and "listing s u = Inr rs" and "r \<in> set rs" and "length rs \<noteq> 1" and "delete (id_of r) s = (x, s')"
  shows "\<exists>q rs'. listing s' u = Inr (q # rs') \<and> id_of q \<noteq> id_of r"
proof -
  have dist: "distinct (map id_of rs)" by (rule ids_distinct [OF assms(1,2)])
  have "\<exists>q \<in> set rs. id_of q \<noteq> id_of r"
  proof (rule ccontr)
    assume "\<not> ?thesis"
    then have "map id_of rs = replicate (length rs) (id_of r)" by (intro replicate_eqI) auto
    moreover have "length rs > 0" using assms(3) by (cases rs) auto
    ultimately show False using dist assms(4) by (cases rs; cases "tl rs") auto
  qed
  then obtain q rs' where "filter (\<lambda>q. id_of q \<noteq> id_of r) rs = q # rs'"
    by (cases "filter (\<lambda>q. id_of q \<noteq> id_of r) rs") (auto simp: filter_empty_conv)
  moreover from this have "id_of q \<noteq> id_of r" by (metis (mono_tags, lifting) filter_eq_ConsD)
  ultimately show ?thesis using delete_listed [OF assms(1,2,3,5)] by auto
qed

text \<open>Two deletions, each allowed because it saw two rows, leave none.\<close>

lemma two_deletions_empty:
  assumes "inv s" and "listing s u = Inr [a, b]" and "delete (id_of a) s = (x, s1)" and "delete (id_of b) s1 = (y, s2)"
  shows "x = Inr ()" and "y = Inr ()" and "listing s2 u = Inr []"
proof -
  have ne: "id_of a \<noteq> id_of b" using ids_distinct [OF assms(1,2)] by simp
  have 1: "x = Inr () \<and> inv s1 \<and> listing s1 u = Inr [b]"
    using delete_listed [OF assms(1,2) _ assms(3)] ne by auto
  then have 2: "y = Inr () \<and> listing s2 u = Inr []"
    using delete_listed [of s1 u "[b]" b, OF _ _ _ assms(4)] by auto
  show "x = Inr ()" and "y = Inr ()" and "listing s2 u = Inr []" using 1 2 by auto
qed

end

lemma read_present_drop:
  "(\<And>j r. rows j = Some r \<Longrightarrow> id_of r = j) \<Longrightarrow>
   read_present (rows(i := None)) (filter (\<lambda>x. x \<noteq> i) is) = filter (\<lambda>q. id_of q \<noteq> i) (read_present rows is)"
  by (induction "is") (auto split: option.splits)

section \<open>AccountStore (memstore/account.go)\<close>

record account_store =
  acs_byID :: "string \<rightharpoonup> account"
  acs_byProvider :: "string \<times> string \<rightharpoonup> string"
  acs_byUserID :: multimap

definition NewAccountStore :: account_store where
  "NewAccountStore = \<lparr>acs_byID = Map.empty, acs_byProvider = Map.empty, acs_byUserID = no_ids\<rparr>"

definition providerKey :: "account \<Rightarrow> string \<times> string" where
  "providerKey a = (ac_Provider a, ac_ProviderAccountID a)"

definition mem_CreateAccount :: "account \<Rightarrow> account_store \<Rightarrow> (error + unit) \<times> account_store" where
  [mem_defs]: "mem_CreateAccount a s =
     (if acs_byProvider s (providerKey a) \<noteq> None \<and> acs_byProvider s (providerKey a) \<noteq> Some (ac_ID a)
      then (Inl ErrConflict, s)
      else (Inr (), s\<lparr>acs_byID := (acs_byID s)(ac_ID a \<mapsto> a),
                     acs_byProvider := (acs_byProvider s)(providerKey a \<mapsto> ac_ID a),
                     acs_byUserID := append_id (ac_UserID a) (ac_ID a) (acs_byUserID s)\<rparr>))"

definition mem_GetAccount :: "account_store \<Rightarrow> string \<Rightarrow> error + account" where
  [mem_defs]: "mem_GetAccount s i = (case acs_byID s i of None \<Rightarrow> Inl ErrNotFound | Some a \<Rightarrow> Inr a)"

definition mem_GetAccountByProvider :: "account_store \<Rightarrow> string \<Rightarrow> string \<Rightarrow> error + account" where
  [mem_defs]: "mem_GetAccountByProvider s provider accountID = row_via (acs_byProvider s) (acs_byID s) (provider, accountID)"

definition mem_ListAccountsByUser :: "account_store \<Rightarrow> string \<Rightarrow> error + account list" where
  [mem_defs]: "mem_ListAccountsByUser s userID = Inr (read_present (acs_byID s) (acs_byUserID s userID))"

definition mem_UpdateAccount :: "account \<Rightarrow> account_store \<Rightarrow> (error + unit) \<times> account_store" where
  [mem_defs]: "mem_UpdateAccount a s =
     (if acs_byID s (ac_ID a) = None then (Inl ErrNotFound, s)
      else (Inr (), s\<lparr>acs_byID := (acs_byID s)(ac_ID a \<mapsto> a),
                     acs_byProvider := (acs_byProvider s)(providerKey a \<mapsto> ac_ID a)\<rparr>))"

definition mem_DeleteAccount :: "string \<Rightarrow> account_store \<Rightarrow> (error + unit) \<times> account_store" where
  [mem_defs]: "mem_DeleteAccount i s =
     (case acs_byID s i of
        None \<Rightarrow> (Inl ErrNotFound, s)
      | Some a \<Rightarrow> (Inr (), s\<lparr>acs_byID := (acs_byID s)(i := None),
                            acs_byProvider := (acs_byProvider s)(providerKey a := None),
                            acs_byUserID := drop_id (ac_UserID a) i (acs_byUserID s)\<rparr>))"

abbreviation acs_inv :: "account_store \<Rightarrow> bool" where
  "acs_inv s \<equiv> linked providerKey ac_UserID ac_ID (acs_byID s) (acs_byProvider s) (acs_byUserID s)"

lemma acs_inv_new: "acs_inv NewAccountStore"
  by (simp add: NewAccountStore_def)

lemma acs_inv_create:
  assumes inv: "acs_inv s" and fresh: "acs_byID s (ac_ID a) = None" and run: "mem_CreateAccount a s = (r, s')"
  shows "acs_inv s'"
proof (cases "acs_byProvider s (providerKey a)")
  case None
  then show ?thesis using run linked_insert [of providerKey ac_UserID ac_ID, OF inv fresh None]
    by (auto simp: mem_CreateAccount_def)
next
  case (Some i)
  then have "i \<noteq> ac_ID a" using hash_indexedD [OF linkedD(1) [OF inv] Some] fresh by auto
  then have "s' = s" using run Some by (simp add: mem_CreateAccount_def)
  then show ?thesis using inv by simp
qed

lemma acs_inv_update:
  "acs_inv s \<Longrightarrow> acs_byID s (ac_ID a) = Some a0 \<Longrightarrow> providerKey a = providerKey a0 \<Longrightarrow> ac_UserID a = ac_UserID a0 \<Longrightarrow>
   mem_UpdateAccount a s = (r, s') \<Longrightarrow> acs_inv s'"
  using linked_update [of providerKey ac_UserID ac_ID] by (auto simp: mem_UpdateAccount_def)

lemma acs_inv_delete:
  assumes inv: "acs_inv s" and run: "mem_DeleteAccount i s = (r, s')" shows "acs_inv s'"
proof (cases "acs_byID s i")
  case None
  then show ?thesis using run inv by (auto simp: mem_DeleteAccount_def)
next
  case (Some a)
  then show ?thesis using run linked_delete [OF inv Some] by (auto simp: mem_DeleteAccount_def)
qed

lemma acs_get_iff:
  "acs_inv s \<Longrightarrow> mem_GetAccountByProvider s p i = Inr a \<longleftrightarrow> acs_byID s (ac_ID a) = Some a \<and> providerKey a = (p, i)"
  unfolding mem_GetAccountByProvider_def by (rule linked_get_iff)

lemma acs_get_error:
  assumes "acs_inv s" and "mem_GetAccountByProvider s p i = Inl e"
  shows "e = ErrNotFound" and "acs_byProvider s (p, i) = None" and "acs_byID s j = Some a \<Longrightarrow> providerKey a \<noteq> (p, i)"
  using linked_get_error [OF assms(1)] assms(2) unfolding mem_GetAccountByProvider_def by blast+

lemma acs_listed:
  assumes "acs_inv s" and "mem_ListAccountsByUser s u = Inr as"
  shows "set as = {a. acs_byID s (ac_ID a) = Some a \<and> ac_UserID a = u}" and "distinct (map ac_ID as)"
  using linked_listed [OF assms(1), of u] assms(2) by (simp_all add: mem_ListAccountsByUser_def)

interpretation account_tab: credential_table mem_ListAccountsByUser mem_DeleteAccount ac_ID acs_inv
proof unfold_locales
  fix s u as a x s'
  assume inv: "acs_inv s" and "as": "mem_ListAccountsByUser s u = Inr as" and a: "a \<in> set as"
    and run: "mem_DeleteAccount (ac_ID a) s = (x, s')"
  have row: "acs_byID s (ac_ID a) = Some a" "ac_UserID a = u" using acs_listed(1) [OF inv "as"] a by auto
  show "x = Inr () \<and> acs_inv s' \<and> mem_ListAccountsByUser s' u = Inr (filter (\<lambda>q. ac_ID q \<noteq> ac_ID a) as)"
    using run row "as" acs_inv_delete [OF inv run] read_present_drop [OF linkedD(4) [OF inv]]
    by (auto simp: mem_DeleteAccount_def mem_ListAccountsByUser_def drop_id_def)
qed (rule acs_listed(2))

section \<open>WebAuthnCredentialStore (memstore/webauthn.go)\<close>

text \<open>\<open>clone\<close> copies the slices of a row, so a row handed out is not shared with the one kept.\<close>

record webauthn_store =
  wcs_byID :: "string \<rightharpoonup> webauthn_credential"
  wcs_byCredentialID :: "string \<rightharpoonup> string"
  wcs_byUserID :: multimap

definition NewWebAuthnCredentialStore :: webauthn_store where
  "NewWebAuthnCredentialStore = \<lparr>wcs_byID = Map.empty, wcs_byCredentialID = Map.empty, wcs_byUserID = no_ids\<rparr>"

definition credKey :: "byte list \<Rightarrow> string" where "credKey credentialID = b64url_encode credentialID"

lemma credKey_eq_iff [simp]: "credKey a = credKey b \<longleftrightarrow> a = b"
  by (simp add: credKey_def)

definition mem_CreateWebAuthnCredential ::
  "webauthn_credential \<Rightarrow> webauthn_store \<Rightarrow> (error + unit) \<times> webauthn_store" where
  [mem_defs]: "mem_CreateWebAuthnCredential c s =
     (let key = credKey (wc_CredentialID c) in
      if wcs_byCredentialID s key \<noteq> None \<and> wcs_byCredentialID s key \<noteq> Some (wc_ID c) then (Inl ErrConflict, s)
      else (Inr (), s\<lparr>wcs_byID := (wcs_byID s)(wc_ID c \<mapsto> c),
                     wcs_byCredentialID := (wcs_byCredentialID s)(key \<mapsto> wc_ID c),
                     wcs_byUserID := append_id (wc_UserID c) (wc_ID c) (wcs_byUserID s)\<rparr>))"

definition mem_GetWebAuthnCredential :: "webauthn_store \<Rightarrow> string \<Rightarrow> error + webauthn_credential" where
  [mem_defs]: "mem_GetWebAuthnCredential s i = (case wcs_byID s i of None \<Rightarrow> Inl ErrNotFound | Some c \<Rightarrow> Inr c)"

definition mem_GetWebAuthnCredentialByCredentialID :: "webauthn_store \<Rightarrow> byte list \<Rightarrow> error + webauthn_credential" where
  [mem_defs]: "mem_GetWebAuthnCredentialByCredentialID s credentialID =
     row_via (wcs_byCredentialID s) (wcs_byID s) (credKey credentialID)"

definition mem_ListWebAuthnCredentialsByUser :: "webauthn_store \<Rightarrow> string \<Rightarrow> error + webauthn_credential list" where
  [mem_defs]: "mem_ListWebAuthnCredentialsByUser s userID = Inr (read_present (wcs_byID s) (wcs_byUserID s userID))"

definition mem_UpdateWebAuthnCredential ::
  "webauthn_credential \<Rightarrow> webauthn_store \<Rightarrow> (error + unit) \<times> webauthn_store" where
  [mem_defs]: "mem_UpdateWebAuthnCredential c s =
     (if wcs_byID s (wc_ID c) = None then (Inl ErrNotFound, s)
      else (Inr (), s\<lparr>wcs_byID := (wcs_byID s)(wc_ID c \<mapsto> c),
                     wcs_byCredentialID := (wcs_byCredentialID s)(credKey (wc_CredentialID c) \<mapsto> wc_ID c)\<rparr>))"

definition mem_DeleteWebAuthnCredential :: "string \<Rightarrow> webauthn_store \<Rightarrow> (error + unit) \<times> webauthn_store" where
  [mem_defs]: "mem_DeleteWebAuthnCredential i s =
     (case wcs_byID s i of
        None \<Rightarrow> (Inl ErrNotFound, s)
      | Some c \<Rightarrow> (Inr (), s\<lparr>wcs_byID := (wcs_byID s)(i := None),
                            wcs_byCredentialID := (wcs_byCredentialID s)(credKey (wc_CredentialID c) := None),
                            wcs_byUserID := drop_id (wc_UserID c) i (wcs_byUserID s)\<rparr>))"

abbreviation wcs_inv :: "webauthn_store \<Rightarrow> bool" where
  "wcs_inv s \<equiv> linked (\<lambda>c. credKey (wc_CredentialID c)) wc_UserID wc_ID (wcs_byID s) (wcs_byCredentialID s) (wcs_byUserID s)"

lemma wcs_inv_new: "wcs_inv NewWebAuthnCredentialStore"
  by (simp add: NewWebAuthnCredentialStore_def)

lemma wcs_inv_create:
  assumes inv: "wcs_inv s" and fresh: "wcs_byID s (wc_ID c) = None" and run: "mem_CreateWebAuthnCredential c s = (r, s')"
  shows "wcs_inv s'"
proof (cases "wcs_byCredentialID s (credKey (wc_CredentialID c))")
  case None
  then show ?thesis using run linked_insert [of "\<lambda>c. credKey (wc_CredentialID c)" wc_UserID wc_ID, OF inv fresh None]
    by (auto simp: mem_CreateWebAuthnCredential_def)
next
  case (Some i)
  then have "i \<noteq> wc_ID c" using hash_indexedD [OF linkedD(1) [OF inv] Some] fresh by auto
  then have "s' = s" using run Some by (simp add: mem_CreateWebAuthnCredential_def)
  then show ?thesis using inv by simp
qed

lemma wcs_inv_update:
  assumes inv: "wcs_inv s" and row: "wcs_byID s (wc_ID c) = Some c0"
    and same: "wc_CredentialID c = wc_CredentialID c0" "wc_UserID c = wc_UserID c0"
    and run: "mem_UpdateWebAuthnCredential c s = (r, s')"
  shows "wcs_inv s'"
proof -
  have "credKey (wc_CredentialID c) = credKey (wc_CredentialID c0)" using same(1) by simp
  from linked_update [OF inv row this same(2)] show ?thesis
    using run row by (auto simp: mem_UpdateWebAuthnCredential_def)
qed

lemma wcs_inv_delete:
  assumes inv: "wcs_inv s" and run: "mem_DeleteWebAuthnCredential i s = (r, s')" shows "wcs_inv s'"
proof (cases "wcs_byID s i")
  case None
  then show ?thesis using run inv by (auto simp: mem_DeleteWebAuthnCredential_def)
next
  case (Some c)
  then show ?thesis using run linked_delete [OF inv Some] by (auto simp: mem_DeleteWebAuthnCredential_def)
qed

lemma wcs_get_iff:
  assumes "wcs_inv s"
  shows "mem_GetWebAuthnCredentialByCredentialID s cid = Inr c \<longleftrightarrow> wcs_byID s (wc_ID c) = Some c \<and> wc_CredentialID c = cid"
  unfolding mem_GetWebAuthnCredentialByCredentialID_def linked_get_iff [OF assms] by simp

lemma wcs_get_error:
  assumes "wcs_inv s" and "mem_GetWebAuthnCredentialByCredentialID s cid = Inl e"
  shows "e = ErrNotFound" and "wcs_byCredentialID s (credKey cid) = None"
    and "wcs_byID s j = Some c \<Longrightarrow> wc_CredentialID c \<noteq> cid"
  using linked_get_error [OF assms(1) assms(2) [unfolded mem_GetWebAuthnCredentialByCredentialID_def]] by auto

lemma wcs_listed:
  assumes "wcs_inv s" and "mem_ListWebAuthnCredentialsByUser s u = Inr cs"
  shows "set cs = {c. wcs_byID s (wc_ID c) = Some c \<and> wc_UserID c = u}" and "distinct (map wc_ID cs)"
  using linked_listed [OF assms(1), of u] assms(2) by (simp_all add: mem_ListWebAuthnCredentialsByUser_def)

interpretation passkey_tab:
  credential_table mem_ListWebAuthnCredentialsByUser mem_DeleteWebAuthnCredential wc_ID wcs_inv
proof unfold_locales
  fix s u cs c x s'
  assume inv: "wcs_inv s" and cs: "mem_ListWebAuthnCredentialsByUser s u = Inr cs" and c: "c \<in> set cs"
    and run: "mem_DeleteWebAuthnCredential (wc_ID c) s = (x, s')"
  have row: "wcs_byID s (wc_ID c) = Some c" "wc_UserID c = u" using wcs_listed(1) [OF inv cs] c by auto
  show "x = Inr () \<and> wcs_inv s' \<and> mem_ListWebAuthnCredentialsByUser s' u = Inr (filter (\<lambda>q. wc_ID q \<noteq> wc_ID c) cs)"
    using run row cs wcs_inv_delete [OF inv run] read_present_drop [OF linkedD(4) [OF inv]]
    by (auto simp: mem_DeleteWebAuthnCredential_def mem_ListWebAuthnCredentialsByUser_def drop_id_def)
qed (rule wcs_listed(2))

section \<open>WebAuthnChallengeStore (memstore/webauthn.go)\<close>

record challenge_store =
  chs_byTokenHash :: "string \<rightharpoonup> webauthn_challenge"

definition NewWebAuthnChallengeStore :: challenge_store where
  "NewWebAuthnChallengeStore = \<lparr>chs_byTokenHash = Map.empty\<rparr>"

definition mem_CreateWebAuthnChallenge ::
  "webauthn_challenge \<Rightarrow> challenge_store \<Rightarrow> (error + unit) \<times> challenge_store" where
  [mem_defs]: "mem_CreateWebAuthnChallenge c s =
     (if chs_byTokenHash s (ch_TokenHash c) \<noteq> None then (Inl ErrConflict, s)
      else (Inr (), s\<lparr>chs_byTokenHash := (chs_byTokenHash s)(ch_TokenHash c \<mapsto> c)\<rparr>))"

definition mem_ConsumeWebAuthnChallenge ::
  "string \<Rightarrow> challenge_store \<Rightarrow> (error + webauthn_challenge) \<times> challenge_store" where
  [mem_defs]: "mem_ConsumeWebAuthnChallenge tokenHash s =
     (case chs_byTokenHash s tokenHash of
        None \<Rightarrow> (Inl ErrNotFound, s)
      | Some c \<Rightarrow> (Inr c, s\<lparr>chs_byTokenHash := (chs_byTokenHash s)(tokenHash := None)\<rparr>))"

text \<open>Redeeming a handle is a compare-and-set: of racing calls with one handle, one receives the row.\<close>

definition consume_challenge :: "string \<Rightarrow> time \<Rightarrow> challenge_store \<Rightarrow> bool \<times> challenge_store" where
  "consume_challenge h now s =
     (case mem_ConsumeWebAuthnChallenge h s of (Inl _, s') \<Rightarrow> (False, s') | (Inr _, s') \<Rightarrow> (True, s'))"

definition challenge_live :: "challenge_store \<Rightarrow> string \<Rightarrow> bool" where
  "challenge_live s h \<longleftrightarrow> chs_byTokenHash s h \<noteq> None"

interpretation challenge_spend: spend_once consume_challenge challenge_live
  by unfold_locales (auto simp: consume_challenge_def challenge_live_def mem_defs split: option.splits)

end
