(* ===== verification/World.thy ===== *)
theory World
  imports MemSession MemSuper MemTeam MemCreds MemLinks
begin

text \<open>
  What the services run in: the stores together, the clock, the source of randomness, the audit
  trail, the messages sent, the keys charged to the rate limiter, and a schedule of faults, so that
  every call of a store, of the random source or of an email sender may fail. A service method is
  a program: a function from the world to a result and the next world. One method sees one instant
  (\<open>time.Now()\<close> is read at most a few times per call in the code).
\<close>

section \<open>The state\<close>

record dbase =
  users :: user_store
  refresh :: refresh_store
  resets :: reset_store
  verifs :: verification_store
  totp :: totp_store
  pending :: pending_store
  lockouts :: lockout_store
  teams :: team_store
  members :: member_store
  invites :: invitation_store
  pats :: pat_store
  devauths :: devauth_store
  pins :: pin_store
  bound :: bound_store
  logins :: email_login_store
  supers :: super_store
  supertokens :: super_refresh_store
  superfactors :: super_two_factor_store
  accounts :: account_store
  passkeys :: webauthn_store
  challenges :: challenge_store

definition empty_db :: dbase where
  "empty_db = \<lparr>users = NewUserStore, refresh = NewRefreshTokenStore, resets = NewPasswordResetStore,
     verifs = NewEmailVerificationStore, totp = NewTOTPStore, pending = NewPendingTwoFactorStore,
     lockouts = NewLockoutStore, teams = NewTeamStore, members = NewMemberStore,
     invites = NewInvitationStore, pats = NewPersonalAccessTokenStore,
     devauths = NewDeviceAuthorizationStore, pins = NewPINStore, bound = NewBoundDeviceStore,
     logins = NewEmailLoginStore, supers = NewSuperuserStore,
     supertokens = NewSuperuserRefreshTokenStore, superfactors = NewSuperuserTwoFactorStore,
     accounts = NewAccountStore, passkeys = NewWebAuthnCredentialStore, challenges = NewWebAuthnChallengeStore\<rparr>"

text \<open>What the host's senders (\<open>user.EmailSender\<close>, \<open>emaillogin.Sender\<close>) are asked to deliver.\<close>

datatype message =
    SendPasswordReset string string | SendEmailVerification string string
  | SendMagicLink string string | SendSignInCode string string

record world =
  db :: dbase
  clock :: time
  faults :: "string option list"
  rsrc :: "nat \<Rightarrow> byte"
  rpos :: nat
  trail :: "event list"
  outbox :: "message list"
  limits :: "(time \<times> string) list"

definition world0 :: "time \<Rightarrow> world" where
  "world0 t = \<lparr>db = empty_db, clock = t, faults = [], rsrc = (\<lambda>n. of_nat n), rpos = 0, trail = [],
     outbox = [], limits = []\<rparr>"

type_synonym 'a prog = "world \<Rightarrow> (error + 'a) \<times> world"

section \<open>Go control flow\<close>

definition ret :: "'a \<Rightarrow> 'a prog" where "ret x w = (Inr x, w)"

definition raise :: "error \<Rightarrow> 'a prog" where "raise e w = (Inl e, w)"

text \<open>\<open>x, err := m; if err != nil { h } ; k\<close>\<close>

definition on :: "'a prog \<Rightarrow> (error \<Rightarrow> 'b prog) \<Rightarrow> ('a \<Rightarrow> 'b prog) \<Rightarrow> 'b prog" where
  "on m h k w = (case m w of (Inl e, w') \<Rightarrow> h e w' | (Inr x, w') \<Rightarrow> k x w')"

text \<open>\<open>if err != nil { return err }\<close>\<close>

definition seq :: "'a prog \<Rightarrow> ('a \<Rightarrow> 'b prog) \<Rightarrow> 'b prog" where
  "seq m k = on m raise k"

text \<open>\<open>_ = m\<close>: the error is dropped.\<close>

definition ignoring :: "'a prog \<Rightarrow> 'b prog \<Rightarrow> 'b prog" where
  "ignoring m k = on m (\<lambda>_. k) (\<lambda>_. k)"

definition with_now :: "(time \<Rightarrow> 'a prog) \<Rightarrow> 'a prog" where "with_now k w = k (clock w) w"

definition lift :: "error + 'a \<Rightarrow> 'a prog" where "lift r w = (r, w)"

text \<open>A hook or a validator: \<open>None\<close> accepts.\<close>

definition check :: "error option \<Rightarrow> unit prog" where
  "check e = (case e of None \<Rightarrow> ret () | Some e \<Rightarrow> raise e)"

section \<open>Ports\<close>

text \<open>Every call of a port consumes one entry of the fault schedule; an empty schedule is no fault.\<close>

definition port :: "'a prog \<Rightarrow> 'a prog" where
  "port f w =
     (case faults w of
        [] \<Rightarrow> f w
      | None # fs \<Rightarrow> f (w\<lparr>faults := fs\<rparr>)
      | Some e # fs \<Rightarrow> (Inl (Fault e), w\<lparr>faults := fs\<rparr>))"

definition rd :: "(dbase \<Rightarrow> error + 'a) \<Rightarrow> 'a prog" where
  "rd f = port (\<lambda>w. (f (db w), w))"

definition wr :: "(dbase \<Rightarrow> (error + 'a) \<times> dbase) \<Rightarrow> 'a prog" where
  "wr f = port (\<lambda>w. case f (db w) of (r, d) \<Rightarrow> (r, w\<lparr>db := d\<rparr>))"

text \<open>\<open>audit.Logger.Log\<close> returns nothing and cannot fail a flow.\<close>

definition log :: "event \<Rightarrow> unit prog" where
  "log e w = (Inr (), w\<lparr>trail := trail w @ [e]\<rparr>)"

definition send :: "message \<Rightarrow> unit prog" where
  "send m = port (\<lambda>w. (Inr (), w\<lparr>outbox := outbox w @ [m]\<rparr>))"

text \<open>\<open>rand.Read(buf)\<close> with \<open>len(buf) = n\<close>.\<close>

definition rand_read :: "nat \<Rightarrow> byte list prog" where
  "rand_read n = port (\<lambda>w. (Inr (map (\<lambda>k. rsrc w (rpos w + k)) [0..<n]), w\<lparr>rpos := rpos w + n\<rparr>))"

text \<open>
  \<open>store.RunInTx\<close>: without a runner \<open>f\<close> runs directly; with one, beginning and committing may
  fail, and any failure restores the stores as they were. The audit trail, the randomness used and
  the messages sent are not part of the transaction.
\<close>

definition RunInTx :: "bool \<Rightarrow> 'a prog \<Rightarrow> 'a prog" where
  "RunInTx tx f w =
     (if \<not> tx then f w
      else
        (case port (ret ()) w of
           (Inl e, w1) \<Rightarrow> (Inl e, w1)
         | (Inr _, w1) \<Rightarrow>
             (case f w1 of
                (Inl e, w2) \<Rightarrow> (Inl e, w2\<lparr>db := db w\<rparr>)
              | (Inr x, w2) \<Rightarrow>
                  (case port (ret ()) w2 of
                     (Inl e, w3) \<Rightarrow> (Inl e, w3\<lparr>db := db w\<rparr>)
                   | (Inr _, w3) \<Rightarrow> (Inr x, w3)))))"

section \<open>Reasoning about programs\<close>

lemma ret_eq [simp]: "ret x w = (r, w') \<longleftrightarrow> r = Inr x \<and> w' = w"
  by (auto simp: ret_def)

lemma raise_eq [simp]: "raise e w = (r, w') \<longleftrightarrow> r = Inl e \<and> w' = w"
  by (auto simp: raise_def)

lemma lift_eq [simp]: "lift x w = (r, w') \<longleftrightarrow> r = x \<and> w' = w"
  by (auto simp: lift_def)

lemma check_eq [simp]:
  "check e w = (r, w') \<longleftrightarrow> w' = w \<and> r = (case e of None \<Rightarrow> Inr () | Some e \<Rightarrow> Inl e)"
  by (auto simp: check_def split: option.splits)

lemma with_now_eq [simp]: "with_now k w = k (clock w) w"
  by (simp add: with_now_def)

lemma on_eq:
  "on m h k w = (r, w') \<longleftrightarrow>
     (\<exists>e w1. m w = (Inl e, w1) \<and> h e w1 = (r, w')) \<or> (\<exists>x w1. m w = (Inr x, w1) \<and> k x w1 = (r, w'))"
  by (auto simp: on_def split: prod.splits sum.splits)

lemma onE [elim!]:
  assumes "on m h k w = (r, w')"
  obtains e w1 where "m w = (Inl e, w1)" and "h e w1 = (r, w')"
  | x w1 where "m w = (Inr x, w1)" and "k x w1 = (r, w')"
  using assms by (auto simp: on_eq)

lemma seqE [elim!]:
  assumes "seq m k w = (r, w')"
  obtains e where "m w = (Inl e, w')" and "r = Inl e"
  | x w1 where "m w = (Inr x, w1)" and "k x w1 = (r, w')"
  using assms by (auto simp: seq_def)

lemma ignoringE [elim!]:
  assumes "ignoring m k w = (r, w')"
  obtains x w1 where "m w = (x, w1)" and "k w1 = (r, w')"
  using assms by (auto simp: ignoring_def)

lemma on_run:
  "m w = (Inr x, w1) \<Longrightarrow> on m h k w = k x w1" "m w = (Inl e, w1) \<Longrightarrow> on m h k w = h e w1"
  by (simp_all add: on_def)

lemma seq_run:
  "m w = (Inr x, w1) \<Longrightarrow> seq m k w = k x w1" "m w = (Inl e, w1) \<Longrightarrow> seq m k w = (Inl e, w1)"
  by (simp_all add: seq_def on_def raise_def)

lemma ignoring_run: "m w = (x, w1) \<Longrightarrow> ignoring m k w = k w1"
  by (cases x) (simp_all add: ignoring_def on_def)

text \<open>A read leaves everything but the schedule alone, and its answer is a fault or the store's.\<close>

lemma faults_id: "faults w = fs \<Longrightarrow> w\<lparr>faults := fs\<rparr> = w"
  by (cases w) auto

lemma rdE [elim!]:
  assumes "rd f w = (r, w')"
  obtains e fs where "r = Inl (Fault e)" and "w' = w\<lparr>faults := fs\<rparr>"
  | fs where "f (db w) = r" and "w' = w\<lparr>faults := fs\<rparr>"
proof (cases "faults w")
  case Nil
  then have "f (db w) = r" "w' = w\<lparr>faults := []\<rparr>"
    using assms by (auto simp: rd_def port_def faults_id)
  then show thesis by (rule that(2))
next
  case (Cons x fs)
  then show thesis using assms that by (cases x) (auto simp: rd_def port_def)
qed

lemma wrE [elim!]:
  assumes "wr f w = (r, w')"
  obtains e fs where "r = Inl (Fault e)" and "w' = w\<lparr>faults := fs\<rparr>"
  | d fs where "f (db w) = (r, d)" and "w' = w\<lparr>faults := fs, db := d\<rparr>"
proof (cases "faults w")
  case Nil
  then have "f (db w) = (r, db w')" "w' = w\<lparr>faults := [], db := db w'\<rparr>"
    using assms by (auto simp: wr_def port_def faults_id split: prod.splits)
  then show thesis by (rule that(2))
next
  case (Cons x fs)
  then show thesis using assms that by (cases x) (auto simp: wr_def port_def split: prod.splits)
qed

lemma logE [elim!]:
  assumes "log e w = (r, w')"
  obtains "r = Inr ()" and "w' = w\<lparr>trail := trail w @ [e]\<rparr>"
  using assms by (auto simp: log_def)

lemma portE:
  assumes "port f w = (r, w')"
  obtains e fs where "r = Inl (Fault e)" and "w' = w\<lparr>faults := fs\<rparr>"
  | fs where "f (w\<lparr>faults := fs\<rparr>) = (r, w')"
proof (cases "faults w")
  case Nil
  then have "f (w\<lparr>faults := []\<rparr>) = (r, w')" using assms by (simp add: port_def faults_id)
  then show thesis by (rule that(2))
next
  case (Cons x fs)
  then show thesis using assms that by (cases x) (auto simp: port_def)
qed

lemma sendE [elim!]:
  assumes "send m w = (r, w')"
  obtains e fs where "r = Inl (Fault e)" and "w' = w\<lparr>faults := fs\<rparr>"
  | fs where "r = Inr ()" and "w' = w\<lparr>faults := fs, outbox := outbox w @ [m]\<rparr>"
  using assms unfolding send_def by (auto elim!: portE)

lemma rand_readE [elim!]:
  assumes "rand_read n w = (r, w')"
  obtains e fs where "r = Inl (Fault e)" and "w' = w\<lparr>faults := fs\<rparr>"
  | fs where "r = Inr (map (\<lambda>k. rsrc w (rpos w + k)) [0..<n])"
      and "w' = w\<lparr>faults := fs, rpos := rpos w + n\<rparr>"
  using assms unfolding rand_read_def by (auto elim!: portE)

text \<open>With an empty schedule the ports are the stores' own methods.\<close>

lemma port_run [simp]: "faults w = [] \<Longrightarrow> port f w = f w"
  by (simp add: port_def)

lemma rd_run [simp]: "faults w = [] \<Longrightarrow> rd f w = (f (db w), w)"
  by (simp add: rd_def)

lemma wr_run [simp]: "faults w = [] \<Longrightarrow> wr f w = (case f (db w) of (r, d) \<Rightarrow> (r, w\<lparr>db := d\<rparr>))"
  by (simp add: wr_def)

lemma send_run [simp]: "faults w = [] \<Longrightarrow> send m w = (Inr (), w\<lparr>outbox := outbox w @ [m]\<rparr>)"
  by (simp add: send_def)

lemma log_run [simp]: "log e w = (Inr (), w\<lparr>trail := trail w @ [e]\<rparr>)"
  by (simp add: log_def)

lemma rand_read_run [simp]:
  "faults w = [] \<Longrightarrow> rand_read n w =
     (Inr (map (\<lambda>k. rsrc w (rpos w + k)) [0..<n]), w\<lparr>rpos := rpos w + n\<rparr>)"
  by (simp add: rand_read_def)

text \<open>What a transaction guarantees: success is the body's, and failure leaves the stores alone.\<close>

lemma RunInTx_ok:
  assumes "RunInTx tx f w = (Inr x, w')"
  obtains fs w1 fs' where "f (w\<lparr>faults := fs\<rparr>) = (Inr x, w1)" and "w' = w1\<lparr>faults := fs'\<rparr>"
proof (cases tx)
  case False
  then have "f (w\<lparr>faults := faults w\<rparr>) = (Inr x, w')" and "w' = w'\<lparr>faults := faults w'\<rparr>"
    using assms by (simp_all add: RunInTx_def)
  then show thesis by (rule that)
next
  case True
  then show thesis
    using assms that
    by (fastforce simp: RunInTx_def split: prod.splits sum.splits elim!: portE)
qed

lemma RunInTx_error:
  assumes "RunInTx True f w = (Inl e, w')" shows "db w' = db w"
  using assms by (fastforce simp: RunInTx_def split: prod.splits sum.splits elim!: portE)

lemma RunInTx_errorE:
  assumes "RunInTx tx f w = (Inl e, w')"
  obtains (body) fs w1 where "f (w\<lparr>faults := fs\<rparr>) = (Inl e, w1)" and "\<not> tx \<longrightarrow> w' = w1"
      and "tx \<longrightarrow> w' = w1\<lparr>db := db w\<rparr>"
  | (fault) m where "tx" and "e = Fault m" and "db w' = db w"
proof (cases tx)
  case False
  then have "f (w\<lparr>faults := faults w\<rparr>) = (Inl e, w')" using assms by (simp add: RunInTx_def)
  then show thesis by (rule body) (simp_all add: False)
next
  case True
  then show thesis
    using assms body fault
    by (fastforce simp: RunInTx_def split: prod.splits sum.splits elim!: portE)
qed

lemma RunInTx_run:
  "faults w = [] \<Longrightarrow> f w = (Inr x, w1) \<Longrightarrow> faults w1 = [] \<Longrightarrow> RunInTx tx f w = (Inr x, w1)"
  by (simp add: RunInTx_def ret_def)

section \<open>What a program does to the stores\<close>

text \<open>
  \<open>keeps R m\<close>: whatever the faults, the stores after \<open>m\<close> are related by \<open>R\<close> to those before. The
  rules are proved once for any reflexive and transitive \<open>R\<close>.
\<close>

definition keeps :: "(dbase \<Rightarrow> dbase \<Rightarrow> bool) \<Rightarrow> 'a prog \<Rightarrow> bool" where
  "keeps R m \<longleftrightarrow> (\<forall>w. R (db w) (db (snd (m w))))"

named_theorems keeps_rules \<open>how the program constructs keep a relation on the stores\<close>

locale db_order =
  fixes R :: "dbase \<Rightarrow> dbase \<Rightarrow> bool"
  assumes R_refl: "R d d" and R_trans: "R d d' \<Longrightarrow> R d' d'' \<Longrightarrow> R d d''"
begin

lemma keepsD: "keeps R m \<Longrightarrow> m w = (r, w') \<Longrightarrow> R (db w) (db w')"
  unfolding keeps_def by (metis snd_conv)

lemma keepsI: "(\<And>w r w'. m w = (r, w') \<Longrightarrow> R (db w) (db w')) \<Longrightarrow> keeps R m"
  unfolding keeps_def by (metis prod.collapse)

lemma keeps_ret [keeps_rules]: "keeps R (ret x)"
  by (rule keepsI) (simp add: R_refl)

lemma keeps_raise [keeps_rules]: "keeps R (raise e)"
  by (rule keepsI) (simp add: R_refl)

lemma keeps_lift [keeps_rules]: "keeps R (lift x)"
  by (rule keepsI) (simp add: R_refl)

lemma keeps_check [keeps_rules]: "keeps R (check e)"
  by (rule keepsI) (simp add: R_refl)

lemma keeps_log [keeps_rules]: "keeps R (log e)"
  by (rule keepsI) (auto simp: R_refl)

lemma keeps_send [keeps_rules]: "keeps R (send m)"
  by (rule keepsI) (auto simp: R_refl)

lemma keeps_rand_read [keeps_rules]: "keeps R (rand_read n)"
  by (rule keepsI) (auto simp: R_refl)

lemma keeps_rd [keeps_rules]: "keeps R (rd f)"
  by (rule keepsI) (auto simp: R_refl)

lemma keeps_wr: "(\<And>d. R d (snd (f d))) \<Longrightarrow> keeps R (wr f)"
  by (rule keepsI) (metis R_refl snd_conv wrE world.select_convs(1) world.update_convs(1,3) world.surjective)

lemma keeps_on [keeps_rules]:
  assumes "keeps R m" and "\<And>e. keeps R (h e)" and "\<And>x. keeps R (k x)"
  shows "keeps R (on m h k)"
  by (rule keepsI) (auto intro: R_trans dest: keepsD [OF assms(1)] keepsD [OF assms(2)] keepsD [OF assms(3)])

lemma keeps_seq [keeps_rules]: "keeps R m \<Longrightarrow> (\<And>x. keeps R (k x)) \<Longrightarrow> keeps R (seq m k)"
  unfolding seq_def by (intro keeps_on keeps_raise)

lemma keeps_ignoring [keeps_rules]: "keeps R m \<Longrightarrow> keeps R k \<Longrightarrow> keeps R (ignoring m k)"
  unfolding ignoring_def by (intro keeps_on)

lemma keeps_now [keeps_rules]: "(\<And>t. keeps R (k t)) \<Longrightarrow> keeps R (with_now k)"
  by (rule keepsI) (auto dest: keepsD)

lemma keeps_if [keeps_rules]: "(b \<Longrightarrow> keeps R m) \<Longrightarrow> (\<not> b \<Longrightarrow> keeps R n) \<Longrightarrow> keeps R (if b then m else n)"
  by simp

lemma keeps_case_option [keeps_rules]:
  "(x = None \<Longrightarrow> keeps R m) \<Longrightarrow> (\<And>y. x = Some y \<Longrightarrow> keeps R (k y)) \<Longrightarrow>
   keeps R (case x of None \<Rightarrow> m | Some y \<Rightarrow> k y)"
  by (cases x) auto

lemma keeps_case_bool [keeps_rules]:
  "(b \<Longrightarrow> keeps R m) \<Longrightarrow> (\<not> b \<Longrightarrow> keeps R n) \<Longrightarrow> keeps R (case b of True \<Rightarrow> m | False \<Rightarrow> n)"
  by (cases b) auto

lemma keeps_case_prod [keeps_rules]:
  "(\<And>a b. p = (a, b) \<Longrightarrow> keeps R (f a b)) \<Longrightarrow> keeps R (case p of (a, b) \<Rightarrow> f a b)"
  by (cases p) auto

lemma keeps_RunInTx [keeps_rules]: assumes "keeps R f" shows "keeps R (RunInTx tx f)"
proof (rule keepsI)
  fix w r w' assume run: "RunInTx tx f w = (r, w')"
  show "R (db w) (db w')"
  proof (cases r)
    case (Inl e)
    from run [unfolded Inl] show ?thesis
      by (cases rule: RunInTx_errorE) (cases tx; auto simp: R_refl dest: keepsD [OF assms])+
  next
    case (Inr x)
    from run [unfolded Inr] show ?thesis by (rule RunInTx_ok) (auto dest: keepsD [OF assms])
  qed
qed

end

text \<open>The first use: a component of the stores that a program leaves as it is.\<close>

abbreviation leaves :: "(dbase \<Rightarrow> 'c) \<Rightarrow> 'a prog \<Rightarrow> bool" where
  "leaves g \<equiv> keeps (\<lambda>d d'. g d' = g d)"

interpretation leaves: db_order "\<lambda>d d'. g d' = g d" for g :: "dbase \<Rightarrow> 'c"
  by unfold_locales auto

lemma leavesD: "leaves g m \<Longrightarrow> m w = (r, w') \<Longrightarrow> g (db w') = g (db w)"
  by (rule leaves.keepsD)

end
