(* ===== verification/Stores.thy ===== *)
theory Stores
  imports World
begin

text \<open>
  The ports of package \<open>store\<close> as programs: what a service's call of a store interface does, on the
  in-memory store that implements it. A method whose store reads \<open>nowFunc()\<close> gets the world's
  clock. \<open>on_users\<close> and its siblings run a store's method on its component of the stores.
\<close>

section \<open>store.UserStore\<close>

definition on_users :: "(user_store \<Rightarrow> (error + 'a) \<times> user_store) \<Rightarrow> 'a prog" where
  "on_users f = wr (\<lambda>d. (fst (f (users d)), d\<lparr>users := snd (f (users d))\<rparr>))"

definition CreateUser :: "user \<Rightarrow> unit prog" where
  [port_defs]: "CreateUser u = on_users (mem_CreateUser u)"

definition GetUserByID :: "string \<Rightarrow> user prog" where
  [port_defs]: "GetUserByID i = rd (\<lambda>d. mem_GetUserByID (users d) i)"

definition GetUserByEmail :: "string \<Rightarrow> user prog" where
  [port_defs]: "GetUserByEmail email = rd (\<lambda>d. mem_GetUserByEmail (users d) email)"

definition UpdateUser :: "user \<Rightarrow> unit prog" where
  [port_defs]: "UpdateUser u = on_users (mem_UpdateUser u)"

section \<open>store.RefreshTokenStore\<close>

definition on_refresh :: "(refresh_store \<Rightarrow> (error + 'a) \<times> refresh_store) \<Rightarrow> 'a prog" where
  "on_refresh f = wr (\<lambda>d. (fst (f (refresh d)), d\<lparr>refresh := snd (f (refresh d))\<rparr>))"

definition CreateRefreshToken :: "refresh_token \<Rightarrow> unit prog" where
  [port_defs]: "CreateRefreshToken t = on_refresh (mem_CreateRefreshToken t)"

definition GetRefreshTokenByHash :: "string \<Rightarrow> refresh_token prog" where
  [port_defs]: "GetRefreshTokenByHash h = rd (\<lambda>d. mem_GetRefreshTokenByHash (refresh d) h)"

definition RevokeRefreshToken :: "string \<Rightarrow> unit prog" where
  [port_defs]: "RevokeRefreshToken i = with_now (\<lambda>t. on_refresh (mem_RevokeRefreshToken t i))"

definition ConsumeRefreshToken :: "string \<Rightarrow> bool prog" where
  [port_defs]: "ConsumeRefreshToken i = with_now (\<lambda>t. on_refresh (mem_ConsumeRefreshToken t i))"

definition TouchRefreshToken :: "string \<Rightarrow> time \<Rightarrow> unit prog" where
  [port_defs]: "TouchRefreshToken i expiresAt = on_refresh (mem_TouchRefreshToken i expiresAt)"

definition RevokeAllUserRefreshTokens :: "string \<Rightarrow> unit prog" where
  [port_defs]: "RevokeAllUserRefreshTokens userID = with_now (\<lambda>t. on_refresh (mem_RevokeAllUserRefreshTokens t userID))"

definition ListActiveRefreshTokens :: "string \<Rightarrow> refresh_token list prog" where
  [port_defs]: "ListActiveRefreshTokens userID = with_now (\<lambda>t. rd (\<lambda>d. mem_ListActiveRefreshTokens t (refresh d) userID))"

section \<open>store.PasswordResetStore\<close>

definition on_resets :: "(reset_store \<Rightarrow> (error + 'a) \<times> reset_store) \<Rightarrow> 'a prog" where
  "on_resets f = wr (\<lambda>d. (fst (f (resets d)), d\<lparr>resets := snd (f (resets d))\<rparr>))"

definition CreatePasswordResetToken :: "password_reset_token \<Rightarrow> unit prog" where
  [port_defs]: "CreatePasswordResetToken t = on_resets (mem_CreatePasswordResetToken t)"

definition GetPasswordResetTokenByHash :: "string \<Rightarrow> password_reset_token prog" where
  [port_defs]: "GetPasswordResetTokenByHash h = rd (\<lambda>d. mem_GetPasswordResetTokenByHash (resets d) h)"

definition MarkPasswordResetTokenUsed :: "string \<Rightarrow> unit prog" where
  [port_defs]: "MarkPasswordResetTokenUsed i = with_now (\<lambda>t. on_resets (mem_MarkPasswordResetTokenUsed t i))"

definition DeleteUserPasswordResetTokens :: "string \<Rightarrow> unit prog" where
  [port_defs]: "DeleteUserPasswordResetTokens userID = on_resets (mem_DeleteUserPasswordResetTokens userID)"

section \<open>store.EmailVerificationStore\<close>

definition on_verifs :: "(verification_store \<Rightarrow> (error + 'a) \<times> verification_store) \<Rightarrow> 'a prog" where
  "on_verifs f = wr (\<lambda>d. (fst (f (verifs d)), d\<lparr>verifs := snd (f (verifs d))\<rparr>))"

definition CreateEmailVerificationToken :: "email_verification_token \<Rightarrow> unit prog" where
  [port_defs]: "CreateEmailVerificationToken t = on_verifs (mem_CreateEmailVerificationToken t)"

definition GetEmailVerificationTokenByHash :: "string \<Rightarrow> email_verification_token prog" where
  [port_defs]: "GetEmailVerificationTokenByHash h = rd (\<lambda>d. mem_GetEmailVerificationTokenByHash (verifs d) h)"

definition MarkEmailVerificationTokenUsed :: "string \<Rightarrow> unit prog" where
  [port_defs]: "MarkEmailVerificationTokenUsed i = with_now (\<lambda>t. on_verifs (mem_MarkEmailVerificationTokenUsed t i))"

definition DeleteUserEmailVerificationTokens :: "string \<Rightarrow> unit prog" where
  [port_defs]: "DeleteUserEmailVerificationTokens userID = on_verifs (mem_DeleteUserEmailVerificationTokens userID)"

section \<open>store.TOTPStore\<close>

definition on_totp :: "(totp_store \<Rightarrow> (error + 'a) \<times> totp_store) \<Rightarrow> 'a prog" where
  "on_totp f = wr (\<lambda>d. (fst (f (totp d)), d\<lparr>totp := snd (f (totp d))\<rparr>))"

definition CreateTOTPSettings :: "totp_settings \<Rightarrow> unit prog" where
  [port_defs]: "CreateTOTPSettings t = on_totp (mem_CreateTOTPSettings t)"

definition GetTOTPSettingsByUserID :: "string \<Rightarrow> totp_settings prog" where
  [port_defs]: "GetTOTPSettingsByUserID userID = rd (\<lambda>d. mem_GetTOTPSettingsByUserID (totp d) userID)"

definition UpdateTOTPSettings :: "totp_settings \<Rightarrow> unit prog" where
  [port_defs]: "UpdateTOTPSettings t = on_totp (mem_UpdateTOTPSettings t)"

definition DeleteTOTPSettings :: "string \<Rightarrow> unit prog" where
  [port_defs]: "DeleteTOTPSettings userID = on_totp (mem_DeleteTOTPSettings userID)"

section \<open>store.PendingTwoFactorStore\<close>

definition on_pending :: "(pending_store \<Rightarrow> (error + 'a) \<times> pending_store) \<Rightarrow> 'a prog" where
  "on_pending f = wr (\<lambda>d. (fst (f (pending d)), d\<lparr>pending := snd (f (pending d))\<rparr>))"

definition CreatePendingTwoFactorSession :: "pending_session \<Rightarrow> unit prog" where
  [port_defs]: "CreatePendingTwoFactorSession x = on_pending (mem_CreatePendingTwoFactorSession x)"

definition GetPendingTwoFactorSessionByHash :: "string \<Rightarrow> pending_session prog" where
  [port_defs]: "GetPendingTwoFactorSessionByHash h = rd (\<lambda>d. mem_GetPendingTwoFactorSessionByHash (pending d) h)"

definition DeletePendingTwoFactorSession :: "string \<Rightarrow> unit prog" where
  [port_defs]: "DeletePendingTwoFactorSession i = on_pending (mem_DeletePendingTwoFactorSession i)"

section \<open>store.LockoutStore\<close>

definition on_lockouts :: "(lockout_store \<Rightarrow> (error + 'a) \<times> lockout_store) \<Rightarrow> 'a prog" where
  "on_lockouts f = wr (\<lambda>d. (fst (f (lockouts d)), d\<lparr>lockouts := snd (f (lockouts d))\<rparr>))"

definition RecordFailedLoginAttempt :: "failed_attempt \<Rightarrow> unit prog" where
  [port_defs]: "RecordFailedLoginAttempt a = on_lockouts (mem_RecordFailedLoginAttempt a)"

definition CountRecentFailedLoginAttempts :: "string \<Rightarrow> time \<Rightarrow> nat prog" where
  [port_defs]: "CountRecentFailedLoginAttempts email since = rd (\<lambda>d. mem_CountRecentFailedLoginAttempts (lockouts d) email since)"

definition ClearFailedLoginAttempts :: "string \<Rightarrow> unit prog" where
  [port_defs]: "ClearFailedLoginAttempts email = on_lockouts (mem_ClearFailedLoginAttempts email)"

definition LockAccount :: "string \<Rightarrow> unit prog" where
  [port_defs]: "LockAccount userID = on_lockouts (mem_LockAccount userID)"

definition IsAccountLocked :: "string \<Rightarrow> bool prog" where
  [port_defs]: "IsAccountLocked userID = rd (\<lambda>d. mem_IsAccountLocked (lockouts d) userID)"

definition UnlockAccount :: "string \<Rightarrow> unit prog" where
  [port_defs]: "UnlockAccount userID = on_lockouts (mem_UnlockAccount userID)"

section \<open>store.TeamStore\<close>

definition on_teams :: "(team_store \<Rightarrow> (error + 'a) \<times> team_store) \<Rightarrow> 'a prog" where
  "on_teams f = wr (\<lambda>d. (fst (f (teams d)), d\<lparr>teams := snd (f (teams d))\<rparr>))"

definition CreateTeam :: "team \<Rightarrow> unit prog" where
  [port_defs]: "CreateTeam t = on_teams (mem_CreateTeam t)"

definition GetTeam :: "string \<Rightarrow> team prog" where
  [port_defs]: "GetTeam i = rd (\<lambda>d. mem_GetTeam (teams d) i)"

definition GetTeamBySlug :: "string \<Rightarrow> team prog" where
  [port_defs]: "GetTeamBySlug slug = rd (\<lambda>d. mem_GetTeamBySlug (teams d) slug)"

definition UpdateTeam :: "team \<Rightarrow> unit prog" where
  [port_defs]: "UpdateTeam t = on_teams (mem_UpdateTeam t)"

definition DeleteTeam :: "string \<Rightarrow> unit prog" where
  [port_defs]: "DeleteTeam i = on_teams (mem_DeleteTeam i)"

section \<open>store.MemberStore\<close>

definition on_members :: "(member_store \<Rightarrow> (error + 'a) \<times> member_store) \<Rightarrow> 'a prog" where
  "on_members f = wr (\<lambda>d. (fst (f (members d)), d\<lparr>members := snd (f (members d))\<rparr>))"

definition CreateMember :: "member \<Rightarrow> unit prog" where
  [port_defs]: "CreateMember m = on_members (mem_CreateMember m)"

definition GetMember :: "string \<Rightarrow> member prog" where
  [port_defs]: "GetMember i = rd (\<lambda>d. mem_GetMember (members d) i)"

definition GetMemberByUserAndTeam :: "string \<Rightarrow> string \<Rightarrow> member prog" where
  [port_defs]: "GetMemberByUserAndTeam userID teamID = rd (\<lambda>d. mem_GetMemberByUserAndTeam (members d) userID teamID)"

definition ListMembersByTeam :: "string \<Rightarrow> member list prog" where
  [port_defs]: "ListMembersByTeam teamID = rd (\<lambda>d. mem_ListMembersByTeam (members d) teamID)"

definition ListMembershipsByUser :: "string \<Rightarrow> member list prog" where
  [port_defs]: "ListMembershipsByUser userID = rd (\<lambda>d. mem_ListMembershipsByUser (members d) userID)"

definition UpdateMember :: "member \<Rightarrow> unit prog" where
  [port_defs]: "UpdateMember m = on_members (mem_UpdateMember m)"

definition DeleteMember :: "string \<Rightarrow> unit prog" where
  [port_defs]: "DeleteMember i = on_members (mem_DeleteMember i)"

section \<open>store.InvitationStore\<close>

definition on_invites :: "(invitation_store \<Rightarrow> (error + 'a) \<times> invitation_store) \<Rightarrow> 'a prog" where
  "on_invites f = wr (\<lambda>d. (fst (f (invites d)), d\<lparr>invites := snd (f (invites d))\<rparr>))"

definition CreateInvitation :: "invitation \<Rightarrow> unit prog" where
  [port_defs]: "CreateInvitation x = on_invites (mem_CreateInvitation x)"

definition GetInvitation :: "string \<Rightarrow> invitation prog" where
  [port_defs]: "GetInvitation i = rd (\<lambda>d. mem_GetInvitation (invites d) i)"

definition GetInvitationByTokenHash :: "string \<Rightarrow> invitation prog" where
  [port_defs]: "GetInvitationByTokenHash h = rd (\<lambda>d. mem_GetInvitationByTokenHash (invites d) h)"

definition ListInvitationsByTeam :: "string \<Rightarrow> invitation list prog" where
  [port_defs]: "ListInvitationsByTeam teamID = rd (\<lambda>d. mem_ListInvitationsByTeam (invites d) teamID)"

definition UpdateInvitation :: "invitation \<Rightarrow> unit prog" where
  [port_defs]: "UpdateInvitation x = on_invites (mem_UpdateInvitation x)"

section \<open>store.PersonalAccessTokenStore\<close>

definition on_pats :: "(pat_store \<Rightarrow> (error + 'a) \<times> pat_store) \<Rightarrow> 'a prog" where
  "on_pats f = wr (\<lambda>d. (fst (f (pats d)), d\<lparr>pats := snd (f (pats d))\<rparr>))"

definition CreatePersonalAccessToken :: "pat_token \<Rightarrow> unit prog" where
  [port_defs]: "CreatePersonalAccessToken t = on_pats (mem_CreatePersonalAccessToken t)"

definition GetPersonalAccessToken :: "string \<Rightarrow> pat_token prog" where
  [port_defs]: "GetPersonalAccessToken i = rd (\<lambda>d. mem_GetPersonalAccessToken (pats d) i)"

definition GetPersonalAccessTokenByHash :: "string \<Rightarrow> pat_token prog" where
  [port_defs]: "GetPersonalAccessTokenByHash h = rd (\<lambda>d. mem_GetPersonalAccessTokenByHash (pats d) h)"

definition ListPersonalAccessTokensByUser :: "string \<Rightarrow> pat_token list prog" where
  [port_defs]: "ListPersonalAccessTokensByUser userID = rd (\<lambda>d. mem_ListPersonalAccessTokensByUser (pats d) userID)"

definition UpdatePersonalAccessToken :: "pat_token \<Rightarrow> unit prog" where
  [port_defs]: "UpdatePersonalAccessToken t = on_pats (mem_UpdatePersonalAccessToken t)"

section \<open>store.DeviceAuthorizationStore\<close>

definition on_devauths :: "(devauth_store \<Rightarrow> (error + 'a) \<times> devauth_store) \<Rightarrow> 'a prog" where
  "on_devauths f = wr (\<lambda>d. (fst (f (devauths d)), d\<lparr>devauths := snd (f (devauths d))\<rparr>))"

definition CreateDeviceAuthorization :: "device_authorization \<Rightarrow> unit prog" where
  [port_defs]: "CreateDeviceAuthorization d = on_devauths (mem_CreateDeviceAuthorization d)"

definition GetDeviceAuthorizationByDeviceCodeHash :: "string \<Rightarrow> device_authorization prog" where
  [port_defs]: "GetDeviceAuthorizationByDeviceCodeHash h = rd (\<lambda>d. mem_GetDeviceAuthorizationByDeviceCodeHash (devauths d) h)"

definition GetDeviceAuthorizationByUserCode :: "string \<Rightarrow> device_authorization prog" where
  [port_defs]: "GetDeviceAuthorizationByUserCode c = rd (\<lambda>d. mem_GetDeviceAuthorizationByUserCode (devauths d) c)"

definition UpdateDeviceAuthorization :: "device_authorization \<Rightarrow> unit prog" where
  [port_defs]: "UpdateDeviceAuthorization d = on_devauths (mem_UpdateDeviceAuthorization d)"

definition DeleteDeviceAuthorization :: "string \<Rightarrow> unit prog" where
  [port_defs]: "DeleteDeviceAuthorization i = on_devauths (mem_DeleteDeviceAuthorization i)"

section \<open>store.PINStore\<close>

definition on_pins :: "(pin_store \<Rightarrow> (error + 'a) \<times> pin_store) \<Rightarrow> 'a prog" where
  "on_pins f = wr (\<lambda>d. (fst (f (pins d)), d\<lparr>pins := snd (f (pins d))\<rparr>))"

definition SetPINCredential :: "pin_credential \<Rightarrow> unit prog" where
  [port_defs]: "SetPINCredential c = on_pins (mem_SetPINCredential c)"

definition GetPINCredential :: "string \<Rightarrow> pin_credential prog" where
  [port_defs]: "GetPINCredential userID = rd (\<lambda>d. mem_GetPINCredential (pins d) userID)"

definition DeletePINCredential :: "string \<Rightarrow> unit prog" where
  [port_defs]: "DeletePINCredential userID = on_pins (mem_DeletePINCredential userID)"

section \<open>store.BoundDeviceStore\<close>

definition on_bound :: "(bound_store \<Rightarrow> (error + 'a) \<times> bound_store) \<Rightarrow> 'a prog" where
  "on_bound f = wr (\<lambda>d. (fst (f (bound d)), d\<lparr>bound := snd (f (bound d))\<rparr>))"

definition CreateBoundDevice :: "bound_device \<Rightarrow> unit prog" where
  [port_defs]: "CreateBoundDevice d = on_bound (mem_CreateBoundDevice d)"

definition GetBoundDevice :: "string \<Rightarrow> bound_device prog" where
  [port_defs]: "GetBoundDevice i = rd (\<lambda>d. mem_GetBoundDevice (bound d) i)"

definition GetBoundDeviceByTokenHash :: "string \<Rightarrow> bound_device prog" where
  [port_defs]: "GetBoundDeviceByTokenHash h = rd (\<lambda>d. mem_GetBoundDeviceByTokenHash (bound d) h)"

definition ListBoundDevicesByUser :: "string \<Rightarrow> bound_device list prog" where
  [port_defs]: "ListBoundDevicesByUser userID = rd (\<lambda>d. mem_ListBoundDevicesByUser (bound d) userID)"

definition TouchBoundDevice :: "string \<Rightarrow> time \<Rightarrow> unit prog" where
  [port_defs]: "TouchBoundDevice i t = on_bound (mem_TouchBoundDevice i t)"

definition RevokeBoundDevice :: "string \<Rightarrow> time \<Rightarrow> unit prog" where
  [port_defs]: "RevokeBoundDevice i t = on_bound (mem_RevokeBoundDevice i t)"

definition RevokeAllBoundDevices :: "string \<Rightarrow> time \<Rightarrow> nat prog" where
  [port_defs]: "RevokeAllBoundDevices userID t = on_bound (mem_RevokeAllBoundDevices userID t)"

section \<open>store.EmailLoginStore\<close>

definition on_logins :: "(email_login_store \<Rightarrow> (error + 'a) \<times> email_login_store) \<Rightarrow> 'a prog" where
  "on_logins f = wr (\<lambda>d. (fst (f (logins d)), d\<lparr>logins := snd (f (logins d))\<rparr>))"

definition CreateEmailLoginToken :: "email_login_token \<Rightarrow> unit prog" where
  [port_defs]: "CreateEmailLoginToken t = on_logins (mem_CreateEmailLoginToken t)"

definition GetEmailLoginTokenByHash :: "string \<Rightarrow> email_login_token prog" where
  [port_defs]: "GetEmailLoginTokenByHash h = rd (\<lambda>d. mem_GetEmailLoginTokenByHash (logins d) h)"

definition GetEmailLoginTokenByEmail :: "string \<Rightarrow> email_login_kind \<Rightarrow> email_login_token prog" where
  [port_defs]: "GetEmailLoginTokenByEmail email kind = rd (\<lambda>d. mem_GetEmailLoginTokenByEmail (logins d) email kind)"

definition MarkEmailLoginTokenUsed :: "string \<Rightarrow> time \<Rightarrow> unit prog" where
  [port_defs]: "MarkEmailLoginTokenUsed i usedAt = on_logins (mem_MarkEmailLoginTokenUsed i usedAt)"

definition IncrementEmailLoginTokenAttempts :: "string \<Rightarrow> int prog" where
  [port_defs]: "IncrementEmailLoginTokenAttempts i = on_logins (mem_IncrementEmailLoginTokenAttempts i)"

definition DeleteEmailLoginTokens :: "string \<Rightarrow> email_login_kind \<Rightarrow> unit prog" where
  [port_defs]: "DeleteEmailLoginTokens email kind = on_logins (mem_DeleteEmailLoginTokens email kind)"

section \<open>store.SuperuserStore\<close>

definition on_supers :: "(super_store \<Rightarrow> (error + 'a) \<times> super_store) \<Rightarrow> 'a prog" where
  "on_supers f = wr (\<lambda>d. (fst (f (supers d)), d\<lparr>supers := snd (f (supers d))\<rparr>))"

definition StoreSuperuser :: "superuser \<Rightarrow> unit prog" where
  [port_defs]: "StoreSuperuser su = on_supers (mem_CreateSuperuser su)"

definition GetSuperuserByID :: "string \<Rightarrow> superuser prog" where
  [port_defs]: "GetSuperuserByID i = rd (\<lambda>d. mem_GetSuperuserByID (supers d) i)"

definition GetSuperuserByEmail :: "string \<Rightarrow> superuser prog" where
  [port_defs]: "GetSuperuserByEmail email = rd (\<lambda>d. mem_GetSuperuserByEmail (supers d) email)"

definition StoredSuperusers :: "superuser list prog" where
  [port_defs]: "StoredSuperusers = rd (\<lambda>d. mem_ListSuperusers (supers d))"

definition UpdateSuperuser :: "superuser \<Rightarrow> unit prog" where
  [port_defs]: "UpdateSuperuser su = on_supers (mem_UpdateSuperuser su)"

definition CountSuperusers :: "nat prog" where
  [port_defs]: "CountSuperusers = rd (\<lambda>d. mem_CountSuperusers (supers d))"

section \<open>store.SuperuserRefreshTokenStore\<close>

definition on_supertokens :: "(super_refresh_store \<Rightarrow> (error + 'a) \<times> super_refresh_store) \<Rightarrow> 'a prog" where
  "on_supertokens f = wr (\<lambda>d. (fst (f (supertokens d)), d\<lparr>supertokens := snd (f (supertokens d))\<rparr>))"

definition CreateSuperuserRefreshToken :: "superuser_token \<Rightarrow> unit prog" where
  [port_defs]: "CreateSuperuserRefreshToken t = on_supertokens (mem_CreateSuperuserRefreshToken t)"

definition GetSuperuserRefreshTokenByHash :: "string \<Rightarrow> superuser_token prog" where
  [port_defs]: "GetSuperuserRefreshTokenByHash h = rd (\<lambda>d. mem_GetSuperuserRefreshTokenByHash (supertokens d) h)"

definition RevokeSuperuserRefreshToken :: "string \<Rightarrow> unit prog" where
  [port_defs]: "RevokeSuperuserRefreshToken i = with_now (\<lambda>t. on_supertokens (mem_RevokeSuperuserRefreshToken t i))"

definition ConsumeSuperuserRefreshToken :: "string \<Rightarrow> bool prog" where
  [port_defs]: "ConsumeSuperuserRefreshToken i = with_now (\<lambda>t. on_supertokens (mem_ConsumeSuperuserRefreshToken t i))"

definition RevokeAllSuperuserRefreshTokens :: "string \<Rightarrow> unit prog" where
  [port_defs]: "RevokeAllSuperuserRefreshTokens superuserID =
     with_now (\<lambda>t. on_supertokens (mem_RevokeAllSuperuserRefreshTokens t superuserID))"

definition ListActiveSuperuserRefreshTokens :: "string \<Rightarrow> superuser_token list prog" where
  [port_defs]: "ListActiveSuperuserRefreshTokens superuserID =
     with_now (\<lambda>t. rd (\<lambda>d. mem_ListActiveSuperuserRefreshTokens t (supertokens d) superuserID))"

section \<open>store.SuperuserTwoFactorStore\<close>

definition on_superfactors :: "(super_two_factor_store \<Rightarrow> (error + 'a) \<times> super_two_factor_store) \<Rightarrow> 'a prog" where
  "on_superfactors f = wr (\<lambda>d. (fst (f (superfactors d)), d\<lparr>superfactors := snd (f (superfactors d))\<rparr>))"

definition CreateSuperuserTOTPSettings :: "totp_settings \<Rightarrow> unit prog" where
  [port_defs]: "CreateSuperuserTOTPSettings t = on_superfactors (mem_CreateSuperuserTOTPSettings t)"

definition GetSuperuserTOTPSettings :: "string \<Rightarrow> totp_settings prog" where
  [port_defs]: "GetSuperuserTOTPSettings superuserID = rd (\<lambda>d. mem_GetSuperuserTOTPSettings (superfactors d) superuserID)"

definition UpdateSuperuserTOTPSettings :: "totp_settings \<Rightarrow> unit prog" where
  [port_defs]: "UpdateSuperuserTOTPSettings t = on_superfactors (mem_UpdateSuperuserTOTPSettings t)"

definition DeleteSuperuserTOTPSettings :: "string \<Rightarrow> unit prog" where
  [port_defs]: "DeleteSuperuserTOTPSettings superuserID = on_superfactors (mem_DeleteSuperuserTOTPSettings superuserID)"

definition CreateSuperuserPendingTwoFactorSession :: "pending_session \<Rightarrow> unit prog" where
  [port_defs]: "CreateSuperuserPendingTwoFactorSession p =
     on_superfactors (mem_CreateSuperuserPendingTwoFactorSession p)"

definition GetSuperuserPendingTwoFactorSessionByHash :: "string \<Rightarrow> pending_session prog" where
  [port_defs]: "GetSuperuserPendingTwoFactorSessionByHash h =
     rd (\<lambda>d. mem_GetSuperuserPendingTwoFactorSessionByHash (superfactors d) h)"

definition DeleteSuperuserPendingTwoFactorSession :: "string \<Rightarrow> unit prog" where
  [port_defs]: "DeleteSuperuserPendingTwoFactorSession i =
     on_superfactors (mem_DeleteSuperuserPendingTwoFactorSession i)"

section \<open>store.AccountStore\<close>

definition on_accounts :: "(account_store \<Rightarrow> (error + 'a) \<times> account_store) \<Rightarrow> 'a prog" where
  "on_accounts f = wr (\<lambda>d. (fst (f (accounts d)), d\<lparr>accounts := snd (f (accounts d))\<rparr>))"

definition CreateAccount :: "account \<Rightarrow> unit prog" where
  [port_defs]: "CreateAccount a = on_accounts (mem_CreateAccount a)"

definition GetAccount :: "string \<Rightarrow> account prog" where
  [port_defs]: "GetAccount i = rd (\<lambda>d. mem_GetAccount (accounts d) i)"

definition GetAccountByProvider :: "string \<Rightarrow> string \<Rightarrow> account prog" where
  [port_defs]: "GetAccountByProvider provider accountID = rd (\<lambda>d. mem_GetAccountByProvider (accounts d) provider accountID)"

definition ListAccountsByUser :: "string \<Rightarrow> account list prog" where
  [port_defs]: "ListAccountsByUser userID = rd (\<lambda>d. mem_ListAccountsByUser (accounts d) userID)"

definition UpdateAccount :: "account \<Rightarrow> unit prog" where
  [port_defs]: "UpdateAccount a = on_accounts (mem_UpdateAccount a)"

definition DeleteAccount :: "string \<Rightarrow> unit prog" where
  [port_defs]: "DeleteAccount i = on_accounts (mem_DeleteAccount i)"

section \<open>store.WebAuthnCredentialStore\<close>

definition on_passkeys :: "(webauthn_store \<Rightarrow> (error + 'a) \<times> webauthn_store) \<Rightarrow> 'a prog" where
  "on_passkeys f = wr (\<lambda>d. (fst (f (passkeys d)), d\<lparr>passkeys := snd (f (passkeys d))\<rparr>))"

definition CreateWebAuthnCredential :: "webauthn_credential \<Rightarrow> unit prog" where
  [port_defs]: "CreateWebAuthnCredential c = on_passkeys (mem_CreateWebAuthnCredential c)"

definition GetWebAuthnCredential :: "string \<Rightarrow> webauthn_credential prog" where
  [port_defs]: "GetWebAuthnCredential i = rd (\<lambda>d. mem_GetWebAuthnCredential (passkeys d) i)"

definition GetWebAuthnCredentialByCredentialID :: "byte list \<Rightarrow> webauthn_credential prog" where
  [port_defs]: "GetWebAuthnCredentialByCredentialID credentialID = rd (\<lambda>d. mem_GetWebAuthnCredentialByCredentialID (passkeys d) credentialID)"

definition ListWebAuthnCredentialsByUser :: "string \<Rightarrow> webauthn_credential list prog" where
  [port_defs]: "ListWebAuthnCredentialsByUser userID = rd (\<lambda>d. mem_ListWebAuthnCredentialsByUser (passkeys d) userID)"

definition UpdateWebAuthnCredential :: "webauthn_credential \<Rightarrow> unit prog" where
  [port_defs]: "UpdateWebAuthnCredential c = on_passkeys (mem_UpdateWebAuthnCredential c)"

definition DeleteWebAuthnCredential :: "string \<Rightarrow> unit prog" where
  [port_defs]: "DeleteWebAuthnCredential i = on_passkeys (mem_DeleteWebAuthnCredential i)"

section \<open>store.WebAuthnChallengeStore\<close>

definition on_challenges :: "(challenge_store \<Rightarrow> (error + 'a) \<times> challenge_store) \<Rightarrow> 'a prog" where
  "on_challenges f = wr (\<lambda>d. (fst (f (challenges d)), d\<lparr>challenges := snd (f (challenges d))\<rparr>))"

definition CreateWebAuthnChallenge :: "webauthn_challenge \<Rightarrow> unit prog" where
  [port_defs]: "CreateWebAuthnChallenge c = on_challenges (mem_CreateWebAuthnChallenge c)"

definition ConsumeWebAuthnChallenge :: "string \<Rightarrow> webauthn_challenge prog" where
  [port_defs]: "ConsumeWebAuthnChallenge tokenHash = on_challenges (mem_ConsumeWebAuthnChallenge tokenHash)"

section \<open>What a port does\<close>

text \<open>
  A write of one store fails with a fault, or is the store's method on its component. A program
  that writes a component keeps every relation on the stores which the update keeps, and leaves
  every other component alone.
\<close>

named_theorems leaves_rules \<open>components a write of another component leaves\<close>

lemma on_usersE [elim!]:
  assumes "on_users f w = (r, w')"
  obtains e fs where "r = Inl (Fault e)" and "w' = w\<lparr>faults := fs\<rparr>"
  | s fs where "f (users (db w)) = (r, s)" and "w' = w\<lparr>faults := fs, db := (db w)\<lparr>users := s\<rparr>\<rparr>"
  using assms that by (cases "f (users (db w))") (auto simp: on_users_def)

lemma on_users_run [simp]:
  "faults w = [] \<Longrightarrow> f (users (db w)) = (r, s) \<Longrightarrow>
   on_users f w = (r, w\<lparr>db := (db w)\<lparr>users := s\<rparr>\<rparr>)"
  by (simp add: on_users_def)

lemma keeps_on_users:
  "db_order R \<Longrightarrow> (\<And>d s. R d (d\<lparr>users := s\<rparr>)) \<Longrightarrow> keeps R (on_users f)"
  unfolding on_users_def by (rule db_order.keeps_wr) simp_all

lemma leaves_on_users [leaves_rules]:
  "(\<And>d s. g (d\<lparr>users := s\<rparr>) = g d) \<Longrightarrow> leaves g (on_users f)"
  by (rule keeps_on_users) (unfold_locales, auto)

lemma on_refreshE [elim!]:
  assumes "on_refresh f w = (r, w')"
  obtains e fs where "r = Inl (Fault e)" and "w' = w\<lparr>faults := fs\<rparr>"
  | s fs where "f (refresh (db w)) = (r, s)" and "w' = w\<lparr>faults := fs, db := (db w)\<lparr>refresh := s\<rparr>\<rparr>"
  using assms that by (cases "f (refresh (db w))") (auto simp: on_refresh_def)

lemma on_refresh_run [simp]:
  "faults w = [] \<Longrightarrow> f (refresh (db w)) = (r, s) \<Longrightarrow>
   on_refresh f w = (r, w\<lparr>db := (db w)\<lparr>refresh := s\<rparr>\<rparr>)"
  by (simp add: on_refresh_def)

lemma keeps_on_refresh:
  "db_order R \<Longrightarrow> (\<And>d s. R d (d\<lparr>refresh := s\<rparr>)) \<Longrightarrow> keeps R (on_refresh f)"
  unfolding on_refresh_def by (rule db_order.keeps_wr) simp_all

lemma leaves_on_refresh [leaves_rules]:
  "(\<And>d s. g (d\<lparr>refresh := s\<rparr>) = g d) \<Longrightarrow> leaves g (on_refresh f)"
  by (rule keeps_on_refresh) (unfold_locales, auto)

lemma on_resetsE [elim!]:
  assumes "on_resets f w = (r, w')"
  obtains e fs where "r = Inl (Fault e)" and "w' = w\<lparr>faults := fs\<rparr>"
  | s fs where "f (resets (db w)) = (r, s)" and "w' = w\<lparr>faults := fs, db := (db w)\<lparr>resets := s\<rparr>\<rparr>"
  using assms that by (cases "f (resets (db w))") (auto simp: on_resets_def)

lemma on_resets_run [simp]:
  "faults w = [] \<Longrightarrow> f (resets (db w)) = (r, s) \<Longrightarrow>
   on_resets f w = (r, w\<lparr>db := (db w)\<lparr>resets := s\<rparr>\<rparr>)"
  by (simp add: on_resets_def)

lemma keeps_on_resets:
  "db_order R \<Longrightarrow> (\<And>d s. R d (d\<lparr>resets := s\<rparr>)) \<Longrightarrow> keeps R (on_resets f)"
  unfolding on_resets_def by (rule db_order.keeps_wr) simp_all

lemma leaves_on_resets [leaves_rules]:
  "(\<And>d s. g (d\<lparr>resets := s\<rparr>) = g d) \<Longrightarrow> leaves g (on_resets f)"
  by (rule keeps_on_resets) (unfold_locales, auto)

lemma on_verifsE [elim!]:
  assumes "on_verifs f w = (r, w')"
  obtains e fs where "r = Inl (Fault e)" and "w' = w\<lparr>faults := fs\<rparr>"
  | s fs where "f (verifs (db w)) = (r, s)" and "w' = w\<lparr>faults := fs, db := (db w)\<lparr>verifs := s\<rparr>\<rparr>"
  using assms that by (cases "f (verifs (db w))") (auto simp: on_verifs_def)

lemma on_verifs_run [simp]:
  "faults w = [] \<Longrightarrow> f (verifs (db w)) = (r, s) \<Longrightarrow>
   on_verifs f w = (r, w\<lparr>db := (db w)\<lparr>verifs := s\<rparr>\<rparr>)"
  by (simp add: on_verifs_def)

lemma keeps_on_verifs:
  "db_order R \<Longrightarrow> (\<And>d s. R d (d\<lparr>verifs := s\<rparr>)) \<Longrightarrow> keeps R (on_verifs f)"
  unfolding on_verifs_def by (rule db_order.keeps_wr) simp_all

lemma leaves_on_verifs [leaves_rules]:
  "(\<And>d s. g (d\<lparr>verifs := s\<rparr>) = g d) \<Longrightarrow> leaves g (on_verifs f)"
  by (rule keeps_on_verifs) (unfold_locales, auto)

lemma on_totpE [elim!]:
  assumes "on_totp f w = (r, w')"
  obtains e fs where "r = Inl (Fault e)" and "w' = w\<lparr>faults := fs\<rparr>"
  | s fs where "f (totp (db w)) = (r, s)" and "w' = w\<lparr>faults := fs, db := (db w)\<lparr>totp := s\<rparr>\<rparr>"
  using assms that by (cases "f (totp (db w))") (auto simp: on_totp_def)

lemma on_totp_run [simp]:
  "faults w = [] \<Longrightarrow> f (totp (db w)) = (r, s) \<Longrightarrow>
   on_totp f w = (r, w\<lparr>db := (db w)\<lparr>totp := s\<rparr>\<rparr>)"
  by (simp add: on_totp_def)

lemma keeps_on_totp:
  "db_order R \<Longrightarrow> (\<And>d s. R d (d\<lparr>totp := s\<rparr>)) \<Longrightarrow> keeps R (on_totp f)"
  unfolding on_totp_def by (rule db_order.keeps_wr) simp_all

lemma leaves_on_totp [leaves_rules]:
  "(\<And>d s. g (d\<lparr>totp := s\<rparr>) = g d) \<Longrightarrow> leaves g (on_totp f)"
  by (rule keeps_on_totp) (unfold_locales, auto)

lemma on_pendingE [elim!]:
  assumes "on_pending f w = (r, w')"
  obtains e fs where "r = Inl (Fault e)" and "w' = w\<lparr>faults := fs\<rparr>"
  | s fs where "f (pending (db w)) = (r, s)" and "w' = w\<lparr>faults := fs, db := (db w)\<lparr>pending := s\<rparr>\<rparr>"
  using assms that by (cases "f (pending (db w))") (auto simp: on_pending_def)

lemma on_pending_run [simp]:
  "faults w = [] \<Longrightarrow> f (pending (db w)) = (r, s) \<Longrightarrow>
   on_pending f w = (r, w\<lparr>db := (db w)\<lparr>pending := s\<rparr>\<rparr>)"
  by (simp add: on_pending_def)

lemma keeps_on_pending:
  "db_order R \<Longrightarrow> (\<And>d s. R d (d\<lparr>pending := s\<rparr>)) \<Longrightarrow> keeps R (on_pending f)"
  unfolding on_pending_def by (rule db_order.keeps_wr) simp_all

lemma leaves_on_pending [leaves_rules]:
  "(\<And>d s. g (d\<lparr>pending := s\<rparr>) = g d) \<Longrightarrow> leaves g (on_pending f)"
  by (rule keeps_on_pending) (unfold_locales, auto)

lemma on_lockoutsE [elim!]:
  assumes "on_lockouts f w = (r, w')"
  obtains e fs where "r = Inl (Fault e)" and "w' = w\<lparr>faults := fs\<rparr>"
  | s fs where "f (lockouts (db w)) = (r, s)" and "w' = w\<lparr>faults := fs, db := (db w)\<lparr>lockouts := s\<rparr>\<rparr>"
  using assms that by (cases "f (lockouts (db w))") (auto simp: on_lockouts_def)

lemma on_lockouts_run [simp]:
  "faults w = [] \<Longrightarrow> f (lockouts (db w)) = (r, s) \<Longrightarrow>
   on_lockouts f w = (r, w\<lparr>db := (db w)\<lparr>lockouts := s\<rparr>\<rparr>)"
  by (simp add: on_lockouts_def)

lemma keeps_on_lockouts:
  "db_order R \<Longrightarrow> (\<And>d s. R d (d\<lparr>lockouts := s\<rparr>)) \<Longrightarrow> keeps R (on_lockouts f)"
  unfolding on_lockouts_def by (rule db_order.keeps_wr) simp_all

lemma leaves_on_lockouts [leaves_rules]:
  "(\<And>d s. g (d\<lparr>lockouts := s\<rparr>) = g d) \<Longrightarrow> leaves g (on_lockouts f)"
  by (rule keeps_on_lockouts) (unfold_locales, auto)

lemma on_teamsE [elim!]:
  assumes "on_teams f w = (r, w')"
  obtains e fs where "r = Inl (Fault e)" and "w' = w\<lparr>faults := fs\<rparr>"
  | s fs where "f (teams (db w)) = (r, s)" and "w' = w\<lparr>faults := fs, db := (db w)\<lparr>teams := s\<rparr>\<rparr>"
  using assms that by (cases "f (teams (db w))") (auto simp: on_teams_def)

lemma on_teams_run [simp]:
  "faults w = [] \<Longrightarrow> f (teams (db w)) = (r, s) \<Longrightarrow>
   on_teams f w = (r, w\<lparr>db := (db w)\<lparr>teams := s\<rparr>\<rparr>)"
  by (simp add: on_teams_def)

lemma keeps_on_teams:
  "db_order R \<Longrightarrow> (\<And>d s. R d (d\<lparr>teams := s\<rparr>)) \<Longrightarrow> keeps R (on_teams f)"
  unfolding on_teams_def by (rule db_order.keeps_wr) simp_all

lemma leaves_on_teams [leaves_rules]:
  "(\<And>d s. g (d\<lparr>teams := s\<rparr>) = g d) \<Longrightarrow> leaves g (on_teams f)"
  by (rule keeps_on_teams) (unfold_locales, auto)

lemma on_membersE [elim!]:
  assumes "on_members f w = (r, w')"
  obtains e fs where "r = Inl (Fault e)" and "w' = w\<lparr>faults := fs\<rparr>"
  | s fs where "f (members (db w)) = (r, s)" and "w' = w\<lparr>faults := fs, db := (db w)\<lparr>members := s\<rparr>\<rparr>"
  using assms that by (cases "f (members (db w))") (auto simp: on_members_def)

lemma on_members_run [simp]:
  "faults w = [] \<Longrightarrow> f (members (db w)) = (r, s) \<Longrightarrow>
   on_members f w = (r, w\<lparr>db := (db w)\<lparr>members := s\<rparr>\<rparr>)"
  by (simp add: on_members_def)

lemma keeps_on_members:
  "db_order R \<Longrightarrow> (\<And>d s. R d (d\<lparr>members := s\<rparr>)) \<Longrightarrow> keeps R (on_members f)"
  unfolding on_members_def by (rule db_order.keeps_wr) simp_all

lemma leaves_on_members [leaves_rules]:
  "(\<And>d s. g (d\<lparr>members := s\<rparr>) = g d) \<Longrightarrow> leaves g (on_members f)"
  by (rule keeps_on_members) (unfold_locales, auto)

lemma on_invitesE [elim!]:
  assumes "on_invites f w = (r, w')"
  obtains e fs where "r = Inl (Fault e)" and "w' = w\<lparr>faults := fs\<rparr>"
  | s fs where "f (invites (db w)) = (r, s)" and "w' = w\<lparr>faults := fs, db := (db w)\<lparr>invites := s\<rparr>\<rparr>"
  using assms that by (cases "f (invites (db w))") (auto simp: on_invites_def)

lemma on_invites_run [simp]:
  "faults w = [] \<Longrightarrow> f (invites (db w)) = (r, s) \<Longrightarrow>
   on_invites f w = (r, w\<lparr>db := (db w)\<lparr>invites := s\<rparr>\<rparr>)"
  by (simp add: on_invites_def)

lemma keeps_on_invites:
  "db_order R \<Longrightarrow> (\<And>d s. R d (d\<lparr>invites := s\<rparr>)) \<Longrightarrow> keeps R (on_invites f)"
  unfolding on_invites_def by (rule db_order.keeps_wr) simp_all

lemma leaves_on_invites [leaves_rules]:
  "(\<And>d s. g (d\<lparr>invites := s\<rparr>) = g d) \<Longrightarrow> leaves g (on_invites f)"
  by (rule keeps_on_invites) (unfold_locales, auto)

lemma on_patsE [elim!]:
  assumes "on_pats f w = (r, w')"
  obtains e fs where "r = Inl (Fault e)" and "w' = w\<lparr>faults := fs\<rparr>"
  | s fs where "f (pats (db w)) = (r, s)" and "w' = w\<lparr>faults := fs, db := (db w)\<lparr>pats := s\<rparr>\<rparr>"
  using assms that by (cases "f (pats (db w))") (auto simp: on_pats_def)

lemma on_pats_run [simp]:
  "faults w = [] \<Longrightarrow> f (pats (db w)) = (r, s) \<Longrightarrow>
   on_pats f w = (r, w\<lparr>db := (db w)\<lparr>pats := s\<rparr>\<rparr>)"
  by (simp add: on_pats_def)

lemma keeps_on_pats:
  "db_order R \<Longrightarrow> (\<And>d s. R d (d\<lparr>pats := s\<rparr>)) \<Longrightarrow> keeps R (on_pats f)"
  unfolding on_pats_def by (rule db_order.keeps_wr) simp_all

lemma leaves_on_pats [leaves_rules]:
  "(\<And>d s. g (d\<lparr>pats := s\<rparr>) = g d) \<Longrightarrow> leaves g (on_pats f)"
  by (rule keeps_on_pats) (unfold_locales, auto)

lemma on_devauthsE [elim!]:
  assumes "on_devauths f w = (r, w')"
  obtains e fs where "r = Inl (Fault e)" and "w' = w\<lparr>faults := fs\<rparr>"
  | s fs where "f (devauths (db w)) = (r, s)" and "w' = w\<lparr>faults := fs, db := (db w)\<lparr>devauths := s\<rparr>\<rparr>"
  using assms that by (cases "f (devauths (db w))") (auto simp: on_devauths_def)

lemma on_devauths_run [simp]:
  "faults w = [] \<Longrightarrow> f (devauths (db w)) = (r, s) \<Longrightarrow>
   on_devauths f w = (r, w\<lparr>db := (db w)\<lparr>devauths := s\<rparr>\<rparr>)"
  by (simp add: on_devauths_def)

lemma keeps_on_devauths:
  "db_order R \<Longrightarrow> (\<And>d s. R d (d\<lparr>devauths := s\<rparr>)) \<Longrightarrow> keeps R (on_devauths f)"
  unfolding on_devauths_def by (rule db_order.keeps_wr) simp_all

lemma leaves_on_devauths [leaves_rules]:
  "(\<And>d s. g (d\<lparr>devauths := s\<rparr>) = g d) \<Longrightarrow> leaves g (on_devauths f)"
  by (rule keeps_on_devauths) (unfold_locales, auto)

lemma on_pinsE [elim!]:
  assumes "on_pins f w = (r, w')"
  obtains e fs where "r = Inl (Fault e)" and "w' = w\<lparr>faults := fs\<rparr>"
  | s fs where "f (pins (db w)) = (r, s)" and "w' = w\<lparr>faults := fs, db := (db w)\<lparr>pins := s\<rparr>\<rparr>"
  using assms that by (cases "f (pins (db w))") (auto simp: on_pins_def)

lemma on_pins_run [simp]:
  "faults w = [] \<Longrightarrow> f (pins (db w)) = (r, s) \<Longrightarrow>
   on_pins f w = (r, w\<lparr>db := (db w)\<lparr>pins := s\<rparr>\<rparr>)"
  by (simp add: on_pins_def)

lemma keeps_on_pins:
  "db_order R \<Longrightarrow> (\<And>d s. R d (d\<lparr>pins := s\<rparr>)) \<Longrightarrow> keeps R (on_pins f)"
  unfolding on_pins_def by (rule db_order.keeps_wr) simp_all

lemma leaves_on_pins [leaves_rules]:
  "(\<And>d s. g (d\<lparr>pins := s\<rparr>) = g d) \<Longrightarrow> leaves g (on_pins f)"
  by (rule keeps_on_pins) (unfold_locales, auto)

lemma on_boundE [elim!]:
  assumes "on_bound f w = (r, w')"
  obtains e fs where "r = Inl (Fault e)" and "w' = w\<lparr>faults := fs\<rparr>"
  | s fs where "f (bound (db w)) = (r, s)" and "w' = w\<lparr>faults := fs, db := (db w)\<lparr>bound := s\<rparr>\<rparr>"
  using assms that by (cases "f (bound (db w))") (auto simp: on_bound_def)

lemma on_bound_run [simp]:
  "faults w = [] \<Longrightarrow> f (bound (db w)) = (r, s) \<Longrightarrow>
   on_bound f w = (r, w\<lparr>db := (db w)\<lparr>bound := s\<rparr>\<rparr>)"
  by (simp add: on_bound_def)

lemma keeps_on_bound:
  "db_order R \<Longrightarrow> (\<And>d s. R d (d\<lparr>bound := s\<rparr>)) \<Longrightarrow> keeps R (on_bound f)"
  unfolding on_bound_def by (rule db_order.keeps_wr) simp_all

lemma leaves_on_bound [leaves_rules]:
  "(\<And>d s. g (d\<lparr>bound := s\<rparr>) = g d) \<Longrightarrow> leaves g (on_bound f)"
  by (rule keeps_on_bound) (unfold_locales, auto)

lemma on_loginsE [elim!]:
  assumes "on_logins f w = (r, w')"
  obtains e fs where "r = Inl (Fault e)" and "w' = w\<lparr>faults := fs\<rparr>"
  | s fs where "f (logins (db w)) = (r, s)" and "w' = w\<lparr>faults := fs, db := (db w)\<lparr>logins := s\<rparr>\<rparr>"
  using assms that by (cases "f (logins (db w))") (auto simp: on_logins_def)

lemma on_logins_run [simp]:
  "faults w = [] \<Longrightarrow> f (logins (db w)) = (r, s) \<Longrightarrow>
   on_logins f w = (r, w\<lparr>db := (db w)\<lparr>logins := s\<rparr>\<rparr>)"
  by (simp add: on_logins_def)

lemma keeps_on_logins:
  "db_order R \<Longrightarrow> (\<And>d s. R d (d\<lparr>logins := s\<rparr>)) \<Longrightarrow> keeps R (on_logins f)"
  unfolding on_logins_def by (rule db_order.keeps_wr) simp_all

lemma leaves_on_logins [leaves_rules]:
  "(\<And>d s. g (d\<lparr>logins := s\<rparr>) = g d) \<Longrightarrow> leaves g (on_logins f)"
  by (rule keeps_on_logins) (unfold_locales, auto)

lemma on_supersE [elim!]:
  assumes "on_supers f w = (r, w')"
  obtains e fs where "r = Inl (Fault e)" and "w' = w\<lparr>faults := fs\<rparr>"
  | s fs where "f (supers (db w)) = (r, s)" and "w' = w\<lparr>faults := fs, db := (db w)\<lparr>supers := s\<rparr>\<rparr>"
  using assms that by (cases "f (supers (db w))") (auto simp: on_supers_def)

lemma on_supers_run [simp]:
  "faults w = [] \<Longrightarrow> f (supers (db w)) = (r, s) \<Longrightarrow>
   on_supers f w = (r, w\<lparr>db := (db w)\<lparr>supers := s\<rparr>\<rparr>)"
  by (simp add: on_supers_def)

lemma keeps_on_supers:
  "db_order R \<Longrightarrow> (\<And>d s. R d (d\<lparr>supers := s\<rparr>)) \<Longrightarrow> keeps R (on_supers f)"
  unfolding on_supers_def by (rule db_order.keeps_wr) simp_all

lemma leaves_on_supers [leaves_rules]:
  "(\<And>d s. g (d\<lparr>supers := s\<rparr>) = g d) \<Longrightarrow> leaves g (on_supers f)"
  by (rule keeps_on_supers) (unfold_locales, auto)

lemma on_supertokensE [elim!]:
  assumes "on_supertokens f w = (r, w')"
  obtains e fs where "r = Inl (Fault e)" and "w' = w\<lparr>faults := fs\<rparr>"
  | s fs where "f (supertokens (db w)) = (r, s)" and "w' = w\<lparr>faults := fs, db := (db w)\<lparr>supertokens := s\<rparr>\<rparr>"
  using assms that by (cases "f (supertokens (db w))") (auto simp: on_supertokens_def)

lemma on_supertokens_run [simp]:
  "faults w = [] \<Longrightarrow> f (supertokens (db w)) = (r, s) \<Longrightarrow>
   on_supertokens f w = (r, w\<lparr>db := (db w)\<lparr>supertokens := s\<rparr>\<rparr>)"
  by (simp add: on_supertokens_def)

lemma keeps_on_supertokens:
  "db_order R \<Longrightarrow> (\<And>d s. R d (d\<lparr>supertokens := s\<rparr>)) \<Longrightarrow> keeps R (on_supertokens f)"
  unfolding on_supertokens_def by (rule db_order.keeps_wr) simp_all

lemma leaves_on_supertokens [leaves_rules]:
  "(\<And>d s. g (d\<lparr>supertokens := s\<rparr>) = g d) \<Longrightarrow> leaves g (on_supertokens f)"
  by (rule keeps_on_supertokens) (unfold_locales, auto)

lemma on_superfactorsE [elim!]:
  assumes "on_superfactors f w = (r, w')"
  obtains e fs where "r = Inl (Fault e)" and "w' = w\<lparr>faults := fs\<rparr>"
  | s fs where "f (superfactors (db w)) = (r, s)" and "w' = w\<lparr>faults := fs, db := (db w)\<lparr>superfactors := s\<rparr>\<rparr>"
  using assms that by (cases "f (superfactors (db w))") (auto simp: on_superfactors_def)

lemma on_superfactors_run [simp]:
  "faults w = [] \<Longrightarrow> f (superfactors (db w)) = (r, s) \<Longrightarrow>
   on_superfactors f w = (r, w\<lparr>db := (db w)\<lparr>superfactors := s\<rparr>\<rparr>)"
  by (simp add: on_superfactors_def)

lemma keeps_on_superfactors:
  "db_order R \<Longrightarrow> (\<And>d s. R d (d\<lparr>superfactors := s\<rparr>)) \<Longrightarrow> keeps R (on_superfactors f)"
  unfolding on_superfactors_def by (rule db_order.keeps_wr) simp_all

lemma leaves_on_superfactors [leaves_rules]:
  "(\<And>d s. g (d\<lparr>superfactors := s\<rparr>) = g d) \<Longrightarrow> leaves g (on_superfactors f)"
  by (rule keeps_on_superfactors) (unfold_locales, auto)

lemma on_accountsE [elim!]:
  assumes "on_accounts f w = (r, w')"
  obtains e fs where "r = Inl (Fault e)" and "w' = w\<lparr>faults := fs\<rparr>"
  | s fs where "f (accounts (db w)) = (r, s)" and "w' = w\<lparr>faults := fs, db := (db w)\<lparr>accounts := s\<rparr>\<rparr>"
  using assms that by (cases "f (accounts (db w))") (auto simp: on_accounts_def)

lemma on_accounts_run [simp]:
  "faults w = [] \<Longrightarrow> f (accounts (db w)) = (r, s) \<Longrightarrow>
   on_accounts f w = (r, w\<lparr>db := (db w)\<lparr>accounts := s\<rparr>\<rparr>)"
  by (simp add: on_accounts_def)

lemma keeps_on_accounts:
  "db_order R \<Longrightarrow> (\<And>d s. R d (d\<lparr>accounts := s\<rparr>)) \<Longrightarrow> keeps R (on_accounts f)"
  unfolding on_accounts_def by (rule db_order.keeps_wr) simp_all

lemma leaves_on_accounts [leaves_rules]:
  "(\<And>d s. g (d\<lparr>accounts := s\<rparr>) = g d) \<Longrightarrow> leaves g (on_accounts f)"
  by (rule keeps_on_accounts) (unfold_locales, auto)

lemma on_passkeysE [elim!]:
  assumes "on_passkeys f w = (r, w')"
  obtains e fs where "r = Inl (Fault e)" and "w' = w\<lparr>faults := fs\<rparr>"
  | s fs where "f (passkeys (db w)) = (r, s)" and "w' = w\<lparr>faults := fs, db := (db w)\<lparr>passkeys := s\<rparr>\<rparr>"
  using assms that by (cases "f (passkeys (db w))") (auto simp: on_passkeys_def)

lemma on_passkeys_run [simp]:
  "faults w = [] \<Longrightarrow> f (passkeys (db w)) = (r, s) \<Longrightarrow>
   on_passkeys f w = (r, w\<lparr>db := (db w)\<lparr>passkeys := s\<rparr>\<rparr>)"
  by (simp add: on_passkeys_def)

lemma keeps_on_passkeys:
  "db_order R \<Longrightarrow> (\<And>d s. R d (d\<lparr>passkeys := s\<rparr>)) \<Longrightarrow> keeps R (on_passkeys f)"
  unfolding on_passkeys_def by (rule db_order.keeps_wr) simp_all

lemma leaves_on_passkeys [leaves_rules]:
  "(\<And>d s. g (d\<lparr>passkeys := s\<rparr>) = g d) \<Longrightarrow> leaves g (on_passkeys f)"
  by (rule keeps_on_passkeys) (unfold_locales, auto)

lemma on_challengesE [elim!]:
  assumes "on_challenges f w = (r, w')"
  obtains e fs where "r = Inl (Fault e)" and "w' = w\<lparr>faults := fs\<rparr>"
  | s fs where "f (challenges (db w)) = (r, s)" and "w' = w\<lparr>faults := fs, db := (db w)\<lparr>challenges := s\<rparr>\<rparr>"
  using assms that by (cases "f (challenges (db w))") (auto simp: on_challenges_def)

lemma on_challenges_run [simp]:
  "faults w = [] \<Longrightarrow> f (challenges (db w)) = (r, s) \<Longrightarrow>
   on_challenges f w = (r, w\<lparr>db := (db w)\<lparr>challenges := s\<rparr>\<rparr>)"
  by (simp add: on_challenges_def)

lemma keeps_on_challenges:
  "db_order R \<Longrightarrow> (\<And>d s. R d (d\<lparr>challenges := s\<rparr>)) \<Longrightarrow> keeps R (on_challenges f)"
  unfolding on_challenges_def by (rule db_order.keeps_wr) simp_all

lemma leaves_on_challenges [leaves_rules]:
  "(\<And>d s. g (d\<lparr>challenges := s\<rparr>) = g d) \<Longrightarrow> leaves g (on_challenges f)"
  by (rule keeps_on_challenges) (unfold_locales, auto)

lemmas read_port_defs = GetUserByID_def GetUserByEmail_def GetRefreshTokenByHash_def
  ListActiveRefreshTokens_def GetPasswordResetTokenByHash_def GetEmailVerificationTokenByHash_def
  GetTOTPSettingsByUserID_def GetPendingTwoFactorSessionByHash_def CountRecentFailedLoginAttempts_def
  IsAccountLocked_def GetTeam_def GetTeamBySlug_def
  GetMember_def GetMemberByUserAndTeam_def ListMembersByTeam_def
  ListMembershipsByUser_def GetInvitation_def GetInvitationByTokenHash_def
  ListInvitationsByTeam_def GetPersonalAccessToken_def GetPersonalAccessTokenByHash_def
  ListPersonalAccessTokensByUser_def GetDeviceAuthorizationByDeviceCodeHash_def GetDeviceAuthorizationByUserCode_def
  GetPINCredential_def GetBoundDevice_def GetBoundDeviceByTokenHash_def
  ListBoundDevicesByUser_def GetEmailLoginTokenByHash_def GetEmailLoginTokenByEmail_def
  GetSuperuserByID_def GetSuperuserByEmail_def StoredSuperusers_def CountSuperusers_def
  GetSuperuserRefreshTokenByHash_def ListActiveSuperuserRefreshTokens_def GetSuperuserTOTPSettings_def
  GetSuperuserPendingTwoFactorSessionByHash_def GetAccount_def GetAccountByProvider_def ListAccountsByUser_def
  GetWebAuthnCredential_def GetWebAuthnCredentialByCredentialID_def ListWebAuthnCredentialsByUser_def

lemmas write_port_defs = CreateUser_def UpdateUser_def CreateRefreshToken_def
  RevokeRefreshToken_def ConsumeRefreshToken_def TouchRefreshToken_def
  RevokeAllUserRefreshTokens_def CreatePasswordResetToken_def MarkPasswordResetTokenUsed_def
  DeleteUserPasswordResetTokens_def CreateEmailVerificationToken_def MarkEmailVerificationTokenUsed_def
  DeleteUserEmailVerificationTokens_def CreateTOTPSettings_def UpdateTOTPSettings_def
  DeleteTOTPSettings_def CreatePendingTwoFactorSession_def DeletePendingTwoFactorSession_def
  RecordFailedLoginAttempt_def ClearFailedLoginAttempts_def LockAccount_def
  UnlockAccount_def CreateTeam_def UpdateTeam_def
  DeleteTeam_def CreateMember_def UpdateMember_def
  DeleteMember_def CreateInvitation_def UpdateInvitation_def
  CreatePersonalAccessToken_def UpdatePersonalAccessToken_def CreateDeviceAuthorization_def
  UpdateDeviceAuthorization_def DeleteDeviceAuthorization_def SetPINCredential_def
  DeletePINCredential_def CreateBoundDevice_def TouchBoundDevice_def
  RevokeBoundDevice_def RevokeAllBoundDevices_def CreateEmailLoginToken_def
  MarkEmailLoginTokenUsed_def IncrementEmailLoginTokenAttempts_def DeleteEmailLoginTokens_def
  StoreSuperuser_def UpdateSuperuser_def CreateSuperuserRefreshToken_def RevokeSuperuserRefreshToken_def
  ConsumeSuperuserRefreshToken_def RevokeAllSuperuserRefreshTokens_def CreateSuperuserTOTPSettings_def
  UpdateSuperuserTOTPSettings_def DeleteSuperuserTOTPSettings_def CreateSuperuserPendingTwoFactorSession_def
  DeleteSuperuserPendingTwoFactorSession_def CreateAccount_def UpdateAccount_def DeleteAccount_def
  CreateWebAuthnCredential_def UpdateWebAuthnCredential_def DeleteWebAuthnCredential_def
  CreateWebAuthnChallenge_def ConsumeWebAuthnChallenge_def

end
