(* ===== verification/RateLimit.thy ===== *)
theory RateLimit
  imports Stores
begin

text \<open>
  Package \<open>ratelimit\<close>: the \<open>Limiter\<close> port, \<open>AllowEach\<close>, \<open>RetryAfter\<close> and the in-memory token-bucket
  limiter. A limiter is a function of the calls made to it so far, each with its instant, and of
  the call being made; the world records them. \<open>Memory\<close>'s \<open>float64\<close> budget is a rational here, so the
  bounds are those of the exact arithmetic.
\<close>

section \<open>The port (ratelimit/ratelimit.go)\<close>

type_synonym limiter = "(time \<times> string) list \<Rightarrow> time \<Rightarrow> string \<Rightarrow> error option"

definition Noop :: limiter where "Noop h t key = None"

definition Allow :: "limiter \<Rightarrow> string \<Rightarrow> unit prog" where
  "Allow l key w =
     (case l (limits w) (clock w) key of None \<Rightarrow> Inr () | Some e \<Rightarrow> Inl e,
      w\<lparr>limits := limits w @ [(clock w, key)]\<rparr>)"

fun RetryAfter :: "error \<Rightarrow> duration option" where
  "RetryAfter (RateLimitError k d) = (if d > 0 then Some d else None)"
| "RetryAfter _ = None"

definition HasSuffix_colon :: "string \<Rightarrow> bool" where
  "HasSuffix_colon key \<longleftrightarrow> key \<noteq> [] \<and> last key = CHR '':''"

fun allow_each :: "limiter \<Rightarrow> error option \<Rightarrow> string list \<Rightarrow> unit prog" where
  "allow_each l refusal [] = check refusal"
| "allow_each l refusal (key # keys) =
     (if HasSuffix_colon key then allow_each l refusal keys
      else on (Allow l key)
        (\<lambda>e. if \<not> is_rate_limited e then raise e
             else allow_each l (if refusal = None then Some e else refusal) keys)
        (\<lambda>_. allow_each l refusal keys))"

definition AllowEach :: "limiter \<Rightarrow> string list \<Rightarrow> unit prog" where
  "AllowEach l keys = allow_each l None keys"

lemma AllowE [elim!]:
  assumes "Allow l key w = (r, w')"
  obtains "w' = w\<lparr>limits := limits w @ [(clock w, key)]\<rparr>"
    and "r = (case l (limits w) (clock w) key of None \<Rightarrow> Inr () | Some e \<Rightarrow> Inl e)"
  using assms by (auto simp: Allow_def)

text \<open>Whatever it answers, \<open>AllowEach\<close> touches nothing but the limiter's own record.\<close>

lemma allow_each_frame:
  "allow_each l refusal keys w = (r, w') \<Longrightarrow> \<exists>ks. w' = w\<lparr>limits := limits w @ ks\<rparr>"
proof (induction keys arbitrary: refusal w)
  case Nil
  then have "w' = w\<lparr>limits := limits w @ []\<rparr>" by simp
  then show ?case by blast
next
  case (Cons key keys)
  show ?case
  proof (cases "HasSuffix_colon key")
    case True
    then show ?thesis using Cons by simp
  next
    case False
    let ?w1 = "w\<lparr>limits := limits w @ [(clock w, key)]\<rparr>"
    from Cons.prems False have "w' = ?w1 \<or> (\<exists>f. allow_each l f keys ?w1 = (r, w'))"
      by (auto split: if_splits)
    then show ?thesis
    proof (elim disjE exE)
      fix f assume "allow_each l f keys ?w1 = (r, w')"
      from Cons.IH [OF this] show ?thesis by auto
    qed blast
  qed
qed

lemma AllowEach_frame:
  assumes "AllowEach l keys w = (r, w')"
  obtains ks where "w' = w\<lparr>limits := limits w @ ks\<rparr>"
  using allow_each_frame [OF assms [unfolded AllowEach_def]] by blast

text \<open>Its answer depends on the record and the clock alone.\<close>

lemma on_Allow:
  "on (Allow l key) h k w =
     (case l (limits w) (clock w) key of
        None \<Rightarrow> k () (w\<lparr>limits := limits w @ [(clock w, key)]\<rparr>)
      | Some e \<Rightarrow> h e (w\<lparr>limits := limits w @ [(clock w, key)]\<rparr>))"
  by (simp add: on_def Allow_def split: option.splits)

definition agree :: "(error + 'a) \<times> world \<Rightarrow> (error + 'a) \<times> world \<Rightarrow> bool" where
  "agree x y \<longleftrightarrow> fst x = fst y \<and> limits (snd x) = limits (snd y)"

lemma allow_each_agree:
  "limits w1 = L \<Longrightarrow> limits w2 = L \<Longrightarrow> clock w1 = t \<Longrightarrow> clock w2 = t \<Longrightarrow>
   agree (allow_each l f keys w1) (allow_each l f keys w2)"
proof (induction keys arbitrary: f w1 w2 L)
  case Nil
  then show ?case by (simp add: agree_def check_def ret_def raise_def split: option.splits)
next
  case (Cons key keys)
  have IH: "agree (allow_each l f keys (w1\<lparr>limits := L @ [(t, key)]\<rparr>))
      (allow_each l f keys (w2\<lparr>limits := L @ [(t, key)]\<rparr>))" for f
    by (rule Cons.IH [where L = "L @ [(t, key)]"]) (use Cons.prems in simp_all)
  show ?case
  proof (cases "HasSuffix_colon key")
    case True
    then show ?thesis using Cons.IH [OF Cons.prems, of f] by simp
  next
    case False
    show ?thesis
    proof (cases "l L t key")
      case None
      then show ?thesis using False Cons.prems IH [of f] by (simp add: on_Allow)
    next
      case (Some e)
      show ?thesis
      proof (cases "is_rate_limited e")
        case True
        then show ?thesis
          using False Some Cons.prems IH [of "if f = None then Some e else f"] by (simp add: on_Allow)
      next
        case notlim: False
        then show ?thesis
          using False Some Cons.prems by (simp add: on_Allow agree_def raise_def)
      qed
    qed
  qed
qed

lemma AllowEach_agree:
  assumes "limits w1 = limits w2" and "clock w1 = clock w2"
  shows "fst (AllowEach l keys w1) = fst (AllowEach l keys w2)"
    and "limits (snd (AllowEach l keys w1)) = limits (snd (AllowEach l keys w2))"
proof -
  have "agree (AllowEach l keys w1) (AllowEach l keys w2)"
    unfolding AllowEach_def by (rule allow_each_agree) (simp_all add: assms)
  then show "fst (AllowEach l keys w1) = fst (AllowEach l keys w2)"
    and "limits (snd (AllowEach l keys w1)) = limits (snd (AllowEach l keys w2))"
    by (simp_all only: agree_def)
qed

context db_order
begin

lemma keeps_AllowEach [keeps_rules]: "keeps R (AllowEach l keys)"
  by (rule keepsI) (auto elim!: AllowEach_frame simp: R_refl)

end

text \<open>
  The two rules of \<open>AllowEach\<close>, on every run: a key ending in a colon is skipped, every other key
  is charged even after a refusal, in order, and only a failure of the limiter itself stops the
  charging.
\<close>

definition metered :: "string list \<Rightarrow> string list" where
  "metered keys = filter (\<lambda>k. \<not> HasSuffix_colon k) keys"

definition only_refuses :: "limiter \<Rightarrow> bool" where
  "only_refuses l \<longleftrightarrow> (\<forall>h t k e. l h t k = Some e \<longrightarrow> is_rate_limited e)"

text \<open>The verdicts on each metered key, each given what was charged before it.\<close>

fun verdicts :: "limiter \<Rightarrow> (time \<times> string) list \<Rightarrow> time \<Rightarrow> string list \<Rightarrow> error option list" where
  "verdicts l h t [] = []"
| "verdicts l h t (k # ks) = l h t k # verdicts l (h @ [(t, k)]) t ks"

definition first_refusal :: "error option list \<Rightarrow> error option" where
  "first_refusal vs = (case filter (\<lambda>v. v \<noteq> None) vs of [] \<Rightarrow> None | v # _ \<Rightarrow> v)"

lemma first_refusal_Cons: "first_refusal (v # vs) = (if v = None then first_refusal vs else v)"
  by (simp add: first_refusal_def)

lemma allow_each_verdicts:
  assumes "only_refuses l"
  shows "allow_each l refusal keys w =
     (case (if refusal = None then first_refusal (verdicts l (limits w) (clock w) (metered keys))
            else refusal) of None \<Rightarrow> Inr () | Some e \<Rightarrow> Inl e,
      w\<lparr>limits := limits w @ map (\<lambda>k. (clock w, k)) (metered keys)\<rparr>)"
proof (induction keys arbitrary: refusal w)
  case Nil
  show ?case by (cases refusal) (simp_all add: metered_def check_def ret_def raise_def first_refusal_def)
next
  case (Cons key keys)
  show ?case
  proof (cases "HasSuffix_colon key")
    case True
    then show ?thesis by (simp add: Cons.IH metered_def)
  next
    case False
    show ?thesis
    proof (cases "l (limits w) (clock w) key")
      case None
      then show ?thesis using False
        by (simp add: on_def Allow_def Cons.IH metered_def first_refusal_Cons)
    next
      case (Some e)
      moreover have "is_rate_limited e" using assms Some by (auto simp: only_refuses_def)
      ultimately show ?thesis using False
        by (simp add: on_def Allow_def Cons.IH metered_def first_refusal_Cons)
    qed
  qed
qed

lemma AllowEach_verdicts:
  "only_refuses l \<Longrightarrow> AllowEach l keys w =
     (case first_refusal (verdicts l (limits w) (clock w) (metered keys)) of
        None \<Rightarrow> Inr () | Some e \<Rightarrow> Inl e,
      w\<lparr>limits := limits w @ map (\<lambda>k. (clock w, k)) (metered keys)\<rparr>)"
  by (simp add: AllowEach_def allow_each_verdicts)

end
