(* ===== verification/TokenBucket.thy ===== *)
theory TokenBucket
  imports RateLimit
begin

text \<open>
  The in-memory limiter, \<open>ratelimit/memory.go\<close>. The map of buckets is an association list with
  distinct keys; \<open>now\<close> is the limiter's clock. The budget a key has at an instant, \<open>avail\<close>, is what
  the proofs follow: a call spends at most one unit of it, time gives back one per interval, and
  evicting a full bucket does not change it.
\<close>

record memory_config =
  mc_Burst :: int
  mc_Interval :: duration
  mc_MaxKeys :: int

definition DefaultMaxKeys :: int where "DefaultMaxKeys = 100000"

definition mc_withDefaults :: "memory_config \<Rightarrow> memory_config" where
  "mc_withDefaults c =
     (let c = (if mc_Burst c < 1 then c\<lparr>mc_Burst := 5\<rparr> else c);
          c = (if mc_Interval c \<le> 0 then c\<lparr>mc_Interval := minute\<rparr> else c)
      in if mc_MaxKeys c < 1 then c\<lparr>mc_MaxKeys := DefaultMaxKeys\<rparr> else c)"

record bucket =
  tokens :: rat
  last_seen :: time

type_synonym buckets = "(string \<times> bucket) list"

definition elapsed_tokens :: "memory_config \<Rightarrow> time \<Rightarrow> time \<Rightarrow> rat" where
  "elapsed_tokens c now t = of_int (now - t) / of_int (mc_Interval c)"

definition evictFullLocked :: "memory_config \<Rightarrow> time \<Rightarrow> buckets \<Rightarrow> buckets" where
  "evictFullLocked c now bs =
     filter (\<lambda>(k, b). \<not> tokens b + elapsed_tokens c now (last_seen b) \<ge> of_int (mc_Burst c)) bs"

text \<open>The end of \<open>Allow\<close>: refuse with the time to the next whole token, or spend one.\<close>

definition spend_token ::
  "memory_config \<Rightarrow> string \<Rightarrow> bucket \<Rightarrow> buckets \<Rightarrow> error option \<times> buckets" where
  "spend_token c key b bs =
     (if tokens b < 1
      then (Some (RateLimitError key (floor ((1 - tokens b) * of_int (mc_Interval c)))),
            AList.update key b bs)
      else (None, AList.update key (b\<lparr>tokens := tokens b - 1\<rparr>) bs))"

definition refill :: "memory_config \<Rightarrow> time \<Rightarrow> bucket \<Rightarrow> bucket" where
  "refill c now b =
     (if now - last_seen b > 0
      then \<lparr>tokens = min (of_int (mc_Burst c)) (tokens b + elapsed_tokens c now (last_seen b)),
            last_seen = now\<rparr>
      else b)"

definition Memory_Allow ::
  "memory_config \<Rightarrow> time \<Rightarrow> string \<Rightarrow> buckets \<Rightarrow> error option \<times> buckets" where
  "Memory_Allow c now key bs =
     (case map_of bs key of
        None \<Rightarrow>
          (let bs1 = (if int (length bs) \<ge> mc_MaxKeys c then evictFullLocked c now bs else bs) in
           if int (length bs1) \<ge> mc_MaxKeys c then (Some (RateLimitError key (mc_Interval c)), bs1)
           else spend_token c key \<lparr>tokens = of_int (mc_Burst c), last_seen = now\<rparr> bs1)
      | Some b \<Rightarrow> spend_token c key (refill c now b) bs)"

definition Memory_Reset :: "buckets \<Rightarrow> buckets" where "Memory_Reset bs = []"

definition Memory_Len :: "buckets \<Rightarrow> nat" where "Memory_Len bs = length bs"

text \<open>A run of calls, and \<open>Memory\<close> as an implementation of the port.\<close>

fun Memory_run :: "memory_config \<Rightarrow> (time \<times> string) list \<Rightarrow> buckets \<Rightarrow> error option list \<times> buckets" where
  "Memory_run c [] bs = ([], bs)"
| "Memory_run c ((t, k) # cs) bs =
     (case Memory_Allow c t k bs of (r, bs1) \<Rightarrow>
        (case Memory_run c cs bs1 of (rs, bs2) \<Rightarrow> (r # rs, bs2)))"

definition NewMemory :: "memory_config \<Rightarrow> limiter" where
  "NewMemory c h t key =
     (let c = mc_withDefaults c in fst (Memory_Allow c t key (snd (Memory_run c h []))))"

section \<open>The invariant\<close>

definition valid_config :: "memory_config \<Rightarrow> bool" where
  "valid_config c \<longleftrightarrow> 1 \<le> mc_Burst c \<and> 0 < mc_Interval c \<and> 1 \<le> mc_MaxKeys c"

definition Memory_inv :: "memory_config \<Rightarrow> time \<Rightarrow> buckets \<Rightarrow> bool" where
  "Memory_inv c t bs \<longleftrightarrow> distinct (map fst bs) \<and> int (length bs) \<le> mc_MaxKeys c \<and>
     (\<forall>k b. map_of bs k = Some b \<longrightarrow>
        0 \<le> tokens b \<and> tokens b \<le> of_int (mc_Burst c) \<and> last_seen b \<le> t)"

definition avail :: "memory_config \<Rightarrow> buckets \<Rightarrow> string \<Rightarrow> time \<Rightarrow> rat" where
  "avail c bs k t =
     (case map_of bs k of
        None \<Rightarrow> of_int (mc_Burst c)
      | Some b \<Rightarrow> min (of_int (mc_Burst c)) (tokens b + elapsed_tokens c t (last_seen b)))"

lemma valid_withDefaults: "valid_config (mc_withDefaults c)"
  by (auto simp: valid_config_def mc_withDefaults_def Let_def DefaultMaxKeys_def duration_defs)

lemma elapsed_mono:
  "valid_config c \<Longrightarrow> t \<le> t' \<Longrightarrow> elapsed_tokens c t s \<le> elapsed_tokens c t' s"
  by (auto simp: elapsed_tokens_def valid_config_def intro!: divide_right_mono)

lemma elapsed_zero [simp]: "elapsed_tokens c t t = 0"
  by (simp add: elapsed_tokens_def)

lemma elapsed_split:
  "elapsed_tokens c t' s = elapsed_tokens c t s + of_int (t' - t) / of_int (mc_Interval c)"
  by (simp add: elapsed_tokens_def add_divide_distrib [symmetric])

lemma elapsed_nonneg: "valid_config c \<Longrightarrow> s \<le> t \<Longrightarrow> 0 \<le> elapsed_tokens c t s"
  by (simp add: elapsed_tokens_def valid_config_def)

lemma map_of_filter_distinct:
  "distinct (map fst bs) \<Longrightarrow>
   map_of (filter P bs) k = (case map_of bs k of None \<Rightarrow> None | Some b \<Rightarrow> if P (k, b) then Some b else None)"
proof (induction bs)
  case Nil
  then show ?case by simp
next
  case (Cons kb bs)
  obtain a b where kb: "kb = (a, b)" by (cases kb)
  have none: "map_of bs a = None" using Cons.prems kb by (simp add: map_of_eq_None_iff)
  show ?case using Cons none kb by (auto split: option.splits)
qed

lemma evict_inv:
  assumes "Memory_inv c t bs" shows "Memory_inv c t (evictFullLocked c now bs)"
proof -
  have "distinct (map fst (filter P bs))" for P
    using assms by (simp add: Memory_inv_def distinct_map_filter)
  moreover have "int (length (filter P bs)) \<le> mc_MaxKeys c" for P
    using assms length_filter_le [of P bs] unfolding Memory_inv_def by linarith
  ultimately show ?thesis
    using assms by (auto simp: Memory_inv_def evictFullLocked_def map_of_filter_distinct
        split: option.splits if_splits)
qed

text \<open>Eviction is lossless: at any later instant every key has the budget it had.\<close>

lemma evict_avail:
  assumes "valid_config c" and "Memory_inv c t0 bs" and "now \<le> t"
  shows "avail c (evictFullLocked c now bs) k t = avail c bs k t"
proof (cases "map_of bs k")
  case None
  then show ?thesis
    using assms(2) by (simp add: avail_def evictFullLocked_def map_of_filter_distinct Memory_inv_def)
next
  case (Some b)
  show ?thesis
  proof (cases "tokens b + elapsed_tokens c now (last_seen b) \<ge> of_int (mc_Burst c)")
    case True
    then have "tokens b + elapsed_tokens c t (last_seen b) \<ge> of_int (mc_Burst c)"
      using elapsed_mono [OF assms(1,3), of "last_seen b"] by linarith
    then show ?thesis
      using assms(2) Some True
      by (simp add: avail_def evictFullLocked_def map_of_filter_distinct Memory_inv_def min_def)
  next
    case False
    then show ?thesis
      using assms(2) Some
      by (simp add: avail_def evictFullLocked_def map_of_filter_distinct Memory_inv_def)
  qed
qed

lemma avail_le_burst: "avail c bs k t \<le> of_int (mc_Burst c)"
  by (auto simp: avail_def split: option.splits)

lemma avail_nonneg: "valid_config c \<Longrightarrow> Memory_inv c t0 bs \<Longrightarrow> t0 \<le> t \<Longrightarrow> 0 \<le> avail c bs k t"
  using elapsed_nonneg [of c _ t]
  by (fastforce simp: avail_def Memory_inv_def valid_config_def split: option.splits)

lemma avail_refills:
  assumes "valid_config c" and "t \<le> t'"
  shows "avail c bs k t' \<le> avail c bs k t + of_int (t' - t) / of_int (mc_Interval c)"
proof (cases "map_of bs k")
  case None
  then show ?thesis using assms by (simp add: avail_def valid_config_def)
next
  case (Some b)
  have "0 \<le> of_int (t' - t) / (of_int (mc_Interval c) :: rat)"
    using assms by (simp add: valid_config_def)
  then show ?thesis using Some elapsed_split [of c t' "last_seen b" t] by (simp add: avail_def)
qed

lemma length_update_new: "map_of bs k = None \<Longrightarrow> length (AList.update k b bs) = length bs + 1"
  by (induction bs) (auto split: if_splits)

lemma length_update_old: "map_of bs k = Some x \<Longrightarrow> length (AList.update k b bs) = length bs"
  by (induction bs) auto

text \<open>Spending one token, from a bucket that stands at instant \<open>t\<close>.\<close>

lemma spend_token_step:
  assumes "spend_token c key b bs = (r, bs')" and "Memory_inv c t bs"
    and "0 \<le> tokens b" and "tokens b \<le> of_int (mc_Burst c)" and "last_seen b = t"
    and "map_of bs key = None \<Longrightarrow> int (length bs) < mc_MaxKeys c"
  shows "Memory_inv c t bs'"
    and "avail c bs' key t = tokens b - (if r = None then 1 else 0)"
    and "k \<noteq> key \<Longrightarrow> avail c bs' k t' = avail c bs k t'"
    and "r = None \<longleftrightarrow> tokens b \<ge> 1"
proof -
  obtain x where x: "bs' = AList.update key x bs" "0 \<le> tokens x" "tokens x \<le> of_int (mc_Burst c)"
      "last_seen x = t" "tokens x = tokens b - (if r = None then 1 else 0)"
    and r: "r = None \<longleftrightarrow> tokens b \<ge> 1"
    using assms(1,3,4,5) by (auto simp: spend_token_def split: if_splits)
  have len: "int (length bs') \<le> mc_MaxKeys c"
    using assms(2,6) x(1) by (cases "map_of bs key")
      (auto simp: Memory_inv_def length_update_new length_update_old)
  show "Memory_inv c t bs'"
    using assms(2) x len unfolding Memory_inv_def
    by (auto simp: update_conv' distinct_update split: if_splits)
  show "avail c bs' key t = tokens b - (if r = None then 1 else 0)"
    using x by (simp add: avail_def update_conv')
  show "k \<noteq> key \<Longrightarrow> avail c bs' k t' = avail c bs k t'"
    using x(1) by (simp add: avail_def update_conv')
  show "r = None \<longleftrightarrow> tokens b \<ge> 1" by (rule r)
qed

text \<open>What one call does to every key's budget.\<close>

lemma Memory_Allow_step:
  assumes c: "valid_config c" and inv: "Memory_inv c t0 bs" and t: "t0 \<le> t"
    and call: "Memory_Allow c t key bs = (r, bs')"
  shows "Memory_inv c t bs'"
    and "avail c bs' key t = avail c bs key t - (if r = None then 1 else 0)"
    and "k \<noteq> key \<Longrightarrow> t \<le> t' \<Longrightarrow> avail c bs' k t' = avail c bs k t'"
    and "r = None \<Longrightarrow> avail c bs key t \<ge> 1"
proof -
  have inv': "Memory_inv c t bs" using inv t by (fastforce simp: Memory_inv_def)
  have "Memory_inv c t bs' \<and> avail c bs' key t = avail c bs key t - (if r = None then 1 else 0) \<and>
      (k \<noteq> key \<and> t \<le> t' \<longrightarrow> avail c bs' k t' = avail c bs k t') \<and> (r = None \<longrightarrow> avail c bs key t \<ge> 1)"
  proof (cases "map_of bs key")
    case None
    define bs1 where "bs1 = (if int (length bs) \<ge> mc_MaxKeys c then evictFullLocked c t bs else bs)"
    have inv1: "Memory_inv c t bs1" using inv' evict_inv by (auto simp: bs1_def)
    have av1: "avail c bs1 k' t'' = avail c bs k' t''" if "t \<le> t''" for k' t''
      using evict_avail [OF c inv' that] by (simp add: bs1_def)
    have none1: "map_of bs1 key = None"
      using None inv' by (auto simp: bs1_def evictFullLocked_def map_of_filter_distinct Memory_inv_def)
    have avB: "avail c bs key t = of_int (mc_Burst c)" using None by (simp add: avail_def)
    show ?thesis
    proof (cases "int (length bs1) \<ge> mc_MaxKeys c")
      case True
      then have "bs' = bs1" and "r = Some (RateLimitError key (mc_Interval c))"
        using call None by (auto simp: Memory_Allow_def bs1_def [symmetric] Let_def)
      then show ?thesis using inv1 av1 by simp
    next
      case False
      let ?b = "\<lparr>tokens = of_int (mc_Burst c), last_seen = t\<rparr> :: bucket"
      have sp: "spend_token c key ?b bs1 = (r, bs')"
        using call None False by (simp add: Memory_Allow_def bs1_def [symmetric] Let_def)
      have "0 \<le> tokens ?b" "tokens ?b \<le> of_int (mc_Burst c)" "last_seen ?b = t"
        using c by (simp_all add: valid_config_def)
      note step = spend_token_step [OF sp inv1 this]
      show ?thesis using step False avB av1 by auto
    qed
  next
    case (Some b)
    let ?b = "refill c t b"
    have sp: "spend_token c key ?b bs = (r, bs')" using call Some by (simp add: Memory_Allow_def)
    have b: "0 \<le> tokens b" "tokens b \<le> of_int (mc_Burst c)" "last_seen b \<le> t"
      using inv' Some by (auto simp: Memory_inv_def)
    have "0 \<le> tokens ?b" "tokens ?b \<le> of_int (mc_Burst c)" "last_seen ?b = t"
      using b c elapsed_nonneg [OF c b(3)] by (auto simp: refill_def valid_config_def)
    note step = spend_token_step [OF sp inv' this]
    have "tokens ?b = avail c bs key t"
      using Some b by (auto simp: avail_def refill_def min_def)
    then show ?thesis using step Some by auto
  qed
  then show "Memory_inv c t bs'"
    and "avail c bs' key t = avail c bs key t - (if r = None then 1 else 0)"
    and "k \<noteq> key \<Longrightarrow> t \<le> t' \<Longrightarrow> avail c bs' k t' = avail c bs k t'"
    and "r = None \<Longrightarrow> avail c bs key t \<ge> 1" by blast+
qed

section \<open>The rate\<close>

text \<open>How many calls on a key a run allowed.\<close>

definition allowed :: "string \<Rightarrow> (time \<times> string) list \<Rightarrow> error option list \<Rightarrow> nat" where
  "allowed key cs rs = length (filter (\<lambda>((t, k), r). k = key \<and> r = None) (zip cs rs))"

fun timed :: "time \<Rightarrow> (time \<times> string) list \<Rightarrow> bool" where
  "timed t0 [] = True"
| "timed t0 ((t, k) # cs) = (t0 \<le> t \<and> timed t cs)"

fun end_time :: "time \<Rightarrow> (time \<times> string) list \<Rightarrow> time" where
  "end_time t0 [] = t0"
| "end_time t0 ((t, k) # cs) = end_time t cs"

lemma end_time_ge: "timed t0 cs \<Longrightarrow> t0 \<le> end_time t0 cs"
  by (induction cs arbitrary: t0) (auto intro: order_trans)

lemma Memory_run_budget:
  assumes "valid_config c" and "Memory_inv c t0 bs" and "timed t0 cs"
    and "Memory_run c cs bs = (rs, bs')"
  shows "Memory_inv c (end_time t0 cs) bs' \<and>
     of_nat (allowed key cs rs) + avail c bs' key (end_time t0 cs) \<le>
       avail c bs key t0 + of_int (end_time t0 cs - t0) / of_int (mc_Interval c)"
  using assms(2-4)
proof (induction cs arbitrary: t0 bs rs)
  case Nil
  then show ?case by (simp add: allowed_def)
next
  case (Cons tk cs)
  obtain t k where tk: "tk = (t, k)" by (cases tk)
  obtain r bs1 where call: "Memory_Allow c t k bs = (r, bs1)" by fastforce
  from Cons.prems call tk obtain rs' where run: "Memory_run c cs bs1 = (rs', bs')"
    and eqs: "rs = r # rs'" and t: "t0 \<le> t" and tm: "timed t cs"
    by (auto split: prod.splits)
  note step = Memory_Allow_step [OF assms(1) Cons.prems(1) t call]
  note IH = Cons.IH [OF step(1) tm run]
  have "avail c bs1 key t \<le> avail c bs key t - (if k = key \<and> r = None then 1 else 0)"
    using step(2) step(3) [of key t] by (cases "k = key") auto
  moreover have "avail c bs key t \<le> avail c bs key t0 + of_int (t - t0) / of_int (mc_Interval c)"
    by (rule avail_refills [OF assms(1) t])
  moreover have "allowed key (tk # cs) rs = (if k = key \<and> r = None then 1 else 0) + allowed key cs rs'"
    by (simp add: allowed_def eqs tk)
  moreover have "of_int (end_time t cs - t0) / (of_int (mc_Interval c) :: rat) =
      of_int (end_time t cs - t) / of_int (mc_Interval c) + of_int (t - t0) / of_int (mc_Interval c)"
    by (simp add: add_divide_distrib [symmetric])
  ultimately show ?case using IH by (auto simp: tk eqs)
qed

lemma Memory_inv_empty: "valid_config c \<Longrightarrow> Memory_inv c t []"
  by (simp add: Memory_inv_def valid_config_def)

lemma Memory_only_refuses: "only_refuses (NewMemory c)"
  by (auto simp: only_refuses_def NewMemory_def Memory_Allow_def spend_token_def Let_def
      split: option.splits if_splits)

text \<open>
  A refusal names a wait after which the key has a whole token again, provided nothing else is
  spent on it meanwhile.
\<close>

lemma refusal_of_bucket:
  assumes c: "valid_config c" and inv: "Memory_inv c t0 bs" and t: "t0 \<le> t"
    and key: "map_of bs key \<noteq> None"
    and call: "Memory_Allow c t key bs = (Some e, bs')"
  shows "e = RateLimitError key (floor ((1 - avail c bs key t) * of_int (mc_Interval c)))"
    and "avail c bs key t < 1"
proof -
  obtain b where b: "map_of bs key = Some b" using key by (auto simp: not_None_eq)
  have "0 \<le> tokens b" "tokens b \<le> of_int (mc_Burst c)" "last_seen b \<le> t"
    using inv b t by (fastforce simp: Memory_inv_def)+
  then have "tokens (refill c t b) = avail c bs key t"
    using b by (auto simp: avail_def refill_def min_def)
  with call b show "e = RateLimitError key (floor ((1 - avail c bs key t) * of_int (mc_Interval c)))"
    and "avail c bs key t < 1"
    by (auto simp: Memory_Allow_def spend_token_def split: if_splits)
qed

end
