(* ===== verification/LimitProps.thy ===== *)
theory LimitProps
  imports TokenBucket
begin

text \<open>
  What the rate limiter guarantees: the number of calls it allows on a key in any run, the isolation
  of keys and the bound on the table, and how \<open>AllowEach\<close> charges several keys at once.
\<close>

text \<open>
  C37. The rate: in any run of calls in the order of the clock, on any mixture of keys, a fresh limiter
  with any configuration, defaults filled in, allows on one key at most the burst plus one call per
  interval elapsed; and it never tracks more keys than the cap.
\<close>

theorem rate_limit_bound:
  assumes "timed t0 cs" and "Memory_run (mc_withDefaults c) cs [] = (rs, bs)"
  shows "of_nat (allowed key cs rs) \<le>
       of_int (mc_Burst (mc_withDefaults c)) +
       of_int (end_time t0 cs - t0) / (of_int (mc_Interval (mc_withDefaults c)) :: rat) \<and>
     int (Memory_Len bs) \<le> mc_MaxKeys (mc_withDefaults c)"
proof -
  let ?c = "mc_withDefaults c"
  have c: "valid_config ?c" by (rule valid_withDefaults)
  note run = Memory_run_budget [OF c Memory_inv_empty [OF c] assms]
  have "0 \<le> avail ?c bs key (end_time t0 cs)"
    using avail_nonneg [OF c conjunct1 [OF run]] by simp
  then show ?thesis
    using run [of key] avail_le_burst [of ?c "[]" key t0] by (auto simp: Memory_inv_def Memory_Len_def)
qed

definition demo_limit :: memory_config where
  "demo_limit = \<lparr>mc_Burst = 2, mc_Interval = minute, mc_MaxKeys = 0\<rparr>"

theorem rate_limit_bound_witness:
  "of_nat (allowed ''k'' [(0, ''k''), (1, ''k''), (2, ''k''), (3, ''j'')]
      (fst (Memory_run (mc_withDefaults demo_limit) [(0, ''k''), (1, ''k''), (2, ''k''), (3, ''j'')] []))) \<le>
    (2 :: rat) + 3 / of_int minute"
  using rate_limit_bound [of 0 "[(0, ''k''), (1, ''k''), (2, ''k''), (3, ''j'')]" demo_limit _ _ "''k''",
      OF _ prod.collapse [symmetric]]
  by (simp add: demo_limit_def mc_withDefaults_def DefaultMaxKeys_def duration_defs)

text \<open>
  C38. Every call is a step of an ideal token bucket per key: it is allowed exactly when the key has a
  whole token, and spends exactly that token; the one exception is a new key when every tracked key is
  under restriction, which is refused, never admitted untracked. Whatever else the call does, evicting
  included, no other key's budget changes, now or later.
\<close>

theorem limiter_is_token_bucket:
  assumes "valid_config c" and "Memory_inv c t0 bs" and "t0 \<le> t" and "Memory_Allow c t key bs = (r, bs')"
  shows "Memory_inv c t bs' \<and>
     avail c bs' key t = avail c bs key t - (if r = None then 1 else 0) \<and>
     (\<forall>k t'. k \<noteq> key \<longrightarrow> t \<le> t' \<longrightarrow> avail c bs' k t' = avail c bs k t') \<and>
     (r = None \<longrightarrow> 1 \<le> avail c bs key t) \<and>
     (r \<noteq> None \<longrightarrow> avail c bs key t < 1 \<or>
        (map_of bs key = None \<and> int (length (evictFullLocked c t bs)) \<ge> mc_MaxKeys c \<and>
         (\<forall>k b. map_of bs k = Some b \<longrightarrow> avail c bs k t < of_int (mc_Burst c))))"
proof -
  note step = Memory_Allow_step [OF assms]
  have "avail c bs key t < 1 \<or>
        (map_of bs key = None \<and> int (length (evictFullLocked c t bs)) \<ge> mc_MaxKeys c \<and>
         (\<forall>k b. map_of bs k = Some b \<longrightarrow> avail c bs k t < of_int (mc_Burst c)))" if r: "r \<noteq> None"
  proof (cases "map_of bs key")
    case (Some b)
    from r obtain e where e: "r = Some e" by (cases r) simp_all
    then show ?thesis using refusal_of_bucket(2) [OF assms(1-3) _ assms(4) [unfolded e]] Some by simp
  next
    case None
    with assms(1,4) r have full: "int (length bs) \<ge> mc_MaxKeys c" "int (length (evictFullLocked c t bs)) \<ge> mc_MaxKeys c"
      by (auto simp: Memory_Allow_def spend_token_def valid_config_def Let_def split: if_splits)
    have "tokens b + elapsed_tokens c t (last_seen b) < of_int (mc_Burst c)" if b: "map_of bs k = Some b" for k b
    proof (rule ccontr)
      assume "\<not> ?thesis"
      then have "length (evictFullLocked c t bs) < length bs"
        unfolding evictFullLocked_def by (intro length_filter_less [OF map_of_SomeD [OF b]]) simp
      then show False using full(2) assms(2) by (simp add: Memory_inv_def)
    qed
    then show ?thesis using None full(2) by (auto simp: avail_def)
  qed
  then show ?thesis using step by blast
qed

theorem limiter_is_token_bucket_witness:
  "fst (Memory_Allow (mc_withDefaults demo_limit) 5 ''k'' []) = None \<and>
   avail (mc_withDefaults demo_limit) (snd (Memory_Allow (mc_withDefaults demo_limit) 5 ''k'' [])) ''k'' 5 = 1"
proof -
  obtain r bs' where run: "Memory_Allow (mc_withDefaults demo_limit) 5 ''k'' [] = (r, bs')" by fastforce
  have r: "r = None" and full: "avail (mc_withDefaults demo_limit) [] ''k'' 5 = 2"
    using run by (auto simp: Memory_Allow_def spend_token_def avail_def demo_limit_def mc_withDefaults_def DefaultMaxKeys_def
        duration_defs Let_def)
  from limiter_is_token_bucket [OF valid_withDefaults Memory_inv_empty [OF valid_withDefaults] order_refl run] full r
  show ?thesis unfolding run by simp
qed

section \<open>Several keys\<close>

text \<open>
  \<open>AllowEach\<close> over the in-memory limiter charges every key: whatever the first key's verdict, the
  later ones are charged too, keys with nothing after the colon are skipped, the answer is the first
  refusal in the order of the keys, and nothing outside the limiter changes.
\<close>

theorem allow_each_charges_every_key:
  "AllowEach (NewMemory c) keys w =
     (case first_refusal (verdicts (NewMemory c) (limits w) (clock w) (metered keys)) of
        None \<Rightarrow> Inr () | Some e \<Rightarrow> Inl e,
      w\<lparr>limits := limits w @ map (\<lambda>k. (clock w, k)) (metered keys)\<rparr>)"
  by (rule AllowEach_verdicts) (rule Memory_only_refuses)

end
