(* ===== verification/Crypto.thy ===== *)
theory Crypto
  imports RateLimit
begin

text \<open>
  Package \<open>crypto\<close> as programs over the random source, and its password policies. bcrypt, Argon2id,
  the TOTP library and AES-GCM are parameters: a record \<open>hasher\<close> for the \<open>Hasher\<close> interface, a record
  \<open>totp_lib\<close> for \<open>github.com/pquerna/otp\<close> and a record \<open>aead\<close> for the cipher.
\<close>

section \<open>Drawing identifiers, tokens and codes\<close>

definition NewID :: "string prog" where
  "NewID = seq (rand_read 16) (\<lambda>buf. ret (uuid_of buf))"

definition GenerateOpaqueToken :: "(string \<times> string) prog" where
  "GenerateOpaqueToken = seq (rand_read 32) (\<lambda>buf.
     let raw = b64url_encode buf in ret (raw, HashToken raw))"

definition GenerateStateToken :: "string prog" where
  "GenerateStateToken = seq (rand_read 32) (\<lambda>buf. ret (b64url_encode buf))"

definition GenerateUserCode :: "string prog" where
  "GenerateUserCode = seq (rand_read 8) (\<lambda>buf. ret (user_code_of buf))"

text \<open>
  The rejection loop of \<open>GenerateNumericCode\<close>. It draws again until the code is full; \<open>fuel\<close> bounds
  the number of draws.
\<close>

fun numeric_loop :: "nat \<Rightarrow> nat \<Rightarrow> string \<Rightarrow> string prog" where
  "numeric_loop 0 n out = (if length out < n then raise (Fault ''out of fuel'') else ret out)"
| "numeric_loop (Suc fuel) n out =
     (if length out < n
      then seq (rand_read n) (\<lambda>buf. numeric_loop fuel n (code_digits n buf out))
      else ret out)"

definition GenerateNumericCode :: "nat \<Rightarrow> int \<Rightarrow> string prog" where
  "GenerateNumericCode fuel n = (if n \<le> 0 then ret '''' else numeric_loop fuel (nat n) '''')"

definition HashBackupCode :: "string \<Rightarrow> string" where "HashBackupCode code = HashToken code"

definition BackupCodeBytes :: nat where "BackupCodeBytes = 8"

fun GenerateBackupCodes :: "nat \<Rightarrow> string list prog" where
  "GenerateBackupCodes 0 = ret []"
| "GenerateBackupCodes (Suc n) =
     seq (rand_read BackupCodeBytes) (\<lambda>buf.
       seq (GenerateBackupCodes n) (\<lambda>codes. ret (hex_encode buf # codes)))"

section \<open>Secrets at rest (crypto/secret.go)\<close>

text \<open>\<open>gcm_open\<close> is \<open>None\<close> when authentication fails.\<close>

record aead =
  gcm_seal :: "byte list \<Rightarrow> byte list \<Rightarrow> string \<Rightarrow> byte list"
  gcm_open :: "byte list \<Rightarrow> byte list \<Rightarrow> byte list \<Rightarrow> string option"

definition NonceSize :: nat where "NonceSize = 12"

text \<open>\<open>gcm.Seal(nonce, nonce, ...)\<close> appends the sealed text to the nonce.\<close>

definition EncryptSecret :: "aead \<Rightarrow> byte list \<Rightarrow> string \<Rightarrow> byte list prog" where
  "EncryptSecret a key plaintext =
     (if length key \<noteq> 32 then raise InvalidKeySize
      else seq (rand_read NonceSize) (\<lambda>nonce. ret (nonce @ gcm_seal a key nonce plaintext)))"

definition DecryptSecret :: "aead \<Rightarrow> byte list \<Rightarrow> byte list \<Rightarrow> error + string" where
  "DecryptSecret a key ciphertext =
     (if length key \<noteq> 32 then Inl InvalidKeySize
      else if length ciphertext < NonceSize then Inl CiphertextTooShort
      else (case gcm_open a key (take NonceSize ciphertext) (drop NonceSize ciphertext) of
              None \<Rightarrow> Inl (Fault ''cipher: message authentication failed'')
            | Some plaintext \<Rightarrow> Inr plaintext))"

text \<open>The documented behaviour of the cipher: opening what was sealed gives it back.\<close>

definition aead_correct :: "aead \<Rightarrow> bool" where
  "aead_correct a \<longleftrightarrow>
     (\<forall>key nonce p. length key = 32 \<and> length nonce = NonceSize \<longrightarrow>
        gcm_open a key nonce (gcm_seal a key nonce p) = Some p)"

section \<open>One-time codes (crypto/totp.go)\<close>

text \<open>
  \<open>totp_generate\<close> makes a secret and its \<open>otpauth\<close> URL from random bytes, an issuer and an account;
  \<open>totp_validate\<close> is \<open>totp.Validate\<close>, which reads the clock.
\<close>

record totp_lib =
  totp_generate :: "byte list \<Rightarrow> string \<Rightarrow> string \<Rightarrow> error + (string \<times> string)"
  totp_validate :: "time \<Rightarrow> string \<Rightarrow> string \<Rightarrow> bool"

definition GenerateTOTPSecret :: "totp_lib \<Rightarrow> string \<Rightarrow> string \<Rightarrow> (string \<times> string) prog" where
  "GenerateTOTPSecret l issuer account =
     seq (rand_read 20) (\<lambda>buf. lift (totp_generate l buf issuer account))"

definition ValidateTOTPCode :: "totp_lib \<Rightarrow> time \<Rightarrow> string \<Rightarrow> string \<Rightarrow> bool" where
  "ValidateTOTPCode l t secret code = totp_validate l t secret code"

section \<open>Password hashing (crypto/hasher.go)\<close>

text \<open>The \<open>Hasher\<close> interface: \<open>Hash\<close> draws \<open>h_salt\<close> bytes of salt.\<close>

record hasher =
  h_salt :: nat
  h_Hash :: "byte list \<Rightarrow> string \<Rightarrow> error + string"
  h_Verify :: "string \<Rightarrow> string \<Rightarrow> bool"
  h_NeedsRehash :: "string \<Rightarrow> bool"

definition Hash :: "hasher \<Rightarrow> string \<Rightarrow> string prog" where
  "Hash h password = seq (rand_read (h_salt h)) (\<lambda>salt. lift (h_Hash h salt password))"

text \<open>The interface's documented obligation: what was hashed verifies.\<close>

definition hasher_correct :: "hasher \<Rightarrow> bool" where
  "hasher_correct h \<longleftrightarrow> (\<forall>salt p s. h_Hash h salt p = Inr s \<longrightarrow> h_Verify h p s)"

definition HasPrefix :: "string \<Rightarrow> string \<Rightarrow> bool" where
  "HasPrefix s p \<longleftrightarrow> take (length p) s = p"

section \<open>Password policies (crypto/policy.go)\<close>

text \<open>
  \<open>utf8.RuneCountInString\<close>: a well-formed sequence counts one, and so does every byte that starts
  none.
\<close>

definition in_range :: "nat \<Rightarrow> nat \<Rightarrow> nat list \<Rightarrow> nat \<Rightarrow> bool" where
  "in_range lo hi bs i \<longleftrightarrow> i < length bs \<and> lo \<le> bs ! i \<and> bs ! i \<le> hi"

definition rune_size :: "nat list \<Rightarrow> nat" where
  "rune_size bs =
     (let b = hd bs; c = in_range 0x80 0xBF bs in
      if 0xC2 \<le> b \<and> b \<le> 0xDF \<and> c 1 then 2
      else if b = 0xE0 \<and> in_range 0xA0 0xBF bs 1 \<and> c 2 then 3
      else if b = 0xED \<and> in_range 0x80 0x9F bs 1 \<and> c 2 then 3
      else if 0xE1 \<le> b \<and> b \<le> 0xEF \<and> b \<noteq> 0xED \<and> c 1 \<and> c 2 then 3
      else if b = 0xF0 \<and> in_range 0x90 0xBF bs 1 \<and> c 2 \<and> c 3 then 4
      else if b = 0xF4 \<and> in_range 0x80 0x8F bs 1 \<and> c 2 \<and> c 3 then 4
      else if 0xF1 \<le> b \<and> b \<le> 0xF3 \<and> c 1 \<and> c 2 \<and> c 3 then 4
      else 1)"

lemma rune_size_pos: "0 < rune_size bs"
  by (simp add: rune_size_def Let_def)

function rune_count :: "nat list \<Rightarrow> nat" where
  "rune_count bs = (if bs = [] then 0 else 1 + rune_count (drop (rune_size bs) bs))"
  by pat_completeness auto

termination
  by (relation "measure length") (use rune_size_pos in \<open>auto simp: diff_less\<close>)

declare rune_count.simps [simp del]

definition RuneCountInString :: "string \<Rightarrow> int" where
  "RuneCountInString s = int (rune_count (map of_char s))"

type_synonym validator = "string \<Rightarrow> string \<Rightarrow> error option"

definition DefaultMinPasswordLength :: int where "DefaultMinPasswordLength = 12"
definition DefaultMaxPasswordLength :: int where "DefaultMaxPasswordLength = 1024"

text \<open>\<open>%d\<close> of a natural number.\<close>

fun decimal :: "nat \<Rightarrow> string" where
  "decimal n = (if n < 10 then [''0123456789'' ! n] else decimal (n div 10) @ [''0123456789'' ! (n mod 10)])"

declare decimal.simps [simp del]

definition decimal_int :: "int \<Rightarrow> string" where
  "decimal_int n = (if n < 0 then CHR ''-'' # decimal (nat (- n)) else decimal (nat n))"

definition LengthPolicy :: "int \<Rightarrow> int \<Rightarrow> validator" where
  "LengthPolicy lo hi email password =
     (let hi = (if hi \<le> 0 then DefaultMaxPasswordLength else hi);
          n = RuneCountInString password
      in if n < lo then Some (WeakPassword (''must be at least '' @ decimal_int lo @ '' characters''))
         else if n > hi then Some (WeakPassword (''must be at most '' @ decimal_int hi @ '' characters''))
         else None)"

definition DefaultPasswordPolicy :: validator where
  "DefaultPasswordPolicy = LengthPolicy DefaultMinPasswordLength DefaultMaxPasswordLength"

text \<open>\<open>strings.Cut(email, "@")\<close> and \<open>strings.Contains\<close>.\<close>

definition cut_at :: "string \<Rightarrow> string option" where
  "cut_at email = (if CHR ''@'' \<in> set email then Some (takeWhile (\<lambda>c. c \<noteq> CHR ''@'') email) else None)"

fun contains_sub :: "string \<Rightarrow> string \<Rightarrow> bool" where
  "contains_sub [] p = (p = [])"
| "contains_sub (c # s) p = (HasPrefix (c # s) p \<or> contains_sub s p)"

definition NotEmailPolicy :: validator where
  "NotEmailPolicy email password =
     (case cut_at email of
        None \<Rightarrow> None
      | Some local \<Rightarrow>
          (if length local < 3 then None
           else if contains_sub (ToLower password) (ToLower local)
             then Some (WeakPassword ''must not contain your email address'')
           else None))"

text \<open>A nil validator is \<open>None\<close>.\<close>

fun AllPolicies :: "validator option list \<Rightarrow> validator" where
  "AllPolicies [] email password = None"
| "AllPolicies (v # vs) email password =
     (case v of
        None \<Rightarrow> AllPolicies vs email password
      | Some f \<Rightarrow> (case f email password of Some e \<Rightarrow> Some e | None \<Rightarrow> AllPolicies vs email password))"

section \<open>Properties\<close>

lemma list_of_length: "length xs = Suc n \<Longrightarrow> \<exists>y ys. xs = y # ys \<and> length ys = n"
  by (cases xs) auto

lemma length8E:
  assumes "length xs = 8"
  obtains a b c d e f g h where "xs = [a, b, c, d, e, f, g, h]"
  using assms by (auto simp: eval_nat_numeral length_Suc_conv)

text \<open>Draws leave the stores alone.\<close>

context db_order
begin

lemma keeps_NewID [keeps_rules]: "keeps R NewID"
  unfolding NewID_def by (intro keeps_rules)

lemma keeps_GenerateOpaqueToken [keeps_rules]: "keeps R GenerateOpaqueToken"
  unfolding GenerateOpaqueToken_def Let_def by (intro keeps_rules)

lemma keeps_GenerateUserCode [keeps_rules]: "keeps R GenerateUserCode"
  unfolding GenerateUserCode_def by (intro keeps_rules)

lemma keeps_Hash [keeps_rules]: "keeps R (Hash h p)"
  unfolding Hash_def by (intro keeps_rules)

lemma keeps_EncryptSecret [keeps_rules]: "keeps R (EncryptSecret a k p)"
  unfolding EncryptSecret_def by (intro keeps_rules)

lemma keeps_GenerateTOTPSecret [keeps_rules]: "keeps R (GenerateTOTPSecret l i a)"
  unfolding GenerateTOTPSecret_def by (intro keeps_rules)

lemma keeps_GenerateBackupCodes [keeps_rules]: "keeps R (GenerateBackupCodes n)"
  by (induction n) (simp_all, (intro keeps_rules; assumption)+)

lemma keeps_numeric_loop: "keeps R (numeric_loop fuel n out)"
  by (induction fuel arbitrary: out) (simp_all add: keeps_rules)

lemma keeps_GenerateNumericCode [keeps_rules]: "keeps R (GenerateNumericCode fuel n)"
  unfolding GenerateNumericCode_def by (intro keeps_rules keeps_numeric_loop)

end

text \<open>A draw on a fault-free world, evaluated.\<close>

definition draw :: "nat \<Rightarrow> world \<Rightarrow> byte list" where
  "draw n w = map (\<lambda>k. rsrc w (rpos w + k)) [0..<n]"

lemma draw_length [simp]: "length (draw n w) = n"
  by (simp add: draw_def)

lemma draw_frame [simp]:
  "draw n (w\<lparr>faults := fs\<rparr>) = draw n w" "draw n (w\<lparr>db := d\<rparr>) = draw n w"
  "draw n (w\<lparr>trail := t\<rparr>) = draw n w" "draw n (w\<lparr>limits := l\<rparr>) = draw n w"
  by (simp_all add: draw_def)

lemma NewIDE [elim!]:
  assumes "NewID w = (r, w')"
  obtains e fs where "r = Inl (Fault e)" and "w' = w\<lparr>faults := fs\<rparr>"
  | fs where "r = Inr (uuid_of (draw 16 w))" and "w' = w\<lparr>faults := fs, rpos := rpos w + 16\<rparr>"
  using assms unfolding NewID_def by (auto simp: draw_def)

lemma GenerateOpaqueTokenE [elim!]:
  assumes "GenerateOpaqueToken w = (r, w')"
  obtains e fs where "r = Inl (Fault e)" and "w' = w\<lparr>faults := fs\<rparr>"
  | fs where "r = Inr (b64url_encode (draw 32 w), HashToken (b64url_encode (draw 32 w)))"
      and "w' = w\<lparr>faults := fs, rpos := rpos w + 32\<rparr>"
  using assms unfolding GenerateOpaqueToken_def Let_def by (auto simp: draw_def)

lemma HashE [elim!]:
  assumes "Hash h p w = (r, w')"
  obtains e fs where "r = Inl (Fault e)" and "w' = w\<lparr>faults := fs\<rparr>"
  | fs where "r = h_Hash h (draw (h_salt h) w) p" and "w' = w\<lparr>faults := fs, rpos := rpos w + h_salt h\<rparr>"
  using assms unfolding Hash_def by (auto simp: draw_def)

lemma NewID_run [simp]:
  "faults w = [] \<Longrightarrow> NewID w = (Inr (uuid_of (draw 16 w)), w\<lparr>rpos := rpos w + 16\<rparr>)"
  by (simp add: NewID_def seq_def on_def ret_def draw_def)

lemma GenerateOpaqueToken_run [simp]:
  "faults w = [] \<Longrightarrow> GenerateOpaqueToken w =
     (Inr (b64url_encode (draw 32 w), HashToken (b64url_encode (draw 32 w))), w\<lparr>rpos := rpos w + 32\<rparr>)"
  by (simp add: GenerateOpaqueToken_def Let_def seq_def on_def ret_def draw_def)

lemma Hash_run [simp]:
  "faults w = [] \<Longrightarrow> Hash h p w = (h_Hash h (draw (h_salt h) w) p, w\<lparr>rpos := rpos w + h_salt h\<rparr>)"
  by (simp add: Hash_def seq_def on_def lift_def draw_def)

end
