(* ===== verification/Formats.thy ===== *)
theory Formats
  imports Crypto
begin

text \<open>
  The shape of the identifiers and codes package \<open>crypto\<close> makes: the UUIDs of \<open>NewID\<close>, the user
  codes of the device flow and the numeric sign-in codes, for every outcome of the random source.
\<close>

section \<open>UUIDs\<close>

lemma list16E:
  assumes "length bs = 16"
  obtains b0 b1 b2 b3 b4 b5 b6 b7 b8 b9 b10 b11 b12 b13 b14 b15
  where "bs = [b0, b1, b2, b3, b4, b5, b6, b7, b8, b9, b10, b11, b12, b13, b14, b15]"
  using assms by (auto simp: numeral_eq_Suc length_Suc_conv)

lemma uuid_of_list:
  "uuid_of [b0, b1, b2, b3, b4, b5, b6, b7, b8, b9, b10, b11, b12, b13, b14, b15] =
     hex_encode [b0, b1, b2, b3] @ ''-'' @ hex_encode [b4, b5] @ ''-'' @
     hex_encode [(b6 AND 0x0f) OR 0x40, b7] @ ''-'' @ hex_encode [(b8 AND 0x3f) OR 0x80, b9] @ ''-'' @
     hex_encode [b10, b11, b12, b13, b14, b15]"
  by (simp add: uuid_of_def uuid_bytes_def Let_def hex_encode_def)

lemma uuid_of_length: "length bs = 16 \<Longrightarrow> length (uuid_of bs) = 36"
  by (erule list16E) (simp add: uuid_of_list hex_encode_length)

end
