(* ===== verification/FormatProps.thy ===== *)
theory FormatProps
  imports Formats
begin

text \<open>
  The identifiers and codes package \<open>crypto\<close> makes, for every outcome of the random source: version-4
  UUIDs that keep all the other bits, device-flow user codes of the documented shape, and numeric codes
  that are the accepted bytes of the source in order, when enough of them come.
\<close>

section \<open>UUIDs\<close>

lemma version_nibble: "unat (drop_bit 4 ((b AND 0x0f) OR 0x40 :: byte)) = 4"
  by (simp add: drop_bit_or drop_bit_and)

lemma low_two: "unat (x AND 3 :: byte) \<in> {0, 1, 2, 3}"
proof -
  have "x AND 3 = x mod 4" by (simp add: take_bit_eq_mask mask_eq_exp_minus_1 flip: take_bit_eq_mod [of 2, simplified])
  then have "unat (x AND 3) = unat x mod 4" by (simp add: unat_mod_distrib)
  then show ?thesis by (simp add: insert_iff) linarith
qed

lemma variant_nibble: "unat (drop_bit 4 ((b AND 0x3f) OR 0x80 :: byte)) \<in> {8, 9, 10, 11}"
proof -
  define x where "x = drop_bit 4 b AND (3 :: byte)"
  have "drop_bit 4 ((b AND 0x3f) OR 0x80 :: byte) = x OR 8" by (simp add: drop_bit_or drop_bit_and x_def)
  moreover have "x = of_nat (unat x)" by simp
  moreover have "unat x = 0 \<or> unat x = 1 \<or> unat x = 2 \<or> unat x = 3"
    using low_two [of "drop_bit 4 b"] unfolding x_def by simp
  ultimately have "drop_bit 4 ((b AND 0x3f) OR 0x80 :: byte) \<in> {0 OR 8, 1 OR 8, 2 OR 8, 3 OR 8}"
    by (elim disjE) simp_all
  then show ?thesis by auto
qed

lemma uuid_text_inj:
  assumes "length bs = 16" and "length cs = 16" and "uuid_text 0 bs = uuid_text 0 cs" shows "bs = cs"
proof -
  from assms(1) obtain b0 b1 b2 b3 b4 b5 b6 b7 b8 b9 b10 b11 b12 b13 b14 b15
    where b: "bs = [b0, b1, b2, b3, b4, b5, b6, b7, b8, b9, b10, b11, b12, b13, b14, b15]" by (rule list16E)
  from assms(2) obtain c0 c1 c2 c3 c4 c5 c6 c7 c8 c9 c10 c11 c12 c13 c14 c15
    where c: "cs = [c0, c1, c2, c3, c4, c5, c6, c7, c8, c9, c10, c11, c12, c13, c14, c15]" by (rule list16E)
  show ?thesis using assms(3) unfolding b c by (auto intro: hex_byte_inj)
qed

lemma uuid_bytes_length: "length (uuid_bytes bs) = length bs"
  by (simp add: uuid_bytes_def Let_def)

text \<open>
  An identifier is a version-4 UUID and loses nothing else: it has 36 characters with the dashes and
  the version digit in place, and two identifiers are equal only when the random bytes agree in every
  bit but the four of the version and the two of the variant.
\<close>

theorem new_id_is_uuid4:
  assumes "NewID w = (Inr i, w')" and "NewID v = (Inr j, v')"
  shows "length i = 36 \<and> i ! 8 = CHR ''-'' \<and> i ! 13 = CHR ''-'' \<and> i ! 14 = CHR ''4'' \<and> i ! 18 = CHR ''-'' \<and>
     i ! 23 = CHR ''-'' \<and> i ! 19 \<in> set ''89ab'' \<and>
     (i = j \<longleftrightarrow> uuid_bytes (draw 16 w) = uuid_bytes (draw 16 v))"
proof -
  have i: "i = uuid_of (draw 16 w)" and j: "j = uuid_of (draw 16 v)" using assms by auto
  obtain b0 b1 b2 b3 b4 b5 b6 b7 b8 b9 b10 b11 b12 b13 b14 b15
    where b: "draw 16 w = [b0, b1, b2, b3, b4, b5, b6, b7, b8, b9, b10, b11, b12, b13, b14, b15]"
    using list16E [OF draw_length] by blast
  have "i = j \<longleftrightarrow> uuid_bytes (draw 16 w) = uuid_bytes (draw 16 v)"
    using uuid_text_inj [of "uuid_bytes (draw 16 w)" "uuid_bytes (draw 16 v)"]
    by (auto simp: i j uuid_of_def uuid_bytes_length)
  moreover have "length i = 36 \<and> i ! 8 = CHR ''-'' \<and> i ! 13 = CHR ''-'' \<and> i ! 14 = CHR ''4'' \<and> i ! 18 = CHR ''-'' \<and>
     i ! 23 = CHR ''-'' \<and> i ! 19 \<in> set ''89ab''"
    using version_nibble [of b6] variant_nibble [of b8]
    by (auto simp: i b uuid_of_list hex_encode_def hex_byte_def hex_digits_def)
  ultimately show ?thesis by blast
qed

theorem new_id_is_uuid4_witness:
  "\<exists>i w'. NewID (world0 0) = (Inr i, w') \<and> length i = 36 \<and> i ! 14 = CHR ''4''"
proof -
  obtain i w' where run: "NewID (world0 0) = (Inr i, w')" by (simp add: world0_def)
  from new_id_is_uuid4 [OF run run] have "length i = 36" and "i ! 14 = CHR ''4''" by (simp_all only: simp_thms)
  with run show ?thesis by (intro exI [of _ i] exI [of _ w']) simp
qed

section \<open>User codes\<close>

text \<open>
  A user code has the shape \<open>XXXX-XXXX\<close> over the vowel-free alphabet, whatever bytes the source gives.
\<close>

theorem user_code_shape:
  assumes "GenerateUserCode w = (Inr code, w')"
  shows "length code = 9 \<and> code ! 4 = CHR ''-'' \<and> (\<forall>k < 9. k \<noteq> 4 \<longrightarrow> code ! k \<in> set userCodeAlphabet)"
proof -
  from assms have c: "code = user_code_of (draw 8 w)"
    unfolding GenerateUserCode_def by (auto simp: draw_def)
  obtain b0 b1 b2 b3 b4 b5 b6 b7 where b: "draw 8 w = [b0, b1, b2, b3, b4, b5, b6, b7]"
    using draw_length [of 8 w] by (auto simp: numeral_eq_Suc length_Suc_conv simp del: draw_length)
  have mem: "userCodeAlphabet ! (unat x mod length userCodeAlphabet) \<in> set userCodeAlphabet" for x :: byte
    by (rule nth_mem) (simp add: userCodeAlphabet_def)
  define f where "f x = userCodeAlphabet ! (unat x mod length userCodeAlphabet)" for x :: byte
  have code: "code = [f b0, f b1, f b2, f b3, CHR ''-'', f b4, f b5, f b6, f b7]"
    unfolding c b user_code_of_def f_def [symmetric] by (simp add: numeral_eq_Suc f_def [symmetric])
  show ?thesis
    unfolding code using mem [folded f_def] by (auto simp: less_Suc_eq numeral_eq_Suc)
qed

theorem user_code_shape_witness:
  "\<exists>code w'. GenerateUserCode (world0 0) = (Inr code, w') \<and> length code = 9 \<and> code ! 4 = CHR ''-''"
proof -
  obtain code w' where run: "GenerateUserCode (world0 0) = (Inr code, w')"
    by (simp add: GenerateUserCode_def seq_def on_def ret_def world0_def)
  from user_code_shape [OF run] run show ?thesis by blast
qed

section \<open>Numeric codes\<close>

definition accepted :: "byte list \<Rightarrow> string" where
  "accepted bs = map (\<lambda>b. ''0123456789'' ! (unat b mod 10)) (filter (\<lambda>b. unat b < 250) bs)"

lemma accepted_append: "accepted (bs @ cs) = accepted bs @ accepted cs"
  by (simp add: accepted_def)

lemma code_digits_accepted:
  "length out < n \<Longrightarrow> code_digits n bs out = out @ take (n - length out) (accepted bs)"
proof (induction bs arbitrary: out)
  case Nil
  then show ?case by (simp add: accepted_def)
next
  case (Cons b bs)
  show ?case
  proof (cases "unat b < 250 \<and> length out + 1 < n")
    case True
    then have "n - length out = Suc (n - (length out + 1))" by linarith
    then show ?thesis using True Cons.IH [of "out @ [''0123456789'' ! (unat b mod 10)]"]
      by (simp add: accepted_def Let_def)
  next
    case False
    show ?thesis
    proof (cases "unat b < 250")
      case True
      with False Cons.prems have "n = Suc (length out)" by simp
      then show ?thesis using True by (simp add: accepted_def Let_def)
    next
      case False
      then show ?thesis using Cons by (simp add: accepted_def)
    qed
  qed
qed

lemma draw_split: "draw (m + n) w = draw m w @ draw n (w\<lparr>rpos := rpos w + m\<rparr>)"
  by (rule nth_equalityI) (auto simp: draw_def nth_append)

lemma numeric_loop_samples:
  "faults w = [] \<Longrightarrow> length out \<le> n \<Longrightarrow> n - length out \<le> length (accepted (draw (fuel * n) w)) \<Longrightarrow>
   \<exists>w'. numeric_loop fuel n out w = (Inr (out @ take (n - length out) (accepted (draw (fuel * n) w))), w')"
proof (induction fuel arbitrary: out w)
  case 0
  then show ?case by (simp add: accepted_def draw_def)
next
  case (Suc fuel)
  show ?case
  proof (cases "length out < n")
    case False
    then show ?thesis using Suc.prems(2) by simp
  next
    case True
    let ?w = "w\<lparr>rpos := rpos w + n\<rparr>" and ?out = "code_digits n (draw n w) out"
    note out = code_digits_accepted [OF True, of "draw n w"]
    have split: "accepted (draw (Suc fuel * n) w) = accepted (draw n w) @ accepted (draw (fuel * n) ?w)"
      by (simp add: draw_split accepted_append)
    have run: "numeric_loop (Suc fuel) n out w = numeric_loop fuel n ?out ?w"
      using True Suc.prems(1) by (simp add: seq_def on_def draw_def)
    have len: "length ?out \<le> n" "n - length ?out = n - length out - length (accepted (draw n w))"
      using True by (auto simp: out min_def)
    have "n - length ?out \<le> length (accepted (draw (fuel * n) ?w))"
      using Suc.prems(3) unfolding split len(2) by simp
    from Suc.IH [OF _ len(1) this] Suc.prems(1) show ?thesis
      unfolding run len(2) split by (simp add: out)
  qed
qed

lemma accepted_digits: "set (accepted bs) \<subseteq> set ''0123456789''"
  unfolding accepted_def by (auto intro!: nth_mem simp del: set_simps)

text \<open>
  C39. A numeric code is exactly the first \<open>n\<close> accepted bytes of the source, each folded to a digit: once
  the source has given \<open>n\<close> bytes below 250 the loop returns, with a code of exactly \<open>n\<close> decimal digits.
\<close>

theorem numeric_code_samples:
  assumes "faults w = []" and "0 < n" and "nat n \<le> length (accepted (draw (fuel * nat n) w))"
  shows "\<exists>code w'. GenerateNumericCode fuel n w = (Inr code, w') \<and> length code = nat n \<and>
     set code \<subseteq> set ''0123456789'' \<and> code = take (nat n) (accepted (draw (fuel * nat n) w))"
proof -
  obtain w' where run: "GenerateNumericCode fuel n w = (Inr (take (nat n) (accepted (draw (fuel * nat n) w))), w')"
    using numeric_loop_samples [OF assms(1), of "[]" "nat n" fuel] assms(2,3) by (auto simp: GenerateNumericCode_def)
  moreover have "set (take (nat n) (accepted bs)) \<subseteq> set ''0123456789''" for bs
    using accepted_digits [of bs] set_take_subset by (rule subset_trans [rotated])
  ultimately show ?thesis using assms(3) by (auto simp: min_def simp del: set_simps)
qed

theorem numeric_code_samples_witness:
  "\<exists>w'. GenerateNumericCode 1 6 (world0 0) = (Inr ''012345'', w')"
proof -
  have "accepted (draw 6 (world0 0)) = ''012345''" by (simp add: draw_def world0_def accepted_def upt_rec)
  with numeric_code_samples [of "world0 0" 6 1] show ?thesis by (auto simp: world0_def)
qed

end
