(* ===== verification/UserService.thy ===== *)
theory UserService
  imports Crypto
begin

text \<open>
  Package \<open>user\<close>: the configuration, the service, its hooks (\<open>config.go\<close>, \<open>service.go\<close>, \<open>hooks.go\<close>,
  \<open>types.go\<close>, \<open>claims.go\<close>), the session model they share (\<open>issueSession\<close>,
  \<open>createPendingTwoFactorSession\<close>) and the checks several flows make (\<open>throttled\<close>,
  \<open>checkMembership\<close>, \<open>requireActiveMembership\<close>, \<open>revokeFamilyOnReuse\<close>).
\<close>

section \<open>Configuration\<close>

datatype session_mode = SessionModeJWT | SessionModeOpaque

datatype verification_policy = EmailVerificationRequired | EmailVerificationOptional

text \<open>A nil hook is \<open>None\<close>; a hook that returns nil answers \<open>None\<close>.\<close>

record hooks =
  hk_BeforeRegister :: "(string \<Rightarrow> error option) option"
  hk_AfterRegister :: "(user \<Rightarrow> error option) option"
  hk_BeforeAuthenticate :: "(string \<Rightarrow> error option) option"
  hk_AfterAuthenticate :: "(user \<Rightarrow> error option) option"
  hk_AfterPasswordChange :: "(user \<Rightarrow> error option) option"

definition no_hooks :: hooks where
  "no_hooks = \<lparr>hk_BeforeRegister = None, hk_AfterRegister = None, hk_BeforeAuthenticate = None,
     hk_AfterAuthenticate = None, hk_AfterPasswordChange = None\<rparr>"

definition call_hook :: "('a \<Rightarrow> error option) option \<Rightarrow> 'a \<Rightarrow> unit prog" where
  "call_hook h x = (case h of None \<Rightarrow> ret () | Some f \<Rightarrow> check (f x))"

record user_config =
  uc_SessionMode :: session_mode
  uc_SessionSlidingWindow :: duration
  uc_AccessTokenTTL :: duration
  uc_RefreshTokenTTL :: duration
  uc_PasswordResetTTL :: duration
  uc_EmailVerificationTTL :: duration
  uc_PendingTwoFactorTTL :: duration
  uc_MaxFailedLoginAttempts :: int
  uc_FailedLoginWindow :: duration
  uc_TOTPIssuer :: string
  uc_TOTPEncryptionKey :: "byte list"
  uc_BackupCodeCount :: int
  uc_EmailVerification :: verification_policy
  uc_PasswordHasher :: hasher
  uc_PasswordValidator :: validator
  uc_RateLimiter :: limiter
  uc_Hooks :: hooks

text \<open>
  \<open>Config.withDefaults\<close>. The hasher, validator and limiter of the record are the ones in use, so the
  three nil cases are resolved when the record is built.
\<close>

definition uc_withDefaults :: "user_config \<Rightarrow> user_config" where
  "uc_withDefaults c =
     (let c = (if uc_AccessTokenTTL c \<le> 0 then c\<lparr>uc_AccessTokenTTL := 15 * minute\<rparr> else c);
          c = (if uc_RefreshTokenTTL c \<le> 0 then c\<lparr>uc_RefreshTokenTTL := 7 * 24 * hour\<rparr> else c);
          c = (if uc_SessionSlidingWindow c = 0
               then c\<lparr>uc_SessionSlidingWindow := uc_RefreshTokenTTL c div 4\<rparr> else c);
          c = (if uc_PasswordResetTTL c \<le> 0 then c\<lparr>uc_PasswordResetTTL := hour\<rparr> else c);
          c = (if uc_EmailVerificationTTL c \<le> 0 then c\<lparr>uc_EmailVerificationTTL := 24 * hour\<rparr> else c);
          c = (if uc_PendingTwoFactorTTL c \<le> 0 then c\<lparr>uc_PendingTwoFactorTTL := 5 * minute\<rparr> else c);
          c = (if uc_MaxFailedLoginAttempts c \<le> 0 then c\<lparr>uc_MaxFailedLoginAttempts := 5\<rparr> else c);
          c = (if uc_FailedLoginWindow c \<le> 0 then c\<lparr>uc_FailedLoginWindow := 15 * minute\<rparr> else c);
          c = (if uc_TOTPIssuer c = '''' then c\<lparr>uc_TOTPIssuer := ''authit''\<rparr> else c);
          c = (if uc_BackupCodeCount c \<le> 0 then c\<lparr>uc_BackupCodeCount := 10\<rparr> else c)
      in c)"

section \<open>Claims and the signer (jwt/claims.go, jwt/signer.go, user/claims.go)\<close>

text \<open>
  The fields of \<open>RegisteredClaims\<close>, in its order, and the package's own. \<open>jwt.NewNumericDate\<close> cuts to whole seconds; the
  claims here carry the instants it is given, and what a token says of them is cut where it is signed.
\<close>

record claims =
  cl_Issuer :: string
  cl_Subject :: string
  cl_Audience :: "string list"
  cl_ExpiresAt :: "time option"
  cl_NotBefore :: "time option"
  cl_IssuedAt :: "time option"
  cl_ID :: string
  cl_Email :: string
  cl_ActorID :: string
  cl_TeamID :: string

definition IsImpersonation :: "claims \<Rightarrow> bool" where
  "IsImpersonation c \<longleftrightarrow> cl_ActorID c \<noteq> ''''"

text \<open>A \<open>Signer\<close>: what \<open>Sign\<close> makes of the claims, and its \<open>Defaults\<close>.\<close>

record signer =
  sg_Sign :: "claims \<Rightarrow> error + string"
  sg_Issuer :: string
  sg_TTL :: duration

definition applyDefaults :: "signer \<Rightarrow> time \<Rightarrow> claims \<Rightarrow> claims" where
  "applyDefaults g t c =
     (let c = (if cl_Issuer c = '''' then c\<lparr>cl_Issuer := sg_Issuer g\<rparr> else c);
          c = (if cl_ExpiresAt c = None then c\<lparr>cl_ExpiresAt := Some (t + sg_TTL g)\<rparr> else c)
      in if cl_IssuedAt c = None then c\<lparr>cl_IssuedAt := Some t\<rparr> else c)"

definition Generate :: "signer \<Rightarrow> claims \<Rightarrow> string prog" where
  "Generate g c = with_now (\<lambda>t. lift (sg_Sign g (applyDefaults g t c)))"

definition newAccessClaims :: "time \<Rightarrow> string \<Rightarrow> string \<Rightarrow> string option \<Rightarrow> time \<Rightarrow> claims" where
  "newAccessClaims t userID email teamID expiresAt =
     \<lparr>cl_Issuer = '''', cl_Subject = userID, cl_Audience = [], cl_ExpiresAt = Some expiresAt, cl_NotBefore = None,
      cl_IssuedAt = Some t, cl_ID = '''', cl_Email = email, cl_ActorID = '''',
      cl_TeamID = (case teamID of None \<Rightarrow> '''' | Some team \<Rightarrow> team)\<rparr>"

section \<open>The service\<close>

text \<open>
  \<open>sv_Tx\<close> and \<open>sv_Members\<close> say whether the optional \<open>Stores.Tx\<close> and \<open>Stores.Members\<close> are set.
\<close>

record service =
  sv_Tx :: bool
  sv_Members :: bool
  sv_signer :: signer
  sv_totp :: totp_lib
  sv_aead :: aead
  sv_cfg :: user_config

record token_pair =
  tp_AccessToken :: string
  tp_RefreshToken :: string
  tp_ExpiresAt :: time

record auth_result =
  ar_User :: user
  ar_Tokens :: "token_pair option"
  ar_RequiresTwoFactor :: bool
  ar_PendingTwoFactorToken :: string

definition txIf :: "service \<Rightarrow> bool \<Rightarrow> 'a prog \<Rightarrow> 'a prog" where
  "txIf s atomic f = (if \<not> atomic then f else RunInTx (sv_Tx s) f)"

section \<open>Issuing sessions\<close>

definition issueSession ::
  "service \<Rightarrow> string \<Rightarrow> string \<Rightarrow> string option \<Rightarrow> string \<Rightarrow> string \<Rightarrow> token_pair prog" where
  "issueSession s userID email teamID userAgent ipAddress =
     seq GenerateOpaqueToken (\<lambda>(rawRefresh, refreshHash).
     seq NewID (\<lambda>id.
     with_now (\<lambda>now.
       let rt = \<lparr>rt_ID = id, rt_UserID = userID, rt_TokenHash = refreshHash,
                 rt_ExpiresAt = now + uc_RefreshTokenTTL (sv_cfg s), rt_RevokedAt = None,
                 rt_UserAgent = userAgent, rt_IPAddress = ipAddress, rt_TeamID = teamID,
                 rt_CreatedAt = now\<rparr> in
       seq (CreateRefreshToken rt) (\<lambda>_.
         if uc_SessionMode (sv_cfg s) = SessionModeOpaque
         then ret \<lparr>tp_AccessToken = rawRefresh, tp_RefreshToken = '''', tp_ExpiresAt = rt_ExpiresAt rt\<rparr>
         else
           let expiresAt = now + uc_AccessTokenTTL (sv_cfg s) in
           seq (Generate (sv_signer s) (newAccessClaims now userID email teamID expiresAt)) (\<lambda>access.
             ret \<lparr>tp_AccessToken = access, tp_RefreshToken = rawRefresh, tp_ExpiresAt = expiresAt\<rparr>)))))"

definition issueTokenPair ::
  "service \<Rightarrow> string \<Rightarrow> string \<Rightarrow> string \<Rightarrow> string \<Rightarrow> token_pair prog" where
  "issueTokenPair s userID email userAgent ipAddress =
     issueSession s userID email None userAgent ipAddress"

definition createPendingTwoFactorSession :: "service \<Rightarrow> string \<Rightarrow> string prog" where
  "createPendingTwoFactorSession s userID =
     seq GenerateOpaqueToken (\<lambda>(raw, hash).
     seq NewID (\<lambda>id.
     with_now (\<lambda>now.
     seq (CreatePendingTwoFactorSession
            \<lparr>ps_ID = id, ps_UserID = userID, ps_TokenHash = hash,
             ps_ExpiresAt = now + uc_PendingTwoFactorTTL (sv_cfg s), ps_CreatedAt = now\<rparr>) (\<lambda>_.
       ret raw))))"

text \<open>
  The token a caller carries to name the session: the access token in opaque mode, the refresh
  token otherwise.
\<close>

definition session_token :: "service \<Rightarrow> token_pair \<Rightarrow> string" where
  "session_token s p =
     (if uc_SessionMode (sv_cfg s) = SessionModeOpaque then tp_AccessToken p else tp_RefreshToken p)"

section \<open>Lockout\<close>

definition throttled :: "service \<Rightarrow> string \<Rightarrow> bool prog" where
  "throttled s email = with_now (\<lambda>now.
     seq (CountRecentFailedLoginAttempts email (now - uc_FailedLoginWindow (sv_cfg s))) (\<lambda>count.
       ret (int count \<ge> uc_MaxFailedLoginAttempts (sv_cfg s))))"

definition checkLockoutAndFetchUser :: "service \<Rightarrow> string \<Rightarrow> (bool \<times> user option) prog" where
  "checkLockoutAndFetchUser s email =
     seq (throttled s email) (\<lambda>locked.
     on (GetUserByEmail email)
       (\<lambda>e. if e = ErrNotFound then ret (locked, None) else raise e)
       (\<lambda>u. if locked then ret (True, Some u)
            else seq (IsAccountLocked (u_ID u)) (\<lambda>locked. ret (locked, Some u))))"

definition recordFailedLogin :: "service \<Rightarrow> string \<Rightarrow> string \<Rightarrow> unit prog" where
  "recordFailedLogin s email ipAddress =
     on NewID (\<lambda>_. ret ()) (\<lambda>id. with_now (\<lambda>now.
       ignoring (RecordFailedLoginAttempt
         \<lparr>fa_ID = id, fa_Email = email, fa_IPAddress = ipAddress, fa_CreatedAt = now\<rparr>) (ret ())))"

section \<open>Audit helpers\<close>

definition auditRateLimited ::
  "event_type \<Rightarrow> string \<Rightarrow> string \<Rightarrow> string \<Rightarrow> string \<Rightarrow> unit prog" where
  "auditRateLimited t actorID email userAgent ipAddress =
     log ((event_of t ResultDenied)\<lparr>ev_ActorID := actorID, ev_Email := email,
       ev_UserAgent := userAgent, ev_IPAddress := ipAddress,
       ev_Metadata := [(''reason'', MStr ''rate_limited'')]\<rparr>)"

section \<open>Membership (user/team.go)\<close>

definition checkMembership :: "string \<Rightarrow> string \<Rightarrow> error \<Rightarrow> unit prog" where
  "checkMembership userID teamID refused =
     on (GetMemberByUserAndTeam userID teamID)
       (\<lambda>e. if e = ErrNotFound then raise refused else raise e)
       (\<lambda>m. if \<not> m_IsActive m then raise refused else ret ())"

definition requireActiveMembership :: "service \<Rightarrow> refresh_token \<Rightarrow> unit prog" where
  "requireActiveMembership s t =
     (case rt_TeamID t of
        None \<Rightarrow> ret ()
      | Some team \<Rightarrow>
          (if \<not> sv_Members s then ret ()
           else on (checkMembership (rt_UserID t) team (User ErrInvalidToken))
             (\<lambda>e. if e = User ErrInvalidToken \<and> rt_RevokedAt t = None
                  then ignoring (RevokeRefreshToken (rt_ID t))
                    (seq (log ((event_of EventUserSessionRevoked ResultSuccess)
                       \<lparr>ev_ActorID := rt_UserID t, ev_TargetID := rt_ID t,
                        ev_Metadata := [(''team_id'', MStr team), (''reason'', MStr ''membership_ended'')]\<rparr>))
                      (\<lambda>_. raise e))
                  else raise e)
             ret))"

definition revokeFamilyOnReuse :: "refresh_token \<Rightarrow> string \<Rightarrow> string \<Rightarrow> unit prog" where
  "revokeFamilyOnReuse t userAgent ipAddress =
     (let report = (\<lambda>result. log ((event_of EventUserTokenReuse result)
            \<lparr>ev_ActorID := rt_UserID t, ev_UserAgent := userAgent, ev_IPAddress := ipAddress,
             ev_Metadata := [(''refresh_token_id'', MStr (rt_ID t))]\<rparr>))
      in on (RevokeAllUserRefreshTokens (rt_UserID t)) (\<lambda>_. report ResultFailure)
           (\<lambda>_. report ResultSuccess))"

section \<open>What these leave alone\<close>

context db_order
begin

lemma keeps_Generate [keeps_rules]: "keeps R (Generate g c)"
  unfolding Generate_def by (intro keeps_rules)

lemma keeps_call_hook [keeps_rules]: "keeps R (call_hook h x)"
  unfolding call_hook_def by (intro keeps_rules)

lemma keeps_txIf [keeps_rules]: "keeps R m \<Longrightarrow> keeps R (txIf s atomic m)"
  unfolding txIf_def by (intro keeps_rules)

lemma keeps_auditRateLimited [keeps_rules]: "keeps R (auditRateLimited t a e ua ip)"
  unfolding auditRateLimited_def by (intro keeps_rules)

lemma keeps_throttled [keeps_rules]: "keeps R (throttled s e)"
  unfolding throttled_def CountRecentFailedLoginAttempts_def by (intro keeps_rules)

lemma keeps_checkLockoutAndFetchUser [keeps_rules]: "keeps R (checkLockoutAndFetchUser s e)"
  unfolding checkLockoutAndFetchUser_def port_defs by (intro keeps_rules)

lemma keeps_checkMembership [keeps_rules]: "keeps R (checkMembership u t e)"
  unfolding checkMembership_def port_defs by (intro keeps_rules)

end

lemma leaves_recordFailedLogin [leaves_rules]:
  "(\<And>d x. g (d\<lparr>lockouts := x\<rparr>) = g d) \<Longrightarrow> leaves g (recordFailedLogin s e ip)"
  unfolding recordFailedLogin_def port_defs by (intro keeps_rules leaves_rules)

lemma leaves_issueSession [leaves_rules]:
  "(\<And>d x. g (d\<lparr>refresh := x\<rparr>) = g d) \<Longrightarrow> leaves g (issueSession s u e t ua ip)"
  unfolding issueSession_def port_defs Let_def by (intro keeps_rules leaves_rules)

lemma leaves_createPending [leaves_rules]:
  "(\<And>d x. g (d\<lparr>pending := x\<rparr>) = g d) \<Longrightarrow> leaves g (createPendingTwoFactorSession s u)"
  unfolding createPendingTwoFactorSession_def port_defs by (intro keeps_rules leaves_rules)

lemma leaves_requireActiveMembership [leaves_rules]:
  "(\<And>d x. g (d\<lparr>refresh := x\<rparr>) = g d) \<Longrightarrow> leaves g (requireActiveMembership s t)"
  unfolding requireActiveMembership_def port_defs by (intro keeps_rules leaves_rules)

lemma leaves_revokeFamilyOnReuse [leaves_rules]:
  "(\<And>d x. g (d\<lparr>refresh := x\<rparr>) = g d) \<Longrightarrow> leaves g (revokeFamilyOnReuse t ua ip)"
  unfolding revokeFamilyOnReuse_def port_defs Let_def by (intro keeps_rules leaves_rules)

section \<open>What a check or an issue that answers has found\<close>

text \<open>The temporary lockout of an address, read off the attempts table.\<close>

definition locked_out :: "service \<Rightarrow> dbase \<Rightarrow> time \<Rightarrow> string \<Rightarrow> bool" where
  "locked_out s d t e \<longleftrightarrow>
     int (lo_count (lockouts d) e (t - uc_FailedLoginWindow (sv_cfg s))) \<ge>
       uc_MaxFailedLoginAttempts (sv_cfg s)"

lemma throttledE [elim!]:
  assumes "throttled s e w = (r, w')"
  obtains x fs where "r = Inl (Fault x)" and "w' = w\<lparr>faults := fs\<rparr>"
  | fs where "r = Inr (locked_out s (db w) (clock w) e)" and "w' = w\<lparr>faults := fs\<rparr>"
  using assms unfolding throttled_def port_defs
  by (auto simp: lo_count_def locked_out_def mem_CountRecentFailedLoginAttempts_def)

lemma throttled_run [simp]:
  "faults w = [] \<Longrightarrow> throttled s e w = (Inr (locked_out s (db w) (clock w) e), w)"
  by (simp add: throttled_def port_defs seq_def on_def ret_def locked_out_def lo_count_def
      mem_CountRecentFailedLoginAttempts_def)

lemma checkLockout_ok:
  assumes "checkLockoutAndFetchUser s e w = (Inr (b, u), w')"
  shows "mem_GetUserByEmail (users (db w)) e = (case u of None \<Rightarrow> Inl ErrNotFound | Some x \<Rightarrow> Inr x)"
    and "b \<longleftrightarrow> locked_out s (db w) (clock w) e \<or> (\<exists>x. u = Some x \<and> lo_locked (lockouts (db w)) (u_ID x))"
    and "w' = w\<lparr>faults := faults w'\<rparr>"
  using assms unfolding checkLockoutAndFetchUser_def
  by (auto simp: port_defs mem_IsAccountLocked_def split: if_splits)

text \<open>The row \<open>issueSession\<close> writes, and the token that names it.\<close>

definition session_row ::
  "service \<Rightarrow> string \<Rightarrow> string option \<Rightarrow> string \<Rightarrow> string \<Rightarrow> world \<Rightarrow> refresh_token" where
  "session_row s userID teamID userAgent ipAddress w =
     \<lparr>rt_ID = uuid_of (draw 16 (w\<lparr>rpos := rpos w + 32\<rparr>)), rt_UserID = userID,
      rt_TokenHash = HashToken (b64url_encode (draw 32 w)),
      rt_ExpiresAt = clock w + uc_RefreshTokenTTL (sv_cfg s), rt_RevokedAt = None,
      rt_UserAgent = userAgent, rt_IPAddress = ipAddress, rt_TeamID = teamID,
      rt_CreatedAt = clock w\<rparr>"

lemma session_row_simps [simp]:
  "rt_UserID (session_row s u t ua ip w) = u" "rt_TeamID (session_row s u t ua ip w) = t"
  "rt_RevokedAt (session_row s u t ua ip w) = None"
  "rt_TokenHash (session_row s u t ua ip w) = HashToken (b64url_encode (draw 32 w))"
  "rt_ExpiresAt (session_row s u t ua ip w) = clock w + uc_RefreshTokenTTL (sv_cfg s)"
  "session_row s u t ua ip (w\<lparr>faults := fs\<rparr>) = session_row s u t ua ip w"
  "session_row s u t ua ip (w\<lparr>db := d\<rparr>) = session_row s u t ua ip w"
  by (simp_all add: session_row_def draw_def)

definition add_session :: "refresh_token \<Rightarrow> dbase \<Rightarrow> dbase" where
  "add_session row d = d\<lparr>refresh := snd (mem_CreateRefreshToken row (refresh d))\<rparr>"

lemma issueSession_ok:
  assumes "issueSession s u e t ua ip w = (Inr p, w')"
  shows "db w' = add_session (session_row s u t ua ip w) (db w)"
    and "session_token s p = b64url_encode (draw 32 w)"
    and "clock w' = clock w"
  using assms unfolding issueSession_def Let_def
  by (auto simp: port_defs mem_CreateRefreshToken_def session_token_def Generate_def add_session_def
      session_row_def draw_def split: if_splits)

lemma issueSession_error:
  assumes "issueSession s u e t ua ip w = (Inl x, w')"
  shows "db w' = db w \<or> db w' = add_session (session_row s u t ua ip w) (db w)"
  using assms unfolding issueSession_def Let_def
  by (auto simp: port_defs mem_CreateRefreshToken_def Generate_def add_session_def
      session_row_def draw_def split: if_splits)

lemma session_found:
  "mem_GetRefreshTokenByHash (refresh (add_session row d)) (rt_TokenHash row) = Inr row"
  by (simp add: add_session_def mem_defs)

lemma txIf_ok:
  assumes "txIf s a f w = (Inr x, w')"
  obtains fs w1 fs' where "f (w\<lparr>faults := fs\<rparr>) = (Inr x, w1)" and "w' = w1\<lparr>faults := fs'\<rparr>"
proof (cases a)
  case True
  with assms that show thesis by (auto simp: txIf_def elim!: RunInTx_ok)
next
  case False
  then have "f (w\<lparr>faults := faults w\<rparr>) = (Inr x, w')" and "w' = w'\<lparr>faults := faults w'\<rparr>"
    using assms by (simp_all add: txIf_def)
  then show thesis by (rule that)
qed

lemma call_hookE [elim!]:
  assumes "call_hook h x w = (r, w')"
  obtains "w' = w" and "r = (case h of None \<Rightarrow> Inr () | Some f \<Rightarrow> (case f x of None \<Rightarrow> Inr () | Some e \<Rightarrow> Inl e))"
  using assms by (auto simp: call_hook_def split: option.splits)

lemma issueTokenPair_ok:
  assumes "issueTokenPair s u e ua ip w = (Inr p, w')"
  shows "db w' = add_session (session_row s u None ua ip w) (db w)"
    and "session_token s p = b64url_encode (draw 32 w)" and "clock w' = clock w"
  by (rule issueSession_ok [OF assms [unfolded issueTokenPair_def]])+

text \<open>A token pair names a live session of a user in the stores.\<close>

definition holds_session :: "service \<Rightarrow> token_pair \<Rightarrow> string \<Rightarrow> string option \<Rightarrow> dbase \<Rightarrow> bool" where
  "holds_session s p userID teamID d \<longleftrightarrow>
     (\<exists>t. mem_GetRefreshTokenByHash (refresh d) (HashToken (session_token s p)) = Inr t \<and>
        rt_UserID t = userID \<and> rt_TeamID t = teamID \<and> rt_RevokedAt t = None)"

lemma holds_new_session:
  "session_token s p = b64url_encode (draw 32 w) \<Longrightarrow>
   holds_session s p u t (add_session (session_row s u t ua ip w) d)"
  unfolding holds_session_def
  by (rule exI [of _ "session_row s u t ua ip w"]) (simp add: session_found [of "session_row s u t ua ip w", simplified])

lemma issueSession_holds:
  "issueSession s u e t ua ip w = (Inr p, w') \<Longrightarrow> holds_session s p u t (db w')"
  by (frule issueSession_ok(1), drule issueSession_ok(2)) (simp add: holds_new_session)

lemma issueTokenPair_holds:
  "issueTokenPair s u e ua ip w = (Inr p, w') \<Longrightarrow> holds_session s p u None (db w')"
  unfolding issueTokenPair_def by (rule issueSession_holds)

lemma frame_db: "w' = w\<lparr>faults := fs\<rparr> \<Longrightarrow> db w' = db w"
  by simp

text \<open>A failed attempt that is recorded is added to the table, and nothing else changes.\<close>

lemma recordFailedLogin_adds:
  assumes "recordFailedLogin s e ip w = (r, w')"
  shows "r = Inr ()" and "\<exists>xs. lo_attempts (lockouts (db w')) = lo_attempts (lockouts (db w)) @ xs"
    and "refresh (db w') = refresh (db w)" and "lo_locked (lockouts (db w')) = lo_locked (lockouts (db w))"
  using assms unfolding recordFailedLogin_def
  by (auto simp: port_defs mem_RecordFailedLoginAttempt_def)

definition attempt_row :: "string \<Rightarrow> string \<Rightarrow> world \<Rightarrow> failed_attempt" where
  "attempt_row e ip w = \<lparr>fa_ID = uuid_of (draw 16 w), fa_Email = e, fa_IPAddress = ip, fa_CreatedAt = clock w\<rparr>"

lemma recordFailedLogin_run:
  "faults w = [] \<Longrightarrow> recordFailedLogin s e ip w =
     (Inr (), w\<lparr>rpos := rpos w + 16,
        db := (db w)\<lparr>lockouts := (lockouts (db w))
          \<lparr>lo_attempts := lo_attempts (lockouts (db w)) @ [attempt_row e ip w]\<rparr>\<rparr>\<rparr>)"
  by (simp add: recordFailedLogin_def on_def ignoring_def port_defs mem_RecordFailedLoginAttempt_def
      ret_def attempt_row_def)

section \<open>A service to instantiate hypotheses with\<close>

text \<open>
  The parameters, made concrete: a hasher that stores \<open>h:\<close> and the password, a cipher that stores the
  plaintext, an authenticator that accepts the code \<open>123456\<close>, and a signer that names the subject.
\<close>

definition demo_hasher :: hasher where
  "demo_hasher = \<lparr>h_salt = 0, h_Hash = (\<lambda>_ p. Inr (''h:'' @ p)), h_Verify = (\<lambda>p s. s = ''h:'' @ p),
     h_NeedsRehash = (\<lambda>_. False)\<rparr>"

definition demo_aead :: aead where
  "demo_aead = \<lparr>gcm_seal = (\<lambda>_ _ p. bytes_of p), gcm_open = (\<lambda>_ _ c. Some (map char_of_byte c))\<rparr>"

definition demo_totp :: totp_lib where
  "demo_totp = \<lparr>totp_generate = (\<lambda>_ _ _. Inr (''S'', ''otpauth'')), totp_validate = (\<lambda>_ _ c. c = ''123456'')\<rparr>"

definition demo_signer :: signer where
  "demo_signer = \<lparr>sg_Sign = (\<lambda>c. Inr (''jwt:'' @ cl_Subject c)), sg_Issuer = ''iss'', sg_TTL = hour\<rparr>"

definition demo_config :: user_config where
  "demo_config = \<lparr>uc_SessionMode = SessionModeJWT, uc_SessionSlidingWindow = hour, uc_AccessTokenTTL = minute,
     uc_RefreshTokenTTL = 4 * hour, uc_PasswordResetTTL = hour, uc_EmailVerificationTTL = hour,
     uc_PendingTwoFactorTTL = 5 * minute, uc_MaxFailedLoginAttempts = 2, uc_FailedLoginWindow = 15 * minute,
     uc_TOTPIssuer = ''authit'', uc_TOTPEncryptionKey = replicate 32 0, uc_BackupCodeCount = 2,
     uc_EmailVerification = EmailVerificationOptional, uc_PasswordHasher = demo_hasher,
     uc_PasswordValidator = (\<lambda>_ _. None), uc_RateLimiter = Noop, uc_Hooks = no_hooks\<rparr>"

definition demo_service :: service where
  "demo_service = \<lparr>sv_Tx = False, sv_Members = True, sv_signer = demo_signer, sv_totp = demo_totp,
     sv_aead = demo_aead, sv_cfg = demo_config\<rparr>"

definition demo_user :: user where
  "demo_user = \<lparr>u_ID = ''u1'', u_Email = ''a@x'', u_PasswordHash = ''h:pw'', u_EmailVerified = True,
     u_EmailVerifiedAt = None, u_CreatedAt = 0, u_UpdatedAt = 0\<rparr>"

definition demo_world :: world where
  "demo_world = (world0 0)\<lparr>db := empty_db\<lparr>users := snd (mem_CreateUser demo_user NewUserStore)\<rparr>\<rparr>"

lemmas demo_defs = demo_hasher_def demo_aead_def demo_totp_def demo_signer_def demo_config_def
  demo_service_def demo_user_def demo_world_def world0_def empty_db_def no_hooks_def
  NewUserStore_def NewRefreshTokenStore_def NewPasswordResetStore_def NewEmailVerificationStore_def
  NewTOTPStore_def NewPendingTwoFactorStore_def NewLockoutStore_def NewTeamStore_def
  NewMemberStore_def NewInvitationStore_def NewPersonalAccessTokenStore_def
  NewDeviceAuthorizationStore_def NewPINStore_def NewBoundDeviceStore_def NewEmailLoginStore_def
  NewAccountStore_def NewWebAuthnCredentialStore_def NewWebAuthnChallengeStore_def

text \<open>Running a program on a concrete world: the definitions of the control flow.\<close>

lemmas run_defs = seq_def on_def ignoring_def ret_def raise_def lift_def check_def call_hook_def
  txIf_def port_defs on_users_def on_refresh_def on_resets_def on_verifs_def on_totp_def on_pending_def
  on_lockouts_def on_teams_def on_members_def on_invites_def on_pats_def on_devauths_def on_pins_def
  on_bound_def on_logins_def on_accounts_def on_passkeys_def on_challenges_def

end
