(* ===== verification/UserLogin.thy ===== *)
theory UserLogin
  imports UserService
begin

text \<open>
  \<open>user/register_login.go\<close> and \<open>user/issue_session.go\<close>: registration, the password login, refresh
  rotation with reuse detection, logout, and the sign-in that other identity packages hand over to
  \<open>IssueSession\<close>.
\<close>

section \<open>Register\<close>

definition Register :: "service \<Rightarrow> string \<Rightarrow> string \<Rightarrow> user prog" where
  "Register s email password =
     (let email = NormalizeEmail email; c = sv_cfg s in
      seq (check (uc_PasswordValidator c email password)) (\<lambda>_.
      seq (call_hook (hk_BeforeRegister (uc_Hooks c)) email) (\<lambda>_.
      on (GetUserByEmail email)
        (\<lambda>e. if e \<noteq> ErrNotFound then raise e
             else
               seq (Hash (uc_PasswordHasher c) password) (\<lambda>hash.
               seq NewID (\<lambda>id.
               with_now (\<lambda>now.
                 let u = \<lparr>u_ID = id, u_Email = email, u_PasswordHash = hash, u_EmailVerified = False,
                          u_EmailVerifiedAt = None, u_CreatedAt = now, u_UpdatedAt = now\<rparr> in
                 seq (txIf s (hk_AfterRegister (uc_Hooks c) \<noteq> None)
                   (seq (CreateUser u) (\<lambda>_. call_hook (hk_AfterRegister (uc_Hooks c)) u))) (\<lambda>_.
                 seq (log ((event_of EventUserRegistered ResultSuccess)
                        \<lparr>ev_ActorID := u_ID u, ev_Email := u_Email u\<rparr>)) (\<lambda>_.
                 ret u))))))
        (\<lambda>_. raise (User ErrEmailTaken)))))"

section \<open>Authenticate\<close>

definition rehashIfNeeded :: "service \<Rightarrow> user \<Rightarrow> string \<Rightarrow> user prog" where
  "rehashIfNeeded s u password =
     (if \<not> h_NeedsRehash (uc_PasswordHasher (sv_cfg s)) (u_PasswordHash u) then ret u
      else on (Hash (uc_PasswordHasher (sv_cfg s)) password)
        (\<lambda>_. ret u)
        (\<lambda>hash. with_now (\<lambda>now.
           let u = u\<lparr>u_PasswordHash := hash, u_UpdatedAt := now\<rparr> in
           ignoring (UpdateUser u) (ret u))))"

definition login_event ::
  "event_type \<Rightarrow> event_result \<Rightarrow> string \<Rightarrow> string \<Rightarrow> string \<Rightarrow> string \<Rightarrow> (string \<times> meta_value) list \<Rightarrow> event"
where
  "login_event t r actorID email userAgent ipAddress meta =
     (event_of t r)\<lparr>ev_ActorID := actorID, ev_Email := email, ev_UserAgent := userAgent,
       ev_IPAddress := ipAddress, ev_Metadata := meta\<rparr>"

text \<open>\<open>totpSettings != nil && totpSettings.Enabled\<close>, on a read whose not-found is no error.\<close>

definition twoFactorEnabled :: "string \<Rightarrow> bool prog" where
  "twoFactorEnabled userID =
     on (GetTOTPSettingsByUserID userID)
       (\<lambda>e. if e \<noteq> ErrNotFound then raise e else ret False)
       (\<lambda>t. ret (ts_Enabled t))"

text \<open>The part of \<open>Authenticate\<close> after the password has been verified.\<close>

definition completePasswordLogin ::
  "service \<Rightarrow> user \<Rightarrow> string \<Rightarrow> string \<Rightarrow> string \<Rightarrow> string \<Rightarrow> auth_result prog" where
  "completePasswordLogin s u password email userAgent ipAddress =
     (let c = sv_cfg s in
      seq (rehashIfNeeded s u password) (\<lambda>u.
      if uc_EmailVerification c = EmailVerificationRequired \<and> \<not> u_EmailVerified u
      then seq (log (login_event EventUserLoginFailed ResultDenied (u_ID u) email userAgent ipAddress
                       [(''reason'', MStr ''email_not_verified'')]))
             (\<lambda>_. raise (User ErrEmailNotVerified))
      else
      seq (twoFactorEnabled (u_ID u)) (\<lambda>enabled.
      if enabled
      then seq (createPendingTwoFactorSession s (u_ID u)) (\<lambda>pendingToken.
             ret \<lparr>ar_User = u, ar_Tokens = None, ar_RequiresTwoFactor = True,
                  ar_PendingTwoFactorToken = pendingToken\<rparr>)
      else
      ignoring (ClearFailedLoginAttempts email)
      (seq (txIf s (hk_AfterAuthenticate (uc_Hooks c) \<noteq> None)
        (seq (issueTokenPair s (u_ID u) (u_Email u) userAgent ipAddress) (\<lambda>tokens.
         seq (call_hook (hk_AfterAuthenticate (uc_Hooks c)) u) (\<lambda>_. ret tokens)))) (\<lambda>tokens.
      seq (log (login_event EventUserLoginSucceeded ResultSuccess (u_ID u) (u_Email u) userAgent ipAddress []))
        (\<lambda>_.
      ret \<lparr>ar_User = u, ar_Tokens = Some tokens, ar_RequiresTwoFactor = False,
           ar_PendingTwoFactorToken = ''''\<rparr>))))))"

definition actor_of :: "user option \<Rightarrow> string" where
  "actor_of u = (case u of None \<Rightarrow> '''' | Some u \<Rightarrow> u_ID u)"

text \<open>The keys charged to the limiter, the address being the normalised one.\<close>

definition login_keys :: "string \<Rightarrow> string \<Rightarrow> string list" where
  "login_keys ipAddress email = [''login:ip:'' @ ipAddress, ''login:email:'' @ email]"

definition Authenticate ::
  "service \<Rightarrow> string \<Rightarrow> string \<Rightarrow> string \<Rightarrow> string \<Rightarrow> auth_result prog" where
  "Authenticate s email password userAgent ipAddress =
     (let email = NormalizeEmail email; c = sv_cfg s;
          refuse = (\<lambda>u. seq (recordFailedLogin s email ipAddress) (\<lambda>_.
            seq (log (login_event EventUserLoginFailed ResultFailure (actor_of u) email userAgent ipAddress []))
              (\<lambda>_. raise (User ErrInvalidCredentials))))
      in
      on (AllowEach (uc_RateLimiter c) (login_keys ipAddress email))
        (\<lambda>e. seq (auditRateLimited EventUserLoginFailed '''' email userAgent ipAddress) (\<lambda>_. raise e))
        (\<lambda>_.
      seq (checkLockoutAndFetchUser s email) (\<lambda>(locked, u).
      if locked
      then seq (log (login_event EventUserLoginLocked ResultDenied (actor_of u) email userAgent ipAddress []))
             (\<lambda>_. raise (User ErrAccountLocked))
      else
      seq (call_hook (hk_BeforeAuthenticate (uc_Hooks c)) email) (\<lambda>_.
      case u of
        None \<Rightarrow> refuse None
      | Some x \<Rightarrow>
          (if \<not> h_Verify (uc_PasswordHasher c) password (u_PasswordHash x) then refuse (Some x)
           else completePasswordLogin s x password email userAgent ipAddress)))))"

section \<open>Refresh and Logout\<close>

definition Refresh :: "service \<Rightarrow> string \<Rightarrow> string \<Rightarrow> string \<Rightarrow> token_pair prog" where
  "Refresh s refreshToken userAgent ipAddress =
     (if uc_SessionMode (sv_cfg s) = SessionModeOpaque then raise (User ErrWrongSessionMode)
      else
      on (GetRefreshTokenByHash (HashToken refreshToken))
        (\<lambda>e. if e = ErrNotFound then raise (User ErrInvalidToken) else raise e)
        (\<lambda>t. with_now (\<lambda>now.
      if After now (rt_ExpiresAt t) then raise (User ErrInvalidToken)
      else
      seq (requireActiveMembership s t) (\<lambda>_.
      if rt_RevokedAt t \<noteq> None
      then seq (revokeFamilyOnReuse t userAgent ipAddress) (\<lambda>_. raise (User ErrInvalidToken))
      else
      seq (GetUserByID (rt_UserID t)) (\<lambda>u.
      on (RunInTx (sv_Tx s)
           (seq (ConsumeRefreshToken (rt_ID t)) (\<lambda>consumed.
            if \<not> consumed then raise errTokenSpent
            else issueSession s (u_ID u) (u_Email u) (rt_TeamID t) userAgent ipAddress)))
        (\<lambda>e. if e = errTokenSpent
             then seq (revokeFamilyOnReuse t userAgent ipAddress) (\<lambda>_. raise (User ErrInvalidToken))
             else raise e)
        (\<lambda>tokens.
      seq (log (login_event EventUserTokenRefreshed ResultSuccess (u_ID u) (u_Email u) userAgent ipAddress []))
        (\<lambda>_. ret tokens)))))))"

definition Logout :: "string \<Rightarrow> unit prog" where
  "Logout refreshToken =
     on (GetRefreshTokenByHash (HashToken refreshToken))
       (\<lambda>e. if e = ErrNotFound then ret () else raise e)
       (\<lambda>t. seq (RevokeRefreshToken (rt_ID t)) (\<lambda>_.
            log ((event_of EventUserLogout ResultSuccess)\<lparr>ev_ActorID := rt_UserID t\<rparr>)))"

section \<open>IssueSession\<close>

text \<open>\<open>LoginMethod\<close> is a string type with four named constants.\<close>

type_synonym login_method = string

definition LoginMethodMagicLink :: login_method where "LoginMethodMagicLink = ''magic_link''"
definition LoginMethodSignInCode :: login_method where "LoginMethodSignInCode = ''sign_in_code''"
definition LoginMethodPasskey :: login_method where "LoginMethodPasskey = ''passkey''"
definition LoginMethodOIDC :: login_method where "LoginMethodOIDC = ''oidc''"

definition ProvesEmail :: "login_method \<Rightarrow> bool" where
  "ProvesEmail m \<longleftrightarrow> m = LoginMethodMagicLink \<or> m = LoginMethodSignInCode"

definition SatisfiesTwoFactor :: "login_method \<Rightarrow> bool" where
  "SatisfiesTwoFactor m \<longleftrightarrow> m = LoginMethodPasskey"

text \<open>\<open>MarkEmailVerified\<close> (user/email_verification.go), which \<open>IssueSession\<close> calls.\<close>

definition MarkEmailVerified :: "string \<Rightarrow> unit prog" where
  "MarkEmailVerified userID =
     seq (GetUserByID userID) (\<lambda>u.
       let finish = DeleteUserEmailVerificationTokens (u_ID u) in
       if \<not> u_EmailVerified u
       then with_now (\<lambda>now.
         seq (UpdateUser (u\<lparr>u_EmailVerified := True, u_EmailVerifiedAt := Some now, u_UpdatedAt := now\<rparr>))
           (\<lambda>_. finish))
       else finish)"

definition auditVerified :: "bool \<Rightarrow> user \<Rightarrow> login_method \<Rightarrow> unit prog" where
  "auditVerified verified u m =
     (if \<not> verified then ret ()
      else log ((event_of EventUserEmailVerified ResultSuccess)
        \<lparr>ev_ActorID := u_ID u, ev_Email := u_Email u, ev_Metadata := [(''method'', MStr m)]\<rparr>))"

definition login_meta :: "login_method \<Rightarrow> string \<Rightarrow> (string \<times> meta_value) list" where
  "login_meta m reason =
     (''method'', MStr m) # (if reason \<noteq> '''' then [(''reason'', MStr reason)] else [])"

definition markVerified :: "bool \<Rightarrow> user \<Rightarrow> user prog" where
  "markVerified verify u =
     (if \<not> verify then ret u
      else seq (MarkEmailVerified (u_ID u)) (\<lambda>_. GetUserByID (u_ID u)))"

definition IssueSession ::
  "service \<Rightarrow> string \<Rightarrow> login_method \<Rightarrow> string \<Rightarrow> string \<Rightarrow> auth_result prog" where
  "IssueSession s userID m userAgent ipAddress =
     (if m = '''' then raise errLoginMethodRequired
      else
      let c = sv_cfg s in
      on (GetUserByID userID)
        (\<lambda>e. if e = ErrNotFound
             then seq (log (login_event EventUserLoginFailed ResultFailure userID '''' userAgent ipAddress
                              (login_meta m ''unknown_user'')))
                    (\<lambda>_. raise (User ErrInvalidCredentials))
             else raise e)
        (\<lambda>u.
      seq (IsAccountLocked (u_ID u)) (\<lambda>locked.
      if locked
      then seq (log (login_event EventUserLoginLocked ResultDenied (u_ID u) (u_Email u) userAgent ipAddress
                       (login_meta m '''')))
             (\<lambda>_. raise (User ErrAccountLocked))
      else
      seq (call_hook (hk_BeforeAuthenticate (uc_Hooks c)) (u_Email u)) (\<lambda>_.
      if uc_EmailVerification c = EmailVerificationRequired \<and> \<not> u_EmailVerified u \<and> \<not> ProvesEmail m
      then seq (log (login_event EventUserLoginFailed ResultDenied (u_ID u) (u_Email u) userAgent ipAddress
                       (login_meta m ''email_not_verified'')))
             (\<lambda>_. raise (User ErrEmailNotVerified))
      else
      let verify = (ProvesEmail m \<and> \<not> u_EmailVerified u) in
      seq (if SatisfiesTwoFactor m then ret False else twoFactorEnabled (u_ID u)) (\<lambda>twoFactorOwed.
      if twoFactorOwed
      then
        seq (txIf s verify
          (seq (markVerified verify u) (\<lambda>u.
           seq (createPendingTwoFactorSession s (u_ID u)) (\<lambda>pendingToken. ret (u, pendingToken)))))
          (\<lambda>(u, pendingToken).
        seq (auditVerified verify u m) (\<lambda>_.
        ret \<lparr>ar_User = u, ar_Tokens = None, ar_RequiresTwoFactor = True,
             ar_PendingTwoFactorToken = pendingToken\<rparr>))
      else
        seq (txIf s (verify \<or> hk_AfterAuthenticate (uc_Hooks c) \<noteq> None)
          (seq (markVerified verify u) (\<lambda>u.
           seq (issueTokenPair s (u_ID u) (u_Email u) userAgent ipAddress) (\<lambda>tokens.
           seq (call_hook (hk_AfterAuthenticate (uc_Hooks c)) u) (\<lambda>_. ret (u, tokens))))))
          (\<lambda>(u, tokens).
        seq (auditVerified verify u m) (\<lambda>_.
        seq (log (login_event EventUserLoginSucceeded ResultSuccess (u_ID u) (u_Email u) userAgent ipAddress
                    (login_meta m ''''))) (\<lambda>_.
        ret \<lparr>ar_User = u, ar_Tokens = Some tokens, ar_RequiresTwoFactor = False,
             ar_PendingTwoFactorToken = ''''\<rparr>))))))))"

section \<open>What a password login that succeeds has checked\<close>

lemma rehash_ok:
  assumes "rehashIfNeeded s u p w = (r, w')"
  shows "\<exists>u'. r = Inr u' \<and> u_ID u' = u_ID u \<and> u_Email u' = u_Email u \<and>
      u_EmailVerified u' = u_EmailVerified u"
    and "clock w' = clock w" and "totp (db w') = totp (db w)" and "refresh (db w') = refresh (db w)"
    and "lockouts (db w') = lockouts (db w)" and "pending (db w') = pending (db w)"
  using assms unfolding rehashIfNeeded_def Let_def
  by (auto simp: port_defs split: if_splits)

lemma twoFactorEnabledE [elim!]:
  assumes "twoFactorEnabled u w = (r, w')"
  obtains x fs where "r = Inl (Fault x)" and "w' = w\<lparr>faults := fs\<rparr>"
  | fs where "r = Inr (\<exists>t. totp (db w) u = Some t \<and> ts_Enabled t)" and "w' = w\<lparr>faults := fs\<rparr>"
  using assms unfolding twoFactorEnabled_def port_defs
  by (auto simp: mem_GetTOTPSettingsByUserID_def split: option.splits if_splits)

text \<open>The second factor of an account, as the login flows see it.\<close>

definition owes_two_factor :: "dbase \<Rightarrow> string \<Rightarrow> bool" where
  "owes_two_factor d userID \<longleftrightarrow> (\<exists>t. totp d userID = Some t \<and> ts_Enabled t)"

lemma completePasswordLogin_ok:
  assumes "completePasswordLogin s u p e ua ip w = (Inr res, w')"
  shows "u_ID (ar_User res) = u_ID u"
    and "uc_EmailVerification (sv_cfg s) = EmailVerificationRequired \<Longrightarrow> u_EmailVerified u"
    and "ar_RequiresTwoFactor res \<longleftrightarrow> owes_two_factor (db w) (u_ID u)"
    and "ar_Tokens res = None \<longleftrightarrow> owes_two_factor (db w) (u_ID u)"
    and "ar_Tokens res = Some tp \<Longrightarrow> holds_session s tp (u_ID u) None (db w')"
proof -
  from assms obtain u' w1 where re: "rehashIfNeeded s u p w = (Inr u', w1)"
    unfolding completePasswordLogin_def Let_def by (auto dest: rehash_ok(1))
  from rehash_ok [OF re] have u': "u_ID u' = u_ID u" "u_EmailVerified u' = u_EmailVerified u"
    and d: "totp (db w1) = totp (db w)" by auto
  from assms show "u_ID (ar_User res) = u_ID u"
    and "uc_EmailVerification (sv_cfg s) = EmailVerificationRequired \<Longrightarrow> u_EmailVerified u"
    and "ar_RequiresTwoFactor res \<longleftrightarrow> owes_two_factor (db w) (u_ID u)"
    and "ar_Tokens res = None \<longleftrightarrow> owes_two_factor (db w) (u_ID u)"
    and "ar_Tokens res = Some tp \<Longrightarrow> holds_session s tp (u_ID u) None (db w')"
    unfolding completePasswordLogin_def Let_def
    by (auto simp: re u' d owes_two_factor_def port_defs split: if_splits
        elim!: txIf_ok dest!: issueTokenPair_holds)
qed

section \<open>A login that stops at the password\<close>

text \<open>Nothing before the second factor touches the sessions or forgives a failed attempt.\<close>

definition attempts_kept :: "dbase \<Rightarrow> dbase \<Rightarrow> bool" where
  "attempts_kept d d' \<longleftrightarrow> refresh d' = refresh d \<and>
     (\<exists>xs. lo_attempts (lockouts d') = lo_attempts (lockouts d) @ xs)"

lemma attempts_kept_refl: "refresh d' = refresh d \<Longrightarrow> lockouts d' = lockouts d \<Longrightarrow> attempts_kept d d'"
  by (simp add: attempts_kept_def)

lemma completePasswordLogin_owing:
  assumes "owes_two_factor (db w) (u_ID u)"
    and "completePasswordLogin s u p e ua ip w = (r, w')"
  shows "attempts_kept (db w) (db w')"
proof -
  obtain r1 w1 where re: "rehashIfNeeded s u p w = (r1, w1)" by fastforce
  from rehash_ok(1) [OF re] obtain u' where u': "r1 = Inr u'" "u_ID u' = u_ID u" by blast
  note d = rehash_ok(3-6) [OF re]
  have l: "leaves (\<lambda>d. (refresh d, lockouts d)) (createPendingTwoFactorSession s x)" for x
    by (rule leaves_createPending) simp
  from assms have "refresh (db w') = refresh (db w) \<and> lockouts (db w') = lockouts (db w)"
    unfolding completePasswordLogin_def Let_def
    by (auto simp: re u' d owes_two_factor_def split: if_splits dest!: leavesD [OF l])
  then show ?thesis by (simp add: attempts_kept_refl)
qed

lemma check_frame: "checkLockoutAndFetchUser s e w = (r, w') \<Longrightarrow> db w' = db w \<and> clock w' = clock w"
  unfolding checkLockoutAndFetchUser_def port_defs by (auto split: if_splits)

lemma Authenticate_cases:
  assumes "Authenticate s email password ua ip w = (r, w')"
  obtains (early) e where "r = Inl e" and "db w' = db w"
  | (refused) "r = Inl (User ErrInvalidCredentials)" and "attempts_kept (db w) (db w')"
  | (verified) x w1 where "mem_GetUserByEmail (users (db w)) (NormalizeEmail email) = Inr x"
      and "h_Verify (uc_PasswordHasher (sv_cfg s)) password (u_PasswordHash x)"
      and "\<not> locked_out s (db w) (clock w) (NormalizeEmail email)"
      and "\<not> lo_locked (lockouts (db w)) (u_ID x)"
      and "db w1 = db w" and "clock w1 = clock w"
      and "completePasswordLogin s x password (NormalizeEmail email) ua ip w1 = (r, w')"
proof -
  let ?e = "NormalizeEmail email"
  obtain r1 w0 where a: "AllowEach (uc_RateLimiter (sv_cfg s)) (login_keys ip ?e) w = (r1, w0)" by fastforce
  have d0: "db w0 = db w" "clock w0 = clock w" by (rule AllowEach_frame [OF a], simp)+
  obtain r2 w1 where chk: "checkLockoutAndFetchUser s ?e w0 = (r2, w1)" by fastforce
  from check_frame [OF chk] d0 have d1: "db w1 = db w" "clock w1 = clock w" by auto
  note run = assms [unfolded Authenticate_def Let_def auditRateLimited_def]
  show thesis
  proof (cases r1)
    case (Inl e)
    with run a d0 show thesis by (auto intro: early)
  next
    case (Inr x)
    note r1 = this
    show thesis
    proof (cases r2)
      case (Inl e)
      with run a r1 chk d1 show thesis by (auto intro: early)
    next
      case (Inr bu)
      obtain b u where bu: "bu = (b, u)" by (cases bu)
      note c = checkLockout_ok(1,2) [OF chk [unfolded Inr bu]]
      show thesis
      proof (cases b)
        case True
        with run a r1 chk Inr bu have "r = Inl (User ErrAccountLocked)" and "db w' = db w1"
          by auto
        then show thesis using d1 by (auto intro: early)
      next
        case False
        consider (hook) e where "r = Inl e" "w' = w1"
          | (bad) v w2 where "recordFailedLogin s ?e ip w1 = (v, w2)" "db w' = db w2"
              "r = Inl (User ErrInvalidCredentials)"
          | (good) y where "u = Some y" "h_Verify (uc_PasswordHasher (sv_cfg s)) password (u_PasswordHash y)"
              "completePasswordLogin s y password ?e ua ip w1 = (r, w')"
          using run a r1 chk Inr bu False
          by (auto split: option.splits if_splits dest: recordFailedLogin_adds(1))
        then show thesis
        proof cases
          case hook
          then show thesis using d1 by (auto intro: early)
        next
          case bad
          then show thesis using recordFailedLogin_adds [OF bad(1)] d1
            by (intro refused) (auto simp: attempts_kept_def)
        next
          case good
          then show thesis using c False d0 d1 by (intro verified) auto
        qed
      qed
    qed
  qed
qed
text \<open>
  Everything a successful \<open>Authenticate\<close> has established, whatever store calls failed on the way:
  the address resolves to the account returned, its password verified, neither lockout stood, the
  address is verified where the policy asks, and there is a session exactly when no second factor
  is owed.
\<close>

lemma Authenticate_ok:
  assumes "Authenticate s email password ua ip w = (Inr res, w')"
  obtains u where "mem_GetUserByEmail (users (db w)) (NormalizeEmail email) = Inr u"
    and "u_ID (ar_User res) = u_ID u"
    and "h_Verify (uc_PasswordHasher (sv_cfg s)) password (u_PasswordHash u)"
    and "\<not> locked_out s (db w) (clock w) (NormalizeEmail email)"
    and "\<not> lo_locked (lockouts (db w)) (u_ID u)"
    and "uc_EmailVerification (sv_cfg s) = EmailVerificationRequired \<longrightarrow> u_EmailVerified u"
    and "ar_RequiresTwoFactor res \<longleftrightarrow> owes_two_factor (db w) (u_ID u)"
    and "ar_Tokens res = None \<longleftrightarrow> owes_two_factor (db w) (u_ID u)"
    and "\<And>tp. ar_Tokens res = Some tp \<Longrightarrow> holds_session s tp (u_ID u) None (db w')"
  using assms
proof (cases rule: Authenticate_cases)
  case (verified x w1)
  note p = completePasswordLogin_ok [OF verified(7)]
  show thesis by (rule that [of x]) (use verified p in \<open>simp_all add: owes_two_factor_def\<close>)
qed simp_all

section \<open>Refresh\<close>

lemma requireActiveMembership_ok:
  assumes "requireActiveMembership s t w = (Inr v, w')"
  shows "w' = w\<lparr>faults := faults w'\<rparr>"
    and "rt_TeamID t = Some team \<Longrightarrow> sv_Members s \<Longrightarrow>
         \<exists>m. mem_GetMemberByUserAndTeam (members (db w)) (rt_UserID t) team = Inr m \<and> m_IsActive m"
  using assms unfolding requireActiveMembership_def checkMembership_def
  by (auto simp: port_defs split: option.splits if_splits)

lemma revokeFamilyE [elim!]:
  assumes "revokeFamilyOnReuse t ua ip w = (r, w')"
  obtains x fs where "r = Inr ()" and "db w' = db w" and "ev_Result (last (trail w')) = ResultFailure"
  | d where "r = Inr ()" and "db w' = (db w)\<lparr>refresh := d\<rparr>"
      and "mem_RevokeAllUserRefreshTokens (clock w) (rt_UserID t) (refresh (db w)) = (Inr (), d)"
      and "ev_Result (last (trail w')) = ResultSuccess"
  | d e where "r = Inr ()" and "db w' = (db w)\<lparr>refresh := d\<rparr>"
      and "mem_RevokeAllUserRefreshTokens (clock w) (rt_UserID t) (refresh (db w)) = (Inl e, d)"
      and "ev_Result (last (trail w')) = ResultFailure"
  using assms unfolding revokeFamilyOnReuse_def Let_def
  by (auto simp: port_defs event_of_def)

lemma consumeE:
  assumes "mem_ConsumeRefreshToken t i s = (Inr True, s')"
  obtains row where "rs_byID s i = Some row" and "rt_RevokedAt row = None"
    and "s' = s\<lparr>rs_byID := (rs_byID s)(i \<mapsto> row\<lparr>rt_RevokedAt := Some t\<rparr>)\<rparr>"
  using assms by (auto simp: mem_defs split: option.splits if_splits)

text \<open>
  A refresh that returns has found a live, unexpired session, has spent its row, and has written the
  row of the session it returns.
\<close>

lemma Refresh_ok:
  assumes "Refresh s tok ua ip w = (Inr p, w')"
  obtains t u d w0 where "uc_SessionMode (sv_cfg s) = SessionModeJWT"
    and "mem_GetRefreshTokenByHash (refresh (db w)) (HashToken tok) = Inr t"
    and "clock w \<le> rt_ExpiresAt t" and "rt_RevokedAt t = None"
    and "mem_GetUserByID (users (db w)) (rt_UserID t) = Inr u"
    and "\<And>team. rt_TeamID t = Some team \<Longrightarrow> sv_Members s \<Longrightarrow>
         \<exists>m. mem_GetMemberByUserAndTeam (members (db w)) (rt_UserID t) team = Inr m \<and> m_IsActive m"
    and "mem_ConsumeRefreshToken (clock w) (rt_ID t) (refresh (db w)) = (Inr True, d)"
    and "db w' = add_session (session_row s (u_ID u) (rt_TeamID t) ua ip w0) ((db w)\<lparr>refresh := d\<rparr>)"
    and "session_token s p = b64url_encode (draw 32 w0)"
    and "clock w0 = clock w"
proof -
  note run = assms [unfolded Refresh_def]
  from run obtain t w1 w2 u w3 w4 where mode: "uc_SessionMode (sv_cfg s) \<noteq> SessionModeOpaque"
    and get: "GetRefreshTokenByHash (HashToken tok) w = (Inr t, w1)"
    and live: "\<not> After (clock w1) (rt_ExpiresAt t)" "rt_RevokedAt t = None"
    and mem: "requireActiveMembership s t w1 = (Inr (), w2)"
    and usr: "GetUserByID (rt_UserID t) w2 = (Inr u, w3)"
    and tx: "RunInTx (sv_Tx s) (seq (ConsumeRefreshToken (rt_ID t)) (\<lambda>consumed.
            if \<not> consumed then raise errTokenSpent
            else issueSession s (u_ID u) (u_Email u) (rt_TeamID t) ua ip)) w3 = (Inr p, w4)"
    and w': "db w' = db w4"
    by (auto split: if_splits)
  note m = requireActiveMembership_ok [OF mem]
  have w1: "db w1 = db w" "clock w1 = clock w"
    and t: "mem_GetRefreshTokenByHash (refresh (db w)) (HashToken tok) = Inr t"
    using get by (auto simp: port_defs)
  have w2: "db w2 = db w" "clock w2 = clock w" using m(1) w1 by (metis world.ext_inject world.surjective world.update_convs(3))+
  have w3: "db w3 = db w" "clock w3 = clock w" and u: "mem_GetUserByID (users (db w)) (rt_UserID t) = Inr u"
    using usr w2 by (auto simp: port_defs)
  from tx obtain fs w5 fs' where body: "seq (ConsumeRefreshToken (rt_ID t)) (\<lambda>consumed.
            if \<not> consumed then raise errTokenSpent
            else issueSession s (u_ID u) (u_Email u) (rt_TeamID t) ua ip) (w3\<lparr>faults := fs\<rparr>) = (Inr p, w5)"
    and w4: "w4 = w5\<lparr>faults := fs'\<rparr>"
    by (rule RunInTx_ok)
  from body obtain d fs1 where
      c: "mem_ConsumeRefreshToken (clock w) (rt_ID t) (refresh (db w)) = (Inr True, d)"
    and iss: "issueSession s (u_ID u) (u_Email u) (rt_TeamID t) ua ip
      (w3\<lparr>faults := fs1, db := (db w)\<lparr>refresh := d\<rparr>\<rparr>) = (Inr p, w5)"
    using w3 by (auto simp: port_defs split: if_splits)
  define w0 where "w0 = w3\<lparr>faults := fs1, db := (db w)\<lparr>refresh := d\<rparr>\<rparr>"
  have w0: "db w0 = (db w)\<lparr>refresh := d\<rparr>" "clock w0 = clock w" using w3 by (simp_all add: w0_def)
  note i = issueSession_ok [OF iss [folded w0_def]]
  show thesis
    by (rule that [of t u d w0])
      (use mode t live u m(2) c i w0 w1 w' w4 in \<open>simp_all add: After_def\<close>, metis session_mode.exhaust)
qed

section \<open>Refusals that look alike\<close>

text \<open>What a caller, and the limiter and lockout it shares with others, can see of a world.\<close>

definition looks_like :: "world \<Rightarrow> world \<Rightarrow> bool" where
  "looks_like w1 w2 \<longleftrightarrow> clock w1 = clock w2 \<and> limits w1 = limits w2 \<and> faults w1 = [] \<and> faults w2 = [] \<and>
     rsrc w1 = rsrc w2 \<and> rpos w1 = rpos w2 \<and> outbox w1 = outbox w2 \<and>
     lockouts (db w1) = lockouts (db w2)"

definition bad_credentials :: "service \<Rightarrow> dbase \<Rightarrow> string \<Rightarrow> string \<Rightarrow> bool" where
  "bad_credentials s d email password \<longleftrightarrow>
     (case mem_GetUserByEmail (users d) (NormalizeEmail email) of
        Inl e \<Rightarrow> e = ErrNotFound
      | Inr u \<Rightarrow> \<not> h_Verify (uc_PasswordHasher (sv_cfg s)) password (u_PasswordHash u) \<and>
          \<not> lo_locked (lockouts d) (u_ID u))"

lemma AllowEach_world:
  "AllowEach l keys w = (fst (AllowEach l keys w), w\<lparr>limits := limits (snd (AllowEach l keys w))\<rparr>)"
  by (cases "AllowEach l keys w") (auto elim!: AllowEach_frame)

lemma checkLockout_run:
  assumes "faults w = []" and "bad_credentials s (db w) email password"
  shows "checkLockoutAndFetchUser s (NormalizeEmail email) w =
     (Inr (locked_out s (db w) (clock w) (NormalizeEmail email),
        case mem_GetUserByEmail (users (db w)) (NormalizeEmail email) of Inl _ \<Rightarrow> None | Inr u \<Rightarrow> Some u), w)"
  using assms
  by (auto simp: checkLockoutAndFetchUser_def seq_def on_def ret_def port_defs bad_credentials_def
      mem_IsAccountLocked_def split: sum.splits)

lemma Authenticate_refused_alike:
  assumes "looks_like w1 w2"
    and "bad_credentials s (db w1) email p1" and "bad_credentials s (db w2) email p2"
  shows "fst (Authenticate s email p1 ua ip w1) = fst (Authenticate s email p2 ua ip w2)"
    and "looks_like (snd (Authenticate s email p1 ua ip w1)) (snd (Authenticate s email p2 ua ip w2))"
proof -
  let ?e = "NormalizeEmail email"
  define a where "a = AllowEach (uc_RateLimiter (sv_cfg s)) (login_keys ip ?e)"
  obtain A L where aw: "a w1 = (A, w1\<lparr>limits := L\<rparr>)" "a w2 = (A, w2\<lparr>limits := L\<rparr>)"
    using AllowEach_agree [of w1 w2] AllowEach_world [of _ _ w1] AllowEach_world [of _ _ w2] assms(1)
    unfolding looks_like_def a_def by metis
  define run where "run = (\<lambda>p w. Authenticate s email p ua ip w)"
  have main: "fst (run p1 w1) = fst (run p2 w2) \<and> looks_like (snd (run p1 w1)) (snd (run p2 w2))"
  proof (cases A)
    case (Inl e)
    then show ?thesis
      using assms(1) aw
      by (simp add: run_def Authenticate_def Let_def a_def [symmetric] on_def seq_def raise_def
          auditRateLimited_def looks_like_def)
  next
    case (Inr x)
    let ?v1 = "w1\<lparr>limits := L\<rparr>" and ?v2 = "w2\<lparr>limits := L\<rparr>"
    have c1: "checkLockoutAndFetchUser s ?e ?v1 = (Inr (locked_out s (db w1) (clock w1) ?e,
        case mem_GetUserByEmail (users (db w1)) ?e of Inl _ \<Rightarrow> None | Inr u \<Rightarrow> Some u), ?v1)"
      using checkLockout_run [of ?v1 s email p1] assms by (simp add: looks_like_def)
    have c2: "checkLockoutAndFetchUser s ?e ?v2 = (Inr (locked_out s (db w2) (clock w2) ?e,
        case mem_GetUserByEmail (users (db w2)) ?e of Inl _ \<Rightarrow> None | Inr u \<Rightarrow> Some u), ?v2)"
      using checkLockout_run [of ?v2 s email p2] assms by (simp add: looks_like_def)
    have lo: "locked_out s (db w1) (clock w1) ?e = locked_out s (db w2) (clock w2) ?e"
      using assms(1) by (simp add: locked_out_def looks_like_def)
    have d: "draw n (w1\<lparr>limits := l\<rparr>) = draw n (w2\<lparr>limits := l\<rparr>)" for n l
      using assms(1) by (simp add: looks_like_def draw_def)
    show ?thesis
      using assms aw Inr c1 c2 lo d
      by (auto simp: run_def Authenticate_def Let_def a_def [symmetric] on_def seq_def raise_def
          looks_like_def bad_credentials_def recordFailedLogin_run call_hook_def check_def ret_def
          attempt_row_def split: sum.splits option.splits)
  qed
  then show "fst (Authenticate s email p1 ua ip w1) = fst (Authenticate s email p2 ua ip w2)"
    and "looks_like (snd (Authenticate s email p1 ua ip w1)) (snd (Authenticate s email p2 ua ip w2))"
    by (simp_all add: run_def)
qed

section \<open>The lockout builds up and heals\<close>

text \<open>A service with no limiter and no login hook: the lockout alone throttles.\<close>

definition lockout_only :: "service \<Rightarrow> bool" where
  "lockout_only s \<longleftrightarrow> uc_RateLimiter (sv_cfg s) = Noop \<and> hk_BeforeAuthenticate (uc_Hooks (sv_cfg s)) = None"

lemma Noop_allows: "allow_each Noop None keys w = (Inr (), snd (allow_each Noop None keys w))"
  by (induction keys arbitrary: w) (simp_all add: check_def ret_def on_Allow Noop_def)

lemma Noop_AllowEach: "AllowEach Noop keys w = (Inr (), w\<lparr>limits := limits (snd (AllowEach Noop keys w))\<rparr>)"
  using AllowEach_world [of Noop keys w] Noop_allows [of keys w]
  by (simp add: AllowEach_def) (metis fst_conv)

lemma Authenticate_bad_run:
  assumes s: "lockout_only s" and nf: "faults w = []" and bad: "bad_credentials s (db w) email p"
    and run: "Authenticate s email p ua ip w = (r, w')"
  shows "faults w' = []" and "users (db w') = users (db w)"
    and "lo_locked (lockouts (db w')) = lo_locked (lockouts (db w))"
    and "lo_attempts (lockouts (db w')) = lo_attempts (lockouts (db w)) @
      (if locked_out s (db w) (clock w) (NormalizeEmail email) then []
       else [attempt_row (NormalizeEmail email) ip w])"
    and "r = Inl (User (if locked_out s (db w) (clock w) (NormalizeEmail email)
            then ErrAccountLocked else ErrInvalidCredentials))"
proof -
  let ?e = "NormalizeEmail email"
  define L where "L = limits (snd (AllowEach Noop (login_keys ip ?e) w))"
  have a: "AllowEach Noop (login_keys ip ?e) w = (Inr (), w\<lparr>limits := L\<rparr>)"
    unfolding L_def by (rule Noop_AllowEach)
  have c: "checkLockoutAndFetchUser s ?e (w\<lparr>limits := L\<rparr>) = (Inr (locked_out s (db w) (clock w) ?e,
      case mem_GetUserByEmail (users (db w)) ?e of Inl _ \<Rightarrow> None | Inr u \<Rightarrow> Some u), w\<lparr>limits := L\<rparr>)"
    using checkLockout_run [of "w\<lparr>limits := L\<rparr>" s email p] nf bad by simp
  have at: "attempt_row e ip (w\<lparr>limits := L\<rparr>) = attempt_row e ip w" for e by (simp add: attempt_row_def)
  have "faults w' = [] \<and> users (db w') = users (db w) \<and>
      lo_locked (lockouts (db w')) = lo_locked (lockouts (db w)) \<and>
      lo_attempts (lockouts (db w')) = lo_attempts (lockouts (db w)) @
        (if locked_out s (db w) (clock w) ?e then [] else [attempt_row ?e ip w]) \<and>
      r = Inl (User (if locked_out s (db w) (clock w) ?e then ErrAccountLocked else ErrInvalidCredentials))"
    using run s nf bad a c at
    by (auto simp: lockout_only_def Authenticate_def Let_def on_def seq_def raise_def
        bad_credentials_def recordFailedLogin_run call_hook_def ret_def split: sum.splits option.splits)
  then show "faults w' = []" and "users (db w') = users (db w)"
    and "lo_locked (lockouts (db w')) = lo_locked (lockouts (db w))"
    and "lo_attempts (lockouts (db w')) = lo_attempts (lockouts (db w)) @
      (if locked_out s (db w) (clock w) ?e then [] else [attempt_row ?e ip w])"
    and "r = Inl (User (if locked_out s (db w) (clock w) ?e
            then ErrAccountLocked else ErrInvalidCredentials))" by blast+
qed

text \<open>Attempts on one address, each at its own instant.\<close>

fun attempts_at :: "service \<Rightarrow> string \<Rightarrow> (time \<times> string \<times> string \<times> string) list \<Rightarrow> world \<Rightarrow> world" where
  "attempts_at s email [] w = w"
| "attempts_at s email ((t, p, ua, ip) # xs) w =
     attempts_at s email xs (snd (Authenticate s email p ua ip (w\<lparr>clock := t\<rparr>)))"

definition failures_of :: "string \<Rightarrow> dbase \<Rightarrow> failed_attempt list" where
  "failures_of e d = filter (\<lambda>a. fa_Email a = e) (lo_attempts (lockouts d))"

lemma locked_out_recent:
  assumes "\<And>a. a \<in> set (failures_of e d) \<Longrightarrow> t - uc_FailedLoginWindow (sv_cfg s) < fa_CreatedAt a"
  shows "locked_out s d t e \<longleftrightarrow> int (length (failures_of e d)) \<ge> uc_MaxFailedLoginAttempts (sv_cfg s)"
proof -
  have "filter (\<lambda>a. fa_Email a = e \<and> After (fa_CreatedAt a) (t - uc_FailedLoginWindow (sv_cfg s)))
      (lo_attempts (lockouts d)) = failures_of e d"
    unfolding failures_of_def by (rule filter_cong) (use assms in \<open>auto simp: failures_of_def After_def\<close>)
  then show ?thesis by (simp add: locked_out_def lo_count_def mem_CountRecentFailedLoginAttempts_def)
qed

lemma locked_out_heals:
  assumes "\<And>a. a \<in> set (failures_of e d) \<Longrightarrow> fa_CreatedAt a \<le> t - uc_FailedLoginWindow (sv_cfg s)"
    and "1 \<le> uc_MaxFailedLoginAttempts (sv_cfg s)"
  shows "\<not> locked_out s d t e"
proof -
  have "filter (\<lambda>a. fa_Email a = e \<and> After (fa_CreatedAt a) (t - uc_FailedLoginWindow (sv_cfg s)))
      (lo_attempts (lockouts d)) = []"
    using assms(1) by (fastforce simp: failures_of_def filter_empty_conv After_def)
  then show ?thesis using assms(2) by (simp add: locked_out_def lo_count_def mem_CountRecentFailedLoginAttempts_def)
qed

lemma attempts_at_failures:
  assumes s: "lockout_only s"
    and now: "\<And>t p ua ip. (t, p, ua, ip) \<in> set xs \<Longrightarrow> now - uc_FailedLoginWindow (sv_cfg s) < t \<and> t \<le> now"
    and bad: "\<And>t p ua ip. (t, p, ua, ip) \<in> set xs \<Longrightarrow> bad_credentials s (db w) email p"
    and nf: "faults w = []"
    and old: "\<And>a. a \<in> set (failures_of (NormalizeEmail email) (db w)) \<Longrightarrow>
        now - uc_FailedLoginWindow (sv_cfg s) < fa_CreatedAt a \<and> fa_CreatedAt a \<le> now"
    and w': "w' = attempts_at s email xs w"
  shows "(\<forall>a \<in> set (failures_of (NormalizeEmail email) (db w')).
       now - uc_FailedLoginWindow (sv_cfg s) < fa_CreatedAt a \<and> fa_CreatedAt a \<le> now) \<and>
     min (int (length (failures_of (NormalizeEmail email) (db w)) + length xs))
         (uc_MaxFailedLoginAttempts (sv_cfg s)) \<le> int (length (failures_of (NormalizeEmail email) (db w')))"
  using now bad nf old w'
proof (induction xs arbitrary: w)
  case Nil
  then show ?case by auto
next
  case (Cons x xs)
  let ?e = "NormalizeEmail email"
  obtain t p ua ip where x: "x = (t, p, ua, ip)" by (cases x)
  let ?w = "w\<lparr>clock := t\<rparr>"
  obtain r w1 where run: "Authenticate s email p ua ip ?w = (r, w1)" by fastforce
  have t: "now - uc_FailedLoginWindow (sv_cfg s) < t" "t \<le> now" using Cons.prems(1) x by auto
  have "bad_credentials s (db ?w) email p" and "faults ?w = []" using Cons.prems(2,3) x by auto
  note b = Authenticate_bad_run [OF s this(2,1) run]
  have lo: "locked_out s (db w) t ?e \<longleftrightarrow> int (length (failures_of ?e (db w))) \<ge> uc_MaxFailedLoginAttempts (sv_cfg s)"
  proof (rule locked_out_recent)
    fix a assume "a \<in> set (failures_of ?e (db w))"
    then show "t - uc_FailedLoginWindow (sv_cfg s) < fa_CreatedAt a" using Cons.prems(4) [of a] t by linarith
  qed
  have f1: "failures_of ?e (db w1) = failures_of ?e (db w) @ (if locked_out s (db w) t ?e then []
      else [attempt_row ?e ip ?w])"
    using b(4) by (simp add: failures_of_def attempt_row_def)
  have bad1: "bad_credentials s (db w1) email q \<longleftrightarrow> bad_credentials s (db w) email q" for q
    using b(2,3) by (simp add: bad_credentials_def split: sum.splits)
  have IH: "(\<forall>a \<in> set (failures_of ?e (db w')).
       now - uc_FailedLoginWindow (sv_cfg s) < fa_CreatedAt a \<and> fa_CreatedAt a \<le> now) \<and>
     min (int (length (failures_of ?e (db w1)) + length xs)) (uc_MaxFailedLoginAttempts (sv_cfg s))
       \<le> int (length (failures_of ?e (db w')))"
  proof (rule Cons.IH)
    fix a assume "a \<in> set (failures_of ?e (db w1))"
    then show "now - uc_FailedLoginWindow (sv_cfg s) < fa_CreatedAt a \<and> fa_CreatedAt a \<le> now"
      using Cons.prems(4) t by (auto simp: f1 attempt_row_def split: if_splits)
  next
    fix t' p' ua' ip' assume i: "(t', p', ua', ip') \<in> set xs"
    show "now - uc_FailedLoginWindow (sv_cfg s) < t' \<and> t' \<le> now"
      using Cons.prems(1) [of t' p' ua' ip'] i by simp
    show "bad_credentials s (db w1) email p'"
      using Cons.prems(2) [of t' p' ua' ip'] i bad1 by simp
  next
    show "faults w1 = []" by (rule b(1))
    show "w' = attempts_at s email xs w1" using Cons.prems(5) x run by simp
  qed
  then show ?case using lo f1 by (auto split: if_splits)
qed

section \<open>IssueSession\<close>

lemma MarkEmailVerified_frame:
  "MarkEmailVerified u w = (r, w') \<Longrightarrow> totp (db w') = totp (db w) \<and> refresh (db w') = refresh (db w)"
  unfolding MarkEmailVerified_def Let_def port_defs by (auto split: if_splits)

lemma markVerified_ok:
  assumes inv: "us_inv (users (db w))" and run: "markVerified verify u w = (Inr u', w')"
  shows "totp (db w') = totp (db w)" and "u_ID u' = u_ID u"
proof -
  show "totp (db w') = totp (db w)"
    using run unfolding markVerified_def port_defs
    by (auto split: if_splits dest: MarkEmailVerified_frame)
  show "u_ID u' = u_ID u"
  proof (cases verify)
    case False
    then show ?thesis using run by (simp add: markVerified_def)
  next
    case True
    then obtain w1 where m: "MarkEmailVerified (u_ID u) w = (Inr (), w1)"
      and g: "mem_GetUserByID (users (db w1)) (u_ID u) = Inr u'"
      using run by (auto simp: markVerified_def port_defs)
    have "us_inv (users (db w1))"
      using m inv unfolding MarkEmailVerified_def Let_def port_defs
      by (auto split: if_splits dest!: us_inv_update [OF inv])
    then show ?thesis using us_get_id [OF _ g] by simp
  qed
qed

lemma mark_issue_ok:
  assumes "seq (markVerified verify u) (\<lambda>u. seq (issueTokenPair s (u_ID u) (u_Email u) ua ip) (\<lambda>tokens.
     seq (call_hook h u) (\<lambda>_. ret (u, tokens)))) w = (Inr p, w')"
  shows "us_inv (users (db w)) \<longrightarrow>
     u_ID (fst p) = u_ID u \<and> holds_session s (snd p) (u_ID u) None (db w')"
  using assms by (auto dest!: issueTokenPair_holds dest: markVerified_ok(2))

lemma IssueSession_ok:
  assumes inv: "us_inv (users (db w))"
    and run: "IssueSession s userID m ua ip w = (Inr res, w')" and tok: "ar_Tokens res = Some tp"
  shows "\<exists>u. mem_GetUserByID (users (db w)) userID = Inr u \<and> u_ID (ar_User res) = userID \<and>
     \<not> lo_locked (lockouts (db w)) userID \<and>
     (uc_EmailVerification (sv_cfg s) = EmailVerificationRequired \<longrightarrow> u_EmailVerified u \<or> ProvesEmail m) \<and>
     (\<not> owes_two_factor (db w) userID \<or> SatisfiesTwoFactor m) \<and>
     holds_session s tp userID None (db w')"
proof -
  define G where "G u = (mem_GetUserByID (users (db w)) userID = Inr u)" for u
  have own: "mem_GetUserByID (users (db w)) userID = Inr u \<longleftrightarrow> G u \<and> u_ID u = userID" for u
    using us_get_id [OF inv] by (auto simp: G_def)
  show ?thesis
    using run tok inv unfolding IssueSession_def Let_def auditVerified_def
    by (auto split: if_splits elim!: txIf_ok dest!: mark_issue_ok
        simp: own port_defs owes_two_factor_def mem_IsAccountLocked_def; metis)
qed

end
