(* ===== verification/LoginProps.thy ===== *)
theory LoginProps
  imports UserLogin
begin

text \<open>
  What the sign-in flows of package \<open>user\<close> guarantee: the soundness and the completeness of the
  password login, the second factor, the lockout, refresh rotation and the hand-over from other
  identity packages.
\<close>

section \<open>Lemmas\<close>

lemma attempts_at_frame:
  assumes s: "lockout_only s" and nf: "faults w = []"
    and bad: "\<And>t p ua ip. (t, p, ua, ip) \<in> set xs \<Longrightarrow> bad_credentials s (db w) email p"
  shows "faults (attempts_at s email xs w) = [] \<and> users (db (attempts_at s email xs w)) = users (db w) \<and>
     lo_locked (lockouts (db (attempts_at s email xs w))) = lo_locked (lockouts (db w))"
  using nf bad
proof (induction xs arbitrary: w)
  case Nil
  then show ?case by simp
next
  case (Cons x xs)
  obtain t p ua ip where x: "x = (t, p, ua, ip)" by (cases x)
  obtain r w1 where run: "Authenticate s email p ua ip (w\<lparr>clock := t\<rparr>) = (r, w1)" by fastforce
  have "bad_credentials s (db (w\<lparr>clock := t\<rparr>)) email p" and "faults (w\<lparr>clock := t\<rparr>) = []"
    using Cons.prems x by auto
  note b = Authenticate_bad_run [OF s this(2,1) run]
  have "bad_credentials s (db w1) email q \<longleftrightarrow> bad_credentials s (db w) email q" for q
    using b(2,3) by (simp add: bad_credentials_def split: sum.splits)
  then have "faults (attempts_at s email xs w1) = [] \<and>
      users (db (attempts_at s email xs w1)) = users (db w1) \<and>
      lo_locked (lockouts (db (attempts_at s email xs w1))) = lo_locked (lockouts (db w1))"
    using Cons.IH [OF b(1)] Cons.prems(2) by (metis list.set_intros(2))
  then show ?case using b(2,3) x run by simp
qed

lemma Authenticate_locked_run:
  assumes s: "lockout_only s" and nf: "faults w = []"
    and lo: "locked_out s (db w) (clock w) (NormalizeEmail email)"
    and fetch: "mem_GetUserByEmail (users (db w)) (NormalizeEmail email) \<noteq> Inl Panic"
  shows "fst (Authenticate s email p ua ip w) = Inl (User ErrAccountLocked)"
proof -
  let ?e = "NormalizeEmail email"
  define L where "L = limits (snd (AllowEach Noop (login_keys ip ?e) w))"
  have a: "AllowEach Noop (login_keys ip ?e) w = (Inr (), w\<lparr>limits := L\<rparr>)"
    unfolding L_def by (rule Noop_AllowEach)
  have err: "mem_GetUserByEmail (users (db w)) ?e = Inl e \<Longrightarrow> e = ErrNotFound" for e
    using fetch by (auto simp: mem_defs row_via_def split: option.splits)
  have "checkLockoutAndFetchUser s ?e (w\<lparr>limits := L\<rparr>) = (Inr (True,
      case mem_GetUserByEmail (users (db w)) ?e of Inl _ \<Rightarrow> None | Inr u \<Rightarrow> Some u), w\<lparr>limits := L\<rparr>)"
    using nf lo by (auto simp: checkLockoutAndFetchUser_def seq_def on_def ret_def port_defs
        dest: err split: sum.splits)
  then show ?thesis
    using s a by (simp add: lockout_only_def Authenticate_def Let_def on_def seq_def raise_def)
qed

text \<open>A signer that never fails, as HMAC and the configured keys are.\<close>

definition signs :: "signer \<Rightarrow> bool" where
  "signs g \<longleftrightarrow> (\<forall>c. \<exists>t. sg_Sign g c = Inr t)"

lemma issueSession_runs:
  assumes nf: "faults w = []" and sg: "signs (sv_signer s)"
  shows "\<exists>p w'. issueSession s u e t ua ip w = (Inr p, w') \<and> faults w' = [] \<and> clock w' = clock w"
proof -
  obtain x where "sg_Sign (sv_signer s) (applyDefaults (sv_signer s) (clock w)
      (newAccessClaims (clock w) u e t (clock w + uc_AccessTokenTTL (sv_cfg s)))) = Inr x"
    using sg by (auto simp: signs_def)
  then show ?thesis
    using nf by (simp add: issueSession_def Let_def seq_def on_def raise_def port_defs on_refresh_def
        mem_CreateRefreshToken_def Generate_def lift_def ret_def)
qed

lemma rehash_runs:
  assumes "faults w = []"
  shows "\<exists>u' w'. rehashIfNeeded s u p w = (Inr u', w') \<and> faults w' = []"
  using assms
  by (cases "h_Hash (uc_PasswordHasher (sv_cfg s)) (draw (h_salt (uc_PasswordHasher (sv_cfg s))) w) p")
    (auto simp: rehashIfNeeded_def Let_def on_def ignoring_def ret_def port_defs on_users_def split: sum.splits)


text \<open>A valid login on a world without faults goes through.\<close>

definition may_log_in :: "service \<Rightarrow> dbase \<Rightarrow> time \<Rightarrow> user \<Rightarrow> bool" where
  "may_log_in s d t u \<longleftrightarrow> \<not> locked_out s d t (u_Email u) \<and> \<not> lo_locked (lockouts d) (u_ID u) \<and>
     (uc_EmailVerification (sv_cfg s) = EmailVerificationRequired \<longrightarrow> u_EmailVerified u) \<and>
     \<not> owes_two_factor d (u_ID u)"

lemma completePasswordLogin_runs:
  assumes nf: "faults w = []" and hk: "hk_AfterAuthenticate (uc_Hooks (sv_cfg s)) = None"
    and sg: "signs (sv_signer s)"
    and pol: "uc_EmailVerification (sv_cfg s) = EmailVerificationRequired \<longrightarrow> u_EmailVerified u"
    and two: "\<not> owes_two_factor (db w) (u_ID u)"
  shows "\<exists>res w'. completePasswordLogin s u p e ua ip w = (Inr res, w')"
proof -
  obtain u' w1 where re: "rehashIfNeeded s u p w = (Inr u', w1)" and nf1: "faults w1 = []"
    using rehash_runs [OF nf] by blast
  from rehash_ok [OF re] have u': "u_ID u' = u_ID u" "u_EmailVerified u' = u_EmailVerified u"
    and d: "totp (db w1) = totp (db w)" by auto
  have en: "twoFactorEnabled (u_ID u') w1 = (Inr False, w1)"
    using nf1 two by (auto simp: u' d twoFactorEnabled_def on_def ret_def port_defs owes_two_factor_def
        mem_GetTOTPSettingsByUserID_def split: option.splits)
  obtain l where cl: "ClearFailedLoginAttempts e w1 = (Inr (), w1\<lparr>db := (db w1)\<lparr>lockouts := l\<rparr>\<rparr>)"
    using nf1 by (auto simp: port_defs on_lockouts_def mem_ClearFailedLoginAttempts_def)
  obtain tp w2 where iss: "issueTokenPair s (u_ID u') (u_Email u') ua ip
      (w1\<lparr>db := (db w1)\<lparr>lockouts := l\<rparr>\<rparr>) = (Inr tp, w2)"
    using issueSession_runs [of "w1\<lparr>db := (db w1)\<lparr>lockouts := l\<rparr>\<rparr>" s "u_ID u'" "u_Email u'" None ua ip] nf1 sg
    unfolding issueTokenPair_def by auto
  show ?thesis
    using re en cl iss pol hk u'
    by (simp add: completePasswordLogin_def Let_def seq_def on_def ignoring_def txIf_def call_hook_def ret_def)
qed

lemma Authenticate_runs:
  assumes s: "lockout_only s" "hk_AfterAuthenticate (uc_Hooks (sv_cfg s)) = None" "signs (sv_signer s)"
    and nf: "faults w = []"
    and u: "mem_GetUserByEmail (users (db w)) (NormalizeEmail email) = Inr u" "u_Email u = NormalizeEmail email"
    and pw: "h_Verify (uc_PasswordHasher (sv_cfg s)) password (u_PasswordHash u)"
    and may: "may_log_in s (db w) (clock w) u"
  shows "\<exists>res w'. Authenticate s email password ua ip w = (Inr res, w')"
proof -
  let ?e = "NormalizeEmail email"
  define L where "L = limits (snd (AllowEach Noop (login_keys ip ?e) w))"
  let ?w = "w\<lparr>limits := L\<rparr>"
  have a: "AllowEach Noop (login_keys ip ?e) w = (Inr (), ?w)"
    unfolding L_def by (rule Noop_AllowEach)
  have c: "checkLockoutAndFetchUser s ?e ?w = (Inr (False, Some u), ?w)"
    using nf u may by (simp add: checkLockoutAndFetchUser_def seq_def on_def ret_def port_defs
        may_log_in_def mem_IsAccountLocked_def)
  obtain res w' where "completePasswordLogin s u password ?e ua ip ?w = (Inr res, w')"
    using completePasswordLogin_runs [of ?w s u password ?e ua ip] nf s may
    by (auto simp: may_log_in_def)
  then show ?thesis
    using a c pw s(1)
    by (simp add: lockout_only_def Authenticate_def Let_def on_run seq_run call_hook_def ret_def)
qed

section \<open>Register\<close>

lemma Register_ok:
  assumes "Register s email password w = (Inr u, w')"
  shows "u_Email u = NormalizeEmail email" and "uc_PasswordValidator (sv_cfg s) (NormalizeEmail email) password = None"
    and "h_Hash (uc_PasswordHasher (sv_cfg s)) (draw (h_salt (uc_PasswordHasher (sv_cfg s))) w) password =
         Inr (u_PasswordHash u)"
    and "mem_GetUserByEmail (users (db w)) (NormalizeEmail email) = Inl ErrNotFound"
    and "db w' = (db w)\<lparr>users := snd (mem_CreateUser u (users (db w)))\<rparr>"
    and "fst (mem_CreateUser u (users (db w))) = Inr ()"
    and "clock w' = clock w" and "\<not> u_EmailVerified u"
  using assms unfolding Register_def Let_def
  by (auto simp: port_defs elim!: txIf_ok split: if_splits option.splits)


section \<open>The password login\<close>

text \<open>
  C1. A password login that succeeds, whatever store calls fail on the way, has resolved the
  normalised address to the account it returns, verified the password against that account's stored
  hash, found neither lockout standing and the address verified where the policy asks; it asks for a
  second factor exactly when the account has one enabled, and otherwise the tokens it returns name a
  live session of that account in the stores.
\<close>

theorem login_sound:
  assumes "Authenticate s email password ua ip w = (Inr res, w')"
  shows "\<exists>u. mem_GetUserByEmail (users (db w)) (NormalizeEmail email) = Inr u \<and>
     u_ID (ar_User res) = u_ID u \<and>
     h_Verify (uc_PasswordHasher (sv_cfg s)) password (u_PasswordHash u) \<and>
     \<not> locked_out s (db w) (clock w) (NormalizeEmail email) \<and> \<not> lo_locked (lockouts (db w)) (u_ID u) \<and>
     (uc_EmailVerification (sv_cfg s) = EmailVerificationRequired \<longrightarrow> u_EmailVerified u) \<and>
     (ar_RequiresTwoFactor res \<longleftrightarrow> owes_two_factor (db w) (u_ID u)) \<and>
     (case ar_Tokens res of
        None \<Rightarrow> owes_two_factor (db w) (u_ID u)
      | Some tp \<Rightarrow> \<not> owes_two_factor (db w) (u_ID u) \<and> holds_session s tp (u_ID u) None (db w'))"
  using assms by (rule Authenticate_ok) (auto split: option.splits)

lemma demo_norm: "NormalizeEmail '' A@X '' = ''a@x''" "NormalizeEmail ''a@x'' = ''a@x''"
  by code_simp+

lemmas demo_login_defs = Authenticate_def demo_norm Let_def demo_defs run_defs AllowEach_def
  HasSuffix_colon_def Allow_def Noop_def checkLockoutAndFetchUser_def completePasswordLogin_def
  rehashIfNeeded_def twoFactorEnabled_def issueTokenPair_def issueSession_def Generate_def mem_defs
  locked_out_def lo_count_def row_via_def login_keys_def

text \<open>The login of the demonstration account.\<close>

lemma demo_login: "\<exists>res w'. Authenticate demo_service '' A@X '' ''pw'' ''ua'' ''ip'' demo_world = (Inr res, w')"
  by (simp add: demo_login_defs)

theorem login_sound_witness:
  "\<exists>res w'. Authenticate demo_service '' A@X '' ''pw'' ''ua'' ''ip'' demo_world = (Inr res, w') \<and>
     h_Verify demo_hasher ''pw'' (u_PasswordHash demo_user)"
proof -
  obtain res w' where run: "Authenticate demo_service '' A@X '' ''pw'' ''ua'' ''ip'' demo_world = (Inr res, w')"
    using demo_login by blast
  have "mem_GetUserByEmail (users (db demo_world)) ''a@x'' = Inr demo_user"
    by (simp add: demo_defs mem_defs row_via_def)
  with login_sound [OF run] run show ?thesis by (auto simp: demo_norm demo_service_def demo_config_def)
qed

text \<open>
  The second factor is never skipped: a password login to an account with two-factor enabled
  returns no tokens, writes no session, and does not forgive the failed attempts recorded against the
  address, so the password alone neither opens a session nor resets the lockout.
\<close>

theorem login_stops_at_second_factor:
  assumes "mem_GetUserByEmail (users (db w)) (NormalizeEmail email) = Inr u"
    and "owes_two_factor (db w) (u_ID u)"
    and "Authenticate s email password ua ip w = (r, w')"
  shows "refresh (db w') = refresh (db w) \<and>
     (\<exists>xs. lo_attempts (lockouts (db w')) = lo_attempts (lockouts (db w)) @ xs) \<and>
     (\<forall>res. r = Inr res \<longrightarrow> ar_Tokens res = None \<and> ar_RequiresTwoFactor res)"
  using assms(3)
proof (cases rule: Authenticate_cases)
  case (early e)
  then show ?thesis by simp
next
  case refused
  then show ?thesis by (simp add: attempts_kept_def)
next
  case (verified x w1)
  then have x: "x = u" using assms(1) by simp
  have "attempts_kept (db w1) (db w')"
    using completePasswordLogin_owing [OF _ verified(7)] assms(2) verified(5) x by simp
  moreover have "ar_Tokens res = None \<and> ar_RequiresTwoFactor res" if "r = Inr res" for res
    using completePasswordLogin_ok(3,4) [OF verified(7) [unfolded that]] assms(2) verified(5) x by simp
  ultimately show ?thesis using verified(5) by (simp add: attempts_kept_def)
qed

definition demo_factor :: totp_settings where
  "demo_factor = \<lparr>ts_ID = ''t1'', ts_UserID = ''u1'',
     ts_SecretEncrypted = replicate 12 0 @ bytes_of ''S'', ts_Enabled = True, ts_VerifiedAt = Some 0,
     ts_RecoveryCodeHashes = [HashToken ''code2''], ts_RecoveryCodesUsed = 0,
     ts_CreatedAt = 0, ts_UpdatedAt = 0\<rparr>"

definition demo_world2 :: world where
  "demo_world2 = demo_world\<lparr>db := (db demo_world)\<lparr>totp := [''u1'' \<mapsto> demo_factor]\<rparr>\<rparr>"

theorem login_stops_at_second_factor_witness:
  "\<exists>res w'. Authenticate demo_service '' A@X '' ''pw'' ''ua'' ''ip'' demo_world2 = (Inr res, w') \<and>
     ar_Tokens res = None"
proof -
  obtain res w' where run: "Authenticate demo_service '' A@X '' ''pw'' ''ua'' ''ip'' demo_world2 = (Inr res, w')"
    by (simp add: demo_login_defs demo_world2_def demo_factor_def createPendingTwoFactorSession_def)
  have "mem_GetUserByEmail (users (db demo_world2)) (NormalizeEmail '' A@X '') = Inr demo_user"
    and "owes_two_factor (db demo_world2) (u_ID demo_user)"
    by (simp_all add: demo_defs demo_world2_def demo_factor_def demo_norm mem_defs row_via_def owes_two_factor_def)
  from login_stops_at_second_factor [OF this run] run show ?thesis by auto
qed


text \<open>
  C25. No account enumeration: in services that look alike beforehand and whose stores do not fail, an address without
  an account and a wrong password for an account no operator has locked are refused with the same error (the lockout
  and the limiter included), and leave the same traces in everything the caller can observe later: the limiter, the
  randomness used, the failed attempts, the messages sent. (An account an operator has locked is told apart: the code
  answers \<open>ErrAccountLocked\<close> there, to a wrong password too.)
\<close>

theorem login_refusals_alike:
  assumes "looks_like w1 w2"
    and "bad_credentials s (db w1) email p1" and "bad_credentials s (db w2) email p2"
  shows "fst (Authenticate s email p1 ua ip w1) = fst (Authenticate s email p2 ua ip w2) \<and>
     looks_like (snd (Authenticate s email p1 ua ip w1)) (snd (Authenticate s email p2 ua ip w2))"
  using Authenticate_refused_alike [OF assms] by simp

theorem login_refusals_alike_witness:
  "fst (Authenticate demo_service ''a@x'' ''bad'' ''ua'' ''ip'' demo_world) =
   fst (Authenticate demo_service ''a@x'' ''pw'' ''ua'' ''ip'' (world0 0))"
proof -
  have "looks_like demo_world (world0 0)"
    by (simp add: looks_like_def demo_defs)
  moreover have "bad_credentials demo_service (db demo_world) ''a@x'' ''bad''"
    and "bad_credentials demo_service (db (world0 0)) ''a@x'' ''pw''"
    by (simp_all add: bad_credentials_def demo_norm demo_defs mem_defs row_via_def)
  ultimately show ?thesis
    using login_refusals_alike [of demo_world "world0 0" demo_service "''a@x''" "''bad''" "''pw''"]
    by simp
qed

text \<open>
  C24. The temporary lockout, of a service without a rate limiter (\<open>Noop\<close>) and without a \<open>BeforeAuthenticate\<close> hook,
  whose stores do not fail, and for an address whose account, if any, no operator has locked: once the failures already
  recorded for it, none from before the window, and the attempts with bad credentials made within the window reach the
  configured maximum, from any client addresses and in any order of instants, the next login to it is refused as
  locked, with the right password too.
\<close>

theorem lockout_after_failures:
  assumes "lockout_only s" and "faults w = []"
    and "\<And>t p ua ip. (t, p, ua, ip) \<in> set xs \<Longrightarrow> now - uc_FailedLoginWindow (sv_cfg s) < t \<and> t \<le> now"
    and "\<And>t p ua ip. (t, p, ua, ip) \<in> set xs \<Longrightarrow> bad_credentials s (db w) email p"
    and "\<And>a. a \<in> set (failures_of (NormalizeEmail email) (db w)) \<Longrightarrow>
        now - uc_FailedLoginWindow (sv_cfg s) < fa_CreatedAt a \<and> fa_CreatedAt a \<le> now"
    and "0 < length xs"
    and "uc_MaxFailedLoginAttempts (sv_cfg s) \<le> int (length (failures_of (NormalizeEmail email) (db w)) + length xs)"
  shows "fst (Authenticate s email password ua ip ((attempts_at s email xs w)\<lparr>clock := now\<rparr>)) =
     Inl (User ErrAccountLocked)"
proof -
  let ?e = "NormalizeEmail email"
  define w1 where "w1 = attempts_at s email xs w"
  note f = attempts_at_failures [OF assms(1,3,4,2,5) w1_def]
  have "locked_out s (db w1) now ?e \<longleftrightarrow>
      int (length (failures_of ?e (db w1))) \<ge> uc_MaxFailedLoginAttempts (sv_cfg s)"
    by (rule locked_out_recent) (use f in auto)
  then have lo: "locked_out s (db w1) now ?e" using f assms(7) by auto
  from attempts_at_frame [OF assms(1,2,4)]
  have fr: "faults w1 = []" "users (db w1) = users (db w)" by (simp_all add: w1_def)
  obtain t p ua' ip' where "(t, p, ua', ip') \<in> set xs" using assms(6) by (metis length_pos_if_in_set list.set_intros(1) neq_Nil_conv prod_cases4 length_greater_0_conv)
  then have "mem_GetUserByEmail (users (db w1)) ?e \<noteq> Inl Panic"
    using assms(4) fr by (fastforce simp: bad_credentials_def split: sum.splits)
  then show ?thesis
    using Authenticate_locked_run [OF assms(1), of "w1\<lparr>clock := now\<rparr>"] fr lo by (simp add: w1_def)
qed

theorem lockout_after_failures_witness:
  "fst (Authenticate demo_service ''a@x'' ''pw'' ''ua'' ''ip''
     ((attempts_at demo_service ''a@x'' [(1, ''bad'', ''ua'', ''ip''), (2, ''worse'', ''ua'', ''ip2'')] demo_world)
       \<lparr>clock := 3\<rparr>)) = Inl (User ErrAccountLocked)"
  by (rule lockout_after_failures)
    (auto simp: lockout_only_def bad_credentials_def failures_of_def demo_norm demo_defs mem_defs row_via_def
      duration_defs)

text \<open>
  The lockout heals by itself and a legitimate login goes through: with every recorded failure
  older than the window, no operator lock, no second factor and an acceptable address, the right
  password yields tokens that name a live session, and this clears the way for that address.
\<close>

theorem login_succeeds_after_window:
  assumes "lockout_only s" "hk_AfterAuthenticate (uc_Hooks (sv_cfg s)) = None" "signs (sv_signer s)"
    and "faults w = []" and "1 \<le> uc_MaxFailedLoginAttempts (sv_cfg s)"
    and "mem_GetUserByEmail (users (db w)) (NormalizeEmail email) = Inr u" "u_Email u = NormalizeEmail email"
    and "h_Verify (uc_PasswordHasher (sv_cfg s)) password (u_PasswordHash u)"
    and "\<And>a. a \<in> set (failures_of (NormalizeEmail email) (db w)) \<Longrightarrow>
        fa_CreatedAt a \<le> clock w - uc_FailedLoginWindow (sv_cfg s)"
    and "\<not> lo_locked (lockouts (db w)) (u_ID u)" and "\<not> owes_two_factor (db w) (u_ID u)"
    and "uc_EmailVerification (sv_cfg s) = EmailVerificationRequired \<longrightarrow> u_EmailVerified u"
  shows "\<exists>res tp w'. Authenticate s email password ua ip w = (Inr res, w') \<and> ar_Tokens res = Some tp \<and>
     holds_session s tp (u_ID u) None (db w')"
proof -
  have "may_log_in s (db w) (clock w) u"
    using locked_out_heals [of "NormalizeEmail email" "db w" "clock w" s] assms(5,7,9-12)
    by (simp add: may_log_in_def)
  then obtain res w' where run: "Authenticate s email password ua ip w = (Inr res, w')"
    using Authenticate_runs [OF assms(1-4,6,7,8)] by blast
  then show ?thesis
  proof (rule Authenticate_ok)
    fix x assume "mem_GetUserByEmail (users (db w)) (NormalizeEmail email) = Inr x"
      and "ar_Tokens res = None \<longleftrightarrow> owes_two_factor (db w) (u_ID x)"
      and "\<And>tp. ar_Tokens res = Some tp \<Longrightarrow> holds_session s tp (u_ID x) None (db w')"
    then show ?thesis using assms(6,11) run by (cases "ar_Tokens res") auto
  qed
qed

theorem login_succeeds_after_window_witness:
  "\<exists>res tp w'. Authenticate demo_service '' A@X '' ''pw'' ''ua'' ''ip'' demo_world = (Inr res, w') \<and>
     ar_Tokens res = Some tp \<and> holds_session demo_service tp ''u1'' None (db w')"
  using login_succeeds_after_window [of demo_service demo_world "'' A@X ''" demo_user "''pw''" "''ua''" "''ip''"]
  by (simp add: lockout_only_def signs_def failures_of_def owes_two_factor_def demo_norm demo_defs mem_defs
      row_via_def)

text \<open>
  Registering opens the door: after \<open>Register\<close> has returned an account, a login with the same
  password and any spelling of the address that normalises to the same one, at any later or earlier
  instant, succeeds and names that account.
\<close>

theorem register_then_login:
  assumes "Register s email password w = (Inr u, w')"
    and "hasher_correct (uc_PasswordHasher (sv_cfg s))"
    and "lockout_only s" "hk_AfterAuthenticate (uc_Hooks (sv_cfg s)) = None" "signs (sv_signer s)"
    and "faults w' = []" and "NormalizeEmail email' = NormalizeEmail email"
    and "\<not> locked_out s (db w) t (NormalizeEmail email)"
    and "\<not> lo_locked (lockouts (db w)) (u_ID u)" and "\<not> owes_two_factor (db w) (u_ID u)"
    and "uc_EmailVerification (sv_cfg s) = EmailVerificationOptional"
  shows "\<exists>res w2. Authenticate s email' password ua ip (w'\<lparr>clock := t\<rparr>) = (Inr res, w2) \<and>
     u_ID (ar_User res) = u_ID u \<and> ar_Tokens res \<noteq> None"
proof -
  note r = Register_ok [OF assms(1)]
  let ?w = "w'\<lparr>clock := t\<rparr>"
  have get: "mem_GetUserByEmail (users (db ?w)) (NormalizeEmail email') = Inr u"
    using r(1,5,6) assms(7) by (auto simp: mem_defs row_via_def split: option.splits)
  have may: "may_log_in s (db ?w) (clock ?w) u"
    using assms(8-11) r(1,5) by (simp add: may_log_in_def locked_out_def owes_two_factor_def)
  have pw: "h_Verify (uc_PasswordHasher (sv_cfg s)) password (u_PasswordHash u)"
    using assms(2) r(3) by (auto simp: hasher_correct_def)
  have "\<exists>res w2. Authenticate s email' password ua ip ?w = (Inr res, w2)"
    by (rule Authenticate_runs [OF assms(3-5) _ get _ pw may]) (simp_all add: assms(6,7) r(1))
  then obtain res w2 where run: "Authenticate s email' password ua ip ?w = (Inr res, w2)" by blast
  then show ?thesis
  proof (rule Authenticate_ok)
    fix x assume "mem_GetUserByEmail (users (db ?w)) (NormalizeEmail email') = Inr x"
      and "u_ID (ar_User res) = u_ID x" and "ar_Tokens res = None \<longleftrightarrow> owes_two_factor (db ?w) (u_ID x)"
    then show ?thesis using get may run by (auto simp: may_log_in_def)
  qed
qed

theorem register_then_login_witness:
  "\<exists>u w' res w2. Register demo_service ''b@X'' ''pw2'' demo_world = (Inr u, w') \<and>
     Authenticate demo_service '' B@x'' ''pw2'' ''ua'' ''ip'' (w'\<lparr>clock := 7\<rparr>) = (Inr res, w2)"
proof -
  have n: "NormalizeEmail ''b@X'' = ''b@x''" "NormalizeEmail '' B@x'' = ''b@x''" by code_simp+
  obtain u w' where run: "Register demo_service ''b@X'' ''pw2'' demo_world = (Inr u, w')"
    and "faults w' = []" and "totp (db demo_world) = Map.empty"
    by (simp add: Register_def n Let_def demo_defs run_defs Hash_def mem_defs row_via_def)
  have "hasher_correct (uc_PasswordHasher (sv_cfg demo_service))"
    by (auto simp: hasher_correct_def demo_defs)
  then have "\<exists>res w2. Authenticate demo_service '' B@x'' ''pw2'' ''ua'' ''ip'' (w'\<lparr>clock := 7\<rparr>) = (Inr res, w2) \<and>
     u_ID (ar_User res) = u_ID u \<and> ar_Tokens res \<noteq> None"
    by (rule register_then_login [OF run])
      (use \<open>faults w' = []\<close> \<open>totp _ = _\<close> in \<open>simp_all add: lockout_only_def signs_def owes_two_factor_def locked_out_def
        lo_count_def n demo_defs mem_defs\<close>)
  then show ?thesis using run by blast
qed

end
