(* ===== verification/UserTwoFactor.thy ===== *)
theory UserTwoFactor
  imports UserLogin
begin

text \<open>
  \<open>user/twofactor.go\<close>: setting up, confirming, disabling and inspecting the TOTP second factor, its
  single-use backup codes, and \<open>VerifyTwoFactorLogin\<close>, which completes a login that stopped at the
  password.
\<close>

section \<open>The operations\<close>

record two_factor_setup =
  tf_Secret :: string
  tf_OTPAuthURL :: string

record two_factor_status =
  tf_Enabled :: bool
  tf_VerifiedAt :: "time option"
  tf_RemainingBackupCodes :: nat

text \<open>\<open>TwoFactorEnrollment\<close> has one field, the codes.\<close>

type_synonym two_factor_enrollment = "string list"

definition upsertTOTPSettings :: "string \<Rightarrow> totp_settings \<Rightarrow> unit prog" where
  "upsertTOTPSettings userID settings =
     on (GetTOTPSettingsByUserID userID)
       (\<lambda>e. if e \<noteq> ErrNotFound then raise e else CreateTOTPSettings settings)
       (\<lambda>_. UpdateTOTPSettings settings)"

definition BeginTwoFactorSetup :: "service \<Rightarrow> string \<Rightarrow> string \<Rightarrow> two_factor_setup prog" where
  "BeginTwoFactorSetup s userID accountEmail =
     (let c = sv_cfg s;
          setup =
            seq (GenerateTOTPSecret (sv_totp s) (uc_TOTPIssuer c) accountEmail) (\<lambda>(secret, url).
            seq (EncryptSecret (sv_aead s) (uc_TOTPEncryptionKey c) secret) (\<lambda>encrypted.
            seq NewID (\<lambda>id.
            with_now (\<lambda>now.
            seq (upsertTOTPSettings userID
                   \<lparr>ts_ID = id, ts_UserID = userID, ts_SecretEncrypted = encrypted, ts_Enabled = False,
                    ts_VerifiedAt = None, ts_RecoveryCodeHashes = [], ts_RecoveryCodesUsed = 0,
                    ts_CreatedAt = now, ts_UpdatedAt = now\<rparr>) (\<lambda>_.
            ret \<lparr>tf_Secret = secret, tf_OTPAuthURL = url\<rparr>)))))
      in on (GetTOTPSettingsByUserID userID)
           (\<lambda>e. if e \<noteq> ErrNotFound then raise e else setup)
           (\<lambda>existing. if ts_Enabled existing then raise (User ErrTwoFactorEnabled) else setup))"

definition getDecryptedTOTPSettings :: "service \<Rightarrow> string \<Rightarrow> (totp_settings \<times> string) prog" where
  "getDecryptedTOTPSettings s userID =
     on (GetTOTPSettingsByUserID userID)
       (\<lambda>e. if e = ErrNotFound then raise (User ErrTwoFactorNotEnabled) else raise e)
       (\<lambda>settings.
         seq (lift (DecryptSecret (sv_aead s) (uc_TOTPEncryptionKey (sv_cfg s)) (ts_SecretEncrypted settings)))
           (\<lambda>secret. ret (settings, secret)))"

definition ConfirmTwoFactorSetup :: "service \<Rightarrow> string \<Rightarrow> string \<Rightarrow> two_factor_enrollment prog" where
  "ConfirmTwoFactorSetup s userID code =
     seq (getDecryptedTOTPSettings s userID) (\<lambda>(settings, secret).
     with_now (\<lambda>now.
       if \<not> ValidateTOTPCode (sv_totp s) now secret code then raise (User ErrInvalidTwoFactor)
       else
         seq (GenerateBackupCodes (nat (uc_BackupCodeCount (sv_cfg s)))) (\<lambda>codes.
         seq (UpdateTOTPSettings (settings\<lparr>ts_Enabled := True, ts_VerifiedAt := Some now,
                ts_RecoveryCodeHashes := map HashBackupCode codes, ts_RecoveryCodesUsed := 0,
                ts_UpdatedAt := now\<rparr>)) (\<lambda>_.
         seq (log ((event_of EventUserTwoFactorEnabled ResultSuccess)\<lparr>ev_ActorID := userID\<rparr>)) (\<lambda>_.
         ret codes)))))"

text \<open>
  The loop of \<open>consumeBackupCode\<close>: the first hash that equals the code's is cut out of the slice.
  (\<open>subtle.ConstantTimeCompare\<close> of the bytes is equality of the strings.)
\<close>

fun cut_first :: "string \<Rightarrow> string list \<Rightarrow> string list option" where
  "cut_first hash [] = None"
| "cut_first hash (h # hs) = (if h = hash then Some hs else map_option ((#) h) (cut_first hash hs))"

definition consumeBackupCode :: "totp_settings \<Rightarrow> string \<Rightarrow> bool \<times> totp_settings" where
  "consumeBackupCode settings code =
     (case cut_first (HashBackupCode code) (ts_RecoveryCodeHashes settings) of
        None \<Rightarrow> (False, settings)
      | Some hs \<Rightarrow> (True, settings\<lparr>ts_RecoveryCodeHashes := hs,
                       ts_RecoveryCodesUsed := ts_RecoveryCodesUsed settings + 1\<rparr>))"

definition DisableTwoFactor :: "service \<Rightarrow> string \<Rightarrow> string \<Rightarrow> unit prog" where
  "DisableTwoFactor s userID code =
     seq (getDecryptedTOTPSettings s userID) (\<lambda>(settings, secret).
     with_now (\<lambda>now.
       if \<not> ValidateTOTPCode (sv_totp s) now secret code \<and> \<not> fst (consumeBackupCode settings code)
       then raise (User ErrInvalidTwoFactor)
       else
         seq (DeleteTOTPSettings userID) (\<lambda>_.
         log ((event_of EventUserTwoFactorDisabled ResultSuccess)\<lparr>ev_ActorID := userID\<rparr>))))"

definition RegenerateBackupCodes :: "service \<Rightarrow> string \<Rightarrow> string \<Rightarrow> string list prog" where
  "RegenerateBackupCodes s userID totpCode =
     seq (getDecryptedTOTPSettings s userID) (\<lambda>(settings, secret).
     with_now (\<lambda>now.
       if \<not> ValidateTOTPCode (sv_totp s) now secret totpCode then raise (User ErrInvalidTwoFactor)
       else
         seq (GenerateBackupCodes (nat (uc_BackupCodeCount (sv_cfg s)))) (\<lambda>codes.
         seq (UpdateTOTPSettings (settings\<lparr>ts_RecoveryCodeHashes := map HashBackupCode codes,
                ts_RecoveryCodesUsed := 0, ts_UpdatedAt := now\<rparr>)) (\<lambda>_.
         ret codes))))"

definition TwoFactorStatus :: "string \<Rightarrow> two_factor_status prog" where
  "TwoFactorStatus userID =
     on (GetTOTPSettingsByUserID userID)
       (\<lambda>e. if e = ErrNotFound
            then ret \<lparr>tf_Enabled = False, tf_VerifiedAt = None, tf_RemainingBackupCodes = 0\<rparr>
            else raise e)
       (\<lambda>settings. ret \<lparr>tf_Enabled = ts_Enabled settings, tf_VerifiedAt = ts_VerifiedAt settings,
            tf_RemainingBackupCodes = length (ts_RecoveryCodeHashes settings)\<rparr>)"

text \<open>\<open>VerifyTwoFactorLogin\<close>: the checks up to the transaction, and the transaction and what follows.\<close>

record verified_factor =
  vf_pending :: pending_session
  vf_user :: user
  vf_settings :: totp_settings
  vf_usedBackupCode :: bool

definition two_factor_keys :: "string \<Rightarrow> string \<Rightarrow> string list" where
  "two_factor_keys ipAddress userID = [''two-factor:ip:'' @ ipAddress, ''two-factor:user:'' @ userID]"

definition verifySecondFactor ::
  "service \<Rightarrow> string \<Rightarrow> string \<Rightarrow> string \<Rightarrow> string \<Rightarrow> verified_factor prog" where
  "verifySecondFactor s pendingToken code userAgent ipAddress =
     (let c = sv_cfg s in
      on (GetPendingTwoFactorSessionByHash (HashToken pendingToken))
        (\<lambda>e. if e = ErrNotFound then raise (User ErrInvalidToken) else raise e)
        (\<lambda>p. with_now (\<lambda>now.
      if After now (ps_ExpiresAt p) then raise (User ErrInvalidToken)
      else
      seq (GetUserByID (ps_UserID p)) (\<lambda>u.
      on (AllowEach (uc_RateLimiter c) (two_factor_keys ipAddress (u_ID u)))
        (\<lambda>e. seq (auditRateLimited EventUserLoginFailed (u_ID u) (u_Email u) userAgent ipAddress)
               (\<lambda>_. raise e))
        (\<lambda>_.
      seq (throttled s (u_Email u)) (\<lambda>locked.
      if locked
      then seq (log (login_event EventUserLoginLocked ResultDenied (u_ID u) (u_Email u) userAgent ipAddress
                       [(''stage'', MStr ''two_factor'')]))
             (\<lambda>_. raise (User ErrAccountLocked))
      else
      seq (getDecryptedTOTPSettings s (ps_UserID p)) (\<lambda>(settings, secret).
      if ValidateTOTPCode (sv_totp s) now secret code
      then ret \<lparr>vf_pending = p, vf_user = u, vf_settings = settings, vf_usedBackupCode = False\<rparr>
      else
        (case consumeBackupCode settings code of
           (True, settings) \<Rightarrow>
             ret \<lparr>vf_pending = p, vf_user = u, vf_settings = settings, vf_usedBackupCode = True\<rparr>
         | (False, settings) \<Rightarrow>
             seq (recordFailedLogin s (u_Email u) ipAddress) (\<lambda>_.
             seq (log (login_event EventUserLoginFailed ResultFailure (ps_UserID p) '''' userAgent ipAddress
                         [(''reason'', MStr ''invalid_two_factor'')]))
               (\<lambda>_. raise (User ErrInvalidTwoFactor)))))))))))"

definition completeTwoFactorLogin ::
  "service \<Rightarrow> verified_factor \<Rightarrow> string \<Rightarrow> string \<Rightarrow> auth_result prog" where
  "completeTwoFactorLogin s v userAgent ipAddress =
     (let u = vf_user v in
      seq (RunInTx (sv_Tx s)
        (seq (if vf_usedBackupCode v then UpdateTOTPSettings (vf_settings v) else ret ()) (\<lambda>_.
         seq (DeletePendingTwoFactorSession (ps_ID (vf_pending v))) (\<lambda>_.
         seq (issueTokenPair s (u_ID u) (u_Email u) userAgent ipAddress) (\<lambda>tokens.
         seq (call_hook (hk_AfterAuthenticate (uc_Hooks (sv_cfg s))) u) (\<lambda>_.
         ret tokens)))))) (\<lambda>tokens.
      ignoring (ClearFailedLoginAttempts (u_Email u))
      (seq (log (login_event EventUserLoginSucceeded ResultSuccess (u_ID u) (u_Email u) userAgent ipAddress
                   [(''via'', MStr ''two_factor'')])) (\<lambda>_.
      ret \<lparr>ar_User = u, ar_Tokens = Some tokens, ar_RequiresTwoFactor = False,
           ar_PendingTwoFactorToken = ''''\<rparr>))))"

definition VerifyTwoFactorLogin ::
  "service \<Rightarrow> string \<Rightarrow> string \<Rightarrow> string \<Rightarrow> string \<Rightarrow> auth_result prog" where
  "VerifyTwoFactorLogin s pendingToken code userAgent ipAddress =
     seq (verifySecondFactor s pendingToken code userAgent ipAddress) (\<lambda>v.
       completeTwoFactorLogin s v userAgent ipAddress)"

section \<open>Backup codes\<close>

lemma cut_first_iff: "cut_first h hs = (if h \<in> set hs then Some (remove1 h hs) else None)"
  by (induction hs) auto

lemma consume_ok:
  "consumeBackupCode t code = (True, t') \<longleftrightarrow>
     HashBackupCode code \<in> set (ts_RecoveryCodeHashes t) \<and>
     t' = t\<lparr>ts_RecoveryCodeHashes := remove1 (HashBackupCode code) (ts_RecoveryCodeHashes t),
            ts_RecoveryCodesUsed := ts_RecoveryCodesUsed t + 1\<rparr>"
  by (auto simp: consumeBackupCode_def cut_first_iff)

lemma consume_no:
  "consumeBackupCode t code = (False, t') \<longleftrightarrow>
     HashBackupCode code \<notin> set (ts_RecoveryCodeHashes t) \<and> t' = t"
  by (auto simp: consumeBackupCode_def cut_first_iff)

text \<open>The codes left and the codes used add up to the codes issued, and a used code is gone for good.\<close>

definition codes_issued :: "totp_settings \<Rightarrow> int" where
  "codes_issued t = int (length (ts_RecoveryCodeHashes t)) + ts_RecoveryCodesUsed t"

lemma fst_consume: "fst (consumeBackupCode t code) \<longleftrightarrow> HashBackupCode code \<in> set (ts_RecoveryCodeHashes t)"
  by (simp add: consumeBackupCode_def cut_first_iff)

lemma consume_conserves:
  assumes "consumeBackupCode t code = (b, t')" shows "codes_issued t' = codes_issued t"
proof (cases b)
  case True
  then have "HashBackupCode code \<in> set (ts_RecoveryCodeHashes t)" using assms by (simp add: consume_ok)
  then have "1 \<le> length (ts_RecoveryCodeHashes t)" by (cases "ts_RecoveryCodeHashes t") auto
  then show ?thesis using assms True by (auto simp: consume_ok codes_issued_def length_remove1 of_nat_diff)
next
  case False
  then show ?thesis using assms by (simp add: consume_no)
qed

lemma consume_distinct:
  "consumeBackupCode t code = (True, t') \<Longrightarrow> distinct (ts_RecoveryCodeHashes t) \<Longrightarrow>
   distinct (ts_RecoveryCodeHashes t') \<and> \<not> fst (consumeBackupCode t' code)"
  by (auto simp: consume_ok fst_consume)

lemma consume_other:
  "consumeBackupCode t code = (True, t') \<Longrightarrow> HashBackupCode other \<noteq> HashBackupCode code \<Longrightarrow>
   fst (consumeBackupCode t' other) = fst (consumeBackupCode t other)"
  by (simp add: consume_ok fst_consume)

section \<open>What a verified second factor has established\<close>

lemma getDecryptedD:
  "getDecryptedTOTPSettings s userID w = (Inr (t, secret), w') \<Longrightarrow>
   db w' = db w \<and> clock w' = clock w \<and> totp (db w) userID = Some t \<and>
   DecryptSecret (sv_aead s) (uc_TOTPEncryptionKey (sv_cfg s)) (ts_SecretEncrypted t) = Inr secret"
  unfolding getDecryptedTOTPSettings_def
  by (auto simp: port_defs mem_GetTOTPSettingsByUserID_def split: option.splits if_splits)

lemma AllowEach_db: "AllowEach l ks w = (r, w') \<Longrightarrow> db w' = db w \<and> clock w' = clock w"
  by (erule AllowEach_frame) simp

definition factor_proved :: "service \<Rightarrow> time \<Rightarrow> totp_settings \<Rightarrow> string \<Rightarrow> bool \<Rightarrow> totp_settings \<Rightarrow> bool" where
  "factor_proved s now t code usedBackupCode t' \<longleftrightarrow>
     (\<exists>secret. DecryptSecret (sv_aead s) (uc_TOTPEncryptionKey (sv_cfg s)) (ts_SecretEncrypted t) = Inr secret \<and>
        (if usedBackupCode then \<not> ValidateTOTPCode (sv_totp s) now secret code \<and> consumeBackupCode t code = (True, t')
         else ValidateTOTPCode (sv_totp s) now secret code \<and> t' = t))"

lemma verifySecondFactor_ok:
  assumes "verifySecondFactor s tok code ua ip w = (Inr v, w')"
  shows "mem_GetPendingTwoFactorSessionByHash (pending (db w)) (HashToken tok) = Inr (vf_pending v)"
    and "clock w \<le> ps_ExpiresAt (vf_pending v)"
    and "mem_GetUserByID (users (db w)) (ps_UserID (vf_pending v)) = Inr (vf_user v)"
    and "\<not> locked_out s (db w) (clock w) (u_Email (vf_user v))"
    and "\<exists>t. totp (db w) (ps_UserID (vf_pending v)) = Some t \<and>
       factor_proved s (clock w) t code (vf_usedBackupCode v) (vf_settings v)"
    and "db w' = db w" and "clock w' = clock w"
  using assms unfolding verifySecondFactor_def Let_def auditRateLimited_def
  by (auto simp: port_defs factor_proved_def After_def split: if_splits prod.splits bool.splits
      dest!: AllowEach_db getDecryptedD dest: recordFailedLogin_adds(1))

lemma issueTokenPair_frame:
  "issueTokenPair s u e ua ip w = (Inr p, w') \<Longrightarrow>
   holds_session s p u None (db w') \<and> totp (db w') = totp (db w) \<and> pending (db w') = pending (db w)"
  by (frule issueTokenPair_holds, drule issueTokenPair_ok(1)) (simp add: add_session_def)

lemma holds_session_lockouts [simp]: "holds_session s p u t (d\<lparr>lockouts := x\<rparr>) = holds_session s p u t d"
  by (simp add: holds_session_def)

lemma completeTwoFactorLogin_ok:
  assumes "completeTwoFactorLogin s v ua ip w = (Inr res, w')"
  shows "ar_User res = vf_user v \<and>
     (\<exists>tp. ar_Tokens res = Some tp \<and> holds_session s tp (u_ID (vf_user v)) None (db w')) \<and>
     pending (db w') = snd (mem_DeletePendingTwoFactorSession (ps_ID (vf_pending v)) (pending (db w))) \<and>
     totp (db w') = (if vf_usedBackupCode v then (totp (db w))(ts_UserID (vf_settings v) \<mapsto> vf_settings v)
       else totp (db w))"
  using assms unfolding completeTwoFactorLogin_def Let_def
  by (auto simp: port_defs mem_UpdateTOTPSettings_def split: if_splits elim!: RunInTx_ok
      dest!: issueTokenPair_frame)


lemma recordFailedLogin_kept:
  "recordFailedLogin s e ip w = (r, w') \<Longrightarrow> r = Inr () \<and> attempts_kept (db w) (db w')"
  using recordFailedLogin_adds unfolding attempts_kept_def by blast

lemma verifySecondFactor_error:
  assumes "verifySecondFactor s tok code ua ip w = (Inl e, w')"
  shows "refresh (db w') = refresh (db w) \<and> pending (db w') = pending (db w) \<and> totp (db w') = totp (db w) \<and>
     users (db w') = users (db w) \<and> (\<exists>xs. lo_attempts (lockouts (db w')) = lo_attempts (lockouts (db w)) @ xs)"
proof -
  have l: "leaves (\<lambda>d. (refresh d, pending d, totp d, users d)) (verifySecondFactor s tok code ua ip)"
    unfolding verifySecondFactor_def Let_def getDecryptedTOTPSettings_def port_defs
    by (intro keeps_rules leaves_rules) auto
  have m: "attempts_kept (db w) (db w')"
    using assms unfolding verifySecondFactor_def Let_def auditRateLimited_def
    by (auto simp: port_defs attempts_kept_refl getDecryptedTOTPSettings_def split: if_splits prod.splits bool.splits
        dest!: AllowEach_db recordFailedLogin_kept)
  then show ?thesis using leavesD [OF l assms] by (simp add: attempts_kept_def)
qed

lemma completeTwoFactorLogin_error:
  assumes "completeTwoFactorLogin s v ua ip w = (Inl e, w')" and "sv_Tx s"
  shows "db w' = db w"
  using assms unfolding completeTwoFactorLogin_def Let_def
  by (auto dest!: RunInTx_error)

lemma recordFailedLogin_failures:
  "faults w = [] \<Longrightarrow> recordFailedLogin s e ip w = (r, w') \<Longrightarrow>
   failures_of e (db w') = failures_of e (db w) @ [attempt_row e ip w]"
  by (auto simp: recordFailedLogin_run failures_of_def attempt_row_def)

end
