(* ===== verification/UserSessions.thy ===== *)
theory UserSessions
  imports UserTwoFactor
begin

text \<open>
  \<open>user/sessions.go\<close> and \<open>user/team.go\<close>: listing and revoking sessions, resolving an opaque session
  token, its sliding expiry, and switching the team a session acts in.
\<close>

section \<open>Listing and revoking\<close>

record session =
  ss_ID :: string
  ss_IsCurrent :: bool
  ss_TeamID :: string
  ss_UserAgent :: string
  ss_IPAddress :: string
  ss_CreatedAt :: time
  ss_ExpiresAt :: time

definition session_view :: "string \<Rightarrow> refresh_token \<Rightarrow> session" where
  "session_view currentHash t =
     \<lparr>ss_ID = rt_ID t, ss_IsCurrent = (currentHash \<noteq> '''' \<and> rt_TokenHash t = currentHash),
      ss_TeamID = (case rt_TeamID t of None \<Rightarrow> '''' | Some team \<Rightarrow> team),
      ss_UserAgent = rt_UserAgent t, ss_IPAddress = rt_IPAddress t, ss_CreatedAt = rt_CreatedAt t,
      ss_ExpiresAt = rt_ExpiresAt t\<rparr>"

definition ListSessions :: "string \<Rightarrow> string \<Rightarrow> session list prog" where
  "ListSessions userID currentRefreshToken =
     seq (ListActiveRefreshTokens userID) (\<lambda>tokens.
       let currentHash = (if currentRefreshToken \<noteq> '''' then HashToken currentRefreshToken else '''') in
       ret (map (session_view currentHash) tokens))"

text \<open>The loop of \<open>RevokeSession\<close>: the first row with the id.\<close>

definition RevokeSession :: "string \<Rightarrow> string \<Rightarrow> unit prog" where
  "RevokeSession userID sessionID =
     seq (ListActiveRefreshTokens userID) (\<lambda>tokens.
       case find (\<lambda>t. rt_ID t = sessionID) tokens of
         None \<Rightarrow> raise (User ErrSessionNotFound)
       | Some t \<Rightarrow>
           seq (RevokeRefreshToken (rt_ID t)) (\<lambda>_.
           log ((event_of EventUserSessionRevoked ResultSuccess)
             \<lparr>ev_ActorID := userID, ev_TargetID := sessionID\<rparr>)))"

text \<open>Both loops over the active sessions stop at the first store error; they answer how many they revoked.\<close>

fun revoke_others :: "string \<Rightarrow> refresh_token list \<Rightarrow> nat \<Rightarrow> nat prog" where
  "revoke_others currentHash [] revoked = ret revoked"
| "revoke_others currentHash (t # ts) revoked =
     (if rt_TokenHash t = currentHash then revoke_others currentHash ts revoked
      else seq (RevokeRefreshToken (rt_ID t)) (\<lambda>_. revoke_others currentHash ts (revoked + 1)))"

definition RevokeOtherSessions :: "string \<Rightarrow> string \<Rightarrow> unit prog" where
  "RevokeOtherSessions userID currentRefreshToken =
     (if currentRefreshToken = '''' then raise (User ErrCurrentSessionRequired)
      else
      seq (ListActiveRefreshTokens userID) (\<lambda>tokens.
      seq (revoke_others (HashToken currentRefreshToken) tokens 0) (\<lambda>revoked.
      if revoked > 0
      then log ((event_of EventUserSessionRevoked ResultSuccess)\<lparr>ev_ActorID := userID,
             ev_Metadata := [(''count'', MInt (int revoked)), (''scope'', MStr ''other_sessions'')]\<rparr>)
      else ret ())))"

fun revoke_rows :: "refresh_token list \<Rightarrow> unit prog" where
  "revoke_rows [] = ret ()"
| "revoke_rows (t # ts) = seq (RevokeRefreshToken (rt_ID t)) (\<lambda>_. revoke_rows ts)"

text \<open>\<open>RevokeAllSessions\<close> (user/operator.go)\<close>

definition RevokeAllSessions :: "string \<Rightarrow> string \<Rightarrow> nat prog" where
  "RevokeAllSessions operatorID userID =
     seq (ListActiveRefreshTokens userID) (\<lambda>tokens.
     seq (revoke_rows tokens) (\<lambda>_.
     seq (log ((event_of EventUserSessionRevoked ResultSuccess)\<lparr>ev_ActorID := operatorID, ev_TargetID := userID,
             ev_Metadata := [(''by'', MStr ''operator''), (''count'', MInt (int (length tokens)))]\<rparr>)) (\<lambda>_.
     ret (length tokens))))"

section \<open>Resolving a session token\<close>

text \<open>It returns the expiry the session has afterwards, which the code writes back through the pointer.\<close>

definition extendSession :: "service \<Rightarrow> refresh_token \<Rightarrow> time \<Rightarrow> time prog" where
  "extendSession s t now =
     (let c = sv_cfg s in
      if uc_SessionSlidingWindow c < 0 then ret (rt_ExpiresAt t)
      else if Before now (rt_ExpiresAt t - uc_RefreshTokenTTL c + uc_SessionSlidingWindow c) then ret (rt_ExpiresAt t)
      else
        let expires = now + uc_RefreshTokenTTL c in
        on (TouchRefreshToken (rt_ID t) expires)
          (\<lambda>e. if e = ErrNotFound then ret (rt_ExpiresAt t) else raise e)
          (\<lambda>_. ret expires))"

definition ValidateSession :: "service \<Rightarrow> string \<Rightarrow> claims prog" where
  "ValidateSession s token =
     (if uc_SessionMode (sv_cfg s) \<noteq> SessionModeOpaque then raise (User ErrWrongSessionMode)
      else if token = '''' then raise (User ErrInvalidToken)
      else
      on (GetRefreshTokenByHash (HashToken token))
        (\<lambda>e. if e = ErrNotFound then raise (User ErrInvalidToken) else raise e)
        (\<lambda>t. with_now (\<lambda>now.
      if rt_RevokedAt t \<noteq> None \<or> After now (rt_ExpiresAt t) then raise (User ErrInvalidToken)
      else
      on (GetUserByID (rt_UserID t))
        (\<lambda>e. if e = ErrNotFound then raise (User ErrInvalidToken) else raise e)
        (\<lambda>u.
      seq (requireActiveMembership s t) (\<lambda>_.
      seq (extendSession s t now) (\<lambda>expiresAt.
      ret (newAccessClaims now (u_ID u) (u_Email u) (rt_TeamID t) expiresAt)))))))"

section \<open>Switching teams\<close>

definition replayed :: "service \<Rightarrow> refresh_token \<Rightarrow> string \<Rightarrow> string \<Rightarrow> token_pair prog" where
  "replayed s t userAgent ipAddress =
     (if uc_SessionMode (sv_cfg s) = SessionModeJWT
      then seq (revokeFamilyOnReuse t userAgent ipAddress) (\<lambda>_. raise (User ErrInvalidToken))
      else raise (User ErrInvalidToken))"

definition SwitchTeam :: "service \<Rightarrow> string \<Rightarrow> string \<Rightarrow> string \<Rightarrow> string \<Rightarrow> token_pair prog" where
  "SwitchTeam s sessionToken teamID userAgent ipAddress =
     (if \<not> sv_Members s then raise (User ErrNoMemberStore)
      else if sessionToken = '''' then raise (User ErrInvalidToken)
      else
      on (GetRefreshTokenByHash (HashToken sessionToken))
        (\<lambda>e. if e = ErrNotFound then raise (User ErrInvalidToken) else raise e)
        (\<lambda>t. with_now (\<lambda>now.
      if After now (rt_ExpiresAt t) then raise (User ErrInvalidToken)
      else
      seq (requireActiveMembership s t) (\<lambda>_.
      if rt_RevokedAt t \<noteq> None then replayed s t userAgent ipAddress
      else
      on (GetUserByID (rt_UserID t))
        (\<lambda>e. if e = ErrNotFound then raise (User ErrInvalidToken) else raise e)
        (\<lambda>u.
      let target = (if teamID \<noteq> '''' then Some teamID else None) in
      on (RunInTx (sv_Tx s)
           (seq (if target \<noteq> None then checkMembership (u_ID u) teamID (User ErrNotTeamMember) else ret ()) (\<lambda>_.
            seq (ConsumeRefreshToken (rt_ID t)) (\<lambda>consumed.
            if \<not> consumed then raise errTokenSpent
            else issueSession s (u_ID u) (u_Email u) target userAgent ipAddress))))
        (\<lambda>e. if e = errTokenSpent then replayed s t userAgent ipAddress else raise e)
        (\<lambda>tokens.
      seq (log (login_event EventUserTeamSwitched ResultSuccess (u_ID u) (u_Email u) userAgent ipAddress
             [(''team_id'', MStr teamID),
              (''from_team_id'', MStr (case rt_TeamID t of None \<Rightarrow> '''' | Some team \<Rightarrow> team))]))
        (\<lambda>_. ret tokens)))))))"

section \<open>Revocation\<close>

text \<open>A revoked row stays revoked, whatever the session operations do next.\<close>

definition stays_revoked :: "refresh_store \<Rightarrow> refresh_store \<Rightarrow> bool" where
  "stays_revoked r r' \<longleftrightarrow>
     (\<forall>i t. rs_byID r i = Some t \<longrightarrow> rt_RevokedAt t \<noteq> None \<longrightarrow>
        (\<exists>t'. rs_byID r' i = Some t' \<and> rt_RevokedAt t' \<noteq> None))"

lemma stays_revoked_refl: "stays_revoked r r"
  by (auto simp: stays_revoked_def)

lemma stays_revoked_trans: "stays_revoked r r' \<Longrightarrow> stays_revoked r' r'' \<Longrightarrow> stays_revoked r r''"
  unfolding stays_revoked_def by blast

interpretation revocation: db_order "\<lambda>d d'. stays_revoked (refresh d) (refresh d')"
  by unfold_locales (auto intro: stays_revoked_refl stays_revoked_trans)

lemma stays_revoked_ops:
  "stays_revoked r (snd (mem_RevokeRefreshToken t i r))" "stays_revoked r (snd (mem_ConsumeRefreshToken t i r))"
  "stays_revoked r (snd (mem_TouchRefreshToken i x r))"
  by (auto simp: stays_revoked_def mem_defs split: option.splits if_splits)

end
