(* ===== verification/HashVectors.thy ===== *)
theory HashVectors
  imports Encoding
begin

text \<open>
  \<open>HashToken\<close> evaluated by the kernel: the one-block test vector of FIPS 180-4, and the hash of the
  token the first 32 bytes of the demonstration worlds' random source make. The witnesses that need
  two tokens with different hashes rest on these.
\<close>

lemma chunks_Cons: "0 < n \<Longrightarrow> chunks n (x # xs) = take n (x # xs) # chunks n (drop n (x # xs))"
  by (subst chunks.simps) simp

lemma chunks_Nil [simp]: "chunks n [] = []"
  by (subst chunks.simps) simp

lemma chunks_one: "length xs = n \<Longrightarrow> 0 < n \<Longrightarrow> chunks n xs = [xs]"
  by (subst chunks.simps) auto

lemma Sum256_one: "length (sha_pad bs) = 64 \<Longrightarrow> Sum256 bs =
    concat (map bytes_of_word (sha_compress sha_init (map word_of_bytes (chunks 4 (sha_pad bs)))))"
  by (simp add: Sum256_def chunks_one)

lemma replicate_numeral: "replicate (numeral k) x = x # replicate (pred_numeral k) x"
  by (simp add: numeral_eq_Suc)

lemma block_abc: "map word_of_bytes (chunks 4 (sha_pad (bytes_of ''abc''))) =
   [0x61626380, 0, 0, 0, 0, 0, 0, 0,
    0, 0, 0, 0, 0, 0, 0, 0x00000018]"
  by (simp add: sha_pad_def bytes_of_def byte_of_def chunks_Cons word_of_bytes_def upt_rec replicate_numeral)

lemma compress_abc: "sha_compress sha_init
   [0x61626380, 0, 0, 0, 0, 0, 0, 0,
    0, 0, 0, 0, 0, 0, 0, 0x00000018] =
   [0xba7816bf, 0x8f01cfea, 0x414140de, 0x5dae2223, 0xb00361a3, 0x96177a9c, 0xb410ff61, 0xf20015ad]"
  by code_simp

lemma block_first: "map word_of_bytes (chunks 4 (sha_pad (bytes_of ''AAECAwQFBgcICQoLDA0ODxAREhMUFRYXGBkaGxwdHh8''))) =
   [0x41414543, 0x41775146, 0x42676349, 0x43516f4c, 0x4441304f, 0x44784152, 0x45684d55, 0x46525958,
    0x47426b61, 0x47787764, 0x48683880, 0, 0, 0, 0, 0x00000158]"
  by (simp add: sha_pad_def bytes_of_def byte_of_def chunks_Cons word_of_bytes_def upt_rec replicate_numeral)

lemma compress_first: "sha_compress sha_init
   [0x41414543, 0x41775146, 0x42676349, 0x43516f4c, 0x4441304f, 0x44784152, 0x45684d55, 0x46525958,
    0x47426b61, 0x47787764, 0x48683880, 0, 0, 0, 0, 0x00000158] =
   [0xea866a75, 0x7e4c38ba, 0xbfa8127c, 0xbe9a409d, 0x3e1f93a0, 0x0ff1488f, 0xf735fcf9, 0x17afffd0]"
  by code_simp

lemma HashToken_abc:
  "HashToken ''abc'' =
     ''ba7816bf8f01cfea414140de5dae2223b00361a396177a9cb410ff61f20015ad''"
proof -
  have "length (sha_pad (bytes_of ''abc'')) = 64" by (simp add: sha_pad_def bytes_of_def)
  then have "Sum256 (bytes_of ''abc'') = concat (map bytes_of_word
    [0xba7816bf, 0x8f01cfea, 0x414140de, 0x5dae2223, 0xb00361a3, 0x96177a9c, 0xb410ff61, 0xf20015ad])"
    by (simp only: Sum256_one block_abc compress_abc)
  then show ?thesis
    by (simp add: HashToken_def bytes_of_word_def hex_encode_def hex_byte_def hex_digits_def)
qed

lemma HashToken_first:
  "HashToken ''AAECAwQFBgcICQoLDA0ODxAREhMUFRYXGBkaGxwdHh8'' =
     ''ea866a757e4c38babfa8127cbe9a409d3e1f93a00ff1488ff735fcf917afffd0''"
proof -
  have "length (sha_pad (bytes_of ''AAECAwQFBgcICQoLDA0ODxAREhMUFRYXGBkaGxwdHh8'')) = 64" by (simp add: sha_pad_def bytes_of_def)
  then have "Sum256 (bytes_of ''AAECAwQFBgcICQoLDA0ODxAREhMUFRYXGBkaGxwdHh8'') = concat (map bytes_of_word
    [0xea866a75, 0x7e4c38ba, 0xbfa8127c, 0xbe9a409d, 0x3e1f93a0, 0x0ff1488f, 0xf735fcf9, 0x17afffd0])"
    by (simp only: Sum256_one block_first compress_first)
  then show ?thesis
    by (simp add: HashToken_def bytes_of_word_def hex_encode_def hex_byte_def hex_digits_def)
qed

lemma first_token: "b64url_encode (map (\<lambda>k. of_nat k) [0..<32]) = ''AAECAwQFBgcICQoLDA0ODxAREhMUFRYXGBkaGxwdHh8''"
  by (simp add: b64url_encode_def url_alphabet_def upt_rec)

end
