(* ===== verification/RefreshProps.thy ===== *)
theory RefreshProps
  imports LoginProps HashVectors Formats
begin

text \<open>
  Refresh rotation: what one call guarantees, the detection of a replayed token, logout, the hand-over
  to \<open>IssueSession\<close>, and the race of concurrent refreshes as a step relation whose every interleaving
  has at most one winner.
\<close>

section \<open>One call\<close>

lemma add_session_row:
  "rs_byID (refresh (add_session row d)) i = (if i = rt_ID row then Some row else rs_byID (refresh d) i)"
  by (simp add: add_session_def mem_defs)

text \<open>
  C2. A refresh that returns tokens has found a live, unexpired session, of a team membership still
  active when the session acts in a team; it has spent that session's row with a compare-and-set, and
  written exactly one row, of the same user and team, which the returned token names; the old row is
  dead afterwards.
\<close>

theorem refresh_rotates:
  assumes "Refresh s tok ua ip w = (Inr p, w')"
  shows "\<exists>t d row. mem_GetRefreshTokenByHash (refresh (db w)) (HashToken tok) = Inr t \<and>
     clock w \<le> rt_ExpiresAt t \<and> rt_RevokedAt t = None \<and>
     (\<forall>team. rt_TeamID t = Some team \<longrightarrow> sv_Members s \<longrightarrow>
        (\<exists>m. mem_GetMemberByUserAndTeam (members (db w)) (rt_UserID t) team = Inr m \<and> m_IsActive m)) \<and>
     mem_ConsumeRefreshToken (clock w) (rt_ID t) (refresh (db w)) = (Inr True, d) \<and>
     db w' = add_session row ((db w)\<lparr>refresh := d\<rparr>) \<and>
     (us_inv (users (db w)) \<longrightarrow> rt_UserID row = rt_UserID t) \<and> rt_TeamID row = rt_TeamID t \<and>
     rt_ExpiresAt row = clock w + uc_RefreshTokenTTL (sv_cfg s) \<and>
     rt_TokenHash row = HashToken (session_token s p) \<and>
     (rt_ID row \<noteq> rt_ID t \<longrightarrow> \<not> refresh_live (refresh (db w')) (rt_ID t))"
proof (rule Refresh_ok [OF assms], goal_cases)
  case (1 t u d w0)
  let ?row = "session_row s (u_ID u) (rt_TeamID t) ua ip w0"
  have "\<not> refresh_live d (rt_ID t)"
    using refresh_spend.spend_dead [of "rt_ID t" "clock w" "refresh (db w)"] 1(7)
    by (simp add: consume_refresh_def)
  then have "rt_ID ?row \<noteq> rt_ID t \<longrightarrow> \<not> refresh_live (refresh (db w')) (rt_ID t)"
    using 1(8) by (simp add: refresh_live_def add_session_row)
  moreover have "us_inv (users (db w)) \<longrightarrow> rt_UserID ?row = rt_UserID t"
    using 1(5) by (auto dest: us_get_id)
  ultimately show ?case
    using 1 by (intro exI [of _ t] exI [of _ d] exI [of _ ?row]) simp
qed

definition demo_session :: refresh_token where
  "demo_session = \<lparr>rt_ID = ''r1'', rt_UserID = ''u1'', rt_TokenHash = HashToken ''abc'', rt_ExpiresAt = hour,
     rt_RevokedAt = None, rt_UserAgent = ''ua'', rt_IPAddress = ''ip'', rt_TeamID = None, rt_CreatedAt = 0\<rparr>"

definition demo_world3 :: world where
  "demo_world3 = demo_world\<lparr>db := add_session demo_session (db demo_world)\<rparr>"

lemmas demo_refresh_defs = demo_world3_def demo_session_def add_session_def Refresh_def requireActiveMembership_def
  issueSession_def Generate_def RunInTx_def run_defs Let_def mem_defs row_via_def demo_defs time_defs duration_defs

theorem refresh_rotates_witness:
  "\<exists>p w' row d. Refresh demo_service ''abc'' ''ua'' ''ip'' demo_world3 = (Inr p, w') \<and>
     db w' = add_session row d \<and> rt_TokenHash row = HashToken (session_token demo_service p)"
proof -
  obtain p w' where run: "Refresh demo_service ''abc'' ''ua'' ''ip'' demo_world3 = (Inr p, w')"
    by (simp add: demo_refresh_defs)
  from refresh_rotates [OF run] show ?thesis using run by blast
qed

section \<open>Replay\<close>

text \<open>The membership a session acts under, where the service has the member store: still there and active.\<close>

definition team_active :: "service \<Rightarrow> refresh_token \<Rightarrow> dbase \<Rightarrow> bool" where
  "team_active s t d \<longleftrightarrow> (\<forall>team. rt_TeamID t = Some team \<longrightarrow> sv_Members s \<longrightarrow>
     (\<exists>m. mem_GetMemberByUserAndTeam (members d) (rt_UserID t) team = Inr m \<and> m_IsActive m))"

lemma Refresh_reuse:
  assumes mode: "uc_SessionMode (sv_cfg s) = SessionModeJWT" and nf: "faults w = []"
    and inv: "rs_inv (refresh (db w))"
    and t: "mem_GetRefreshTokenByHash (refresh (db w)) (HashToken tok) = Inr t"
    and live: "clock w \<le> rt_ExpiresAt t" and spent: "rt_RevokedAt t \<noteq> None" and team: "team_active s t (db w)"
    and run: "Refresh s tok ua ip w = (r, w')"
  shows "r = Inl (User ErrInvalidToken)" and "rs_inv (refresh (db w'))"
    and "\<And>i row. rs_byID (refresh (db w')) i = Some row \<Longrightarrow> rt_UserID row = rt_UserID t \<Longrightarrow>
           rt_RevokedAt row \<noteq> None"
    and "\<exists>e. trail w' = trail w @ [e] \<and> ev_Type e = EventUserTokenReuse \<and> ev_ActorID e = rt_UserID t"
proof -
  have get: "GetRefreshTokenByHash (HashToken tok) w = (Inr t, w)"
    using nf t by (simp add: port_defs)
  obtain d where rev: "mem_RevokeAllUserRefreshTokens (clock w) (rt_UserID t) (refresh (db w)) = (Inr (), d)"
    using revoke_all_eq [OF inv] by blast
  have fam: "RevokeAllUserRefreshTokens (rt_UserID t) w = (Inr (), w\<lparr>db := (db w)\<lparr>refresh := d\<rparr>\<rparr>)"
    using nf rev by (simp add: port_defs)
  have mem: "requireActiveMembership s t w = (Inr (), w)"
    using nf team unfolding requireActiveMembership_def checkMembership_def
    by (auto simp: team_active_def port_defs run_defs split: option.splits)
  from run have all: "r = Inl (User ErrInvalidToken) \<and> db w' = (db w)\<lparr>refresh := d\<rparr> \<and>
      (\<exists>e. trail w' = trail w @ [e] \<and> ev_Type e = EventUserTokenReuse \<and> ev_ActorID e = rt_UserID t)"
    using mode live spent
    by (auto simp: Refresh_def on_def seq_def raise_def get fam mem After_def
        ret_def revokeFamilyOnReuse_def Let_def event_of_def)
  then show "r = Inl (User ErrInvalidToken)" and "rs_inv (refresh (db w'))"
    and "\<exists>e. trail w' = trail w @ [e] \<and> ev_Type e = EventUserTokenReuse \<and> ev_ActorID e = rt_UserID t"
    using rs_inv_revoke_all [OF inv rev] by auto
  show "rt_RevokedAt row \<noteq> None" if "rs_byID (refresh (db w')) i = Some row" and "rt_UserID row = rt_UserID t"
    for i row
    using revoke_all_revokes [OF inv rev] that all by auto
qed

text \<open>
  What may have become of the session table in between: a row stays under its hash, of the same user, team and expiry,
  and revoked once it was; new rows may have been added.
\<close>

definition sessions_kept :: "refresh_store \<Rightarrow> refresh_store \<Rightarrow> bool" where
  "sessions_kept r r' \<longleftrightarrow> rs_inv r' \<and> rs_byHash r \<subseteq>\<^sub>m rs_byHash r' \<and>
     (\<forall>i t. rs_byID r i = Some t \<longrightarrow> (\<exists>t'. rs_byID r' i = Some t' \<and> rt_UserID t' = rt_UserID t \<and> rt_TeamID t' = rt_TeamID t \<and>
        rt_ExpiresAt t' = rt_ExpiresAt t \<and> (rt_RevokedAt t \<noteq> None \<longrightarrow> rt_RevokedAt t' \<noteq> None)))"

lemma sessions_kept_refl: "rs_inv r \<Longrightarrow> sessions_kept r r"
  by (simp add: sessions_kept_def)

lemma sessions_keptD:
  assumes "sessions_kept r r'" and "rs_byHash r h = Some i" and "rs_byID r i = Some t"
  shows "rs_inv r' \<and> rs_byHash r' h = Some i \<and> (\<exists>t'. rs_byID r' i = Some t' \<and> rt_UserID t' = rt_UserID t \<and>
    rt_TeamID t' = rt_TeamID t \<and> rt_ExpiresAt t' = rt_ExpiresAt t \<and> (rt_RevokedAt t \<noteq> None \<longrightarrow> rt_RevokedAt t' \<noteq> None))"
proof -
  have "rs_byHash r' h = Some i" using assms(1,2) by (metis sessions_kept_def map_le_def domI)
  then show ?thesis using assms(1,3) unfolding sessions_kept_def by blast
qed

text \<open>What a refresh leaves under the hash of the token it was given: the same session, revoked.\<close>

lemma refresh_spends:
  assumes "Refresh s tok ua ip w = (Inr p, w1)" and inv: "rs_inv (refresh (db w))"
    and t: "mem_GetRefreshTokenByHash (refresh (db w)) (HashToken tok) = Inr t"
    and n: "mem_GetRefreshTokenByHash (refresh (db w1)) (HashToken (session_token s p)) = Inr n"
    and fresh: "rt_ID n \<noteq> rt_ID t" "HashToken (session_token s p) \<noteq> HashToken tok"
  shows "rs_byHash (refresh (db w1)) (HashToken tok) = Some (rt_ID t)"
    and "rs_byID (refresh (db w1)) (rt_ID t) = Some (t\<lparr>rt_RevokedAt := Some (clock w)\<rparr>)"
    and "rs_inv (refresh (db w1))" and "uc_SessionMode (sv_cfg s) = SessionModeJWT"
proof (atomize (full), rule Refresh_ok [OF assms(1)], goal_cases)
  case (1 t' u d w0)
  then have t': "t' = t" using t by simp
  let ?row = "session_row s (u_ID u) (rt_TeamID t) ua ip w0"
  have db1: "db w1 = add_session ?row ((db w)\<lparr>refresh := d\<rparr>)" using 1(8) t' by simp
  have "mem_GetRefreshTokenByHash (refresh (db w1)) (rt_TokenHash ?row) = Inr ?row"
    using db1 by (simp add: session_found [of ?row, simplified])
  then have "n = ?row" using n 1(9) by simp
  obtain old where old: "rs_byID (refresh (db w)) (rt_ID t) = Some old"
    and d: "d = (refresh (db w))\<lparr>rs_byID := (rs_byID (refresh (db w)))(rt_ID t \<mapsto> old\<lparr>rt_RevokedAt := Some (clock w)\<rparr>)\<rparr>"
    using consumeE [OF 1(7) [unfolded t']] .
  obtain i where i: "rs_byHash (refresh (db w)) (HashToken tok) = Some i" "rs_byID (refresh (db w)) i = Some t"
    using t unfolding mem_GetRefreshTokenByHash_def by (auto dest: row_via_SomeD)
  have "i = rt_ID t" using i(2) inv by (auto simp: rs_inv_def)
  then have "old = t" using i(2) old by simp
  have "rs_inv d" using rs_inv_consume [OF inv 1(7)] .
  then have "rs_inv (refresh (db w1))" unfolding db1 add_session_def
    using rs_inv_create [of d ?row "fst (mem_CreateRefreshToken ?row d)" "snd (mem_CreateRefreshToken ?row d)"] by simp
  moreover have "rt_TokenHash ?row \<noteq> HashToken tok" using fresh(2) 1(9) by simp
  ultimately show ?case
    using 1(1) fresh(1) i \<open>i = rt_ID t\<close> unfolding db1
    by (simp add: add_session_def mem_defs d \<open>n = ?row\<close> \<open>old = t\<close>)
qed

text \<open>
  C14. Reuse detection, end to end: a token that has been refreshed and is presented again, at once or after any
  requests that leave its row in the table, while it has not expired, the membership of the team it acts in, if any, is
  active, and no call of the store fails. Whoever presents the copy, the call is refused with the same error as a
  garbage token, every session the user then has is revoked, those issued since the first refresh included, and
  one reuse event naming the user is logged.
\<close>

theorem refresh_replay_revokes_family:
  assumes "Refresh s tok ua ip w = (Inr p, w1)" and "rs_inv (refresh (db w))"
    and "mem_GetRefreshTokenByHash (refresh (db w)) (HashToken tok) = Inr t"
    and "mem_GetRefreshTokenByHash (refresh (db w1)) (HashToken (session_token s p)) = Inr n"
    and "rt_ID n \<noteq> rt_ID t" and "HashToken (session_token s p) \<noteq> HashToken tok"
    and "sessions_kept (refresh (db w1)) (refresh (db w2))" and "faults w2 = []" and "clock w2 \<le> rt_ExpiresAt t"
    and "team_active s t (db w2)" and "Refresh s tok ua' ip' w2 = (r, w3)"
  shows "r = Inl (User ErrInvalidToken) \<and>
     (\<forall>i row. rs_byID (refresh (db w3)) i = Some row \<longrightarrow> rt_UserID row = rt_UserID t \<longrightarrow> rt_RevokedAt row \<noteq> None) \<and>
     (\<exists>e. trail w3 = trail w2 @ [e] \<and> ev_Type e = EventUserTokenReuse \<and> ev_ActorID e = rt_UserID t)"
proof -
  note spent = refresh_spends [OF assms(1-6)]
  obtain t' where t': "rs_byID (refresh (db w2)) (rt_ID t) = Some t'" "rt_UserID t' = rt_UserID t" "rt_TeamID t' = rt_TeamID t"
      "rt_ExpiresAt t' = rt_ExpiresAt t" "rt_RevokedAt t' \<noteq> None"
    and inv: "rs_inv (refresh (db w2))" and hash: "rs_byHash (refresh (db w2)) (HashToken tok) = Some (rt_ID t)"
    using sessions_keptD [OF assms(7) spent(1,2)] by auto
  have get: "mem_GetRefreshTokenByHash (refresh (db w2)) (HashToken tok) = Inr t'"
    using hash t'(1) by (simp add: mem_GetRefreshTokenByHash_def row_via_def)
  have active: "team_active s t' (db w2)" using assms(10) t' by (simp add: team_active_def)
  note reuse = Refresh_reuse [OF spent(4) assms(8) inv get _ t'(5) active assms(11)]
  show ?thesis using reuse assms(9) t' by auto
qed

lemma demo_fresh: "HashToken (b64url_encode (map (\<lambda>k. of_nat k) [0..<32])) \<noteq> HashToken ''abc''"
  by (simp add: first_token HashToken_abc HashToken_first)

lemma uuid_not: "length bs = 16 \<Longrightarrow> length i \<noteq> 36 \<Longrightarrow> uuid_of bs \<noteq> i"
  using uuid_of_length by blast

lemma demo_refresh:
  assumes "t = b64url_encode (map (\<lambda>k. of_nat k) [0..<32])"
  shows "\<exists>p w1 n. Refresh demo_service ''abc'' ''ua'' ''ip'' demo_world3 = (Inr p, w1) \<and> faults w1 = [] \<and>
     session_token demo_service p = t \<and>
     mem_GetRefreshTokenByHash (refresh (db w1)) (HashToken t) = Inr n \<and> rt_ID n \<noteq> ''r1''"
  using assms
  by (simp add: demo_refresh_defs session_token_def draw_def uuid_not)


theorem refresh_replay_revokes_family_witness:
  "\<exists>p w1 w2. Refresh demo_service ''abc'' ''ua'' ''ip'' demo_world3 = (Inr p, w1) \<and>
     Refresh demo_service ''abc'' ''evil'' ''ip2'' (w1\<lparr>clock := 5\<rparr>) = (Inl (User ErrInvalidToken), w2)"
proof -
  define t where "t = b64url_encode (map (\<lambda>k. of_nat k :: byte) [0..<32])"
  obtain p w1 n where run: "Refresh demo_service ''abc'' ''ua'' ''ip'' demo_world3 = (Inr p, w1)"
    and w1: "faults w1 = []" and p: "session_token demo_service p = t"
    and n: "mem_GetRefreshTokenByHash (refresh (db w1)) (HashToken t) = Inr n" "rt_ID n \<noteq> ''r1''"
    using demo_refresh [OF t_def] by blast
  obtain r w2 where again: "Refresh demo_service ''abc'' ''evil'' ''ip2'' (w1\<lparr>clock := 5\<rparr>) = (r, w2)"
    by fastforce
  have inv: "rs_inv (refresh (db demo_world3))"
    and get: "mem_GetRefreshTokenByHash (refresh (db demo_world3)) (HashToken ''abc'') = Inr demo_session"
    by (simp_all add: demo_world3_def demo_session_def add_session_def rs_inv_def demo_defs mem_defs
        row_via_def points_into_def points_into_all_def append_id_def no_ids_def)
  have found: "mem_GetRefreshTokenByHash (refresh (db w1)) (HashToken (session_token demo_service p)) = Inr n"
    and new: "rt_ID n \<noteq> rt_ID demo_session" "HashToken (session_token demo_service p) \<noteq> HashToken ''abc''"
    using n demo_fresh by (simp_all add: p t_def demo_session_def)
  have kept: "sessions_kept (refresh (db w1)) (refresh (db (w1\<lparr>clock := 5\<rparr>)))"
    using sessions_kept_refl [OF refresh_spends(3) [OF run inv get found new]] by simp
  have "faults (w1\<lparr>clock := 5\<rparr>) = []" "clock (w1\<lparr>clock := 5\<rparr>) \<le> rt_ExpiresAt demo_session"
      "team_active demo_service demo_session (db (w1\<lparr>clock := 5\<rparr>))"
    using w1 by (simp_all add: demo_session_def duration_defs team_active_def)
  from refresh_replay_revokes_family [OF run inv get found new kept this again]
  have "r = Inl (User ErrInvalidToken)" by simp
  then show ?thesis using run again by blast
qed

section \<open>Logout\<close>

text \<open>
  C22. Logout is final: in the stores a logout that reports success leaves, no refresh with that token
  returns tokens, at any later instant, whatever the client metadata.
\<close>

theorem logout_is_final:
  assumes "Logout tok w = (Inr (), w')" and "rs_inv (refresh (db w))"
  shows "fst (Refresh s tok ua ip (w'\<lparr>clock := t\<rparr>)) \<noteq> Inr p"
proof
  let ?w = "w'\<lparr>clock := t\<rparr>"
  assume "fst (Refresh s tok ua ip ?w) = Inr p"
  then obtain w2 where run: "Refresh s tok ua ip ?w = (Inr p, w2)" by (metis prod.collapse)
  show False
  proof (rule Refresh_ok [OF run], goal_cases)
    case (1 row u d w0)
    from assms(1) show False
      unfolding Logout_def
    proof (rule onE, goal_cases)
      case (1 e w1)
      then show False using \<open>mem_GetRefreshTokenByHash _ _ = _\<close> by (auto simp: port_defs split: if_splits)
    next
      case (2 row' w1)
      then have get: "mem_GetRefreshTokenByHash (refresh (db w)) (HashToken tok) = Inr row'"
        by (auto simp: port_defs)
      then obtain i where i: "rs_byHash (refresh (db w)) (HashToken tok) = Some i"
        "rs_byID (refresh (db w)) i = Some row'"
        unfolding mem_GetRefreshTokenByHash_def by (auto dest: row_via_SomeD)
      then have "rt_ID row' = i" using assms(2) by (auto simp: rs_inv_def)
      with 2 i have "mem_GetRefreshTokenByHash (refresh (db ?w)) (HashToken tok) =
          Inr (row'\<lparr>rt_RevokedAt := Some (clock w)\<rparr>)"
        by (auto simp: port_defs mem_defs row_via_def on_refresh_def split: option.splits)
      then show False using 1 by auto
    qed
  qed
qed

theorem logout_is_final_witness:
  "\<exists>w'. Logout ''abc'' demo_world3 = (Inr (), w') \<and>
     (\<forall>p. fst (Refresh demo_service ''abc'' ''ua'' ''ip'' (w'\<lparr>clock := 1\<rparr>)) \<noteq> Inr p)"
proof -
  obtain w' where run: "Logout ''abc'' demo_world3 = (Inr (), w')"
    by (simp add: Logout_def demo_refresh_defs)
  have "rs_inv (refresh (db demo_world3))"
    by (simp add: demo_world3_def demo_session_def add_session_def rs_inv_def demo_defs mem_defs
        points_into_def points_into_all_def append_id_def no_ids_def)
  from logout_is_final [OF run this] run show ?thesis by blast
qed

section \<open>IssueSession\<close>

text \<open>
  C23. Signing in through another identity package: when \<open>IssueSession\<close> returns tokens, the account
  exists, no operator lock stands, its address is verified or proved by the method where the policy
  asks, a second factor is owed by neither the account nor the method, and the tokens name a live
  session of exactly the user asked for.
\<close>

theorem issue_session_sound:
  assumes "us_inv (users (db w))"
    and "IssueSession s userID m ua ip w = (Inr res, w')" and "ar_Tokens res = Some tp"
  shows "\<exists>u. mem_GetUserByID (users (db w)) userID = Inr u \<and> u_ID (ar_User res) = userID \<and>
     \<not> lo_locked (lockouts (db w)) userID \<and>
     (uc_EmailVerification (sv_cfg s) = EmailVerificationRequired \<longrightarrow> u_EmailVerified u \<or> ProvesEmail m) \<and>
     (\<not> owes_two_factor (db w) userID \<or> SatisfiesTwoFactor m) \<and>
     holds_session s tp userID None (db w')"
  using IssueSession_ok [OF assms] .

theorem issue_session_sound_witness:
  "\<exists>res w' tp. IssueSession demo_service ''u1'' LoginMethodPasskey ''ua'' ''ip'' demo_world2 = (Inr res, w') \<and>
     ar_Tokens res = Some tp \<and> holds_session demo_service tp ''u1'' None (db w')"
proof -
  obtain res w' tp where run: "IssueSession demo_service ''u1'' LoginMethodPasskey ''ua'' ''ip'' demo_world2 = (Inr res, w')"
    and tok: "ar_Tokens res = Some tp"
    by (simp add: IssueSession_def LoginMethodPasskey_def SatisfiesTwoFactor_def ProvesEmail_def
        LoginMethodMagicLink_def LoginMethodSignInCode_def demo_world2_def markVerified_def auditVerified_def
        demo_login_defs mem_defs)
  have "us_inv (users (db demo_world2))"
    by (simp add: demo_world2_def us_inv_def demo_defs mem_defs points_into_def)
  from issue_session_sound [OF this run tok] run tok show ?thesis by blast
qed

end
