(* ===== verification/RefreshRace.thy ===== *)
theory RefreshRace
  imports UserSessions RefreshProps
begin

text \<open>
  Concurrent refreshes. \<open>Refresh\<close> is cut where another request can come between: it looks the token up,
  and later spends the row it holds a copy of. A step relation interleaves any number of callers with
  each other, with the clock and with every other operation that does not bring a revoked row back, and
  the invariant over its reachable states is that a row is spent by at most one caller.
\<close>

section \<open>The two halves of Refresh\<close>

definition refreshLookup :: "service \<Rightarrow> string \<Rightarrow> string \<Rightarrow> string \<Rightarrow> (refresh_token \<times> user) prog" where
  "refreshLookup s refreshToken userAgent ipAddress =
     (if uc_SessionMode (sv_cfg s) = SessionModeOpaque then raise (User ErrWrongSessionMode)
      else
      on (GetRefreshTokenByHash (HashToken refreshToken))
        (\<lambda>e. if e = ErrNotFound then raise (User ErrInvalidToken) else raise e)
        (\<lambda>t. with_now (\<lambda>now.
      if After now (rt_ExpiresAt t) then raise (User ErrInvalidToken)
      else
      seq (requireActiveMembership s t) (\<lambda>_.
      if rt_RevokedAt t \<noteq> None
      then seq (revokeFamilyOnReuse t userAgent ipAddress) (\<lambda>_. raise (User ErrInvalidToken))
      else seq (GetUserByID (rt_UserID t)) (\<lambda>u. ret (t, u))))))"

definition refreshSpend :: "service \<Rightarrow> refresh_token \<Rightarrow> user \<Rightarrow> string \<Rightarrow> string \<Rightarrow> token_pair prog" where
  "refreshSpend s t u userAgent ipAddress =
     on (RunInTx (sv_Tx s)
           (seq (ConsumeRefreshToken (rt_ID t)) (\<lambda>consumed.
            if \<not> consumed then raise errTokenSpent
            else issueSession s (u_ID u) (u_Email u) (rt_TeamID t) userAgent ipAddress)))
        (\<lambda>e. if e = errTokenSpent
             then seq (revokeFamilyOnReuse t userAgent ipAddress) (\<lambda>_. raise (User ErrInvalidToken))
             else raise e)
        (\<lambda>tokens.
      seq (log (login_event EventUserTokenRefreshed ResultSuccess (u_ID u) (u_Email u) userAgent ipAddress []))
        (\<lambda>_. ret tokens))"

text \<open>One call of \<open>Refresh\<close> is its two halves run without anything between, so the race below is of the code's calls.\<close>

lemma refresh_is_lookup_then_spend:
  "Refresh s tok ua ip = seq (refreshLookup s tok ua ip) (\<lambda>(t, u). refreshSpend s t u ua ip)"
  by (rule ext) (auto simp: Refresh_def refreshLookup_def refreshSpend_def seq_def on_def raise_def ret_def with_now_def
      split: prod.splits sum.splits)

section \<open>Interleavings\<close>

datatype caller = Waiting | Holding refresh_token user | Done "refresh_token option" "error + token_pair"

text \<open>The id \<open>issueSession\<close> will draw is not in use: 122 random bits.\<close>

definition fresh_id :: "world \<Rightarrow> bool" where
  "fresh_id w \<longleftrightarrow> rs_byID (refresh (db w)) (uuid_of (draw 16 (w\<lparr>rpos := rpos w + 32\<rparr>))) = None"

inductive race_step ::
  "service \<Rightarrow> world \<times> (nat \<Rightarrow> caller) \<Rightarrow> world \<times> (nat \<Rightarrow> caller) \<Rightarrow> bool" for s where
  lookup_fails: "C k = Waiting \<Longrightarrow> refreshLookup s tok ua ip w = (Inl e, w') \<Longrightarrow>
     race_step s (w, C) (w', C(k := Done None (Inl e)))"
| lookup: "C k = Waiting \<Longrightarrow> refreshLookup s tok ua ip w = (Inr (t, u), w') \<Longrightarrow>
     race_step s (w, C) (w', C(k := Holding t u))"
| spend: "C k = Holding t u \<Longrightarrow> fresh_id w \<Longrightarrow> refreshSpend s t u ua ip w = (r, w') \<Longrightarrow>
     race_step s (w, C) (w', C(k := Done (Some t) r))"
| tick: "race_step s (w, C) (w\<lparr>clock := now\<rparr>, C)"
| other: "stays_revoked (refresh (db w)) (refresh (db w')) \<Longrightarrow> race_step s (w, C) (w', C)"

inductive_cases race_stepE: "race_step s (w, C) S"

definition won :: "(nat \<Rightarrow> caller) \<Rightarrow> nat \<Rightarrow> string \<Rightarrow> bool" where
  "won C k i \<longleftrightarrow> (\<exists>t p. C k = Done (Some t) (Inr p) \<and> rt_ID t = i)"

definition race_inv :: "world \<times> (nat \<Rightarrow> caller) \<Rightarrow> bool" where
  "race_inv S \<longleftrightarrow> (case S of (w, C) \<Rightarrow>
     (\<forall>k i. won C k i \<longrightarrow> (\<exists>t. rs_byID (refresh (db w)) i = Some t \<and> rt_RevokedAt t \<noteq> None)) \<and>
     (\<forall>j k i. won C j i \<longrightarrow> won C k i \<longrightarrow> j = k))"

lemma won_upd: "won (C(k := x)) j i \<longleftrightarrow> (if j = k then \<exists>t p. x = Done (Some t) (Inr p) \<and> rt_ID t = i else won C j i)"
  by (simp add: won_def)

lemma revoke_each_stays:
  "revoke_each now is rows = (r, rows') \<Longrightarrow> rows i = Some t \<Longrightarrow> rt_RevokedAt t \<noteq> None \<Longrightarrow>
   \<exists>t'. rows' i = Some t' \<and> rt_RevokedAt t' \<noteq> None"
proof (induction "is" arbitrary: rows)
  case Nil
  then show ?case by simp
next
  case (Cons a js)
  from Cons.prems(1) show ?case
  proof (cases "rows a")
    case None
    then show ?thesis using Cons.prems by simp
  next
    case (Some x)
    let ?rows = "if rt_RevokedAt x = None then rows(a \<mapsto> x\<lparr>rt_RevokedAt := Some now\<rparr>) else rows"
    have "?rows i = Some t" using Some Cons.prems(2,3) by auto
    then show ?thesis using Cons.IH [of ?rows] Cons.prems(1,3) Some by simp
  qed
qed

lemma stays_revoked_all: "stays_revoked r (snd (mem_RevokeAllUserRefreshTokens now u r))"
  by (auto simp: stays_revoked_def mem_RevokeAllUserRefreshTokens_def dest: revoke_each_stays split: prod.splits)

lemma stays_revoked_allD: "mem_RevokeAllUserRefreshTokens now u r = (x, r') \<Longrightarrow> stays_revoked r r'"
  using stays_revoked_all [of r now u] by simp

lemma stays_revoked_create:
  "rs_byID r (rt_ID row) = None \<Longrightarrow> stays_revoked r (snd (mem_CreateRefreshToken row r))"
  by (auto simp: stays_revoked_def mem_CreateRefreshToken_def)

lemma revokeFamily_stays:
  "revokeFamilyOnReuse t ua ip w = (r, w') \<Longrightarrow> stays_revoked (refresh (db w)) (refresh (db w'))"
  using stays_revoked_all [of "refresh (db w)" "clock w" "rt_UserID t"]
  by (erule_tac revokeFamilyE) (auto intro: stays_revoked_refl)

lemma keeps_revoke_port:
  "keeps (\<lambda>d d'. stays_revoked (refresh d) (refresh d')) (RevokeRefreshToken i)"
  unfolding RevokeRefreshToken_def with_now_def on_refresh_def
  by (rule revocation.keepsI) (use stays_revoked_ops(1) in \<open>auto intro: stays_revoked_refl\<close>)

lemma lookup_stays:
  "refreshLookup s tok ua ip w = (r, w') \<Longrightarrow> stays_revoked (refresh (db w)) (refresh (db w'))"
proof (rule revocation.keepsD)
  have fam: "keeps (\<lambda>d d'. stays_revoked (refresh d) (refresh d')) (revokeFamilyOnReuse t ua ip)" for t
    by (rule revocation.keepsI) (rule revokeFamily_stays)
  have mem: "keeps (\<lambda>d d'. stays_revoked (refresh d) (refresh d')) (requireActiveMembership s t)" for t
    unfolding requireActiveMembership_def
    by (intro keeps_rules keeps_revoke_port)
  show "keeps (\<lambda>d d'. stays_revoked (refresh d) (refresh d')) (refreshLookup s tok ua ip)"
    unfolding refreshLookup_def GetRefreshTokenByHash_def GetUserByID_def
    by (intro keeps_rules fam mem)
qed

abbreviation spend_body :: "service \<Rightarrow> refresh_token \<Rightarrow> user \<Rightarrow> string \<Rightarrow> string \<Rightarrow> token_pair prog" where
  "spend_body s t u ua ip \<equiv> seq (ConsumeRefreshToken (rt_ID t)) (\<lambda>consumed.
      if \<not> consumed then raise errTokenSpent
      else issueSession s (u_ID u) (u_Email u) (rt_TeamID t) ua ip)"

lemma spend_body_stays:
  assumes "spend_body s t u ua ip w = (r, w')" and "fresh_id w"
  shows "stays_revoked (refresh (db w)) (refresh (db w')) \<and>
    (r = Inr p \<longrightarrow> refresh_live (refresh (db w)) (rt_ID t) \<and> \<not> refresh_live (refresh (db w')) (rt_ID t) \<and>
      rs_byID (refresh (db w')) (rt_ID t) \<noteq> None)"
proof -
  let ?r = "refresh (db w)" and ?i = "rt_ID t"
  show ?thesis
  proof (cases "\<exists>x w1. ConsumeRefreshToken ?i w = (Inr True, w1) \<and> issueSession s (u_ID u) (u_Email u) (rt_TeamID t) ua ip w1 = (x, w')
        \<and> r = x")
    case False
    then show ?thesis using assms(1) stays_revoked_ops(2) [of ?r "clock w" ?i]
      by (auto simp: port_defs stays_revoked_refl split: if_splits)
  next
    case True
    then obtain w1 where c: "ConsumeRefreshToken ?i w = (Inr True, w1)"
      and i: "issueSession s (u_ID u) (u_Email u) (rt_TeamID t) ua ip w1 = (r, w')" by blast
    then obtain d fs where d: "mem_ConsumeRefreshToken (clock w) ?i ?r = (Inr True, d)"
      and w1: "w1 = w\<lparr>faults := fs, db := (db w)\<lparr>refresh := d\<rparr>\<rparr>"
      by (auto simp: port_defs)
    obtain row where row: "rs_byID ?r ?i = Some row" "rt_RevokedAt row = None"
      and d': "d = ?r\<lparr>rs_byID := (rs_byID ?r)(?i \<mapsto> row\<lparr>rt_RevokedAt := Some (clock w)\<rparr>)\<rparr>"
      using consumeE [OF d] .
    let ?row = "session_row s (u_ID u) (rt_TeamID t) ua ip w"
    have new: "rs_byID d (rt_ID ?row) = None" "rt_ID ?row \<noteq> ?i"
      using assms(2) row by (auto simp: fresh_id_def session_row_def d')
    have res: "db w' = db w1 \<or> db w' = add_session ?row (db w1)"
      using issueSession_error issueSession_ok(1) i by (cases r) (fastforce simp: w1)+
    have stays: "stays_revoked ?r d" using stays_revoked_ops(2) [of ?r "clock w" ?i] d by simp
    then have "stays_revoked ?r (refresh (db w'))"
      using res stays_revoked_trans [OF stays stays_revoked_create [OF new(1)]] by (auto simp: w1 add_session_def)
    moreover have "rs_byID (refresh (db w')) ?i = rs_byID d ?i"
      using res new(2) by (auto simp: w1 add_session_row)
    ultimately show ?thesis using row d' by (auto simp: refresh_live_def)
  qed
qed

lemma spend_stays:
  assumes "refreshSpend s t u ua ip w = (r, w')" and "fresh_id w"
  shows "stays_revoked (refresh (db w)) (refresh (db w'))"
    and "r = Inr p \<Longrightarrow> refresh_live (refresh (db w)) (rt_ID t) \<and> \<not> refresh_live (refresh (db w')) (rt_ID t) \<and>
      rs_byID (refresh (db w')) (rt_ID t) \<noteq> None"
proof -
  have fresh: "fresh_id (w\<lparr>faults := fs\<rparr>)" for fs using assms(2) by (simp add: fresh_id_def draw_def)
  have err: "stays_revoked (refresh (db w)) (refresh (db w1))"
    if run: "RunInTx (sv_Tx s) (spend_body s t u ua ip) w = (Inl e, w1)" for e w1
  proof (rule RunInTx_errorE [OF run])
    fix fs w2
    assume "spend_body s t u ua ip (w\<lparr>faults := fs\<rparr>) = (Inl e, w2)"
      and "\<not> sv_Tx s \<longrightarrow> w1 = w2" and "sv_Tx s \<longrightarrow> w1 = w2\<lparr>db := db w\<rparr>"
    then show ?thesis using conjunct1 [OF spend_body_stays [OF _ fresh [of fs]]]
      by (cases "sv_Tx s") (simp_all add: stays_revoked_refl)
  qed (simp add: stays_revoked_refl)
  have ok: "stays_revoked (refresh (db w)) (refresh (db w1)) \<and> refresh_live (refresh (db w)) (rt_ID t) \<and>
      \<not> refresh_live (refresh (db w1)) (rt_ID t) \<and> rs_byID (refresh (db w1)) (rt_ID t) \<noteq> None"
    if run: "RunInTx (sv_Tx s) (spend_body s t u ua ip) w = (Inr p, w1)" for p w1
  proof (rule RunInTx_ok [OF run])
    fix fs w2 fs'
    assume "spend_body s t u ua ip (w\<lparr>faults := fs\<rparr>) = (Inr p, w2)" and "w1 = w2\<lparr>faults := fs'\<rparr>"
    then show ?thesis using spend_body_stays [OF _ fresh [of fs]] by simp
  qed
  have "stays_revoked (refresh (db w)) (refresh (db w')) \<and> (r = Inr p \<longrightarrow> refresh_live (refresh (db w)) (rt_ID t) \<and>
      \<not> refresh_live (refresh (db w')) (rt_ID t) \<and> rs_byID (refresh (db w')) (rt_ID t) \<noteq> None)"
    using assms(1) unfolding refreshSpend_def
  proof (rule onE, goal_cases)
    case (1 e w1)
    note e = err [OF 1(1)]
    show ?case
    proof (cases "e = errTokenSpent")
      case True
      with 1(2) have "stays_revoked (refresh (db w1)) (refresh (db w'))" and "r \<noteq> Inr p"
        by (auto simp: stays_revoked_refl intro: stays_revoked_allD)
      then show ?thesis using e stays_revoked_trans by blast
    qed (use 1(2) e in auto)
  next
    case (2 p' w1)
    then have "db w' = db w1" by auto
    then show ?case using ok [OF 2(1)] by simp
  qed
  then show "stays_revoked (refresh (db w)) (refresh (db w'))"
    and "r = Inr p \<Longrightarrow> refresh_live (refresh (db w)) (rt_ID t) \<and> \<not> refresh_live (refresh (db w')) (rt_ID t) \<and>
      rs_byID (refresh (db w')) (rt_ID t) \<noteq> None" by blast+
qed

lemma race_step_inv: "race_step s S S' \<Longrightarrow> race_inv S \<Longrightarrow> race_inv S'"
proof (induction rule: race_step.induct)
  case (lookup_fails C k tok ua ip w e w')
  then show ?case using lookup_stays [OF lookup_fails(2)]
    by (fastforce simp: race_inv_def won_upd stays_revoked_def)
next
  case (lookup C k tok ua ip w t u w')
  then show ?case using lookup_stays [OF lookup(2)]
    by (fastforce simp: race_inv_def won_upd stays_revoked_def)
next
  case (spend C k t u w ua ip r w')
  note a = spend_stays(1) [OF spend(3,2)] and b = spend_stays(2) [OF spend(3,2)]
  have dead: "\<not> won C j (rt_ID t)" if "r = Inr p" for j p
    using b [OF that] spend.prems by (fastforce simp: race_inv_def refresh_live_def)
  have "\<exists>x. rs_byID (refresh (db w')) (rt_ID t) = Some x \<and> rt_RevokedAt x \<noteq> None" if "r = Inr p" for p
    using b [OF that] by (fastforce simp: refresh_live_def split: option.splits)
  then show ?case using a dead spend.prems
    unfolding race_inv_def stays_revoked_def by (simp add: won_upd) blast
next
  case (tick w C now)
  then show ?case by (simp add: race_inv_def)
next
  case (other w w' C)
  then show ?case by (fastforce simp: race_inv_def stays_revoked_def)
qed

text \<open>
  C19. However concurrent refreshes interleave, with each other, with logouts, revocations and logins,
  and with the passing of time, a session row is exchanged for new tokens by at most one of them: in
  every reachable state, two callers that were given tokens for the same row are the same caller.
\<close>

theorem refresh_race_one_winner:
  assumes "(race_step s)\<^sup>*\<^sup>* (w, \<lambda>_. Waiting) (w', C)"
    and "C j = Done (Some t) (Inr p)" and "C k = Done (Some t') (Inr p')" and "rt_ID t = rt_ID t'"
  shows "j = k"
proof -
  have "race_inv S'" if "(race_step s)\<^sup>*\<^sup>* S S'" and "race_inv S" for S S'
    using that by induction (auto intro: race_step_inv)
  from this [OF assms(1)] have "race_inv (w', C)" by (simp add: race_inv_def won_def)
  moreover have "won C j (rt_ID t)" and "won C k (rt_ID t)" using assms(2-4) by (auto simp: won_def)
  ultimately show ?thesis by (auto simp: race_inv_def)
qed

lemma demo_lookup: "refreshLookup demo_service ''abc'' ''ua'' ''ip'' demo_world3 = (Inr (demo_session, demo_user), demo_world3)"
  by (simp add: refreshLookup_def demo_refresh_defs)

lemma demo_spend: "\<exists>p w'. refreshSpend demo_service demo_session demo_user ''ua'' ''ip'' demo_world3 = (Inr p, w')"
  by (simp add: refreshSpend_def demo_refresh_defs)

text \<open>Two callers hold the row, one spends it: nobody else can have been given tokens for it.\<close>

theorem refresh_race_one_winner_witness:
  "\<exists>p w' C. (race_step demo_service)\<^sup>*\<^sup>* (demo_world3, \<lambda>_. Waiting) (w', C) \<and>
     C 0 = Done (Some demo_session) (Inr p) \<and> C 1 = Holding demo_session demo_user \<and>
     (\<forall>k p'. C k = Done (Some demo_session) (Inr p') \<longrightarrow> k = 0)"
proof -
  obtain p w' where sp: "refreshSpend demo_service demo_session demo_user ''ua'' ''ip'' demo_world3 = (Inr p, w')"
    using demo_spend by blast
  let ?C1 = "(\<lambda>_. Waiting)(0 := Holding demo_session demo_user)"
  let ?C2 = "?C1(Suc 0 := Holding demo_session demo_user)"
  let ?C3 = "?C2(0 := Done (Some demo_session) (Inr p))"
  have fresh: "fresh_id demo_world3"
    by (simp add: fresh_id_def uuid_not demo_refresh_defs)
  have "race_step demo_service (demo_world3, \<lambda>_. Waiting) (demo_world3, ?C1)"
    by (rule race_step.lookup [OF _ demo_lookup]) simp
  moreover have "race_step demo_service (demo_world3, ?C1) (demo_world3, ?C2)"
    by (rule race_step.lookup [OF _ demo_lookup]) simp
  moreover have "race_step demo_service (demo_world3, ?C2) (w', ?C3)"
    by (rule race_step.spend [OF _ fresh sp]) simp
  ultimately have run: "(race_step demo_service)\<^sup>*\<^sup>* (demo_world3, \<lambda>_. Waiting) (w', ?C3)"
    by (meson rtranclp.rtrancl_into_rtrancl rtranclp.rtrancl_refl)
  define C where "C = ?C3"
  have C: "C 0 = Done (Some demo_session) (Inr p)" "C 1 = Holding demo_session demo_user" by (simp_all add: C_def)
  have "k = 0" if "C k = Done (Some demo_session) (Inr p')" for k p'
    by (rule refresh_race_one_winner [OF run [folded C_def] that C(1)]) (rule refl)
  then show ?thesis using run [folded C_def] C by blast
qed

end
