(* ===== verification/TwoFactorProps.thy ===== *)
theory TwoFactorProps
  imports UserTwoFactor RefreshProps
begin

text \<open>
  What the second factor guarantees: the soundness of \<open>VerifyTwoFactorLogin\<close>, the single use of pending
  tokens and of backup codes, that a failure burns nothing, that guesses are charged to the login's
  own lockout, the setup round trip, and the interleaving in which one backup code serves two logins.
\<close>

section \<open>Completing a login\<close>

lemma VerifyTwoFactorLogin_ok:
  assumes "VerifyTwoFactorLogin s tok code ua ip w = (Inr res, w')"
  obtains v w1 where "verifySecondFactor s tok code ua ip w = (Inr v, w1)"
    and "completeTwoFactorLogin s v ua ip w1 = (Inr res, w')"
  using assms unfolding VerifyTwoFactorLogin_def by auto

text \<open>
  C7. A login completed with a second factor, whatever store calls fail on the way, presented a pending
  token that is in the store and not expired, for an account whose address is not locked out; the code
  is a valid one-time code for the decrypted secret or an unused backup code, which is then removed;
  the pending session is retired, and the tokens name a live session of that account.
\<close>

theorem second_factor_login_sound:
  assumes "VerifyTwoFactorLogin s tok code ua ip w = (Inr res, w')"
  shows "\<exists>p u t t' used tp.
     mem_GetPendingTwoFactorSessionByHash (pending (db w)) (HashToken tok) = Inr p \<and> clock w \<le> ps_ExpiresAt p \<and>
     mem_GetUserByID (users (db w)) (ps_UserID p) = Inr u \<and> \<not> locked_out s (db w) (clock w) (u_Email u) \<and>
     totp (db w) (ps_UserID p) = Some t \<and> factor_proved s (clock w) t code used t' \<and>
     ar_User res = u \<and> ar_Tokens res = Some tp \<and> holds_session s tp (u_ID u) None (db w') \<and>
     pending (db w') = snd (mem_DeletePendingTwoFactorSession (ps_ID p) (pending (db w))) \<and>
     totp (db w') = (if used then (totp (db w))(ts_UserID t' \<mapsto> t') else totp (db w))"
  using assms
proof (rule VerifyTwoFactorLogin_ok)
  fix v w1
  assume "verifySecondFactor s tok code ua ip w = (Inr v, w1)" and "completeTwoFactorLogin s v ua ip w1 = (Inr res, w')"
  note a = verifySecondFactor_ok [OF this(1)] and b = completeTwoFactorLogin_ok [OF this(2)]
  from a(5) obtain t where t: "totp (db w) (ps_UserID (vf_pending v)) = Some t"
    "factor_proved s (clock w) t code (vf_usedBackupCode v) (vf_settings v)" by blast
  from b obtain tp where tp: "ar_Tokens res = Some tp" "holds_session s tp (u_ID (vf_user v)) None (db w')" by blast
  show ?thesis
    by (intro exI [of _ "vf_pending v"] exI [of _ "vf_user v"] exI [of _ t] exI [of _ "vf_settings v"]
        exI [of _ "vf_usedBackupCode v"] exI [of _ tp]) (use a b t tp in simp)
qed

definition demo_pending :: pending_session where
  "demo_pending = \<lparr>ps_ID = ''p1'', ps_UserID = ''u1'', ps_TokenHash = HashToken ''ptok'', ps_ExpiresAt = minute,
     ps_CreatedAt = 0\<rparr>"

definition demo_world4 :: world where
  "demo_world4 = demo_world2\<lparr>db := (db demo_world2)
     \<lparr>pending := snd (mem_CreatePendingTwoFactorSession demo_pending NewPendingTwoFactorStore)\<rparr>\<rparr>"

lemmas demo_factor_defs = VerifyTwoFactorLogin_def verifySecondFactor_def completeTwoFactorLogin_def
  getDecryptedTOTPSettings_def demo_world4_def demo_pending_def demo_world2_def demo_factor_def
  two_factor_keys_def throttled_def RunInTx_def DecryptSecret_def NonceSize_def ValidateTOTPCode_def
  bytes_of_def demo_login_defs time_defs duration_defs

lemma demo_verify:
  "\<exists>res w'. VerifyTwoFactorLogin demo_service ''ptok'' ''123456'' ''ua'' ''ip'' demo_world4 = (Inr res, w')"
  by (simp add: demo_factor_defs)

lemma demo_verify_backup:
  "\<exists>res w'. VerifyTwoFactorLogin demo_service ''ptok'' ''code2'' ''ua'' ''ip'' demo_world4 = (Inr res, w')"
  by (simp add: demo_factor_defs consumeBackupCode_def cut_first_iff HashBackupCode_def)

theorem second_factor_login_sound_witness:
  "\<exists>res w' tp. VerifyTwoFactorLogin demo_service ''ptok'' ''123456'' ''ua'' ''ip'' demo_world4 = (Inr res, w') \<and>
     ar_Tokens res = Some tp"
proof -
  obtain res w' where run: "VerifyTwoFactorLogin demo_service ''ptok'' ''123456'' ''ua'' ''ip'' demo_world4 = (Inr res, w')"
    using demo_verify by blast
  from second_factor_login_sound [OF run] run show ?thesis by blast
qed

text \<open>
  The pending token is single use: once a login has been completed with it, presenting it again,
  with any code at any instant, never completes another.
\<close>

theorem pending_token_single_use:
  assumes "VerifyTwoFactorLogin s tok code ua ip w = (Inr res, w')" and "pss_inv (pending (db w))"
  shows "fst (VerifyTwoFactorLogin s tok code' ua' ip' (w'\<lparr>clock := t\<rparr>)) \<noteq> Inr res'"
proof
  assume "fst (VerifyTwoFactorLogin s tok code' ua' ip' (w'\<lparr>clock := t\<rparr>)) = Inr res'"
  then obtain w2 where again: "VerifyTwoFactorLogin s tok code' ua' ip' (w'\<lparr>clock := t\<rparr>) = (Inr res', w2)"
    by (metis prod.collapse)
  from assms(1) obtain v w1 where 1: "verifySecondFactor s tok code ua ip w = (Inr v, w1)"
    "completeTwoFactorLogin s v ua ip w1 = (Inr res, w')" by (rule VerifyTwoFactorLogin_ok)
  note a = verifySecondFactor_ok [OF 1(1)] and b = completeTwoFactorLogin_ok [OF 1(2)]
  from again obtain v' w3 where "verifySecondFactor s tok code' ua' ip' (w'\<lparr>clock := t\<rparr>) = (Inr v', w3)"
    by (rule VerifyTwoFactorLogin_ok)
  note c = verifySecondFactor_ok(1) [OF this]
  have "mem_GetPendingTwoFactorSessionByHash (pending (db w')) (HashToken tok) = Inl ErrNotFound"
    using pss_deleted [OF assms(2) a(1)] b a(6) by (metis prod.collapse)
  with c show False by simp
qed

lemma demo_pss: "pss_inv (pending (db demo_world4))"
  by (simp add: demo_world4_def demo_pending_def pss_inv_def hash_indexed_def mem_defs demo_defs)

theorem pending_token_single_use_witness:
  "\<exists>w'. \<forall>res'. fst (VerifyTwoFactorLogin demo_service ''ptok'' ''654321'' ''ua'' ''ip'' (w'\<lparr>clock := 3\<rparr>)) \<noteq> Inr res'"
proof -
  obtain res w' where run: "VerifyTwoFactorLogin demo_service ''ptok'' ''123456'' ''ua'' ''ip'' demo_world4 = (Inr res, w')"
    using demo_verify by blast
  from pending_token_single_use [OF run demo_pss] show ?thesis by blast
qed

text \<open>
  A backup code is single use: a login completed with one leaves settings in which that code no
  longer verifies, every other code does exactly when it did before, and the codes left plus the codes
  used are as many as were issued.
\<close>

theorem backup_code_single_use:
  assumes "VerifyTwoFactorLogin s tok code ua ip w = (Inr res, w')"
    and "mem_GetPendingTwoFactorSessionByHash (pending (db w)) (HashToken tok) = Inr p"
    and "totp (db w) (ps_UserID p) = Some t" and "ts_UserID t = ps_UserID p"
    and "distinct (ts_RecoveryCodeHashes t)"
    and "\<And>secret. DecryptSecret (sv_aead s) (uc_TOTPEncryptionKey (sv_cfg s)) (ts_SecretEncrypted t) = Inr secret \<Longrightarrow>
       \<not> ValidateTOTPCode (sv_totp s) (clock w) secret code"
  shows "\<exists>t'. totp (db w') (ps_UserID p) = Some t' \<and> \<not> fst (consumeBackupCode t' code) \<and>
     (\<forall>other. HashBackupCode other \<noteq> HashBackupCode code \<longrightarrow>
        fst (consumeBackupCode t' other) = fst (consumeBackupCode t other)) \<and>
     codes_issued t' = codes_issued t"
proof -
  from assms(1) obtain v w1 where 1: "verifySecondFactor s tok code ua ip w = (Inr v, w1)"
    "completeTwoFactorLogin s v ua ip w1 = (Inr res, w')" by (rule VerifyTwoFactorLogin_ok)
  note a = verifySecondFactor_ok [OF 1(1)] and b = completeTwoFactorLogin_ok [OF 1(2)]
  have "factor_proved s (clock w) t code (vf_usedBackupCode v) (vf_settings v)"
    using a(1,5) assms(2,3) by auto
  then have c: "vf_usedBackupCode v" "consumeBackupCode t code = (True, vf_settings v)"
    using assms(6) by (auto simp: factor_proved_def split: if_splits)
  have "ts_UserID (vf_settings v) = ps_UserID p" using c(2) assms(4) by (simp add: consume_ok)
  then have "totp (db w') (ps_UserID p) = Some (vf_settings v)" using b c(1) by simp
  then show ?thesis
    using consume_distinct [OF c(2) assms(5)] consume_other [OF c(2)] consume_conserves [OF c(2)] by blast
qed

theorem backup_code_single_use_witness:
  "\<exists>res w' t'. VerifyTwoFactorLogin demo_service ''ptok'' ''code2'' ''ua'' ''ip'' demo_world4 = (Inr res, w') \<and>
     totp (db w') ''u1'' = Some t' \<and> \<not> fst (consumeBackupCode t' ''code2'')"
proof -
  obtain res w' where run: "VerifyTwoFactorLogin demo_service ''ptok'' ''code2'' ''ua'' ''ip'' demo_world4 = (Inr res, w')"
    using demo_verify_backup by blast
  have "mem_GetPendingTwoFactorSessionByHash (pending (db demo_world4)) (HashToken ''ptok'') = Inr demo_pending"
    and "totp (db demo_world4) (ps_UserID demo_pending) = Some demo_factor"
    and "ts_UserID demo_factor = ps_UserID demo_pending" and "distinct (ts_RecoveryCodeHashes demo_factor)"
    and "\<not> ValidateTOTPCode (sv_totp demo_service) t x ''code2''" for t x
    by (simp_all add: demo_world4_def demo_world2_def demo_pending_def demo_factor_def mem_defs row_via_def
        ValidateTOTPCode_def demo_defs)
  from backup_code_single_use [OF run this(1-4)] this(5) run show ?thesis
    by (auto simp: demo_pending_def)
qed

text \<open>
  With a transaction runner, a second-factor login that fails burns nothing: whatever the error, a
  store fault or a hook's refusal after the code was consumed included, the account's second factor
  with its backup codes, the pending sessions and the sessions are exactly what they were.
\<close>

theorem second_factor_failure_burns_nothing:
  assumes "sv_Tx s" and "VerifyTwoFactorLogin s tok code ua ip w = (Inl e, w')"
  shows "totp (db w') = totp (db w) \<and> pending (db w') = pending (db w) \<and> refresh (db w') = refresh (db w)"
  using assms(2) unfolding VerifyTwoFactorLogin_def
proof (rule seqE)
  fix e' assume "verifySecondFactor s tok code ua ip w = (Inl e', w')"
  from verifySecondFactor_error [OF this] show ?thesis by simp
next
  fix v w1 assume "verifySecondFactor s tok code ua ip w = (Inr v, w1)"
    and "completeTwoFactorLogin s v ua ip w1 = (Inl e, w')"
  with verifySecondFactor_ok(6) completeTwoFactorLogin_error [OF _ assms(1)] show ?thesis by metis
qed

definition demo_refusing :: service where
  "demo_refusing = demo_service\<lparr>sv_Tx := True, sv_cfg := demo_config\<lparr>uc_Hooks := no_hooks
     \<lparr>hk_AfterAuthenticate := Some (\<lambda>_. Some (Fault ''refused''))\<rparr>\<rparr>\<rparr>"

theorem second_factor_failure_burns_nothing_witness:
  "\<exists>e w'. VerifyTwoFactorLogin demo_refusing ''ptok'' ''code2'' ''ua'' ''ip'' demo_world4 = (Inl e, w') \<and>
     totp (db w') = totp (db demo_world4)"
proof -
  obtain e w' where run: "VerifyTwoFactorLogin demo_refusing ''ptok'' ''code2'' ''ua'' ''ip'' demo_world4 = (Inl e, w')"
    by (simp add: demo_factor_defs demo_refusing_def consumeBackupCode_def cut_first_iff HashBackupCode_def)
  have "sv_Tx demo_refusing" by (simp add: demo_refusing_def)
  from second_factor_failure_burns_nothing [OF this run] run show ?thesis by blast
qed

text \<open>
  Guesses at the second factor are metered by the login's own lockout: a wrong code, on a world
  without faults, is refused, adds one failed attempt under the account's address, the key the
  password step counts under, keeps the pending session and opens none.
\<close>

theorem second_factor_guess_is_charged:
  assumes nf: "faults w = []" and lim: "uc_RateLimiter (sv_cfg s) = Noop"
    and p: "mem_GetPendingTwoFactorSessionByHash (pending (db w)) (HashToken tok) = Inr p" "clock w \<le> ps_ExpiresAt p"
    and u: "mem_GetUserByID (users (db w)) (ps_UserID p) = Inr u" "\<not> locked_out s (db w) (clock w) (u_Email u)"
    and t: "totp (db w) (ps_UserID p) = Some t"
      "DecryptSecret (sv_aead s) (uc_TOTPEncryptionKey (sv_cfg s)) (ts_SecretEncrypted t) = Inr secret"
    and code: "\<not> ValidateTOTPCode (sv_totp s) (clock w) secret code"
      "HashBackupCode code \<notin> set (ts_RecoveryCodeHashes t)"
  shows "\<exists>w'. VerifyTwoFactorLogin s tok code ua ip w = (Inl (User ErrInvalidTwoFactor), w') \<and>
     failures_of (u_Email u) (db w') = failures_of (u_Email u) (db w) @ [attempt_row (u_Email u) ip w] \<and>
     pending (db w') = pending (db w) \<and> refresh (db w') = refresh (db w)"
proof -
  define L where "L = limits (snd (AllowEach Noop (two_factor_keys ip (u_ID u)) w))"
  have a: "AllowEach Noop (two_factor_keys ip (u_ID u)) w = (Inr (), w\<lparr>limits := L\<rparr>)"
    unfolding L_def by (rule Noop_AllowEach)
  have g: "getDecryptedTOTPSettings s (ps_UserID p) (w\<lparr>limits := L\<rparr>) = (Inr (t, secret), w\<lparr>limits := L\<rparr>)"
    using nf t by (simp add: getDecryptedTOTPSettings_def on_def seq_def lift_def ret_def port_defs
        mem_GetTOTPSettingsByUserID_def)
  have c: "consumeBackupCode t code = (False, t)" using code(2) by (simp add: consume_no)
  have at: "attempt_row e ip (w\<lparr>limits := L\<rparr>) = attempt_row e ip w" for e by (simp add: attempt_row_def)
  show ?thesis
    using nf lim p u a g c at code(1)
    by (simp add: VerifyTwoFactorLogin_def verifySecondFactor_def on_def seq_def raise_def Let_def port_defs
        After_def recordFailedLogin_run failures_of_def) (simp add: attempt_row_def)
qed

theorem second_factor_guess_is_charged_witness:
  "\<exists>w'. VerifyTwoFactorLogin demo_service ''ptok'' ''000000'' ''ua'' ''ip'' (demo_world4\<lparr>db := (db demo_world4)
       \<lparr>totp := [''u1'' \<mapsto> demo_factor\<lparr>ts_RecoveryCodeHashes := []\<rparr>]\<rparr>\<rparr>) =
     (Inl (User ErrInvalidTwoFactor), w')"
proof -
  let ?t = "demo_factor\<lparr>ts_RecoveryCodeHashes := []\<rparr>"
  let ?w = "demo_world4\<lparr>db := (db demo_world4)\<lparr>totp := [''u1'' \<mapsto> ?t]\<rparr>\<rparr>"
  have "\<exists>w'. VerifyTwoFactorLogin demo_service ''ptok'' ''000000'' ''ua'' ''ip'' ?w = (Inl (User ErrInvalidTwoFactor), w') \<and>
     failures_of (u_Email demo_user) (db w') = failures_of (u_Email demo_user) (db ?w) @ [attempt_row (u_Email demo_user) ''ip'' ?w] \<and>
     pending (db w') = pending (db ?w) \<and> refresh (db w') = refresh (db ?w)"
    by (rule second_factor_guess_is_charged [where p = demo_pending and u = demo_user and t = ?t and secret = "''S''"])
      (simp_all add: demo_world4_def demo_world2_def demo_pending_def demo_factor_def mem_defs row_via_def
        ValidateTOTPCode_def demo_defs DecryptSecret_def NonceSize_def bytes_of_def locked_out_def lo_count_def
        duration_defs)
  then show ?thesis by blast
qed

section \<open>Setting up\<close>

lemma Decrypt_Encrypt:
  "aead_correct a \<Longrightarrow> length key = 32 \<Longrightarrow> length nonce = NonceSize \<Longrightarrow>
   DecryptSecret a key (nonce @ gcm_seal a key nonce p) = Inr p"
  by (simp add: DecryptSecret_def aead_correct_def)

lemma BeginTwoFactorSetup_ok:
  assumes "BeginTwoFactorSetup s userID account w = (Inr setup, w')" and "aead_correct (sv_aead s)"
  shows "\<exists>t. totp (db w') userID = Some t \<and> ts_UserID t = userID \<and> \<not> ts_Enabled t \<and>
     DecryptSecret (sv_aead s) (uc_TOTPEncryptionKey (sv_cfg s)) (ts_SecretEncrypted t) = Inr (tf_Secret setup)"
  using assms unfolding BeginTwoFactorSetup_def Let_def upsertTOTPSettings_def GenerateTOTPSecret_def EncryptSecret_def
  by (auto simp: port_defs mem_GetTOTPSettingsByUserID_def mem_UpdateTOTPSettings_def mem_CreateTOTPSettings_def
      Decrypt_Encrypt split: if_splits option.splits)

lemma GenerateBackupCodesE:
  "GenerateBackupCodes n w = (Inr codes, w') \<Longrightarrow> db w' = db w \<and> clock w' = clock w \<and> length codes = n"
  by (induction n arbitrary: w codes) (auto simp: BackupCodeBytes_def)

text \<open>
  The enrolment round trip: after a setup has been begun and confirmed with a code valid for the
  secret it returned, the account owes a second factor, which it did not between the two steps; every
  returned backup code is accepted; and the status reports it enabled with all its codes left.
\<close>

theorem two_factor_enrolment_roundtrip:
  assumes "BeginTwoFactorSetup s userID account w = (Inr setup, w1)" and "aead_correct (sv_aead s)"
    and "ConfirmTwoFactorSetup s userID code (w1\<lparr>clock := now\<rparr>) = (Inr codes, w2)"
  shows "\<not> owes_two_factor (db w1) userID \<and> owes_two_factor (db w2) userID \<and>
     ValidateTOTPCode (sv_totp s) now (tf_Secret setup) code \<and>
     length codes = nat (uc_BackupCodeCount (sv_cfg s)) \<and>
     (\<exists>t. totp (db w2) userID = Some t \<and> (\<forall>c \<in> set codes. fst (consumeBackupCode t c))) \<and>
     (\<forall>st w3. TwoFactorStatus userID w2 = (Inr st, w3) \<longrightarrow>
        tf_Enabled st \<and> tf_RemainingBackupCodes st = length codes \<and> tf_VerifiedAt st = Some now)"
proof -
  from BeginTwoFactorSetup_ok [OF assms(1,2)] obtain t where t: "totp (db w1) userID = Some t" "ts_UserID t = userID"
    "\<not> ts_Enabled t" "DecryptSecret (sv_aead s) (uc_TOTPEncryptionKey (sv_cfg s)) (ts_SecretEncrypted t) = Inr (tf_Secret setup)"
    by blast
  define t' where "t' = t\<lparr>ts_Enabled := True, ts_VerifiedAt := Some now, ts_RecoveryCodeHashes := map HashBackupCode codes,
      ts_RecoveryCodesUsed := 0, ts_UpdatedAt := now\<rparr>"
  have c: "ValidateTOTPCode (sv_totp s) now (tf_Secret setup) code \<and> length codes = nat (uc_BackupCodeCount (sv_cfg s)) \<and>
      totp (db w2) userID = Some t'"
    using assms(3) t unfolding ConfirmTwoFactorSetup_def t'_def
    by (auto dest!: getDecryptedD GenerateBackupCodesE simp: port_defs mem_UpdateTOTPSettings_def split: if_splits)
  have "\<forall>c \<in> set codes. fst (consumeBackupCode t' c)" by (simp add: fst_consume t'_def)
  moreover have "\<forall>st w3. TwoFactorStatus userID w2 = (Inr st, w3) \<longrightarrow>
        tf_Enabled st \<and> tf_RemainingBackupCodes st = length codes \<and> tf_VerifiedAt st = Some now"
    using c by (auto simp: TwoFactorStatus_def port_defs mem_GetTOTPSettingsByUserID_def t'_def split: if_splits)
  ultimately show ?thesis using c t by (auto simp: owes_two_factor_def t'_def)
qed

theorem two_factor_enrolment_roundtrip_witness:
  "\<exists>setup w1 codes w2. BeginTwoFactorSetup demo_service ''u1'' ''a@x'' demo_world = (Inr setup, w1) \<and>
     ConfirmTwoFactorSetup demo_service ''u1'' ''123456'' (w1\<lparr>clock := 9\<rparr>) = (Inr codes, w2) \<and>
     owes_two_factor (db w2) ''u1''"
proof -
  have ac: "aead_correct (sv_aead demo_service)"
    by (simp add: aead_correct_def demo_defs bytes_of_def o_def)
  obtain st w1 codes w2 where run: "BeginTwoFactorSetup demo_service ''u1'' ''a@x'' demo_world = (Inr st, w1)"
    "ConfirmTwoFactorSetup demo_service ''u1'' ''123456'' (w1\<lparr>clock := 9\<rparr>) = (Inr codes, w2)"
    by (simp add: BeginTwoFactorSetup_def ConfirmTwoFactorSetup_def getDecryptedTOTPSettings_def Let_def
        upsertTOTPSettings_def GenerateTOTPSecret_def EncryptSecret_def DecryptSecret_def NonceSize_def
        ValidateTOTPCode_def bytes_of_def numeral_2_eq_2 BackupCodeBytes_def mem_defs demo_defs run_defs)
  from two_factor_enrolment_roundtrip [OF run(1) ac run(2)] run show ?thesis by blast
qed

section \<open>One backup code, two logins\<close>

text \<open>
  Nothing serialises two completions that have both passed their checks: when two requests present
  the same pending token and the same backup code, and both are verified before either commits, both
  return tokens, with the one code marked used once. (The refresh path has a compare-and-set for
  exactly this; the second factor has none.)
\<close>

theorem backup_code_spent_twice:
  "\<exists>v1 v2 w1 w2 w3 w4 res1 res2.
     verifySecondFactor demo_service ''ptok'' ''code2'' ''ua'' ''ip'' demo_world4 = (Inr v1, w1) \<and>
     verifySecondFactor demo_service ''ptok'' ''code2'' ''ua2'' ''ip2'' w1 = (Inr v2, w2) \<and>
     vf_usedBackupCode v1 \<and> vf_usedBackupCode v2 \<and>
     completeTwoFactorLogin demo_service v1 ''ua'' ''ip'' w2 = (Inr res1, w3) \<and> ar_Tokens res1 \<noteq> None \<and>
     completeTwoFactorLogin demo_service v2 ''ua2'' ''ip2'' w3 = (Inr res2, w4) \<and> ar_Tokens res2 \<noteq> None"
  by (simp add: demo_factor_defs consumeBackupCode_def cut_first_iff HashBackupCode_def)

end
