(* ===== verification/UserAccount.thy ===== *)
theory UserAccount
  imports UserTwoFactor
begin

text \<open>
  \<open>user/password.go\<close>, \<open>user/email_verification.go\<close> and \<open>user/operator.go\<close>: changing and resetting the
  password, verifying an address, and what an operator does to somebody else's account.
\<close>

section \<open>Passwords (user/password.go)\<close>

definition ChangePassword :: "service \<Rightarrow> string \<Rightarrow> string \<Rightarrow> string \<Rightarrow> unit prog" where
  "ChangePassword s userID currentPassword newPassword =
     (let c = sv_cfg s in
      seq (GetUserByID userID) (\<lambda>u.
      if \<not> h_Verify (uc_PasswordHasher c) currentPassword (u_PasswordHash u) then raise (User ErrInvalidCredentials)
      else
      seq (check (uc_PasswordValidator c (u_Email u) newPassword)) (\<lambda>_.
      seq (Hash (uc_PasswordHasher c) newPassword) (\<lambda>hash.
      with_now (\<lambda>now.
        let u = u\<lparr>u_PasswordHash := hash, u_UpdatedAt := now\<rparr> in
        seq (txIf s (hk_AfterPasswordChange (uc_Hooks c) \<noteq> None)
          (seq (UpdateUser u) (\<lambda>_. call_hook (hk_AfterPasswordChange (uc_Hooks c)) u))) (\<lambda>_.
        log ((event_of EventUserPasswordChanged ResultSuccess)\<lparr>ev_ActorID := u_ID u, ev_Email := u_Email u\<rparr>)))))))"

definition RequestPasswordReset :: "service \<Rightarrow> string \<Rightarrow> unit prog" where
  "RequestPasswordReset s email =
     (let email = NormalizeEmail email; c = sv_cfg s in
      seq (AllowEach (uc_RateLimiter c) [''password-reset:email:'' @ email]) (\<lambda>_.
      on (GetUserByEmail email)
        (\<lambda>e. if e = ErrNotFound then ret () else raise e)
        (\<lambda>u.
      seq (DeleteUserPasswordResetTokens (u_ID u)) (\<lambda>_.
      seq GenerateOpaqueToken (\<lambda>(raw, hash).
      seq NewID (\<lambda>id.
      with_now (\<lambda>now.
      seq (CreatePasswordResetToken
             \<lparr>pr_ID = id, pr_UserID = u_ID u, pr_TokenHash = hash, pr_ExpiresAt = now + uc_PasswordResetTTL c,
              pr_UsedAt = None, pr_CreatedAt = now\<rparr>) (\<lambda>_.
      send (SendPasswordReset (u_Email u) raw)))))))))"

text \<open>What \<open>ValidatePasswordResetToken\<close> and \<open>ResetPassword\<close> check of the token.\<close>

definition liveResetToken :: "string \<Rightarrow> password_reset_token prog" where
  "liveResetToken rawToken =
     on (GetPasswordResetTokenByHash (HashToken rawToken))
       (\<lambda>e. if e = ErrNotFound then raise (User ErrInvalidToken) else raise e)
       (\<lambda>t. with_now (\<lambda>now.
         if pr_UsedAt t \<noteq> None \<or> After now (pr_ExpiresAt t) then raise (User ErrInvalidToken) else ret t))"

definition ValidatePasswordResetToken :: "string \<Rightarrow> unit prog" where
  "ValidatePasswordResetToken rawToken = seq (liveResetToken rawToken) (\<lambda>_. ret ())"

definition ResetPassword :: "service \<Rightarrow> string \<Rightarrow> string \<Rightarrow> unit prog" where
  "ResetPassword s rawToken newPassword =
     (let c = sv_cfg s in
      seq (liveResetToken rawToken) (\<lambda>t.
      seq (GetUserByID (pr_UserID t)) (\<lambda>u.
      seq (check (uc_PasswordValidator c (u_Email u) newPassword)) (\<lambda>_.
      seq (Hash (uc_PasswordHasher c) newPassword) (\<lambda>hash.
      with_now (\<lambda>now.
        let u = u\<lparr>u_PasswordHash := hash, u_UpdatedAt := now\<rparr> in
        seq (RunInTx (sv_Tx s)
          (seq (UpdateUser u) (\<lambda>_.
           seq (MarkPasswordResetTokenUsed (pr_ID t)) (\<lambda>_.
           seq (RevokeAllUserRefreshTokens (u_ID u)) (\<lambda>_.
           call_hook (hk_AfterPasswordChange (uc_Hooks c)) u))))) (\<lambda>_.
        log ((event_of EventUserPasswordReset ResultSuccess)\<lparr>ev_ActorID := u_ID u, ev_Email := u_Email u\<rparr>))))))))"

section \<open>Address verification (user/email_verification.go)\<close>

definition sendEmailVerification :: "service \<Rightarrow> user \<Rightarrow> unit prog" where
  "sendEmailVerification s u =
     seq (DeleteUserEmailVerificationTokens (u_ID u)) (\<lambda>_.
     seq GenerateOpaqueToken (\<lambda>(raw, hash).
     seq NewID (\<lambda>id.
     with_now (\<lambda>now.
     seq (CreateEmailVerificationToken
            \<lparr>ev_ID = id, ev_UserID = u_ID u, ev_TokenHash = hash,
             ev_ExpiresAt = now + uc_EmailVerificationTTL (sv_cfg s), ev_UsedAt = None, ev_CreatedAt = now\<rparr>) (\<lambda>_.
     send (SendEmailVerification (u_Email u) raw))))))"

definition RequestEmailVerification :: "service \<Rightarrow> string \<Rightarrow> unit prog" where
  "RequestEmailVerification s userID =
     seq (AllowEach (uc_RateLimiter (sv_cfg s)) [''email-verification:user:'' @ userID]) (\<lambda>_.
     seq (GetUserByID userID) (sendEmailVerification s))"

definition RequestEmailVerificationByEmail :: "service \<Rightarrow> string \<Rightarrow> unit prog" where
  "RequestEmailVerificationByEmail s email =
     (let email = NormalizeEmail email in
      seq (AllowEach (uc_RateLimiter (sv_cfg s)) [''email-verification:email:'' @ email]) (\<lambda>_.
      on (GetUserByEmail email)
        (\<lambda>e. if e = ErrNotFound then ret () else raise e)
        (\<lambda>u. if u_EmailVerified u then ret () else sendEmailVerification s u)))"

definition VerifyEmail :: "string \<Rightarrow> unit prog" where
  "VerifyEmail rawToken =
     on (GetEmailVerificationTokenByHash (HashToken rawToken))
       (\<lambda>e. if e = ErrNotFound then raise (User ErrInvalidToken) else raise e)
       (\<lambda>t. with_now (\<lambda>now.
     if ev_UsedAt t \<noteq> None \<or> After now (ev_ExpiresAt t) then raise (User ErrInvalidToken)
     else
     seq (GetUserByID (ev_UserID t)) (\<lambda>u.
     seq (UpdateUser (u\<lparr>u_EmailVerified := True, u_EmailVerifiedAt := Some now, u_UpdatedAt := now\<rparr>)) (\<lambda>_.
     seq (MarkEmailVerificationTokenUsed (ev_ID t)) (\<lambda>_.
     log ((event_of EventUserEmailVerified ResultSuccess)\<lparr>ev_ActorID := u_ID u, ev_Email := u_Email u\<rparr>))))))"

section \<open>The operator (user/operator.go)\<close>

record account_state =
  as_Email :: string
  as_EmailVerified :: bool
  as_Locked :: bool
  as_Throttled :: bool
  as_TwoFactor :: bool

definition AccountState :: "service \<Rightarrow> string \<Rightarrow> account_state prog" where
  "AccountState s userID =
     seq (GetUserByID userID) (\<lambda>u.
     seq (IsAccountLocked (u_ID u)) (\<lambda>locked.
     seq (throttled s (u_Email u)) (\<lambda>throttled.
     seq (TwoFactorStatus (u_ID u)) (\<lambda>twoFactor.
     ret \<lparr>as_Email = u_Email u, as_EmailVerified = u_EmailVerified u, as_Locked = locked,
          as_Throttled = throttled, as_TwoFactor = tf_Enabled twoFactor\<rparr>))))"

definition Unlock :: "string \<Rightarrow> string \<Rightarrow> unit prog" where
  "Unlock operatorID userID =
     seq (GetUserByID userID) (\<lambda>u.
     seq (UnlockAccount (u_ID u)) (\<lambda>_.
     seq (ClearFailedLoginAttempts (u_Email u)) (\<lambda>_.
     log ((event_of EventUserUnlocked ResultSuccess)
       \<lparr>ev_ActorID := operatorID, ev_TargetID := u_ID u, ev_Email := u_Email u\<rparr>))))"

definition ResetTwoFactor :: "string \<Rightarrow> string \<Rightarrow> unit prog" where
  "ResetTwoFactor operatorID userID =
     seq (GetUserByID userID) (\<lambda>u.
     on (GetTOTPSettingsByUserID (u_ID u))
       (\<lambda>e. if e = ErrNotFound then raise (User ErrTwoFactorNotEnabled) else raise e)
       (\<lambda>_.
     seq (DeleteTOTPSettings (u_ID u)) (\<lambda>_.
     log ((event_of EventUserTwoFactorDisabled ResultSuccess)
       \<lparr>ev_ActorID := operatorID, ev_TargetID := u_ID u, ev_Email := u_Email u,
        ev_Metadata := [(''by'', MStr ''operator'')]\<rparr>))))"

definition SendPasswordResetTo :: "service \<Rightarrow> string \<Rightarrow> unit prog" where
  "SendPasswordResetTo s userID =
     seq (GetUserByID userID) (\<lambda>u. RequestPasswordReset s (u_Email u))"

end
