(* ===== verification/SessionProps.thy ===== *)
theory SessionProps
  imports UserSessions RefreshProps
begin

text \<open>
  What the session operations guarantee: exactly which sessions each revocation ends, that a session
  token resolves only while its session lives, the bounds of the sliding expiry, and the rotation
  \<open>SwitchTeam\<close> makes.
\<close>

section \<open>Revoking a set of rows\<close>

definition revoke_set ::
  "time \<Rightarrow> string set \<Rightarrow> (string \<rightharpoonup> refresh_token) \<Rightarrow> string \<rightharpoonup> refresh_token" where
  "revoke_set now I rows = (\<lambda>i. if i \<in> I then map_option (\<lambda>t. t\<lparr>rt_RevokedAt := Some now\<rparr>) (rows i) else rows i)"

lemma revoke_set_empty [simp]: "revoke_set now {} rows = rows"
  by (simp add: revoke_set_def)

lemma revoke_set_twice [simp]: "revoke_set now I (revoke_set now J rows) = revoke_set now (I \<union> J) rows"
  by (auto simp: revoke_set_def fun_eq_iff option.map_comp o_def)

text \<open>The stores after a set of rows was revoked.\<close>

definition db_revoked :: "time \<Rightarrow> string set \<Rightarrow> dbase \<Rightarrow> dbase" where
  "db_revoked now I d = d\<lparr>refresh := (refresh d)\<lparr>rs_byID := revoke_set now I (rs_byID (refresh d))\<rparr>\<rparr>"

lemma db_revoked_empty [simp]: "db_revoked now {} d = d"
  by (simp add: db_revoked_def)

lemma db_revoked_twice [simp]: "db_revoked now I (db_revoked now J d) = db_revoked now (I \<union> J) d"
  by (simp add: db_revoked_def)

lemma RevokeRefreshTokenE [elim]:
  assumes "RevokeRefreshToken i w = (r, w')"
  obtains (bad) e where "r = Inl e" and "db w' = db w"
  | (ok) "r = Inr ()" and "db w' = db_revoked (clock w) {i} (db w)" and "clock w' = clock w" and "trail w' = trail w"
proof -
  have "(\<exists>e. r = Inl e \<and> db w' = db w) \<or> (r = Inr () \<and> db w' = db_revoked (clock w) {i} (db w) \<and>
      clock w' = clock w \<and> trail w' = trail w)"
    using assms
    by (auto simp: port_defs mem_RevokeRefreshToken_def db_revoked_def revoke_set_def fun_eq_iff
        intro!: arg_cong [where f = "\<lambda>f. refresh_update (\<lambda>_. (refresh (db w))\<lparr>rs_byID := f\<rparr>) (db w)"]
        split: option.splits)
  then show thesis using bad ok by blast
qed

lemma revoke_others_ok:
  "revoke_others h ts n w = (Inr m, w') \<Longrightarrow>
   db w' = db_revoked (clock w) (rt_ID ` {t \<in> set ts. rt_TokenHash t \<noteq> h}) (db w) \<and> clock w' = clock w \<and>
   m = n + length (filter (\<lambda>t. rt_TokenHash t \<noteq> h) ts)"
proof (induction ts arbitrary: n w)
  case Nil
  then show ?case by simp
next
  case (Cons t ts)
  show ?case
  proof (cases "rt_TokenHash t = h")
    case True
    then have "{x \<in> set (t # ts). rt_TokenHash x \<noteq> h} = {x \<in> set ts. rt_TokenHash x \<noteq> h}" by auto
    then show ?thesis using Cons True by simp
  next
    case False
    from Cons.prems False obtain w1 where 1: "RevokeRefreshToken (rt_ID t) w = (Inr (), w1)"
      and 2: "revoke_others h ts (n + 1) w1 = (Inr m, w')" by auto
    from 1 have d: "db w1 = db_revoked (clock w) {rt_ID t} (db w)" "clock w1 = clock w" by (auto elim: RevokeRefreshTokenE)
    have "rt_ID ` {x \<in> set (t # ts). rt_TokenHash x \<noteq> h} = rt_ID ` {x \<in> set ts. rt_TokenHash x \<noteq> h} \<union> {rt_ID t}"
      using False by auto
    then show ?thesis using Cons.IH [OF 2] d False by simp
  qed
qed

lemma revoke_rows_ok:
  "revoke_rows ts w = (Inr (), w') \<Longrightarrow>
   db w' = db_revoked (clock w) (rt_ID ` set ts) (db w) \<and> clock w' = clock w"
proof (induction ts arbitrary: w)
  case Nil
  then show ?case by simp
next
  case (Cons t ts)
  from Cons.prems obtain w1 where 1: "RevokeRefreshToken (rt_ID t) w = (Inr (), w1)"
    and 2: "revoke_rows ts w1 = (Inr (), w')" by auto
  from 1 have d: "db w1 = db_revoked (clock w) {rt_ID t} (db w)" "clock w1 = clock w" by (auto elim: RevokeRefreshTokenE)
  show ?case using Cons.IH [OF 2] d by simp
qed

text \<open>The active sessions of a user at an instant.\<close>

definition active :: "time \<Rightarrow> dbase \<Rightarrow> string \<Rightarrow> refresh_token list" where
  "active now d userID = (case mem_ListActiveRefreshTokens now (refresh d) userID of Inl _ \<Rightarrow> [] | Inr ts \<Rightarrow> ts)"

lemma active_eq:
  "rs_inv (refresh d) \<Longrightarrow> active now d userID =
     filter (\<lambda>t. rt_RevokedAt t = None \<and> Before now (rt_ExpiresAt t))
       (map (the \<circ> rs_byID (refresh d)) (rs_byUserID (refresh d) userID))"
  by (simp add: active_def list_active_store)

lemma list_active_run:
  "rs_inv (refresh (db w)) \<Longrightarrow> ListActiveRefreshTokens userID w = (Inr ts, w') \<Longrightarrow>
   ts = active (clock w) (db w) userID \<and> db w' = db w \<and> clock w' = clock w \<and> trail w' = trail w"
  by (auto simp: port_defs active_def)

lemma active_row:
  assumes "rs_inv (refresh d)" and "t \<in> set (active now d userID)"
  shows "rs_byID (refresh d) (rt_ID t) = Some t" and "rt_RevokedAt t = None" and "now < rt_ExpiresAt t"
proof -
  from assms obtain i where i: "i \<in> set (rs_byUserID (refresh d) userID)" "t = the (rs_byID (refresh d) i)"
    and t: "rt_RevokedAt t = None" "Before now (rt_ExpiresAt t)" by (auto simp: active_eq)
  then obtain r where "rs_byID (refresh d) i = Some r" using rs_user_rows [OF assms(1) i(1)] by (auto simp: not_None_eq)
  then show "rs_byID (refresh d) (rt_ID t) = Some t" using assms(1) i(2) by (auto simp: rs_inv_def)
  show "rt_RevokedAt t = None" and "now < rt_ExpiresAt t" using t by (auto simp: Before_def)
qed

text \<open>Revoking some of the active sessions leaves exactly the others active.\<close>

lemma active_revoked:
  assumes inv: "rs_inv (refresh d)"
  shows "active now (db_revoked now (rt_ID ` {t \<in> set (active now d userID). P t}) d) userID =
     filter (\<lambda>t. \<not> P t) (active now d userID)"
proof -
  define I where I: "I = rt_ID ` {t \<in> set (active now d userID). P t}"
  let ?rows = "rs_byID (refresh d)" and ?ids = "rs_byUserID (refresh d) userID"
  let ?live = "\<lambda>t. rt_RevokedAt t = None \<and> Before now (rt_ExpiresAt t)"
  have inv': "rs_inv (refresh (db_revoked now I d))"
    unfolding db_revoked_def by (simp, rule rs_inv_rows [OF inv]) (auto simp: revoke_set_def split: if_splits)
  have row: "\<exists>r. ?rows i = Some r \<and> rt_ID r = i" if "i \<in> set ?ids" for i
    using rs_user_rows [OF inv that] inv by (auto simp: not_None_eq rs_inv_def)
  have each: "?live (the (revoke_set now I ?rows i)) \<longleftrightarrow> ?live (the (?rows i)) \<and> \<not> P (the (?rows i))"
    "?live (the (revoke_set now I ?rows i)) \<Longrightarrow> the (revoke_set now I ?rows i) = the (?rows i)"
    if i: "i \<in> set ?ids" for i
  proof -
    obtain r where r: "?rows i = Some r" "rt_ID r = i" using row [OF i] by blast
    have "i \<in> I \<longleftrightarrow> ?live r \<and> P r"
    proof
      assume "i \<in> I"
      then obtain t where t: "t \<in> set (active now d userID)" "P t" "rt_ID t = i" by (auto simp: I)
      with active_row [OF inv t(1)] r show "?live r \<and> P r" by (auto simp: Before_def)
    next
      assume "?live r \<and> P r"
      then show "i \<in> I" using i r by (force simp: I active_eq [OF inv])
    qed
    then show "?live (the (revoke_set now I ?rows i)) \<longleftrightarrow> ?live (the (?rows i)) \<and> \<not> P (the (?rows i))"
      and "?live (the (revoke_set now I ?rows i)) \<Longrightarrow> the (revoke_set now I ?rows i) = the (?rows i)"
      using r by (auto simp: revoke_set_def)
  qed
  have "filter ?live (map (the \<circ> revoke_set now I ?rows) is) = filter (\<lambda>t. ?live t \<and> \<not> P t) (map (the \<circ> ?rows) is)"
    if "set is \<subseteq> set ?ids" for "is"
    using that
  proof (induction "is")
    case (Cons i js)
    then have i: "i \<in> set ?ids" by simp
    show ?case using Cons each [OF i] by (cases "?live (the (revoke_set now I ?rows i))") simp_all
  qed simp
  from this [of ?ids]
  have "active now (db_revoked now I d) userID = filter (\<lambda>t. \<not> P t) (active now d userID)"
    unfolding active_eq [OF inv'] active_eq [OF inv]
    by (simp add: db_revoked_def conj_commute conj_left_commute)
  then show ?thesis unfolding I .
qed

lemma revoke_others_trail: "revoke_others h ts n w = (Inr m, w') \<Longrightarrow> trail w' = trail w"
  by (induction ts arbitrary: n w) (auto split: if_splits elim!: RevokeRefreshTokenE)

lemma revoke_refresh_error: "RevokeRefreshToken i w = (Inl e, w') \<Longrightarrow> e \<noteq> User x"
  by (auto simp: port_defs mem_RevokeRefreshToken_def split: option.splits)

section \<open>The revocations\<close>

text \<open>
  Revoking the other sessions: a call that succeeds leaves, of the user's active sessions, exactly
  the ones the caller's token names, logs one event when it ended any and none otherwise; with no token
  to keep, it refuses and changes nothing.
\<close>

theorem revoke_other_sessions_exact:
  assumes "rs_inv (refresh (db w))" and "RevokeOtherSessions userID tok w = (r, w')"
  shows "(tok = '''' \<longrightarrow> r = Inl (User ErrCurrentSessionRequired) \<and> w' = w) \<and>
     (r = Inr () \<longrightarrow>
        active (clock w) (db w') userID =
          filter (\<lambda>t. rt_TokenHash t = HashToken tok) (active (clock w) (db w) userID) \<and>
        length (trail w') = length (trail w) +
          (if \<exists>t \<in> set (active (clock w) (db w) userID). rt_TokenHash t \<noteq> HashToken tok then 1 else 0))"
proof (cases "tok = ''''")
  case True
  then show ?thesis using assms(2) by (simp add: RevokeOtherSessions_def)
next
  case False
  let ?A = "active (clock w) (db w) userID" and ?P = "\<lambda>t. rt_TokenHash t \<noteq> HashToken tok"
  show ?thesis
  proof (cases "r = Inr ()")
    case True
    from assms(2) False True obtain ts w1 n w2 where 1: "ListActiveRefreshTokens userID w = (Inr ts, w1)"
      and 2: "revoke_others (HashToken tok) ts 0 w1 = (Inr n, w2)"
      and 3: "db w' = db w2" "length (trail w') = length (trail w2) + (if 0 < n then 1 else 0)"
      unfolding RevokeOtherSessions_def by (auto split: if_splits)
    note a = list_active_run [OF assms(1) 1]
    note b = revoke_others_ok [OF 2]
    have "0 < n \<longleftrightarrow> (\<exists>t \<in> set ?A. ?P t)"
      using a b by (auto simp: filter_empty_conv length_greater_0_conv)
    moreover have "active (clock w) (db w') userID = filter (\<lambda>t. \<not> ?P t) ?A"
      using active_revoked [OF assms(1), of "clock w" userID ?P] a b 3 by simp
    ultimately show ?thesis using False 3 revoke_others_trail [OF 2] a by simp
  qed (simp add: False)
qed

text \<open>
  An operator's revocation ends every session: when \<open>RevokeAllSessions\<close> answers, it answers the
  number of sessions that were active, and none is active afterwards.
\<close>

theorem revoke_all_sessions_exact:
  assumes "rs_inv (refresh (db w))" and "RevokeAllSessions operatorID userID w = (Inr n, w')"
  shows "n = length (active (clock w) (db w) userID) \<and> active (clock w) (db w') userID = []"
proof -
  from assms(2) obtain ts w1 w2 where 1: "ListActiveRefreshTokens userID w = (Inr ts, w1)"
    and 2: "revoke_rows ts w1 = (Inr (), w2)" and 3: "db w' = db w2" "n = length ts"
    unfolding RevokeAllSessions_def by auto
  note a = list_active_run [OF assms(1) 1] and b = revoke_rows_ok [OF 2]
  show ?thesis
    using active_revoked [OF assms(1), of "clock w" userID "\<lambda>_. True"] a b 3 by simp
qed

text \<open>
  Revoking one session is scoped to its owner: a call that succeeds ended an active session of that
  user and changed no other row; a session id that is not one of the user's active sessions is refused
  as not found, and the stores stay as they are, so nobody ends another user's session.
\<close>

theorem revoke_session_scoped:
  assumes "rs_inv (refresh (db w))" and "RevokeSession userID sessionID w = (r, w')"
  shows "(r = Inr () \<longrightarrow> (\<exists>t \<in> set (active (clock w) (db w) userID). rt_ID t = sessionID) \<and>
       db w' = db_revoked (clock w) {sessionID} (db w)) \<and>
     (r = Inl (User ErrSessionNotFound) \<longrightarrow> (\<forall>t \<in> set (active (clock w) (db w) userID). rt_ID t \<noteq> sessionID)
       \<and> db w' = db w)"
  using assms(2) unfolding RevokeSession_def
proof (rule seqE, goal_cases)
  case (1 e)
  then show ?case by (auto simp: port_defs list_active_store [OF assms(1)])
next
  case (2 ts w1)
  note a = list_active_run [OF assms(1) 2(1)]
  show ?case
  proof (cases "find (\<lambda>t. rt_ID t = sessionID) ts")
    case None
    with 2(2) have "r = Inl (User ErrSessionNotFound)" and "w' = w1" by simp_all
    then show ?thesis using None a by (auto simp: find_None_iff)
  next
    case (Some t)
    then have t: "t \<in> set ts" "rt_ID t = sessionID" by (auto simp: find_Some_iff)
    from 2(2) Some t(2) have "r = Inr () \<longrightarrow> db w' = db_revoked (clock w1) {sessionID} (db w1)"
      by (auto elim!: RevokeRefreshTokenE)
    moreover from 2(2) Some have "r \<noteq> Inl (User ErrSessionNotFound)"
      by (auto dest: revoke_refresh_error)
    ultimately show ?thesis using a t by auto
  qed
qed

definition demo_session2 :: refresh_token where
  "demo_session2 = demo_session\<lparr>rt_ID := ''r2'', rt_TokenHash := HashToken ''def''\<rparr>"

definition demo_world5 :: world where
  "demo_world5 = demo_world3\<lparr>db := add_session demo_session2 (db demo_world3)\<rparr>"

lemma demo_rs_inv: "rs_inv (refresh (db demo_world5))" "rs_inv (refresh (db demo_world3))"
  by (auto simp: demo_world5_def demo_world3_def demo_session_def demo_session2_def add_session_def rs_inv_def
      demo_defs mem_defs points_into_def points_into_all_def append_id_def no_ids_def)

lemmas demo_session_defs = demo_world5_def demo_world3_def demo_session_def demo_session2_def add_session_def
  mem_defs append_id_def no_ids_def demo_defs run_defs time_defs duration_defs

lemma demo_active: "active 0 (db demo_world5) ''u1'' = [demo_session, demo_session2]"
  by (simp add: active_def demo_session_defs)

theorem revoke_other_sessions_exact_witness:
  "\<exists>w'. RevokeOtherSessions ''u1'' ''abc'' demo_world5 = (Inr (), w') \<and>
     active 0 (db w') ''u1'' = filter (\<lambda>t. rt_TokenHash t = HashToken ''abc'') [demo_session, demo_session2]"
proof -
  have "\<exists>w'. RevokeOtherSessions ''u1'' ''abc'' demo_world5 = (Inr (), w')"
    by (cases "HashToken ''def'' = HashToken ''abc''") (simp_all add: RevokeOtherSessions_def demo_session_defs)
  then obtain w' where run: "RevokeOtherSessions ''u1'' ''abc'' demo_world5 = (Inr (), w')" by blast
  have "clock demo_world5 = 0" by (simp add: demo_session_defs)
  then show ?thesis
    using run revoke_other_sessions_exact [OF demo_rs_inv(1) run] demo_active by auto
qed

theorem revoke_all_sessions_exact_witness:
  "\<exists>w'. RevokeAllSessions ''op'' ''u1'' demo_world5 = (Inr 2, w') \<and> active 0 (db w') ''u1'' = []"
proof -
  obtain n w' where run: "RevokeAllSessions ''op'' ''u1'' demo_world5 = (Inr n, w')"
    by (simp add: RevokeAllSessions_def demo_session_defs)
  moreover have "clock demo_world5 = 0" by (simp add: demo_session_defs)
  ultimately show ?thesis
    using revoke_all_sessions_exact [OF demo_rs_inv(1) run] demo_active by simp
qed

theorem revoke_session_scoped_witness:
  "\<exists>w'. RevokeSession ''u1'' ''r2'' demo_world5 = (Inr (), w') \<and> db w' = db_revoked 0 {''r2''} (db demo_world5)"
proof -
  obtain w' where run: "RevokeSession ''u1'' ''r2'' demo_world5 = (Inr (), w')"
    by (simp add: RevokeSession_def demo_session_defs)
  moreover have "clock demo_world5 = 0" by (simp add: demo_session_defs)
  ultimately show ?thesis
    using revoke_session_scoped [OF demo_rs_inv(1) run] by simp
qed

section \<open>Resolving a token\<close>

lemma extendSession_ok:
  assumes "extendSession s t now w = (Inr x, w')"
  shows "x = rt_ExpiresAt t \<or> x = now + uc_RefreshTokenTTL (sv_cfg s)"
    and "uc_SessionSlidingWindow (sv_cfg s) < 0 \<or>
         now < rt_ExpiresAt t - uc_RefreshTokenTTL (sv_cfg s) + uc_SessionSlidingWindow (sv_cfg s) \<Longrightarrow>
         x = rt_ExpiresAt t \<and> db w' = db w"
    and "x \<noteq> rt_ExpiresAt t \<Longrightarrow> refresh (db w') = snd (mem_TouchRefreshToken (rt_ID t) x (refresh (db w)))"
  using assms unfolding extendSession_def Let_def
  by (auto simp: port_defs Before_def split: if_splits)

lemma extendSession_window:
  assumes "extendSession s t now w = (Inr x, w')" and "0 \<le> uc_SessionSlidingWindow (sv_cfg s)"
    and "x \<noteq> rt_ExpiresAt t"
  shows "rt_ExpiresAt t + uc_SessionSlidingWindow (sv_cfg s) \<le> x"
  using extendSession_ok(1,2) [OF assms(1)] assms(2,3) by force

lemma ValidateSession_ok:
  assumes "ValidateSession s tok w = (Inr c, w')"
  shows "\<exists>t u w1 x. uc_SessionMode (sv_cfg s) = SessionModeOpaque \<and> tok \<noteq> '''' \<and>
     mem_GetRefreshTokenByHash (refresh (db w)) (HashToken tok) = Inr t \<and>
     rt_RevokedAt t = None \<and> clock w \<le> rt_ExpiresAt t \<and>
     mem_GetUserByID (users (db w)) (rt_UserID t) = Inr u \<and>
     (\<forall>team. rt_TeamID t = Some team \<longrightarrow> sv_Members s \<longrightarrow>
        (\<exists>m. mem_GetMemberByUserAndTeam (members (db w)) (rt_UserID t) team = Inr m \<and> m_IsActive m)) \<and>
     db w1 = db w \<and> cl_ExpiresAt c = Some x \<and> extendSession s t (clock w) w1 = (Inr x, w') \<and>
     cl_Subject c = u_ID u \<and> cl_Email c = u_Email u \<and>
     cl_TeamID c = (case rt_TeamID t of None \<Rightarrow> '''' | Some team \<Rightarrow> team) \<and> cl_ActorID c = ''''"
proof -
  from assms obtain t w1 u w2 w3 x where 1: "uc_SessionMode (sv_cfg s) = SessionModeOpaque" "tok \<noteq> ''''"
    "GetRefreshTokenByHash (HashToken tok) w = (Inr t, w1)" "rt_RevokedAt t = None" "\<not> After (clock w1) (rt_ExpiresAt t)"
    "GetUserByID (rt_UserID t) w1 = (Inr u, w2)" "requireActiveMembership s t w2 = (Inr (), w3)"
    "extendSession s t (clock w1) w3 = (Inr x, w')" "c = newAccessClaims (clock w1) (u_ID u) (u_Email u) (rt_TeamID t) x"
    unfolding ValidateSession_def by (auto split: if_splits)
  have w1: "db w1 = db w" "clock w1 = clock w" "mem_GetRefreshTokenByHash (refresh (db w)) (HashToken tok) = Inr t"
    using 1(3) by (auto simp: port_defs)
  have w2: "db w2 = db w" "mem_GetUserByID (users (db w)) (rt_UserID t) = Inr u"
    using 1(6) w1 by (auto simp: port_defs)
  have w3: "db w3 = db w" using requireActiveMembership_ok(1) [OF 1(7)] w2 by (metis frame_db)
  show ?thesis
    using 1 w1 w2 w3 requireActiveMembership_ok(2) [OF 1(7)]
    by (intro exI [of _ t] exI [of _ u] exI [of _ w3] exI [of _ x]) (simp add: After_def newAccessClaims_def)
qed

text \<open>
  C30. An opaque session token resolves only while its session lives: claims are returned only for a
  token whose row is in the store, unrevoked and unexpired, whose user exists and, for a session acting
  in a team, is still an active member; they name that user and that team and no actor.
\<close>

theorem validate_session_sound:
  assumes "ValidateSession s tok w = (Inr c, w')" and "us_inv (users (db w))"
  shows "\<exists>t u. mem_GetRefreshTokenByHash (refresh (db w)) (HashToken tok) = Inr t \<and>
     rt_RevokedAt t = None \<and> clock w \<le> rt_ExpiresAt t \<and>
     mem_GetUserByID (users (db w)) (rt_UserID t) = Inr u \<and> cl_Subject c = rt_UserID t \<and> cl_Email c = u_Email u \<and>
     (\<forall>team. rt_TeamID t = Some team \<longrightarrow> cl_TeamID c = team \<and> (sv_Members s \<longrightarrow>
        (\<exists>m. mem_GetMemberByUserAndTeam (members (db w)) (rt_UserID t) team = Inr m \<and> m_IsActive m))) \<and>
     \<not> IsImpersonation c"
proof -
  from ValidateSession_ok [OF assms(1)] obtain t u where
    "mem_GetRefreshTokenByHash (refresh (db w)) (HashToken tok) = Inr t" "rt_RevokedAt t = None"
    "clock w \<le> rt_ExpiresAt t" and u: "mem_GetUserByID (users (db w)) (rt_UserID t) = Inr u"
    and "\<forall>team. rt_TeamID t = Some team \<longrightarrow> sv_Members s \<longrightarrow>
        (\<exists>m. mem_GetMemberByUserAndTeam (members (db w)) (rt_UserID t) team = Inr m \<and> m_IsActive m)"
    "cl_Subject c = u_ID u" "cl_Email c = u_Email u"
    "cl_TeamID c = (case rt_TeamID t of None \<Rightarrow> '''' | Some team \<Rightarrow> team)" "cl_ActorID c = ''''" by blast
  moreover have "u_ID u = rt_UserID t" using us_get_id [OF assms(2) u] .
  ultimately show ?thesis by (intro exI [of _ t] exI [of _ u]) (auto simp: IsImpersonation_def)
qed

definition demo_opaque :: service where
  "demo_opaque = demo_service\<lparr>sv_cfg := demo_config\<lparr>uc_SessionMode := SessionModeOpaque\<rparr>\<rparr>"

lemma demo_validate: "\<exists>c w'. ValidateSession demo_opaque ''abc'' (demo_world3\<lparr>clock := hour\<rparr>) = (Inr c, w')"
  by (simp add: ValidateSession_def demo_opaque_def requireActiveMembership_def extendSession_def row_via_def
      demo_session_defs)

theorem validate_session_sound_witness:
  "\<exists>c w'. ValidateSession demo_opaque ''abc'' (demo_world3\<lparr>clock := hour\<rparr>) = (Inr c, w') \<and> cl_Subject c = ''u1''"
proof -
  let ?w = "demo_world3\<lparr>clock := hour\<rparr>"
  obtain c w' where run: "ValidateSession demo_opaque ''abc'' ?w = (Inr c, w')" using demo_validate by blast
  have "us_inv (users (db ?w))" by (simp add: us_inv_def points_into_def demo_session_defs)
  moreover have "mem_GetRefreshTokenByHash (refresh (db ?w)) (HashToken ''abc'') = Inr demo_session"
    by (simp add: row_via_def demo_session_defs)
  ultimately show ?thesis
    using validate_session_sound [OF run] run by (auto simp: demo_session_def)
qed

text \<open>
  The sliding expiry: resolving a token never shortens a session and never takes it past one
  lifetime from now; it writes only when the sliding window has passed since the last extension, so two
  writes are at least a window apart; and a negative window never moves it.
\<close>

theorem sliding_expiry_bounds:
  assumes "ValidateSession s tok w = (Inr c, w')"
    and "mem_GetRefreshTokenByHash (refresh (db w)) (HashToken tok) = Inr t"
    and "0 \<le> uc_SessionSlidingWindow (sv_cfg s) \<longrightarrow> rt_ExpiresAt t \<le> clock w + uc_RefreshTokenTTL (sv_cfg s)"
  shows "\<exists>x. cl_ExpiresAt c = Some x \<and> rt_ExpiresAt t \<le> x \<and>
     x \<le> max (rt_ExpiresAt t) (clock w + uc_RefreshTokenTTL (sv_cfg s)) \<and>
     (x \<noteq> rt_ExpiresAt t \<longrightarrow> rt_ExpiresAt t + uc_SessionSlidingWindow (sv_cfg s) \<le> x) \<and>
     (uc_SessionSlidingWindow (sv_cfg s) < 0 \<longrightarrow> x = rt_ExpiresAt t \<and> db w' = db w)"
proof -
  from ValidateSession_ok [OF assms(1)] assms(2) obtain w1 x where 1: "rt_RevokedAt t = None" "clock w \<le> rt_ExpiresAt t"
    "db w1 = db w" "cl_ExpiresAt c = Some x" "extendSession s t (clock w) w1 = (Inr x, w')" by auto
  note e = extendSession_ok [OF 1(5)] and f = extendSession_window [OF 1(5)]
  show ?thesis using 1 e(1,2) f assms(3) by (cases "x = rt_ExpiresAt t") force+
qed

theorem sliding_expiry_bounds_witness:
  "\<exists>c w' x. ValidateSession demo_opaque ''abc'' (demo_world3\<lparr>clock := hour\<rparr>) = (Inr c, w') \<and>
     cl_ExpiresAt c = Some x \<and> hour \<le> x"
proof -
  let ?w = "demo_world3\<lparr>clock := hour\<rparr>"
  obtain c w' where run: "ValidateSession demo_opaque ''abc'' ?w = (Inr c, w')" using demo_validate by blast
  have "mem_GetRefreshTokenByHash (refresh (db ?w)) (HashToken ''abc'') = Inr demo_session"
    by (simp add: row_via_def demo_session_defs)
  moreover have "rt_ExpiresAt demo_session = hour" "hour \<le> clock ?w + uc_RefreshTokenTTL (sv_cfg demo_opaque)"
    by (simp_all add: demo_session_def demo_opaque_def demo_defs duration_defs)
  ultimately show ?thesis
    using sliding_expiry_bounds [OF run, of demo_session] run by auto
qed

section \<open>Switching teams\<close>

lemma checkMembership_ok:
  "checkMembership u t e w = (Inr x, w') \<Longrightarrow>
   db w' = db w \<and> clock w' = clock w \<and> (\<exists>m. mem_GetMemberByUserAndTeam (members (db w)) u t = Inr m \<and> m_IsActive m)"
  unfolding checkMembership_def by (auto simp: port_defs split: if_splits)

lemma replayed_refuses [simp]: "replayed s t ua ip w \<noteq> (Inr p, w')"
  by (auto simp: replayed_def split: if_splits)

text \<open>
  Switching teams needs an active membership in the team switched to, and rotates: when it returns
  tokens, the presented session was live, and has been spent with a compare-and-set; the one session
  added is the user's, acts in exactly that team, and is the one the tokens name.
\<close>

theorem switch_team_sound:
  assumes "SwitchTeam s tok teamID ua ip w = (Inr p, w')" and "us_inv (users (db w))"
  shows "\<exists>t d row. mem_GetRefreshTokenByHash (refresh (db w)) (HashToken tok) = Inr t \<and>
     rt_RevokedAt t = None \<and> clock w \<le> rt_ExpiresAt t \<and>
     (teamID \<noteq> '''' \<longrightarrow>
        (\<exists>m. mem_GetMemberByUserAndTeam (members (db w)) (rt_UserID t) teamID = Inr m \<and> m_IsActive m)) \<and>
     mem_ConsumeRefreshToken (clock w) (rt_ID t) (refresh (db w)) = (Inr True, d) \<and>
     db w' = add_session row ((db w)\<lparr>refresh := d\<rparr>) \<and> rt_UserID row = rt_UserID t \<and>
     rt_TeamID row = (if teamID = '''' then None else Some teamID) \<and>
     rt_TokenHash row = HashToken (session_token s p)"
proof -
  note run = assms(1) [unfolded SwitchTeam_def Let_def]
  from run obtain t w1 w2 u w3 w4 where
      get: "GetRefreshTokenByHash (HashToken tok) w = (Inr t, w1)"
    and live: "\<not> After (clock w1) (rt_ExpiresAt t)" "rt_RevokedAt t = None"
    and mem: "requireActiveMembership s t w1 = (Inr (), w2)"
    and usr: "GetUserByID (rt_UserID t) w2 = (Inr u, w3)"
    and tx: "RunInTx (sv_Tx s)
       (seq (if (if teamID \<noteq> '''' then Some teamID else None) \<noteq> None
             then checkMembership (u_ID u) teamID (User ErrNotTeamMember) else ret ()) (\<lambda>_.
        seq (ConsumeRefreshToken (rt_ID t)) (\<lambda>consumed.
        if \<not> consumed then raise errTokenSpent
        else issueSession s (u_ID u) (u_Email u) (if teamID \<noteq> '''' then Some teamID else None) ua ip))) w3 = (Inr p, w4)"
    and w': "db w' = db w4"
    by (auto split: if_splits)
  have w1: "db w1 = db w" "clock w1 = clock w" "mem_GetRefreshTokenByHash (refresh (db w)) (HashToken tok) = Inr t"
    using get by (auto simp: port_defs)
  have w2: "db w2 = db w" "clock w2 = clock w"
    using requireActiveMembership_ok(1) [OF mem] w1 by (metis world.ext_inject world.surjective world.update_convs(3))+
  have w3: "db w3 = db w" "clock w3 = clock w" "mem_GetUserByID (users (db w)) (rt_UserID t) = Inr u"
    using usr w2 by (auto simp: port_defs)
  then have u: "u_ID u = rt_UserID t" using us_get_id [OF assms(2)] by blast
  obtain d w5 w6 where c: "mem_ConsumeRefreshToken (clock w) (rt_ID t) (refresh (db w)) = (Inr True, d)"
    and m: "teamID \<noteq> '''' \<longrightarrow> (\<exists>m. mem_GetMemberByUserAndTeam (members (db w)) (rt_UserID t) teamID = Inr m \<and> m_IsActive m)"
    and iss: "issueSession s (u_ID u) (u_Email u) (if teamID \<noteq> '''' then Some teamID else None) ua ip w5 = (Inr p, w6)"
    and w5: "db w5 = (db w)\<lparr>refresh := d\<rparr>" and w6: "db w4 = db w6"
    using tx w3 u by (auto elim!: RunInTx_ok simp: port_defs split: if_splits dest!: checkMembership_ok)
  note i = issueSession_ok [OF iss]
  let ?row = "session_row s (u_ID u) (if teamID \<noteq> '''' then Some teamID else None) ua ip w5"
  show ?thesis
    using w1 live c m w' w6 i w5 u
    by (intro exI [of _ t] exI [of _ d] exI [of _ ?row]) (simp add: After_def)
qed


definition demo_member :: member where
  "demo_member = \<lparr>m_ID = ''m1'', m_TeamID = ''t1'', m_UserID = Some ''u1'', m_Role = RoleOwner, m_DisplayName = ''Ann'',
     m_Email = ''a@x'', m_IsActive = True, m_CreatedAt = 0, m_UpdatedAt = 0\<rparr>"

definition demo_world6 :: world where
  "demo_world6 = demo_world3\<lparr>db := (db demo_world3)
     \<lparr>members := snd (mem_CreateMember demo_member NewMemberStore)\<rparr>\<rparr>"

theorem switch_team_sound_witness:
  "\<exists>p w' row d. SwitchTeam demo_service ''abc'' ''t1'' ''ua'' ''ip'' demo_world6 = (Inr p, w') \<and>
     db w' = add_session row d \<and> rt_TeamID row = Some ''t1''"
proof -
  obtain p w' where run: "SwitchTeam demo_service ''abc'' ''t1'' ''ua'' ''ip'' demo_world6 = (Inr p, w')"
    by (simp add: SwitchTeam_def requireActiveMembership_def checkMembership_def issueSession_def Generate_def
        RunInTx_def Let_def demo_world6_def demo_member_def row_via_def demo_session_defs)
  have "us_inv (users (db demo_world6))"
    by (simp add: us_inv_def points_into_def demo_world6_def demo_session_defs)
  from switch_team_sound [OF run this] have "\<exists>row d. db w' = add_session row d \<and> rt_TeamID row = Some ''t1''"
    by auto
  then show ?thesis using run by blast
qed

end
