(* ===== verification/AccountProps.thy ===== *)
theory AccountProps
  imports UserAccount SessionProps TwoFactorProps
begin

text \<open>
  What the account operations guarantee: the password reset from the request to the sessions it ends,
  its single use and its atomicity, the verification of an address, and the operator's unlock.
\<close>

section \<open>The reset\<close>

lemma liveResetTokenE [elim!]:
  assumes "liveResetToken tok w = (r, w')"
  obtains (bad) e where "r = Inl e" and "db w' = db w" and "clock w' = clock w"
  | (ok) t fs where "r = Inr t" and "w' = w\<lparr>faults := fs\<rparr>"
      and "mem_GetPasswordResetTokenByHash (resets (db w)) (HashToken tok) = Inr t"
      and "pr_UsedAt t = None" and "clock w \<le> pr_ExpiresAt t"
  using assms unfolding liveResetToken_def
  by (auto simp: port_defs After_def split: if_splits)

lemma prs_get_marked:
  assumes "prs_inv r" and "mem_GetPasswordResetTokenByHash r h = Inr t"
  shows "mem_GetPasswordResetTokenByHash (snd (mem_MarkPasswordResetTokenUsed now (pr_ID t) r)) h =
     Inr (t\<lparr>pr_UsedAt := Some now\<rparr>)"
proof -
  from assms obtain i where i: "prs_byHash r h = Some i" "prs_byID r i = Some t"
    unfolding mem_GetPasswordResetTokenByHash_def by (auto dest: row_via_SomeD)
  with assms(1) have "pr_ID t = i" by (auto simp: prs_inv_def)
  with i show ?thesis by (simp add: mem_defs row_via_def)
qed

text \<open>The three writes of the transaction.\<close>

definition db_reset :: "time \<Rightarrow> user \<Rightarrow> string \<Rightarrow> dbase \<Rightarrow> dbase" where
  "db_reset now u tokenID d =
     d\<lparr>users := snd (mem_UpdateUser u (users d)),
       resets := snd (mem_MarkPasswordResetTokenUsed now tokenID (resets d)),
       refresh := snd (mem_RevokeAllUserRefreshTokens now (u_ID u) (refresh d))\<rparr>"

lemma ResetPassword_ok:
  assumes "ResetPassword s tok new w = (Inr (), w')"
  shows "\<exists>t u hash. mem_GetPasswordResetTokenByHash (resets (db w)) (HashToken tok) = Inr t \<and>
     pr_UsedAt t = None \<and> clock w \<le> pr_ExpiresAt t \<and> mem_GetUserByID (users (db w)) (pr_UserID t) = Inr u \<and>
     uc_PasswordValidator (sv_cfg s) (u_Email u) new = None \<and>
     Inr hash = h_Hash (uc_PasswordHasher (sv_cfg s)) (draw (h_salt (uc_PasswordHasher (sv_cfg s))) w) new \<and>
     db w' = db_reset (clock w) (u\<lparr>u_PasswordHash := hash, u_UpdatedAt := clock w\<rparr>) (pr_ID t) (db w)"
  using assms unfolding ResetPassword_def Let_def
  by (auto simp: port_defs db_reset_def split: option.splits elim!: RunInTx_ok)
    (rule exI, rule conjI, assumption, simp)+

text \<open>
  C21. A password reset that succeeds consumed a token that was in the store, unused and unexpired; the new password
  passed the policy and, with a hasher whose hashes verify, is the one that verifies against the stored row; every
  session of the user is revoked; and the token is used: in the stores the reset leaves, presenting it again is refused
  at any later instant, whatever the new password.
\<close>

theorem reset_password_sound:
  assumes "ResetPassword s tok new w = (Inr (), w')" and "hasher_correct (uc_PasswordHasher (sv_cfg s))"
    and "us_inv (users (db w))" and "prs_inv (resets (db w))" and "rs_inv (refresh (db w))"
  shows "\<exists>t u. mem_GetPasswordResetTokenByHash (resets (db w)) (HashToken tok) = Inr t \<and>
     pr_UsedAt t = None \<and> clock w \<le> pr_ExpiresAt t \<and>
     uc_PasswordValidator (sv_cfg s) (u_Email u) new = None \<and>
     mem_GetUserByID (users (db w')) (pr_UserID t) = Inr u \<and>
     h_Verify (uc_PasswordHasher (sv_cfg s)) new (u_PasswordHash u) \<and>
     (\<forall>i row. rs_byID (refresh (db w')) i = Some row \<longrightarrow> rt_UserID row = pr_UserID t \<longrightarrow> rt_RevokedAt row \<noteq> None) \<and>
     (\<forall>s' new' now. fst (ResetPassword s' tok new' (w'\<lparr>clock := now\<rparr>)) \<noteq> Inr ())"
proof -
  from ResetPassword_ok [OF assms(1)] obtain t u hash where
      t: "mem_GetPasswordResetTokenByHash (resets (db w)) (HashToken tok) = Inr t" "pr_UsedAt t = None" "clock w \<le> pr_ExpiresAt t"
    and u: "mem_GetUserByID (users (db w)) (pr_UserID t) = Inr u" "uc_PasswordValidator (sv_cfg s) (u_Email u) new = None"
    and hash: "Inr hash = h_Hash (uc_PasswordHasher (sv_cfg s)) (draw (h_salt (uc_PasswordHasher (sv_cfg s))) w) new"
    and d: "db w' = db_reset (clock w) (u\<lparr>u_PasswordHash := hash, u_UpdatedAt := clock w\<rparr>) (pr_ID t) (db w)" by blast
  let ?u = "u\<lparr>u_PasswordHash := hash, u_UpdatedAt := clock w\<rparr>"
  have id: "u_ID u = pr_UserID t" using us_get_id [OF assms(3) u(1)] .
  have get: "mem_GetUserByID (users (db w')) (pr_UserID t) = Inr ?u"
    using u(1) id by (simp add: d db_reset_def mem_GetUserByID_def mem_UpdateUser_def split: option.splits)
  have ver: "h_Verify (uc_PasswordHasher (sv_cfg s)) new (u_PasswordHash ?u)"
    using assms(2) hash [symmetric] by (auto simp: hasher_correct_def)
  have rev: "rt_RevokedAt row \<noteq> None" if "rs_byID (refresh (db w')) i = Some row" "rt_UserID row = pr_UserID t" for i row
    using revoke_all_revokes [OF assms(5), of "clock w" "pr_UserID t" "fst (mem_RevokeAllUserRefreshTokens (clock w) (pr_UserID t) (refresh (db w)))"
        "snd (mem_RevokeAllUserRefreshTokens (clock w) (pr_UserID t) (refresh (db w)))" i row] that
    by (simp add: d db_reset_def id)
  have used: "mem_GetPasswordResetTokenByHash (resets (db w')) (HashToken tok) = Inr (t\<lparr>pr_UsedAt := Some (clock w)\<rparr>)"
    using prs_get_marked [OF assms(4) t(1)] by (simp add: d db_reset_def)
  have no: "fst (ResetPassword s' tok new' (w'\<lparr>clock := now\<rparr>)) \<noteq> Inr ()" for s' new' now
  proof
    assume "fst (ResetPassword s' tok new' (w'\<lparr>clock := now\<rparr>)) = Inr ()"
    then obtain w2 where "ResetPassword s' tok new' (w'\<lparr>clock := now\<rparr>) = (Inr (), w2)" by (metis prod.collapse)
    from ResetPassword_ok [OF this] used show False by auto
  qed
  show ?thesis
    by (rule exI [of _ t], rule exI [of _ ?u], intro conjI allI impI)
      (use t u get ver in simp_all, use rev in blast, use no in blast)
qed

definition demo_reset :: password_reset_token where
  "demo_reset = \<lparr>pr_ID = ''x1'', pr_UserID = ''u1'', pr_TokenHash = HashToken ''reset'', pr_ExpiresAt = hour,
     pr_UsedAt = None, pr_CreatedAt = 0\<rparr>"

definition demo_world7 :: world where
  "demo_world7 = demo_world5\<lparr>db := (db demo_world5)
     \<lparr>resets := snd (mem_CreatePasswordResetToken demo_reset NewPasswordResetStore)\<rparr>\<rparr>"

lemmas demo_reset_defs = ResetPassword_def liveResetToken_def demo_world7_def demo_reset_def row_via_def RunInTx_def
  Let_def Hash_def demo_session_defs

lemma demo_invs: "us_inv (users (db demo_world7))" "prs_inv (resets (db demo_world7))" "rs_inv (refresh (db demo_world7))"
proof -
  show "us_inv (users (db demo_world7))"
    by (simp add: us_inv_def points_into_def demo_world7_def demo_session_defs)
  show "prs_inv (resets (db demo_world7))"
    using prs_inv_create [OF prs_inv_new, of demo_reset]
    by (simp add: demo_world7_def mem_CreatePasswordResetToken_def NewPasswordResetStore_def)
  show "rs_inv (refresh (db demo_world7))" using demo_rs_inv(1) by (simp add: demo_world7_def)
qed

lemma demo_hasher_correct: "hasher_correct (uc_PasswordHasher (sv_cfg demo_service))"
  by (auto simp: hasher_correct_def demo_defs)

lemma demo_reset_run: "\<exists>w'. ResetPassword demo_service ''reset'' ''new'' demo_world7 = (Inr (), w')"
  by (simp add: demo_reset_defs)

theorem reset_password_sound_witness:
  "\<exists>w'. ResetPassword demo_service ''reset'' ''new'' demo_world7 = (Inr (), w') \<and>
     fst (ResetPassword demo_service ''reset'' ''again'' (w'\<lparr>clock := 2\<rparr>)) \<noteq> Inr ()"
proof -
  obtain w' where run: "ResetPassword demo_service ''reset'' ''new'' demo_world7 = (Inr (), w')"
    using demo_reset_run by blast
  from reset_password_sound [OF run demo_hasher_correct demo_invs] run show ?thesis by blast
qed

text \<open>
  With a transaction runner a reset that fails changes nothing: whatever step fails, a hook that
  vetoes or a store that breaks after the first write, the password, the token and the sessions are
  what they were.
\<close>

theorem reset_password_atomic:
  assumes "sv_Tx s" and "ResetPassword s tok new w = (Inl e, w')"
  shows "db w' = db w"
  using assms unfolding ResetPassword_def Let_def
  by (auto simp: port_defs dest!: RunInTx_error)

definition vetoing_service :: service where
  "vetoing_service = demo_service\<lparr>sv_Tx := True,
     sv_cfg := demo_config\<lparr>uc_Hooks := no_hooks\<lparr>hk_AfterPasswordChange := Some (\<lambda>_. Some (Fault ''veto''))\<rparr>\<rparr>\<rparr>"

lemma demo_veto: "\<exists>w'. ResetPassword vetoing_service ''reset'' ''new'' demo_world7 = (Inl (Fault ''veto''), w')"
  by (simp add: demo_reset_defs vetoing_service_def)

theorem reset_password_atomic_witness:
  "\<exists>w'. ResetPassword vetoing_service ''reset'' ''new'' demo_world7 = (Inl (Fault ''veto''), w') \<and>
     db w' = db demo_world7"
proof -
  obtain w' where run: "ResetPassword vetoing_service ''reset'' ''new'' demo_world7 = (Inl (Fault ''veto''), w')"
    using demo_veto by blast
  have "sv_Tx vetoing_service" by (simp add: vetoing_service_def)
  from reset_password_atomic [OF this run] run show ?thesis by blast
qed

section \<open>From the request to the reset\<close>

text \<open>The token a request writes.\<close>

definition reset_row :: "service \<Rightarrow> user \<Rightarrow> world \<Rightarrow> password_reset_token" where
  "reset_row s u w =
     \<lparr>pr_ID = uuid_of (draw 16 (w\<lparr>rpos := rpos w + 32\<rparr>)), pr_UserID = u_ID u,
      pr_TokenHash = HashToken (b64url_encode (draw 32 w)), pr_ExpiresAt = clock w + uc_PasswordResetTTL (sv_cfg s),
      pr_UsedAt = None, pr_CreatedAt = clock w\<rparr>"

lemma RequestPasswordReset_ok:
  assumes "RequestPasswordReset s email w = (Inr (), w')"
    and "mem_GetUserByEmail (users (db w)) (NormalizeEmail email) = Inr u"
  shows "outbox w' = outbox w @ [SendPasswordReset (u_Email u) (b64url_encode (draw 32 w))] \<and>
     clock w' = clock w \<and> db w' = (db w)\<lparr>resets := snd (mem_CreatePasswordResetToken (reset_row s u w)
       (snd (mem_DeleteUserPasswordResetTokens (u_ID u) (resets (db w)))))\<rparr>"
  using assms unfolding RequestPasswordReset_def Let_def
  by (auto simp: port_defs reset_row_def draw_def elim!: AllowEach_frame)

lemma ResetPassword_runs:
  assumes "faults w = []" and "mem_GetPasswordResetTokenByHash (resets (db w)) (HashToken tok) = Inr t"
    and "pr_UsedAt t = None" and "clock w \<le> pr_ExpiresAt t" and "mem_GetUserByID (users (db w)) (pr_UserID t) = Inr u"
    and "uc_PasswordValidator (sv_cfg s) (u_Email u) new = None" and "hk_AfterPasswordChange (uc_Hooks (sv_cfg s)) = None"
    and "\<And>salt. \<exists>hash. h_Hash (uc_PasswordHasher (sv_cfg s)) salt new = Inr hash"
    and "u_ID u = pr_UserID t" and "prs_byID (resets (db w)) (pr_ID t) \<noteq> None" and "rs_inv (refresh (db w))"
  shows "\<exists>w'. ResetPassword s tok new w = (Inr (), w')"
proof -
  obtain hash where hash: "h_Hash (uc_PasswordHasher (sv_cfg s)) (draw (h_salt (uc_PasswordHasher (sv_cfg s))) w) new = Inr hash"
    using assms(8) by blast
  have u: "us_byID (users (db w)) (pr_UserID t) = Some u"
    using assms(5) by (auto simp: mem_GetUserByID_def split: option.splits)
  obtain row where row: "prs_byID (resets (db w)) (pr_ID t) = Some row" using assms(10) by (auto simp: not_None_eq)
  show ?thesis
    using assms(1-9) hash u row assms(11)
    by (cases "sv_Tx s") (simp_all add: ResetPassword_def liveResetToken_def RunInTx_def run_defs Let_def Hash_def After_def
        draw_def mem_UpdateUser_def mem_MarkPasswordResetTokenUsed_def revoke_all_eq)
qed

text \<open>
  A requested reset works, and only the latest one does: when a request for a registered address
  succeeds, the message goes to the account's own address, the token in it is the only reset token of
  the account left, and presenting it within its lifetime with a password the policy accepts succeeds.
\<close>

theorem reset_link_roundtrip:
  assumes "RequestPasswordReset s email w = (Inr (), w1)"
    and "mem_GetUserByEmail (users (db w)) (NormalizeEmail email) = Inr u"
    and "us_inv (users (db w))" and "prs_inv (resets (db w))" and "rs_inv (refresh (db w))"
    and "prs_byID (resets (db w)) (pr_ID (reset_row s u w)) = None" and "faults w1 = []"
    and "hk_AfterPasswordChange (uc_Hooks (sv_cfg s)) = None"
    and "uc_PasswordValidator (sv_cfg s) (u_Email u) new = None"
    and "\<And>salt. \<exists>hash. h_Hash (uc_PasswordHasher (sv_cfg s)) salt new = Inr hash"
    and "now \<le> clock w + uc_PasswordResetTTL (sv_cfg s)"
  shows "\<exists>raw w2. outbox w1 = outbox w @ [SendPasswordReset (u_Email u) raw] \<and>
     (\<forall>h t. mem_GetPasswordResetTokenByHash (resets (db w1)) h = Inr t \<longrightarrow> pr_UserID t = u_ID u \<longrightarrow> h = HashToken raw) \<and>
     ResetPassword s raw new (w1\<lparr>clock := now\<rparr>) = (Inr (), w2)"
proof -
  let ?row = "reset_row s u w" and ?raw = "b64url_encode (draw 32 w)"
  define del where "del = snd (mem_DeleteUserPasswordResetTokens (u_ID u) (resets (db w)))"
  have del: "mem_DeleteUserPasswordResetTokens (u_ID u) (resets (db w)) = (fst (mem_DeleteUserPasswordResetTokens (u_ID u) (resets (db w))), del)"
    by (simp add: del_def)
  note run = RequestPasswordReset_ok [OF assms(1,2), folded del_def]
  have fresh: "prs_byID del (pr_ID ?row) = None" using prs_delete_rows(1) [OF del] assms(6) by simp
  have hash: "pr_TokenHash ?row = HashToken ?raw" by (simp add: reset_row_def)
  have ix: "prs_byHash del h = Some i \<Longrightarrow> prs_byID del i \<noteq> None" for h i
    using prs_inv_delete [OF assms(4) del] by (fastforce simp: prs_inv_def hash_indexed_def)
  have only: "h = HashToken ?raw"
    if get: "mem_GetPasswordResetTokenByHash (resets (db w1)) h = Inr t" and t: "pr_UserID t = u_ID u" for h t
  proof (rule ccontr)
    assume "h \<noteq> HashToken ?raw"
    with get obtain i where "prs_byHash del h = Some i" "((prs_byID del)(pr_ID ?row \<mapsto> ?row)) i = Some t"
      using run hash by (auto simp: mem_CreatePasswordResetToken_def mem_GetPasswordResetTokenByHash_def dest: row_via_SomeD)
    moreover from this ix fresh have "i \<noteq> pr_ID ?row" by auto
    ultimately have "mem_GetPasswordResetTokenByHash del h = Inr t"
      by (simp add: mem_GetPasswordResetTokenByHash_def row_via_def)
    with prs_delete_all [OF assms(4) del this] t show False by simp
  qed
  have "us_byID (users (db w)) (u_ID u) = Some u"
    using assms(2,3) by (auto simp: mem_GetUserByEmail_def us_inv_def dest!: row_via_SomeD)
  then have "\<exists>w2. ResetPassword s ?raw new (w1\<lparr>clock := now\<rparr>) = (Inr (), w2)"
    using run assms(5,7-11) hash
    by (intro ResetPassword_runs [where t = ?row and u = u])
      (simp_all add: mem_CreatePasswordResetToken_def mem_GetPasswordResetTokenByHash_def row_via_def reset_row_def
        mem_GetUserByID_def)
  then show ?thesis using run only by blast
qed

lemma demo_request: "\<exists>w1. RequestPasswordReset demo_service ''a@x'' demo_world7 = (Inr (), w1) \<and> faults w1 = []"
  by (simp add: RequestPasswordReset_def demo_norm AllowEach_def HasSuffix_colon_def Allow_def Noop_def
      GenerateOpaqueToken_def NewID_def demo_reset_defs)

theorem reset_link_roundtrip_witness:
  "\<exists>raw w1 w2. RequestPasswordReset demo_service ''a@x'' demo_world7 = (Inr (), w1) \<and>
     outbox w1 = [SendPasswordReset ''a@x'' raw] \<and>
     ResetPassword demo_service raw ''new'' (w1\<lparr>clock := 9\<rparr>) = (Inr (), w2)"
proof -
  obtain w1 where run: "RequestPasswordReset demo_service ''a@x'' demo_world7 = (Inr (), w1)" and nf: "faults w1 = []"
    using demo_request by blast
  have get: "mem_GetUserByEmail (users (db demo_world7)) (NormalizeEmail ''a@x'') = Inr demo_user"
    by (simp add: demo_norm row_via_def demo_reset_defs)
  have fresh: "prs_byID (resets (db demo_world7)) (pr_ID (reset_row demo_service demo_user demo_world7)) = None"
    by (simp add: reset_row_def uuid_not draw_def demo_reset_defs)
  have out: "outbox demo_world7 = []" "u_Email demo_user = ''a@x''" by (simp_all add: demo_reset_defs)
  show ?thesis
    using reset_link_roundtrip [OF run get demo_invs fresh nf, of "''new''" 9] run out
    by (auto simp: demo_defs demo_world7_def demo_world5_def demo_world3_def duration_defs time_defs)
qed

section \<open>Verifying an address\<close>

lemma evs_get_marked:
  assumes "evs_inv r" and "mem_GetEmailVerificationTokenByHash r h = Inr t"
  shows "mem_GetEmailVerificationTokenByHash (snd (mem_MarkEmailVerificationTokenUsed now (ev_ID t) r)) h =
     Inr (t\<lparr>ev_UsedAt := Some now\<rparr>)"
proof -
  from assms obtain i where i: "evs_byHash r h = Some i" "evs_byID r i = Some t"
    unfolding mem_GetEmailVerificationTokenByHash_def by (auto dest: row_via_SomeD)
  with assms(1) have "ev_ID t = i" by (auto simp: evs_inv_def)
  with i show ?thesis by (simp add: mem_defs row_via_def)
qed

lemma VerifyEmail_ok:
  assumes "VerifyEmail tok w = (Inr (), w')"
  shows "\<exists>t u. mem_GetEmailVerificationTokenByHash (verifs (db w)) (HashToken tok) = Inr t \<and>
     ev_UsedAt t = None \<and> clock w \<le> ev_ExpiresAt t \<and> mem_GetUserByID (users (db w)) (ev_UserID t) = Inr u \<and>
     db w' = (db w)\<lparr>users := snd (mem_UpdateUser
         (u\<lparr>u_EmailVerified := True, u_EmailVerifiedAt := Some (clock w), u_UpdatedAt := clock w\<rparr>) (users (db w))),
       verifs := snd (mem_MarkEmailVerificationTokenUsed (clock w) (ev_ID t) (verifs (db w)))\<rparr>"
  using assms unfolding VerifyEmail_def
  by (auto simp: port_defs After_def split: if_splits)

text \<open>
  Verifying an address is earned and works once: a verification that succeeds presented a token
  that was in the store, unused and unexpired; it marks exactly the account the token names as
  verified, changes no other account, and the same token is refused ever after.
\<close>

theorem verify_email_sound:
  assumes "VerifyEmail tok w = (Inr (), w')" and "us_inv (users (db w))" and "evs_inv (verifs (db w))"
  shows "\<exists>t u. mem_GetEmailVerificationTokenByHash (verifs (db w)) (HashToken tok) = Inr t \<and>
     ev_UsedAt t = None \<and> clock w \<le> ev_ExpiresAt t \<and>
     mem_GetUserByID (users (db w')) (ev_UserID t) = Inr u \<and> u_EmailVerified u \<and> u_EmailVerifiedAt u = Some (clock w) \<and>
     (\<forall>i. i \<noteq> ev_UserID t \<longrightarrow> mem_GetUserByID (users (db w')) i = mem_GetUserByID (users (db w)) i) \<and>
     (\<forall>now. fst (VerifyEmail tok (w'\<lparr>clock := now\<rparr>)) \<noteq> Inr ())"
proof -
  from VerifyEmail_ok [OF assms(1)] obtain t u where
      t: "mem_GetEmailVerificationTokenByHash (verifs (db w)) (HashToken tok) = Inr t" "ev_UsedAt t = None" "clock w \<le> ev_ExpiresAt t"
    and u: "mem_GetUserByID (users (db w)) (ev_UserID t) = Inr u"
    and d: "db w' = (db w)\<lparr>users := snd (mem_UpdateUser
         (u\<lparr>u_EmailVerified := True, u_EmailVerifiedAt := Some (clock w), u_UpdatedAt := clock w\<rparr>) (users (db w))),
       verifs := snd (mem_MarkEmailVerificationTokenUsed (clock w) (ev_ID t) (verifs (db w)))\<rparr>" by blast
  have id: "u_ID u = ev_UserID t" using us_get_id [OF assms(2) u] .
  have used: "mem_GetEmailVerificationTokenByHash (verifs (db w')) (HashToken tok) = Inr (t\<lparr>ev_UsedAt := Some (clock w)\<rparr>)"
    using evs_get_marked [OF assms(3) t(1)] by (simp add: d)
  have no: "fst (VerifyEmail tok (w'\<lparr>clock := now\<rparr>)) \<noteq> Inr ()" for now
  proof
    assume "fst (VerifyEmail tok (w'\<lparr>clock := now\<rparr>)) = Inr ()"
    then obtain w2 where "VerifyEmail tok (w'\<lparr>clock := now\<rparr>) = (Inr (), w2)" by (metis prod.collapse)
    from VerifyEmail_ok [OF this] used show False by auto
  qed
  show ?thesis
    using t u id no by (intro exI [of _ t]) (auto simp: d mem_GetUserByID_def mem_UpdateUser_def split: option.splits)
qed

definition demo_verification :: email_verification_token where
  "demo_verification = \<lparr>ev_ID = ''v1'', ev_UserID = ''u1'', ev_TokenHash = HashToken ''verify'', ev_ExpiresAt = hour,
     ev_UsedAt = None, ev_CreatedAt = 0\<rparr>"

definition demo_world8 :: world where
  "demo_world8 = demo_world7\<lparr>db := (db demo_world7)
     \<lparr>verifs := snd (mem_CreateEmailVerificationToken demo_verification NewEmailVerificationStore)\<rparr>\<rparr>"

theorem verify_email_sound_witness:
  "\<exists>w'. VerifyEmail ''verify'' demo_world8 = (Inr (), w') \<and> fst (VerifyEmail ''verify'' (w'\<lparr>clock := 1\<rparr>)) \<noteq> Inr ()"
proof -
  obtain w' where run: "VerifyEmail ''verify'' demo_world8 = (Inr (), w')"
    by (simp add: VerifyEmail_def demo_world8_def demo_verification_def demo_reset_defs)
  have inv: "evs_inv (verifs (db demo_world8))" "us_inv (users (db demo_world8))"
    using evs_inv_create [OF evs_inv_new, of demo_verification] demo_invs
    by (simp_all add: demo_world8_def mem_CreateEmailVerificationToken_def NewEmailVerificationStore_def)
  from verify_email_sound [OF run inv(2,1)] run show ?thesis by blast
qed

section \<open>The operator\<close>

text \<open>
  Unlocking gives the account back: after an \<open>Unlock\<close> that succeeds neither the operator's lock nor
  the failed-attempt lockout stands, at any instant; the other accounts' locks and everything outside
  the lockout table are untouched, and the event names the operator and the account.
\<close>

theorem unlock_restores:
  assumes "Unlock operatorID userID w = (Inr (), w')" and "us_inv (users (db w))" and "0 < uc_MaxFailedLoginAttempts (sv_cfg s)"
  shows "\<exists>u e. mem_GetUserByID (users (db w)) userID = Inr u \<and> \<not> lo_locked (lockouts (db w')) userID \<and>
     (\<forall>t. \<not> locked_out s (db w') t (u_Email u)) \<and>
     (\<forall>i. i \<noteq> userID \<longrightarrow> lo_locked (lockouts (db w')) i = lo_locked (lockouts (db w)) i) \<and>
     db w' = (db w)\<lparr>lockouts := lockouts (db w')\<rparr> \<and>
     trail w' = trail w @ [e] \<and> ev_Type e = EventUserUnlocked \<and> ev_ActorID e = operatorID \<and> ev_TargetID e = userID"
proof -
  from assms(1) obtain u where u: "mem_GetUserByID (users (db w)) userID = Inr u"
    and d: "db w' = (db w)\<lparr>lockouts := snd (mem_ClearFailedLoginAttempts (u_Email u) (snd (mem_UnlockAccount (u_ID u) (lockouts (db w)))))\<rparr>"
    and e: "trail w' = trail w @ [(event_of EventUserUnlocked ResultSuccess)
       \<lparr>ev_ActorID := operatorID, ev_TargetID := u_ID u, ev_Email := u_Email u\<rparr>]"
    unfolding Unlock_def by (auto simp: port_defs)
  have id: "u_ID u = userID" using us_get_id [OF assms(2) u] .
  have "lo_count (lockouts (db w')) (u_Email u) t = 0" for t
    by (simp add: d lo_count_def mem_ClearFailedLoginAttempts_def mem_CountRecentFailedLoginAttempts_def filter_empty_conv)
  then show ?thesis
    using u id e assms(3)
    by (intro exI [of _ u]) (auto simp: d locked_out_def mem_ClearFailedLoginAttempts_def mem_UnlockAccount_def event_of_def)
qed

theorem unlock_restores_witness:
  "\<exists>w'. Unlock ''op'' ''u1'' (demo_world\<lparr>db := (db demo_world)\<lparr>lockouts := snd (mem_LockAccount ''u1'' NewLockoutStore)\<rparr>\<rparr>) =
     (Inr (), w') \<and> \<not> lo_locked (lockouts (db w')) ''u1''"
proof -
  let ?w = "demo_world\<lparr>db := (db demo_world)\<lparr>lockouts := snd (mem_LockAccount ''u1'' NewLockoutStore)\<rparr>\<rparr>"
  obtain w' where run: "Unlock ''op'' ''u1'' ?w = (Inr (), w')"
    by (simp add: Unlock_def demo_session_defs)
  have "us_inv (users (db ?w))" and "0 < uc_MaxFailedLoginAttempts (sv_cfg demo_service)"
    by (simp_all add: us_inv_def points_into_def demo_session_defs)
  from unlock_restores [OF run this] run show ?thesis by blast
qed

section \<open>What a reset request reveals\<close>

text \<open>
  A reset request is silent only while nothing fails: with the same schedule of faults, a broken
  message sender is reported to the caller when the address is registered and to nobody when it is not,
  so the answer tells the two apart.
\<close>

theorem reset_request_tells_accounts_apart:
  "fst (RequestPasswordReset demo_service ''a@x''
      (demo_world\<lparr>faults := [None, None, None, None, None, Some ''smtp'']\<rparr>)) = Inl (Fault ''smtp'') \<and>
   fst (RequestPasswordReset demo_service ''b@x''
      (demo_world\<lparr>faults := [None, None, None, None, None, Some ''smtp'']\<rparr>)) = Inr ()"
proof -
  have norm: "NormalizeEmail ''b@x'' = ''b@x''" by code_simp
  show ?thesis
    by (simp add: RequestPasswordReset_def demo_norm norm AllowEach_def HasSuffix_colon_def Allow_def Noop_def
      GenerateOpaqueToken_def NewID_def demo_reset_defs rd_def wr_def send_def rand_read_def port_def)
qed

end
