(* ===== verification/TeamService.thy ===== *)
theory TeamService
  imports UserSessions
begin

text \<open>
  Package \<open>team\<close>: creating teams, managing members and roles, and inviting by email
  (\<open>team/service.go\<close>, \<open>teams.go\<close>, \<open>members.go\<close>, \<open>invitations.go\<close>). The host's \<open>Admission\<close> is a function
  of the team and its member count; \<open>None\<close> admits.
\<close>

section \<open>Service (team/service.go)\<close>

type_synonym admission = "string \<Rightarrow> nat \<Rightarrow> error option"

definition NopAdmission :: admission where "NopAdmission teamID currentCount = None"

record team_config =
  tc_InvitationTTL :: duration

definition tc_withDefaults :: "team_config \<Rightarrow> team_config" where
  "tc_withDefaults c = (if tc_InvitationTTL c \<le> 0 then c\<lparr>tc_InvitationTTL := 7 * 24 * hour\<rparr> else c)"

text \<open>\<open>tv_Sessions\<close>: \<open>Stores.Sessions\<close> is set.\<close>

record team_service =
  tv_Tx :: bool
  tv_Sessions :: bool
  tv_admission :: admission
  tv_cfg :: team_config

section \<open>Teams (team/teams.go)\<close>

definition TeamService_CreateTeam ::
  "team_service \<Rightarrow> string \<Rightarrow> string \<Rightarrow> string \<Rightarrow> string \<Rightarrow> string \<Rightarrow> team prog" where
  "TeamService_CreateTeam s name slug ownerUserID ownerDisplayName ownerEmail =
     seq NewID (\<lambda>teamID. seq NewID (\<lambda>memberID. with_now (\<lambda>now.
       let t = \<lparr>t_ID = teamID, t_Name = name, t_Slug = slug, t_OwnerID = ownerUserID, t_CreatedAt = now, t_UpdatedAt = now\<rparr> in
       seq (RunInTx (tv_Tx s)
         (on (GetTeamBySlug slug)
           (\<lambda>e. if e \<noteq> ErrNotFound then raise e
                else seq (CreateTeam t) (\<lambda>_.
                  CreateMember \<lparr>m_ID = memberID, m_TeamID = teamID, m_UserID = Some ownerUserID, m_Role = RoleOwner,
                    m_DisplayName = ownerDisplayName, m_Email = ownerEmail, m_IsActive = True,
                    m_CreatedAt = now, m_UpdatedAt = now\<rparr>))
           (\<lambda>_. raise (Team ErrSlugTaken)))) (\<lambda>_.
       seq (log ((event_of EventTeamCreated ResultSuccess)\<lparr>ev_ActorID := ownerUserID, ev_TargetID := teamID\<rparr>)) (\<lambda>_.
       ret t)))))"

section \<open>Members (team/members.go)\<close>

definition requireNotLastOwner :: "string \<Rightarrow> string \<Rightarrow> unit prog" where
  "requireNotLastOwner teamID excludeMemberID =
     seq (ListMembersByTeam teamID) (\<lambda>members.
       if \<exists>m \<in> set members. m_ID m \<noteq> excludeMemberID \<and> m_Role m = RoleOwner \<and> m_IsActive m
       then ret () else raise (Team ErrLastOwner))"

text \<open>
  The member is read, checked and written in one transaction. The callers read only the team of the
  member afterwards, which no write changes, so the member is answered as it was read.
\<close>

definition guardedMemberWrite ::
  "team_service \<Rightarrow> string \<Rightarrow> (member \<Rightarrow> bool) \<Rightarrow> (member \<Rightarrow> 'a prog) \<Rightarrow> (member \<times> 'a) prog" where
  "guardedMemberWrite s memberID losesOwner write =
     RunInTx (tv_Tx s)
       (seq (GetMember memberID) (\<lambda>m.
        seq (if losesOwner m then requireNotLastOwner (m_TeamID m) (m_ID m) else ret ()) (\<lambda>_.
        seq (write m) (\<lambda>x. ret (m, x)))))"

fun end_sessions :: "string \<Rightarrow> refresh_token list \<Rightarrow> nat \<Rightarrow> nat prog" where
  "end_sessions teamID [] n = ret n"
| "end_sessions teamID (t # ts) n =
     (if rt_TeamID t \<noteq> Some teamID then end_sessions teamID ts n
      else seq (RevokeRefreshToken (rt_ID t)) (\<lambda>_. end_sessions teamID ts (n + 1)))"

definition endTeamSessions :: "team_service \<Rightarrow> member \<Rightarrow> nat prog" where
  "endTeamSessions s m =
     (case m_UserID m of
        None \<Rightarrow> ret 0
      | Some userID \<Rightarrow>
          (if \<not> tv_Sessions s then ret 0
           else seq (ListActiveRefreshTokens userID) (\<lambda>sessions. end_sessions (m_TeamID m) sessions 0)))"

definition UpdateMemberRole :: "team_service \<Rightarrow> string \<Rightarrow> role \<Rightarrow> unit prog" where
  "UpdateMemberRole s memberID r =
     seq (guardedMemberWrite s memberID (\<lambda>m. m_Role m = RoleOwner \<and> r \<noteq> RoleOwner)
       (\<lambda>m. with_now (\<lambda>now. UpdateMember (m\<lparr>m_Role := r, m_UpdatedAt := now\<rparr>)))) (\<lambda>(m, _).
     log ((event_of EventTeamMemberRoleChanged ResultSuccess)\<lparr>ev_TargetID := memberID,
       ev_Metadata := [(''team_id'', MStr (m_TeamID m)), (''role'', MStr r)]\<rparr>))"

definition SetMemberActive :: "team_service \<Rightarrow> string \<Rightarrow> bool \<Rightarrow> unit prog" where
  "SetMemberActive s memberID active =
     seq (guardedMemberWrite s memberID (\<lambda>m. m_Role m = RoleOwner \<and> \<not> active)
       (\<lambda>m. with_now (\<lambda>now.
          seq (UpdateMember (m\<lparr>m_IsActive := active, m_UpdatedAt := now\<rparr>)) (\<lambda>_.
          if active then ret 0 else endTeamSessions s (m\<lparr>m_IsActive := active, m_UpdatedAt := now\<rparr>))))) (\<lambda>(m, ended).
     log ((event_of EventTeamMemberStatusChanged ResultSuccess)\<lparr>ev_TargetID := memberID,
       ev_Metadata := [(''team_id'', MStr (m_TeamID m)), (''active'', MBool active),
         (''sessions_revoked'', MInt (int ended))]\<rparr>))"

definition RemoveMember :: "team_service \<Rightarrow> string \<Rightarrow> unit prog" where
  "RemoveMember s memberID =
     seq (guardedMemberWrite s memberID (\<lambda>m. m_Role m = RoleOwner)
       (\<lambda>m. seq (DeleteMember (m_ID m)) (\<lambda>_. endTeamSessions s m))) (\<lambda>(m, ended).
     log ((event_of EventTeamMemberRemoved ResultSuccess)\<lparr>ev_TargetID := memberID,
       ev_Metadata := [(''team_id'', MStr (m_TeamID m)), (''sessions_revoked'', MInt (int ended))]\<rparr>))"

section \<open>Invitations (team/invitations.go)\<close>

definition TeamService_CreateInvitation ::
  "team_service \<Rightarrow> string \<Rightarrow> string \<Rightarrow> string \<Rightarrow> role \<Rightarrow> (string \<times> invitation) prog" where
  "TeamService_CreateInvitation s teamID invitedByMemberID email r =
     (let email = NormalizeEmail email in
      seq (ListMembersByTeam teamID) (\<lambda>members.
      seq (check (tv_admission s teamID (length members))) (\<lambda>_.
      seq GenerateOpaqueToken (\<lambda>(raw, hash).
      seq NewID (\<lambda>id. with_now (\<lambda>now.
        let iv = \<lparr>i_ID = id, i_TeamID = teamID, i_Email = email, i_TokenHash = hash, i_Role = r,
          i_Status = InvitationPending, i_InvitedByID = invitedByMemberID,
          i_ExpiresAt = now + tc_InvitationTTL (tv_cfg s), i_AcceptedAt = None, i_CreatedAt = now, i_UpdatedAt = now\<rparr> in
        seq (CreateInvitation iv) (\<lambda>_.
        seq (log ((event_of EventTeamInvitationCreated ResultSuccess)\<lparr>ev_ActorID := invitedByMemberID,
               ev_TargetID := id, ev_Email := email,
               ev_Metadata := [(''team_id'', MStr teamID), (''role'', MStr r)]\<rparr>)) (\<lambda>_.
        ret (raw, iv)))))))))"

definition getPendingInvitation :: "string \<Rightarrow> invitation prog" where
  "getPendingInvitation rawToken =
     on (GetInvitationByTokenHash (HashToken rawToken))
       (\<lambda>e. if e = ErrNotFound then raise (Team ErrInvitationInvalid) else raise e)
       (\<lambda>iv. with_now (\<lambda>now.
         if i_Status iv \<noteq> InvitationPending \<or> After now (i_ExpiresAt iv) then raise (Team ErrInvitationInvalid)
         else ret iv))"

definition GetInvitationByToken :: "string \<Rightarrow> invitation prog" where
  "GetInvitationByToken rawToken = getPendingInvitation rawToken"

text \<open>\<open>AcceptInvitation\<close> up to the transaction, and from there on.\<close>

definition prepareAccept :: "string \<Rightarrow> string \<Rightarrow> string \<Rightarrow> string \<Rightarrow> (invitation \<times> member) prog" where
  "prepareAccept rawToken userID email displayName =
     (let email = NormalizeEmail email in
      seq (getPendingInvitation rawToken) (\<lambda>iv.
      if i_Email iv \<noteq> email then raise (Team ErrEmailMismatch)
      else seq NewID (\<lambda>memberID. with_now (\<lambda>now.
        ret (iv, \<lparr>m_ID = memberID, m_TeamID = i_TeamID iv, m_UserID = Some userID, m_Role = i_Role iv,
          m_DisplayName = displayName, m_Email = email, m_IsActive = True, m_CreatedAt = now, m_UpdatedAt = now\<rparr>)))))"

definition admitAccepted :: "team_service \<Rightarrow> string \<Rightarrow> invitation \<Rightarrow> member \<Rightarrow> member prog" where
  "admitAccepted s userID iv m =
     (let now = m_CreatedAt m in
      seq (RunInTx (tv_Tx s)
        (seq (ListMembersByTeam (i_TeamID iv)) (\<lambda>members.
         seq (check (tv_admission s (i_TeamID iv) (length members))) (\<lambda>_.
         seq (CreateMember m) (\<lambda>_.
         UpdateInvitation (iv\<lparr>i_Status := InvitationAccepted, i_AcceptedAt := Some now, i_UpdatedAt := now\<rparr>)))))) (\<lambda>_.
      seq (log ((event_of EventTeamInvitationAccepted ResultSuccess)\<lparr>ev_ActorID := userID, ev_TargetID := i_ID iv,
             ev_Email := m_Email m, ev_Metadata := [(''team_id'', MStr (i_TeamID iv))]\<rparr>)) (\<lambda>_.
      ret m)))"

definition AcceptInvitation :: "team_service \<Rightarrow> string \<Rightarrow> string \<Rightarrow> string \<Rightarrow> string \<Rightarrow> member prog" where
  "AcceptInvitation s rawToken userID email displayName =
     seq (prepareAccept rawToken userID email displayName) (\<lambda>(iv, m). admitAccepted s userID iv m)"

definition RevokeInvitation :: "string \<Rightarrow> unit prog" where
  "RevokeInvitation invitationID =
     seq (GetInvitation invitationID) (\<lambda>iv. with_now (\<lambda>now.
     seq (UpdateInvitation (iv\<lparr>i_Status := InvitationRevoked, i_UpdatedAt := now\<rparr>)) (\<lambda>_.
     log ((event_of EventTeamInvitationRevoked ResultSuccess)\<lparr>ev_TargetID := i_ID iv, ev_Email := i_Email iv,
       ev_Metadata := [(''team_id'', MStr (i_TeamID iv))]\<rparr>))))"

end
