(* ===== verification/TeamProps.thy ===== *)
theory TeamProps
  imports TeamService SessionProps
begin

text \<open>
  What the team operations guarantee: a team never loses its last active owner, a member who leaves
  loses the sessions in the team, and an invitation makes exactly the member it names.
\<close>

section \<open>The last owner\<close>

definition has_owner :: "dbase \<Rightarrow> string \<Rightarrow> bool" where
  "has_owner d team \<longleftrightarrow>
     (\<exists>i m. mbs_byID (members d) i = Some m \<and> m_TeamID m = team \<and> m_Role m = RoleOwner \<and> m_IsActive m)"

text \<open>The relation every operation keeps: well-formed rows, and every owned team stays owned.\<close>

definition stays_owned :: "dbase \<Rightarrow> dbase \<Rightarrow> bool" where
  "stays_owned d d' \<longleftrightarrow> (mbs_inv (members d) \<longrightarrow>
     mbs_inv (members d') \<and> (\<forall>team. has_owner d team \<longrightarrow> has_owner d' team))"

interpretation owned: db_order stays_owned
  by unfold_locales (auto simp: stays_owned_def)

lemma stays_owned_same: "members d' = members d \<Longrightarrow> stays_owned d d'"
  by (simp add: stays_owned_def has_owner_def)

lemma stays_owned_members: "stays_owned d (d\<lparr>members := s\<rparr>) \<Longrightarrow> members d' = s \<Longrightarrow> stays_owned d d'"
  by (simp add: stays_owned_def has_owner_def)

lemma stays_owned_update:
  assumes "mbs_byID (members d) (m_ID m) = Some m" and "m_ID m' = m_ID m" "m_TeamID m' = m_TeamID m" "m_UserID m' = m_UserID m"
    and "m_Role m = RoleOwner \<and> m_IsActive m \<Longrightarrow> (m_Role m' = RoleOwner \<and> m_IsActive m') \<or>
      (\<exists>ow. mbs_byID (members d) (m_ID ow) = Some ow \<and> m_TeamID ow = m_TeamID m \<and> m_ID ow \<noteq> m_ID m \<and> m_Role ow = RoleOwner \<and> m_IsActive ow)"
  shows "stays_owned d (d\<lparr>members := snd (mem_UpdateMember m' (members d))\<rparr>)"
proof -
  have "has_owner (d\<lparr>members := snd (mem_UpdateMember m' (members d))\<rparr>) team" if "has_owner d team" for team
  proof -
    from that obtain i ow where ow: "mbs_byID (members d) i = Some ow" "m_TeamID ow = team" "m_Role ow = RoleOwner" "m_IsActive ow"
      by (auto simp: has_owner_def)
    show ?thesis
    proof (cases "i = m_ID m")
      case False
      then show ?thesis using ow assms by (auto simp: has_owner_def mem_UpdateMember_def)
    next
      case True
      then have "ow = m" using ow assms(1) by simp
      then show ?thesis using assms ow unfolding has_owner_def mem_UpdateMember_def by auto
    qed
  qed
  then show ?thesis
    using assms(1-4) mbs_inv_update [of "members d" m' m "fst (mem_UpdateMember m' (members d))" "snd (mem_UpdateMember m' (members d))"]
    by (auto simp: stays_owned_def)
qed

lemma stays_owned_delete:
  assumes "mbs_byID (members d) (m_ID m) = Some m"
    and "m_Role m = RoleOwner \<Longrightarrow> \<exists>ow. mbs_byID (members d) (m_ID ow) = Some ow \<and> m_TeamID ow = m_TeamID m \<and>
      m_ID ow \<noteq> m_ID m \<and> m_Role ow = RoleOwner \<and> m_IsActive ow"
  shows "stays_owned d (d\<lparr>members := snd (mem_DeleteMember (m_ID m) (members d))\<rparr>)"
proof -
  have "has_owner (d\<lparr>members := snd (mem_DeleteMember (m_ID m) (members d))\<rparr>) team" if "has_owner d team" for team
  proof -
    from that obtain i ow where ow: "mbs_byID (members d) i = Some ow" "m_TeamID ow = team" "m_Role ow = RoleOwner" "m_IsActive ow"
      by (auto simp: has_owner_def)
    show ?thesis
    proof (cases "i = m_ID m")
      case False
      then show ?thesis using ow assms(1) by (auto simp: has_owner_def mem_DeleteMember_def)
    next
      case True
      then have "ow = m" using ow assms(1) by simp
      then show ?thesis using assms ow unfolding has_owner_def mem_DeleteMember_def by auto
    qed
  qed
  then show ?thesis
    using mbs_inv_delete [of "members d" "m_ID m" "fst (mem_DeleteMember (m_ID m) (members d))" "snd (mem_DeleteMember (m_ID m) (members d))"]
    by (auto simp: stays_owned_def)
qed

lemma stays_owned_create:
  assumes "mbs_byID (members d) (m_ID m) = None"
  shows "stays_owned d (d\<lparr>members := snd (mem_CreateMember m (members d))\<rparr>)"
proof -
  have "has_owner (d\<lparr>members := snd (mem_CreateMember m (members d))\<rparr>) team" if "has_owner d team" for team
  proof -
    from that obtain i ow where ow: "mbs_byID (members d) i = Some ow" "m_TeamID ow = team" "m_Role ow = RoleOwner" "m_IsActive ow"
      by (auto simp: has_owner_def)
    then have "i \<noteq> m_ID m" using assms by auto
    with ow show ?thesis unfolding has_owner_def by (intro exI [of _ i] exI [of _ ow]) (simp add: mem_CreateMember_def)
  qed
  then show ?thesis
    using assms mbs_inv_create [of "members d" m "fst (mem_CreateMember m (members d))" "snd (mem_CreateMember m (members d))"]
    by (simp add: stays_owned_def)
qed

text \<open>What the check of the last owner has seen.\<close>

lemma requireNotLastOwner_ok:
  assumes "requireNotLastOwner teamID i w = (Inr (), w')" and "mbs_inv (members (db w))"
  shows "db w' = db w \<and> (\<exists>ow. mbs_byID (members (db w)) (m_ID ow) = Some ow \<and> m_TeamID ow = teamID \<and> m_ID ow \<noteq> i \<and>
    m_Role ow = RoleOwner \<and> m_IsActive ow)"
proof -
  from assms(1) obtain ms where "mem_ListMembersByTeam (members (db w)) teamID = Inr ms" and "db w' = db w"
    and "\<exists>m \<in> set ms. m_ID m \<noteq> i \<and> m_Role m = RoleOwner \<and> m_IsActive m"
    unfolding requireNotLastOwner_def by (auto simp: port_defs split: if_splits)
  then show ?thesis using mbs_list_team [OF assms(2)] by auto
qed

lemma leaves_endTeamSessions: "leaves members (endTeamSessions s m)"
proof -
  have "leaves members (end_sessions team ts n)" for team ts n
    by (induction ts arbitrary: n) (auto simp: port_defs intro!: keeps_rules leaves_rules)
  then show ?thesis unfolding endTeamSessions_def port_defs by (intro keeps_rules) auto
qed

lemma guarded_keeps:
  assumes "\<And>m w r w'. write m w = (r, w') \<Longrightarrow> mbs_inv (members (db w)) \<Longrightarrow> mbs_byID (members (db w)) (m_ID m) = Some m \<Longrightarrow>
      (losesOwner m \<Longrightarrow> \<exists>ow. mbs_byID (members (db w)) (m_ID ow) = Some ow \<and> m_TeamID ow = m_TeamID m \<and> m_ID ow \<noteq> m_ID m \<and>
        m_Role ow = RoleOwner \<and> m_IsActive ow) \<Longrightarrow> stays_owned (db w) (db w')"
  shows "keeps stays_owned (guardedMemberWrite s i losesOwner write)"
  unfolding guardedMemberWrite_def
proof (rule owned.keeps_RunInTx, rule owned.keepsI)
  fix w r w'
  assume run: "seq (GetMember i) (\<lambda>m. seq (if losesOwner m then requireNotLastOwner (m_TeamID m) (m_ID m) else ret ())
      (\<lambda>_. seq (write m) (\<lambda>x. ret (m, x)))) w = (r, w')"
  show "stays_owned (db w) (db w')"
  proof (cases "mbs_inv (members (db w))")
    case True
    from run show ?thesis
    proof (rule seqE, goal_cases)
      case (1 e)
      then show ?case by (auto simp: port_defs intro: stays_owned_same)
    next
      case (2 m w1)
      then have m: "mbs_byID (members (db w)) (m_ID m) = Some m" and w1: "db w1 = db w"
        using mbs_own_id [OF True] by (auto simp: port_defs mem_GetMember_def split: option.splits)
      from 2(2) show ?case
      proof (rule seqE, goal_cases)
        case (1 e)
        then have "db w' = db w1" by (auto simp: requireNotLastOwner_def port_defs split: if_splits)
        then show ?case using w1 by (simp add: stays_owned_same)
      next
        case (2 u w2)
        then have w2: "db w2 = db w" and other: "losesOwner m \<Longrightarrow> \<exists>ow. mbs_byID (members (db w)) (m_ID ow) = Some ow \<and>
            m_TeamID ow = m_TeamID m \<and> m_ID ow \<noteq> m_ID m \<and> m_Role ow = RoleOwner \<and> m_IsActive ow"
          using requireNotLastOwner_ok [of "m_TeamID m" "m_ID m" w1 w2] True w1 by (auto split: if_splits)
        from 2(2) obtain r2 where "write m w2 = (r2, w')" by auto
        from assms [OF this] True m w2 other show ?case by simp
      qed
    qed
  qed (simp add: stays_owned_def)
qed

lemma keeps_UpdateMemberRole: "keeps stays_owned (UpdateMemberRole s i r)"
  unfolding UpdateMemberRole_def
proof (intro keeps_rules guarded_keeps, goal_cases)
  case (1 m w x w')
  from 1(1) show ?case
  proof (cases "db w' = db w")
    case False
    with 1(1) have d: "db w' = (db w)\<lparr>members := snd (mem_UpdateMember (m\<lparr>m_Role := r, m_UpdatedAt := clock w\<rparr>) (members (db w)))\<rparr>"
      by (auto simp: port_defs)
    show ?thesis unfolding d by (rule stays_owned_update [OF 1(3)]) (use 1(4) in auto)
  qed (simp add: stays_owned_same)
qed

lemma keeps_SetMemberActive: "keeps stays_owned (SetMemberActive s i act)"
  unfolding SetMemberActive_def
proof (intro keeps_rules guarded_keeps, goal_cases)
  case (1 m w x w')
  let ?m = "m\<lparr>m_IsActive := act, m_UpdatedAt := clock w\<rparr>"
  from 1(1) have "members (db w') = members (db w) \<or> members (db w') = snd (mem_UpdateMember ?m (members (db w)))"
    by (auto simp: port_defs split: if_splits dest!: leavesD [OF leaves_endTeamSessions])
  moreover have "stays_owned (db w) ((db w)\<lparr>members := snd (mem_UpdateMember ?m (members (db w)))\<rparr>)"
    by (rule stays_owned_update [OF 1(3)]) (use 1(4) in auto)
  ultimately show ?case by (elim disjE) (rule stays_owned_same stays_owned_members, assumption+)+
qed

lemma keeps_RemoveMember: "keeps stays_owned (RemoveMember s i)"
  unfolding RemoveMember_def
proof (intro keeps_rules guarded_keeps, goal_cases)
  case (1 m w x w')
  from 1(1) have "members (db w') = members (db w) \<or> members (db w') = snd (mem_DeleteMember (m_ID m) (members (db w)))"
    by (auto simp: port_defs split: if_splits dest!: leavesD [OF leaves_endTeamSessions])
  moreover have "stays_owned (db w) ((db w)\<lparr>members := snd (mem_DeleteMember (m_ID m) (members (db w)))\<rparr>)"
    by (rule stays_owned_delete [OF 1(3)]) (use 1(4) in auto)
  ultimately show ?case by (elim disjE) (rule stays_owned_same stays_owned_members, assumption+)+
qed

lemma RunInTx_db:
  assumes "RunInTx tx f w = (r, w')"
  shows "db w' = db w \<or> (\<exists>fs w1. f (w\<lparr>faults := fs\<rparr>) = (r, w1) \<and> db w' = db w1)"
proof (cases r)
  case (Inl e)
  with assms have "RunInTx tx f w = (Inl e, w')" by simp
  then show ?thesis
  proof (rule RunInTx_errorE)
    fix fs w1
    assume "f (w\<lparr>faults := fs\<rparr>) = (Inl e, w1)" and "\<not> tx \<longrightarrow> w' = w1" and "tx \<longrightarrow> w' = w1\<lparr>db := db w\<rparr>"
    then show ?thesis using Inl by (cases tx) auto
  qed simp
next
  case (Inr x)
  with assms have "RunInTx tx f w = (Inr x, w')" by simp
  then show ?thesis by (rule RunInTx_ok) (use Inr in auto)
qed

definition fresh_member :: "nat \<Rightarrow> world \<Rightarrow> bool" where
  "fresh_member k w \<longleftrightarrow> mbs_byID (members (db w)) (uuid_of (draw 16 (w\<lparr>rpos := rpos w + k\<rparr>))) = None"

definition adds_member :: "string \<Rightarrow> member_store \<Rightarrow> member_store \<Rightarrow> bool" where
  "adds_member i s s' \<longleftrightarrow> (\<exists>m. m_ID m = i \<and> s' = snd (mem_CreateMember m s))"

lemma adds_memberD: "mem_CreateMember m s = (r, s') \<Longrightarrow> adds_member (m_ID m) s s'"
  by (auto simp: adds_member_def)

lemma adds_member_stays:
  assumes "adds_member i (members d) (members d')" and "mbs_byID (members d) i = None" shows "stays_owned d d'"
  using assms stays_owned_members [OF stays_owned_create] by (auto simp: adds_member_def)

lemma CreateTeam_stays:
  assumes "TeamService_CreateTeam s name slug owner dn em w = (r, w')" and "fresh_member 16 w"
  shows "stays_owned (db w) (db w')"
proof -
  have "members (db w') = members (db w) \<or>
      adds_member (uuid_of (draw 16 (w\<lparr>rpos := rpos w + 16\<rparr>))) (members (db w)) (members (db w'))"
    using assms(1) unfolding TeamService_CreateTeam_def Let_def
    by (auto simp: port_defs draw_def dest!: RunInTx_db adds_memberD split: if_splits)
  then show ?thesis
    using assms(2) by (auto simp: fresh_member_def intro: stays_owned_same adds_member_stays)
qed

lemma AcceptInvitation_stays:
  assumes "AcceptInvitation s tok u em dn w = (r, w')" and "fresh_member 0 w"
  shows "stays_owned (db w) (db w')"
proof -
  have "members (db w') = members (db w) \<or> adds_member (uuid_of (draw 16 w)) (members (db w)) (members (db w'))"
    using assms(1) unfolding AcceptInvitation_def prepareAccept_def admitAccepted_def getPendingInvitation_def Let_def
    by (auto simp: port_defs dest!: RunInTx_db adds_memberD split: if_splits)
  then show ?thesis
    using assms(2) by (auto simp: fresh_member_def draw_def intro: stays_owned_same adds_member_stays)
qed

section \<open>Every history\<close>

text \<open>
  One step: an operation of the service with any arguments, whatever it answers, on a service with or
  without transactions, under any schedule of faults; or anything that leaves the members alone.
\<close>

inductive team_step :: "team_service \<Rightarrow> world \<Rightarrow> world \<Rightarrow> bool" for s where
  "UpdateMemberRole s i r w = (x, w') \<Longrightarrow> team_step s w w'"
| "SetMemberActive s i act w = (x, w') \<Longrightarrow> team_step s w w'"
| "RemoveMember s i w = (x, w') \<Longrightarrow> team_step s w w'"
| "TeamService_CreateTeam s name slug owner dn em w = (y, w') \<Longrightarrow> fresh_member 16 w \<Longrightarrow> team_step s w w'"
| "AcceptInvitation s tok u em dn w = (z, w') \<Longrightarrow> fresh_member 0 w \<Longrightarrow> team_step s w w'"
| "members (db w') = members (db w) \<Longrightarrow> team_step s w w'"

lemma team_step_owned: "team_step s w w' \<Longrightarrow> stays_owned (db w) (db w')"
  by (induction rule: team_step.induct)
    (auto intro: CreateTeam_stays AcceptInvitation_stays stays_owned_same
      owned.keepsD [OF keeps_UpdateMemberRole] owned.keepsD [OF keeps_SetMemberActive] owned.keepsD [OF keeps_RemoveMember])

lemma team_steps_owned: "(team_step s)\<^sup>*\<^sup>* w w' \<Longrightarrow> stays_owned (db w) (db w')"
  by (induction rule: rtranclp_induct) (auto intro: owned.R_refl owned.R_trans team_step_owned)

definition owner_row :: "string \<Rightarrow> string \<Rightarrow> string \<Rightarrow> world \<Rightarrow> member" where
  "owner_row owner dn em w =
     \<lparr>m_ID = uuid_of (draw 16 (w\<lparr>rpos := rpos w + 16\<rparr>)), m_TeamID = uuid_of (draw 16 w), m_UserID = Some owner,
      m_Role = RoleOwner, m_DisplayName = dn, m_Email = em, m_IsActive = True, m_CreatedAt = clock w, m_UpdatedAt = clock w\<rparr>"

lemma CreateTeam_ok:
  assumes "TeamService_CreateTeam s name slug owner dn em w = (Inr t, w')"
  shows "t_ID t = uuid_of (draw 16 w) \<and> t_Slug t = slug \<and> mem_GetTeamBySlug (teams (db w)) slug = Inl ErrNotFound \<and>
      db w' = (db w)\<lparr>teams := snd (mem_CreateTeam t (teams (db w))),
        members := snd (mem_CreateMember (owner_row owner dn em w) (members (db w)))\<rparr>"
  using assms unfolding TeamService_CreateTeam_def Let_def
  by (auto simp: port_defs owner_row_def draw_def elim!: RunInTx_ok split: if_splits)

text \<open>
  C3. A team always has an owner: from the creation of a team on, through every sequence of role
  changes, deactivations, removals, invitations accepted and other operations, answered or refused, with
  or without transactions and whatever store calls fail on the way, some active member of the team is
  its owner.
\<close>

theorem team_always_has_owner:
  assumes "TeamService_CreateTeam s name slug owner dn em w0 = (Inr t, w)"
    and "mbs_inv (members (db w0))" and "fresh_member 16 w0" and "(team_step s)\<^sup>*\<^sup>* w w'"
  shows "\<exists>m. mem_GetMember (members (db w')) (m_ID m) = Inr m \<and> m_TeamID m = t_ID t \<and> m_Role m = RoleOwner \<and> m_IsActive m"
proof -
  note t = CreateTeam_ok [OF assms(1)]
  have "mbs_byID (members (db w)) (m_ID (owner_row owner dn em w0)) = Some (owner_row owner dn em w0)"
    using t by (simp add: mem_CreateMember_def)
  then have "has_owner (db w) (t_ID t)"
    unfolding has_owner_def using t by (intro exI [of _ "m_ID (owner_row owner dn em w0)"] exI [of _ "owner_row owner dn em w0"])
      (simp add: owner_row_def)
  moreover have "mbs_inv (members (db w))"
    using CreateTeam_stays [OF assms(1,3)] assms(2) by (simp add: stays_owned_def)
  ultimately have "has_owner (db w') (t_ID t)" and inv: "mbs_inv (members (db w'))"
    using team_steps_owned [OF assms(4)] by (auto simp: stays_owned_def)
  then obtain i m where "mbs_byID (members (db w')) i = Some m" "m_TeamID m = t_ID t" "m_Role m = RoleOwner" "m_IsActive m"
    by (auto simp: has_owner_def)
  then show ?thesis using mbs_own_id [OF inv] by (intro exI [of _ m]) (auto simp: mem_GetMember_def)
qed

definition demo_team_service :: team_service where
  "demo_team_service = \<lparr>tv_Tx = True, tv_Sessions = True, tv_admission = NopAdmission, tv_cfg = tc_withDefaults \<lparr>tc_InvitationTTL = 0\<rparr>\<rparr>"

lemmas demo_team_defs = demo_team_service_def tc_withDefaults_def NopAdmission_def RunInTx_def Let_def row_via_def demo_session_defs

theorem team_always_has_owner_witness:
  "\<exists>t w w' m. TeamService_CreateTeam demo_team_service ''Acme'' ''acme'' ''u1'' ''Ann'' ''a@x'' demo_world = (Inr t, w) \<and>
     snd (RemoveMember demo_team_service (uuid_of (draw 16 (demo_world\<lparr>rpos := 16\<rparr>))) w) = w' \<and>
     mem_GetMember (members (db w')) (m_ID m) = Inr m \<and> m_TeamID m = t_ID t \<and> m_Role m = RoleOwner \<and> m_IsActive m"
proof -
  obtain t w where run: "TeamService_CreateTeam demo_team_service ''Acme'' ''acme'' ''u1'' ''Ann'' ''a@x'' demo_world = (Inr t, w)"
    by (simp add: TeamService_CreateTeam_def demo_team_defs)
  have "mbs_inv (members (db demo_world))" and "fresh_member 16 demo_world"
    using mbs_inv_new by (simp_all add: fresh_member_def demo_defs)
  moreover obtain x w' where step: "RemoveMember demo_team_service (uuid_of (draw 16 (demo_world\<lparr>rpos := 16\<rparr>))) w = (x, w')"
    by fastforce
  ultimately show ?thesis
    using team_always_has_owner [OF run, of w'] team_step.intros(3) [OF step] run by fastforce
qed

section \<open>Leaving a team\<close>

lemma end_sessions_ok:
  "end_sessions team ts n w = (Inr m, w') \<Longrightarrow>
   db w' = db_revoked (clock w) (rt_ID ` {t \<in> set ts. rt_TeamID t = Some team}) (db w) \<and> clock w' = clock w"
proof (induction ts arbitrary: n w)
  case Nil
  then show ?case by simp
next
  case (Cons t ts)
  show ?case
  proof (cases "rt_TeamID t = Some team")
    case False
    then have "{x \<in> set (t # ts). rt_TeamID x = Some team} = {x \<in> set ts. rt_TeamID x = Some team}" by auto
    then show ?thesis using Cons False by simp
  next
    case True
    from Cons.prems True obtain w1 where 1: "RevokeRefreshToken (rt_ID t) w = (Inr (), w1)"
      and 2: "end_sessions team ts (n + 1) w1 = (Inr m, w')" by auto
    from 1 have d: "db w1 = db_revoked (clock w) {rt_ID t} (db w)" "clock w1 = clock w" by (auto elim: RevokeRefreshTokenE)
    have "rt_ID ` {x \<in> set (t # ts). rt_TeamID x = Some team} = rt_ID ` {x \<in> set ts. rt_TeamID x = Some team} \<union> {rt_ID t}"
      using True by auto
    then show ?thesis using Cons.IH [OF 2] d by simp
  qed
qed

lemma endTeamSessions_ok:
  assumes "endTeamSessions s m w = (Inr n, w')" and "rs_inv (refresh (db w))" and "tv_Sessions s" and "m_UserID m = Some u"
  shows "active (clock w) (db w') u = filter (\<lambda>t. rt_TeamID t \<noteq> Some (m_TeamID m)) (active (clock w) (db w) u)"
    and "members (db w') = members (db w)" and "clock w' = clock w"
proof -
  from assms obtain ts w1 where 1: "ListActiveRefreshTokens u w = (Inr ts, w1)"
    and 2: "end_sessions (m_TeamID m) ts 0 w1 = (Inr n, w')"
    unfolding endTeamSessions_def by auto
  note a = list_active_run [OF assms(2) 1] and b = end_sessions_ok [OF 2]
  show "active (clock w) (db w') u = filter (\<lambda>t. rt_TeamID t \<noteq> Some (m_TeamID m)) (active (clock w) (db w) u)"
    using active_revoked [OF assms(2), of "clock w" u "\<lambda>t. rt_TeamID t = Some (m_TeamID m)"] a b by simp
  show "members (db w') = members (db w)" and "clock w' = clock w" using a b by (simp_all add: db_revoked_def)
qed

lemma active_refresh: "refresh d = refresh d' \<Longrightarrow> active now d u = active now d' u"
  by (simp add: active_def)

lemma SetMemberActive_ok:
  assumes "SetMemberActive s i False w = (Inr (), w')" and "mem_GetMember (members (db w)) i = Inr m"
  obtains w1 w2 n where "endTeamSessions s (m\<lparr>m_IsActive := False, m_UpdatedAt := clock w\<rparr>) w1 = (Inr n, w2)"
    and "db w' = db w2" and "clock w1 = clock w"
    and "db w1 = (db w)\<lparr>members := snd (mem_UpdateMember (m\<lparr>m_IsActive := False, m_UpdatedAt := clock w\<rparr>) (members (db w)))\<rparr>"
proof -
  from assms(1) obtain w3 mn where g: "guardedMemberWrite s i (\<lambda>m. m_Role m = RoleOwner \<and> \<not> False)
       (\<lambda>m. with_now (\<lambda>now.
          seq (UpdateMember (m\<lparr>m_IsActive := False, m_UpdatedAt := now\<rparr>)) (\<lambda>_.
          if False then ret 0 else endTeamSessions s (m\<lparr>m_IsActive := False, m_UpdatedAt := now\<rparr>)))) w = (Inr mn, w3)"
    and w': "db w' = db w3"
    unfolding SetMemberActive_def by auto
  from g show thesis
    unfolding guardedMemberWrite_def
  proof (rule RunInTx_ok, goal_cases)
    case (1 fs w4 fs')
    then show ?case using assms(2) w'
      by (auto simp: port_defs requireNotLastOwner_def split: if_splits) (rule that, assumption, simp_all)+
  qed
qed

lemma RemoveMember_ok:
  assumes "RemoveMember s i w = (Inr (), w')" and "mem_GetMember (members (db w)) i = Inr m" and "m_ID m = i"
  obtains w1 w2 n where "endTeamSessions s m w1 = (Inr n, w2)"
    and "db w' = db w2" and "clock w1 = clock w"
    and "db w1 = (db w)\<lparr>members := snd (mem_DeleteMember i (members (db w)))\<rparr>"
proof -
  from assms(1) obtain w3 mn where g: "guardedMemberWrite s i (\<lambda>m. m_Role m = RoleOwner)
       (\<lambda>m. seq (DeleteMember (m_ID m)) (\<lambda>_. endTeamSessions s m)) w = (Inr mn, w3)"
    and w': "db w' = db w3"
    unfolding RemoveMember_def by auto
  from g show thesis
    unfolding guardedMemberWrite_def
  proof (rule RunInTx_ok, goal_cases)
    case (1 fs w4 fs')
    then show ?case using assms(2,3) w'
      by (auto simp: port_defs requireNotLastOwner_def split: if_splits) (rule that, assumption, simp_all)+
  qed
qed

text \<open>
  C26. Leaving a team ends the sessions in it, in a service wired with the session store (the optional
  \<open>Stores.Sessions\<close>; without it no session is ended): when deactivating or removing a member with an account succeeds,
  the user's active sessions are exactly those that were active before and act in another team or in none, and the
  member is inactive or gone.
\<close>

theorem leaving_ends_team_sessions:
  assumes "out = SetMemberActive s i False w \<or> out = RemoveMember s i w" and "out = (Inr (), w')"
    and "tv_Sessions s" and "mbs_inv (members (db w))" and "rs_inv (refresh (db w))"
    and "mem_GetMember (members (db w)) i = Inr m" and "m_UserID m = Some u"
  shows "active (clock w) (db w') u = filter (\<lambda>t. rt_TeamID t \<noteq> Some (m_TeamID m)) (active (clock w) (db w) u) \<and>
     (\<forall>m'. mem_GetMember (members (db w')) i = Inr m' \<longrightarrow> \<not> m_IsActive m')"
proof -
  have id: "m_ID m = i" using assms(4,6) by (auto simp: mem_GetMember_def mbs_inv_def split: option.splits)
  from assms(1) show ?thesis
  proof
    assume "out = SetMemberActive s i False w"
    with assms(2) have "SetMemberActive s i False w = (Inr (), w')" by simp
    then show ?thesis
    proof (rule SetMemberActive_ok [OF _ assms(6)])
      fix w1 w2 n
      assume run: "endTeamSessions s (m\<lparr>m_IsActive := False, m_UpdatedAt := clock w\<rparr>) w1 = (Inr n, w2)"
        and w: "db w' = db w2" "clock w1 = clock w"
          "db w1 = (db w)\<lparr>members := snd (mem_UpdateMember (m\<lparr>m_IsActive := False, m_UpdatedAt := clock w\<rparr>) (members (db w)))\<rparr>"
      have "rs_inv (refresh (db w1))" using assms(5) w(3) by simp
      from endTeamSessions_ok [OF run this assms(3)] assms(6,7) id w show ?thesis
        using active_refresh [of "db w1" "db w" "clock w" u]
        by (auto simp: mem_GetMember_def mem_UpdateMember_def split: option.splits)
    qed
  next
    assume "out = RemoveMember s i w"
    with assms(2) have "RemoveMember s i w = (Inr (), w')" by simp
    then show ?thesis
    proof (rule RemoveMember_ok [OF _ assms(6) id])
      fix w1 w2 n
      assume run: "endTeamSessions s m w1 = (Inr n, w2)" and w: "db w' = db w2" "clock w1 = clock w"
          "db w1 = (db w)\<lparr>members := snd (mem_DeleteMember i (members (db w)))\<rparr>"
      have "rs_inv (refresh (db w1))" using assms(5) w(3) by simp
      from endTeamSessions_ok [OF run this assms(3)] assms(6,7) w show ?thesis
        using active_refresh [of "db w1" "db w" "clock w" u]
        by (auto simp: mem_GetMember_def mem_DeleteMember_def split: option.splits)
    qed
  qed
qed

definition demo_worker :: member where
  "demo_worker = \<lparr>m_ID = ''m2'', m_TeamID = ''t1'', m_UserID = Some ''u1'', m_Role = RoleMember, m_DisplayName = ''Bob'',
     m_Email = ''a@x'', m_IsActive = True, m_CreatedAt = 0, m_UpdatedAt = 0\<rparr>"

text \<open>The user has a session in the team and one in none.\<close>

definition demo_world9 :: world where
  "demo_world9 = demo_world3\<lparr>db := (add_session (demo_session2\<lparr>rt_TeamID := Some ''t1''\<rparr>) (db demo_world3))
     \<lparr>members := snd (mem_CreateMember demo_worker NewMemberStore)\<rparr>\<rparr>"

lemma demo_world9_inv: "mbs_inv (members (db demo_world9))" "rs_inv (refresh (db demo_world9))"
proof -
  show "mbs_inv (members (db demo_world9))"
    using mbs_inv_create [OF mbs_inv_new, of demo_worker] by (simp add: demo_world9_def NewMemberStore_def mem_CreateMember_def)
  show "rs_inv (refresh (db demo_world9))"
    by (auto simp: demo_world9_def demo_world3_def demo_session_def demo_session2_def add_session_def rs_inv_def
      demo_defs mem_defs points_into_def points_into_all_def append_id_def no_ids_def)
qed

lemma demo_removal: "\<exists>w'. RemoveMember demo_team_service ''m2'' demo_world9 = (Inr (), w')"
  by (simp add: RemoveMember_def guardedMemberWrite_def endTeamSessions_def demo_world9_def demo_worker_def demo_team_defs)

theorem leaving_ends_team_sessions_witness:
  "\<exists>w'. RemoveMember demo_team_service ''m2'' demo_world9 = (Inr (), w') \<and>
     active 0 (db w') ''u1'' = filter (\<lambda>t. rt_TeamID t \<noteq> Some ''t1'') [demo_session, demo_session2\<lparr>rt_TeamID := Some ''t1''\<rparr>]"
proof -
  obtain w' where run: "RemoveMember demo_team_service ''m2'' demo_world9 = (Inr (), w')" using demo_removal by blast
  have get: "mem_GetMember (members (db demo_world9)) ''m2'' = Inr demo_worker" "m_UserID demo_worker = Some ''u1''"
    by (simp_all add: demo_world9_def mem_GetMember_def mem_CreateMember_def demo_worker_def)
  have act: "active 0 (db demo_world9) ''u1'' = [demo_session, demo_session2\<lparr>rt_TeamID := Some ''t1''\<rparr>]"
    by (simp add: active_def demo_world9_def demo_session_defs)
  have "tv_Sessions demo_team_service" and c: "clock demo_world9 = 0" "m_TeamID demo_worker = ''t1''"
    by (simp_all add: demo_team_service_def demo_world9_def demo_world3_def demo_defs demo_worker_def)
  from leaving_ends_team_sessions [OF _ run this(1) demo_world9_inv get] act c run show ?thesis by auto
qed

section \<open>Invitations\<close>

lemma AcceptInvitation_ok:
  assumes "AcceptInvitation s tok u em dn w = (Inr m, w')"
  obtains iv ms where "mem_GetInvitationByTokenHash (invites (db w)) (HashToken tok) = Inr iv"
    and "i_Status iv = InvitationPending" and "clock w \<le> i_ExpiresAt iv" and "i_Email iv = NormalizeEmail em"
    and "mem_ListMembersByTeam (members (db w)) (i_TeamID iv) = Inr ms" and "tv_admission s (i_TeamID iv) (length ms) = None"
    and "m = \<lparr>m_ID = uuid_of (draw 16 w), m_TeamID = i_TeamID iv, m_UserID = Some u, m_Role = i_Role iv,
          m_DisplayName = dn, m_Email = NormalizeEmail em, m_IsActive = True, m_CreatedAt = clock w, m_UpdatedAt = clock w\<rparr>"
    and "db w' = (db w)\<lparr>members := snd (mem_CreateMember m (members (db w))),
      invites := snd (mem_UpdateInvitation (iv\<lparr>i_Status := InvitationAccepted, i_AcceptedAt := Some (clock w),
        i_UpdatedAt := clock w\<rparr>) (invites (db w)))\<rparr>"
proof -
  from assms obtain iv m0 w1 where p: "prepareAccept tok u em dn w = (Inr (iv, m0), w1)" and a: "admitAccepted s u iv m0 w1 = (Inr m, w')"
    unfolding AcceptInvitation_def by auto
  from p have get: "mem_GetInvitationByTokenHash (invites (db w)) (HashToken tok) = Inr iv" "i_Status iv = InvitationPending"
      "clock w \<le> i_ExpiresAt iv" "i_Email iv = NormalizeEmail em" and w1: "db w1 = db w"
    and m0: "m0 = \<lparr>m_ID = uuid_of (draw 16 w), m_TeamID = i_TeamID iv, m_UserID = Some u, m_Role = i_Role iv,
          m_DisplayName = dn, m_Email = NormalizeEmail em, m_IsActive = True, m_CreatedAt = clock w, m_UpdatedAt = clock w\<rparr>"
    unfolding prepareAccept_def getPendingInvitation_def Let_def by (auto simp: port_defs After_def split: if_splits)
  from a have m: "m = m0" unfolding admitAccepted_def Let_def by auto
  from a obtain ms where ms: "mem_ListMembersByTeam (members (db w)) (i_TeamID iv) = Inr ms"
      "tv_admission s (i_TeamID iv) (length ms) = None"
    and d: "db w' = (db w)\<lparr>members := snd (mem_CreateMember m (members (db w))),
      invites := snd (mem_UpdateInvitation (iv\<lparr>i_Status := InvitationAccepted, i_AcceptedAt := Some (clock w),
        i_UpdatedAt := clock w\<rparr>) (invites (db w)))\<rparr>"
    unfolding admitAccepted_def Let_def m m0
    by (auto simp: port_defs w1 split: option.splits elim!: RunInTx_ok)
  show thesis by (rule that [OF get ms m [unfolded m0] d])
qed

text \<open>
  C27. Accepting an invitation makes exactly the member it names and uses it up: a call that succeeds
  presented the token of a pending, unexpired invitation to the caller's own normalised address, was
  admitted by the host on the current count, and stored an active member of that team with the invited
  role; in the stores it leaves, the same token is refused to everybody at any later instant.
\<close>

theorem accept_invitation_sound:
  assumes "AcceptInvitation s tok u em dn w = (Inr m, w')" and "ivs_inv (invites (db w))"
  shows "\<exists>iv ms. mem_GetInvitationByTokenHash (invites (db w)) (HashToken tok) = Inr iv \<and>
     i_Status iv = InvitationPending \<and> clock w \<le> i_ExpiresAt iv \<and> i_Email iv = NormalizeEmail em \<and>
     mem_ListMembersByTeam (members (db w)) (i_TeamID iv) = Inr ms \<and> tv_admission s (i_TeamID iv) (length ms) = None \<and>
     mem_GetMember (members (db w')) (m_ID m) = Inr m \<and> m_TeamID m = i_TeamID iv \<and> m_UserID m = Some u \<and>
     m_Role m = i_Role iv \<and> m_IsActive m \<and>
     (\<forall>s' u' em' dn' now. fst (AcceptInvitation s' tok u' em' dn' (w'\<lparr>clock := now\<rparr>)) \<noteq> Inr m')"
proof (rule AcceptInvitation_ok [OF assms(1)])
  fix iv ms
  assume iv: "mem_GetInvitationByTokenHash (invites (db w)) (HashToken tok) = Inr iv" "i_Status iv = InvitationPending"
      "clock w \<le> i_ExpiresAt iv" "i_Email iv = NormalizeEmail em"
    and ms: "mem_ListMembersByTeam (members (db w)) (i_TeamID iv) = Inr ms" "tv_admission s (i_TeamID iv) (length ms) = None"
    and m: "m = \<lparr>m_ID = uuid_of (draw 16 w), m_TeamID = i_TeamID iv, m_UserID = Some u, m_Role = i_Role iv,
          m_DisplayName = dn, m_Email = NormalizeEmail em, m_IsActive = True, m_CreatedAt = clock w, m_UpdatedAt = clock w\<rparr>"
    and d: "db w' = (db w)\<lparr>members := snd (mem_CreateMember m (members (db w))),
      invites := snd (mem_UpdateInvitation (iv\<lparr>i_Status := InvitationAccepted, i_AcceptedAt := Some (clock w),
        i_UpdatedAt := clock w\<rparr>) (invites (db w)))\<rparr>"
  from iv(1) obtain j where j: "ivs_byHash (invites (db w)) (HashToken tok) = Some j" "ivs_byID (invites (db w)) j = Some iv"
    unfolding mem_GetInvitationByTokenHash_def by (auto dest: row_via_SomeD)
  have "i_ID iv = j" using assms(2) j(2) by (auto simp: ivs_inv_def)
  with j have used: "mem_GetInvitationByTokenHash (invites (db w')) (HashToken tok) =
      Inr (iv\<lparr>i_Status := InvitationAccepted, i_AcceptedAt := Some (clock w), i_UpdatedAt := clock w\<rparr>)"
    by (simp add: d mem_GetInvitationByTokenHash_def mem_UpdateInvitation_def row_via_def)
  have no: "fst (AcceptInvitation s' tok u' em' dn' (w'\<lparr>clock := now\<rparr>)) \<noteq> Inr m'" for s' u' em' dn' now m'
  proof
    assume "fst (AcceptInvitation s' tok u' em' dn' (w'\<lparr>clock := now\<rparr>)) = Inr m'"
    then obtain w2 where "AcceptInvitation s' tok u' em' dn' (w'\<lparr>clock := now\<rparr>) = (Inr m', w2)" by (metis prod.collapse)
    then show False by (rule AcceptInvitation_ok) (use used in auto)
  qed
  have "mem_GetMember (members (db w')) (m_ID m) = Inr m"
    by (simp add: d mem_GetMember_def mem_CreateMember_def)
  then show ?thesis using iv ms m no by (intro exI [of _ iv] exI [of _ ms]) simp
qed

definition demo_invitation :: invitation where
  "demo_invitation = \<lparr>i_ID = ''i1'', i_TeamID = ''t1'', i_Email = ''b@x'', i_TokenHash = HashToken ''inv'', i_Role = RoleMember,
     i_Status = InvitationPending, i_InvitedByID = ''m1'', i_ExpiresAt = hour, i_AcceptedAt = None, i_CreatedAt = 0,
     i_UpdatedAt = 0\<rparr>"

definition demo_world10 :: world where
  "demo_world10 = demo_world3\<lparr>db := (db demo_world3)\<lparr>invites := snd (mem_CreateInvitation demo_invitation NewInvitationStore)\<rparr>\<rparr>"

lemma demo_norm_b: "NormalizeEmail ''B@x'' = ''b@x''"
  by code_simp

lemma demo_accept: "\<exists>m w'. AcceptInvitation demo_team_service ''inv'' ''u2'' ''B@x'' ''Bob'' demo_world10 = (Inr m, w')"
  by (simp add: AcceptInvitation_def prepareAccept_def admitAccepted_def getPendingInvitation_def demo_norm_b demo_world10_def
      demo_invitation_def demo_team_defs)

theorem accept_invitation_sound_witness:
  "\<exists>m w'. AcceptInvitation demo_team_service ''inv'' ''u2'' ''B@x'' ''Bob'' demo_world10 = (Inr m, w') \<and>
     m_TeamID m = ''t1'' \<and> m_Role m = RoleMember \<and>
     fst (AcceptInvitation demo_team_service ''inv'' ''u3'' ''B@x'' ''Bob'' (w'\<lparr>clock := 1\<rparr>)) \<noteq> Inr m"
proof -
  obtain m w' where run: "AcceptInvitation demo_team_service ''inv'' ''u2'' ''B@x'' ''Bob'' demo_world10 = (Inr m, w')"
    using demo_accept by blast
  have "ivs_inv (invites (db demo_world10))"
    using ivs_inv_create [OF ivs_inv_new, of demo_invitation] by (simp add: demo_world10_def mem_CreateInvitation_def NewInvitationStore_def)
  moreover have "mem_GetInvitationByTokenHash (invites (db demo_world10)) (HashToken ''inv'') = Inr demo_invitation"
    by (simp add: demo_world10_def mem_GetInvitationByTokenHash_def mem_CreateInvitation_def row_via_def demo_invitation_def)
  ultimately show ?thesis using accept_invitation_sound [OF run, of m] run by (auto simp: demo_invitation_def)
qed

text \<open>
  Two concurrent calls that present one invitation both join: each reads it as pending before the
  transaction that marks it accepted, and the transaction does not look again. A runner does not help.
\<close>

lemma invitation_accepted_twice:
  "\<exists>iv m1 m2 w1 w2 w3 w4. prepareAccept ''inv'' ''u2'' ''B@x'' ''Bob'' demo_world10 = (Inr (iv, m1), w1) \<and>
     prepareAccept ''inv'' ''u3'' ''B@x'' ''Eve'' w1 = (Inr (iv, m2), w2) \<and>
     admitAccepted demo_team_service ''u2'' iv m1 w2 = (Inr m1, w3) \<and>
     admitAccepted demo_team_service ''u3'' iv m2 w3 = (Inr m2, w4) \<and> m_UserID m1 \<noteq> m_UserID m2"
  by (simp add: prepareAccept_def admitAccepted_def getPendingInvitation_def demo_norm_b demo_world10_def
      demo_invitation_def demo_team_defs)

end
