(* ===== verification/PatService.thy ===== *)
theory PatService
  imports UserLogin
begin

text \<open>
  Package \<open>pat\<close>: personal access tokens (\<open>pat/service.go\<close>, \<open>pat/pat.go\<close>).
\<close>

record pat_config =
  pg_Prefix :: string
  pg_MaxExpiry :: "duration option"
  pg_RequireExpiry :: bool

definition pg_withDefaults :: "pat_config \<Rightarrow> pat_config" where
  "pg_withDefaults c = (if pg_Prefix c = '''' then c\<lparr>pg_Prefix := ''authit_''\<rparr> else c)"

definition CreateToken ::
  "pat_config \<Rightarrow> string \<Rightarrow> string \<Rightarrow> string list \<Rightarrow> time option \<Rightarrow> (string \<times> pat_token) prog" where
  "CreateToken c userID name scopes expiresAt = with_now (\<lambda>now.
     if pg_RequireExpiry c \<and> expiresAt = None then raise (Pat ErrExpiryRequired)
     else if (case pg_MaxExpiry c of
                None \<Rightarrow> False
              | Some cap \<Rightarrow> (case expiresAt of None \<Rightarrow> True | Some t \<Rightarrow> After t (now + cap)))
     then raise (Pat ErrExpiryTooFar)
     else
       seq GenerateOpaqueToken (\<lambda>(raw, _).
       let raw = pg_Prefix c @ raw in
       seq NewID (\<lambda>id.
       let t = \<lparr>pt_ID = id, pt_UserID = userID, pt_Name = name, pt_TokenHash = HashToken raw, pt_Scopes = scopes,
                pt_ExpiresAt = expiresAt, pt_LastUsedAt = None, pt_RevokedAt = None, pt_CreatedAt = now\<rparr> in
       seq (CreatePersonalAccessToken t) (\<lambda>_.
       seq (log ((event_of EventPATCreated ResultSuccess)\<lparr>ev_ActorID := userID, ev_TargetID := id,
              ev_Metadata := [(''name'', MStr name), (''scopes'', MStrs scopes)]\<rparr>)) (\<lambda>_.
       ret (raw, t))))))"

definition ListTokens :: "string \<Rightarrow> pat_token list prog" where
  "ListTokens userID = ListPersonalAccessTokensByUser userID"

definition RevokeToken :: "string \<Rightarrow> string \<Rightarrow> unit prog" where
  "RevokeToken userID tokenID =
     seq (GetPersonalAccessToken tokenID) (\<lambda>t.
     if pt_UserID t \<noteq> userID then raise (Pat Pat_ErrNotOwner)
     else if pt_RevokedAt t \<noteq> None then ret ()
     else with_now (\<lambda>now.
       seq (UpdatePersonalAccessToken (t\<lparr>pt_RevokedAt := Some now\<rparr>)) (\<lambda>_.
       log ((event_of EventPATRevoked ResultSuccess)\<lparr>ev_ActorID := userID, ev_TargetID := tokenID\<rparr>))))"

text \<open>\<open>Resolve\<close> reads and checks the row, and then writes its copy back with the instant of use.\<close>

definition checkToken :: "string \<Rightarrow> pat_token prog" where
  "checkToken rawToken =
     on (GetPersonalAccessTokenByHash (HashToken rawToken))
       (\<lambda>e. if e = ErrNotFound then raise (Pat Pat_ErrInvalidToken) else raise e)
       (\<lambda>t. with_now (\<lambda>now.
         if pt_RevokedAt t \<noteq> None then raise (Pat Pat_ErrInvalidToken)
         else if (case pt_ExpiresAt t of None \<Rightarrow> False | Some x \<Rightarrow> After now x) then raise (Pat Pat_ErrInvalidToken)
         else ret t))"

definition touchToken :: "pat_token \<Rightarrow> pat_token prog" where
  "touchToken t = with_now (\<lambda>now.
     let t = t\<lparr>pt_LastUsedAt := Some now\<rparr> in
     ignoring (UpdatePersonalAccessToken t) (ret t))"

definition Resolve :: "string \<Rightarrow> pat_token prog" where
  "Resolve rawToken = seq (checkToken rawToken) touchToken"

definition HasScope :: "pat_token \<Rightarrow> string \<Rightarrow> bool" where
  "HasScope t scope \<longleftrightarrow> scope \<in> set (pt_Scopes t)"

section \<open>What the operations guarantee\<close>

lemma Resolve_ok:
  assumes "Resolve raw w = (Inr t, w')"
  obtains t0 where "mem_GetPersonalAccessTokenByHash (pats (db w)) (HashToken raw) = Inr t0" and "pt_RevokedAt t0 = None"
    and "\<forall>x. pt_ExpiresAt t0 = Some x \<longrightarrow> clock w \<le> x" and "t = t0\<lparr>pt_LastUsedAt := Some (clock w)\<rparr>"
proof -
  from assms have "\<exists>t0. mem_GetPersonalAccessTokenByHash (pats (db w)) (HashToken raw) = Inr t0 \<and> pt_RevokedAt t0 = None \<and>
      (\<forall>x. pt_ExpiresAt t0 = Some x \<longrightarrow> clock w \<le> x) \<and> t = t0\<lparr>pt_LastUsedAt := Some (clock w)\<rparr>"
    unfolding Resolve_def checkToken_def touchToken_def Let_def
    by (auto simp: port_defs After_def split: option.splits if_splits)
  then show thesis using that by blast
qed

lemma CreateToken_ok:
  assumes "CreateToken c u name scopes x w = (Inr (raw, t), w')"
  shows "raw = pg_Prefix c @ b64url_encode (draw 32 w) \<and> pt_TokenHash t = HashToken raw \<and> pt_UserID t = u \<and>
     pt_Scopes t = scopes \<and> pt_ExpiresAt t = x \<and> pt_RevokedAt t = None \<and>
     pt_ID t = uuid_of (draw 16 (w\<lparr>rpos := rpos w + 32\<rparr>)) \<and>
     db w' = (db w)\<lparr>pats := snd (mem_CreatePersonalAccessToken t (pats (db w)))\<rparr> \<and> clock w' = clock w \<and>
     (\<forall>cap. pg_MaxExpiry c = Some cap \<longrightarrow> (\<exists>e. x = Some e \<and> e \<le> clock w + cap)) \<and> (pg_RequireExpiry c \<longrightarrow> x \<noteq> None)"
  using assms unfolding CreateToken_def Let_def
  by (auto simp: port_defs After_def draw_def split: option.splits if_splits)

text \<open>
  A personal access token works for its owner until it expires: the raw token handed out starts with
  the configured prefix, respects the host's expiry policy, and resolves at any instant up to its expiry
  to the row created, of that user and with exactly those scopes.
\<close>

theorem pat_roundtrip:
  assumes "CreateToken c u name scopes x w = (Inr (raw, t), w')" and "faults w' = []"
    and "\<forall>e. x = Some e \<longrightarrow> now \<le> e"
  shows "\<exists>r w2. Resolve raw (w'\<lparr>clock := now\<rparr>) = (Inr r, w2) \<and> pt_ID r = pt_ID t \<and> pt_UserID r = u \<and>
     (\<forall>scope. HasScope r scope \<longleftrightarrow> scope \<in> set scopes) \<and> take (length (pg_Prefix c)) raw = pg_Prefix c \<and>
     (\<forall>cap. pg_MaxExpiry c = Some cap \<longrightarrow> (\<exists>e. pt_ExpiresAt r = Some e \<and> e \<le> clock w + cap))"
proof -
  note t = CreateToken_ok [OF assms(1)]
  have get: "mem_GetPersonalAccessTokenByHash (pats (db w')) (HashToken raw) = Inr t"
    using t by (simp add: mem_GetPersonalAccessTokenByHash_def mem_CreatePersonalAccessToken_def row_via_def)
  have "fst (Resolve raw (w'\<lparr>clock := now\<rparr>)) = Inr (t\<lparr>pt_LastUsedAt := Some now\<rparr>)"
    using assms(2,3) t get
    by (auto simp: Resolve_def checkToken_def touchToken_def run_defs Let_def After_def split: option.splits prod.splits sum.splits)
  then obtain w2 where "Resolve raw (w'\<lparr>clock := now\<rparr>) = (Inr (t\<lparr>pt_LastUsedAt := Some now\<rparr>), w2)" by (metis prod.collapse)
  then show ?thesis using t by (intro exI [of _ "t\<lparr>pt_LastUsedAt := Some now\<rparr>"] exI [of _ w2]) (simp add: HasScope_def)
qed

definition demo_pat_config :: pat_config where
  "demo_pat_config = pg_withDefaults \<lparr>pg_Prefix = '''', pg_MaxExpiry = Some hour, pg_RequireExpiry = True\<rparr>"

theorem pat_roundtrip_witness:
  "\<exists>raw t w' r w2. CreateToken demo_pat_config ''u1'' ''ci'' [''repo''] (Some 100) demo_world = (Inr (raw, t), w') \<and>
     Resolve raw (w'\<lparr>clock := 7\<rparr>) = (Inr r, w2) \<and> HasScope r ''repo'' \<and> take 7 raw = ''authit_''"
proof -
  have "\<exists>raw t w'. CreateToken demo_pat_config ''u1'' ''ci'' [''repo''] (Some 100) demo_world = (Inr (raw, t), w') \<and> faults w' = []"
    by (simp add: CreateToken_def demo_pat_config_def pg_withDefaults_def Let_def demo_defs run_defs mem_defs duration_defs After_def)
  then obtain raw t w' where run: "CreateToken demo_pat_config ''u1'' ''ci'' [''repo''] (Some 100) demo_world = (Inr (raw, t), w')"
    and nf: "faults w' = []" by blast
  have px: "pg_Prefix demo_pat_config = ''authit_''" by (simp add: demo_pat_config_def pg_withDefaults_def)
  have "\<forall>e. Some 100 = Some e \<longrightarrow> (7 :: time) \<le> e" by simp
  from pat_roundtrip [OF run nf this] obtain r w2 where r: "Resolve raw (w'\<lparr>clock := 7\<rparr>) = (Inr r, w2)"
    and "\<forall>scope. HasScope r scope \<longleftrightarrow> scope \<in> set [''repo'']"
    and p: "take (length (pg_Prefix demo_pat_config)) raw = pg_Prefix demo_pat_config" by blast
  then have "HasScope r ''repo''" by simp
  moreover have "take 7 raw = ''authit_''" using p by (simp add: px numeral_eq_Suc)
  ultimately show ?thesis using run r by blast
qed

section \<open>Any sequence of requests\<close>

datatype pat_op = Creates string string "string list" "time option" | Lists string | Revokes string string | Resolves string

datatype pat_answer = Minted string pat_token | Listed "pat_token list" | Revoked | Resolved pat_token

fun pat_perform :: "pat_config \<Rightarrow> pat_op \<Rightarrow> pat_answer prog" where
  "pat_perform c (Creates u name scopes x) = seq (CreateToken c u name scopes x) (\<lambda>(raw, t). ret (Minted raw t))"
| "pat_perform c (Lists u) = seq (ListTokens u) (\<lambda>ts. ret (Listed ts))"
| "pat_perform c (Revokes u i) = seq (RevokeToken u i) (\<lambda>_. ret Revoked)"
| "pat_perform c (Resolves raw) = seq (Resolve raw) (\<lambda>t. ret (Resolved t))"

text \<open>
  Requests one after the other, with whatever faults, and between them anything that leaves the tokens alone: time
  passing, the rest of the program. The random source is trusted for one thing: a new row's id and hash are not in use.
\<close>

definition unused :: "pat_token \<Rightarrow> pat_store \<Rightarrow> bool" where
  "unused t s \<longleftrightarrow> pas_byID s (pt_ID t) = None \<and> pas_byHash s (pt_TokenHash t) = None"

inductive pat_run :: "pat_config \<Rightarrow> (pat_op \<times> (error + pat_answer)) list \<Rightarrow> world \<Rightarrow> world \<Rightarrow> bool" for c where
  start: "pat_run c [] w w"
| request: "pat_run c tr w w1 \<Longrightarrow> pat_perform c op w1 = (r, w2) \<Longrightarrow>
    \<forall>raw t. r = Inr (Minted raw t) \<longrightarrow> unused t (pats (db w1)) \<Longrightarrow> pat_run c (tr @ [(op, r)]) w w2"
| elsewhere: "pat_run c tr w w1 \<Longrightarrow> pats (db w2) = pats (db w1) \<Longrightarrow> pat_run c tr w w2"

text \<open>The row under a hash, revoked.\<close>

definition dead_token :: "string \<Rightarrow> pat_store \<Rightarrow> bool" where
  "dead_token h s \<longleftrightarrow> pas_inv s \<and> (\<exists>i t. pas_byHash s h = Some i \<and> pas_byID s i = Some t \<and> pt_RevokedAt t \<noteq> None)"

lemma dead_token_create:
  assumes "dead_token h s" and "unused t s" and "mem_CreatePersonalAccessToken t s = (r, s')" shows "dead_token h s'"
  using assms pas_inv_create [of s t r s'] by (auto simp: dead_token_def unused_def mem_CreatePersonalAccessToken_def)

text \<open>An update of a row read before keeps the index; and keeps what is revoked so if it writes no live row over it.\<close>

lemma dead_token_update:
  assumes "dead_token h s" and "pas_byID s (pt_ID t) = Some t0" and "pt_TokenHash t = pt_TokenHash t0"
    and "pt_RevokedAt t0 = None \<or> pt_RevokedAt t \<noteq> None" and "mem_UpdatePersonalAccessToken t s = (r, s')"
  shows "dead_token h s'"
  using assms pas_inv_update [of s t t0 r s']
  by (auto simp: dead_token_def mem_UpdatePersonalAccessToken_def split: if_splits)

lemma dead_token_revoke:
  assumes "pas_inv s" and "pas_byID s (pt_ID t) = Some t" and "pas_byHash s h = Some (pt_ID t)"
    and "mem_UpdatePersonalAccessToken (t\<lparr>pt_RevokedAt := Some now\<rparr>) s = (r, s')"
  shows "dead_token h s'"
  using pas_inv_update [OF assms(1) _ _ assms(4), of t] assms
  by (auto simp: dead_token_def mem_UpdatePersonalAccessToken_def)

lemma dead_token_touch:
  assumes "dead_token h s" and "pas_byID s (pt_ID t) = Some t" and "pt_RevokedAt t = None"
    and "mem_UpdatePersonalAccessToken (t\<lparr>pt_LastUsedAt := x\<rparr>) s = (r, s')"
  shows "dead_token h s'"
  by (rule dead_token_update [OF assms(1) _ _ _ assms(4)]) (use assms(2,3) in simp_all)

lemma RevokeToken_dead:
  assumes "dead_token h (pats (db w))" and "RevokeToken u i w = (r, w')" shows "dead_token h (pats (db w'))"
proof -
  have upd: "dead_token h s" if "pas_byID (pats (db w)) i = Some t"
    "mem_UpdatePersonalAccessToken (t\<lparr>pt_RevokedAt := Some now\<rparr>) (pats (db w)) = (x, s)" for t now x s
  proof -
    have "pt_ID t = i" using assms(1) that(1) by (auto simp: dead_token_def pas_inv_def)
    then show ?thesis by (intro dead_token_update [OF assms(1) _ _ _ that(2), of t]) (use that(1) in simp_all)
  qed
  show ?thesis
    using assms(2) unfolding RevokeToken_def
    by (auto simp: port_defs mem_GetPersonalAccessToken_def assms(1) split: if_splits option.splits) (rule upd; assumption)+
qed

lemma Resolve_dead:
  assumes "dead_token h (pats (db w))" and "Resolve raw w = (r, w')"
  shows "dead_token h (pats (db w'))" and "HashToken raw = h \<Longrightarrow> r \<noteq> Inr t"
proof -
  have inv: "pas_inv (pats (db w))" using assms(1) by (simp add: dead_token_def)
  note row = pas_get_row [OF inv]
  show "dead_token h (pats (db w'))"
    using assms(2) unfolding Resolve_def checkToken_def touchToken_def Let_def
    by (auto simp: port_defs assms(1) split: option.splits if_splits) (rule dead_token_touch [OF assms(1) row(1)]; assumption)+
  show "r \<noteq> Inr t" if h: "HashToken raw = h"
  proof
    assume "r = Inr t"
    with assms(2) show False
      using assms(1) h by (auto elim!: Resolve_ok simp: dead_token_def mem_GetPersonalAccessTokenByHash_def row_via_def)
  qed
qed

lemma pat_perform_dead:
  assumes dead: "dead_token h (pats (db w))" and run: "pat_perform c op w = (r, w')"
    and new: "\<forall>raw t. r = Inr (Minted raw t) \<longrightarrow> unused t (pats (db w))"
  shows "dead_token h (pats (db w'))"
proof (cases op)
  case (Creates u name scopes x)
  show ?thesis
  proof (cases r)
    case (Inl e)
    then have "CreateToken c u name scopes x w = (Inl e, w')" using run Creates by (auto elim!: seqE)
    then show ?thesis using dead unfolding CreateToken_def Let_def
      by (auto simp: port_defs mem_CreatePersonalAccessToken_def split: if_splits option.splits)
  next
    case (Inr a)
    then obtain raw t where t: "CreateToken c u name scopes x w = (Inr (raw, t), w')" "r = Inr (Minted raw t)"
      using run Creates by (auto elim!: seqE)
    then have "unused t (pats (db w))" using new by simp
    moreover have "pats (db w') = snd (mem_CreatePersonalAccessToken t (pats (db w)))" using CreateToken_ok [OF t(1)] by simp
    ultimately show ?thesis using dead_token_create [OF dead _ surjective_pairing] by simp
  qed
next
  case (Lists u)
  then show ?thesis using run dead by (auto simp: ListTokens_def port_defs)
next
  case (Revokes u i)
  then show ?thesis using run RevokeToken_dead [OF dead] by (auto elim!: seqE)
next
  case (Resolves raw)
  then show ?thesis using run Resolve_dead(1) [OF dead] by (auto elim!: seqE)
qed

text \<open>
  A token is dead for good: no request brings its row back, and none that presents it is answered well.
\<close>

lemma pat_run_dead:
  assumes "pat_run c tr w w'" and "dead_token (HashToken raw) (pats (db w))"
  shows "dead_token (HashToken raw) (pats (db w')) \<and> (Resolves raw, Inr a) \<notin> set tr"
  using assms
proof (induction rule: pat_run.induct)
  case (start w)
  then show ?case by simp
next
  case (request tr w w1 op r w2)
  then have dead: "dead_token (HashToken raw) (pats (db w1))" and none: "(Resolves raw, Inr a) \<notin> set tr" by simp_all
  have "r \<noteq> Inr a" if "op = Resolves raw"
    using request.hyps(2) that Resolve_dead(2) [OF dead] by (auto elim!: seqE)
  then show ?case using none pat_perform_dead [OF dead request.hyps(2,3)] by auto
next
  case (elsewhere tr w w1 w2)
  then show ?case by simp
qed

text \<open>
  C29. Only the owner revokes, and a revocation holds: a call of \<open>RevokeToken\<close> by anybody else is refused and changes
  nothing; after one that succeeds, whatever requests follow it, one after the other and with whatever faults, the
  revoked token is refused by every one that presents it, and at any instant after them. (A use that had read the row
  before the revocation and writes it back after is not one of these: it undoes the revocation.)
\<close>

theorem pat_revocation:
  assumes "RevokeToken u i w = (r, w')" and "pas_inv (pats (db w))"
    and "mem_GetPersonalAccessTokenByHash (pats (db w)) (HashToken raw) = Inr t" and "pt_ID t = i"
  shows "(pt_UserID t \<noteq> u \<longrightarrow> r \<noteq> Inr () \<and> db w' = db w) \<and>
     (r = Inr () \<longrightarrow> (\<forall>tr w'' now. pat_run c tr w' w'' \<longrightarrow>
        (Resolves raw, Inr a) \<notin> set tr \<and> fst (Resolve raw (w''\<lparr>clock := now\<rparr>)) \<noteq> Inr x))"
proof -
  have row: "pas_byID (pats (db w)) i = Some t" "pas_byHash (pats (db w)) (HashToken raw) = Some i"
    using pas_get_row [OF assms(2,3)] row_via_SomeD [OF assms(3) [unfolded mem_GetPersonalAccessTokenByHash_def]] assms(2,4)
    by (auto simp: pas_inv_def)
  have own: "pt_UserID t \<noteq> u \<longrightarrow> r \<noteq> Inr () \<and> db w' = db w"
    using assms(1) row unfolding RevokeToken_def by (auto simp: port_defs mem_GetPersonalAccessToken_def split: if_splits)
  have dead: "dead_token (HashToken raw) (pats (db w'))" if "r = Inr ()"
  proof -
    have "pas_byID (pats (db w)) (pt_ID t) = Some t" "pas_byHash (pats (db w)) (HashToken raw) = Some (pt_ID t)"
      using row assms(4) by simp_all
    note revoked = dead_token_revoke [OF assms(2) this]
    show ?thesis using assms(1,2) row that unfolding RevokeToken_def
      by (auto simp: port_defs mem_GetPersonalAccessToken_def dead_token_def [of _ "pats (db w)"] split: if_splits)
        (rule revoked; assumption)+
  qed
  have "(Resolves raw, Inr a) \<notin> set tr \<and> fst (Resolve raw (w''\<lparr>clock := now\<rparr>)) \<noteq> Inr x"
    if "r = Inr ()" "pat_run c tr w' w''" for tr w'' now
  proof -
    have "dead_token (HashToken raw) (pats (db (w''\<lparr>clock := now\<rparr>)))" and none: "(Resolves raw, Inr a) \<notin> set tr"
      using pat_run_dead [OF that(2) dead [OF that(1)]] by simp_all
    from Resolve_dead(2) [OF this(1) _ refl] none show ?thesis by (metis prod.collapse)
  qed
  then show ?thesis using own by blast
qed

definition demo_pat :: pat_token where
  "demo_pat = \<lparr>pt_ID = ''p1'', pt_UserID = ''u1'', pt_Name = ''ci'', pt_TokenHash = HashToken ''pat'', pt_Scopes = [''repo''],
     pt_ExpiresAt = None, pt_LastUsedAt = None, pt_RevokedAt = None, pt_CreatedAt = 0\<rparr>"

definition demo_pat_world :: world where
  "demo_pat_world = demo_world\<lparr>db := (db demo_world)\<lparr>pats := snd (mem_CreatePersonalAccessToken demo_pat NewPersonalAccessTokenStore)\<rparr>\<rparr>"

lemmas demo_pat_defs = demo_pat_world_def demo_pat_def row_via_def Let_def mem_defs append_id_def no_ids_def demo_defs run_defs

theorem pat_revocation_witness:
  "\<exists>w' r w''. RevokeToken ''u1'' ''p1'' demo_pat_world = (Inr (), w') \<and>
     pat_run demo_pat_config [(Resolves ''pat'', r)] w' w'' \<and> (\<forall>a. r \<noteq> Inr a) \<and> (\<forall>x. fst (Resolve ''pat'' (w''\<lparr>clock := 3\<rparr>)) \<noteq> Inr x)"
proof -
  obtain w' where run: "RevokeToken ''u1'' ''p1'' demo_pat_world = (Inr (), w')"
    by (simp add: RevokeToken_def demo_pat_defs)
  have inv: "pas_inv (pats (db demo_pat_world))"
    using pas_inv_create [OF pas_inv_new, of demo_pat]
    by (simp add: demo_pat_world_def mem_CreatePersonalAccessToken_def NewPersonalAccessTokenStore_def)
  have get: "mem_GetPersonalAccessTokenByHash (pats (db demo_pat_world)) (HashToken ''pat'') = Inr demo_pat" "pt_ID demo_pat = ''p1''"
    by (simp_all add: demo_pat_defs)
  obtain r w'' where two: "pat_perform demo_pat_config (Resolves ''pat'') w' = (r, w'')" by fastforce
  then have "\<nexists>raw t. r = Inr (Minted raw t)" by (auto elim!: seqE)
  with pat_run.request [OF pat_run.start two]
  have tr: "pat_run demo_pat_config [(Resolves ''pat'', r)] w' w''" by simp
  have "(Resolves ''pat'', Inr a) \<notin> set [(Resolves ''pat'', r)]" for a using pat_revocation [OF run inv get] tr by blast
  then have "r \<noteq> Inr a" for a by force
  moreover have "\<forall>x. fst (Resolve ''pat'' (w''\<lparr>clock := 3\<rparr>)) \<noteq> Inr x" using pat_revocation [OF run inv get] tr by blast
  ultimately have "\<forall>a. r \<noteq> Inr a" "\<forall>x. fst (Resolve ''pat'' (w''\<lparr>clock := 3\<rparr>)) \<noteq> Inr x" by blast+
  with run tr show ?thesis by blast
qed

text \<open>
  A revocation can be undone by a concurrent use: \<open>Resolve\<close> writes its copy of the whole row back to
  record the instant of use, so when the owner revokes between its read and its write, the write clears
  the revocation; the revoked token resolves again.
\<close>

theorem concurrent_use_undoes_revocation:
  "\<exists>t w1 w2 t' w3 r w4. checkToken ''pat'' demo_pat_world = (Inr t, w1) \<and>
     RevokeToken ''u1'' ''p1'' w1 = (Inr (), w2) \<and> fst (Resolve ''pat'' w2) = Inl (Pat Pat_ErrInvalidToken) \<and>
     touchToken t w2 = (Inr t', w3) \<and> Resolve ''pat'' w3 = (Inr r, w4)"
  by (simp add: checkToken_def touchToken_def RevokeToken_def Resolve_def demo_pat_defs)

end
