(* ===== verification/DeviceFlow.thy ===== *)
theory DeviceFlow
  imports UserLogin
begin

text \<open>
  Package \<open>device\<close>: the device authorization grant of RFC 8628 (\<open>device/service.go\<close>, \<open>device/device.go\<close>).
  A poll that may write is cut into the read and the rest, so that another request can come between.
\<close>

record device_config =
  dc_DeviceCodeTTL :: duration
  dc_PollInterval :: duration
  dc_SlowDownIncrement :: duration
  dc_RateLimiter :: limiter

definition dc_withDefaults :: "device_config \<Rightarrow> device_config" where
  "dc_withDefaults c =
     (let c = (if dc_DeviceCodeTTL c \<le> 0 then c\<lparr>dc_DeviceCodeTTL := 15 * minute\<rparr> else c);
          c = (if dc_PollInterval c \<le> 0 then c\<lparr>dc_PollInterval := 5 * second\<rparr> else c)
      in if dc_SlowDownIncrement c \<le> 0 then c\<lparr>dc_SlowDownIncrement := 5 * second\<rparr> else c)"

record authorization =
  au_DeviceCode :: string
  au_UserCode :: string
  au_ExpiresIn :: duration
  au_Interval :: duration

text \<open>\<open>int(d.Seconds())\<close> of a duration that is not negative.\<close>

definition whole_seconds :: "duration \<Rightarrow> int" where "whole_seconds d = d div second"

text \<open>At most five draws; an answer other than not found, an error included, draws again.\<close>

fun unique_user_code :: "nat \<Rightarrow> string prog" where
  "unique_user_code 0 = raise (Device ErrNoUniqueUserCode)"
| "unique_user_code (Suc n) =
     seq GenerateUserCode (\<lambda>code.
     on (GetDeviceAuthorizationByUserCode code)
       (\<lambda>e. if e = ErrNotFound then ret code else unique_user_code n)
       (\<lambda>_. unique_user_code n))"

definition uniqueUserCode :: "string prog" where "uniqueUserCode = unique_user_code 5"

definition StartDeviceAuthorization :: "device_config \<Rightarrow> string \<Rightarrow> string \<Rightarrow> authorization prog" where
  "StartDeviceAuthorization c clientID scope =
     seq GenerateOpaqueToken (\<lambda>(rawDeviceCode, deviceCodeHash).
     seq uniqueUserCode (\<lambda>userCode.
     seq NewID (\<lambda>id. with_now (\<lambda>now.
     seq (CreateDeviceAuthorization
            \<lparr>da_ID = id, da_DeviceCodeHash = deviceCodeHash, da_UserCode = userCode, da_ClientID = clientID,
             da_Scope = scope, da_Status = DeviceAuthorizationPending, da_UserID = None,
             da_ExpiresAt = now + dc_DeviceCodeTTL c, da_IntervalSeconds = whole_seconds (dc_PollInterval c),
             da_LastPolledAt = None, da_CreatedAt = now\<rparr>) (\<lambda>_.
     ret \<lparr>au_DeviceCode = rawDeviceCode, au_UserCode = userCode, au_ExpiresIn = dc_DeviceCodeTTL c,
          au_Interval = dc_PollInterval c\<rparr>)))))"

definition chargeFailedLookup :: "device_config \<Rightarrow> 'a prog" where
  "chargeFailedLookup c =
     seq (Allow (dc_RateLimiter c) ''device:user-code:failures'') (\<lambda>_. raise (Device ErrInvalidUserCode))"

definition pendingByUserCode :: "device_config \<Rightarrow> string \<Rightarrow> device_authorization prog" where
  "pendingByUserCode c userCode =
     on (GetDeviceAuthorizationByUserCode userCode)
       (\<lambda>e. if e = ErrNotFound then chargeFailedLookup c else raise e)
       (\<lambda>d. with_now (\<lambda>now.
         if da_Status d \<noteq> DeviceAuthorizationPending \<or> After now (da_ExpiresAt d) then chargeFailedLookup c
         else ret d))"

definition ApproveDeviceAuthorization :: "device_config \<Rightarrow> string \<Rightarrow> string \<Rightarrow> unit prog" where
  "ApproveDeviceAuthorization c callerUserID userCode =
     seq (Allow (dc_RateLimiter c) (''device:approve:'' @ callerUserID)) (\<lambda>_.
     seq (pendingByUserCode c userCode) (\<lambda>d.
     seq (UpdateDeviceAuthorization (d\<lparr>da_Status := DeviceAuthorizationApproved, da_UserID := Some callerUserID\<rparr>)) (\<lambda>_.
     log ((event_of EventDeviceApproved ResultSuccess)\<lparr>ev_ActorID := callerUserID, ev_TargetID := da_ID d\<rparr>))))"

definition DenyDeviceAuthorization :: "device_config \<Rightarrow> string \<Rightarrow> unit prog" where
  "DenyDeviceAuthorization c userCode =
     seq (pendingByUserCode c userCode) (\<lambda>d.
     seq (UpdateDeviceAuthorization (d\<lparr>da_Status := DeviceAuthorizationDenied\<rparr>)) (\<lambda>_.
     log ((event_of EventDeviceDenied ResultDenied)\<lparr>ev_TargetID := da_ID d\<rparr>)))"

definition pollLookup :: "string \<Rightarrow> device_authorization prog" where
  "pollLookup rawDeviceCode =
     on (GetDeviceAuthorizationByDeviceCodeHash (HashToken rawDeviceCode))
       (\<lambda>e. if e = ErrNotFound then raise (Device ErrExpiredToken) else raise e) ret"

text \<open>Every write of a poll is best effort.\<close>

definition pollAnswer :: "device_config \<Rightarrow> device_authorization \<Rightarrow> (string \<times> string) prog" where
  "pollAnswer c d = with_now (\<lambda>now.
     if After now (da_ExpiresAt d)
     then ignoring (DeleteDeviceAuthorization (da_ID d)) (raise (Device ErrExpiredToken))
     else if (case da_LastPolledAt d of None \<Rightarrow> False | Some t \<Rightarrow> now - t < da_IntervalSeconds d * second)
     then ignoring (UpdateDeviceAuthorization
            (d\<lparr>da_IntervalSeconds := da_IntervalSeconds d + whole_seconds (dc_SlowDownIncrement c),
               da_LastPolledAt := Some now\<rparr>)) (raise (Device ErrSlowDown))
     else (case da_Status d of
         DeviceAuthorizationDenied \<Rightarrow>
           ignoring (DeleteDeviceAuthorization (da_ID d)) (raise (Device ErrAccessDenied))
       | DeviceAuthorizationApproved \<Rightarrow>
           ignoring (DeleteDeviceAuthorization (da_ID d))
             (case da_UserID d of None \<Rightarrow> raise (Device ErrExpiredToken) | Some u \<Rightarrow> ret (u, da_Scope d))
       | DeviceAuthorizationPending \<Rightarrow>
           ignoring (UpdateDeviceAuthorization (d\<lparr>da_LastPolledAt := Some now\<rparr>))
             (raise (Device ErrAuthorizationPending))))"

definition PollDeviceToken :: "device_config \<Rightarrow> string \<Rightarrow> (string \<times> string) prog" where
  "PollDeviceToken c rawDeviceCode = seq (pollLookup rawDeviceCode) (pollAnswer c)"

section \<open>Only what somebody approved\<close>

text \<open>The trail says that a user approved an authorization.\<close>

definition approved_in :: "event list \<Rightarrow> string \<Rightarrow> string \<Rightarrow> bool" where
  "approved_in tr i u \<longleftrightarrow>
     (\<exists>e \<in> set tr. ev_Type e = EventDeviceApproved \<and> ev_TargetID e = i \<and> ev_ActorID e = u)"

text \<open>
  A row that names a user was approved by that user. A poll may hold a copy of a row while others act,
  so the invariant speaks of the copies held, too.
\<close>

definition row_approved :: "event list \<Rightarrow> device_authorization \<Rightarrow> bool" where
  "row_approved tr d \<longleftrightarrow> (\<forall>u. da_UserID d = Some u \<longrightarrow> approved_in tr (da_ID d) u)"

definition rows_approved :: "world \<Rightarrow> bool" where
  "rows_approved w \<longleftrightarrow> (\<forall>i d. das_byID (devauths (db w)) i = Some d \<longrightarrow> row_approved (trail w) d)"

inductive device_step ::
  "device_config \<Rightarrow> world \<times> device_authorization set \<Rightarrow> world \<times> device_authorization set \<Rightarrow> bool" for c where
  start: "StartDeviceAuthorization c client scope w = (r1, w') \<Longrightarrow> device_step c (w, H) (w', H)"
| approve: "ApproveDeviceAuthorization c u code w = (r2, w') \<Longrightarrow> device_step c (w, H) (w', H)"
| deny: "DenyDeviceAuthorization c code w = (r2, w') \<Longrightarrow> device_step c (w, H) (w', H)"
| look: "pollLookup raw w = (Inr d, w') \<Longrightarrow> device_step c (w, H) (w', insert d H)"
| answer: "d \<in> H \<Longrightarrow> pollAnswer c d w = (r3, w') \<Longrightarrow> device_step c (w, H) (w', H)"
| other: "devauths (db w') = devauths (db w) \<Longrightarrow> set (trail w) \<subseteq> set (trail w') \<Longrightarrow> device_step c (w, H) (w', H)"

lemma approved_mono: "row_approved tr d \<Longrightarrow> set tr \<subseteq> set tr' \<Longrightarrow> row_approved tr' d"
  by (fastforce simp: row_approved_def approved_in_def)

definition rows_kept :: "world \<Rightarrow> world \<Rightarrow> bool" where
  "rows_kept w w' \<longleftrightarrow> set (trail w) \<subseteq> set (trail w') \<and> (rows_approved w \<longrightarrow> rows_approved w')"

lemma rows_kept_same:
  assumes "set (trail w) \<subseteq> set (trail w')" and "das_byID (devauths (db w')) = das_byID (devauths (db w))"
  shows "rows_kept w w'"
  using assms approved_mono [OF _ assms(1)] by (auto simp: rows_kept_def rows_approved_def)

lemma rows_kept_shrink:
  assumes "set (trail w) \<subseteq> set (trail w')" and "das_byID (devauths (db w')) = (das_byID (devauths (db w)))(j := None)"
  shows "rows_kept w w'"
  using assms approved_mono [OF _ assms(1)] by (auto simp: rows_kept_def rows_approved_def split: if_splits)

lemma rows_kept_write:
  assumes "set (trail w) \<subseteq> set (trail w')" and "rows_approved w \<Longrightarrow> row_approved (trail w') d"
    and "das_byID (devauths (db w')) = (das_byID (devauths (db w)))(j \<mapsto> d)"
  shows "rows_kept w w'"
  using assms approved_mono [OF _ assms(1)] by (auto simp: rows_kept_def rows_approved_def split: if_splits)

lemma rows_kept_any:
  assumes "set (trail w) \<subseteq> set (trail w') \<and> (das_byID (devauths (db w')) = das_byID (devauths (db w)) \<or>
     das_byID (devauths (db w')) = (das_byID (devauths (db w)))(j := None) \<or>
     das_byID (devauths (db w')) = (das_byID (devauths (db w)))(j \<mapsto> d) \<and> (rows_approved w \<longrightarrow> row_approved (trail w') d))"
  shows "rows_kept w w'"
  using assms rows_kept_same rows_kept_shrink rows_kept_write by blast

lemma rows_kept_trans: "rows_kept w w1 \<Longrightarrow> rows_kept w1 w2 \<Longrightarrow> rows_kept w w2"
  by (auto simp: rows_kept_def)

lemma update_kept:
  assumes "UpdateDeviceAuthorization d w = (r, w')" and "rows_approved w \<Longrightarrow> row_approved (trail w) d"
  shows "rows_kept w w'"
  using assms
  by (intro rows_kept_any [where j = "da_ID d" and d = d])
    (auto simp: port_defs mem_UpdateDeviceAuthorization_def split: if_splits)

lemma delete_kept: "DeleteDeviceAuthorization i w = (r, w') \<Longrightarrow> rows_kept w w'"
  by (rule rows_kept_any [where j = i])
    (auto simp: port_defs mem_DeleteDeviceAuthorization_def split: option.splits)

lemma create_kept: "CreateDeviceAuthorization d w = (r, w') \<Longrightarrow> da_UserID d = None \<Longrightarrow> rows_kept w w'"
  by (rule rows_kept_any [where j = "da_ID d" and d = d])
    (auto simp: port_defs mem_CreateDeviceAuthorization_def row_approved_def)

definition quiet :: "world \<Rightarrow> world \<Rightarrow> bool" where
  "quiet w w' \<longleftrightarrow> db w' = db w \<and> trail w' = trail w \<and> clock w' = clock w"

lemma quiet_kept: "quiet w w' \<Longrightarrow> rows_kept w w'"
  by (auto simp: quiet_def intro: rows_kept_same)

lemma unique_user_code_quiet: "unique_user_code n w = (r, w') \<Longrightarrow> quiet w w'"
  by (induction n arbitrary: w) (fastforce simp: port_defs GenerateUserCode_def quiet_def split: if_splits)+

lemma pending_quiet:
  "pendingByUserCode c code w = (r, w') \<Longrightarrow> quiet w w'"
  by (auto simp: pendingByUserCode_def chargeFailedLookup_def port_defs quiet_def split: if_splits)

lemma pending_row:
  assumes "pendingByUserCode c code w = (Inr d, w')"
  shows "mem_GetDeviceAuthorizationByUserCode (devauths (db w)) code = Inr d \<and> da_Status d = DeviceAuthorizationPending \<and>
     clock w \<le> da_ExpiresAt d"
  using assms by (auto simp: pendingByUserCode_def chargeFailedLookup_def port_defs After_def split: if_splits)

lemma read_approved:
  "rows_approved w \<Longrightarrow> mem_GetDeviceAuthorizationByUserCode (devauths (db w)) code = Inr d \<Longrightarrow> row_approved (trail w) d"
  "rows_approved w \<Longrightarrow> mem_GetDeviceAuthorizationByDeviceCodeHash (devauths (db w)) h = Inr d \<Longrightarrow> row_approved (trail w) d"
  by (auto simp: rows_approved_def mem_defs dest!: row_via_SomeD)

lemma seq_kept:
  assumes "seq m k w = (r, w')" and "\<And>x w1. m w = (x, w1) \<Longrightarrow> rows_kept w w1"
    and "\<And>x w1. m w = (Inr x, w1) \<Longrightarrow> k x w1 = (r, w') \<Longrightarrow> rows_kept w1 w'"
  shows "rows_kept w w'"
  using assms(1) by (rule seqE) (use assms(2,3) in \<open>blast intro: rows_kept_trans\<close>)+

lemma rows_kept_still: "db w' = db w \<Longrightarrow> trail w' = trail w \<Longrightarrow> rows_kept w w'"
  by (simp add: rows_kept_same)

lemma start_kept:
  assumes "StartDeviceAuthorization c client scope w = (r, w')" shows "rows_kept w w'"
  using assms unfolding StartDeviceAuthorization_def uniqueUserCode_def
  by (auto simp: split_beta rows_kept_still elim!: seq_kept dest: unique_user_code_quiet [THEN quiet_kept])
    (erule create_kept, simp)

lemma approve_kept:
  assumes "ApproveDeviceAuthorization c u code w = (r, w')" shows "rows_kept w w'"
proof -
  have upd: "rows_kept w1 w'"
    if "seq (UpdateDeviceAuthorization (d\<lparr>da_Status := DeviceAuthorizationApproved, da_UserID := Some u\<rparr>)) (\<lambda>_.
        log ((event_of EventDeviceApproved ResultSuccess)\<lparr>ev_ActorID := u, ev_TargetID := da_ID d\<rparr>)) w1 = (r, w')" for d w1
    using that
    by (intro rows_kept_any [where j = "da_ID d" and d = "d\<lparr>da_Status := DeviceAuthorizationApproved, da_UserID := Some u\<rparr>"])
      (auto simp: port_defs mem_UpdateDeviceAuthorization_def row_approved_def approved_in_def event_of_def split: if_splits)
  have allow: "Allow l k w = (x, w1) \<Longrightarrow> rows_kept w w1" for l k x w1
    by (auto simp: rows_kept_still)
  have pend: "pendingByUserCode c code w1 = (x, w2) \<Longrightarrow> rows_kept w1 w2" for x w1 w2
    by (blast intro: quiet_kept pending_quiet)
  show ?thesis using assms unfolding ApproveDeviceAuthorization_def
    by (rule seq_kept) (erule allow, erule seq_kept, erule pend, erule upd)
qed

lemma deny_kept:
  assumes "DenyDeviceAuthorization c code w = (r, w')" shows "rows_kept w w'"
  using assms unfolding DenyDeviceAuthorization_def
proof (rule seq_kept)
  show "rows_kept w w1" if "pendingByUserCode c code w = (x, w1)" for x w1
    using that by (blast intro: quiet_kept pending_quiet)
  show "rows_kept w1 w'"
    if "pendingByUserCode c code w = (Inr d, w1)"
      and "seq (UpdateDeviceAuthorization (d\<lparr>da_Status := DeviceAuthorizationDenied\<rparr>)) (\<lambda>_.
        log ((event_of EventDeviceDenied ResultDenied)\<lparr>ev_TargetID := da_ID d\<rparr>)) w1 = (r, w')" for d w1
  proof -
    have "rows_approved w1 \<longrightarrow> row_approved (trail w1) d"
      using pending_row [OF that(1)] pending_quiet [OF that(1)] read_approved(1)
      by (auto simp: quiet_def rows_approved_def)
    then show ?thesis using that(2)
      by (intro rows_kept_any [where j = "da_ID d" and d = "d\<lparr>da_Status := DeviceAuthorizationDenied\<rparr>"])
        (auto simp: port_defs mem_UpdateDeviceAuthorization_def row_approved_def approved_in_def split: if_splits)
  qed
qed

lemma answer_kept:
  assumes "pollAnswer c d w = (r, w')" and "row_approved (trail w) d" shows "rows_kept w w'"
  using assms unfolding pollAnswer_def
  by (auto simp: row_approved_def intro: delete_kept update_kept split: if_splits option.splits device_status.splits)


lemma look_approved:
  assumes "pollLookup raw w = (Inr d, w')"
  shows "quiet w w' \<and> mem_GetDeviceAuthorizationByDeviceCodeHash (devauths (db w)) (HashToken raw) = Inr d"
  using assms unfolding pollLookup_def by (auto simp: port_defs quiet_def split: if_splits)

definition flow_inv :: "world \<times> device_authorization set \<Rightarrow> bool" where
  "flow_inv x \<longleftrightarrow> rows_approved (fst x) \<and> (\<forall>d \<in> snd x. row_approved (trail (fst x)) d)"

lemma flow_inv_kept: "flow_inv (w, H) \<Longrightarrow> rows_kept w w' \<Longrightarrow> flow_inv (w', H)"
  by (auto simp: flow_inv_def rows_kept_def intro: approved_mono)

lemma flow_inv_step: "device_step c x y \<Longrightarrow> flow_inv x \<Longrightarrow> flow_inv y"
proof (induction rule: device_step.induct)
  case (look raw w d w' H)
  then have "quiet w w'" "row_approved (trail w) d"
    using look_approved [OF look(1)] read_approved(2) by (auto simp: flow_inv_def)
  then have "flow_inv (w', H)" "row_approved (trail w') d"
    using look flow_inv_kept quiet_kept by (auto simp: quiet_def)
  then show ?case by (simp add: flow_inv_def)
next
  case (answer d H w r3 w')
  then have "row_approved (trail w) d" by (simp add: flow_inv_def)
  then show ?case using flow_inv_kept [OF answer(3) answer_kept [OF answer(2)]] by simp
next
  case (other w' w H)
  then show ?case by (simp add: flow_inv_kept [OF _ rows_kept_same])
qed (blast intro: flow_inv_kept start_kept approve_kept deny_kept)+

lemma flow_inv_reached: "(device_step c)\<^sup>*\<^sup>* x y \<Longrightarrow> flow_inv x \<Longrightarrow> flow_inv y"
  by (induction rule: rtranclp_induct) (auto intro: flow_inv_step)

lemma flow_inv_new: "devauths (db w) = NewDeviceAuthorizationStore \<Longrightarrow> flow_inv (w, {})"
  by (simp add: flow_inv_def rows_approved_def NewDeviceAuthorizationStore_def)

lemma answer_ok:
  assumes "pollAnswer c d w = (Inr (u, scope), w')"
  shows "da_UserID d = Some u \<and> scope = da_Scope d \<and> da_Status d = DeviceAuthorizationApproved \<and>
     clock w \<le> da_ExpiresAt d \<and> (\<forall>t. da_LastPolledAt d = Some t \<longrightarrow> da_IntervalSeconds d * second \<le> clock w - t) \<and>
     (\<exists>r. DeleteDeviceAuthorization (da_ID d) w = (r, w'))"
  using assms unfolding pollAnswer_def
  by (auto simp: After_def split: if_splits option.splits device_status.splits)

text \<open>
  C4. The device grant never gives out an identity nobody confirmed: in every interleaving of starts,
  approvals, denials and polls, polls cut between their read and their answer included, a poll that
  returns a user answers for an authorization which the audit trail says that user approved, with the
  scope it asked for, before it expired, and not sooner after the previous poll than its interval.
\<close>

theorem device_grant_was_approved:
  assumes "(device_step c)\<^sup>*\<^sup>* (w0, {}) (w, H)" and "devauths (db w0) = NewDeviceAuthorizationStore"
    and "d \<in> H" and "pollAnswer c d w = (Inr (u, scope), w')"
  shows "approved_in (trail w) (da_ID d) u \<and> scope = da_Scope d \<and> da_Status d = DeviceAuthorizationApproved \<and>
     clock w \<le> da_ExpiresAt d \<and> (\<forall>t. da_LastPolledAt d = Some t \<longrightarrow> da_IntervalSeconds d * second \<le> clock w - t)"
proof -
  have "row_approved (trail w) d"
    using flow_inv_reached [OF assms(1) flow_inv_new [OF assms(2)]] assms(3) by (simp add: flow_inv_def)
  then show ?thesis using answer_ok [OF assms(4)] by (simp add: row_approved_def)
qed


definition demo_device_config :: device_config where
  "demo_device_config = dc_withDefaults \<lparr>dc_DeviceCodeTTL = 0, dc_PollInterval = 0, dc_SlowDownIncrement = 0, dc_RateLimiter = Noop\<rparr>"

lemma demo_device_config:
  "demo_device_config = \<lparr>dc_DeviceCodeTTL = 900000000000, dc_PollInterval = 5000000000, dc_SlowDownIncrement = 5000000000, dc_RateLimiter = Noop\<rparr>"
  by (simp add: demo_device_config_def dc_withDefaults_def Let_def duration_defs)

definition demo_auth :: device_authorization where
  "demo_auth = \<lparr>da_ID = ''d1'', da_DeviceCodeHash = HashToken ''dev'', da_UserCode = ''CODE'', da_ClientID = ''cli'', da_Scope = ''read'',
     da_Status = DeviceAuthorizationPending, da_UserID = None, da_ExpiresAt = 900000000000, da_IntervalSeconds = 5, da_LastPolledAt = None,
     da_CreatedAt = 0\<rparr>"

definition demo_device_world :: world where
  "demo_device_world = demo_world\<lparr>db := (db demo_world)\<lparr>devauths := snd (mem_CreateDeviceAuthorization demo_auth NewDeviceAuthorizationStore)\<rparr>\<rparr>"

lemmas demo_device_defs = demo_device_config demo_device_world_def demo_auth_def row_via_def Let_def mem_defs demo_defs run_defs
  ApproveDeviceAuthorization_def DenyDeviceAuthorization_def pendingByUserCode_def Allow_def Noop_def After_def

text \<open>
  Two polls of one approved authorization, each reading before the other deletes the row, both redeem
  it: the grant is not single use under concurrency.
\<close>

theorem concurrent_polls_both_redeem:
  "\<exists>w1 d w2 w3 w4 w5. ApproveDeviceAuthorization demo_device_config ''u1'' ''CODE'' demo_device_world = (Inr (), w1) \<and>
     pollLookup ''dev'' w1 = (Inr d, w2) \<and> pollLookup ''dev'' w2 = (Inr d, w3) \<and>
     pollAnswer demo_device_config d w3 = (Inr (''u1'', ''read''), w4) \<and> pollAnswer demo_device_config d w4 = (Inr (''u1'', ''read''), w5)"
  by (simp add: pollLookup_def pollAnswer_def demo_device_defs)

text \<open>
  A poll that read the row while it was pending writes its copy back after the user's decision, which
  is lost: the user who denied the request sees no error, and the same code can still be approved.
\<close>

theorem pending_poll_undoes_denial:
  "\<exists>d w1 w2 w3 w4 w5. pollLookup ''dev'' demo_device_world = (Inr d, w1) \<and>
     DenyDeviceAuthorization demo_device_config ''CODE'' w1 = (Inr (), w2) \<and>
     fst (ApproveDeviceAuthorization demo_device_config ''u2'' ''CODE'' w2) = Inl (Device ErrInvalidUserCode) \<and>
     pollAnswer demo_device_config d w2 = (Inl (Device ErrAuthorizationPending), w3) \<and>
     ApproveDeviceAuthorization demo_device_config ''u2'' ''CODE'' w3 = (Inr (), w4) \<and>
     PollDeviceToken demo_device_config ''dev'' (w4\<lparr>clock := 6000000000\<rparr>) = (Inr (''u2'', ''read''), w5)"
  by (simp add: pollLookup_def pollAnswer_def PollDeviceToken_def chargeFailedLookup_def duration_defs demo_device_defs)


lemma start_ok:
  assumes "StartDeviceAuthorization c client scope w = (Inr a, w')"
  obtains d where "mem_GetDeviceAuthorizationByDeviceCodeHash (devauths (db w')) (HashToken (au_DeviceCode a)) = Inr d"
    and "mem_GetDeviceAuthorizationByUserCode (devauths (db w')) (au_UserCode a) = Inr d"
    and "da_Status d = DeviceAuthorizationPending \<and> da_UserID d = None \<and> da_Scope d = scope \<and> da_ClientID d = client \<and>
      da_ExpiresAt d = clock w + dc_DeviceCodeTTL c \<and> da_LastPolledAt d = None \<and> da_DeviceCodeHash d = HashToken (au_DeviceCode a)"
    and "clock w' = clock w" and "das_byID (devauths (db w')) (da_ID d) = Some d"
    and "das_byHash (devauths (db w')) (HashToken (au_DeviceCode a)) = Some (da_ID d)"
proof -
  have "\<exists>d. das_byID (devauths (db w')) (da_ID d) = Some d \<and> das_byHash (devauths (db w')) (HashToken (au_DeviceCode a)) = Some (da_ID d) \<and>
     das_byUserCode (devauths (db w')) (au_UserCode a) = Some (da_ID d) \<and> clock w' = clock w \<and>
     da_Status d = DeviceAuthorizationPending \<and> da_UserID d = None \<and> da_Scope d = scope \<and> da_ClientID d = client \<and>
      da_ExpiresAt d = clock w + dc_DeviceCodeTTL c \<and> da_LastPolledAt d = None \<and> da_DeviceCodeHash d = HashToken (au_DeviceCode a)"
    using assms unfolding StartDeviceAuthorization_def uniqueUserCode_def
    by (intro exI [of _ "the (das_byID (devauths (db w')) (the (das_byUserCode (devauths (db w')) (au_UserCode a))))"])
      (auto simp: port_defs quiet_def mem_CreateDeviceAuthorization_def dest!: unique_user_code_quiet)
  then show thesis using that by (auto simp: mem_defs row_via_def)
qed


text \<open>What an approval and a poll do when nothing fails.\<close>

lemma approve_run:
  assumes "mem_GetDeviceAuthorizationByUserCode (devauths (db w)) code = Inr d" and "das_byID (devauths (db w)) (da_ID d) = Some d"
    and "da_Status d = DeviceAuthorizationPending" and "clock w \<le> da_ExpiresAt d"
    and "faults w = []" and "dc_RateLimiter c (limits w) (clock w) (''device:approve:'' @ u) = None"
  shows "\<exists>w'. ApproveDeviceAuthorization c u code w = (Inr (), w') \<and> faults w' = [] \<and> clock w' = clock w \<and>
     das_byHash (devauths (db w')) = das_byHash (devauths (db w)) \<and>
     das_byID (devauths (db w')) (da_ID d) = Some (d\<lparr>da_Status := DeviceAuthorizationApproved, da_UserID := Some u\<rparr>)"
  using assms
  by (simp add: ApproveDeviceAuthorization_def pendingByUserCode_def Allow_def After_def run_defs mem_UpdateDeviceAuthorization_def)

lemma redeem_run:
  assumes "das_byHash (devauths (db w)) (HashToken raw) = Some i" and "das_byID (devauths (db w)) i = Some d"
    and "da_ID d = i" and "da_DeviceCodeHash d = HashToken raw" and "da_Status d = DeviceAuthorizationApproved" and "da_UserID d = Some u"
    and "clock w \<le> da_ExpiresAt d" and "\<forall>t. da_LastPolledAt d = Some t \<longrightarrow> da_IntervalSeconds d * second \<le> clock w - t"
    and "faults w = []"
  shows "\<exists>w'. PollDeviceToken c raw w = (Inr (u, da_Scope d), w') \<and> faults w' = [] \<and>
     das_byHash (devauths (db w')) (HashToken raw) = None"
  using assms
  by (auto simp: PollDeviceToken_def pollLookup_def pollAnswer_def After_def run_defs mem_defs row_via_def split: option.splits)




lemma demo_start:
  obtains a w1 where "StartDeviceAuthorization demo_device_config ''cli'' ''read'' demo_world = (Inr a, w1)" and "faults w1 = []"
proof -
  have "\<exists>a w1. StartDeviceAuthorization demo_device_config ''cli'' ''read'' demo_world = (Inr a, w1) \<and> faults w1 = []"
    by (simp add: StartDeviceAuthorization_def uniqueUserCode_def GenerateUserCode_def demo_device_config numeral_eq_Suc
        mem_CreateDeviceAuthorization_def mem_GetDeviceAuthorizationByUserCode_def row_via_def demo_defs run_defs)
  then show thesis using that by blast
qed



theorem device_grant_was_approved_witness:
  "\<exists>d w w'. pollAnswer demo_device_config d w = (Inr (''u1'', ''read''), w') \<and> approved_in (trail w) (da_ID d) ''u1''"
proof -
  let ?c = demo_device_config
  obtain a w1 where s: "StartDeviceAuthorization ?c ''cli'' ''read'' demo_world = (Inr a, w1)" "faults w1 = []"
    by (rule demo_start)
  obtain d where d: "mem_GetDeviceAuthorizationByUserCode (devauths (db w1)) (au_UserCode a) = Inr d"
    "das_byID (devauths (db w1)) (da_ID d) = Some d" "das_byHash (devauths (db w1)) (HashToken (au_DeviceCode a)) = Some (da_ID d)"
    "da_DeviceCodeHash d = HashToken (au_DeviceCode a)"
    and st: "da_Status d = DeviceAuthorizationPending" "da_UserID d = None" "da_Scope d = ''read''"
      "da_ExpiresAt d = 900000000000" "da_LastPolledAt d = None" "clock w1 = 0"
    using s(1) by (rule start_ok) (simp add: demo_device_config demo_defs)
  let ?d = "d\<lparr>da_Status := DeviceAuthorizationApproved, da_UserID := Some ''u1''\<rparr>"
  obtain w2 where w2: "ApproveDeviceAuthorization ?c ''u1'' (au_UserCode a) w1 = (Inr (), w2)" "faults w2 = []" "clock w2 = 0"
    "das_byHash (devauths (db w2)) = das_byHash (devauths (db w1))" "das_byID (devauths (db w2)) (da_ID d) = Some ?d"
    using approve_run [of w1 "au_UserCode a" d ?c "''u1''"] d st s(2) by (auto simp: demo_device_config Noop_def)
  have look: "pollLookup (au_DeviceCode a) w2 = (Inr ?d, w2)"
    using w2 d by (simp add: pollLookup_def run_defs mem_defs row_via_def)
  obtain w3 where "PollDeviceToken ?c (au_DeviceCode a) w2 = (Inr (''u1'', ''read''), w3)"
    using redeem_run [of w2 "au_DeviceCode a" "da_ID d" ?d "''u1''" ?c] d st w2 by auto
  then have ans: "pollAnswer ?c ?d w2 = (Inr (''u1'', ''read''), w3)"
    using look by (simp add: PollDeviceToken_def seq_def on_def)
  have "(device_step ?c)\<^sup>*\<^sup>* (demo_world, {}) (w2, insert ?d {})"
    by (rule converse_rtranclp_into_rtranclp, rule device_step.start, rule s(1),
        rule converse_rtranclp_into_rtranclp, rule device_step.approve, rule w2(1),
        rule r_into_rtranclp, rule device_step.look, rule look)
  moreover have "devauths (db demo_world) = NewDeviceAuthorizationStore" by (simp add: demo_defs)
  ultimately have "approved_in (trail w2) (da_ID ?d) ''u1''"
    using device_grant_was_approved [OF _ _ _ ans] by blast
  then show ?thesis using ans by blast
qed

end
