(* ===== verification/EmailLogin.thy ===== *)
theory EmailLogin
  imports UserLogin
begin

text \<open>
  Package \<open>emaillogin\<close>: signing in by a magic link or a short code (\<open>emaillogin/emaillogin.go\<close>,
  \<open>emaillogin/flow.go\<close>). \<open>fuel\<close> bounds the draws of \<open>GenerateNumericCode\<close>.
\<close>

record email_config =
  ec_LinkTTL :: duration
  ec_CodeTTL :: duration
  ec_CodeLength :: int
  ec_MaxCodeAttempts :: int
  ec_DisableSignUp :: bool
  ec_RateLimiter :: limiter

definition ec_withDefaults :: "email_config \<Rightarrow> email_config" where
  "ec_withDefaults c =
     (let c = (if ec_LinkTTL c \<le> 0 then c\<lparr>ec_LinkTTL := 15 * minute\<rparr> else c);
          c = (if ec_CodeTTL c \<le> 0 then c\<lparr>ec_CodeTTL := 10 * minute\<rparr> else c);
          c = (if ec_CodeLength c \<le> 0 then c\<lparr>ec_CodeLength := 6\<rparr> else c)
      in if ec_MaxCodeAttempts c \<le> 0 then c\<lparr>ec_MaxCodeAttempts := 5\<rparr> else c)"

record email_service =
  es_Tx :: bool
  es_cfg :: email_config

record email_result =
  er_User :: user
  er_CreatedUser :: bool

definition codeHash :: "string \<Rightarrow> string \<Rightarrow> string" where
  "codeHash email code = HashToken (email @ CHR 0x00 # code)"

fun kind_string :: "email_login_kind \<Rightarrow> string" where
  "kind_string EmailLoginLink = ''link''"
| "kind_string EmailLoginCode = ''code''"

definition email_log :: "event_type \<Rightarrow> string \<Rightarrow> string \<Rightarrow> string \<Rightarrow> unit prog" where
  "email_log typ actorID email kind =
     log ((event_of typ (if typ = EventEmailLoginExhausted then ResultDenied else ResultSuccess))
       \<lparr>ev_ActorID := actorID, ev_Email := email, ev_Metadata := [(''kind'', MStr kind)]\<rparr>)"

section \<open>Requesting a credential\<close>

definition issue :: "string \<Rightarrow> email_login_kind \<Rightarrow> string \<Rightarrow> duration \<Rightarrow> unit prog" where
  "issue email kind hash ttl =
     seq (DeleteEmailLoginTokens email kind) (\<lambda>_.
     seq NewID (\<lambda>id. with_now (\<lambda>now.
     CreateEmailLoginToken
       \<lparr>el_ID = id, el_Email = email, el_Kind = kind, el_TokenHash = hash, el_Attempts = 0,
        el_ExpiresAt = now + ttl, el_UsedAt = None, el_CreatedAt = now\<rparr>)))"

definition RequestMagicLink :: "email_service \<Rightarrow> string \<Rightarrow> unit prog" where
  "RequestMagicLink s email =
     (let email = NormalizeEmail email in
      seq (Allow (ec_RateLimiter (es_cfg s)) (''email-login:request:'' @ email)) (\<lambda>_.
      seq GenerateOpaqueToken (\<lambda>(raw, hash).
      seq (issue email EmailLoginLink hash (ec_LinkTTL (es_cfg s))) (\<lambda>_.
      seq (send (SendMagicLink email raw)) (\<lambda>_.
      email_log EventEmailLoginRequested '''' email (kind_string EmailLoginLink))))))"

definition RequestSignInCode :: "nat \<Rightarrow> email_service \<Rightarrow> string \<Rightarrow> unit prog" where
  "RequestSignInCode fuel s email =
     (let email = NormalizeEmail email in
      seq (Allow (ec_RateLimiter (es_cfg s)) (''email-login:request:'' @ email)) (\<lambda>_.
      seq (GenerateNumericCode fuel (ec_CodeLength (es_cfg s))) (\<lambda>code.
      seq (issue email EmailLoginCode (codeHash email code) (ec_CodeTTL (es_cfg s))) (\<lambda>_.
      seq (send (SendSignInCode email code)) (\<lambda>_.
      email_log EventEmailLoginRequested '''' email (kind_string EmailLoginCode))))))"

section \<open>Redeeming it\<close>

definition usable :: "time \<Rightarrow> email_login_token \<Rightarrow> bool" where
  "usable now t \<longleftrightarrow> el_UsedAt t = None \<and> Before now (el_ExpiresAt t)"

definition not_found_invalid :: "error \<Rightarrow> 'a prog" where
  "not_found_invalid e = raise (if e = ErrNotFound then EmailLogin Email_ErrInvalidToken else e)"

definition signUp :: "email_service \<Rightarrow> email_login_token \<Rightarrow> email_result prog" where
  "signUp s t =
     seq NewID (\<lambda>id. with_now (\<lambda>now.
     let u = \<lparr>u_ID = id, u_Email = el_Email t, u_PasswordHash = '''', u_EmailVerified = True,
              u_EmailVerifiedAt = Some now, u_CreatedAt = now, u_UpdatedAt = now\<rparr> in
     on (RunInTx (es_Tx s) (seq (MarkEmailLoginTokenUsed (el_ID t) now) (\<lambda>_. CreateUser u)))
       not_found_invalid (\<lambda>_.
     seq (email_log EventUserRegistered (u_ID u) (u_Email u) (kind_string (el_Kind t))) (\<lambda>_.
     seq (email_log EventEmailLoginSucceeded (u_ID u) (u_Email u) (kind_string (el_Kind t))) (\<lambda>_.
     ret \<lparr>er_User = u, er_CreatedUser = True\<rparr>)))))"

definition consume :: "email_service \<Rightarrow> email_login_token \<Rightarrow> email_result prog" where
  "consume s t =
     on (GetUserByEmail (el_Email t))
       (\<lambda>e. if e = ErrNotFound
            then (if ec_DisableSignUp (es_cfg s) then raise (EmailLogin ErrSignUpDisabled) else signUp s t)
            else raise e)
       (\<lambda>u. with_now (\<lambda>now.
     on (MarkEmailLoginTokenUsed (el_ID t) now) not_found_invalid (\<lambda>_.
     seq (email_log EventEmailLoginSucceeded (u_ID u) (u_Email u) (kind_string (el_Kind t))) (\<lambda>_.
     ret \<lparr>er_User = u, er_CreatedUser = False\<rparr>))))"

text \<open>\<open>RedeemMagicLink\<close> looks the token up and then consumes the row it holds a copy of.\<close>

definition linkLookup :: "string \<Rightarrow> email_login_token prog" where
  "linkLookup rawToken =
     on (GetEmailLoginTokenByHash (HashToken rawToken)) not_found_invalid (\<lambda>t. with_now (\<lambda>now.
     if el_Kind t \<noteq> EmailLoginLink \<or> \<not> usable now t then raise (EmailLogin Email_ErrInvalidToken) else ret t))"

definition RedeemMagicLink :: "email_service \<Rightarrow> string \<Rightarrow> email_result prog" where
  "RedeemMagicLink s rawToken = seq (linkLookup rawToken) (consume s)"

definition RedeemSignInCode :: "email_service \<Rightarrow> string \<Rightarrow> string \<Rightarrow> email_result prog" where
  "RedeemSignInCode s email code =
     (let email = NormalizeEmail email in
      seq (Allow (ec_RateLimiter (es_cfg s)) (''email-login:redeem:'' @ email)) (\<lambda>_.
      on (GetEmailLoginTokenByEmail email EmailLoginCode) not_found_invalid (\<lambda>t. with_now (\<lambda>now.
      if \<not> usable now t then raise (EmailLogin Email_ErrInvalidToken)
      else if el_TokenHash t \<noteq> codeHash email code
      then on (IncrementEmailLoginTokenAttempts (el_ID t)) not_found_invalid (\<lambda>attempts.
             if attempts \<ge> ec_MaxCodeAttempts (es_cfg s)
             then seq (DeleteEmailLoginTokens email EmailLoginCode) (\<lambda>_.
                  seq (email_log EventEmailLoginExhausted '''' email (kind_string EmailLoginCode)) (\<lambda>_.
                  raise (EmailLogin Email_ErrInvalidToken)))
             else raise (EmailLogin Email_ErrInvalidToken))
      else consume s t))))"

end
