(* ===== verification/EmailProps.thy ===== *)
theory EmailProps
  imports EmailLogin HashVectors
begin

text \<open>
  What the flows of package \<open>emaillogin\<close> guarantee: who a redemption signs in and that it happens once, the
  budget of wrong guesses a code survives, and what a request gives away.
\<close>

section \<open>What a redemption means\<close>

lemma email_logE [elim!]:
  assumes "email_log typ a e k w = (r, w')"
  obtains ev where "r = Inr ()" and "w' = w\<lparr>trail := trail w @ [ev]\<rparr>"
  using assms unfolding email_log_def by (auto elim!: logE)

lemma not_found_invalid_eq [simp]:
  "not_found_invalid e w = (r, w') \<longleftrightarrow> r = Inl (if e = ErrNotFound then EmailLogin Email_ErrInvalidToken else e) \<and> w' = w"
  by (auto simp: not_found_invalid_def)

definition used_up :: "world \<Rightarrow> string \<Rightarrow> bool" where
  "used_up w i \<longleftrightarrow> (\<exists>t. els_byID (logins (db w)) i = Some t \<and> el_UsedAt t \<noteq> None)"

text \<open>Who a consumed token signs in, and that it was live and is not any more.\<close>

lemma email_consume_ok:
  assumes "consume s t w = (Inr res, w')"
  shows "(\<exists>t0. els_byID (logins (db w)) (el_ID t) = Some t0 \<and> el_UsedAt t0 = None) \<and> used_up w' (el_ID t) \<and>
     els_byHash (logins (db w')) = els_byHash (logins (db w)) \<and> clock w' = clock w \<and>
     (if er_CreatedUser res
      then \<not> ec_DisableSignUp (es_cfg s) \<and> mem_GetUserByEmail (users (db w)) (el_Email t) = Inl ErrNotFound \<and>
        u_Email (er_User res) = el_Email t \<and> u_EmailVerified (er_User res) \<and> u_PasswordHash (er_User res) = '''' \<and>
        mem_CreateUser (er_User res) (users (db w)) = (Inr (), users (db w'))
      else mem_GetUserByEmail (users (db w)) (el_Email t) = Inr (er_User res) \<and> users (db w') = users (db w))"
  using assms unfolding consume_def
proof (rule onE, goal_cases)
  case (1 e w1)
  then show ?thesis unfolding signUp_def Let_def
    by (auto simp: port_defs mem_MarkEmailLoginTokenUsed_def used_up_def split: if_splits option.splits elim!: RunInTx_ok)
next
  case (2 u w1)
  then show ?thesis
    by (auto simp: port_defs mem_MarkEmailLoginTokenUsed_def used_up_def split: if_splits option.splits)
qed


lemma created_user_found: "mem_CreateUser u us = (Inr (), us') \<Longrightarrow> mem_GetUserByEmail us' (u_Email u) = Inr u"
  by (auto simp: mem_CreateUser_def mem_GetUserByEmail_def row_via_def split: option.splits)

lemma linkLookup_ok:
  assumes "linkLookup raw w = (Inr t, w')"
  shows "mem_GetEmailLoginTokenByHash (logins (db w)) (HashToken raw) = Inr t \<and> el_Kind t = EmailLoginLink \<and>
     el_UsedAt t = None \<and> clock w < el_ExpiresAt t \<and> db w' = db w \<and> clock w' = clock w"
  using assms unfolding linkLookup_def by (auto simp: port_defs usable_def Before_def split: if_splits)

lemma used_up_refused:
  assumes "used_up w i" and "els_byHash (logins (db w)) (HashToken raw) = Some i"
  shows "fst (RedeemMagicLink s raw w) \<noteq> Inr res"
proof
  assume "fst (RedeemMagicLink s raw w) = Inr res"
  then obtain w1 where "RedeemMagicLink s raw w = (Inr res, w1)" by (metis prod.collapse)
  then obtain t w2 where "linkLookup raw w = (Inr t, w2)" unfolding RedeemMagicLink_def by auto
  with linkLookup_ok [OF this] assms show False
    by (auto simp: used_up_def mem_GetEmailLoginTokenByHash_def row_via_def)
qed

text \<open>
  C20. A magic link signs in the owner of the inbox it was sent to, once: it must be an unused link token
  that has not expired; the account is the one of the token's address, which a redemption creates, verified
  and without a password, only where sign-up is on and no account has it; and in the stores it leaves,
  the same link is refused at any later instant.
\<close>

theorem magic_link_sound:
  assumes "RedeemMagicLink s raw w = (Inr res, w')" and "els_inv (logins (db w))"
  shows "(\<exists>t. mem_GetEmailLoginTokenByHash (logins (db w)) (HashToken raw) = Inr t \<and> el_Kind t = EmailLoginLink \<and>
       el_UsedAt t = None \<and> clock w < el_ExpiresAt t \<and>
       mem_GetUserByEmail (users (db w')) (el_Email t) = Inr (er_User res) \<and>
       (if er_CreatedUser res
        then mem_GetUserByEmail (users (db w)) (el_Email t) = Inl ErrNotFound \<and> \<not> ec_DisableSignUp (es_cfg s) \<and>
          u_EmailVerified (er_User res) \<and> u_PasswordHash (er_User res) = ''''
        else users (db w') = users (db w))) \<and>
     (\<forall>now res'. fst (RedeemMagicLink s raw (w'\<lparr>clock := now\<rparr>)) \<noteq> Inr res')"
proof -
  obtain t w1 where look: "linkLookup raw w = (Inr t, w1)" and eat: "consume s t w1 = (Inr res, w')"
    using assms(1) unfolding RedeemMagicLink_def by auto
  note l = linkLookup_ok [OF look] and c = email_consume_ok [OF eat]
  have "els_byHash (logins (db w)) (HashToken raw) = Some (el_ID t)"
    using l assms(2) by (auto simp: mem_GetEmailLoginTokenByHash_def els_inv_def dest!: row_via_SomeD)
  then have "fst (RedeemMagicLink s raw (w'\<lparr>clock := now\<rparr>)) \<noteq> Inr res'" for now res'
    using c l by (intro used_up_refused [of _ "el_ID t"]) (auto simp: used_up_def)
  moreover have "mem_GetUserByEmail (users (db w')) (el_Email t) = Inr (er_User res)"
    using c by (auto dest!: created_user_found split: if_splits)
  ultimately show ?thesis using c l by (auto split: if_splits)
qed


section \<open>The budget of wrong guesses\<close>

text \<open>Guesses, each at its instant, and their answers.\<close>

fun guesses :: "email_service \<Rightarrow> string \<Rightarrow> (time \<times> string) list \<Rightarrow> world \<Rightarrow> (error + email_result) list \<times> world" where
  "guesses s email [] w = ([], w)"
| "guesses s email ((t, code) # gs) w =
     (case RedeemSignInCode s email code (w\<lparr>clock := t\<rparr>) of (r, w1) \<Rightarrow>
        (case guesses s email gs w1 of (rs, w2) \<Rightarrow> (r # rs, w2)))"

text \<open>The code waiting for an address is dead, or has counted at least \<open>k\<close> and fewer than the limit.\<close>

definition within_budget :: "email_service \<Rightarrow> string \<Rightarrow> int \<Rightarrow> world \<Rightarrow> bool" where
  "within_budget s email k w \<longleftrightarrow> faults w = [] \<and> els_inv (logins (db w)) \<and>
     (\<forall>t. mem_GetEmailLoginTokenByEmail (logins (db w)) email EmailLoginCode = Inr t \<longrightarrow>
        el_UsedAt t \<noteq> None \<or> el_ExpiresAt t \<le> clock w \<or> k \<le> el_Attempts t \<and> el_Attempts t < ec_MaxCodeAttempts (es_cfg s))"

lemma read_present_head_update:
  assumes "read_present rows is = t # ts" and "\<And>j x. j \<in> set is \<Longrightarrow> rows j = Some x \<Longrightarrow> f x = j"
  shows "\<exists>ts'. read_present (rows(f t \<mapsto> t')) is = t' # ts'"
  using assms
proof (induction "is")
  case (Cons i js)
  show ?case
  proof (cases "rows i")
    case None
    then have "read_present rows js = t # ts" using Cons.prems(1) by simp
    then obtain j where "j \<in> set js" "rows j = Some t" using set_read_present [of rows js] by auto
    then have "f t = j" using Cons.prems(2) by simp
    then have "f t \<noteq> i" using None \<open>rows j = Some t\<close> by auto
    then show ?thesis using Cons None by auto
  next
    case (Some x)
    then show ?thesis using Cons.prems by auto
  qed
qed simp

lemma newest_update:
  assumes "els_inv s" and "mem_GetEmailLoginTokenByEmail s e k = Inr t"
  shows "mem_GetEmailLoginTokenByEmail (s\<lparr>els_byID := (els_byID s)(el_ID t \<mapsto> t')\<rparr>) e k = Inr t'"
proof -
  obtain ts where "read_present (els_byID s) (rev (els_byEmail s (e, k))) = t # ts"
    using assms(2) by (auto simp: mem_defs split: list.splits)
  then show ?thesis
    using read_present_head_update [of "els_byID s" _ t ts el_ID t'] assms(1)
    by (fastforce simp: mem_defs els_inv_def split: list.splits)
qed

lemma newest_deleted:
  "mem_DeleteEmailLoginTokens e k s = (r, s') \<Longrightarrow> mem_GetEmailLoginTokenByEmail s' e k = Inl ErrNotFound"
  using els_delete_rows(2) [of e k s r s'] by (simp add: mem_GetEmailLoginTokenByEmail_def)

text \<open>Without faults, consuming a live token fails only for reasons of the account.\<close>

lemma consume_err:
  assumes "consume s t w = (Inl e, w')" and "faults w = []"
    and "els_byID (logins (db w)) (el_ID t) = Some t" and "el_UsedAt t = None"
  shows "e \<noteq> EmailLogin Email_ErrInvalidToken \<and> faults w' = [] \<and> clock w' = clock w \<and>
     (logins (db w') = logins (db w) \<or>
      (\<exists>x. logins (db w') = (logins (db w))\<lparr>els_byID := (els_byID (logins (db w)))(el_ID t \<mapsto> t\<lparr>el_UsedAt := Some x\<rparr>)\<rparr>))"
  using assms
  by (auto simp: consume_def signUp_def Let_def run_defs mem_defs row_via_def RunInTx_def not_found_invalid_def email_log_def
      split: option.splits if_splits prod.splits sum.splits)


abbreviation refused :: error where "refused \<equiv> EmailLogin Email_ErrInvalidToken"

text \<open>What a wrong guess, and what a failed redemption, leave of the code.\<close>

definition counted :: "int \<Rightarrow> email_login_token \<Rightarrow> email_login_store \<Rightarrow> email_login_store" where
  "counted limit x s =
     (let s' = s\<lparr>els_byID := (els_byID s)(el_ID x \<mapsto> x\<lparr>el_Attempts := el_Attempts x + 1\<rparr>)\<rparr>
      in if el_Attempts x + 1 \<ge> limit then snd (mem_DeleteEmailLoginTokens (el_Email x) EmailLoginCode s') else s')"

lemma counted_budget:
  assumes inv: "els_inv s" and get: "mem_GetEmailLoginTokenByEmail s e EmailLoginCode = Inr x"
  shows "els_inv (counted limit x s) \<and>
     (\<forall>t. mem_GetEmailLoginTokenByEmail (counted limit x s) e EmailLoginCode = Inr t \<longrightarrow>
        el_Attempts t = el_Attempts x + 1 \<and> el_Attempts t < limit)"
proof -
  let ?x = "x\<lparr>el_Attempts := el_Attempts x + 1\<rparr>"
  let ?s = "s\<lparr>els_byID := (els_byID s)(el_ID x \<mapsto> ?x)\<rparr>"
  note at = els_get_email_row [OF inv get]
  have inv': "els_inv ?s" using els_inv_increment [OF inv, of "el_ID x"] at by (simp add: mem_IncrementEmailLoginTokenAttempts_def)
  have new: "mem_GetEmailLoginTokenByEmail ?s e EmailLoginCode = Inr ?x" by (rule newest_update [OF inv get])
  obtain r s2 where d: "mem_DeleteEmailLoginTokens e EmailLoginCode ?s = (r, s2)" by (meson prod.exhaust)
  show ?thesis
    using newest_deleted [OF d] els_inv_delete [OF inv' d] new inv' d at(2) by (simp add: counted_def Let_def)
qed

lemma marked_budget:
  assumes inv: "els_inv s" and get: "mem_GetEmailLoginTokenByEmail s e k = Inr x"
  shows "els_inv (s\<lparr>els_byID := (els_byID s)(el_ID x \<mapsto> x\<lparr>el_UsedAt := Some u\<rparr>)\<rparr>) \<and>
     mem_GetEmailLoginTokenByEmail (s\<lparr>els_byID := (els_byID s)(el_ID x \<mapsto> x\<lparr>el_UsedAt := Some u\<rparr>)\<rparr>) e k = Inr (x\<lparr>el_UsedAt := Some u\<rparr>)"
  using els_inv_row [OF inv els_get_email_row(1) [OF inv get]] newest_update [OF inv get] by simp

text \<open>A guess that is not the right code.\<close>

lemma guess_step:
  assumes j: "within_budget s (NormalizeEmail email) k w" and "clock w \<le> t" and lim: "only_refuses (ec_RateLimiter (es_cfg s))"
    and run: "RedeemSignInCode s email code (w\<lparr>clock := t\<rparr>) = (Inl e, w')"
  shows "within_budget s (NormalizeEmail email) (k + (if e = refused then 1 else 0)) w' \<and> clock w' = t"
proof -
  let ?e = "NormalizeEmail email" and ?c = "es_cfg s"
  let ?w = "w\<lparr>clock := t, limits := limits w @ [(t, ''email-login:redeem:'' @ ?e)]\<rparr>"
  have f: "faults w = []" and inv: "els_inv (logins (db w))"
    and row: "\<And>x. mem_GetEmailLoginTokenByEmail (logins (db w)) ?e EmailLoginCode = Inr x \<Longrightarrow>
        el_UsedAt x \<noteq> None \<or> el_ExpiresAt x \<le> clock w \<or> k \<le> el_Attempts x \<and> el_Attempts x < ec_MaxCodeAttempts ?c"
    using j by (auto simp: within_budget_def)
  show ?thesis
  proof (cases "ec_RateLimiter ?c (limits w) t (''email-login:redeem:'' @ ?e)")
    case (Some x)
    then have "e = x" "w' = ?w" using run by (auto simp: RedeemSignInCode_def Let_def Allow_def seq_def on_def raise_def)
    moreover have "x \<noteq> refused" using Some lim by (force simp: only_refuses_def)
    ultimately show ?thesis using j \<open>clock w \<le> t\<close> by (auto simp: within_budget_def)
  next
    case None
    then have go: "on (GetEmailLoginTokenByEmail ?e EmailLoginCode) not_found_invalid (\<lambda>x. with_now (\<lambda>now.
      if \<not> usable now x then raise refused
      else if el_TokenHash x \<noteq> codeHash ?e code
      then on (IncrementEmailLoginTokenAttempts (el_ID x)) not_found_invalid (\<lambda>attempts.
             if attempts \<ge> ec_MaxCodeAttempts ?c
             then seq (DeleteEmailLoginTokens ?e EmailLoginCode) (\<lambda>_.
                  seq (email_log EventEmailLoginExhausted '''' ?e (kind_string EmailLoginCode)) (\<lambda>_.
                  raise refused))
             else raise refused)
      else consume s x)) ?w = (Inl e, w')"
      using run by (simp add: RedeemSignInCode_def Let_def Allow_def seq_def on_def)
    show ?thesis
    proof (cases "mem_GetEmailLoginTokenByEmail (logins (db w)) ?e EmailLoginCode")
      case (Inl e1)
      then have "w' = ?w" using go f by (auto simp: on_def GetEmailLoginTokenByEmail_def not_found_invalid_def raise_def)
      then show ?thesis using f inv Inl by (simp add: within_budget_def)
    next
      case (Inr x)
      note at = els_get_email_row(1) [OF inv Inr]
      show ?thesis
      proof (cases "usable t x")
        case False
        then have "w' = ?w" using go f Inr by (auto simp: on_def GetEmailLoginTokenByEmail_def raise_def)
        then show ?thesis using f inv Inr False by (auto simp: within_budget_def usable_def Before_def)
      next
        case live: True
        then have alive: "k \<le> el_Attempts x" "el_Attempts x < ec_MaxCodeAttempts ?c" "el_UsedAt x = None"
          using row [OF Inr] \<open>clock w \<le> t\<close> by (auto simp: usable_def Before_def)
        show ?thesis
        proof (cases "el_TokenHash x = codeHash ?e code")
          case False
          have res: "e = refused" "faults w' = []" "clock w' = t"
            "logins (db w') = counted (ec_MaxCodeAttempts ?c) x (logins (db w))"
            using go f Inr live False at els_get_email_row(2) [OF inv Inr]
            by (auto simp: run_defs mem_IncrementEmailLoginTokenAttempts_def mem_DeleteEmailLoginTokens_def email_log_def
                counted_def Let_def split: prod.splits if_splits)
          then show ?thesis
            using counted_budget [OF inv Inr, of "ec_MaxCodeAttempts ?c"] alive by (auto simp: within_budget_def)
        next
          case True
          then have "consume s x ?w = (Inl e, w')" using go f Inr live by (simp add: on_def GetEmailLoginTokenByEmail_def)
          then show ?thesis
            using consume_err [of s x ?w e w'] f at alive inv Inr marked_budget [OF inv Inr]
            by (auto simp: within_budget_def)
        qed
      qed
    qed
  qed
qed


lemma guesses_within:
  assumes "within_budget s (NormalizeEmail email) k w" and "only_refuses (ec_RateLimiter (es_cfg s))"
    and "guesses s email gs w = (rs, w')" and "sorted (map fst gs @ [until])" and "\<forall>t \<in> set (map fst gs). clock w \<le> t" and "clock w \<le> until"
    and "\<forall>r \<in> set rs. \<exists>e. r = Inl e"
  shows "within_budget s (NormalizeEmail email) (k + int (count_list rs (Inl refused))) w' \<and> clock w' \<le> until"
  using assms(1,3-)
proof (induction gs arbitrary: k w rs)
  case Nil
  then show ?case by simp
next
  case (Cons g gs)
  obtain t code where g: "g = (t, code)" by (cases g)
  obtain r w1 where r: "RedeemSignInCode s email code (w\<lparr>clock := t\<rparr>) = (r, w1)" by (meson prod.exhaust)
  obtain rs' w2 where rs': "guesses s email gs w1 = (rs', w2)" by (meson prod.exhaust)
  have rs: "rs = r # rs'" "w2 = w'" using Cons.prems(2) g r rs' by auto
  then obtain e where e: "r = Inl e" using Cons.prems(6) by auto
  have "clock w \<le> t" using Cons.prems(4) g by simp
  note step = guess_step [OF Cons.prems(1) this assms(2) r [unfolded e]]
  have "within_budget s (NormalizeEmail email) (k + (if e = refused then 1 else 0) + int (count_list rs' (Inl refused))) w' \<and> clock w' \<le> until"
    using step rs rs' Cons.prems(3,6) g by (intro Cons.IH [of _ w1]) auto
  then show ?case using rs e by (auto simp: ac_simps split: if_splits)
qed

lemma code_redeemed_within:
  assumes "within_budget s (NormalizeEmail email) k w" and "clock w \<le> t" and "RedeemSignInCode s email code (w\<lparr>clock := t\<rparr>) = (Inr res, w')"
  shows "k < ec_MaxCodeAttempts (es_cfg s)"
  using assms unfolding RedeemSignInCode_def Let_def
  by (force simp: port_defs within_budget_def usable_def Before_def split: if_splits)

text \<open>
  C13. A sign-in code survives fewer wrong guesses than the limit: when guesses for an address, at instants
  that do not go back, are all refused and then one is accepted, the answers "invalid" among them are fewer
  than \<open>MaxCodeAttempts\<close>, if no store failed in between and the limiter only refuses. Under the limit of five,
  guessing is worth at most five tries of a code.
\<close>

theorem code_guess_budget:
  assumes "guesses s email gs w = (rs, w1)" and "\<forall>r \<in> set rs. \<exists>e. r = Inl e"
    and "RedeemSignInCode s email code (w1\<lparr>clock := now\<rparr>) = (Inr res, w2)"
    and "sorted (clock w # map fst gs @ [now])" and "faults w = []" and "els_inv (logins (db w))"
    and "mem_GetEmailLoginTokenByEmail (logins (db w)) (NormalizeEmail email) EmailLoginCode = Inr t" and "el_Attempts t = 0"
    and "0 < ec_MaxCodeAttempts (es_cfg s)" and "only_refuses (ec_RateLimiter (es_cfg s))"
  shows "int (count_list rs (Inl (EmailLogin Email_ErrInvalidToken))) < ec_MaxCodeAttempts (es_cfg s)"
proof -
  have "within_budget s (NormalizeEmail email) 0 w" using assms by (simp add: within_budget_def)
  then have "within_budget s (NormalizeEmail email) (0 + int (count_list rs (Inl refused))) w1 \<and> clock w1 \<le> now"
    using assms by (intro guesses_within [of s email 0 w gs rs w1 now]) auto
  then show ?thesis using code_redeemed_within [OF _ _ assms(3)] by simp
qed


lemma email_norm: "NormalizeEmail ''a@x'' = ''a@x''" "NormalizeEmail ''b@x'' = ''b@x''"
  by code_simp+

lemma Sum256_block:
  "length (sha_pad bs) = 64 \<Longrightarrow> map word_of_bytes (chunks 4 (sha_pad bs)) = b \<Longrightarrow> sha_compress sha_init b = h \<Longrightarrow>
   Sum256 bs = concat (map bytes_of_word h)"
  by (simp add: Sum256_one)

lemma demo_compress:
  "sha_compress sha_init [0x61407800, 0x31800000, 0, 0, 0, 0, 0, 0, 0, 0, 0, 0, 0, 0, 0, 0x28] =
    [0xbbe848bd, 0x55c2d0a1, 0xf6bf9d, 0x10b6869c, 0x1b7525c1, 0x7329cb45, 0x3b29adf3, 0x8b2b5af3]"
  "sha_compress sha_init [0x61407800, 0x30800000, 0, 0, 0, 0, 0, 0, 0, 0, 0, 0, 0, 0, 0, 0x28] =
    [0xd0380ad1, 0x9efca50c, 0x60afc769, 0x75c1454c, 0x365ae00a, 0xda046e95, 0x990927f7, 0x2d56c4de]"
  by code_simp+

lemma demo_codes_differ: "codeHash ''a@x'' ''1'' \<noteq> codeHash ''a@x'' ''0''"
proof -
  have b: "map word_of_bytes (chunks 4 (sha_pad (bytes_of (''a@x'' @ CHR 0x00 # ''1'')))) = [0x61407800, 0x31800000, 0, 0, 0, 0, 0, 0, 0, 0, 0, 0, 0, 0, 0, 0x28]"
    "map word_of_bytes (chunks 4 (sha_pad (bytes_of (''a@x'' @ CHR 0x00 # ''0'')))) = [0x61407800, 0x30800000, 0, 0, 0, 0, 0, 0, 0, 0, 0, 0, 0, 0, 0, 0x28]"
    "length (sha_pad (bytes_of (''a@x'' @ CHR 0x00 # ''1''))) = 64" "length (sha_pad (bytes_of (''a@x'' @ CHR 0x00 # ''0''))) = 64"
    by (simp_all add: sha_pad_def bytes_of_def byte_of_def chunks_Cons word_of_bytes_def upt_rec replicate_numeral)
  show ?thesis unfolding codeHash_def HashToken_def
    by (simp add: Sum256_block [OF b(3,1) demo_compress(1)] Sum256_block [OF b(4,2) demo_compress(2)]
        bytes_of_word_def hex_encode_def hex_byte_def hex_digits_def del: append_Cons)
qed

definition demo_email_service :: email_service where
  "demo_email_service = \<lparr>es_Tx = True, es_cfg = ec_withDefaults \<lparr>ec_LinkTTL = 0, ec_CodeTTL = 0, ec_CodeLength = 0,
     ec_MaxCodeAttempts = 0, ec_DisableSignUp = False, ec_RateLimiter = Noop\<rparr>\<rparr>"

lemma demo_email_service:
  "demo_email_service = \<lparr>es_Tx = True, es_cfg = \<lparr>ec_LinkTTL = 900000000000, ec_CodeTTL = 600000000000, ec_CodeLength = 6,
     ec_MaxCodeAttempts = 5, ec_DisableSignUp = False, ec_RateLimiter = Noop\<rparr>\<rparr>"
  by (simp add: demo_email_service_def ec_withDefaults_def Let_def duration_defs)

definition demo_code :: email_login_token where
  "demo_code = \<lparr>el_ID = ''c1'', el_Email = ''a@x'', el_Kind = EmailLoginCode, el_TokenHash = codeHash ''a@x'' ''1'', el_Attempts = 0,
     el_ExpiresAt = 100, el_UsedAt = None, el_CreatedAt = 0\<rparr>"

definition demo_link :: email_login_token where
  "demo_link = \<lparr>el_ID = ''l1'', el_Email = ''b@x'', el_Kind = EmailLoginLink, el_TokenHash = HashToken ''link'', el_Attempts = 0,
     el_ExpiresAt = 100, el_UsedAt = None, el_CreatedAt = 0\<rparr>"

definition demo_logins :: "email_login_token \<Rightarrow> world" where
  "demo_logins t = demo_world\<lparr>db := (db demo_world)\<lparr>logins := snd (mem_CreateEmailLoginToken t NewEmailLoginStore)\<rparr>\<rparr>"

lemma demo_logins_inv: "els_inv (logins (db (demo_logins t)))"
  using els_inv_create [OF els_inv_new, of t] by (simp add: demo_logins_def NewEmailLoginStore_def mem_CreateEmailLoginToken_def Let_def)

lemmas demo_email_defs = demo_email_service demo_logins_def demo_code_def demo_link_def row_via_def Let_def mem_defs append_id_def
  no_ids_def demo_defs run_defs Allow_def Noop_def usable_def Before_def email_log_def not_found_invalid_def
  RedeemSignInCode_def RedeemMagicLink_def linkLookup_def consume_def signUp_def RunInTx_def email_norm

theorem code_guess_budget_witness:
  "\<exists>w1 res w2. guesses demo_email_service ''a@x'' [(5, ''0'')] (demo_logins demo_code) = ([Inl (EmailLogin Email_ErrInvalidToken)], w1) \<and>
     RedeemSignInCode demo_email_service ''a@x'' ''1'' (w1\<lparr>clock := 6\<rparr>) = (Inr res, w2) \<and>
     count_list [Inl (EmailLogin Email_ErrInvalidToken) :: error + email_result] (Inl (EmailLogin Email_ErrInvalidToken)) < 5"
proof -
  obtain w1 res w2 where g: "guesses demo_email_service ''a@x'' [(5, ''0'')] (demo_logins demo_code) = ([Inl (EmailLogin Email_ErrInvalidToken)], w1)"
    and r: "RedeemSignInCode demo_email_service ''a@x'' ''1'' (w1\<lparr>clock := 6\<rparr>) = (Inr res, w2)"
    using demo_codes_differ by (simp add: demo_email_defs)
  show ?thesis
    using code_guess_budget [OF g _ r, of demo_code] g r demo_logins_inv
    by (simp add: demo_email_service demo_logins_def)
qed


theorem magic_link_sound_witness:
  "\<exists>res w'. RedeemMagicLink demo_email_service ''link'' (demo_logins demo_link) = (Inr res, w') \<and> er_CreatedUser res \<and>
     (\<forall>now res'. fst (RedeemMagicLink demo_email_service ''link'' (w'\<lparr>clock := now\<rparr>)) \<noteq> Inr res')"
proof -
  obtain res w' where run: "RedeemMagicLink demo_email_service ''link'' (demo_logins demo_link) = (Inr res, w')" "er_CreatedUser res"
    by (simp add: demo_email_defs)
  then show ?thesis using magic_link_sound [OF run(1) demo_logins_inv] by blast
qed

section \<open>Requests\<close>

lemma issue_ok:
  assumes "issue email kind hash ttl w = (Inr (), w')"
  obtains t l where "mem_DeleteEmailLoginTokens email kind (logins (db w)) = (Inr (), l)"
    and "mem_CreateEmailLoginToken t l = (Inr (), logins (db w'))"
    and "el_TokenHash t = hash \<and> el_Email t = email \<and> el_Kind t = kind \<and> el_UsedAt t = None \<and> el_ExpiresAt t = clock w + ttl"
    and "users (db w') = users (db w) \<and> outbox w' = outbox w \<and> clock w' = clock w"
proof -
  have "\<exists>t l. mem_DeleteEmailLoginTokens email kind (logins (db w)) = (Inr (), l) \<and>
    mem_CreateEmailLoginToken t l = (Inr (), logins (db w')) \<and> el_TokenHash t = hash \<and> el_Email t = email \<and> el_Kind t = kind \<and>
    el_UsedAt t = None \<and> el_ExpiresAt t = clock w + ttl \<and> users (db w') = users (db w) \<and> outbox w' = outbox w \<and> clock w' = clock w"
    using assms unfolding issue_def by (auto simp: port_defs) ((rule exI, rule conjI, assumption, simp)+)
  then show thesis using that by blast
qed

lemma request_link_ok:
  assumes "RequestMagicLink s email w = (Inr (), w')"
  shows "\<exists>raw t l. raw = b64url_encode (draw 32 w) \<and> outbox w' = outbox w @ [SendMagicLink (NormalizeEmail email) raw] \<and> el_TokenHash t = HashToken raw \<and>
      el_Email t = NormalizeEmail email \<and> el_Kind t = EmailLoginLink \<and> el_UsedAt t = None \<and>
      el_ExpiresAt t = clock w + ec_LinkTTL (es_cfg s) \<and> users (db w') = users (db w) \<and>
      mem_DeleteEmailLoginTokens (NormalizeEmail email) EmailLoginLink (logins (db w)) = (Inr (), l) \<and>
      mem_CreateEmailLoginToken t l = (Inr (), logins (db w'))"
  using assms unfolding RequestMagicLink_def Let_def
  by (auto elim!: issue_ok) blast

lemma created_login:
  "mem_CreateEmailLoginToken t l = (Inr (), l') \<Longrightarrow>
   mem_GetEmailLoginTokenByHash l' (el_TokenHash t) = Inr t \<and> els_byID l' (el_ID t) = Some t"
  by (auto simp: mem_CreateEmailLoginToken_def mem_GetEmailLoginTokenByHash_def row_via_def Let_def)

lemma link_redeemed:
  assumes "mem_GetEmailLoginTokenByHash (logins (db w)) (HashToken raw) = Inr t" and "el_Kind t = EmailLoginLink" and "usable (clock w) t"
    and "els_byID (logins (db w)) (el_ID t) = Some t" and "us_inv (users (db w))" and "faults w = []"
    and "\<not> ec_DisableSignUp (es_cfg s) \<or> us_byEmail (users (db w)) (el_Email t) \<noteq> None"
  shows "\<exists>res w'. RedeemMagicLink s raw w = (Inr res, w') \<and> mem_GetUserByEmail (users (db w')) (el_Email t) = Inr (er_User res) \<and>
     (er_CreatedUser res \<longleftrightarrow> us_byEmail (users (db w)) (el_Email t) = None)"
proof (cases "us_byEmail (users (db w)) (el_Email t)")
  case None
  then show ?thesis using assms
    by (auto simp: RedeemMagicLink_def linkLookup_def consume_def signUp_def Let_def run_defs mem_GetUserByEmail_def row_via_def
        mem_MarkEmailLoginTokenUsed_def mem_CreateUser_def usable_def RunInTx_def email_log_def)
next
  case (Some i)
  then obtain u where "us_byID (users (db w)) i = Some u" using assms(5) by (fastforce simp: us_inv_def points_into_def not_None_eq)
  then show ?thesis using assms Some
    by (auto simp: RedeemMagicLink_def linkLookup_def consume_def Let_def run_defs mem_GetUserByEmail_def row_via_def
        mem_MarkEmailLoginTokenUsed_def usable_def email_log_def)
qed

text \<open>
  The link sent works: after a request that succeeded, the message to the normalised address carries a
  token which, before the link expires, signs in the account of that address, and creates it when there is
  none and sign-up is on.
\<close>

theorem magic_link_roundtrip:
  assumes "RequestMagicLink s email w = (Inr (), w')" and "faults w' = []" and "us_inv (users (db w))"
    and "now < clock w + ec_LinkTTL (es_cfg s)"
    and "\<not> ec_DisableSignUp (es_cfg s) \<or> us_byEmail (users (db w)) (NormalizeEmail email) \<noteq> None"
  shows "\<exists>raw res w2. outbox w' = outbox w @ [SendMagicLink (NormalizeEmail email) raw] \<and>
     RedeemMagicLink s raw (w'\<lparr>clock := now\<rparr>) = (Inr res, w2) \<and>
     mem_GetUserByEmail (users (db w2)) (NormalizeEmail email) = Inr (er_User res) \<and>
     (er_CreatedUser res \<longleftrightarrow> us_byEmail (users (db w)) (NormalizeEmail email) = None)"
proof -
  obtain raw t l where r: "outbox w' = outbox w @ [SendMagicLink (NormalizeEmail email) raw]" "el_TokenHash t = HashToken raw"
    "el_Email t = NormalizeEmail email" "el_Kind t = EmailLoginLink" "el_UsedAt t = None"
    "el_ExpiresAt t = clock w + ec_LinkTTL (es_cfg s)" "users (db w') = users (db w)"
    "mem_CreateEmailLoginToken t l = (Inr (), logins (db w'))"
    using request_link_ok [OF assms(1)] by blast
  then show ?thesis
    using created_login [OF r(8)] link_redeemed [of "w'\<lparr>clock := now\<rparr>" raw t s] r assms by (auto simp: usable_def Before_def)
qed


theorem magic_link_roundtrip_witness:
  "\<exists>w' raw res w2. RequestMagicLink demo_email_service ''b@x'' demo_world = (Inr (), w') \<and>
     outbox w' = [SendMagicLink ''b@x'' raw] \<and> RedeemMagicLink demo_email_service raw (w'\<lparr>clock := 7\<rparr>) = (Inr res, w2) \<and> er_CreatedUser res"
proof -
  obtain w' where run: "RequestMagicLink demo_email_service ''b@x'' demo_world = (Inr (), w')" "faults w' = []"
    by (simp add: RequestMagicLink_def issue_def demo_email_defs)
  have "us_inv (users (db demo_world))" and "us_byEmail (users (db demo_world)) ''b@x'' = None" and "outbox demo_world = []"
    by (simp_all add: demo_email_defs us_inv_def points_into_def)
  moreover have "(7 :: time) < clock demo_world + ec_LinkTTL (es_cfg demo_email_service)" by (simp add: demo_email_defs)
  moreover have "\<not> ec_DisableSignUp (es_cfg demo_email_service) \<or> us_byEmail (users (db demo_world)) (NormalizeEmail ''b@x'') \<noteq> None"
    by (simp add: demo_email_service)
  ultimately show ?thesis using magic_link_roundtrip [OF run, of 7] run(1) by (auto simp: email_norm)
qed

lemma created_login_index:
  "mem_CreateEmailLoginToken t l = (x, l') \<Longrightarrow> els_byHash l' = (els_byHash l)(el_TokenHash t \<mapsto> el_ID t)"
  by (auto simp: mem_CreateEmailLoginToken_def Let_def)

lemma els_delete_index:
  "els_inv s \<Longrightarrow> mem_DeleteEmailLoginTokens e k s = (r, s') \<Longrightarrow> els_byHash s' h = Some i \<Longrightarrow> els_byHash s h = Some i"
  by (auto simp: els_inv_def mem_DeleteEmailLoginTokens_def dest!: delete_each_index split: prod.splits)

text \<open>
  A new link voids the older ones: after a request for an address, no link the address had before is
  redeemed at any instant, unless its hash is the new link's.
\<close>

theorem new_link_voids_older:
  assumes "RequestMagicLink s email w = (Inr (), w')" and "els_inv (logins (db w))"
    and "outbox w' = outbox w @ [SendMagicLink (NormalizeEmail email) raw]"
    and "mem_GetEmailLoginTokenByHash (logins (db w)) (HashToken old) = Inr t" and "el_Email t = NormalizeEmail email"
    and "el_Kind t = EmailLoginLink" and "HashToken old \<noteq> HashToken raw"
  shows "fst (RedeemMagicLink s old (w'\<lparr>clock := now\<rparr>)) \<noteq> Inr res"
proof
  assume "fst (RedeemMagicLink s old (w'\<lparr>clock := now\<rparr>)) = Inr res"
  then obtain w2 where "RedeemMagicLink s old (w'\<lparr>clock := now\<rparr>) = (Inr res, w2)" by (metis prod.collapse)
  then obtain x w3 where "linkLookup old (w'\<lparr>clock := now\<rparr>) = (Inr x, w3)" unfolding RedeemMagicLink_def by auto
  note got = linkLookup_ok [OF this, THEN conjunct1]
  obtain t' l where new: "el_TokenHash t' = HashToken raw" "mem_CreateEmailLoginToken t' l = (Inr (), logins (db w'))"
    and del: "mem_DeleteEmailLoginTokens (NormalizeEmail email) EmailLoginLink (logins (db w)) = (Inr (), l)"
    using request_link_ok [OF assms(1)] assms(3) by auto
  have none: "els_byHash l (HashToken old) = None"
  proof (rule ccontr)
    assume "els_byHash l (HashToken old) \<noteq> None"
    then obtain i where i: "els_byHash l (HashToken old) = Some i" by (cases "els_byHash l (HashToken old)") auto
    then obtain y where y: "els_byID l i = Some y"
      using els_inv_delete [OF assms(2) del] by (fastforce simp: els_inv_def hash_indexed_def)
    then have "els_byID (logins (db w)) i = Some y" by (simp add: els_delete_rows(1) [OF del] split: if_splits)
    then have "mem_GetEmailLoginTokenByHash (logins (db w)) (HashToken old) = Inr y"
      using els_delete_index [OF assms(2) del i] by (simp add: mem_GetEmailLoginTokenByHash_def row_via_def)
    moreover have "mem_GetEmailLoginTokenByHash l (HashToken old) = Inr y"
      using i y by (simp add: mem_GetEmailLoginTokenByHash_def row_via_def)
    ultimately show False using els_delete_all [OF assms(2) del] assms(4-6) by fastforce
  qed
  have "els_byHash (logins (db w')) (HashToken old) = None"
    using new(1) none assms(7) created_login_index [OF new(2)] by simp
  then show False using got by (simp add: mem_GetEmailLoginTokenByHash_def row_via_def)
qed

theorem new_link_voids_older_witness:
  "\<exists>w' raw. RequestMagicLink demo_email_service ''b@x'' (demo_logins (demo_link\<lparr>el_TokenHash := HashToken ''abc''\<rparr>)) = (Inr (), w') \<and>
     outbox w' = [SendMagicLink ''b@x'' raw] \<and> (\<forall>res. fst (RedeemMagicLink demo_email_service ''abc'' (w'\<lparr>clock := 1\<rparr>)) \<noteq> Inr res)"
proof -
  let ?t = "demo_link\<lparr>el_TokenHash := HashToken ''abc''\<rparr>" and ?raw = "''AAECAwQFBgcICQoLDA0ODxAREhMUFRYXGBkaGxwdHh8''"
  have first: "b64url_encode (draw 32 (demo_logins ?t)) = ?raw" using first_token by (simp add: draw_def demo_logins_def demo_defs)
  obtain w' where run: "RequestMagicLink demo_email_service ''b@x'' (demo_logins ?t) = (Inr (), w')"
    by (simp add: RequestMagicLink_def issue_def delete_each.simps demo_email_defs)
  have box: "outbox w' = outbox (demo_logins ?t) @ [SendMagicLink (NormalizeEmail ''b@x'') ?raw]"
    using request_link_ok [OF run] first by auto
  have get: "mem_GetEmailLoginTokenByHash (logins (db (demo_logins ?t))) (HashToken ''abc'') = Inr ?t"
    and t: "el_Email ?t = NormalizeEmail ''b@x''" "el_Kind ?t = EmailLoginLink"
    by (simp_all add: demo_logins_def demo_link_def mem_defs row_via_def Let_def email_norm)
  have "HashToken ''abc'' \<noteq> HashToken ?raw" by (simp add: HashToken_abc HashToken_first)
  then have "fst (RedeemMagicLink demo_email_service ''abc'' (w'\<lparr>clock := 1\<rparr>)) \<noteq> Inr res" for res
    using new_link_voids_older [OF run demo_logins_inv box get t] by simp
  moreover have "outbox (demo_logins ?t) = []" by (simp add: demo_logins_def demo_defs)
  ultimately show ?thesis using run box by (auto simp: email_norm)
qed

text \<open>Programs that do not look at the accounts: changing the accounts changes nothing else.\<close>

definition with_users :: "user_store \<Rightarrow> world \<Rightarrow> world" where
  "with_users us w = w\<lparr>db := (db w)\<lparr>users := us\<rparr>\<rparr>"

definition blind :: "'a prog \<Rightarrow> bool" where
  "blind m \<longleftrightarrow> (\<forall>us w. m (with_users us w) = map_prod id (with_users us) (m w))"

named_theorems blind_rules

lemma with_users_frame [simp]:
  "clock (with_users us w) = clock w" "faults (with_users us w) = faults w" "limits (with_users us w) = limits w"
  "logins (db (with_users us w)) = logins (db w)" "outbox (with_users us w) = outbox w" "trail (with_users us w) = trail w"
  "rsrc (with_users us w) = rsrc w" "rpos (with_users us w) = rpos w"
  by (simp_all add: with_users_def)

lemma with_users_faults: "(with_users us w)\<lparr>faults := fs\<rparr> = with_users us (w\<lparr>faults := fs\<rparr>)"
  by (simp add: with_users_def)

lemma blind_basic [blind_rules]:
  "blind (ret x)" "blind (raise e)" "blind (log ev)" "blind (Allow l k)"
  by (auto simp: blind_def ret_def raise_def log_def Allow_def with_users_def)

lemma blind_port: "blind f \<Longrightarrow> blind (port f)"
  by (auto simp: blind_def port_def with_users_faults split: list.splits option.splits)

lemma blind_on [blind_rules]: "blind m \<Longrightarrow> (\<And>e. blind (h e)) \<Longrightarrow> (\<And>x. blind (k x)) \<Longrightarrow> blind (on m h k)"
  by (auto simp: blind_def on_def split: prod.splits sum.splits)

lemma blind_seq [blind_rules]: "blind m \<Longrightarrow> (\<And>x. blind (k x)) \<Longrightarrow> blind (seq m k)"
  unfolding seq_def by (intro blind_rules)

lemma blind_with_now [blind_rules]: "(\<And>t. blind (k t)) \<Longrightarrow> blind (with_now k)"
  by (auto simp: blind_def with_now_def)

lemma blind_send [blind_rules]: "blind (send m)"
  unfolding send_def by (rule blind_port) (simp add: blind_def with_users_def)

lemma blind_rand [blind_rules]: "blind (rand_read n)"
  unfolding rand_read_def by (rule blind_port) (simp add: blind_def with_users_def)

lemma blind_logins [blind_rules]: "blind (on_logins f)"
  unfolding on_logins_def wr_def by (rule blind_port) (simp add: blind_def with_users_def)

lemma blind_token [blind_rules]: "blind GenerateOpaqueToken" "blind NewID"
  unfolding GenerateOpaqueToken_def NewID_def Let_def by (intro blind_rules)+

lemma blind_numeric_loop: "blind (numeric_loop fuel n out)"
proof (induction fuel arbitrary: out)
  case 0
  then show ?case by (simp add: blind_basic)
next
  case (Suc fuel)
  then show ?case by (auto intro!: blind_rules)
qed

lemma blind_issue [blind_rules]: "blind (issue email kind hash ttl)"
  unfolding issue_def DeleteEmailLoginTokens_def CreateEmailLoginToken_def by (intro blind_rules)

lemma blind_email_log [blind_rules]: "blind (email_log typ a e k)"
  unfolding email_log_def by (rule blind_rules)

lemma blind_RequestMagicLink: "blind (RequestMagicLink s email)"
  unfolding RequestMagicLink_def Let_def split_beta by (intro blind_rules)

lemma blind_RequestSignInCode: "blind (RequestSignInCode fuel s email)"
  unfolding RequestSignInCode_def Let_def GenerateNumericCode_def by (auto intro!: blind_rules blind_numeric_loop)

text \<open>
  A request says nothing about accounts: whatever users exist, asking for a link or a code gives the same
  answer, the same message, the same audit record, the same limiter charges and takes the same draws.
\<close>

theorem request_hides_accounts:
  "RequestMagicLink s email (with_users us w) = map_prod id (with_users us) (RequestMagicLink s email w) \<and>
   RequestSignInCode fuel s email (with_users us w) = map_prod id (with_users us) (RequestSignInCode fuel s email w)"
  using blind_RequestMagicLink [of s email] blind_RequestSignInCode [of fuel s email] by (simp add: blind_def)

end
