(* ===== verification/PinService.thy ===== *)
theory PinService
  imports UserLogin
begin

text \<open>
  Package \<open>pin\<close>: signing a device in with a short PIN (\<open>pin/service.go\<close>, \<open>pin/pin.go\<close>). The host's
  \<open>LoginResolver\<close> is a program; its hooks are functions of their arguments.
\<close>

section \<open>Service (pin/service.go)\<close>

type_synonym resolver = "string \<Rightarrow> string prog"

definition ByEmail :: resolver where
  "ByEmail login = seq (GetUserByEmail (NormalizeEmail login)) (\<lambda>u. ret (u_ID u))"

record pin_config =
  nc_PINLength :: int
  nc_MaxFailedAttempts :: int
  nc_LockDuration :: duration
  nc_DeviceTokenTTL :: duration
  nc_LastUsedInterval :: duration
  nc_Hasher :: hasher
  nc_RateLimiter :: limiter
  nc_BeforeBind :: "(user \<Rightarrow> error option) option"
  nc_AfterSignIn :: "(user \<times> bound_device \<Rightarrow> error option) option"

definition nc_withDefaults :: "pin_config \<Rightarrow> pin_config" where
  "nc_withDefaults c =
     (let c = (if nc_PINLength c \<le> 0 then c\<lparr>nc_PINLength := 6\<rparr> else c);
          c = (if nc_MaxFailedAttempts c \<le> 0 then c\<lparr>nc_MaxFailedAttempts := 5\<rparr> else c);
          c = (if nc_LockDuration c \<le> 0 then c\<lparr>nc_LockDuration := 15 * minute\<rparr> else c)
      in if nc_LastUsedInterval c = 0 then c\<lparr>nc_LastUsedInterval := minute\<rparr> else c)"

text \<open>\<open>nv_dummyDone\<close>: \<open>dummyOnce\<close> has run; the hash itself is only ever verified for the time it takes.\<close>

record pin_service =
  nv_Tx :: bool
  nv_resolver :: resolver
  nv_dummyDone :: bool
  nv_cfg :: pin_config

section \<open>Setting a PIN (pin/pin.go)\<close>

record sign_in_result =
  si_Token :: string
  si_Device :: bound_device
  si_User :: user

definition is_digit :: "char \<Rightarrow> bool" where "is_digit c \<longleftrightarrow> c \<in> set ''0123456789''"

definition wellFormed :: "pin_service \<Rightarrow> string \<Rightarrow> bool" where
  "wellFormed s pin \<longleftrightarrow> int (length pin) = nc_PINLength (nv_cfg s) \<and> list_all is_digit pin"

definition userKey :: "string \<Rightarrow> string" where "userKey userID = ''pin:user:'' @ userID"

definition loginKey :: "string \<Rightarrow> string" where "loginKey normalized = ''pin:login:'' @ normalized"

definition storePIN :: "string \<Rightarrow> string \<Rightarrow> unit prog" where
  "storePIN userID hash =
     seq (GetUserByID userID) (\<lambda>_. with_now (\<lambda>now.
     seq (SetPINCredential \<lparr>pc_UserID = userID, pc_PINHash = hash, pc_CreatedAt = now, pc_UpdatedAt = now\<rparr>) (\<lambda>_.
     ClearFailedLoginAttempts (userKey userID))))"

definition SetPIN :: "pin_service \<Rightarrow> string \<Rightarrow> string \<Rightarrow> string \<Rightarrow> unit prog" where
  "SetPIN s operatorID userID pin =
     (if \<not> wellFormed s pin then raise (Pin Pin_ErrInvalidPIN)
      else seq (Hash (nc_Hasher (nv_cfg s)) pin) (\<lambda>hash.
           seq (storePIN userID hash) (\<lambda>_.
           log ((event_of EventPINSet ResultSuccess)\<lparr>ev_ActorID := operatorID, ev_TargetID := userID\<rparr>))))"

definition ImportPINHash :: "string \<Rightarrow> string \<Rightarrow> string \<Rightarrow> unit prog" where
  "ImportPINHash operatorID userID hash =
     (if \<not> HasPrefix hash ''$2'' \<and> \<not> HasPrefix hash ''$argon2id$'' then raise (Pin Pin_ErrInvalidImport)
      else seq (storePIN userID hash) (\<lambda>_.
           log ((event_of EventPINCredentialImport ResultSuccess)\<lparr>ev_ActorID := operatorID, ev_TargetID := userID\<rparr>)))"

definition ClearPIN :: "string \<Rightarrow> string \<Rightarrow> unit prog" where
  "ClearPIN operatorID userID =
     seq (DeletePINCredential userID) (\<lambda>_.
     log ((event_of EventPINCleared ResultSuccess)\<lparr>ev_ActorID := operatorID, ev_TargetID := userID\<rparr>))"

section \<open>Signing in\<close>

definition resolve :: "pin_service \<Rightarrow> string \<Rightarrow> string prog" where
  "resolve s login =
     (if login = '''' then ret ''''
      else on (nv_resolver s login) (\<lambda>e. if e = ErrNotFound then ret '''' else raise e) ret)"

text \<open>
  An attempt is charged in three calls of the store, between which other attempts may come: look, record,
  count again.
\<close>

definition chargeLook :: "pin_service \<Rightarrow> string \<Rightarrow> time \<Rightarrow> bool prog" where
  "chargeLook s key now =
     seq (CountRecentFailedLoginAttempts key (now - nc_LockDuration (nv_cfg s))) (\<lambda>n.
     ret (int n \<ge> nc_MaxFailedAttempts (nv_cfg s)))"

definition chargeRecord :: "string \<Rightarrow> string \<Rightarrow> time \<Rightarrow> unit prog" where
  "chargeRecord key ipAddress now =
     seq NewID (\<lambda>id.
     RecordFailedLoginAttempt \<lparr>fa_ID = id, fa_Email = key, fa_IPAddress = ipAddress, fa_CreatedAt = now\<rparr>)"

definition chargeRecount :: "pin_service \<Rightarrow> string \<Rightarrow> time \<Rightarrow> bool prog" where
  "chargeRecount s key now =
     seq (CountRecentFailedLoginAttempts key (now - nc_LockDuration (nv_cfg s))) (\<lambda>n.
     ret (int n > nc_MaxFailedAttempts (nv_cfg s)))"

definition chargeAttempt :: "pin_service \<Rightarrow> string \<Rightarrow> string \<Rightarrow> time \<Rightarrow> bool prog" where
  "chargeAttempt s key ipAddress now =
     seq (chargeLook s key now) (\<lambda>spent.
     if spent then ret True
     else seq (chargeRecord key ipAddress now) (\<lambda>_. chargeRecount s key now))"

definition PIN_rehashIfNeeded :: "pin_service \<Rightarrow> pin_credential \<Rightarrow> string \<Rightarrow> unit prog" where
  "PIN_rehashIfNeeded s c pin =
     (if \<not> h_NeedsRehash (nc_Hasher (nv_cfg s)) (pc_PINHash c) then ret ()
      else on (Hash (nc_Hasher (nv_cfg s)) pin) (\<lambda>_. ret ()) (\<lambda>hash. with_now (\<lambda>now.
           ignoring (SetPINCredential (c\<lparr>pc_PINHash := hash, pc_UpdatedAt := now\<rparr>)) (ret ()))))"

definition dummy :: "pin_service \<Rightarrow> unit prog" where
  "dummy s =
     (if nv_dummyDone s then ret ()
      else ignoring (Hash (nc_Hasher (nv_cfg s)) (replicate (nat (nc_PINLength (nv_cfg s))) (CHR ''0''))) (ret ()))"

text \<open>\<open>if err != nil \&\& !errors.Is(err, store.ErrNotFound)\<close>: not found is a nil pointer.\<close>

definition found :: "'a prog \<Rightarrow> 'a option prog" where
  "found m = on m (\<lambda>e. if e = ErrNotFound then ret None else raise e) (\<lambda>x. ret (Some x))"

definition pin_event :: "event_type \<Rightarrow> event_result \<Rightarrow> string \<Rightarrow> string \<Rightarrow> string \<Rightarrow> event" where
  "pin_event t r actorID userAgent ipAddress =
     (event_of t r)\<lparr>ev_ActorID := actorID, ev_UserAgent := userAgent, ev_IPAddress := ipAddress\<rparr>"

definition device_name :: "string \<Rightarrow> string" where
  "device_name n = (if TrimSpace n = '''' then ''Device'' else TrimSpace n)"

text \<open>From the verified PIN on: the device is bound.\<close>

definition bindDevice ::
  "pin_service \<Rightarrow> user \<Rightarrow> string \<Rightarrow> string \<Rightarrow> string \<Rightarrow> time \<Rightarrow> sign_in_result prog" where
  "bindDevice s u deviceName userAgent ipAddress now =
     seq GenerateOpaqueToken (\<lambda>(raw, hash).
     seq NewID (\<lambda>id.
     let d = \<lparr>bd_ID = id, bd_UserID = u_ID u, bd_Name = device_name deviceName, bd_TokenHash = hash, bd_UserAgent = userAgent,
              bd_IPAddress = ipAddress,
              bd_ExpiresAt = (if nc_DeviceTokenTTL (nv_cfg s) > 0 then Some (now + nc_DeviceTokenTTL (nv_cfg s)) else None),
              bd_LastUsedAt = Some now, bd_RevokedAt = None, bd_CreatedAt = now\<rparr>;
         run = seq (CreateBoundDevice d) (\<lambda>_. call_hook (nc_AfterSignIn (nv_cfg s)) (u, d)) in
     seq (if nc_AfterSignIn (nv_cfg s) \<noteq> None then RunInTx (nv_Tx s) run else run) (\<lambda>_.
     seq (log ((pin_event EventPINSignInSucceeded ResultSuccess (u_ID u) userAgent ipAddress)
                 \<lparr>ev_TargetID := id, ev_Email := u_Email u\<rparr>)) (\<lambda>_.
     ret \<lparr>si_Token = raw, si_Device = d, si_User = u\<rparr>))))"

text \<open>\<open>SignIn\<close> in three stages: is the attempt let through, is the PIN right, and what follows.\<close>

definition admitAttempt :: "pin_service \<Rightarrow> string \<Rightarrow> string \<Rightarrow> string \<Rightarrow> string \<Rightarrow> time \<Rightarrow> unit prog" where
  "admitAttempt s userID lockKey userAgent ipAddress now =
     seq (chargeAttempt s lockKey ipAddress now) (\<lambda>charged.
     seq (if \<not> charged \<and> userID \<noteq> '''' then IsAccountLocked userID else ret charged) (\<lambda>locked.
     if locked
     then seq (log (pin_event EventPINSignInLocked ResultDenied userID userAgent ipAddress)) (\<lambda>_. raise (Pin Pin_ErrLocked))
     else ret ()))"

definition checkPIN :: "pin_service \<Rightarrow> string \<Rightarrow> string \<Rightarrow> string \<Rightarrow> string \<Rightarrow> (user \<times> pin_credential) prog" where
  "checkPIN s userID pin userAgent ipAddress =
     seq (if userID \<noteq> '''' then found (GetUserByID userID) else ret None) (\<lambda>user.
     seq (case user of None \<Rightarrow> ret None | Some _ \<Rightarrow> found (GetPINCredential userID)) (\<lambda>cred.
     seq (if cred = None then dummy s else ret ()) (\<lambda>_.
     case (user, cred) of
       (Some u, Some c) \<Rightarrow>
         if h_Verify (nc_Hasher (nv_cfg s)) pin (pc_PINHash c) then ret (u, c)
         else seq (log (pin_event EventPINSignInFailed ResultFailure userID userAgent ipAddress)) (\<lambda>_.
              raise (Pin Pin_ErrInvalidCredentials))
     | _ \<Rightarrow> seq (log (pin_event EventPINSignInFailed ResultFailure userID userAgent ipAddress)) (\<lambda>_.
            raise (Pin Pin_ErrInvalidCredentials)))))"

definition acceptPIN ::
  "pin_service \<Rightarrow> user \<Rightarrow> pin_credential \<Rightarrow> string \<Rightarrow> string \<Rightarrow> string \<Rightarrow> string \<Rightarrow> string \<Rightarrow> time \<Rightarrow> sign_in_result prog" where
  "acceptPIN s u c pin lockKey deviceName userAgent ipAddress now =
     seq (PIN_rehashIfNeeded s c pin) (\<lambda>_.
     seq (ClearFailedLoginAttempts lockKey) (\<lambda>_.
     on (call_hook (nc_BeforeBind (nv_cfg s)) u)
       (\<lambda>e. seq (log ((pin_event EventPINSignInFailed ResultDenied (u_ID u) userAgent ipAddress)
                  \<lparr>ev_Metadata := [(''reason'', MStr ''refused_by_hook'')]\<rparr>)) (\<lambda>_. raise e))
       (\<lambda>_. bindDevice s u deviceName userAgent ipAddress now)))"

definition SignIn ::
  "pin_service \<Rightarrow> string \<Rightarrow> string \<Rightarrow> string \<Rightarrow> string \<Rightarrow> string \<Rightarrow> sign_in_result prog" where
  "SignIn s login pin deviceName userAgent ipAddress =
     (let login = TrimSpace login; normalized = ToLower login in
      on (AllowEach (nc_RateLimiter (nv_cfg s)) [''pin:ip:'' @ ipAddress, ''pin:login:'' @ normalized])
        (\<lambda>e. seq (log ((pin_event EventPINSignInFailed ResultDenied '''' userAgent ipAddress)
                   \<lparr>ev_Metadata := [(''reason'', MStr ''rate_limited'')]\<rparr>)) (\<lambda>_. raise e)) (\<lambda>_.
      seq (resolve s login) (\<lambda>userID.
      let lockKey = (if userID \<noteq> '''' then userKey userID else loginKey normalized) in
      with_now (\<lambda>now.
      seq (admitAttempt s userID lockKey userAgent ipAddress now) (\<lambda>_.
      seq (checkPIN s userID pin userAgent ipAddress) (\<lambda>(u, c).
      acceptPIN s u c pin lockKey deviceName userAgent ipAddress now))))))"

section \<open>The device's credential\<close>

definition ValidateDevice :: "pin_service \<Rightarrow> string \<Rightarrow> (user \<times> bound_device) prog" where
  "ValidateDevice s token =
     (if token = '''' then raise (Pin Pin_ErrInvalidToken)
      else on (GetBoundDeviceByTokenHash (HashToken token))
        (\<lambda>e. if e = ErrNotFound then raise (Pin Pin_ErrInvalidToken) else raise e) (\<lambda>d. with_now (\<lambda>now.
      if bd_RevokedAt d \<noteq> None \<or> (case bd_ExpiresAt d of None \<Rightarrow> False | Some x \<Rightarrow> \<not> Before now x)
      then raise (Pin Pin_ErrInvalidToken)
      else on (GetUserByID (bd_UserID d))
        (\<lambda>e. if e = ErrNotFound then raise (Pin Pin_ErrInvalidToken) else raise e) (\<lambda>u.
      seq (IsAccountLocked (u_ID u)) (\<lambda>locked.
      if locked then raise (Pin Pin_ErrAccountLocked)
      else if (case bd_LastUsedAt d of None \<Rightarrow> True
               | Some t \<Rightarrow> nc_LastUsedInterval (nv_cfg s) < 0 \<or> now - t \<ge> nc_LastUsedInterval (nv_cfg s))
      then on (TouchBoundDevice (bd_ID d) now)
             (\<lambda>e. if e = ErrNotFound then raise (Pin Pin_ErrInvalidToken) else raise e)
             (\<lambda>_. ret (u, d\<lparr>bd_LastUsedAt := Some now\<rparr>))
      else ret (u, d))))))"

definition ListDevices :: "string \<Rightarrow> bound_device list prog" where
  "ListDevices userID = ListBoundDevicesByUser userID"

definition RevokeDevice :: "string \<Rightarrow> string \<Rightarrow> unit prog" where
  "RevokeDevice actorID deviceID =
     seq (GetBoundDevice deviceID) (\<lambda>d. with_now (\<lambda>now.
     seq (RevokeBoundDevice (bd_ID d) now) (\<lambda>_.
     log ((event_of EventPINDeviceRevoked ResultSuccess)
       \<lparr>ev_ActorID := actorID, ev_TargetID := bd_ID d, ev_Metadata := [(''user_id'', MStr (bd_UserID d))]\<rparr>))))"

definition RevokeDeviceByToken :: "string \<Rightarrow> unit prog" where
  "RevokeDeviceByToken token =
     on (GetBoundDeviceByTokenHash (HashToken token)) (\<lambda>e. if e = ErrNotFound then ret () else raise e) (\<lambda>d.
     if bd_RevokedAt d \<noteq> None then ret ()
     else with_now (\<lambda>now.
     seq (RevokeBoundDevice (bd_ID d) now) (\<lambda>_.
     log ((event_of EventPINDeviceRevoked ResultSuccess)\<lparr>ev_ActorID := bd_UserID d, ev_TargetID := bd_ID d,
       ev_Metadata := [(''user_id'', MStr (bd_UserID d)), (''by'', MStr ''device'')]\<rparr>))))"

definition RevokeAllDevices :: "string \<Rightarrow> string \<Rightarrow> nat prog" where
  "RevokeAllDevices actorID userID = with_now (\<lambda>now.
     seq (RevokeAllBoundDevices userID now) (\<lambda>n.
     seq (if n > 0
          then log ((event_of EventPINDeviceRevoked ResultSuccess)\<lparr>ev_ActorID := actorID, ev_TargetID := userID,
                 ev_Metadata := [(''user_id'', MStr userID), (''count'', MInt (int n))]\<rparr>)
          else ret ()) (\<lambda>_. ret n)))"

record imported_device =
  im_UserID :: string
  im_Name :: string
  im_TokenHash :: string
  im_UserAgent :: string
  im_IPAddress :: string
  im_ExpiresAt :: "time option"
  im_LastUsedAt :: "time option"
  im_RevokedAt :: "time option"
  im_CreatedAt :: time

text \<open>\<open>hex.DecodeString\<close> of a lower-case string gives 32 bytes.\<close>

definition is_sha256_hex :: "string \<Rightarrow> bool" where
  "is_sha256_hex h \<longleftrightarrow> length h = 64 \<and> list_all (\<lambda>c. c \<in> set hex_digits) h"

definition ImportDevice :: "imported_device \<Rightarrow> bound_device prog" where
  "ImportDevice in' =
     (let hash = ToLower (TrimSpace (im_TokenHash in')) in
      if \<not> is_sha256_hex hash then raise (Pin Pin_ErrInvalidImport)
      else seq (GetUserByID (im_UserID in')) (\<lambda>_.
      seq NewID (\<lambda>id. with_now (\<lambda>now.
      let d = \<lparr>bd_ID = id, bd_UserID = im_UserID in', bd_Name = device_name (im_Name in'), bd_TokenHash = hash,
               bd_UserAgent = im_UserAgent in', bd_IPAddress = im_IPAddress in', bd_ExpiresAt = im_ExpiresAt in',
               bd_LastUsedAt = im_LastUsedAt in', bd_RevokedAt = im_RevokedAt in',
               bd_CreatedAt = (if im_CreatedAt in' = zero_time then now else im_CreatedAt in')\<rparr> in
      seq (CreateBoundDevice d) (\<lambda>_.
      seq (log ((event_of EventPINDeviceImported ResultSuccess)\<lparr>ev_ActorID := im_UserID in', ev_TargetID := id\<rparr>)) (\<lambda>_.
      ret d))))))"

end
