(* ===== verification/Contracts.thy ===== *)
theory Contracts
  imports Crypto
begin

text \<open>
  Contracts of programs: \<open>holds P m Q E\<close> says that \<open>m\<close>, whatever the faults, keeps the invariant \<open>P\<close> of the
  stores, that what it returns satisfies \<open>Q\<close>, and that the errors it returns satisfy \<open>E\<close>. The rules follow the
  constructs a service method is built from, so that a method's contract comes from those of the ports it calls.
\<close>

definition holds :: "(dbase \<Rightarrow> bool) \<Rightarrow> 'a prog \<Rightarrow> ('a \<Rightarrow> bool) \<Rightarrow> (error \<Rightarrow> bool) \<Rightarrow> bool" where
  "holds P m Q E \<longleftrightarrow>
     (\<forall>w r w'. P (db w) \<longrightarrow> m w = (r, w') \<longrightarrow> P (db w') \<and> (\<forall>x. r = Inr x \<longrightarrow> Q x) \<and> (\<forall>e. r = Inl e \<longrightarrow> E e))"

named_theorems holds_rules \<open>contracts of the program constructs and of the ports\<close>

lemma holdsI:
  "(\<And>w r w'. P (db w) \<Longrightarrow> m w = (r, w') \<Longrightarrow> P (db w') \<and> (\<forall>x. r = Inr x \<longrightarrow> Q x) \<and> (\<forall>e. r = Inl e \<longrightarrow> E e)) \<Longrightarrow> holds P m Q E"
  unfolding holds_def by blast

lemma holdsD:
  assumes "holds P m Q E" and "P (db w)" and "m w = (r, w')"
  shows "P (db w')" and "r = Inr x \<Longrightarrow> Q x" and "r = Inl e \<Longrightarrow> E e"
  using assms unfolding holds_def by blast+

lemma holds_weaken:
  "holds P m Q E \<Longrightarrow> (\<And>x. Q x \<Longrightarrow> Q' x) \<Longrightarrow> (\<And>e. E e \<Longrightarrow> E' e) \<Longrightarrow> holds P m Q' E'"
  unfolding holds_def by blast

lemma holds_ret [holds_rules]: "Q x \<Longrightarrow> holds P (ret x) Q E"
  by (rule holdsI) simp

lemma holds_raise [holds_rules]: "E e \<Longrightarrow> holds P (raise e) Q E"
  by (rule holdsI) simp

lemma holds_lift [holds_rules]: "(\<And>e. r = Inl e \<Longrightarrow> E e) \<Longrightarrow> (\<And>x. r = Inr x \<Longrightarrow> Q x) \<Longrightarrow> holds P (lift r) Q E"
  by (rule holdsI) auto

lemma holds_check [holds_rules]: "(\<And>x. e = Some x \<Longrightarrow> E x) \<Longrightarrow> holds P (check e) (\<lambda>_. e = None) E"
  by (rule holdsI) (auto split: option.splits)

lemma holds_log [holds_rules]: "holds P (log e) (\<lambda>_. True) E"
  by (rule holdsI) (auto simp: log_def)

lemma holds_now [holds_rules]: "(\<And>t. holds P (k t) Q E) \<Longrightarrow> holds P (with_now k) Q E"
  unfolding holds_def by simp

lemma holds_on:
  assumes "holds P m Q1 E1" and "\<And>e. E1 e \<Longrightarrow> holds P (h e) Q E" and "\<And>x. Q1 x \<Longrightarrow> holds P (k x) Q E"
  shows "holds P (on m h k) Q E"
proof (rule holdsI)
  fix w r w' assume P: "P (db w)" and run: "on m h k w = (r, w')"
  obtain a w1 where m: "m w = (a, w1)" by (cases "m w")
  show "P (db w') \<and> (\<forall>x. r = Inr x \<longrightarrow> Q x) \<and> (\<forall>e. r = Inl e \<longrightarrow> E e)"
  proof (cases a)
    case (Inl e)
    then have "E1 e" and "P (db w1)" and "h e w1 = (r, w')"
      using holdsD [OF assms(1) P m] run m by (auto simp: on_def)
    then show ?thesis using assms(2) unfolding holds_def by blast
  next
    case (Inr x)
    then have "Q1 x" and "P (db w1)" and "k x w1 = (r, w')"
      using holdsD [OF assms(1) P m] run m by (auto simp: on_def)
    then show ?thesis using assms(3) unfolding holds_def by blast
  qed
qed

lemma holds_seq: "holds P m Q1 E \<Longrightarrow> (\<And>x. Q1 x \<Longrightarrow> holds P (k x) Q E) \<Longrightarrow> holds P (seq m k) Q E"
  unfolding seq_def by (rule holds_on [where ?E1.0 = E and ?Q1.0 = Q1]) (auto intro: holds_raise)

lemma holds_ignoring: "holds P m Q1 E1 \<Longrightarrow> holds P k Q E \<Longrightarrow> holds P (ignoring m k) Q E"
  unfolding ignoring_def by (rule holds_on)

lemma holds_if [holds_rules]: "(b \<Longrightarrow> holds P m Q E) \<Longrightarrow> (\<not> b \<Longrightarrow> holds P n Q E) \<Longrightarrow> holds P (if b then m else n) Q E"
  by simp

lemma holds_let [holds_rules]: "(\<And>x. x = a \<Longrightarrow> holds P (k x) Q E) \<Longrightarrow> holds P (let x = a in k x) Q E"
  by (simp add: Let_def)

lemma holds_case_option [holds_rules]:
  "(x = None \<Longrightarrow> holds P m Q E) \<Longrightarrow> (\<And>y. x = Some y \<Longrightarrow> holds P (k y) Q E) \<Longrightarrow>
   holds P (case x of None \<Rightarrow> m | Some y \<Rightarrow> k y) Q E"
  by (cases x) auto

lemma holds_case_bool [holds_rules]:
  "(b \<Longrightarrow> holds P m Q E) \<Longrightarrow> (\<not> b \<Longrightarrow> holds P n Q E) \<Longrightarrow> holds P (case b of True \<Rightarrow> m | False \<Rightarrow> n) Q E"
  by (cases b) auto

lemma holds_case_prod [holds_rules]:
  "(\<And>a b. p = (a, b) \<Longrightarrow> holds P (f a b) Q E) \<Longrightarrow> holds P (case p of (a, b) \<Rightarrow> f a b) Q E"
  by (cases p) auto

text \<open>Ports: a fault is an error like any other.\<close>

abbreviation admits_faults :: "(error \<Rightarrow> bool) \<Rightarrow> bool" where
  "admits_faults E \<equiv> \<forall>m. E (Fault m)"

lemma holds_rd:
  assumes "admits_faults E" and "\<And>d x. P d \<Longrightarrow> f d = Inr x \<Longrightarrow> Q x" and "\<And>d e. P d \<Longrightarrow> f d = Inl e \<Longrightarrow> E e"
  shows "holds P (rd f) Q E"
  by (rule holdsI) (use assms in auto)

lemma holds_wr:
  assumes "admits_faults E"
    and "\<And>d r d'. P d \<Longrightarrow> f d = (r, d') \<Longrightarrow> P d' \<and> (\<forall>x. r = Inr x \<longrightarrow> Q x) \<and> (\<forall>e. r = Inl e \<longrightarrow> E e)"
  shows "holds P (wr f) Q E"
proof (rule holdsI)
  fix w r w' assume "P (db w)" and "wr f w = (r, w')"
  then show "P (db w') \<and> (\<forall>x. r = Inr x \<longrightarrow> Q x) \<and> (\<forall>e. r = Inl e \<longrightarrow> E e)"
    by - (erule wrE, use assms in auto)
qed

lemma holds_rand_read [holds_rules]: "admits_faults E \<Longrightarrow> holds P (rand_read n) (\<lambda>_. True) E"
  by (rule holdsI) (auto elim!: rand_readE)

lemma holds_RunInTx:
  assumes faults: "admits_faults E" and m: "holds P m Q E" shows "holds P (RunInTx tx m) Q E"
proof (rule holdsI)
  fix w r w' assume P: "P (db w)" and run: "RunInTx tx m w = (r, w')"
  show "P (db w') \<and> (\<forall>x. r = Inr x \<longrightarrow> Q x) \<and> (\<forall>e. r = Inl e \<longrightarrow> E e)"
  proof (cases r)
    case (Inl e)
    from run [unfolded Inl] show ?thesis
    proof (cases rule: RunInTx_errorE)
      case (body fs w1)
      then show ?thesis using holdsD [OF m _ body(1)] P Inl by (cases tx) auto
    next
      case (fault m)
      then show ?thesis using faults P Inl by simp
    qed
  next
    case (Inr x)
    from run [unfolded Inr] obtain fs w1 fs' where "m (w\<lparr>faults := fs\<rparr>) = (Inr x, w1)" and "w' = w1\<lparr>faults := fs'\<rparr>"
      by (rule RunInTx_ok)
    then show ?thesis using holdsD [OF m, of "w\<lparr>faults := fs\<rparr>"] P Inr by auto
  qed
qed

text \<open>What draws randomness or hashes touches no store.\<close>

lemma holds_NewID [holds_rules]: "admits_faults E \<Longrightarrow> holds P NewID (\<lambda>_. True) E"
  unfolding NewID_def by (intro holds_seq [where ?Q1.0 = "\<lambda>_. True"] holds_rules) simp_all

lemma holds_GenerateOpaqueToken [holds_rules]: "admits_faults E \<Longrightarrow> holds P GenerateOpaqueToken (\<lambda>_. True) E"
  unfolding GenerateOpaqueToken_def Let_def by (intro holds_seq [where ?Q1.0 = "\<lambda>_. True"] holds_rules) simp_all

lemma holds_Hash [holds_rules]:
  "admits_faults E \<Longrightarrow> (\<And>b e. h_Hash h b p = Inl e \<Longrightarrow> E e) \<Longrightarrow> holds P (Hash h p) (\<lambda>_. True) E"
  by (rule holdsI) (auto elim!: HashE)

text \<open>One method reads the clock at one instant, and no construct moves it.\<close>

definition timeless :: "'a prog \<Rightarrow> bool" where
  "timeless m \<longleftrightarrow> (\<forall>w. clock (snd (m w)) = clock w)"

named_theorems timeless_rules \<open>programs that leave the clock alone\<close>

lemma timelessD: "timeless m \<Longrightarrow> m w = (r, w') \<Longrightarrow> clock w' = clock w"
  unfolding timeless_def by (metis snd_conv)

lemma timelessI: "(\<And>w r w'. m w = (r, w') \<Longrightarrow> clock w' = clock w) \<Longrightarrow> timeless m"
  unfolding timeless_def by (metis prod.collapse)

lemma timeless_basic [timeless_rules]:
  "timeless (ret x)" "timeless (raise e)" "timeless (lift r)" "timeless (check o')" "timeless (log ev)"
  "timeless (send msg)" "timeless (rand_read n)" "timeless (rd f)" "timeless (wr g)"
  by (rule timelessI, auto)+

lemma timeless_on [timeless_rules]:
  assumes "timeless m" and "\<And>e. timeless (h e)" and "\<And>x. timeless (k x)" shows "timeless (on m h k)"
  by (rule timelessI, erule onE) (metis timelessD assms)+

lemma timeless_seq [timeless_rules]: "timeless m \<Longrightarrow> (\<And>x. timeless (k x)) \<Longrightarrow> timeless (seq m k)"
  unfolding seq_def by (intro timeless_rules)

lemma timeless_ignoring [timeless_rules]: "timeless m \<Longrightarrow> timeless k \<Longrightarrow> timeless (ignoring m k)"
  unfolding ignoring_def by (intro timeless_rules)

lemma timeless_now [timeless_rules]: "(\<And>t. timeless (k t)) \<Longrightarrow> timeless (with_now k)"
  unfolding timeless_def by simp

lemma timeless_if [timeless_rules]: "(b \<Longrightarrow> timeless m) \<Longrightarrow> (\<not> b \<Longrightarrow> timeless n) \<Longrightarrow> timeless (if b then m else n)"
  by simp

lemma timeless_case_option [timeless_rules]:
  "(x = None \<Longrightarrow> timeless m) \<Longrightarrow> (\<And>y. x = Some y \<Longrightarrow> timeless (k y)) \<Longrightarrow>
   timeless (case x of None \<Rightarrow> m | Some y \<Rightarrow> k y)"
  by (cases x) auto

lemma timeless_case_bool [timeless_rules]:
  "(b \<Longrightarrow> timeless m) \<Longrightarrow> (\<not> b \<Longrightarrow> timeless n) \<Longrightarrow> timeless (case b of True \<Rightarrow> m | False \<Rightarrow> n)"
  by (cases b) auto

lemma timeless_case_prod [timeless_rules]:
  "(\<And>a b. p = (a, b) \<Longrightarrow> timeless (f a b)) \<Longrightarrow> timeless (case p of (a, b) \<Rightarrow> f a b)"
  by (cases p) auto

lemma timeless_RunInTx [timeless_rules]: assumes "timeless m" shows "timeless (RunInTx tx m)"
proof (rule timelessI)
  fix w r w' assume run: "RunInTx tx m w = (r, w')"
  have body: "clock w1 = clock w" if "m (w\<lparr>faults := fs\<rparr>) = (a, w1)" for fs a w1
    using timelessD [OF assms that] by simp
  show "clock w' = clock w"
    using run unfolding RunInTx_def
    by (auto split: if_splits prod.splits sum.splits elim!: portE dest: body timelessD [OF assms])
qed

lemma timeless_AllowEach [timeless_rules]: "timeless (AllowEach l keys)"
  by (rule timelessI) (auto elim!: AllowEach_frame)

lemma timeless_draws [timeless_rules]: "timeless NewID" "timeless GenerateOpaqueToken" "timeless (Hash h p)"
  by (rule timelessI, auto)+

text \<open>A sequence that succeeds: both its parts do.\<close>

lemma seq_okE:
  assumes "seq m k w = (Inr x, w')"
  obtains y w1 where "m w = (Inr y, w1)" and "k y w1 = (Inr x, w')"
  using assms by (auto simp: seq_def on_eq)

text \<open>A token drawn is never the empty string, which callers take for none.\<close>

lemma b64_token_nonempty: "b64url_encode (draw 32 w) \<noteq> []"
proof -
  have "length (b64url_encode (draw 32 w)) = 43" by (simp add: b64url_encode_def sextets_length)
  then show ?thesis by auto
qed

end
