(* ===== verification/PinProps.thy ===== *)
theory PinProps
  imports PinService LoginProps HashVectors Contracts
begin

text \<open>
  What package \<open>pin\<close> guarantees: the budget of guesses holds however attempts interleave, who a sign-in
  binds a device for, and when a device token stops working.
\<close>

section \<open>The budget under concurrency\<close>

text \<open>
  Any number of attempts on one key, each somewhere in \<open>chargeAttempt\<close>, between each other's calls of
  the store, and any other operation that forgets no attempt on the key.
\<close>

datatype charger = Idle | Looked time | Recorded time | Charged bool

inductive charge_step ::
  "pin_service \<Rightarrow> string \<Rightarrow> time \<Rightarrow> world \<times> (nat \<Rightarrow> charger) \<Rightarrow> world \<times> (nat \<Rightarrow> charger) \<Rightarrow> bool" for s key T where
  look: "C k = Idle \<Longrightarrow> T \<le> now \<Longrightarrow> now < T + nc_LockDuration (nv_cfg s) \<Longrightarrow> chargeLook s key now w = (Inr spent, w') \<Longrightarrow>
     charge_step s key T (w, C) (w', C(k := if spent then Charged True else Looked now))"
| count: "C k = Looked now \<Longrightarrow> chargeRecord key ip now w = (Inr (), w') \<Longrightarrow>
     charge_step s key T (w, C) (w', C(k := Recorded now))"
| recount: "C k = Recorded now \<Longrightarrow> chargeRecount s key now w = (Inr over, w') \<Longrightarrow>
     charge_step s key T (w, C) (w', C(k := Charged over))"
| give_up: "C k \<noteq> Charged False \<Longrightarrow> charge_step s key T (w, C) (w, C(k := Charged True))"
| other: "(\<And>since. lo_count (lockouts (db w)) key since \<le> lo_count (lockouts (db w')) key since) \<Longrightarrow>
     charge_step s key T (w, C) (w', C)"

inductive_cases charge_stepE: "charge_step s key T (w, C) S"

definition charged_ok :: "(nat \<Rightarrow> charger) \<Rightarrow> nat set" where "charged_ok C = {k. C k = Charged False}"

definition counted_in :: "(nat \<Rightarrow> charger) \<Rightarrow> nat set" where "counted_in C = {k. (\<exists>t. C k = Recorded t) \<or> C k = Charged False}"

definition in_window :: "pin_service \<Rightarrow> time \<Rightarrow> (nat \<Rightarrow> charger) \<Rightarrow> bool" where
  "in_window s T C \<longleftrightarrow> (\<forall>k t. C k = Looked t \<or> C k = Recorded t \<longrightarrow> T \<le> t \<and> t < T + nc_LockDuration (nv_cfg s))"

definition budget_inv :: "pin_service \<Rightarrow> string \<Rightarrow> time \<Rightarrow> world \<times> (nat \<Rightarrow> charger) \<Rightarrow> bool" where
  "budget_inv s key T S \<longleftrightarrow> (case S of (w, C) \<Rightarrow>
     finite (counted_in C) \<and> in_window s T C \<and>
     (\<forall>since < T. card (counted_in C) \<le> lo_count (lockouts (db w)) key since) \<and>
     int (card (charged_ok C)) \<le> max 0 (nc_MaxFailedAttempts (nv_cfg s)))"

lemma chargeLook_ok:
  "chargeLook s key now w = (Inr spent, w') \<Longrightarrow> lockouts (db w') = lockouts (db w)"
  by (auto simp: chargeLook_def port_defs)

lemma chargeRecount_ok:
  "chargeRecount s key now w = (Inr over, w') \<Longrightarrow> lockouts (db w') = lockouts (db w) \<and>
     (over \<longleftrightarrow> nc_MaxFailedAttempts (nv_cfg s) < int (lo_count (lockouts (db w)) key (now - nc_LockDuration (nv_cfg s))))"
  by (auto simp: chargeRecount_def port_defs lo_count_def)

lemma chargeRecord_ok:
  "chargeRecord key ip now w = (Inr (), w') \<Longrightarrow>
   lo_count (lockouts (db w')) key since = lo_count (lockouts (db w)) key since + (if now > since then 1 else 0)"
  by (auto simp: chargeRecord_def port_defs lo_count_def mem_defs After_def)

lemma counted_in_upd:
  "counted_in (C(k := x)) = (if (\<exists>t. x = Recorded t) \<or> x = Charged False then insert k (counted_in C) else counted_in C - {k})"
  by (auto simp: counted_in_def)

lemma charged_ok_upd:
  "charged_ok (C(k := x)) = (if x = Charged False then insert k (charged_ok C) else charged_ok C - {k})"
  by (auto simp: charged_ok_def)

lemma charged_counted: "charged_ok C \<subseteq> counted_in C"
  by (auto simp: charged_ok_def counted_in_def)

lemma budget_step:
  assumes "charge_step s key T S S'" and "budget_inv s key T S"
  shows "budget_inv s key T S'"
  using assms(1)
proof (cases rule: charge_step.cases)
  case (look C k now w spent w')
  have "k \<notin> counted_in C" "k \<notin> charged_ok C" using look(3) by (auto simp: counted_in_def charged_ok_def)
  then show ?thesis using assms(2) look chargeLook_ok [OF look(6)]
    by (auto simp: budget_inv_def counted_in_upd charged_ok_upd in_window_def)
next
  case (count C k now ip w w')
  have new: "k \<notin> counted_in C" "k \<notin> charged_ok C" using count(3) by (auto simp: counted_in_def charged_ok_def)
  have now: "T \<le> now" "now < T + nc_LockDuration (nv_cfg s)"
    using assms(2) count by (auto simp: budget_inv_def in_window_def)
  have "Suc (card (counted_in C)) \<le> lo_count (lockouts (db w')) key since" if "since < T" for since
  proof -
    have "card (counted_in C) \<le> lo_count (lockouts (db w)) key since" using assms(2) count that by (simp add: budget_inv_def)
    then show ?thesis using chargeRecord_ok [OF count(4), of since] that now(1) by simp
  qed
  then show ?thesis using assms(2) count new now
    by (auto simp: budget_inv_def counted_in_upd charged_ok_upd in_window_def)
next
  case (recount C k now w over w')
  have old: "k \<in> counted_in C" "k \<notin> charged_ok C" using recount(3) by (auto simp: counted_in_def charged_ok_def)
  have "in_window s T C" using assms(2) recount by (simp add: budget_inv_def)
  then have "now < T + nc_LockDuration (nv_cfg s)" using recount(3) unfolding in_window_def by blast
  then have now: "now - nc_LockDuration (nv_cfg s) < T" by simp
  note r = chargeRecount_ok [OF recount(4)]
  have fin: "finite (counted_in C)" and cnt: "\<forall>since < T. card (counted_in C) \<le> lo_count (lockouts (db w)) key since"
    and win: "in_window s T C" and ok: "int (card (charged_ok C)) \<le> max 0 (nc_MaxFailedAttempts (nv_cfg s))"
    using assms(2) recount by (auto simp: budget_inv_def)
  have "card (insert k (charged_ok C)) \<le> card (counted_in C)"
    using fin old charged_counted [of C] by (intro card_mono) auto
  moreover have "card (counted_in C) \<le> lo_count (lockouts (db w)) key (now - nc_LockDuration (nv_cfg s))"
    using cnt now by blast
  ultimately have "\<not> over \<Longrightarrow> int (card (insert k (charged_ok C))) \<le> max 0 (nc_MaxFailedAttempts (nv_cfg s))"
    using r by simp
  moreover have "card (counted_in C - {k}) \<le> card (counted_in C)" by (rule card_mono) (use fin in auto)
  moreover have "card (charged_ok C - {k}) \<le> card (charged_ok C)" using old by simp
  ultimately show ?thesis using recount r fin cnt win ok old
    by (cases over) (auto simp: budget_inv_def counted_in_upd charged_ok_upd in_window_def insert_absorb intro: order_trans)
next
  case (give_up C k w)
  have k: "k \<notin> charged_ok C" using give_up(3) by (auto simp: charged_ok_def)
  have "finite (counted_in C)" using assms(2) give_up by (simp add: budget_inv_def)
  then have "card (counted_in C - {k}) \<le> card (counted_in C)" by (intro card_mono) auto
  then show ?thesis using assms(2) give_up k
    by (auto simp: budget_inv_def counted_in_upd charged_ok_upd in_window_def intro: order_trans)
next
  case (other w w' C)
  then show ?thesis using assms(2) by (auto simp: budget_inv_def intro: order_trans)
qed

text \<open>
  C11. A PIN can be tried only as often as the limit says, under any concurrency: however the attempts on one
  login interleave, between the three calls of the store each makes, no more than
  \<open>MaxFailedAttempts\<close> of them are let through to the PIN within one \<open>LockDuration\<close>, as long as no
  success clears the count.
\<close>

theorem pin_guess_budget:
  assumes "(charge_step s key T)\<^sup>*\<^sup>* (w0, \<lambda>_. Idle) (w, C)" and "0 \<le> nc_MaxFailedAttempts (nv_cfg s)"
  shows "finite {k. C k = Charged False} \<and> int (card {k. C k = Charged False}) \<le> nc_MaxFailedAttempts (nv_cfg s)"
proof -
  have "budget_inv s key T (w0, \<lambda>_. Idle)"
    by (simp add: budget_inv_def counted_in_def charged_ok_def in_window_def)
  with assms(1) have "budget_inv s key T (w, C)"
    by (induction rule: rtranclp_induct) (auto intro: budget_step)
  then show ?thesis using assms(2) charged_counted [of C] finite_subset
    by (auto simp: budget_inv_def charged_ok_def)
qed


section \<open>Who a sign-in binds a device for\<close>

text \<open>A resolver that only looks something up, as \<open>ByEmail\<close> does.\<close>

definition only_reads :: "'a prog \<Rightarrow> bool" where
  "only_reads m \<longleftrightarrow> (\<forall>w r w'. m w = (r, w') \<longrightarrow> (\<exists>fs. w' = w\<lparr>faults := fs\<rparr>))"

lemma ByEmail_reads: "only_reads (ByEmail login)"
  unfolding only_reads_def ByEmail_def by (fastforce simp: port_defs)

lemma resolve_frame:
  assumes "resolve s login w = (r, w')" and "\<And>l. only_reads (nv_resolver s l)"
  shows "db w' = db w \<and> clock w' = clock w"
  using assms unfolding resolve_def only_reads_def by (fastforce split: if_splits)

lemma resolve_some:
  assumes "resolve s login w = (Inr u, w')" and "u \<noteq> ''''"
  shows "login \<noteq> '''' \<and> nv_resolver s login w = (Inr u, w')"
  using assms unfolding resolve_def by (auto split: if_splits)

lemma foundE [elim!]:
  assumes "found m w = (r, w')"
  obtains e where "m w = (Inl e, w')" and "r = (if e = ErrNotFound then Inr None else Inl e)"
  | x where "m w = (Inr x, w')" and "r = Inr (Some x)"
  using assms unfolding found_def by (auto split: if_splits)

lemma chargeAttempt_ok:
  assumes "chargeAttempt s key ip now w = (Inr False, w')"
  shows "int (lo_count (lockouts (db w)) key (now - nc_LockDuration (nv_cfg s))) < nc_MaxFailedAttempts (nv_cfg s) \<and>
     users (db w') = users (db w) \<and> pins (db w') = pins (db w) \<and> bound (db w') = bound (db w) \<and>
     lo_locked (lockouts (db w')) = lo_locked (lockouts (db w)) \<and> clock w' = clock w"
  using assms unfolding chargeAttempt_def chargeLook_def chargeRecord_def chargeRecount_def
  by (auto simp: port_defs lo_count_def mem_defs split: if_splits)

lemma rehash_frame:
  "PIN_rehashIfNeeded s c p w = (r, w') \<Longrightarrow>
   r = Inr () \<and> users (db w') = users (db w) \<and> bound (db w') = bound (db w) \<and> lockouts (db w') = lockouts (db w) \<and> clock w' = clock w"
  unfolding PIN_rehashIfNeeded_def by (auto simp: port_defs split: if_splits)

lemma bindDevice_ok:
  assumes "bindDevice s u n ua ip now w = (Inr res, w')"
  shows "si_User res = u \<and> bd_UserID (si_Device res) = u_ID u \<and> bd_RevokedAt (si_Device res) = None \<and>
     bd_TokenHash (si_Device res) = HashToken (si_Token res) \<and> bd_LastUsedAt (si_Device res) = Some now \<and>
     bd_ExpiresAt (si_Device res) = (if nc_DeviceTokenTTL (nv_cfg s) > 0 then Some (now + nc_DeviceTokenTTL (nv_cfg s)) else None) \<and>
     mem_CreateBoundDevice (si_Device res) (bound (db w)) = (Inr (), bound (db w')) \<and>
     users (db w') = users (db w) \<and> lockouts (db w') = lockouts (db w) \<and> clock w' = clock w \<and> length (si_Token res) > 0"
  using assms unfolding bindDevice_def Let_def
  by (auto simp: port_defs b64_token_nonempty split: if_splits elim!: RunInTx_ok)


lemma admitAttempt_ok:
  assumes "admitAttempt s uid key ua ip now w = (Inr (), w')"
  shows "int (lo_count (lockouts (db w)) key (now - nc_LockDuration (nv_cfg s))) < nc_MaxFailedAttempts (nv_cfg s) \<and>
     users (db w') = users (db w) \<and> pins (db w') = pins (db w) \<and> bound (db w') = bound (db w) \<and>
     lo_locked (lockouts (db w')) = lo_locked (lockouts (db w)) \<and> clock w' = clock w \<and>
     (uid \<noteq> '''' \<longrightarrow> \<not> lo_locked (lockouts (db w)) uid)"
proof -
  have "\<exists>w1. chargeAttempt s key ip now w = (Inr False, w1) \<and> db w' = db w1 \<and> clock w' = clock w1 \<and>
      (uid \<noteq> '''' \<longrightarrow> \<not> lo_locked (lockouts (db w1)) uid)"
    using assms unfolding admitAttempt_def by (fastforce simp: port_defs mem_IsAccountLocked_def split: if_splits)
  then show ?thesis using chargeAttempt_ok by metis
qed

lemma checkPIN_ok:
  assumes "checkPIN s uid pin ua ip w = (Inr (u, c), w')"
  shows "uid \<noteq> '''' \<and> mem_GetUserByID (users (db w)) uid = Inr u \<and> mem_GetPINCredential (pins (db w)) uid = Inr c \<and>
     h_Verify (nc_Hasher (nv_cfg s)) pin (pc_PINHash c) \<and> db w' = db w \<and> clock w' = clock w"
  using assms unfolding checkPIN_def dummy_def
  by (auto simp: port_defs split: if_splits option.splits)

lemma acceptPIN_ok:
  assumes "acceptPIN s u c pin key n ua ip now w = (Inr res, w')"
  shows "(\<forall>f. nc_BeforeBind (nv_cfg s) = Some f \<longrightarrow> f u = None) \<and>
     (\<exists>w3. bindDevice s u n ua ip now w3 = (Inr res, w') \<and> users (db w3) = users (db w) \<and> bound (db w3) = bound (db w) \<and>
       lo_locked (lockouts (db w3)) = lo_locked (lockouts (db w)) \<and> clock w3 = clock w)"
proof -
  obtain w1 w2 where r: "PIN_rehashIfNeeded s c pin w = (Inr (), w1)" and cl: "ClearFailedLoginAttempts key w1 = (Inr (), w2)"
    and h: "Inr () = (case nc_BeforeBind (nv_cfg s) of None \<Rightarrow> Inr () | Some f \<Rightarrow> (case f u of None \<Rightarrow> Inr () | Some e \<Rightarrow> Inl e))"
    and b: "bindDevice s u n ua ip now w2 = (Inr res, w')"
    using assms unfolding acceptPIN_def by auto
  have "users (db w2) = users (db w) \<and> bound (db w2) = bound (db w) \<and> lo_locked (lockouts (db w2)) = lo_locked (lockouts (db w)) \<and> clock w2 = clock w"
    using rehash_frame [OF r] cl by (auto simp: port_defs mem_ClearFailedLoginAttempts_def)
  moreover have "\<forall>f. nc_BeforeBind (nv_cfg s) = Some f \<longrightarrow> f u = None"
    using h by (auto split: option.splits)
  ultimately show ?thesis using b by blast
qed

text \<open>
  The facts behind a sign-in that succeeded, against the stores it started from. The user's row and PIN are
  read after the attempt is charged, and neither the charge nor the resolver touches them.
\<close>

lemma SignIn_ok:
  assumes "SignIn s login pin n ua ip w = (Inr res, w')" and reads: "\<And>l. only_reads (nv_resolver s l)"
  shows "\<exists>uid u c. uid \<noteq> '''' \<and> (\<exists>w1 w2. db w1 = db w \<and> nv_resolver s (TrimSpace login) w1 = (Inr uid, w2)) \<and>
     mem_GetUserByID (users (db w)) uid = Inr u \<and> mem_GetPINCredential (pins (db w)) uid = Inr c \<and>
     h_Verify (nc_Hasher (nv_cfg s)) pin (pc_PINHash c) \<and> \<not> lo_locked (lockouts (db w)) uid \<and>
     int (lo_count (lockouts (db w)) (userKey uid) (clock w - nc_LockDuration (nv_cfg s))) < nc_MaxFailedAttempts (nv_cfg s) \<and>
     (\<forall>f. nc_BeforeBind (nv_cfg s) = Some f \<longrightarrow> f u = None) \<and>
     (\<exists>w3. bindDevice s u n ua ip (clock w) w3 = (Inr res, w') \<and> users (db w3) = users (db w) \<and> bound (db w3) = bound (db w) \<and>
       lo_locked (lockouts (db w3)) = lo_locked (lockouts (db w)) \<and> clock w3 = clock w)"
proof -
  obtain w1 uid w2 w3 u c w4 where a: "AllowEach (nc_RateLimiter (nv_cfg s)) [''pin:ip:'' @ ip, ''pin:login:'' @ ToLower (TrimSpace login)] w = (Inr (), w1)"
    and r: "resolve s (TrimSpace login) w1 = (Inr uid, w2)"
    and ad: "admitAttempt s uid (if uid \<noteq> '''' then userKey uid else loginKey (ToLower (TrimSpace login))) ua ip (clock w2) w2 = (Inr (), w3)"
    and ck: "checkPIN s uid pin ua ip w3 = (Inr (u, c), w4)"
    and ac: "acceptPIN s u c pin (if uid \<noteq> '''' then userKey uid else loginKey (ToLower (TrimSpace login))) n ua ip (clock w2) w4 = (Inr res, w')"
    using assms(1) unfolding SignIn_def Let_def by (auto simp: split_beta)
  have w1: "db w1 = db w" "clock w1 = clock w" using a by (auto elim: AllowEach_frame)
  have w2: "db w2 = db w" "clock w2 = clock w" using resolve_frame [OF r reads] w1 by auto
  have uid: "uid \<noteq> ''''" using checkPIN_ok [OF ck] by simp
  show ?thesis
    using resolve_some [OF r uid] w1 w2 admitAttempt_ok [OF ad] checkPIN_ok [OF ck] acceptPIN_ok [OF ac] uid
    by (intro exI [of _ uid] exI [of _ u] exI [of _ c]) (simp, blast)
qed


text \<open>
  C12. A device is bound only for the person the login names, who proved the PIN: the login resolved to a user
  with a PIN that verifies, whom no operator has locked, who has guesses left in the window, and whom the
  host's hook lets in; the device stored is that user's, found under the hash of the token handed out.
\<close>

theorem pin_sign_in_sound:
  assumes "SignIn s login pin n ua ip w = (Inr res, w')" and "\<And>l. only_reads (nv_resolver s l)" and "us_inv (users (db w))"
  shows "\<exists>uid c. (\<exists>w1 w2. db w1 = db w \<and> nv_resolver s (TrimSpace login) w1 = (Inr uid, w2)) \<and>
     mem_GetUserByID (users (db w)) uid = Inr (si_User res) \<and> mem_GetPINCredential (pins (db w)) uid = Inr c \<and>
     h_Verify (nc_Hasher (nv_cfg s)) pin (pc_PINHash c) \<and> \<not> lo_locked (lockouts (db w)) uid \<and>
     int (lo_count (lockouts (db w)) (userKey uid) (clock w - nc_LockDuration (nv_cfg s))) < nc_MaxFailedAttempts (nv_cfg s) \<and>
     (\<forall>f. nc_BeforeBind (nv_cfg s) = Some f \<longrightarrow> f (si_User res) = None) \<and>
     mem_GetBoundDeviceByTokenHash (bound (db w')) (HashToken (si_Token res)) = Inr (si_Device res) \<and>
     bd_UserID (si_Device res) = uid \<and> bd_RevokedAt (si_Device res) = None"
proof -
  obtain uid u c w3 where f: "\<exists>w1 w2. db w1 = db w \<and> nv_resolver s (TrimSpace login) w1 = (Inr uid, w2)"
    "mem_GetUserByID (users (db w)) uid = Inr u" "mem_GetPINCredential (pins (db w)) uid = Inr c"
    "h_Verify (nc_Hasher (nv_cfg s)) pin (pc_PINHash c)" "\<not> lo_locked (lockouts (db w)) uid"
    "int (lo_count (lockouts (db w)) (userKey uid) (clock w - nc_LockDuration (nv_cfg s))) < nc_MaxFailedAttempts (nv_cfg s)"
    "\<forall>f. nc_BeforeBind (nv_cfg s) = Some f \<longrightarrow> f u = None"
    and b: "bindDevice s u n ua ip (clock w) w3 = (Inr res, w')"
    using SignIn_ok [OF assms(1,2)] by blast
  note d = bindDevice_ok [OF b]
  have "mem_GetBoundDeviceByTokenHash (bound (db w')) (HashToken (si_Token res)) = Inr (si_Device res)"
    using d bound_tab.create_get [of "si_Device res"] by metis
  moreover have "u_ID u = uid" by (rule us_get_id [OF assms(3) f(2)])
  ultimately show ?thesis using f d by (intro exI [of _ uid] exI [of _ c]) simp
qed

lemma created_bound: "mem_CreateBoundDevice d s = (Inr (), s') \<Longrightarrow> bds_byID s' (bd_ID d) = Some d"
  by (auto simp: mem_CreateBoundDevice_def split: if_splits)

lemma validate_run:
  assumes "token \<noteq> ''''" and "mem_GetBoundDeviceByTokenHash (bound (db w)) (HashToken token) = Inr d"
    and "bds_byID (bound (db w)) (bd_ID d) = Some d" and "bd_RevokedAt d = None" and "\<forall>x. bd_ExpiresAt d = Some x \<longrightarrow> clock w < x"
    and "mem_GetUserByID (users (db w)) (bd_UserID d) = Inr u" and "\<not> lo_locked (lockouts (db w)) (u_ID u)" and "faults w = []"
  shows "\<exists>d' w'. ValidateDevice s token w = (Inr (u, d'), w') \<and> bd_ID d' = bd_ID d \<and> bd_UserID d' = bd_UserID d"
  using assms
  by (simp add: ValidateDevice_def run_defs mem_IsAccountLocked_def mem_TouchBoundDevice_def Before_def split: option.splits)

text \<open>
  The token of a sign-in keeps working: at every instant before the device expires, if it does at all,
  it resolves to the user who signed in and to that device.
\<close>

theorem device_token_roundtrip:
  assumes "SignIn s login pin n ua ip w = (Inr res, w')" and "\<And>l. only_reads (nv_resolver s l)" and "us_inv (users (db w))"
    and "faults w' = []" and "0 < nc_DeviceTokenTTL (nv_cfg s) \<longrightarrow> now < clock w + nc_DeviceTokenTTL (nv_cfg s)"
  shows "\<exists>d w2. ValidateDevice s (si_Token res) (w'\<lparr>clock := now\<rparr>) = (Inr (si_User res, d), w2) \<and>
     bd_ID d = bd_ID (si_Device res) \<and> bd_UserID d = u_ID (si_User res)"
proof -
  obtain uid u w3 where f: "mem_GetUserByID (users (db w)) uid = Inr u" "\<not> lo_locked (lockouts (db w)) uid"
    and b: "bindDevice s u n ua ip (clock w) w3 = (Inr res, w')"
    and k: "users (db w3) = users (db w)" "lo_locked (lockouts (db w3)) = lo_locked (lockouts (db w))"
    using SignIn_ok [OF assms(1,2)] by blast
  note d = bindDevice_ok [OF b]
  have "mem_GetBoundDeviceByTokenHash (bound (db w')) (HashToken (si_Token res)) = Inr (si_Device res)"
    using d bound_tab.create_get [of "si_Device res"] by metis
  moreover have "bds_byID (bound (db w')) (bd_ID (si_Device res)) = Some (si_Device res)"
    using d created_bound by blast
  ultimately show ?thesis
    using validate_run [of "si_Token res" "w'\<lparr>clock := now\<rparr>" "si_Device res" u s] d f k assms(4,5) us_get_id [OF assms(3) f(1)]
    by auto
qed

definition out :: "world \<Rightarrow> bound_device \<Rightarrow> bool" where
  "out w d \<longleftrightarrow> bds_byHash (bound (db w)) (bd_TokenHash d) = Some (bd_ID d) \<and>
     (\<exists>d'. bds_byID (bound (db w)) (bd_ID d) = Some d' \<and> bd_RevokedAt d' \<noteq> None)"

lemma out_refused:
  assumes "out w d" and "bd_TokenHash d = HashToken token"
  shows "fst (ValidateDevice s token w) \<noteq> Inr x"
proof
  assume "fst (ValidateDevice s token w) = Inr x"
  then obtain w2 where "ValidateDevice s token w = (Inr x, w2)" by (metis prod.collapse)
  then have "\<exists>d. mem_GetBoundDeviceByTokenHash (bound (db w)) (HashToken token) = Inr d \<and> bd_RevokedAt d = None"
    unfolding ValidateDevice_def by (auto simp: port_defs split: if_splits)
  then show False using assms by (auto simp: out_def mem_GetBoundDeviceByTokenHash_def row_via_def)
qed

lemma revoke_bound_out:
  assumes "bds_byHash (bound (db w)) (bd_TokenHash d) = Some (bd_ID d)" and "bds_byID (bound (db w)) (bd_ID d) = Some d"
    and "mem_RevokeBoundDevice (bd_ID d) t (bound (db w)) = (r, s')"
  shows "bds_byHash s' (bd_TokenHash d) = Some (bd_ID d) \<and> (\<exists>d'. bds_byID s' (bd_ID d) = Some d' \<and> bd_RevokedAt d' \<noteq> None)"
  using assms by (auto simp: mem_RevokeBoundDevice_def split: if_splits)

text \<open>
  C40. A revoked device is out at once, whoever revoked it: the office, by id or with every device of the user, or the
  device itself; in the stores the revocation leaves, its token is refused at any later instant.
\<close>

theorem revoked_device_refused:
  assumes "bds_inv (bound (db w))" and "mem_GetBoundDeviceByTokenHash (bound (db w)) (HashToken token) = Inr d"
    and "RevokeDevice actor (bd_ID d) w = (Inr (), w') \<or> RevokeDeviceByToken token w = (Inr (), w') \<or>
      RevokeAllDevices actor (bd_UserID d) w = (Inr k, w')"
  shows "fst (ValidateDevice s token (w'\<lparr>clock := now\<rparr>)) \<noteq> Inr x"
proof -
  have row: "bds_byID (bound (db w)) (bd_ID d) = Some d" "bd_TokenHash d = HashToken token"
    by (rule bds_get_row [OF assms(1,2)])+
  have ix: "bds_byHash (bound (db w)) (bd_TokenHash d) = Some (bd_ID d)"
  proof -
    obtain i where "bds_byHash (bound (db w)) (HashToken token) = Some i" "bds_byID (bound (db w)) i = Some d"
      using assms(2) unfolding mem_GetBoundDeviceByTokenHash_def by (blast dest: row_via_SomeD)
    moreover then have "bd_ID d = i" using assms(1) by (simp add: bds_inv_def)
    ultimately show ?thesis using row(2) by simp
  qed
  have listed: "bd_ID d \<in> set (bds_byUserID (bound (db w)) (bd_UserID d))"
  proof -
    have "lists_rows (\<lambda>d. Some (bd_UserID d)) (bds_byUserID (bound (db w))) (bds_byID (bound (db w)))"
      using assms(1) unfolding bds_inv_def by blast
    then show ?thesis using row(1) lists_rows_iff by fastforce
  qed
  have "out (w'\<lparr>clock := now\<rparr>) d"
    using assms(3)
  proof (elim disjE)
    assume "RevokeDevice actor (bd_ID d) w = (Inr (), w')"
    then show ?thesis unfolding RevokeDevice_def out_def
      by (auto simp: port_defs mem_GetBoundDevice_def row(1) dest!: revoke_bound_out [OF ix row(1)])
  next
    assume "RevokeDeviceByToken token w = (Inr (), w')"
    then show ?thesis unfolding RevokeDeviceByToken_def out_def
      by (auto simp: port_defs assms(2) row(1) ix dest!: revoke_bound_out [OF ix row(1)] split: if_splits)
  next
    assume "RevokeAllDevices actor (bd_UserID d) w = (Inr k, w')"
    then show ?thesis unfolding RevokeAllDevices_def out_def
      by (auto simp: port_defs revoke_all_bound_eq [OF assms(1)] row(1) ix listed split: if_splits)
  qed
  then show ?thesis using row(2) by (rule out_refused)
qed


text \<open>
  An imported device keeps its token: after importing the hash another implementation stored, in whatever
  case and with whatever space around it, the token hashed there signs the same user in, until the device expires.
\<close>

theorem import_device_roundtrip:
  assumes "ImportDevice i w = (Inr d, w')" and "ToLower (TrimSpace (im_TokenHash i)) = HashToken token" and "token \<noteq> ''''"
    and "im_RevokedAt i = None" and "\<forall>x. im_ExpiresAt i = Some x \<longrightarrow> now < x" and "us_inv (users (db w))"
    and "\<not> lo_locked (lockouts (db w)) (im_UserID i)" and "faults w' = []"
  shows "\<exists>u d' w2. ValidateDevice s token (w'\<lparr>clock := now\<rparr>) = (Inr (u, d'), w2) \<and> u_ID u = im_UserID i \<and> bd_ID d' = bd_ID d"
proof -
  have "\<exists>u. mem_GetUserByID (users (db w)) (im_UserID i) = Inr u \<and> mem_CreateBoundDevice d (bound (db w)) = (Inr (), bound (db w')) \<and>
      bd_UserID d = im_UserID i \<and> bd_TokenHash d = HashToken token \<and> bd_RevokedAt d = None \<and> bd_ExpiresAt d = im_ExpiresAt i \<and>
      users (db w') = users (db w) \<and> lockouts (db w') = lockouts (db w)"
    using assms(1,2,4) unfolding ImportDevice_def Let_def by (auto simp: port_defs split: if_splits)
  then obtain u where u: "mem_GetUserByID (users (db w)) (im_UserID i) = Inr u"
    and c: "mem_CreateBoundDevice d (bound (db w)) = (Inr (), bound (db w'))"
    and d: "bd_UserID d = im_UserID i" "bd_TokenHash d = HashToken token" "bd_RevokedAt d = None" "bd_ExpiresAt d = im_ExpiresAt i"
      "users (db w') = users (db w)" "lockouts (db w') = lockouts (db w)" by blast
  have uid: "u_ID u = im_UserID i" by (rule us_get_id [OF assms(6) u])
  have "mem_GetBoundDeviceByTokenHash (bound (db w')) (HashToken token) = Inr d"
    using bound_tab.create_get [OF c] d(2) by simp
  then have "\<exists>d' w2. ValidateDevice s token (w'\<lparr>clock := now\<rparr>) = (Inr (u, d'), w2) \<and> bd_ID d' = bd_ID d \<and> bd_UserID d' = bd_UserID d"
    using created_bound [OF c] assms d u uid by (intro validate_run) simp_all
  then show ?thesis using uid by blast
qed

section \<open>On concrete worlds\<close>

definition demo_pin_service :: pin_service where
  "demo_pin_service = \<lparr>nv_Tx = False, nv_resolver = ByEmail, nv_dummyDone = True, nv_cfg =
     nc_withDefaults \<lparr>nc_PINLength = 0, nc_MaxFailedAttempts = 0, nc_LockDuration = 0, nc_DeviceTokenTTL = 100, nc_LastUsedInterval = 0,
       nc_Hasher = demo_hasher, nc_RateLimiter = Noop, nc_BeforeBind = None, nc_AfterSignIn = None\<rparr>\<rparr>"

lemma demo_pin_service:
  "demo_pin_service = \<lparr>nv_Tx = False, nv_resolver = ByEmail, nv_dummyDone = True, nv_cfg =
     \<lparr>nc_PINLength = 6, nc_MaxFailedAttempts = 5, nc_LockDuration = 900000000000, nc_DeviceTokenTTL = 100, nc_LastUsedInterval = 60000000000,
       nc_Hasher = demo_hasher, nc_RateLimiter = Noop, nc_BeforeBind = None, nc_AfterSignIn = None\<rparr>\<rparr>"
  by (simp add: demo_pin_service_def nc_withDefaults_def Let_def duration_defs)

definition demo_pin_world :: world where
  "demo_pin_world = demo_world\<lparr>db := (db demo_world)\<lparr>pins := [''u1'' \<mapsto>
     \<lparr>pc_UserID = ''u1'', pc_PINHash = ''h:123456'', pc_CreatedAt = 0, pc_UpdatedAt = 0\<rparr>]\<rparr>\<rparr>"

lemma demo_pin_norm: "TrimSpace ''a@x'' = ''a@x''" "ToLower ''a@x'' = ''a@x''" "TrimSpace ''phone'' = ''phone''"
  by code_simp+

lemma demo_pin_users: "us_inv (users (db demo_pin_world))"
  by (simp add: demo_pin_world_def demo_defs mem_defs us_inv_def points_into_def)

lemma demo_pin_reads: "only_reads (nv_resolver demo_pin_service l)"
  by (simp add: demo_pin_service ByEmail_reads)

lemma demo_sign_in:
  obtains res w' where "SignIn demo_pin_service ''a@x'' ''123456'' ''phone'' ''ua'' ''ip'' demo_pin_world = (Inr res, w')" and "faults w' = []"
proof -
  have "\<exists>res w'. SignIn demo_pin_service ''a@x'' ''123456'' ''phone'' ''ua'' ''ip'' demo_pin_world = (Inr res, w') \<and> faults w' = []"
    by (simp add: SignIn_def demo_pin_norm demo_norm Let_def admitAttempt_def checkPIN_def acceptPIN_def bindDevice_def resolve_def ByEmail_def
        chargeAttempt_def chargeLook_def chargeRecord_def chargeRecount_def PIN_rehashIfNeeded_def found_def device_name_def userKey_def
        AllowEach_def HasSuffix_colon_def Allow_def Noop_def After_def
        demo_pin_service demo_pin_world_def demo_defs run_defs mem_defs row_via_def append_id_def no_ids_def)
  then show thesis using that by blast
qed


theorem pin_sign_in_sound_witness:
  "\<exists>res w'. SignIn demo_pin_service ''a@x'' ''123456'' ''phone'' ''ua'' ''ip'' demo_pin_world = (Inr res, w') \<and>
     mem_GetBoundDeviceByTokenHash (bound (db w')) (HashToken (si_Token res)) = Inr (si_Device res)"
proof -
  obtain res w' where run: "SignIn demo_pin_service ''a@x'' ''123456'' ''phone'' ''ua'' ''ip'' demo_pin_world = (Inr res, w')"
    by (rule demo_sign_in)
  show ?thesis using pin_sign_in_sound [OF run demo_pin_reads demo_pin_users] run by blast
qed

theorem device_token_roundtrip_witness:
  "\<exists>res w' d w2. SignIn demo_pin_service ''a@x'' ''123456'' ''phone'' ''ua'' ''ip'' demo_pin_world = (Inr res, w') \<and>
     ValidateDevice demo_pin_service (si_Token res) (w'\<lparr>clock := 99\<rparr>) = (Inr (si_User res, d), w2)"
proof -
  obtain res w' where run: "SignIn demo_pin_service ''a@x'' ''123456'' ''phone'' ''ua'' ''ip'' demo_pin_world = (Inr res, w')" "faults w' = []"
    by (rule demo_sign_in)
  have "0 < nc_DeviceTokenTTL (nv_cfg demo_pin_service) \<longrightarrow> 99 < clock demo_pin_world + nc_DeviceTokenTTL (nv_cfg demo_pin_service)"
    by (simp add: demo_pin_service demo_pin_world_def demo_defs)
  from device_token_roundtrip [OF run(1) demo_pin_reads demo_pin_users run(2) this] run(1) show ?thesis by blast
qed

definition demo_bound :: bound_device where
  "demo_bound = \<lparr>bd_ID = ''b1'', bd_UserID = ''u1'', bd_Name = ''phone'', bd_TokenHash = HashToken ''dev'', bd_UserAgent = '''',
     bd_IPAddress = '''', bd_ExpiresAt = None, bd_LastUsedAt = None, bd_RevokedAt = None, bd_CreatedAt = 0\<rparr>"

definition demo_bound_world :: world where
  "demo_bound_world = demo_pin_world\<lparr>db := (db demo_pin_world)\<lparr>bound := snd (mem_CreateBoundDevice demo_bound NewBoundDeviceStore)\<rparr>\<rparr>"

lemma demo_bound_facts:
  "bds_inv (bound (db demo_bound_world))" "mem_GetBoundDeviceByTokenHash (bound (db demo_bound_world)) (HashToken ''dev'') = Inr demo_bound"
proof -
  obtain r s where c: "mem_CreateBoundDevice demo_bound NewBoundDeviceStore = (r, s)" by (meson prod.exhaust)
  then show "bds_inv (bound (db demo_bound_world))"
    using bds_inv_create [OF bds_inv_new c] by (simp add: demo_bound_world_def c)
  show "mem_GetBoundDeviceByTokenHash (bound (db demo_bound_world)) (HashToken ''dev'') = Inr demo_bound"
    by (simp add: demo_bound_world_def demo_bound_def mem_defs NewBoundDeviceStore_def row_via_def)
qed

theorem revoked_device_refused_witness:
  "\<exists>n w'. RevokeAllDevices ''op'' ''u1'' demo_bound_world = (Inr n, w') \<and>
     (\<forall>x. fst (ValidateDevice demo_pin_service ''dev'' (w'\<lparr>clock := 7\<rparr>)) \<noteq> Inr x)"
proof -
  have "\<exists>n w'. RevokeAllDevices ''op'' ''u1'' demo_bound_world = (Inr n, w')"
    by (simp add: RevokeAllDevices_def demo_bound_world_def demo_bound_def demo_pin_world_def append_id_def demo_defs run_defs mem_defs no_ids_def)
  then obtain n w' where run: "RevokeAllDevices ''op'' ''u1'' demo_bound_world = (Inr n, w')" by blast
  then have "RevokeAllDevices ''op'' (bd_UserID demo_bound) demo_bound_world = (Inr n, w')" by (simp add: demo_bound_def)
  with revoked_device_refused [OF demo_bound_facts] run show ?thesis by blast
qed

theorem import_device_roundtrip_witness:
  "\<exists>i d w' u d' w2. ImportDevice i demo_pin_world = (Inr d, w') \<and> ValidateDevice demo_pin_service ''abc'' (w'\<lparr>clock := 5\<rparr>) = (Inr (u, d'), w2) \<and>
     u_ID u = ''u1'' \<and> im_TokenHash i = '' BA7816BF8F01CFEA414140DE5DAE2223B00361A396177A9CB410FF61F20015AD''"
proof -
  let ?i = "\<lparr>im_UserID = ''u1'', im_Name = ''phone'', im_TokenHash = '' BA7816BF8F01CFEA414140DE5DAE2223B00361A396177A9CB410FF61F20015AD'',
     im_UserAgent = '''', im_IPAddress = '''', im_ExpiresAt = None, im_LastUsedAt = None, im_RevokedAt = None, im_CreatedAt = 0\<rparr>"
  have low: "ToLower (TrimSpace '' BA7816BF8F01CFEA414140DE5DAE2223B00361A396177A9CB410FF61F20015AD'') =
      ''ba7816bf8f01cfea414140de5dae2223b00361a396177a9cb410ff61f20015ad''" by code_simp
  then have h: "ToLower (TrimSpace (im_TokenHash ?i)) = HashToken ''abc''" by (simp add: HashToken_abc)
  have "\<exists>d w'. ImportDevice ?i demo_pin_world = (Inr d, w') \<and> faults w' = []"
    by (simp add: ImportDevice_def low Let_def is_sha256_hex_def hex_digits_def device_name_def demo_pin_norm zero_time_def
        demo_pin_world_def demo_defs run_defs mem_defs append_id_def no_ids_def)
  then obtain d w' where run: "ImportDevice ?i demo_pin_world = (Inr d, w')" "faults w' = []" by blast
  have "\<not> lo_locked (lockouts (db demo_pin_world)) (im_UserID ?i)" by (simp add: demo_pin_world_def demo_defs)
  from import_device_roundtrip [OF run(1) h _ _ _ demo_pin_users this run(2), of 5 demo_pin_service]
  obtain u d' w2 where "ValidateDevice demo_pin_service ''abc'' (w'\<lparr>clock := 5\<rparr>) = (Inr (u, d'), w2)" "u_ID u = im_UserID ?i" by auto
  then show ?thesis using run(1) by (intro exI [of _ ?i] exI [of _ d] exI [of _ w'] exI [of _ u] exI [of _ d'] exI [of _ w2]) simp
qed

theorem pin_guess_budget_witness:
  "\<exists>w' C. (charge_step demo_pin_service ''k'' 0)\<^sup>*\<^sup>* (demo_world, \<lambda>_. Idle) (w', C) \<and> C 0 = Charged False \<and>
     int (card {k. C k = Charged False}) \<le> 5"
proof -
  have "\<exists>w1. chargeLook demo_pin_service ''k'' 1 demo_world = (Inr False, w1) \<and>
      (\<exists>w2. chargeRecord ''k'' '''' 1 w1 = (Inr (), w2) \<and> (\<exists>w3. chargeRecount demo_pin_service ''k'' 1 w2 = (Inr False, w3)))"
    by (simp add: chargeLook_def chargeRecord_def chargeRecount_def demo_pin_service After_def demo_defs run_defs mem_defs)
  then obtain w1 w2 w3 where r: "chargeLook demo_pin_service ''k'' 1 demo_world = (Inr False, w1)"
    "chargeRecord ''k'' '''' 1 w1 = (Inr (), w2)" "chargeRecount demo_pin_service ''k'' 1 w2 = (Inr False, w3)" by blast
  let ?C1 = "(\<lambda>_. Idle)(0 := Looked 1)" and ?C2 = "(\<lambda>_. Idle)(0 := Recorded 1)" and ?C3 = "(\<lambda>_. Idle)(0 := Charged False)"
  have a: "charge_step demo_pin_service ''k'' 0 (demo_world, \<lambda>_. Idle) (w1, ?C1)"
    using charge_step.look [of "\<lambda>_. Idle" 0 0 1 demo_pin_service "''k''", OF _ _ _ r(1)] by (simp add: demo_pin_service)
  have b: "charge_step demo_pin_service ''k'' 0 (w1, ?C1) (w2, ?C2)"
    using charge_step.count [of ?C1 0 1 "''k''", OF _ r(2)] by simp
  have c: "charge_step demo_pin_service ''k'' 0 (w2, ?C2) (w3, ?C3)"
    using charge_step.recount [of ?C2 0 1 demo_pin_service "''k''", OF _ r(3)] by simp
  have run: "(charge_step demo_pin_service ''k'' 0)\<^sup>*\<^sup>* (demo_world, \<lambda>_. Idle) (w3, ?C3)"
    by (rule converse_rtranclp_into_rtranclp, rule a, rule converse_rtranclp_into_rtranclp, rule b, rule r_into_rtranclp, rule c)
  have "int (card {k. ?C3 k = Charged False}) \<le> 5"
    using pin_guess_budget [OF run] by (simp add: demo_pin_service)
  moreover have "?C3 0 = Charged False" by simp
  ultimately show ?thesis using run by blast
qed

definition demo_rehash_service :: pin_service where
  "demo_rehash_service = demo_pin_service\<lparr>nv_cfg := (nv_cfg demo_pin_service)\<lparr>nc_Hasher := demo_hasher\<lparr>h_NeedsRehash := \<lambda>_. True\<rparr>\<rparr>\<rparr>"

text \<open>
  A sign-in can undo what an operator just did: the rehash after a right PIN writes the credential it read
  back, so a PIN cleared in between is there again, although the operator's call succeeded.
\<close>

theorem pin_rehash_undoes_clear:
  "\<exists>u c w1 w2 res w3. checkPIN demo_rehash_service ''u1'' ''123456'' ''ua'' ''ip'' demo_pin_world = (Inr (u, c), w1) \<and>
     ClearPIN ''op'' ''u1'' w1 = (Inr (), w2) \<and> mem_GetPINCredential (pins (db w2)) ''u1'' = Inl ErrNotFound \<and>
     acceptPIN demo_rehash_service u c ''123456'' ''k'' ''phone'' ''ua'' ''ip'' 0 w2 = (Inr res, w3) \<and>
     (\<exists>c'. mem_GetPINCredential (pins (db w3)) ''u1'' = Inr c' \<and> h_Verify demo_hasher ''123456'' (pc_PINHash c'))"
  by (simp add: demo_rehash_service_def checkPIN_def acceptPIN_def bindDevice_def ClearPIN_def PIN_rehashIfNeeded_def found_def device_name_def demo_pin_norm Let_def
      demo_pin_service demo_pin_world_def demo_defs run_defs mem_defs row_via_def append_id_def no_ids_def)

end
