(* ===== verification/SuperUser.thy ===== *)
theory SuperUser
  imports UserTwoFactor
begin

text \<open>
  Package \<open>superuser\<close>: the operators' identity plane. \<open>service.go\<close> (accounts), \<open>auth.go\<close> (signing in,
  refreshing, signing out), \<open>twofactor.go\<close>, \<open>account.go\<close> (what a signed-in operator does to its own account),
  \<open>impersonation.go\<close> and \<open>claims.go\<close>. Definitions whose Go name a sibling package uses too start with \<open>SU_\<close>.
\<close>

section \<open>Configuration and service (service.go, claims.go)\<close>

record super_config =
  oc_Audience :: string
  oc_AccessTokenTTL :: duration
  oc_RefreshTokenTTL :: duration
  oc_ImpersonationTTL :: duration
  oc_MaxFailedLoginAttempts :: int
  oc_FailedLoginWindow :: duration
  oc_PasswordHasher :: hasher
  oc_PasswordValidator :: validator
  oc_RateLimiter :: limiter
  oc_TOTPEncryptionKey :: "byte list"
  oc_TOTPIssuer :: string
  oc_BackupCodeCount :: int
  oc_PendingTwoFactorTTL :: duration

definition DefaultAudience :: string where "DefaultAudience = ''authit-superuser''"

definition oc_withDefaults :: "super_config \<Rightarrow> super_config" where
  "oc_withDefaults c =
     (let c = (if oc_Audience c = '''' then c\<lparr>oc_Audience := DefaultAudience\<rparr> else c);
          c = (if oc_AccessTokenTTL c \<le> 0 then c\<lparr>oc_AccessTokenTTL := 5 * minute\<rparr> else c);
          c = (if oc_RefreshTokenTTL c \<le> 0 then c\<lparr>oc_RefreshTokenTTL := 7 * 24 * hour\<rparr> else c);
          c = (if oc_ImpersonationTTL c \<le> 0 then c\<lparr>oc_ImpersonationTTL := 15 * minute\<rparr> else c);
          c = (if oc_MaxFailedLoginAttempts c \<le> 0 then c\<lparr>oc_MaxFailedLoginAttempts := 5\<rparr> else c);
          c = (if oc_FailedLoginWindow c \<le> 0 then c\<lparr>oc_FailedLoginWindow := 15 * minute\<rparr> else c);
          c = (if oc_TOTPIssuer c = '''' then c\<lparr>oc_TOTPIssuer := ''authit-superuser''\<rparr> else c);
          c = (if oc_BackupCodeCount c \<le> 0 then c\<lparr>oc_BackupCodeCount := 10\<rparr> else c)
      in if oc_PendingTwoFactorTTL c \<le> 0 then c\<lparr>oc_PendingTwoFactorTTL := 5 * minute\<rparr> else c)"

record super_claims =
  sc_Subject :: string
  sc_ID :: string
  sc_Audience :: "string list"
  sc_ExpiresAt :: "time option"
  sc_IssuedAt :: "time option"
  sc_Email :: string

definition HasAudience :: "super_claims \<Rightarrow> string \<Rightarrow> bool" where
  "HasAudience c aud \<longleftrightarrow> aud \<in> set (sc_Audience c)"

text \<open>The plane's \<open>jwt.Signer\<close>: \<open>Verify\<close> parses a token at an instant, \<open>None\<close> being any error.\<close>

record super_signer =
  ss_Sign :: "super_claims \<Rightarrow> error + string"
  ss_Verify :: "time \<Rightarrow> string \<Rightarrow> super_claims option"

text \<open>
  \<open>ov_Tx\<close>, \<open>ov_Lockouts\<close> and \<open>ov_TwoFactor\<close> say whether the optional stores are set; \<open>ov_impSigner\<close> signs the
  user-plane tokens of \<open>Impersonate\<close>.
\<close>

record super_service =
  ov_Tx :: bool
  ov_Lockouts :: bool
  ov_TwoFactor :: bool
  ov_signer :: super_signer
  ov_impSigner :: signer
  ov_totp :: totp_lib
  ov_aead :: aead
  ov_cfg :: super_config

definition SU_NewService :: "super_service \<Rightarrow> error + super_service" where
  "SU_NewService s =
     (if ov_TwoFactor s \<and> length (oc_TOTPEncryptionKey (ov_cfg s)) \<noteq> 32
      then Inl (Fault ''authit/superuser: Stores.TwoFactor needs a 32-byte Config.TOTPEncryptionKey'')
      else Inr (s\<lparr>ov_cfg := oc_withDefaults (ov_cfg s)\<rparr>))"

record login_result =
  lr_Tokens :: "token_pair option"
  lr_TwoFactorToken :: string

section \<open>Accounts (service.go)\<close>

text \<open>\<open>createSuperuser\<close>: the new row, and its storing.\<close>

definition newSuperuser :: "super_service \<Rightarrow> string \<Rightarrow> string \<Rightarrow> string \<Rightarrow> string option \<Rightarrow> superuser prog" where
  "newSuperuser s email password displayName createdBy =
     (let email = NormalizeEmail email in
      seq (check (oc_PasswordValidator (ov_cfg s) email password)) (\<lambda>_.
      seq (Hash (oc_PasswordHasher (ov_cfg s)) password) (\<lambda>hash.
      seq NewID (\<lambda>id. with_now (\<lambda>now.
      ret \<lparr>su_ID = id, su_Email = email, su_PasswordHash = hash, su_DisplayName = displayName,
           su_IsActive = True, su_CreatedBy = createdBy, su_LastLoginAt = None,
           su_CreatedAt = now, su_UpdatedAt = now\<rparr>)))))"

definition createSuperuser :: "super_service \<Rightarrow> string \<Rightarrow> string \<Rightarrow> string \<Rightarrow> string option \<Rightarrow> superuser prog" where
  "createSuperuser s email password displayName createdBy =
     seq (newSuperuser s email password displayName createdBy) (\<lambda>su.
     seq (StoreSuperuser su) (\<lambda>_.
     seq (log ((event_of EventSuperuserCreated ResultSuccess)
            \<lparr>ev_ActorID := (case createdBy of None \<Rightarrow> '''' | Some by \<Rightarrow> by),
             ev_TargetID := su_ID su, ev_Email := su_Email su\<rparr>)) (\<lambda>_.
     ret su)))"

definition Bootstrap :: "super_service \<Rightarrow> string \<Rightarrow> string \<Rightarrow> string \<Rightarrow> superuser prog" where
  "Bootstrap s email password displayName =
     seq CountSuperusers (\<lambda>count.
     if count > 0 then raise (Super ErrAlreadyBootstrapped)
     else createSuperuser s email password displayName None)"

definition CreateSuperuser :: "super_service \<Rightarrow> string \<Rightarrow> string \<Rightarrow> string \<Rightarrow> string \<Rightarrow> superuser prog" where
  "CreateSuperuser s email password displayName createdByID =
     createSuperuser s email password displayName (Some createdByID)"

definition CreateFromShell :: "super_service \<Rightarrow> string \<Rightarrow> string \<Rightarrow> string \<Rightarrow> superuser prog" where
  "CreateFromShell s email password displayName = createSuperuser s email password displayName None"

definition ListSuperusers :: "superuser list prog" where
  "ListSuperusers = StoredSuperusers"

definition Deactivate :: "string \<Rightarrow> string \<Rightarrow> unit prog" where
  "Deactivate callerID targetID =
     (if callerID = targetID then raise (Super ErrCannotDeactivateSelf)
      else seq (GetSuperuserByID targetID) (\<lambda>su. with_now (\<lambda>now.
      seq (UpdateSuperuser (su\<lparr>su_IsActive := False, su_UpdatedAt := now\<rparr>)) (\<lambda>_.
      seq (RevokeAllSuperuserRefreshTokens targetID) (\<lambda>_.
      log ((event_of EventSuperuserDeactivated ResultSuccess)\<lparr>ev_ActorID := callerID, ev_TargetID := targetID\<rparr>))))))"

section \<open>Signing in (auth.go)\<close>

definition operator_event ::
  "event_type \<Rightarrow> event_result \<Rightarrow> string \<Rightarrow> string \<Rightarrow> string \<Rightarrow> string \<Rightarrow> (string \<times> meta_value) list \<Rightarrow> event" where
  "operator_event t r actorID email userAgent ipAddress meta =
     (event_of t r)\<lparr>ev_ActorID := actorID, ev_Email := email, ev_UserAgent := userAgent,
        ev_IPAddress := ipAddress, ev_Metadata := meta\<rparr>"

definition SU_throttled :: "super_service \<Rightarrow> string \<Rightarrow> bool prog" where
  "SU_throttled s email =
     (if \<not> ov_Lockouts s then ret False
      else with_now (\<lambda>now.
        seq (CountRecentFailedLoginAttempts email (now - oc_FailedLoginWindow (ov_cfg s))) (\<lambda>count.
        ret (int count \<ge> oc_MaxFailedLoginAttempts (ov_cfg s)))))"

definition SU_recordFailedLogin :: "super_service \<Rightarrow> string \<Rightarrow> unit prog" where
  "SU_recordFailedLogin s email =
     (if \<not> ov_Lockouts s then ret ()
      else on NewID (\<lambda>_. ret ()) (\<lambda>id. with_now (\<lambda>now.
        ignoring (RecordFailedLoginAttempt
          \<lparr>fa_ID = id, fa_Email = email, fa_IPAddress = '''', fa_CreatedAt = now\<rparr>) (ret ()))))"

definition SU_clearFailures :: "super_service \<Rightarrow> string \<Rightarrow> unit prog" where
  "SU_clearFailures s email = (if ov_Lockouts s then ignoring (ClearFailedLoginAttempts email) (ret ()) else ret ())"

definition SU_issueTokenPair ::
  "super_service \<Rightarrow> string \<Rightarrow> string \<Rightarrow> string \<Rightarrow> string \<Rightarrow> token_pair prog" where
  "SU_issueTokenPair s superuserID email userAgent ipAddress =
     seq GenerateOpaqueToken (\<lambda>(rawRefresh, refreshHash).
     seq NewID (\<lambda>id. with_now (\<lambda>now.
     seq (CreateSuperuserRefreshToken
            \<lparr>sr_ID = id, sr_SuperuserID = superuserID, sr_TokenHash = refreshHash,
             sr_ExpiresAt = now + oc_RefreshTokenTTL (ov_cfg s), sr_RevokedAt = None,
             sr_UserAgent = userAgent, sr_IPAddress = ipAddress, sr_CreatedAt = now\<rparr>) (\<lambda>_.
     let expiresAt = now + oc_AccessTokenTTL (ov_cfg s) in
     seq (lift (ss_Sign (ov_signer s)
            \<lparr>sc_Subject = superuserID, sc_ID = id, sc_Audience = [oc_Audience (ov_cfg s)],
             sc_ExpiresAt = Some expiresAt, sc_IssuedAt = Some now, sc_Email = email\<rparr>)) (\<lambda>access.
     ret \<lparr>tp_AccessToken = access, tp_RefreshToken = rawRefresh, tp_ExpiresAt = expiresAt\<rparr>)))))"

definition SU_beginTwoFactorLogin :: "super_service \<Rightarrow> string \<Rightarrow> string prog" where
  "SU_beginTwoFactorLogin s superuserID =
     (if \<not> ov_TwoFactor s then ret ''''
      else on (GetSuperuserTOTPSettings superuserID) (\<lambda>e. if e = ErrNotFound then ret '''' else raise e) (\<lambda>settings.
      if \<not> ts_Enabled settings then ret ''''
      else seq GenerateOpaqueToken (\<lambda>(raw, hash).
      seq NewID (\<lambda>id. with_now (\<lambda>now.
      seq (CreateSuperuserPendingTwoFactorSession
             \<lparr>ps_ID = id, ps_UserID = superuserID, ps_TokenHash = hash,
              ps_ExpiresAt = now + oc_PendingTwoFactorTTL (ov_cfg s), ps_CreatedAt = now\<rparr>) (\<lambda>_.
      ret raw))))))"

text \<open>\<open>Authenticate\<close>: the limiter and the throttle, the account and the password, and what follows.\<close>

definition SU_admit :: "super_service \<Rightarrow> string \<Rightarrow> string \<Rightarrow> string \<Rightarrow> unit prog" where
  "SU_admit s email userAgent ipAddress =
     on (AllowEach (oc_RateLimiter (ov_cfg s)) [''superuser-login:ip:'' @ ipAddress, ''superuser-login:email:'' @ email])
       (\<lambda>e. seq (log (operator_event EventSuperuserLoginFailed ResultDenied '''' email userAgent ipAddress
                        [(''reason'', MStr ''rate_limited'')])) (\<lambda>_. raise e))
       (\<lambda>_. seq (SU_throttled s email) (\<lambda>throttled.
         if throttled
         then seq (log (operator_event EventSuperuserLoginLocked ResultDenied '''' email userAgent ipAddress []))
                (\<lambda>_. raise (Super Super_ErrAccountLocked))
         else ret ()))"

definition SU_rehash :: "super_service \<Rightarrow> superuser \<Rightarrow> string \<Rightarrow> superuser prog" where
  "SU_rehash s su password =
     (if \<not> h_NeedsRehash (oc_PasswordHasher (ov_cfg s)) (su_PasswordHash su) then ret su
      else on (Hash (oc_PasswordHasher (ov_cfg s)) password) (\<lambda>_. ret su) (\<lambda>hash. with_now (\<lambda>now.
        let su = su\<lparr>su_PasswordHash := hash, su_UpdatedAt := now\<rparr> in
        ignoring (UpdateSuperuser su) (ret su))))"

definition SU_checkPassword :: "super_service \<Rightarrow> string \<Rightarrow> string \<Rightarrow> string \<Rightarrow> string \<Rightarrow> superuser prog" where
  "SU_checkPassword s email password userAgent ipAddress =
     on (GetSuperuserByEmail email)
       (\<lambda>e. if e = ErrNotFound
            then seq (SU_recordFailedLogin s email) (\<lambda>_.
                 seq (log (operator_event EventSuperuserLoginFailed ResultFailure '''' email userAgent ipAddress [])) (\<lambda>_.
                 raise (Super Super_ErrInvalidCredentials)))
            else raise e)
       (\<lambda>su.
     seq (if ov_Lockouts s then IsAccountLocked (su_ID su) else ret False) (\<lambda>locked.
     if locked
     then seq (log (operator_event EventSuperuserLoginLocked ResultDenied (su_ID su) email userAgent ipAddress []))
            (\<lambda>_. raise (Super Super_ErrAccountLocked))
     else if \<not> h_Verify (oc_PasswordHasher (ov_cfg s)) password (su_PasswordHash su)
     then seq (SU_recordFailedLogin s email) (\<lambda>_.
          seq (log (operator_event EventSuperuserLoginFailed ResultFailure (su_ID su) email userAgent ipAddress [])) (\<lambda>_.
          raise (Super Super_ErrInvalidCredentials)))
     else seq (SU_rehash s su password) (\<lambda>su.
     if \<not> su_IsActive su
     then seq (log (operator_event EventSuperuserLoginFailed ResultDenied (su_ID su) email userAgent ipAddress
                      [(''reason'', MStr ''inactive'')]))
            (\<lambda>_. raise (Super ErrInactive))
     else ret su)))"

definition SU_finishLogin :: "super_service \<Rightarrow> superuser \<Rightarrow> string \<Rightarrow> string \<Rightarrow> string \<Rightarrow> login_result prog" where
  "SU_finishLogin s su email userAgent ipAddress =
     seq (SU_beginTwoFactorLogin s (su_ID su)) (\<lambda>pending.
     if pending \<noteq> '''' then ret \<lparr>lr_Tokens = None, lr_TwoFactorToken = pending\<rparr>
     else seq (SU_clearFailures s email) (\<lambda>_. with_now (\<lambda>now.
     ignoring (UpdateSuperuser (su\<lparr>su_LastLoginAt := Some now\<rparr>))
     (seq (SU_issueTokenPair s (su_ID su) (su_Email su) userAgent ipAddress) (\<lambda>tokens.
      seq (log (operator_event EventSuperuserLoginSucceeded ResultSuccess (su_ID su) (su_Email su) userAgent ipAddress []))
        (\<lambda>_. ret \<lparr>lr_Tokens = Some tokens, lr_TwoFactorToken = ''''\<rparr>))))))"

definition SU_Authenticate :: "super_service \<Rightarrow> string \<Rightarrow> string \<Rightarrow> string \<Rightarrow> string \<Rightarrow> login_result prog" where
  "SU_Authenticate s email password userAgent ipAddress =
     (let email = NormalizeEmail email in
      seq (SU_admit s email userAgent ipAddress) (\<lambda>_.
      seq (SU_checkPassword s email password userAgent ipAddress) (\<lambda>su.
      SU_finishLogin s su email userAgent ipAddress)))"

section \<open>Refreshing and signing out (auth.go)\<close>

definition SU_revokeFamilyOnReuse :: "superuser_token \<Rightarrow> string \<Rightarrow> string \<Rightarrow> unit prog" where
  "SU_revokeFamilyOnReuse t userAgent ipAddress =
     (let report = (\<lambda>result. log ((event_of EventSuperuserTokenReuse result)
            \<lparr>ev_ActorID := sr_SuperuserID t, ev_UserAgent := userAgent, ev_IPAddress := ipAddress,
             ev_Metadata := [(''refresh_token_id'', MStr (sr_ID t))]\<rparr>))
      in on (RevokeAllSuperuserRefreshTokens (sr_SuperuserID t)) (\<lambda>_. report ResultFailure)
           (\<lambda>_. report ResultSuccess))"

text \<open>\<open>Refresh\<close>: what is read, and the transaction with what follows.\<close>

definition SU_refreshLookup :: "string \<Rightarrow> string \<Rightarrow> string \<Rightarrow> (superuser_token \<times> superuser) prog" where
  "SU_refreshLookup refreshToken userAgent ipAddress =
     on (GetSuperuserRefreshTokenByHash (HashToken refreshToken))
       (\<lambda>e. if e = ErrNotFound then raise (Super Super_ErrInvalidToken) else raise e) (\<lambda>t. with_now (\<lambda>now.
     if After now (sr_ExpiresAt t) then raise (Super Super_ErrInvalidToken)
     else if sr_RevokedAt t \<noteq> None
     then seq (SU_revokeFamilyOnReuse t userAgent ipAddress) (\<lambda>_. raise (Super Super_ErrInvalidToken))
     else seq (GetSuperuserByID (sr_SuperuserID t)) (\<lambda>su.
     if \<not> su_IsActive su then raise (Super ErrInactive) else ret (t, su))))"

definition SU_refreshSpend :: "super_service \<Rightarrow> superuser_token \<Rightarrow> superuser \<Rightarrow> string \<Rightarrow> string \<Rightarrow> token_pair prog" where
  "SU_refreshSpend s t su userAgent ipAddress =
     on (RunInTx (ov_Tx s)
          (seq (ConsumeSuperuserRefreshToken (sr_ID t)) (\<lambda>consumed.
           if \<not> consumed then raise errTokenSpent
           else SU_issueTokenPair s (su_ID su) (su_Email su) userAgent ipAddress)))
       (\<lambda>e. if e = errTokenSpent
            then seq (SU_revokeFamilyOnReuse t userAgent ipAddress) (\<lambda>_. raise (Super Super_ErrInvalidToken))
            else raise e)
       (\<lambda>tokens.
     seq (log (operator_event EventSuperuserTokenRefreshed ResultSuccess (su_ID su) (su_Email su) userAgent ipAddress []))
       (\<lambda>_. ret tokens))"

definition SU_Refresh :: "super_service \<Rightarrow> string \<Rightarrow> string \<Rightarrow> string \<Rightarrow> token_pair prog" where
  "SU_Refresh s refreshToken userAgent ipAddress =
     seq (SU_refreshLookup refreshToken userAgent ipAddress) (\<lambda>(t, su).
     SU_refreshSpend s t su userAgent ipAddress)"

definition SU_Logout :: "string \<Rightarrow> unit prog" where
  "SU_Logout refreshToken =
     on (GetSuperuserRefreshTokenByHash (HashToken refreshToken))
       (\<lambda>e. if e = ErrNotFound then ret () else raise e) (\<lambda>t.
     seq (RevokeSuperuserRefreshToken (sr_ID t)) (\<lambda>_.
     log ((event_of EventSuperuserLogout ResultSuccess)\<lparr>ev_ActorID := sr_SuperuserID t\<rparr>)))"

definition SU_Verify :: "super_service \<Rightarrow> string \<Rightarrow> super_claims prog" where
  "SU_Verify s token = with_now (\<lambda>now.
     case ss_Verify (ov_signer s) now token of
       None \<Rightarrow> raise (Super Super_ErrInvalidToken)
     | Some claims \<Rightarrow>
         if \<not> HasAudience claims (oc_Audience (ov_cfg s)) then raise (Super Super_ErrInvalidToken) else ret claims)"

section \<open>The second factor (twofactor.go)\<close>

record super_status =
  sp_Available :: bool
  sp_Enabled :: bool
  sp_VerifiedAt :: "time option"
  sp_RemainingBackupCodes :: nat

definition SU_TwoFactorStatus :: "super_service \<Rightarrow> string \<Rightarrow> super_status prog" where
  "SU_TwoFactorStatus s superuserID =
     (let none = (\<lambda>available. \<lparr>sp_Available = available, sp_Enabled = False, sp_VerifiedAt = None,
                                sp_RemainingBackupCodes = 0\<rparr>) in
      if \<not> ov_TwoFactor s then ret (none False)
      else on (GetSuperuserTOTPSettings superuserID) (\<lambda>e. if e = ErrNotFound then ret (none True) else raise e) (\<lambda>settings.
      ret \<lparr>sp_Available = True, sp_Enabled = ts_Enabled settings, sp_VerifiedAt = ts_VerifiedAt settings,
           sp_RemainingBackupCodes = length (ts_RecoveryCodeHashes settings)\<rparr>))"

definition SU_BeginTwoFactorSetup :: "super_service \<Rightarrow> string \<Rightarrow> string \<Rightarrow> two_factor_setup prog" where
  "SU_BeginTwoFactorSetup s superuserID email =
     (let c = ov_cfg s;
          enrol = (\<lambda>store.
            seq (GenerateTOTPSecret (ov_totp s) (oc_TOTPIssuer c) email) (\<lambda>(secret, url).
            seq (EncryptSecret (ov_aead s) (oc_TOTPEncryptionKey c) secret) (\<lambda>encrypted. with_now (\<lambda>now.
            seq (store encrypted now) (\<lambda>_. ret \<lparr>tf_Secret = secret, tf_OTPAuthURL = url\<rparr>)))))
      in
      if \<not> ov_TwoFactor s then raise (Super ErrTwoFactorUnavailable)
      else on (GetSuperuserTOTPSettings superuserID)
        (\<lambda>e. if e \<noteq> ErrNotFound then raise e
             else enrol (\<lambda>encrypted now.
               seq NewID (\<lambda>id.
               CreateSuperuserTOTPSettings
                 \<lparr>ts_ID = id, ts_UserID = superuserID, ts_SecretEncrypted = encrypted, ts_Enabled = False,
                  ts_VerifiedAt = None, ts_RecoveryCodeHashes = [], ts_RecoveryCodesUsed = 0,
                  ts_CreatedAt = now, ts_UpdatedAt = now\<rparr>)))
        (\<lambda>existing.
           if ts_Enabled existing then raise (Super Super_ErrTwoFactorEnabled)
           else enrol (\<lambda>encrypted now.
             UpdateSuperuserTOTPSettings (existing\<lparr>ts_SecretEncrypted := encrypted, ts_UpdatedAt := now\<rparr>))))"

definition SU_totp :: "super_service \<Rightarrow> string \<Rightarrow> (totp_settings \<times> string) prog" where
  "SU_totp s superuserID =
     (if \<not> ov_TwoFactor s then raise (Super ErrTwoFactorUnavailable)
      else on (GetSuperuserTOTPSettings superuserID)
        (\<lambda>e. if e = ErrNotFound then raise (Super Super_ErrTwoFactorNotEnabled) else raise e) (\<lambda>settings.
      seq (lift (DecryptSecret (ov_aead s) (oc_TOTPEncryptionKey (ov_cfg s)) (ts_SecretEncrypted settings))) (\<lambda>secret.
      ret (settings, secret))))"

definition SU_enabledTOTP :: "super_service \<Rightarrow> string \<Rightarrow> (totp_settings \<times> string) prog" where
  "SU_enabledTOTP s superuserID =
     seq (SU_totp s superuserID) (\<lambda>(settings, secret).
     if \<not> ts_Enabled settings then raise (Super Super_ErrTwoFactorNotEnabled) else ret (settings, secret))"

text \<open>\<open>newBackupCodes\<close> changes the settings in place; here it returns them with the codes.\<close>

definition SU_newBackupCodes :: "super_service \<Rightarrow> totp_settings \<Rightarrow> (totp_settings \<times> string list) prog" where
  "SU_newBackupCodes s settings =
     seq (GenerateBackupCodes (nat (oc_BackupCodeCount (ov_cfg s)))) (\<lambda>codes.
     ret (settings\<lparr>ts_RecoveryCodeHashes := map HashBackupCode codes, ts_RecoveryCodesUsed := 0\<rparr>, codes))"

definition SU_consumeBackupCode :: "totp_settings \<Rightarrow> string \<Rightarrow> bool \<times> totp_settings" where
  "SU_consumeBackupCode settings code =
     (case cut_first (HashBackupCode code) (ts_RecoveryCodeHashes settings) of
        None \<Rightarrow> (False, settings)
      | Some hs \<Rightarrow> (True, settings\<lparr>ts_RecoveryCodeHashes := hs,
                       ts_RecoveryCodesUsed := ts_RecoveryCodesUsed settings + 1\<rparr>))"

definition SU_ConfirmTwoFactorSetup :: "super_service \<Rightarrow> string \<Rightarrow> string \<Rightarrow> string list prog" where
  "SU_ConfirmTwoFactorSetup s superuserID code =
     seq (SU_totp s superuserID) (\<lambda>(settings, secret). with_now (\<lambda>now.
     if ts_Enabled settings then raise (Super Super_ErrTwoFactorEnabled)
     else if \<not> ValidateTOTPCode (ov_totp s) now secret code then raise (Super Super_ErrInvalidTwoFactor)
     else seq (SU_newBackupCodes s settings) (\<lambda>(settings, codes).
     seq (UpdateSuperuserTOTPSettings (settings\<lparr>ts_Enabled := True, ts_VerifiedAt := Some now, ts_UpdatedAt := now\<rparr>)) (\<lambda>_.
     seq (log ((event_of EventSuperuserTwoFactorEnabled ResultSuccess)\<lparr>ev_ActorID := superuserID\<rparr>)) (\<lambda>_.
     ret codes)))))"

definition SU_DisableTwoFactor :: "super_service \<Rightarrow> string \<Rightarrow> string \<Rightarrow> unit prog" where
  "SU_DisableTwoFactor s superuserID code =
     seq (SU_enabledTOTP s superuserID) (\<lambda>(settings, secret). with_now (\<lambda>now.
     if \<not> ValidateTOTPCode (ov_totp s) now secret code \<and> \<not> fst (SU_consumeBackupCode settings code)
     then seq (log ((event_of EventSuperuserTwoFactorDisabled ResultFailure)\<lparr>ev_ActorID := superuserID\<rparr>))
            (\<lambda>_. raise (Super Super_ErrInvalidTwoFactor))
     else seq (DeleteSuperuserTOTPSettings superuserID) (\<lambda>_.
     log ((event_of EventSuperuserTwoFactorDisabled ResultSuccess)\<lparr>ev_ActorID := superuserID\<rparr>))))"

definition SU_RegenerateBackupCodes :: "super_service \<Rightarrow> string \<Rightarrow> string \<Rightarrow> string list prog" where
  "SU_RegenerateBackupCodes s superuserID code =
     seq (SU_enabledTOTP s superuserID) (\<lambda>(settings, secret). with_now (\<lambda>now.
     if \<not> ValidateTOTPCode (ov_totp s) now secret code then raise (Super Super_ErrInvalidTwoFactor)
     else seq (SU_newBackupCodes s settings) (\<lambda>(settings, codes).
     seq (UpdateSuperuserTOTPSettings (settings\<lparr>ts_UpdatedAt := now\<rparr>)) (\<lambda>_.
     seq (log ((event_of EventSuperuserBackupCodesRegenerated ResultSuccess)\<lparr>ev_ActorID := superuserID\<rparr>)) (\<lambda>_.
     ret codes)))))"

text \<open>\<open>VerifyTwoFactorLogin\<close>: the checks up to the transaction, and the transaction with what follows.\<close>

record super_verified =
  sf_pending :: pending_session
  sf_superuser :: superuser
  sf_settings :: totp_settings
  sf_usedBackupCode :: bool

definition SU_pendingOperator :: "super_service \<Rightarrow> string \<Rightarrow> (pending_session \<times> superuser) prog" where
  "SU_pendingOperator s pendingToken =
     (if \<not> ov_TwoFactor s then raise (Super Super_ErrInvalidToken)
      else on (GetSuperuserPendingTwoFactorSessionByHash (HashToken pendingToken))
        (\<lambda>e. if e = ErrNotFound then raise (Super Super_ErrInvalidToken) else raise e) (\<lambda>p. with_now (\<lambda>now.
      if After now (ps_ExpiresAt p) then raise (Super Super_ErrInvalidToken)
      else seq (GetSuperuserByID (ps_UserID p)) (\<lambda>su.
      if \<not> su_IsActive su then raise (Super ErrInactive) else ret (p, su)))))"

definition SU_admitFactor :: "super_service \<Rightarrow> superuser \<Rightarrow> string \<Rightarrow> string \<Rightarrow> unit prog" where
  "SU_admitFactor s su userAgent ipAddress =
     on (AllowEach (oc_RateLimiter (ov_cfg s))
           [''superuser-two-factor:ip:'' @ ipAddress, ''superuser-two-factor:superuser:'' @ su_ID su])
       (\<lambda>e. seq (log (operator_event EventSuperuserLoginFailed ResultDenied (su_ID su) (su_Email su) userAgent ipAddress
                        [(''reason'', MStr ''rate_limited''), (''stage'', MStr ''two_factor'')])) (\<lambda>_. raise e))
       (\<lambda>_. seq (SU_throttled s (su_Email su)) (\<lambda>throttled.
         if throttled
         then seq (log (operator_event EventSuperuserLoginLocked ResultDenied (su_ID su) (su_Email su) userAgent ipAddress
                          [(''stage'', MStr ''two_factor'')]))
                (\<lambda>_. raise (Super Super_ErrAccountLocked))
         else ret ()))"

definition SU_checkFactor ::
  "super_service \<Rightarrow> pending_session \<Rightarrow> superuser \<Rightarrow> string \<Rightarrow> string \<Rightarrow> string \<Rightarrow> super_verified prog" where
  "SU_checkFactor s p su code userAgent ipAddress =
     seq (SU_enabledTOTP s (su_ID su)) (\<lambda>(settings, secret). with_now (\<lambda>now.
     if ValidateTOTPCode (ov_totp s) now secret code
     then ret \<lparr>sf_pending = p, sf_superuser = su, sf_settings = settings, sf_usedBackupCode = False\<rparr>
     else
       (case SU_consumeBackupCode settings code of
          (True, settings) \<Rightarrow>
            ret \<lparr>sf_pending = p, sf_superuser = su, sf_settings = settings, sf_usedBackupCode = True\<rparr>
        | (False, settings) \<Rightarrow>
            seq (SU_recordFailedLogin s (su_Email su)) (\<lambda>_.
            seq (log (operator_event EventSuperuserLoginFailed ResultFailure (su_ID su) (su_Email su) userAgent ipAddress
                        [(''reason'', MStr ''invalid_two_factor'')]))
              (\<lambda>_. raise (Super Super_ErrInvalidTwoFactor))))))"

definition SU_completeFactor :: "super_service \<Rightarrow> super_verified \<Rightarrow> string \<Rightarrow> string \<Rightarrow> token_pair prog" where
  "SU_completeFactor s v userAgent ipAddress =
     (let su = sf_superuser v in
      seq (RunInTx (ov_Tx s)
        (seq (if sf_usedBackupCode v
              then with_now (\<lambda>now. UpdateSuperuserTOTPSettings ((sf_settings v)\<lparr>ts_UpdatedAt := now\<rparr>)) else ret ()) (\<lambda>_.
         seq (DeleteSuperuserPendingTwoFactorSession (ps_ID (sf_pending v))) (\<lambda>_.
         SU_issueTokenPair s (su_ID su) (su_Email su) userAgent ipAddress)))) (\<lambda>tokens.
      seq (SU_clearFailures s (su_Email su)) (\<lambda>_. with_now (\<lambda>now.
      ignoring (UpdateSuperuser (su\<lparr>su_LastLoginAt := Some now\<rparr>))
      (seq (log (operator_event EventSuperuserLoginSucceeded ResultSuccess (su_ID su) (su_Email su) userAgent ipAddress
                   [(''via'', MStr ''two_factor''), (''backup_code'', MBool (sf_usedBackupCode v))]))
         (\<lambda>_. ret tokens))))))"

definition SU_VerifyTwoFactorLogin ::
  "super_service \<Rightarrow> string \<Rightarrow> string \<Rightarrow> string \<Rightarrow> string \<Rightarrow> token_pair prog" where
  "SU_VerifyTwoFactorLogin s pendingToken code userAgent ipAddress =
     seq (SU_pendingOperator s pendingToken) (\<lambda>(p, su).
     seq (SU_admitFactor s su userAgent ipAddress) (\<lambda>_.
     seq (SU_checkFactor s p su code userAgent ipAddress) (\<lambda>v.
     SU_completeFactor s v userAgent ipAddress)))"

section \<open>The operator's own account (account.go)\<close>

record super_session =
  sx_ID :: string
  sx_IsCurrent :: bool
  sx_UserAgent :: string
  sx_IPAddress :: string
  sx_CreatedAt :: time
  sx_ExpiresAt :: time

text \<open>The loop of \<open>revokeOthers\<close>; the count a failed call returns beside its error is not modelled.\<close>

fun super_revoke_others :: "string \<Rightarrow> superuser_token list \<Rightarrow> nat \<Rightarrow> nat prog" where
  "super_revoke_others keep [] n = ret n"
| "super_revoke_others keep (t # ts) n =
     (if sr_ID t = keep then super_revoke_others keep ts n
      else seq (RevokeSuperuserRefreshToken (sr_ID t)) (\<lambda>_. super_revoke_others keep ts (n + 1)))"

definition SU_revokeOthers :: "string \<Rightarrow> string \<Rightarrow> nat prog" where
  "SU_revokeOthers superuserID keep =
     seq (ListActiveSuperuserRefreshTokens superuserID) (\<lambda>tokens. super_revoke_others keep tokens 0)"

definition SU_ChangePassword :: "super_service \<Rightarrow> string \<Rightarrow> string \<Rightarrow> string \<Rightarrow> string \<Rightarrow> nat prog" where
  "SU_ChangePassword s superuserID currentSessionID current new =
     seq (GetSuperuserByID superuserID) (\<lambda>su.
     if \<not> h_Verify (oc_PasswordHasher (ov_cfg s)) current (su_PasswordHash su)
     then seq (log ((event_of EventSuperuserPasswordChanged ResultFailure)\<lparr>ev_ActorID := su_ID su, ev_Email := su_Email su\<rparr>))
            (\<lambda>_. raise (Super Super_ErrInvalidCredentials))
     else seq (check (oc_PasswordValidator (ov_cfg s) (su_Email su) new)) (\<lambda>_.
     seq (Hash (oc_PasswordHasher (ov_cfg s)) new) (\<lambda>hash. with_now (\<lambda>now.
     seq (UpdateSuperuser (su\<lparr>su_PasswordHash := hash, su_UpdatedAt := now\<rparr>)) (\<lambda>_.
     seq (SU_revokeOthers superuserID currentSessionID) (\<lambda>revoked.
     seq (log ((event_of EventSuperuserPasswordChanged ResultSuccess)
            \<lparr>ev_ActorID := su_ID su, ev_Email := su_Email su,
             ev_Metadata := [(''sessions_revoked'', MInt (int revoked))]\<rparr>)) (\<lambda>_.
     ret revoked)))))))"

definition SU_ListSessions :: "string \<Rightarrow> string \<Rightarrow> super_session list prog" where
  "SU_ListSessions superuserID currentSessionID =
     seq (ListActiveSuperuserRefreshTokens superuserID) (\<lambda>tokens.
     ret (map (\<lambda>t. \<lparr>sx_ID = sr_ID t, sx_IsCurrent = (sr_ID t = currentSessionID), sx_UserAgent = sr_UserAgent t,
                    sx_IPAddress = sr_IPAddress t, sx_CreatedAt = sr_CreatedAt t, sx_ExpiresAt = sr_ExpiresAt t\<rparr>) tokens))"

definition SU_RevokeSession :: "string \<Rightarrow> string \<Rightarrow> unit prog" where
  "SU_RevokeSession superuserID sessionID =
     seq (ListActiveSuperuserRefreshTokens superuserID) (\<lambda>tokens.
     case find (\<lambda>t. sr_ID t = sessionID) tokens of
       None \<Rightarrow> raise (Super Super_ErrSessionNotFound)
     | Some t \<Rightarrow>
         seq (RevokeSuperuserRefreshToken (sr_ID t)) (\<lambda>_.
         log ((event_of EventSuperuserSessionRevoked ResultSuccess)\<lparr>ev_ActorID := superuserID, ev_TargetID := sessionID\<rparr>)))"

definition SU_RevokeOtherSessions :: "string \<Rightarrow> string \<Rightarrow> nat prog" where
  "SU_RevokeOtherSessions superuserID currentSessionID =
     seq (SU_revokeOthers superuserID currentSessionID) (\<lambda>n.
     seq (log ((event_of EventSuperuserSessionRevoked ResultSuccess)\<lparr>ev_ActorID := superuserID,
            ev_Metadata := [(''count'', MInt (int n)), (''scope'', MStr ''other_sessions'')]\<rparr>)) (\<lambda>_.
     ret n))"

section \<open>Impersonation (impersonation.go)\<close>

definition Impersonate :: "super_service \<Rightarrow> string \<Rightarrow> string \<Rightarrow> string \<Rightarrow> string prog" where
  "Impersonate s superuserID targetUserID targetUserEmail = with_now (\<lambda>now.
     seq (lift (sg_Sign (ov_impSigner s)
       \<lparr>cl_Issuer = sg_Issuer (ov_impSigner s), cl_Subject = targetUserID, cl_Audience = [],
        cl_ExpiresAt = Some (now + oc_ImpersonationTTL (ov_cfg s)), cl_NotBefore = None, cl_IssuedAt = Some now, cl_ID = '''',
        cl_Email = targetUserEmail, cl_ActorID = superuserID, cl_TeamID = ''''\<rparr>)) (\<lambda>token.
     seq (log ((event_of EventSuperuserImpersonated ResultSuccess)
            \<lparr>ev_ActorID := superuserID, ev_TargetID := targetUserID, ev_Email := targetUserEmail\<rparr>)) (\<lambda>_.
     ret token)))"

end
