(* ===== verification/SuperContracts.thy ===== *)
theory SuperContracts
  imports SuperUser Contracts
begin

text \<open>
  The contracts of the operator plane's methods. The invariant \<open>in_order\<close> says that the plane's tables are well
  formed and that the operators of a set \<open>X\<close> are out of service: their rows inactive and their sessions
  revoked. The locale proves, for any class \<open>E\<close> of errors that the parameters of a service respect, that every
  method keeps the invariant and fails only with such errors.
\<close>

section \<open>The invariant\<close>

definition retired :: "string \<Rightarrow> dbase \<Rightarrow> bool" where
  "retired i d \<longleftrightarrow>
     (\<exists>su. sus_row (supers d) i = Some su \<and> \<not> su_IsActive su) \<and>
     (\<forall>j t. srs_byID (supertokens d) j = Some t \<longrightarrow> sr_SuperuserID t = i \<longrightarrow> sr_RevokedAt t \<noteq> None)"

definition in_order :: "bool \<Rightarrow> string set \<Rightarrow> dbase \<Rightarrow> bool" where
  "in_order withPending X d \<longleftrightarrow>
     sus_inv (supers d) \<and> srs_inv (supertokens d) \<and> (withPending \<longrightarrow> pss_inv (s2_pending (superfactors d))) \<and>
     (\<forall>i \<in> X. retired i d)"

lemma in_order_others:
  "in_order b X d \<Longrightarrow> supers d' = supers d \<Longrightarrow> supertokens d' = supertokens d \<Longrightarrow>
   s2_pending (superfactors d') = s2_pending (superfactors d) \<Longrightarrow> in_order b X d'"
  by (simp add: in_order_def retired_def)

lemma in_orderD:
  assumes "in_order b X d"
  shows "sus_inv (supers d)" and "srs_inv (supertokens d)" and "b \<Longrightarrow> pss_inv (s2_pending (superfactors d))"
    and "i \<in> X \<Longrightarrow> sus_row (supers d) i = Some su \<Longrightarrow> \<not> su_IsActive su"
  using assms by (auto simp: in_order_def retired_def)

text \<open>Rows written over others: those of the operators out of service stay inactive.\<close>

lemma in_order_rows:
  assumes "in_order b X d" and "sus_inv s'"
    and "\<And>i. i \<in> X \<Longrightarrow> sus_row s' i = sus_row (supers d) i \<or> (\<exists>su. sus_row s' i = Some su \<and> \<not> su_IsActive su)"
  shows "in_order b X (d\<lparr>supers := s'\<rparr>)"
proof -
  have "retired i (d\<lparr>supers := s'\<rparr>)" if i: "i \<in> X" for i
  proof -
    have "retired i d" using assms(1) i by (simp add: in_order_def)
    then show ?thesis using assms(3) [OF i] by (auto simp: retired_def)
  qed
  then show ?thesis using assms(1,2) by (simp add: in_order_def)
qed

lemma in_order_super:
  assumes d: "in_order b X d" and su: "su_ID su \<in> X \<Longrightarrow> \<not> su_IsActive su"
    and run: "mem_UpdateSuperuser su (supers d) = (r, s')"
  shows "in_order b X (d\<lparr>supers := s'\<rparr>)"
proof (rule in_order_rows [OF d sus_inv_update [OF in_orderD(1) [OF d] run]])
  fix i assume "i \<in> X"
  have "sus_row s' i = sus_row (supers d) i \<or> i = su_ID su \<and> sus_row s' i = Some su"
    using run by (cases "sus_row (supers d) (su_ID su)") (auto simp: mem_UpdateSuperuser_def split: if_splits)
  then show "sus_row s' i = sus_row (supers d) i \<or> (\<exists>su. sus_row s' i = Some su \<and> \<not> su_IsActive su)"
    using su \<open>i \<in> X\<close> by blast
qed

lemma in_order_created:
  assumes d: "in_order b X d" and su: "su_ID su \<notin> X" and run: "mem_CreateSuperuser su (supers d) = (r, s')"
  shows "in_order b X (d\<lparr>supers := s'\<rparr>)"
proof (rule in_order_rows [OF d sus_inv_create [OF in_orderD(1) [OF d] run]])
  fix i assume "i \<in> X"
  have "sus_row s' i = sus_row (supers d) i \<or> i = su_ID su"
    using run by (cases "sus_byEmail (supers d) (su_Email su)") (auto simp: mem_CreateSuperuser_def split: if_splits)
  then show "sus_row s' i = sus_row (supers d) i \<or> (\<exists>su. sus_row s' i = Some su \<and> \<not> su_IsActive su)"
    using su \<open>i \<in> X\<close> by blast
qed

lemma in_order_tokens:
  assumes "in_order b X d" and "srs_inv s'"
    and "\<And>j t. srs_byID s' j = Some t \<Longrightarrow> sr_SuperuserID t \<in> X \<Longrightarrow> sr_RevokedAt t = None \<Longrightarrow>
           srs_byID (supertokens d) j = Some t"
  shows "in_order b X (d\<lparr>supertokens := s'\<rparr>)"
proof -
  have "retired i (d\<lparr>supertokens := s'\<rparr>)" if i: "i \<in> X" for i
  proof -
    have "retired i d" using assms(1) i by (simp add: in_order_def)
    moreover have "sr_RevokedAt t \<noteq> None" if "srs_byID s' j = Some t" "sr_SuperuserID t = i" for j t
      using assms(3) [OF that(1)] that(2) i \<open>retired i d\<close> unfolding retired_def by blast
    ultimately show ?thesis by (simp add: retired_def)
  qed
  then show ?thesis using assms(1,2) by (simp add: in_order_def)
qed

section \<open>The contracts\<close>

locale operator_plane =
  fixes s :: super_service and E :: "error \<Rightarrow> bool" and X :: "string set" and b :: bool
  assumes E_errors [simp]: "E (Fault m)" "E (Super x)" "E ErrNotFound" "E ErrConflict" "E errTokenSpent"
      "E InvalidKeySize" "E CiphertextTooShort"
    and E_hash: "h_Hash (oc_PasswordHasher (ov_cfg s)) bs p = Inl e \<Longrightarrow> E e"
    and E_validator: "oc_PasswordValidator (ov_cfg s) em p = Some e \<Longrightarrow> E e"
    and E_limiter: "oc_RateLimiter (ov_cfg s) h t k = Some e \<Longrightarrow> E e"
    and E_sign: "ss_Sign (ov_signer s) c = Inl e \<Longrightarrow> E e"
    and E_impersonate: "sg_Sign (ov_impSigner s) cl = Inl e \<Longrightarrow> E e"
    and E_totp: "totp_generate (ov_totp s) bs is ac = Inl e \<Longrightarrow> E e"
begin

abbreviation kept :: "'a prog \<Rightarrow> ('a \<Rightarrow> bool) \<Rightarrow> bool" where
  "kept m Q \<equiv> holds (in_order b X) m Q E"

lemmas kept_rules = holds_seq [where P = "in_order b X" and E = E]
  holds_on [where P = "in_order b X" and E = E and ?E1.0 = E]
  holds_ignoring [where P = "in_order b X" and E = E and ?E1.0 = E] holds_rules

lemma kept_any: "kept m Q \<Longrightarrow> kept m (\<lambda>_. True)"
  by (rule holds_weaken) auto

text \<open>The ports of the operators' tables.\<close>

lemma kept_GetSuperuserByID:
  "kept (GetSuperuserByID j) (\<lambda>su. su_ID su = j \<and> (j \<in> X \<longrightarrow> \<not> su_IsActive su))"
  unfolding GetSuperuserByID_def
proof (rule holds_rd)
  fix d su assume "in_order b X d" and "mem_GetSuperuserByID (supers d) j = Inr su"
  then show "su_ID su = j \<and> (j \<in> X \<longrightarrow> \<not> su_IsActive su)"
    by (metis in_orderD(1,4) sus_get_id sus_id_row)
qed (auto dest!: sus_id_error)

lemma kept_GetSuperuserByEmail:
  "kept (GetSuperuserByEmail email) (\<lambda>su. su_ID su \<in> X \<longrightarrow> \<not> su_IsActive su)"
  unfolding GetSuperuserByEmail_def
proof (rule holds_rd)
  fix d su assume "in_order b X d" and "mem_GetSuperuserByEmail (supers d) email = Inr su"
  then show "su_ID su \<in> X \<longrightarrow> \<not> su_IsActive su"
    by (metis in_orderD(1,4) sus_email_row)
next
  fix d e assume "in_order b X d" and "mem_GetSuperuserByEmail (supers d) email = Inl e"
  then have "e = ErrNotFound"
    by (metis in_orderD(1) sus_email_error)
  then show "E e" by simp
qed simp

lemma kept_UpdateSuperuser:
  "(su_ID su \<in> X \<Longrightarrow> \<not> su_IsActive su) \<Longrightarrow> kept (UpdateSuperuser su) (\<lambda>_. True)"
  unfolding UpdateSuperuser_def on_supers_def
proof (rule holds_wr)
  fix d r d' assume d: "in_order b X d" and su: "su_ID su \<in> X \<Longrightarrow> \<not> su_IsActive su"
    and "(fst (mem_UpdateSuperuser su (supers d)), d\<lparr>supers := snd (mem_UpdateSuperuser su (supers d))\<rparr>) = (r, d')"
  then show "in_order b X d' \<and> (\<forall>x. r = Inr x \<longrightarrow> True) \<and> (\<forall>e. r = Inl e \<longrightarrow> E e)"
    using in_order_super [OF d su prod.collapse [symmetric]]
    by (auto simp: mem_UpdateSuperuser_def split: option.splits)
qed simp

lemma kept_CountSuperusers: "kept CountSuperusers (\<lambda>_. True)"
  unfolding CountSuperusers_def by (rule holds_rd) (auto simp: mem_CountSuperusers_def)

lemma kept_StoredSuperusers: "kept StoredSuperusers (\<lambda>_. True)"
  unfolding StoredSuperusers_def by (rule holds_rd) (auto simp: mem_ListSuperusers_def)

lemma kept_GetSuperuserRefreshTokenByHash:
  "kept (GetSuperuserRefreshTokenByHash h) (\<lambda>t. sr_SuperuserID t \<in> X \<longrightarrow> sr_RevokedAt t \<noteq> None)"
  unfolding GetSuperuserRefreshTokenByHash_def
proof (rule holds_rd)
  fix d t assume d: "in_order b X d" and t: "mem_GetSuperuserRefreshTokenByHash (supertokens d) h = Inr t"
  have "srs_byID (supertokens d) (sr_ID t) = Some t" using srs_get_row(2) [OF in_orderD(2) [OF d] t] .
  then show "sr_SuperuserID t \<in> X \<longrightarrow> sr_RevokedAt t \<noteq> None" using d by (simp add: in_order_def retired_def)
next
  fix d e assume d: "in_order b X d" and "mem_GetSuperuserRefreshTokenByHash (supertokens d) h = Inl e"
  then have "e = ErrNotFound" by (metis in_orderD(2) super_tab.get_errors)
  then show "E e" by simp
qed simp

lemma kept_on_supertokens:
  assumes "\<And>s r s'. srs_inv s \<Longrightarrow> f s = (r, s') \<Longrightarrow> srs_inv s'"
    and "\<And>s r s' j t. srs_inv s \<Longrightarrow> f s = (r, s') \<Longrightarrow> srs_byID s' j = Some t \<Longrightarrow> sr_SuperuserID t \<in> X \<Longrightarrow>
           sr_RevokedAt t = None \<Longrightarrow> srs_byID s j = Some t"
    and "\<And>s e s'. srs_inv s \<Longrightarrow> f s = (Inl e, s') \<Longrightarrow> E e"
  shows "kept (on_supertokens f) (\<lambda>_. True)"
  unfolding on_supertokens_def
proof (rule holds_wr)
  fix d r d' assume d: "in_order b X d" and run: "(fst (f (supertokens d)), d\<lparr>supertokens := snd (f (supertokens d))\<rparr>) = (r, d')"
  note inv = in_orderD(2) [OF d]
  have "in_order b X (d\<lparr>supertokens := snd (f (supertokens d))\<rparr>)"
    by (rule in_order_tokens [OF d assms(1) [OF inv prod.collapse [symmetric]]])
      (rule assms(2) [OF inv prod.collapse [symmetric]])
  moreover have "E e" if "r = Inl e" for e
    using assms(3) [OF inv, of e "snd (f (supertokens d))"] run that by (metis Pair_inject prod.collapse)
  ultimately show "in_order b X d' \<and> (\<forall>x. r = Inr x \<longrightarrow> True) \<and> (\<forall>e. r = Inl e \<longrightarrow> E e)"
    using run by simp
qed simp

lemma kept_CreateSuperuserRefreshToken:
  "sr_SuperuserID t \<notin> X \<Longrightarrow> kept (CreateSuperuserRefreshToken t) (\<lambda>_. True)"
  unfolding CreateSuperuserRefreshToken_def
  by (rule kept_on_supertokens) (auto simp: mem_CreateSuperuserRefreshToken_def srs_inv_create split: if_splits)

lemma kept_RevokeSuperuserRefreshToken: "kept (RevokeSuperuserRefreshToken i) (\<lambda>_. True)"
  unfolding RevokeSuperuserRefreshToken_def
  by (rule holds_now, rule kept_on_supertokens)
    (auto simp: mem_RevokeSuperuserRefreshToken_def intro!: srs_inv_row split: option.splits if_splits)

lemma kept_ConsumeSuperuserRefreshToken: "kept (ConsumeSuperuserRefreshToken i) (\<lambda>_. True)"
  unfolding ConsumeSuperuserRefreshToken_def
  by (rule holds_now, rule kept_on_supertokens)
    (auto simp: mem_ConsumeSuperuserRefreshToken_def intro!: srs_inv_row split: option.splits if_splits)

lemma kept_RevokeAllSuperuserRefreshTokens: "kept (RevokeAllSuperuserRefreshTokens i) (\<lambda>_. True)"
  unfolding RevokeAllSuperuserRefreshTokens_def
  by (rule holds_now, rule kept_on_supertokens)
    (auto simp: super_revoke_all_eq intro!: srs_inv_rows split: if_splits)

lemma kept_ListActiveSuperuserRefreshTokens: "kept (ListActiveSuperuserRefreshTokens i) (\<lambda>_. True)"
  unfolding ListActiveSuperuserRefreshTokens_def
  by (rule holds_now, rule holds_rd) (auto dest!: in_orderD(2) simp: super_list_active)

text \<open>Ports of other tables, and the limiter.\<close>

lemma kept_others:
  assumes "\<And>d r d'. f d = (r, d') \<Longrightarrow> supers d' = supers d \<and> supertokens d' = supertokens d \<and>
             s2_pending (superfactors d') = s2_pending (superfactors d) \<and> (\<forall>e. r = Inl e \<longrightarrow> E e)"
  shows "kept (wr f) (\<lambda>_. True)"
  by (rule holds_wr) (use assms in \<open>auto intro: in_order_others\<close>)

lemma kept_CountRecent: "kept (CountRecentFailedLoginAttempts e t) (\<lambda>_. True)"
  unfolding CountRecentFailedLoginAttempts_def
  by (rule holds_rd) (auto simp: mem_CountRecentFailedLoginAttempts_def)

lemma kept_IsAccountLocked: "kept (IsAccountLocked i) (\<lambda>_. True)"
  unfolding IsAccountLocked_def by (rule holds_rd) (auto simp: mem_IsAccountLocked_def)

lemma kept_RecordFailed: "kept (RecordFailedLoginAttempt a) (\<lambda>_. True)"
  unfolding RecordFailedLoginAttempt_def on_lockouts_def
  by (rule kept_others) (auto simp: mem_RecordFailedLoginAttempt_def)

lemma kept_ClearFailed: "kept (ClearFailedLoginAttempts e) (\<lambda>_. True)"
  unfolding ClearFailedLoginAttempts_def on_lockouts_def
  by (rule kept_others) (auto simp: mem_ClearFailedLoginAttempts_def)

lemma kept_GetTOTP: "kept (GetSuperuserTOTPSettings i) (\<lambda>_. True)"
  unfolding GetSuperuserTOTPSettings_def
  by (rule holds_rd) (auto simp: mem_GetSuperuserTOTPSettings_def mem_GetTOTPSettingsByUserID_def split: option.splits)

lemma kept_CreateTOTP: "kept (CreateSuperuserTOTPSettings t) (\<lambda>_. True)"
  unfolding CreateSuperuserTOTPSettings_def on_superfactors_def
  by (rule kept_others)
    (auto simp: mem_CreateSuperuserTOTPSettings_def in_totp_def mem_CreateTOTPSettings_def split: option.splits)

lemma kept_UpdateTOTP: "kept (UpdateSuperuserTOTPSettings t) (\<lambda>_. True)"
  unfolding UpdateSuperuserTOTPSettings_def on_superfactors_def
  by (rule kept_others)
    (auto simp: mem_UpdateSuperuserTOTPSettings_def in_totp_def mem_UpdateTOTPSettings_def split: option.splits)

lemma kept_DeleteTOTP: "kept (DeleteSuperuserTOTPSettings i) (\<lambda>_. True)"
  unfolding DeleteSuperuserTOTPSettings_def on_superfactors_def
  by (rule kept_others) (auto simp: mem_DeleteSuperuserTOTPSettings_def in_totp_def mem_DeleteTOTPSettings_def)

lemma kept_GetPending:
  "b \<or> E Panic \<Longrightarrow> kept (GetSuperuserPendingTwoFactorSessionByHash h) (\<lambda>_. True)"
  unfolding GetSuperuserPendingTwoFactorSessionByHash_def
proof (rule holds_rd)
  fix d e assume bE: "b \<or> E Panic" and d: "in_order b X d"
    and e: "mem_GetSuperuserPendingTwoFactorSessionByHash (superfactors d) h = Inl e"
  have "e = ErrNotFound \<or> e = Panic"
    using e by (auto simp: mem_defs row_via_def split: option.splits)
  moreover have "e = ErrNotFound" if b
    using pending_tab.get_errors [OF in_orderD(3) [OF d that]] e
    by (simp add: mem_GetSuperuserPendingTwoFactorSessionByHash_def)
  ultimately show "E e" using bE by auto
qed simp_all

lemma kept_DeletePending: "kept (DeleteSuperuserPendingTwoFactorSession i) (\<lambda>_. True)"
  unfolding DeleteSuperuserPendingTwoFactorSession_def on_superfactors_def
proof (rule holds_wr)
  fix d r d' assume d: "in_order b X d"
    and "(fst (mem_DeleteSuperuserPendingTwoFactorSession i (superfactors d)),
          d\<lparr>superfactors := snd (mem_DeleteSuperuserPendingTwoFactorSession i (superfactors d))\<rparr>) = (r, d')"
  then show "in_order b X d' \<and> (\<forall>x. r = Inr x \<longrightarrow> True) \<and> (\<forall>e. r = Inl e \<longrightarrow> E e)"
    using pss_inv_delete [OF in_orderD(3) [OF d] prod.collapse [symmetric], of i]
    by (auto simp: in_order_def retired_def mem_DeleteSuperuserPendingTwoFactorSession_def in_pending_def
        mem_DeletePendingTwoFactorSession_def)
qed simp

lemma kept_CreatePending: "\<not> b \<Longrightarrow> kept (CreateSuperuserPendingTwoFactorSession p) (\<lambda>_. True)"
  unfolding CreateSuperuserPendingTwoFactorSession_def on_superfactors_def
  by (rule holds_wr) (auto simp: in_order_def retired_def mem_CreateSuperuserPendingTwoFactorSession_def in_pending_def
        mem_CreatePendingTwoFactorSession_def)

lemma kept_AllowEach: "kept (AllowEach (oc_RateLimiter (ov_cfg s)) keys) (\<lambda>_. True)"
proof -
  have "kept (allow_each (oc_RateLimiter (ov_cfg s)) refusal keys) (\<lambda>_. True)"
    if "\<And>e. refusal = Some e \<Longrightarrow> E e" for refusal
    using that
  proof (induction keys arbitrary: refusal)
    case Nil
    then show ?case by (auto intro: holds_weaken [OF holds_check])
  next
    case (Cons key keys)
    have allow: "kept (Allow (oc_RateLimiter (ov_cfg s)) key) (\<lambda>_. True)"
      by (rule holdsI) (auto elim!: AllowE split: option.splits intro: E_limiter)
    have refused: "kept (allow_each (oc_RateLimiter (ov_cfg s)) (if refusal = None then Some e else refusal) keys) (\<lambda>_. True)"
      if "E e" for e
      by (rule Cons.IH) (use that Cons.prems in \<open>auto split: if_splits\<close>)
    show ?case
      unfolding allow_each.simps
      by (rule holds_if, rule Cons.IH [OF Cons.prems], assumption, rule holds_on [OF allow], rule holds_if,
          rule holds_raise, assumption, rule refused, assumption, rule Cons.IH [OF Cons.prems])
  qed
  from this [of None] show ?thesis by (simp add: AllowEach_def)
qed

text \<open>The parameters.\<close>

lemma kept_ret: "kept (ret x) (\<lambda>_. True)"
  by (rule holds_ret) simp

lemma kept_sign: "kept (lift (ss_Sign (ov_signer s) c)) (\<lambda>_. True)"
  by (rule holds_lift) (auto intro: E_sign)

lemma kept_impersonate: "kept (lift (sg_Sign (ov_impSigner s) c)) (\<lambda>_. True)"
  by (rule holds_lift) (auto intro: E_impersonate)

lemma kept_decrypt: "kept (lift (DecryptSecret a k x)) (\<lambda>_. True)"
  by (rule holds_lift) (auto simp: DecryptSecret_def split: if_splits option.splits)

lemma kept_encrypt: "kept (EncryptSecret a k x) (\<lambda>_. True)"
  unfolding EncryptSecret_def
  by (rule holds_if, rule holds_raise, simp, rule holds_seq [OF holds_rand_read], simp, rule kept_ret)

lemma kept_totp_secret: "kept (GenerateTOTPSecret (ov_totp s) is ac) (\<lambda>_. True)"
  unfolding GenerateTOTPSecret_def
  by (rule holds_seq [OF holds_rand_read], simp, rule holds_lift) (auto intro: E_totp)

lemma kept_hash: "kept (Hash (oc_PasswordHasher (ov_cfg s)) p) (\<lambda>_. True)"
  by (rule holds_Hash) (auto intro: E_hash)

lemma kept_validator: "kept (check (oc_PasswordValidator (ov_cfg s) em p)) (\<lambda>_. True)"
  by (rule holds_weaken [OF holds_check]) (auto intro: E_validator)

lemma kept_backup_codes: "kept (GenerateBackupCodes n) (\<lambda>_. True)"
  by (induction n) (auto intro!: holds_seq [where ?Q1.0 = "\<lambda>_. True"] holds_rand_read kept_ret)

lemmas port_rules = kept_ret kept_sign kept_impersonate kept_decrypt kept_encrypt kept_totp_secret kept_hash
  kept_validator kept_backup_codes kept_GetSuperuserByID kept_GetSuperuserByEmail kept_CountSuperusers kept_StoredSuperusers
  kept_GetSuperuserRefreshTokenByHash kept_RevokeSuperuserRefreshToken kept_ConsumeSuperuserRefreshToken
  kept_RevokeAllSuperuserRefreshTokens kept_ListActiveSuperuserRefreshTokens kept_CountRecent kept_IsAccountLocked
  kept_RecordFailed kept_ClearFailed kept_GetTOTP kept_CreateTOTP kept_UpdateTOTP kept_DeleteTOTP kept_DeletePending
  kept_AllowEach

text \<open>The methods.\<close>

lemma kept_throttled: "kept (SU_throttled s e) (\<lambda>_. True)"
  unfolding SU_throttled_def by (rule port_rules kept_rules | simp)+

lemma kept_recordFailedLogin: "kept (SU_recordFailedLogin s e) (\<lambda>_. True)"
  unfolding SU_recordFailedLogin_def by (rule port_rules kept_rules | simp)+

lemma kept_clearFailures: "kept (SU_clearFailures s e) (\<lambda>_. True)"
  unfolding SU_clearFailures_def by (rule port_rules kept_rules | simp)+

lemma kept_revokeFamily: "kept (SU_revokeFamilyOnReuse t ua ip) (\<lambda>_. True)"
  unfolding SU_revokeFamilyOnReuse_def Let_def by (rule port_rules kept_rules | simp)+

lemma kept_issueTokenPair: "i \<notin> X \<Longrightarrow> kept (SU_issueTokenPair s i e ua ip) (\<lambda>_. True)"
  unfolding SU_issueTokenPair_def
  by (rule port_rules kept_rules kept_CreateSuperuserRefreshToken | simp)+

lemma kept_admit: "kept (SU_admit s e ua ip) (\<lambda>_. True)"
  unfolding SU_admit_def by (rule port_rules kept_rules kept_throttled | simp)+

lemma kept_rehash:
  "(su_ID su \<in> X \<Longrightarrow> \<not> su_IsActive su) \<Longrightarrow> kept (SU_rehash s su p) (\<lambda>su. su_ID su \<in> X \<longrightarrow> \<not> su_IsActive su)"
  unfolding SU_rehash_def
  by (rule port_rules kept_rules kept_UpdateSuperuser | simp)+

lemma kept_checkPassword: "kept (SU_checkPassword s e p ua ip) (\<lambda>su. su_ID su \<notin> X)"
  unfolding SU_checkPassword_def
  by (rule port_rules kept_rules kept_recordFailedLogin kept_rehash | simp)+

lemma kept_beginTwoFactor: "\<not> b \<Longrightarrow> kept (SU_beginTwoFactorLogin s i) (\<lambda>_. True)"
  unfolding SU_beginTwoFactorLogin_def
  by (rule port_rules kept_rules kept_CreatePending | simp)+

lemma kept_finishLogin: "\<not> b \<Longrightarrow> su_ID su \<notin> X \<Longrightarrow> kept (SU_finishLogin s su e ua ip) (\<lambda>_. True)"
  unfolding SU_finishLogin_def
  by (rule port_rules kept_rules kept_beginTwoFactor kept_clearFailures kept_UpdateSuperuser kept_issueTokenPair | simp)+

lemma kept_Authenticate: "\<not> b \<Longrightarrow> kept (SU_Authenticate s e p ua ip) (\<lambda>_. True)"
  unfolding SU_Authenticate_def Let_def
  by (rule kept_rules kept_admit kept_checkPassword kept_finishLogin | simp)+

lemma kept_refreshLookup:
  "kept (SU_refreshLookup rt ua ip) (\<lambda>(t, su). sr_SuperuserID t \<notin> X \<and> su_ID su \<notin> X)"
  unfolding SU_refreshLookup_def
  by (rule port_rules kept_rules kept_revokeFamily | simp)+

lemma kept_refreshSpend: "su_ID su \<notin> X \<Longrightarrow> kept (SU_refreshSpend s t su ua ip) (\<lambda>_. True)"
  unfolding SU_refreshSpend_def
  by (rule port_rules kept_rules kept_revokeFamily kept_issueTokenPair holds_RunInTx | simp)+

lemma kept_Refresh: "kept (SU_Refresh s rt ua ip) (\<lambda>_. True)"
  unfolding SU_Refresh_def
  by (rule kept_rules kept_refreshLookup kept_refreshSpend | force)+

lemma kept_Logout: "kept (SU_Logout rt) (\<lambda>_. True)"
  unfolding SU_Logout_def by (rule port_rules kept_rules | simp)+

lemma kept_Verify: "kept (SU_Verify s tok) (\<lambda>c. HasAudience c (oc_Audience (ov_cfg s)))"
  unfolding SU_Verify_def by (rule kept_rules | simp)+

lemma kept_Deactivate: "kept (Deactivate c i) (\<lambda>_. True)"
  unfolding Deactivate_def by (rule port_rules kept_rules kept_UpdateSuperuser | simp)+

lemma kept_TwoFactorStatus: "kept (SU_TwoFactorStatus s i) (\<lambda>_. True)"
  unfolding SU_TwoFactorStatus_def Let_def by (rule port_rules kept_rules | simp)+

lemma kept_BeginTwoFactorSetup: "kept (SU_BeginTwoFactorSetup s i e) (\<lambda>_. True)"
  unfolding SU_BeginTwoFactorSetup_def Let_def by (rule port_rules kept_rules | simp)+

lemma kept_totp: "kept (SU_totp s i) (\<lambda>_. True)"
  unfolding SU_totp_def by (rule port_rules kept_rules | simp)+

lemma kept_enabledTOTP: "kept (SU_enabledTOTP s i) (\<lambda>_. True)"
  unfolding SU_enabledTOTP_def by (rule port_rules kept_rules kept_totp | simp)+

lemma kept_newBackupCodes: "kept (SU_newBackupCodes s t) (\<lambda>_. True)"
  unfolding SU_newBackupCodes_def by (rule port_rules kept_rules | simp)+

lemma kept_ConfirmTwoFactorSetup: "kept (SU_ConfirmTwoFactorSetup s i c) (\<lambda>_. True)"
  unfolding SU_ConfirmTwoFactorSetup_def by (rule port_rules kept_rules kept_totp kept_newBackupCodes | simp)+

lemma kept_DisableTwoFactor: "kept (SU_DisableTwoFactor s i c) (\<lambda>_. True)"
  unfolding SU_DisableTwoFactor_def by (rule port_rules kept_rules kept_enabledTOTP | simp)+

lemma kept_RegenerateBackupCodes: "kept (SU_RegenerateBackupCodes s i c) (\<lambda>_. True)"
  unfolding SU_RegenerateBackupCodes_def by (rule port_rules kept_rules kept_enabledTOTP kept_newBackupCodes | simp)+

lemma kept_pendingOperator:
  "b \<or> E Panic \<Longrightarrow> kept (SU_pendingOperator s tok) (\<lambda>(p, su). su_ID su \<notin> X)"
  unfolding SU_pendingOperator_def
  by (rule port_rules kept_rules kept_GetPending | assumption | simp | blast)+

lemma kept_admitFactor: "kept (SU_admitFactor s su ua ip) (\<lambda>_. True)"
  unfolding SU_admitFactor_def by (rule port_rules kept_rules kept_throttled | simp)+

lemma kept_checkFactor: "kept (SU_checkFactor s p su c ua ip) (\<lambda>v. sf_superuser v = su)"
  unfolding SU_checkFactor_def by (rule kept_rules kept_enabledTOTP kept_recordFailedLogin | simp)+

lemma kept_completeFactor: "su_ID (sf_superuser v) \<notin> X \<Longrightarrow> kept (SU_completeFactor s v ua ip) (\<lambda>_. True)"
  unfolding SU_completeFactor_def Let_def
  by (rule port_rules kept_rules kept_clearFailures kept_UpdateSuperuser kept_issueTokenPair holds_RunInTx | simp)+

lemma kept_VerifyTwoFactorLogin: "b \<or> E Panic \<Longrightarrow> kept (SU_VerifyTwoFactorLogin s tok c ua ip) (\<lambda>_. True)"
  unfolding SU_VerifyTwoFactorLogin_def
  by (rule kept_rules kept_pendingOperator kept_admitFactor kept_checkFactor kept_completeFactor | assumption | force)+

lemma kept_revoke_others: "kept (super_revoke_others k ts n) (\<lambda>_. True)"
  by (induction ts arbitrary: n) (simp_all add: kept_ret holds_seq [OF kept_RevokeSuperuserRefreshToken])

lemma kept_revokeOthers: "kept (SU_revokeOthers i k) (\<lambda>_. True)"
  unfolding SU_revokeOthers_def by (rule port_rules kept_rules kept_revoke_others | simp)+

lemma kept_ChangePassword: "kept (SU_ChangePassword s i k c n) (\<lambda>_. True)"
  unfolding SU_ChangePassword_def
  by (rule port_rules kept_rules kept_revokeOthers kept_UpdateSuperuser | simp)+

lemma kept_ListSessions: "kept (SU_ListSessions i k) (\<lambda>_. True)"
  unfolding SU_ListSessions_def by (rule port_rules kept_rules | simp)+

lemma kept_RevokeSession: "kept (SU_RevokeSession i k) (\<lambda>_. True)"
  unfolding SU_RevokeSession_def by (rule port_rules kept_rules | simp)+

lemma kept_RevokeOtherSessions: "kept (SU_RevokeOtherSessions i k) (\<lambda>_. True)"
  unfolding SU_RevokeOtherSessions_def by (rule port_rules kept_rules kept_revokeOthers | simp)+

lemma kept_Impersonate: "kept (Impersonate s i t e) (\<lambda>_. True)"
  unfolding Impersonate_def by (rule port_rules kept_rules | simp)+

end

end
