(* ===== verification/SuperPlane.thy ===== *)
theory SuperPlane
  imports SuperContracts LoginProps HashVectors
begin

text \<open>
  The operator plane as a whole: requests of any kind in any order, and what holds whatever they are. Then the
  guarantees of the single methods: signing in, the second factor, refreshing, changing the password.
\<close>

section \<open>The plane as a transition system\<close>

datatype super_call =
    CallBootstrap string string string
  | CallCreateSuperuser string string string string
  | CallCreateFromShell string string string
  | CallListSuperusers
  | CallDeactivate string string
  | CallAuthenticate string string string string
  | CallRefresh string string string
  | CallLogout string
  | CallVerify string
  | CallTwoFactorStatus string
  | CallBeginTwoFactorSetup string string
  | CallConfirmTwoFactorSetup string string
  | CallDisableTwoFactor string string
  | CallRegenerateBackupCodes string string
  | CallVerifyTwoFactorLogin string string string string
  | CallChangePassword string string string string
  | CallListSessions string string
  | CallRevokeSession string string
  | CallRevokeOtherSessions string string
  | CallImpersonate string string string

abbreviation created :: "superuser prog \<Rightarrow> string option prog" where
  "created m \<equiv> seq m (\<lambda>su. ret (Some (su_ID su)))"

abbreviation plain :: "'a prog \<Rightarrow> string option prog" where
  "plain m \<equiv> seq m (\<lambda>_. ret None)"

text \<open>Serving a request; of the answer only the id of an operator it created is kept.\<close>

fun serve :: "super_service \<Rightarrow> super_call \<Rightarrow> string option prog" where
  "serve s (CallBootstrap email password name) = created (Bootstrap s email password name)"
| "serve s (CallCreateSuperuser email password name by) = created (CreateSuperuser s email password name by)"
| "serve s (CallCreateFromShell email password name) = created (CreateFromShell s email password name)"
| "serve s CallListSuperusers = plain ListSuperusers"
| "serve s (CallDeactivate caller target) = plain (Deactivate caller target)"
| "serve s (CallAuthenticate email password ua ip) = plain (SU_Authenticate s email password ua ip)"
| "serve s (CallRefresh token ua ip) = plain (SU_Refresh s token ua ip)"
| "serve s (CallLogout token) = plain (SU_Logout token)"
| "serve s (CallVerify token) = plain (SU_Verify s token)"
| "serve s (CallTwoFactorStatus i) = plain (SU_TwoFactorStatus s i)"
| "serve s (CallBeginTwoFactorSetup i email) = plain (SU_BeginTwoFactorSetup s i email)"
| "serve s (CallConfirmTwoFactorSetup i code) = plain (SU_ConfirmTwoFactorSetup s i code)"
| "serve s (CallDisableTwoFactor i code) = plain (SU_DisableTwoFactor s i code)"
| "serve s (CallRegenerateBackupCodes i code) = plain (SU_RegenerateBackupCodes s i code)"
| "serve s (CallVerifyTwoFactorLogin token code ua ip) = plain (SU_VerifyTwoFactorLogin s token code ua ip)"
| "serve s (CallChangePassword i session old new) = plain (SU_ChangePassword s i session old new)"
| "serve s (CallListSessions i session) = plain (SU_ListSessions i session)"
| "serve s (CallRevokeSession i session) = plain (SU_RevokeSession i session)"
| "serve s (CallRevokeOtherSessions i session) = plain (SU_RevokeOtherSessions i session)"
| "serve s (CallImpersonate i user email) = plain (Impersonate s i user email)"

text \<open>
  A step is a request, or anything that leaves the plane's tables alone: time passing, faults to come, the other
  planes. A new operator and a new pending session take ids not in use: \<open>NewID\<close> draws 122 random bits.
\<close>

definition pending_ids_fresh :: "dbase \<Rightarrow> dbase \<Rightarrow> bool" where
  "pending_ids_fresh d d' \<longleftrightarrow>
     (\<forall>i p. pss_byID (s2_pending (superfactors d)) i = Some p \<longrightarrow>
        pss_byID (s2_pending (superfactors d')) i \<in> {Some p, None})"

inductive super_step :: "super_service \<Rightarrow> world \<Rightarrow> world \<Rightarrow> bool" for s where
  request: "serve s c w = (r, w') \<Longrightarrow> (\<forall>i. r = Inr (Some i) \<longrightarrow> sus_row (supers (db w)) i = None) \<Longrightarrow>
    pending_ids_fresh (db w) (db w') \<Longrightarrow> super_step s w w'"
| elsewhere: "supers (db w') = supers (db w) \<Longrightarrow> supertokens (db w') = supertokens (db w) \<Longrightarrow>
    superfactors (db w') = superfactors (db w) \<Longrightarrow> super_step s w w'"

section \<open>The invariant along the steps\<close>

lemma newSuperuser_ok:
  assumes "newSuperuser s e p n c w = (r, w')"
  shows "db w' = db w"
    and "r = Inr su \<Longrightarrow> su_Email su = NormalizeEmail e \<and> su_IsActive su \<and> su_CreatedBy su = c \<and>
           oc_PasswordValidator (ov_cfg s) (NormalizeEmail e) p = None \<and>
           (\<exists>salt. h_Hash (oc_PasswordHasher (ov_cfg s)) salt p = Inr (su_PasswordHash su))"
  using assms unfolding newSuperuser_def Let_def
  by (auto split: option.splits)

lemma createSuperuser_cases:
  assumes "createSuperuser s e p n c w = (r, w')"
  obtains (refused) x where "r = Inl x" and "db w' = db w"
  | (created) su s' where "r = Inr su" and "mem_CreateSuperuser su (supers (db w)) = (Inr (), s')"
      and "db w' = (db w)\<lparr>supers := s'\<rparr>" and "su_Email su = NormalizeEmail e" and "su_IsActive su"
      and "su_CreatedBy su = c" and "oc_PasswordValidator (ov_cfg s) (NormalizeEmail e) p = None"
proof -
  have "(\<exists>x. r = Inl x \<and> db w' = db w) \<or>
    (\<exists>su s'. r = Inr su \<and> mem_CreateSuperuser su (supers (db w)) = (Inr (), s') \<and> db w' = (db w)\<lparr>supers := s'\<rparr> \<and>
       su_Email su = NormalizeEmail e \<and> su_IsActive su \<and> su_CreatedBy su = c \<and>
       oc_PasswordValidator (ov_cfg s) (NormalizeEmail e) p = None)"
    using assms unfolding createSuperuser_def StoreSuperuser_def
  proof (rule seqE)
    fix x assume "newSuperuser s e p n c w = (Inl x, w')" and "r = Inl x"
    then show ?thesis using newSuperuser_ok(1) by blast
  next
    fix su w1 assume new: "newSuperuser s e p n c w = (Inr su, w1)" and
      rest: "seq (on_supers (mem_CreateSuperuser su)) (\<lambda>_. seq (log ((event_of EventSuperuserCreated ResultSuccess)
            \<lparr>ev_ActorID := (case c of None \<Rightarrow> [] | Some by \<Rightarrow> by),
             ev_TargetID := su_ID su, ev_Email := su_Email su\<rparr>)) (\<lambda>_. ret su)) w1 = (r, w')"
    note su = newSuperuser_ok(1) [OF new] newSuperuser_ok(2) [OF new refl]
    obtain r1 s1 where m: "mem_CreateSuperuser su (supers (db w)) = (r1, s1)" by fastforce
    have same: "s1 = supers (db w)" if "r1 = Inl x" for x
      using m that by (auto simp: mem_CreateSuperuser_def split: option.splits)
    from rest show ?thesis
    proof (rule seqE)
      fix x assume st: "on_supers (mem_CreateSuperuser su) w1 = (Inl x, w')" and r: "r = Inl x"
      have "db w' = db w" by (rule on_supersE [OF st]) (use m same su in auto)
      then show ?thesis using r by blast
    next
      fix u w2
      assume store: "on_supers (mem_CreateSuperuser su) w1 = (Inr u, w2)"
        and more: "seq (log ((event_of EventSuperuserCreated ResultSuccess)
            \<lparr>ev_ActorID := (case c of None \<Rightarrow> [] | Some by \<Rightarrow> by),
             ev_TargetID := su_ID su, ev_Email := su_Email su\<rparr>)) (\<lambda>_. ret su) w2 = (r, w')"
      have "r1 = Inr u" and "db w2 = (db w)\<lparr>supers := s1\<rparr>" using store m su by auto
      moreover have "r = Inr su" and "db w' = db w2" using more by auto
      ultimately show ?thesis using m su by auto
    qed
  qed
  then show thesis using refused created by blast
qed

lemma createSuperuser_kept:
  assumes run: "createSuperuser s e p n c w = (r, w')" and d: "in_order b X (db w)"
    and new: "\<And>su. r = Inr su \<Longrightarrow> su_ID su \<notin> X"
  shows "in_order b X (db w')"
  using run by (cases rule: createSuperuser_cases) (use d new in \<open>auto intro: in_order_created\<close>)

fun creates :: "super_call \<Rightarrow> bool" where
  "creates (CallBootstrap email password name) = True"
| "creates (CallCreateSuperuser email password name by) = True"
| "creates (CallCreateFromShell email password name) = True"
| "creates _ = False"

fun opens_pending :: "super_call \<Rightarrow> bool" where
  "opens_pending (CallAuthenticate email password ua ip) = True"
| "opens_pending _ = False"

context operator_plane
begin

lemma kept_plain: "kept m Q \<Longrightarrow> kept (plain m) (\<lambda>_. True)"
  by (rule holds_seq, assumption, rule kept_ret)

lemma kept_ListSuperusers: "kept ListSuperusers (\<lambda>_. True)"
  unfolding ListSuperusers_def by (rule kept_StoredSuperusers)

lemma kept_StoreSuperuser: "su_ID su \<notin> X \<Longrightarrow> kept (StoreSuperuser su) (\<lambda>_. True)"
  unfolding StoreSuperuser_def on_supers_def
proof (rule holds_wr)
  fix d r d' assume su: "su_ID su \<notin> X" and d: "in_order b X d"
    and "(fst (mem_CreateSuperuser su (supers d)), d\<lparr>supers := snd (mem_CreateSuperuser su (supers d))\<rparr>) = (r, d')"
  then show "in_order b X d' \<and> (\<forall>x. r = Inr x \<longrightarrow> True) \<and> (\<forall>e. r = Inl e \<longrightarrow> E e)"
    using in_order_created [OF d su prod.collapse [symmetric]]
    by (auto simp: mem_CreateSuperuser_def split: option.splits)
qed simp

lemma kept_createSuperuser: "X = {} \<Longrightarrow> kept (createSuperuser s e p n by) (\<lambda>_. True)"
  unfolding createSuperuser_def newSuperuser_def Let_def
  by (rule port_rules kept_rules kept_StoreSuperuser | simp)+

lemma kept_Bootstrap: "X = {} \<Longrightarrow> kept (Bootstrap s e p n) (\<lambda>_. True)"
  unfolding Bootstrap_def by (rule port_rules kept_rules kept_createSuperuser | simp)+

lemma kept_created: "kept m Q \<Longrightarrow> kept (created m) (\<lambda>_. True)"
  by (rule holds_seq, assumption, rule kept_ret)

lemma kept_serve_create:
  assumes "creates c" and X: "X = {}" shows "kept (serve s c) (\<lambda>_. True)"
  using assms(1)
  by (cases c) (simp_all add: CreateSuperuser_def CreateFromShell_def
      kept_created [OF kept_Bootstrap [OF X]] kept_created [OF kept_createSuperuser [OF X]])

lemma kept_serve_login:
  assumes "opens_pending c" and b: "\<not> b" shows "kept (serve s c) (\<lambda>_. True)"
  using assms(1) by (cases c) (simp_all add: kept_plain [OF kept_Authenticate [OF b]])

lemma kept_serve:
  assumes "\<not> creates c" and "\<not> opens_pending c" and "b \<or> E Panic"
  shows "kept (serve s c) (\<lambda>_. True)"
  using assms
  by (cases c)
    (auto intro!: kept_plain kept_ListSuperusers kept_Deactivate kept_Refresh kept_Logout kept_Verify
      kept_TwoFactorStatus kept_BeginTwoFactorSetup kept_ConfirmTwoFactorSetup kept_DisableTwoFactor
      kept_RegenerateBackupCodes kept_VerifyTwoFactorLogin kept_ChangePassword kept_ListSessions kept_RevokeSession
      kept_RevokeOtherSessions kept_Impersonate)

lemma kept_request:
  assumes "creates c \<longrightarrow> X = {}" and "opens_pending c \<longrightarrow> \<not> b" and "opens_pending c \<or> b \<or> E Panic"
  shows "kept (serve s c) (\<lambda>_. True)"
proof (cases "creates c")
  case True
  then show ?thesis using kept_serve_create assms(1) by blast
next
  case False
  then show ?thesis using kept_serve_login kept_serve assms(2,3) by (cases "opens_pending c") blast+
qed

end

text \<open>What the three ways of creating an operator have in common.\<close>

lemma creates_kept:
  assumes run: "serve s c w = (r, w')" and c: "creates c" and d: "in_order b X (db w)"
    and fresh: "\<forall>i. r = Inr (Some i) \<longrightarrow> i \<notin> X"
  shows "in_order b X (db w')"
proof -
  have kept: "in_order b X (db w2)"
    if m: "createSuperuser s e p n by w1 = (r1, w2)" and db1: "db w1 = db w"
      and r1: "\<And>su. r1 = Inr su \<Longrightarrow> r = Inr (Some (su_ID su))" for e p n "by" w1 r1 w2
    by (rule createSuperuser_kept [OF m]) (use d db1 fresh r1 in auto)
  show ?thesis
  proof (cases c)
    case (CallBootstrap e p n)
    then have "seq (Bootstrap s e p n) (\<lambda>su. ret (Some (su_ID su))) w = (r, w')" using run by simp
    moreover have "db w1 = db w \<or> (\<exists>w2. db w2 = db w \<and> createSuperuser s e p n None w2 = (r1, w1))"
      if "Bootstrap s e p n w = (r1, w1)" for r1 w1
      using that by (auto simp: Bootstrap_def CountSuperusers_def split: if_splits)
    ultimately show ?thesis by (elim seqE) (auto simp: d dest: kept)
  qed (use run c in \<open>auto simp: CreateSuperuser_def CreateFromShell_def intro: kept [OF _ refl]\<close>)
qed

text \<open>With every error admitted, the invariant holds along the steps: who is out of service stays so.\<close>

interpretation any_error: operator_plane s "\<lambda>_. True" X b for s X b
  by unfold_locales auto

lemma step_in_order:
  assumes "super_step s w w'" and d: "in_order False X (db w)"
  shows "in_order False X (db w')"
  using assms(1)
proof cases
  case (request c r)
  show ?thesis
  proof (cases "creates c")
    case True
    have "i \<notin> X" if "r = Inr (Some i)" for i
      using request(2) that d by (auto simp: in_order_def retired_def)
    then show ?thesis using creates_kept [OF request(1) True d] by blast
  next
    case False
    have "holds (in_order False X) (serve s c) (\<lambda>_. True) (\<lambda>_. True)"
      by (rule any_error.kept_request) (use False in auto)
    then show ?thesis using holdsD(1) d request(1) by blast
  qed
next
  case elsewhere
  then show ?thesis using d by (auto intro: in_order_others)
qed

lemma steps_in_order:
  "(super_step s)\<^sup>*\<^sup>* w w' \<Longrightarrow> in_order False X (db w) \<Longrightarrow> in_order False X (db w')"
  by (induction rule: rtranclp_induct) (auto intro: step_in_order)

section \<open>Deactivation is final\<close>

lemma Deactivate_retires:
  assumes wf: "in_order False {} (db w)" and run: "Deactivate caller target w = (Inr (), w')"
  shows "in_order False {target} (db w')"
proof -
  have kept: "in_order False {} (db w')"
    using holdsD(1) [OF any_error.kept_Deactivate wf run] .
  obtain su fs where su: "mem_GetSuperuserByID (supers (db w)) target = Inr su"
    and upd: "mem_UpdateSuperuser (su\<lparr>su_IsActive := False, su_UpdatedAt := clock w\<rparr>) (supers (db w)) = (Inr (), supers (db w'))"
    and rev: "mem_RevokeAllSuperuserRefreshTokens (clock w) target (supertokens (db w)) = (Inr (), supertokens (db w'))"
    using run by (auto simp: Deactivate_def port_defs split: if_splits)
  have "su_ID su = target" by (rule sus_get_id [OF in_orderD(1) [OF wf] su])
  then have "sus_row (supers (db w')) target = Some (su\<lparr>su_IsActive := False, su_UpdatedAt := clock w\<rparr>)"
    using upd by (auto simp: mem_UpdateSuperuser_def dest: sym split: option.splits)
  then have "retired target (db w')"
    using super_revoke_all_revokes [OF in_orderD(2) [OF wf] rev] by (auto simp: retired_def)
  then show ?thesis using kept by (simp add: in_order_def)
qed

text \<open>
  C5. A deactivated operator is out for good: whatever requests follow, of anybody and in any order, and whatever
  fails on the way, the account is there and inactive, and every session it ever had, or a request tried to open
  for it since, is revoked.
\<close>

theorem deactivation_is_final:
  assumes "sus_inv (supers (db w))" and "srs_inv (supertokens (db w))"
    and "Deactivate caller target w = (Inr (), w1)" and "(super_step s)\<^sup>*\<^sup>* w1 w2"
  shows "(\<exists>su. mem_GetSuperuserByID (supers (db w2)) target = Inr su \<and> \<not> su_IsActive su) \<and>
    (\<forall>i t. srs_byID (supertokens (db w2)) i = Some t \<longrightarrow> sr_SuperuserID t = target \<longrightarrow> sr_RevokedAt t \<noteq> None)"
proof -
  have "in_order False {} (db w)" using assms(1,2) by (simp add: in_order_def)
  then have "in_order False {target} (db w1)" using Deactivate_retires assms(3) by blast
  then have "in_order False {target} (db w2)" using steps_in_order assms(4) by blast
  then show ?thesis by (auto simp: in_order_def retired_def mem_GetSuperuserByID_def)
qed

section \<open>No request panics\<close>

text \<open>What a well-behaved parameter does: it answers, with or without an error, and does not panic.\<close>

definition no_panics :: "super_service \<Rightarrow> bool" where
  "no_panics s \<longleftrightarrow>
     (\<forall>bs p. h_Hash (oc_PasswordHasher (ov_cfg s)) bs p \<noteq> Inl Panic) \<and>
     (\<forall>e p. oc_PasswordValidator (ov_cfg s) e p \<noteq> Some Panic) \<and>
     (\<forall>h t k. oc_RateLimiter (ov_cfg s) h t k \<noteq> Some Panic) \<and>
     (\<forall>c. ss_Sign (ov_signer s) c \<noteq> Inl Panic) \<and> (\<forall>c. sg_Sign (ov_impSigner s) c \<noteq> Inl Panic) \<and>
     (\<forall>bs is ac. totp_generate (ov_totp s) bs is ac \<noteq> Inl Panic)"

lemma no_panics_plane: "no_panics s \<Longrightarrow> operator_plane s (\<lambda>e. e \<noteq> Panic)"
  by unfold_locales (auto simp: no_panics_def)

text \<open>Only a sign-in opens a pending session, and at most one.\<close>

lemma beginTwoFactor_pending:
  assumes "SU_beginTwoFactorLogin s i w = (r, w')"
  shows "superfactors (db w') = superfactors (db w) \<or>
          (\<exists>p. superfactors (db w') = snd (mem_CreateSuperuserPendingTwoFactorSession p (superfactors (db w))))"
  using assms unfolding SU_beginTwoFactorLogin_def port_defs
  by (auto simp: mem_CreateSuperuserPendingTwoFactorSession_def split: if_splits) (metis snd_conv)+

lemma leaves_SU_recordFailedLogin [leaves_rules]:
  "(\<And>d x. g (d\<lparr>lockouts := x\<rparr>) = g d) \<Longrightarrow> leaves g (SU_recordFailedLogin s e)"
  unfolding SU_recordFailedLogin_def port_defs by (intro keeps_rules leaves_rules)

lemma leaves_SU_admit: "leaves g (SU_admit s e ua ip)"
  unfolding SU_admit_def SU_throttled_def port_defs by (intro keeps_rules leaves_rules)

lemma leaves_SU_checkPassword:
  "(\<And>d x. g (d\<lparr>lockouts := x\<rparr>) = g d) \<Longrightarrow> (\<And>d x. g (d\<lparr>supers := x\<rparr>) = g d) \<Longrightarrow> leaves g (SU_checkPassword s e p ua ip)"
  unfolding SU_checkPassword_def SU_rehash_def Let_def port_defs by (intro keeps_rules leaves_rules)

lemma leaves_SU_issueTokenPair:
  "(\<And>d x. g (d\<lparr>supertokens := x\<rparr>) = g d) \<Longrightarrow> leaves g (SU_issueTokenPair s i e ua ip)"
  unfolding SU_issueTokenPair_def Let_def port_defs by (intro keeps_rules leaves_rules)

lemma leaves_SU_clearFailures:
  "(\<And>d x. g (d\<lparr>lockouts := x\<rparr>) = g d) \<Longrightarrow> leaves g (SU_clearFailures s e)"
  unfolding SU_clearFailures_def port_defs by (intro keeps_rules leaves_rules)

lemma finishLogin_pending:
  assumes "SU_finishLogin s su e ua ip w = (r, w')"
  shows "superfactors (db w') = superfactors (db w) \<or>
          (\<exists>p. superfactors (db w') = snd (mem_CreateSuperuserPendingTwoFactorSession p (superfactors (db w))))"
proof -
  have rest: "leaves superfactors (seq (SU_clearFailures s e) (\<lambda>_. with_now (\<lambda>now.
     ignoring (UpdateSuperuser (su\<lparr>su_LastLoginAt := Some now\<rparr>))
     (seq (SU_issueTokenPair s (su_ID su) (su_Email su) ua ip) (\<lambda>tokens.
      seq (log (operator_event EventSuperuserLoginSucceeded ResultSuccess (su_ID su) (su_Email su) ua ip []))
        (\<lambda>_. ret \<lparr>lr_Tokens = Some tokens, lr_TwoFactorToken = ''''\<rparr>))))))"
    unfolding UpdateSuperuser_def
    by (intro keeps_rules leaves_rules leaves_SU_clearFailures leaves_SU_issueTokenPair) simp_all
  obtain r1 w1 where b: "SU_beginTwoFactorLogin s (su_ID su) w = (r1, w1)" by fastforce
  have "superfactors (db w') = superfactors (db w1)"
  proof (cases r1)
    case (Inl x)
    then show ?thesis using assms b unfolding SU_finishLogin_def by (simp add: seq_run)
  next
    case (Inr tok)
    show ?thesis
      using assms b leavesD [OF rest] unfolding SU_finishLogin_def Inr by (simp add: seq_run split: if_splits)
  qed
  then show ?thesis using beginTwoFactor_pending [OF b] by simp
qed

lemma Authenticate_pending:
  assumes "SU_Authenticate s e p ua ip w = (r, w')"
  shows "superfactors (db w') = superfactors (db w) \<or>
          (\<exists>p. superfactors (db w') = snd (mem_CreateSuperuserPendingTwoFactorSession p (superfactors (db w))))"
proof -
  have checked: "leaves superfactors (SU_checkPassword s (NormalizeEmail e) p ua ip)"
    by (rule leaves_SU_checkPassword) simp_all
  show ?thesis
  using assms unfolding SU_Authenticate_def Let_def
proof (elim seqE)
  fix u w1 su w2
  assume "SU_admit s (NormalizeEmail e) ua ip w = (Inr u, w1)"
    and "SU_checkPassword s (NormalizeEmail e) p ua ip w1 = (Inr su, w2)"
    and fin: "SU_finishLogin s su (NormalizeEmail e) ua ip w2 = (r, w')"
  then have "superfactors (db w2) = superfactors (db w)"
    using leavesD [OF leaves_SU_admit, where g = superfactors] leavesD [OF checked] by metis
  then show ?thesis using finishLogin_pending [OF fin] by simp
next
  fix x u w1
  assume "SU_admit s (NormalizeEmail e) ua ip w = (Inr u, w1)"
    and "SU_checkPassword s (NormalizeEmail e) p ua ip w1 = (Inl x, w')"
  then show ?thesis using leavesD [OF leaves_SU_admit, where g = superfactors] leavesD [OF checked] by metis
qed (use leavesD [OF leaves_SU_admit, where g = superfactors] in blast)
qed

lemma pending_again:
  assumes inv: "pss_inv s" and row: "pss_byID s (ps_ID x) = Some x"
  shows "pss_inv (snd (mem_CreatePendingTwoFactorSession x s))"
proof -
  have same: "(pss_byID s)(ps_ID x \<mapsto> x) = pss_byID s" using row by (rule map_upd_triv)
  have "hash_indexed ps_TokenHash (pss_byHash s) (pss_byID s)" using inv unfolding pss_inv_def by blast
  then have "hash_indexed ps_TokenHash ((pss_byHash s)(ps_TokenHash x \<mapsto> ps_ID x)) (pss_byID s)"
    using row by (auto simp: hash_indexed_def)
  moreover have "\<forall>i y. pss_byID s i = Some y \<longrightarrow> ps_ID y = i" using inv unfolding pss_inv_def by blast
  ultimately show ?thesis unfolding pss_inv_def mem_CreatePendingTwoFactorSession_def same snd_conv by simp
qed

lemma pending_kept:
  assumes inv: "pss_inv (s2_pending (superfactors d))" and fresh: "pending_ids_fresh d d'"
    and d': "superfactors d' = superfactors d \<or>
      (\<exists>p. superfactors d' = snd (mem_CreateSuperuserPendingTwoFactorSession p (superfactors d)))"
  shows "pss_inv (s2_pending (superfactors d'))"
  using d'
proof
  assume "\<exists>p. superfactors d' = snd (mem_CreateSuperuserPendingTwoFactorSession p (superfactors d))"
  then obtain p where p: "s2_pending (superfactors d') = snd (mem_CreatePendingTwoFactorSession p (s2_pending (superfactors d)))"
    by (auto simp: mem_CreateSuperuserPendingTwoFactorSession_def in_pending_def)
  have "pss_byID (s2_pending (superfactors d)) (ps_ID p) = None \<or> pss_byID (s2_pending (superfactors d)) (ps_ID p) = Some p"
  proof (cases "pss_byID (s2_pending (superfactors d)) (ps_ID p)")
    case (Some q)
    then have "pss_byID (s2_pending (superfactors d')) (ps_ID p) \<in> {Some q, None}"
      using fresh unfolding pending_ids_fresh_def by blast
    then show ?thesis using Some p by (simp add: mem_CreatePendingTwoFactorSession_def)
  qed simp
  then show ?thesis
    using pss_inv_create [OF inv _ prod.collapse [symmetric], of p] pending_again [OF inv, of p] p by metis
qed (use inv in simp)

lemma step_well_formed:
  assumes "super_step s w w'" and d: "in_order True {} (db w)" shows "in_order True {} (db w')"
  using assms(1)
proof cases
  case (request c r)
  show ?thesis
  proof (cases "opens_pending c")
    case True
    then obtain e p ua ip where c: "c = CallAuthenticate e p ua ip" by (cases c) auto
    have "in_order False {} (db w)" using d by (simp add: in_order_def)
    then have "in_order False {} (db w')"
      using holdsD(1) [OF any_error.kept_request _ request(1)] by auto
    moreover have "pss_inv (s2_pending (superfactors (db w')))"
    proof (rule pending_kept [OF in_orderD(3) [OF d TrueI] request(3)])
      obtain r1 where "SU_Authenticate s e p ua ip w = (r1, w')"
        using request(1) unfolding c serve.simps by (elim seqE) auto
      then show "superfactors (db w') = superfactors (db w) \<or>
          (\<exists>p. superfactors (db w') = snd (mem_CreateSuperuserPendingTwoFactorSession p (superfactors (db w))))"
        by (rule Authenticate_pending)
    qed
    ultimately show ?thesis by (simp add: in_order_def)
  next
    case False
    show ?thesis by (rule holdsD(1) [OF any_error.kept_request d request(1)]) (use False in auto)
  qed
next
  case elsewhere
  then show ?thesis using d by (auto intro: in_order_others)
qed

text \<open>
  C15. No request of the operator plane dereferences nil: from empty tables, after any requests whatever and
  whatever failed, serving any request gives an answer or an error, as long as the host's own parameters do not
  panic.
\<close>

theorem operators_never_panic:
  assumes "no_panics s" and "supers (db w0) = NewSuperuserStore" and "supertokens (db w0) = NewSuperuserRefreshTokenStore"
    and "superfactors (db w0) = NewSuperuserTwoFactorStore" and "(super_step s)\<^sup>*\<^sup>* w0 w"
  shows "fst (serve s c w) \<noteq> Inl Panic"
proof -
  have "in_order True {} (db w0)"
    using assms(2-4) by (simp add: in_order_def sus_inv_new srs_inv_new pss_inv_new NewSuperuserTwoFactorStore_def)
  with assms(5) have d: "in_order True {} (db w)"
    by (induction rule: rtranclp_induct) (auto intro: step_well_formed)
  have E: "operator_plane s (\<lambda>e. e \<noteq> Panic)" by (rule no_panics_plane [OF assms(1)])
  obtain r w' where run: "serve s c w = (r, w')" by fastforce
  have "r = Inl e \<Longrightarrow> e \<noteq> Panic" for e
  proof (cases "opens_pending c")
    case True
    have "in_order False {} (db w)" using d by (simp add: in_order_def)
    from holdsD(3) [OF operator_plane.kept_request [OF E] this run] show "r = Inl e \<Longrightarrow> e \<noteq> Panic"
      using True by simp
  next
    case False
    from holdsD(3) [OF operator_plane.kept_request [OF E] d run] show "r = Inl e \<Longrightarrow> e \<noteq> Panic"
      using False by simp
  qed
  then show ?thesis using run by auto
qed

section \<open>Instances\<close>

definition demo_super_signer :: super_signer where
  "demo_super_signer = \<lparr>ss_Sign = (\<lambda>c. Inr (''su:'' @ sc_Subject c)), ss_Verify = (\<lambda>_ _. None)\<rparr>"

definition demo_super_service :: super_service where
  "demo_super_service = \<lparr>ov_Tx = False, ov_Lockouts = True, ov_TwoFactor = True, ov_signer = demo_super_signer,
     ov_impSigner = demo_signer, ov_totp = demo_totp, ov_aead = demo_aead, ov_cfg =
     \<lparr>oc_Audience = ''authit-superuser'', oc_AccessTokenTTL = 5 * minute, oc_RefreshTokenTTL = 4 * hour,
      oc_ImpersonationTTL = 15 * minute, oc_MaxFailedLoginAttempts = 2, oc_FailedLoginWindow = 15 * minute,
      oc_PasswordHasher = demo_hasher, oc_PasswordValidator = (\<lambda>_ _. None), oc_RateLimiter = Noop,
      oc_TOTPEncryptionKey = replicate 32 0, oc_TOTPIssuer = ''authit-superuser'', oc_BackupCodeCount = 2,
      oc_PendingTwoFactorTTL = 5 * minute\<rparr>\<rparr>"

definition demo_operator :: superuser where
  "demo_operator = \<lparr>su_ID = ''op1'', su_Email = ''a@x'', su_PasswordHash = ''h:pw'', su_DisplayName = ''Op'',
     su_IsActive = True, su_CreatedBy = None, su_LastLoginAt = None, su_CreatedAt = 0, su_UpdatedAt = 0\<rparr>"

definition demo_super_world :: world where
  "demo_super_world = (world0 0)\<lparr>db := empty_db\<lparr>supers := snd (mem_CreateSuperuser demo_operator NewSuperuserStore)\<rparr>\<rparr>"

lemmas demo_super_defs = demo_super_signer_def demo_super_service_def demo_operator_def demo_super_world_def demo_defs
  NewSuperuserStore_def NewSuperuserRefreshTokenStore_def NewSuperuserTwoFactorStore_def
  on_supers_def on_supertokens_def on_superfactors_def run_defs

theorem deactivation_is_final_witness:
  "\<exists>w1. Deactivate ''op2'' ''op1'' demo_super_world = (Inr (), w1) \<and>
     (\<exists>su. mem_GetSuperuserByID (supers (db w1)) ''op1'' = Inr su \<and> \<not> su_IsActive su)"
proof -
  have inv: "sus_inv (supers (db demo_super_world))" "srs_inv (supertokens (db demo_super_world))"
    by (auto simp: demo_super_defs mem_defs sus_inv_def srs_inv_def points_into_def points_into_all_def no_ids_def)
  obtain w1 where run: "Deactivate ''op2'' ''op1'' demo_super_world = (Inr (), w1)"
    by (simp add: Deactivate_def demo_super_defs mem_defs no_ids_def)
  show ?thesis
    using deactivation_is_final [OF inv run rtranclp.rtrancl_refl [where r = "super_step demo_super_service"]] run by blast
qed

theorem operators_never_panic_witness:
  "fst (serve demo_super_service (CallVerifyTwoFactorLogin ''x'' ''123456'' ''ua'' ''ip'') (world0 0)) \<noteq> Inl Panic"
  by (rule operators_never_panic [where ?w0.0 = "world0 0"])
    (simp_all add: no_panics_def demo_super_defs Noop_def)

end
