(* ===== verification/SuperProps.thy ===== *)
theory SuperProps
  imports SuperPlane RefreshProps TwoFactorProps
begin

text \<open>
  What the methods of the operator plane guarantee one by one: signing in, the second factor, refreshing,
  changing the password, creating the first operator; and two interleavings that undo a deactivation.
\<close>

section \<open>Signing in, stage by stage\<close>

definition super_throttled :: "super_service \<Rightarrow> dbase \<Rightarrow> time \<Rightarrow> string \<Rightarrow> bool" where
  "super_throttled s d t e \<longleftrightarrow> ov_Lockouts s \<and>
     int (lo_count (lockouts d) e (t - oc_FailedLoginWindow (ov_cfg s))) \<ge> oc_MaxFailedLoginAttempts (ov_cfg s)"

definition super_locked :: "super_service \<Rightarrow> dbase \<Rightarrow> string \<Rightarrow> bool" where
  "super_locked s d i \<longleftrightarrow> ov_Lockouts s \<and> lo_locked (lockouts d) i"

lemma SU_throttledE [elim!]:
  assumes "SU_throttled s e w = (r, w')"
  obtains x fs where "r = Inl (Fault x)" and "w' = w\<lparr>faults := fs\<rparr>"
  | fs where "r = Inr (super_throttled s (db w) (clock w) e)" and "w' = w\<lparr>faults := fs\<rparr>"
proof (cases "ov_Lockouts s")
  case False
  then have "r = Inr (super_throttled s (db w) (clock w) e)" and "w' = w\<lparr>faults := faults w\<rparr>"
    using assms by (auto simp: SU_throttled_def super_throttled_def)
  then show thesis by (rule that(2))
next
  case True
  then show thesis
    using assms that unfolding SU_throttled_def port_defs
    by (auto simp: lo_count_def super_throttled_def mem_CountRecentFailedLoginAttempts_def)
qed

lemma SU_admit_ok:
  assumes "SU_admit s e ua ip w = (Inr (), w')"
  shows "db w' = db w" and "clock w' = clock w" and "\<not> super_throttled s (db w) (clock w) e"
  using assms unfolding SU_admit_def by (auto elim!: AllowEach_frame split: if_splits)

lemma SU_rehash_ok:
  assumes "SU_rehash s su p w = (r, w')"
  obtains su' where "r = Inr su'" and "su_ID su' = su_ID su" and "su_Email su' = su_Email su"
    and "su_IsActive su' = su_IsActive su" and "clock w' = clock w"
    and "lockouts (db w') = lockouts (db w)" and "superfactors (db w') = superfactors (db w)"
    and "supertokens (db w') = supertokens (db w)"
  using assms unfolding SU_rehash_def Let_def port_defs by (auto split: if_splits)

lemma SU_checkPassword_ok:
  assumes "SU_checkPassword s e p ua ip w = (Inr su', w')"
  obtains su where "mem_GetSuperuserByEmail (supers (db w)) e = Inr su"
    and "h_Verify (oc_PasswordHasher (ov_cfg s)) p (su_PasswordHash su)" and "su_IsActive su"
    and "\<not> super_locked s (db w) (su_ID su)"
    and "su_ID su' = su_ID su" and "su_Email su' = su_Email su" and "clock w' = clock w"
    and "superfactors (db w') = superfactors (db w)" and "supertokens (db w') = supertokens (db w)"
  using assms unfolding SU_checkPassword_def port_defs
  by (auto simp: super_locked_def mem_IsAccountLocked_def split: if_splits elim!: SU_rehash_ok)

text \<open>The session a sign-in opens and the access token that names it.\<close>

definition super_row :: "super_service \<Rightarrow> string \<Rightarrow> string \<Rightarrow> string \<Rightarrow> world \<Rightarrow> superuser_token" where
  "super_row s i ua ip w =
     \<lparr>sr_ID = uuid_of (draw 16 (w\<lparr>rpos := rpos w + 32\<rparr>)), sr_SuperuserID = i,
      sr_TokenHash = HashToken (b64url_encode (draw 32 w)), sr_ExpiresAt = clock w + oc_RefreshTokenTTL (ov_cfg s),
      sr_RevokedAt = None, sr_UserAgent = ua, sr_IPAddress = ip, sr_CreatedAt = clock w\<rparr>"

definition super_access :: "super_service \<Rightarrow> string \<Rightarrow> string \<Rightarrow> string \<Rightarrow> time \<Rightarrow> super_claims" where
  "super_access s i email sid now =
     \<lparr>sc_Subject = i, sc_ID = sid, sc_Audience = [oc_Audience (ov_cfg s)],
      sc_ExpiresAt = Some (now + oc_AccessTokenTTL (ov_cfg s)), sc_IssuedAt = Some now, sc_Email = email\<rparr>"

lemma SU_issueTokenPair_ok:
  assumes "SU_issueTokenPair s i email ua ip w = (Inr tp, w')"
  shows "mem_CreateSuperuserRefreshToken (super_row s i ua ip w) (supertokens (db w)) = (Inr (), supertokens (db w'))"
    and "tp_RefreshToken tp = b64url_encode (draw 32 w)"
    and "ss_Sign (ov_signer s) (super_access s i email (sr_ID (super_row s i ua ip w)) (clock w)) = Inr (tp_AccessToken tp)"
    and "supers (db w') = supers (db w)" and "superfactors (db w') = superfactors (db w)" and "clock w' = clock w"
  using assms unfolding SU_issueTokenPair_def Let_def port_defs
  by (auto simp: super_row_def super_access_def draw_def mem_CreateSuperuserRefreshToken_def)

text \<open>An enabled second factor, and the pending session a sign-in stops at when there is one.\<close>

definition has_factor :: "super_service \<Rightarrow> dbase \<Rightarrow> string \<Rightarrow> bool" where
  "has_factor s d i \<longleftrightarrow>
     ov_TwoFactor s \<and> (\<exists>t. mem_GetSuperuserTOTPSettings (superfactors d) i = Inr t \<and> ts_Enabled t)"

lemma beginTwoFactor_ok:
  assumes "SU_beginTwoFactorLogin s i w = (Inr tok, w')"
  obtains (none) "tok = ''''" and "\<not> has_factor s (db w) i" and "w' = w\<lparr>faults := faults w'\<rparr>"
  | (pending) p where "tok \<noteq> ''''" and "has_factor s (db w) i" and "ps_UserID p = i" and "ps_TokenHash p = HashToken tok"
      and "ps_ExpiresAt p = clock w + oc_PendingTwoFactorTTL (ov_cfg s)" and "supertokens (db w') = supertokens (db w)"
      and "mem_CreateSuperuserPendingTwoFactorSession p (superfactors (db w)) = (Inr (), superfactors (db w'))"
proof (cases "has_factor s (db w) i")
  case False
  then have "tok = '''' \<and> w' = w\<lparr>faults := faults w'\<rparr>"
    using assms unfolding SU_beginTwoFactorLogin_def port_defs
    by (auto simp: has_factor_def split: if_splits)
  then show thesis using none False by blast
next
  case True
  then obtain p where p: "p = \<lparr>ps_ID = uuid_of (draw 16 (w\<lparr>rpos := rpos w + 32\<rparr>)), ps_UserID = i,
      ps_TokenHash = HashToken (b64url_encode (draw 32 w)),
      ps_ExpiresAt = clock w + oc_PendingTwoFactorTTL (ov_cfg s), ps_CreatedAt = clock w\<rparr>" by blast
  have "tok = b64url_encode (draw 32 w) \<and> supertokens (db w') = supertokens (db w) \<and>
      mem_CreateSuperuserPendingTwoFactorSession p (superfactors (db w)) = (Inr (), superfactors (db w'))"
    using assms True unfolding SU_beginTwoFactorLogin_def port_defs p
    by (auto simp: has_factor_def draw_def split: if_splits)
  then show thesis using pending [of p] True b64_token_nonempty [of w] p by simp
qed

lemma mem_super_pending_get:
  "mem_CreateSuperuserPendingTwoFactorSession p fs = (Inr (), fs') \<Longrightarrow>
   mem_GetSuperuserPendingTwoFactorSessionByHash fs' (ps_TokenHash p) = Inr p"
  by (auto simp: mem_CreateSuperuserPendingTwoFactorSession_def in_pending_def mem_CreatePendingTwoFactorSession_def
      mem_GetSuperuserPendingTwoFactorSessionByHash_def mem_GetPendingTwoFactorSessionByHash_def)

lemma SU_clearFailures_frame:
  assumes "SU_clearFailures s e w = (r, w')"
  shows "r = Inr ()" and "supers (db w') = supers (db w)" and "supertokens (db w') = supertokens (db w)"
    and "superfactors (db w') = superfactors (db w)" and "clock w' = clock w"
  using assms unfolding SU_clearFailures_def port_defs by (auto split: if_splits)

lemma SU_clearFailuresE:
  assumes "SU_clearFailures s e w = (r, w')"
  obtains "r = Inr ()" and "supers (db w') = supers (db w)" and "supertokens (db w') = supertokens (db w)"
    and "superfactors (db w') = superfactors (db w)" and "clock w' = clock w"
  using SU_clearFailures_frame [OF assms] by blast

text \<open>The session a completed sign-in has opened for an operator, found under the token handed out.\<close>

definition signed_in :: "super_service \<Rightarrow> dbase \<Rightarrow> time \<Rightarrow> string \<Rightarrow> string \<Rightarrow> token_pair \<Rightarrow> bool" where
  "signed_in s d now i email tp \<longleftrightarrow>
     (\<exists>row. mem_GetSuperuserRefreshTokenByHash (supertokens d) (HashToken (tp_RefreshToken tp)) = Inr row \<and>
        sr_SuperuserID row = i \<and> sr_RevokedAt row = None \<and> sr_ExpiresAt row = now + oc_RefreshTokenTTL (ov_cfg s) \<and>
        ss_Sign (ov_signer s) (super_access s i email (sr_ID row) now) = Inr (tp_AccessToken tp))"

lemma issued_signed_in:
  assumes "SU_issueTokenPair s i email ua ip w = (Inr tp, w')"
  shows "signed_in s (db w') (clock w) i email tp"
proof -
  note issued = SU_issueTokenPair_ok [OF assms]
  have "mem_GetSuperuserRefreshTokenByHash (supertokens (db w')) (HashToken (tp_RefreshToken tp)) = Inr (super_row s i ua ip w)"
    using super_tab.create_get [OF issued(1)] issued(2) by (simp add: super_row_def)
  then show ?thesis using issued(3) by (auto simp: signed_in_def super_row_def)
qed

lemma SU_finishLogin_ok:
  assumes "SU_finishLogin s su e ua ip w = (Inr res, w')"
  obtains (finished) tp where "res = \<lparr>lr_Tokens = Some tp, lr_TwoFactorToken = ''''\<rparr>" and "\<not> has_factor s (db w) (su_ID su)"
      and "signed_in s (db w') (clock w) (su_ID su) (su_Email su) tp"
  | (pending) tok p where "res = \<lparr>lr_Tokens = None, lr_TwoFactorToken = tok\<rparr>" and "has_factor s (db w) (su_ID su)"
      and "supertokens (db w') = supertokens (db w)" and "ps_UserID p = su_ID su"
      and "mem_GetSuperuserPendingTwoFactorSessionByHash (superfactors (db w')) (HashToken tok) = Inr p"
      and "ps_ExpiresAt p = clock w + oc_PendingTwoFactorTTL (ov_cfg s)"
proof -
  obtain tok w1 where b: "SU_beginTwoFactorLogin s (su_ID su) w = (Inr tok, w1)"
    and rest: "(if tok \<noteq> '''' then ret \<lparr>lr_Tokens = None, lr_TwoFactorToken = tok\<rparr>
     else seq (SU_clearFailures s e) (\<lambda>_. with_now (\<lambda>now.
     ignoring (UpdateSuperuser (su\<lparr>su_LastLoginAt := Some now\<rparr>))
     (seq (SU_issueTokenPair s (su_ID su) (su_Email su) ua ip) (\<lambda>tokens.
      seq (log (operator_event EventSuperuserLoginSucceeded ResultSuccess (su_ID su) (su_Email su) ua ip []))
        (\<lambda>_. ret \<lparr>lr_Tokens = Some tokens, lr_TwoFactorToken = ''''\<rparr>)))))) w1 = (Inr res, w')"
    using assms unfolding SU_finishLogin_def by (rule seqE) auto
  from b show thesis
  proof (cases rule: beginTwoFactor_ok)
    case none
    have "\<exists>tp w2 w3. SU_issueTokenPair s (su_ID su) (su_Email su) ua ip w2 = (Inr tp, w3) \<and> clock w2 = clock w1 \<and>
        db w' = db w3 \<and> res = \<lparr>lr_Tokens = Some tp, lr_TwoFactorToken = []\<rparr>"
      using rest none(1) unfolding UpdateSuperuser_def
      by auto (rule exI, rule exI, rule conjI, assumption, use SU_clearFailures_frame(5) in auto)+
    then obtain tp w2 w3 where tp: "SU_issueTokenPair s (su_ID su) (su_Email su) ua ip w2 = (Inr tp, w3)"
      and "clock w2 = clock w1" and "db w' = db w3" and "res = \<lparr>lr_Tokens = Some tp, lr_TwoFactorToken = ''''\<rparr>"
      by blast
    moreover have "clock w1 = clock w" using none(3) by (metis world.select_convs(2) world.surjective world.update_convs(3))
    ultimately show thesis using finished none(2) issued_signed_in [OF tp] by simp
  next
    case (pending p)
    then show thesis using that(2) [of tok p] rest mem_super_pending_get [OF pending(7)] by simp
  qed
qed

text \<open>
  C6. An operator is signed in by the right password and nothing else: the address names an active account whose
  stored hash the password verifies against, not locked by anybody and not over the limit of recent failures. An
  operator with a second factor gets no session yet, only the pending token of a session that ends on time; one
  without gets a session of its own, found under the refresh token, and an access token for the plane's audience
  that names the session.
\<close>

theorem operator_login_sound:
  assumes "SU_Authenticate s email password ua ip w = (Inr res, w')"
  shows "\<exists>su. mem_GetSuperuserByEmail (supers (db w)) (NormalizeEmail email) = Inr su \<and> su_IsActive su \<and>
    h_Verify (oc_PasswordHasher (ov_cfg s)) password (su_PasswordHash su) \<and>
    \<not> super_locked s (db w) (su_ID su) \<and> \<not> super_throttled s (db w) (clock w) (NormalizeEmail email) \<and>
    (case lr_Tokens res of
       Some tp \<Rightarrow> \<not> has_factor s (db w) (su_ID su) \<and> signed_in s (db w') (clock w) (su_ID su) (su_Email su) tp
     | None \<Rightarrow> has_factor s (db w) (su_ID su) \<and> supertokens (db w') = supertokens (db w) \<and>
         (\<exists>p. mem_GetSuperuserPendingTwoFactorSessionByHash (superfactors (db w')) (HashToken (lr_TwoFactorToken res)) = Inr p \<and>
            ps_UserID p = su_ID su \<and> ps_ExpiresAt p = clock w + oc_PendingTwoFactorTTL (ov_cfg s)))"
proof -
  obtain w1 su' w2 where admit: "SU_admit s (NormalizeEmail email) ua ip w = (Inr (), w1)"
    and pw: "SU_checkPassword s (NormalizeEmail email) password ua ip w1 = (Inr su', w2)"
    and fin: "SU_finishLogin s su' (NormalizeEmail email) ua ip w2 = (Inr res, w')"
    using assms unfolding SU_Authenticate_def Let_def by (elim seqE) auto
  note a = SU_admit_ok [OF admit]
  from pw obtain su where su: "mem_GetSuperuserByEmail (supers (db w)) (NormalizeEmail email) = Inr su"
    "h_Verify (oc_PasswordHasher (ov_cfg s)) password (su_PasswordHash su)" "su_IsActive su" "\<not> super_locked s (db w) (su_ID su)"
    and same: "su_ID su' = su_ID su" "su_Email su' = su_Email su" "clock w2 = clock w"
    "superfactors (db w2) = superfactors (db w)" "supertokens (db w2) = supertokens (db w)"
    using a(1,2) by (elim SU_checkPassword_ok) simp
  have factor: "has_factor s (db w2) i = has_factor s (db w) i" for i by (simp add: has_factor_def same)
  from fin show ?thesis
    by (cases rule: SU_finishLogin_ok) (use su a(3) same factor in auto)
qed

section \<open>The second factor\<close>

lemma SU_consume_eq: "SU_consumeBackupCode = consumeBackupCode"
  by (intro ext) (simp add: SU_consumeBackupCode_def consumeBackupCode_def)

lemma SU_enabledTOTP_ok:
  assumes "SU_enabledTOTP s i w = (Inr (t, secret), w')"
  shows "ov_TwoFactor s" and "mem_GetSuperuserTOTPSettings (superfactors (db w)) i = Inr t" and "ts_Enabled t"
    and "DecryptSecret (ov_aead s) (oc_TOTPEncryptionKey (ov_cfg s)) (ts_SecretEncrypted t) = Inr secret"
    and "db w' = db w" and "clock w' = clock w"
  using assms unfolding SU_enabledTOTP_def SU_totp_def port_defs by (auto split: if_splits)

lemma SU_pendingOperator_ok:
  assumes "SU_pendingOperator s tok w = (Inr (p, su), w')"
  shows "mem_GetSuperuserPendingTwoFactorSessionByHash (superfactors (db w)) (HashToken tok) = Inr p"
    and "clock w \<le> ps_ExpiresAt p" and "mem_GetSuperuserByID (supers (db w)) (ps_UserID p) = Inr su"
    and "su_IsActive su" and "db w' = db w" and "clock w' = clock w" and "ov_TwoFactor s"
  using assms unfolding SU_pendingOperator_def port_defs by (auto simp: After_def split: if_splits)

lemma SU_admitFactor_ok:
  assumes "SU_admitFactor s su ua ip w = (Inr (), w')"
  shows "db w' = db w" and "clock w' = clock w" and "\<not> super_throttled s (db w) (clock w) (su_Email su)"
  using assms unfolding SU_admitFactor_def by (auto elim!: AllowEach_frame split: if_splits)

lemma SU_checkFactor_ok:
  assumes "SU_checkFactor s p su code ua ip w = (Inr v, w')"
  obtains t secret where "mem_GetSuperuserTOTPSettings (superfactors (db w)) (su_ID su) = Inr t" and "ts_Enabled t"
    and "DecryptSecret (ov_aead s) (oc_TOTPEncryptionKey (ov_cfg s)) (ts_SecretEncrypted t) = Inr secret"
    and "sf_pending v = p" and "sf_superuser v = su" and "db w' = db w" and "clock w' = clock w"
    and "\<not> sf_usedBackupCode v \<Longrightarrow> ValidateTOTPCode (ov_totp s) (clock w) secret code"
    and "sf_usedBackupCode v \<Longrightarrow> consumeBackupCode t code = (True, sf_settings v)"
proof -
  obtain t secret w1 where e: "SU_enabledTOTP s (su_ID su) w = (Inr (t, secret), w1)"
    and rest: "(if ValidateTOTPCode (ov_totp s) (clock w1) secret code
     then ret \<lparr>sf_pending = p, sf_superuser = su, sf_settings = t, sf_usedBackupCode = False\<rparr>
     else
       (case SU_consumeBackupCode t code of
          (True, settings) \<Rightarrow>
            ret \<lparr>sf_pending = p, sf_superuser = su, sf_settings = settings, sf_usedBackupCode = True\<rparr>
        | (False, settings) \<Rightarrow>
            seq (SU_recordFailedLogin s (su_Email su)) (\<lambda>_.
            seq (log (operator_event EventSuperuserLoginFailed ResultFailure (su_ID su) (su_Email su) ua ip
                        [(''reason'', MStr ''invalid_two_factor'')]))
              (\<lambda>_. raise (Super Super_ErrInvalidTwoFactor))))) w1 = (Inr v, w')"
    using assms unfolding SU_checkFactor_def with_now_eq by (rule seqE) auto
  show thesis
    using rest by (rule_tac that [OF SU_enabledTOTP_ok(2-4) [OF e]])
      (auto simp: SU_consume_eq SU_enabledTOTP_ok(5,6) [OF e] split: if_splits prod.splits bool.splits)
qed

lemma SU_completeFactor_ok:
  assumes "SU_completeFactor s v ua ip w = (Inr tp, w')" and "pss_inv (s2_pending (superfactors (db w)))"
  shows "signed_in s (db w') (clock w) (su_ID (sf_superuser v)) (su_Email (sf_superuser v)) tp"
    and "pss_byID (s2_pending (superfactors (db w'))) (ps_ID (sf_pending v)) = None"
    and "sf_usedBackupCode v \<Longrightarrow>
      s2_totp (superfactors (db w')) (ts_UserID (sf_settings v)) = Some ((sf_settings v)\<lparr>ts_UpdatedAt := clock w\<rparr>)"
    and "pss_inv (s2_pending (superfactors (db w')))"
proof -
  let ?su = "sf_superuser v"
  let ?tx = "seq (if sf_usedBackupCode v
              then with_now (\<lambda>now. UpdateSuperuserTOTPSettings ((sf_settings v)\<lparr>ts_UpdatedAt := now\<rparr>)) else ret ()) (\<lambda>_.
         seq (DeleteSuperuserPendingTwoFactorSession (ps_ID (sf_pending v))) (\<lambda>_.
         SU_issueTokenPair s (su_ID ?su) (su_Email ?su) ua ip))"
  obtain w1 x where tx': "RunInTx (ov_Tx s) ?tx w = (Inr x, w1)"
    and after: "seq (SU_clearFailures s (su_Email ?su)) (\<lambda>_. with_now (\<lambda>now.
      ignoring (UpdateSuperuser (?su\<lparr>su_LastLoginAt := Some now\<rparr>))
      (seq (log (operator_event EventSuperuserLoginSucceeded ResultSuccess (su_ID ?su) (su_Email ?su) ua ip
                   [(''via'', MStr ''two_factor''), (''backup_code'', MBool (sf_usedBackupCode v))]))
         (\<lambda>_. ret x)))) w1 = (Inr tp, w')"
    using assms(1) unfolding SU_completeFactor_def Let_def by (rule seqE) auto
  have "x = tp" using after unfolding UpdateSuperuser_def by auto
  then have tx: "RunInTx (ov_Tx s) ?tx w = (Inr tp, w1)" using tx' by simp
  from tx obtain fs w2 fs' where body: "?tx (w\<lparr>faults := fs\<rparr>) = (Inr tp, w2)" and w1: "w1 = w2\<lparr>faults := fs'\<rparr>"
    by (rule RunInTx_ok)
  have frame: "supertokens (db w') = supertokens (db w1)" "superfactors (db w') = superfactors (db w1)"
    using after unfolding UpdateSuperuser_def by (auto elim!: SU_clearFailuresE)
  obtain w3 u where upd: "(if sf_usedBackupCode v
              then with_now (\<lambda>now. UpdateSuperuserTOTPSettings ((sf_settings v)\<lparr>ts_UpdatedAt := now\<rparr>)) else ret ())
              (w\<lparr>faults := fs\<rparr>) = (Inr u, w3)"
    and more: "seq (DeleteSuperuserPendingTwoFactorSession (ps_ID (sf_pending v))) (\<lambda>_.
         SU_issueTokenPair s (su_ID ?su) (su_Email ?su) ua ip) w3 = (Inr tp, w2)"
    using body by (rule seqE) auto
  from more obtain w4 u' where del: "DeleteSuperuserPendingTwoFactorSession (ps_ID (sf_pending v)) w3 = (Inr u', w4)"
    and iss: "SU_issueTokenPair s (su_ID ?su) (su_Email ?su) ua ip w4 = (Inr tp, w2)"
    by (rule seqE) auto
  have w3: "clock w3 = clock w" "s2_pending (superfactors (db w3)) = s2_pending (superfactors (db w))"
    "sf_usedBackupCode v \<Longrightarrow> s2_totp (superfactors (db w3)) (ts_UserID (sf_settings v)) = Some ((sf_settings v)\<lparr>ts_UpdatedAt := clock w\<rparr>)"
    using upd by (auto simp: port_defs mem_UpdateSuperuserTOTPSettings_def in_totp_def mem_UpdateTOTPSettings_def
        split: if_splits option.splits)
  have w4: "clock w4 = clock w3" "s2_totp (superfactors (db w4)) = s2_totp (superfactors (db w3))"
    "s2_pending (superfactors (db w4)) = snd (mem_DeletePendingTwoFactorSession (ps_ID (sf_pending v)) (s2_pending (superfactors (db w3))))"
    using del by (auto simp: port_defs mem_DeleteSuperuserPendingTwoFactorSession_def in_pending_def)
  have same: "superfactors (db w') = superfactors (db w4)"
    using frame w1 SU_issueTokenPair_ok(5) [OF iss] by simp
  show "signed_in s (db w') (clock w) (su_ID ?su) (su_Email ?su) tp"
    using issued_signed_in [OF iss] frame(1) w1 w3(1) w4(1) by (simp add: signed_in_def)
  show "pss_byID (s2_pending (superfactors (db w'))) (ps_ID (sf_pending v)) = None"
    by (simp add: same w4 mem_DeletePendingTwoFactorSession_def split: option.splits)
  show "s2_totp (superfactors (db w')) (ts_UserID (sf_settings v)) = Some ((sf_settings v)\<lparr>ts_UpdatedAt := clock w\<rparr>)"
    if "sf_usedBackupCode v" using w3(3) [OF that] by (simp add: same w4)
  show "pss_inv (s2_pending (superfactors (db w')))"
    using pss_inv_delete [OF assms(2) prod.collapse [symmetric]] by (simp add: same w4 w3)
qed

text \<open>
  The second factor completes a sign-in only for a live pending token of an active operator, below the limit
  of failures, with a code the operator's app accepts or one of the backup codes left; then the operator has a
  session, the pending token is spent, and a backup code that was used is gone from the stored list.
\<close>

theorem operator_second_factor_sound:
  assumes "SU_VerifyTwoFactorLogin s tok code ua ip w = (Inr tp, w')"
    and "pss_inv (s2_pending (superfactors (db w)))"
    and "\<forall>i t. s2_totp (superfactors (db w)) i = Some t \<longrightarrow> ts_UserID t = i"
  shows "\<exists>p su t secret.
    mem_GetSuperuserPendingTwoFactorSessionByHash (superfactors (db w)) (HashToken tok) = Inr p \<and> clock w \<le> ps_ExpiresAt p \<and>
    mem_GetSuperuserByID (supers (db w)) (ps_UserID p) = Inr su \<and> su_IsActive su \<and>
    \<not> super_throttled s (db w) (clock w) (su_Email su) \<and>
    mem_GetSuperuserTOTPSettings (superfactors (db w)) (su_ID su) = Inr t \<and> ts_Enabled t \<and>
    DecryptSecret (ov_aead s) (oc_TOTPEncryptionKey (ov_cfg s)) (ts_SecretEncrypted t) = Inr secret \<and>
    (ValidateTOTPCode (ov_totp s) (clock w) secret code \<or>
     HashBackupCode code \<in> set (ts_RecoveryCodeHashes t) \<and>
     (\<exists>t'. mem_GetSuperuserTOTPSettings (superfactors (db w')) (su_ID su) = Inr t' \<and>
        ts_RecoveryCodeHashes t' = remove1 (HashBackupCode code) (ts_RecoveryCodeHashes t))) \<and>
    signed_in s (db w') (clock w) (su_ID su) (su_Email su) tp \<and>
    mem_GetSuperuserPendingTwoFactorSessionByHash (superfactors (db w')) (HashToken tok) \<noteq> Inr p"
proof -
  obtain p su v w1 w2 w3 where pend: "SU_pendingOperator s tok w = (Inr (p, su), w1)"
    and adm: "SU_admitFactor s su ua ip w1 = (Inr (), w2)" and chk: "SU_checkFactor s p su code ua ip w2 = (Inr v, w3)"
    and com: "SU_completeFactor s v ua ip w3 = (Inr tp, w')"
    using assms(1) unfolding SU_VerifyTwoFactorLogin_def by (elim seqE) auto
  note 1 = SU_pendingOperator_ok [OF pend] and 2 = SU_admitFactor_ok [OF adm]
  from chk obtain t secret where t: "mem_GetSuperuserTOTPSettings (superfactors (db w)) (su_ID su) = Inr t" "ts_Enabled t"
    "DecryptSecret (ov_aead s) (oc_TOTPEncryptionKey (ov_cfg s)) (ts_SecretEncrypted t) = Inr secret"
    and v: "sf_pending v = p" "sf_superuser v = su" and w3: "db w3 = db w" "clock w3 = clock w"
    and code: "\<not> sf_usedBackupCode v \<Longrightarrow> ValidateTOTPCode (ov_totp s) (clock w) secret code"
      "sf_usedBackupCode v \<Longrightarrow> consumeBackupCode t code = (True, sf_settings v)"
    using 1(5,6) 2(1,2) by (elim SU_checkFactor_ok) simp
  have pss: "pss_inv (s2_pending (superfactors (db w3)))" using assms(2) w3 by simp
  note done' = SU_completeFactor_ok [OF com pss, unfolded v w3]
  have gone: "mem_GetSuperuserPendingTwoFactorSessionByHash (superfactors (db w')) (HashToken tok) \<noteq> Inr p"
  proof
    assume "mem_GetSuperuserPendingTwoFactorSessionByHash (superfactors (db w')) (HashToken tok) = Inr p"
    then obtain i where "pss_byID (s2_pending (superfactors (db w'))) i = Some p"
      unfolding mem_GetSuperuserPendingTwoFactorSessionByHash_def mem_GetPendingTwoFactorSessionByHash_def
      by (blast dest: row_via_SomeD)
    moreover from this have "ps_ID p = i" using done'(4) unfolding pss_inv_def by blast
    ultimately show False using done'(2) by simp
  qed
  have backup: "HashBackupCode code \<in> set (ts_RecoveryCodeHashes t) \<and>
     (\<exists>t'. mem_GetSuperuserTOTPSettings (superfactors (db w')) (su_ID su) = Inr t' \<and>
        ts_RecoveryCodeHashes t' = remove1 (HashBackupCode code) (ts_RecoveryCodeHashes t))" if used: "sf_usedBackupCode v"
  proof -
    have st: "sf_settings v = t\<lparr>ts_RecoveryCodeHashes := remove1 (HashBackupCode code) (ts_RecoveryCodeHashes t),
        ts_RecoveryCodesUsed := ts_RecoveryCodesUsed t + 1\<rparr>" and m: "HashBackupCode code \<in> set (ts_RecoveryCodeHashes t)"
      using code(2) [OF used] by (auto simp: consume_ok)
    have "s2_totp (superfactors (db w)) (su_ID su) = Some t"
      using t(1) by (auto simp: mem_GetSuperuserTOTPSettings_def mem_GetTOTPSettingsByUserID_def split: option.splits)
    then have "ts_UserID t = su_ID su" using assms(3) by blast
    then show ?thesis
      using done'(3) [OF used] m by (auto simp: st mem_GetSuperuserTOTPSettings_def mem_GetTOTPSettingsByUserID_def)
  qed
  show ?thesis
    using 1(1-4) 2(3) 1(5,6) t done'(1) gone code(1) backup by (intro exI [of _ p] exI [of _ su] exI [of _ t] exI [of _ secret]) auto
qed

section \<open>Refreshing\<close>

lemma SU_refreshLookup_ok:
  assumes "SU_refreshLookup rt ua ip w = (Inr (t, su), w')"
  shows "mem_GetSuperuserRefreshTokenByHash (supertokens (db w)) (HashToken rt) = Inr t"
    and "sr_RevokedAt t = None" and "clock w \<le> sr_ExpiresAt t"
    and "mem_GetSuperuserByID (supers (db w)) (sr_SuperuserID t) = Inr su" and "su_IsActive su"
    and "db w' = db w" and "clock w' = clock w"
  using assms unfolding SU_refreshLookup_def port_defs by (auto simp: After_def split: if_splits)

lemma SU_refreshSpend_ok:
  assumes "SU_refreshSpend s t su ua ip w = (Inr tp, w')"
  obtains w1 w2 where "mem_ConsumeSuperuserRefreshToken (clock w) (sr_ID t) (supertokens (db w)) = (Inr True, supertokens (db w1))"
    and "clock w1 = clock w" and "SU_issueTokenPair s (su_ID su) (su_Email su) ua ip w1 = (Inr tp, w2)" and "db w' = db w2"
proof -
  obtain w3 where tx: "RunInTx (ov_Tx s)
          (seq (ConsumeSuperuserRefreshToken (sr_ID t)) (\<lambda>consumed.
           if \<not> consumed then raise errTokenSpent
           else SU_issueTokenPair s (su_ID su) (su_Email su) ua ip)) w = (Inr tp, w3)" and db3: "db w' = db w3"
    using assms unfolding SU_refreshSpend_def by (auto split: if_splits)
  from tx obtain fs w2 fs' where body: "seq (ConsumeSuperuserRefreshToken (sr_ID t)) (\<lambda>consumed.
           if \<not> consumed then raise errTokenSpent
           else SU_issueTokenPair s (su_ID su) (su_Email su) ua ip) (w\<lparr>faults := fs\<rparr>) = (Inr tp, w2)"
    and w3: "w3 = w2\<lparr>faults := fs'\<rparr>"
    by (rule RunInTx_ok)
  from body obtain b w1 where con: "ConsumeSuperuserRefreshToken (sr_ID t) (w\<lparr>faults := fs\<rparr>) = (Inr b, w1)"
    and rest: "(if \<not> b then raise errTokenSpent else SU_issueTokenPair s (su_ID su) (su_Email su) ua ip) w1 = (Inr tp, w2)"
    by (rule seqE) auto
  show thesis
    by (rule that [of w1 w2]) (use con rest db3 w3 in \<open>auto simp: port_defs split: if_splits\<close>)
qed

text \<open>
  A refresh token is good for one session, and presenting it again ends them all: a refresh succeeds only for a
  live session of an active operator and opens the next one; the token it spent, presented again before it
  expires, is refused and every session of that operator is revoked, the new one included.
\<close>

theorem operator_refresh_reuse:
  assumes "srs_inv (supertokens (db w))" and "SU_Refresh s rt ua ip w = (Inr tp, w')"
    and "HashToken (tp_RefreshToken tp) \<noteq> HashToken rt"
    and "\<forall>row. mem_GetSuperuserRefreshTokenByHash (supertokens (db w')) (HashToken (tp_RefreshToken tp)) = Inr row \<longrightarrow>
           srs_byID (supertokens (db w)) (sr_ID row) = None"
  shows "\<exists>t su. mem_GetSuperuserRefreshTokenByHash (supertokens (db w)) (HashToken rt) = Inr t \<and> sr_RevokedAt t = None \<and>
    clock w \<le> sr_ExpiresAt t \<and> mem_GetSuperuserByID (supers (db w)) (sr_SuperuserID t) = Inr su \<and> su_IsActive su \<and>
    signed_in s (db w') (clock w) (su_ID su) (su_Email su) tp \<and>
    (\<forall>now. now \<le> sr_ExpiresAt t \<longrightarrow>
       (\<exists>w''. SU_Refresh s rt ua' ip' (w'\<lparr>clock := now, faults := []\<rparr>) = (Inl (Super Super_ErrInvalidToken), w'') \<and>
          (\<forall>i r. srs_byID (supertokens (db w'')) i = Some r \<longrightarrow> sr_SuperuserID r = sr_SuperuserID t \<longrightarrow> sr_RevokedAt r \<noteq> None)))"
proof -
  obtain t su w0 where look: "SU_refreshLookup rt ua ip w = (Inr (t, su), w0)" and spend: "SU_refreshSpend s t su ua ip w0 = (Inr tp, w')"
    using assms(2) unfolding SU_Refresh_def by (rule seqE) auto
  note l = SU_refreshLookup_ok [OF look]
  from spend obtain w1 w2 where con: "mem_ConsumeSuperuserRefreshToken (clock w) (sr_ID t) (supertokens (db w)) = (Inr True, supertokens (db w1))"
    and c1: "clock w1 = clock w" and iss: "SU_issueTokenPair s (su_ID su) (su_Email su) ua ip w1 = (Inr tp, w2)" and db2: "db w' = db w2"
    by (rule SU_refreshSpend_ok) (use l(6,7) in simp)
  note i = SU_issueTokenPair_ok [OF iss]
  let ?row = "super_row s (su_ID su) ua ip w1" and ?t = "t\<lparr>sr_RevokedAt := Some (clock w)\<rparr>"
  have old: "srs_byHash (supertokens (db w)) (HashToken rt) = Some (sr_ID t)" "srs_byID (supertokens (db w)) (sr_ID t) = Some t"
    using srs_get_row [OF assms(1) l(1)] by auto
  have s1: "supertokens (db w1) = (supertokens (db w))\<lparr>srs_byID := (srs_byID (supertokens (db w)))(sr_ID t \<mapsto> ?t)\<rparr>"
    using con old(2) by (auto simp: mem_ConsumeSuperuserRefreshToken_def split: if_splits)
  have hash: "sr_TokenHash ?row = HashToken (tp_RefreshToken tp)" using i(2) by (simp add: super_row_def)
  have got: "mem_GetSuperuserRefreshTokenByHash (supertokens (db w')) (HashToken (tp_RefreshToken tp)) = Inr ?row"
    using super_tab.create_get [OF i(1)] hash db2 by simp
  have inv': "srs_inv (supertokens (db w'))"
    using srs_inv_create [OF srs_inv_consume [OF assms(1) con] i(1)] db2 by simp
  have s2: "supertokens (db w') = snd (mem_CreateSuperuserRefreshToken ?row (supertokens (db w1)))" using i(1) db2 by simp
  have "sr_ID ?row \<noteq> sr_ID t" using assms(4) got old(2) by auto
  then have again: "mem_GetSuperuserRefreshTokenByHash (supertokens (db w')) (HashToken rt) = Inr ?t"
    using old(1) hash assms(3) unfolding s2
    by (auto simp: s1 mem_CreateSuperuserRefreshToken_def mem_GetSuperuserRefreshTokenByHash_def row_via_def)
  have reuse: "\<exists>w''. SU_Refresh s rt ua' ip' (w'\<lparr>clock := now, faults := []\<rparr>) = (Inl (Super Super_ErrInvalidToken), w'') \<and>
          (\<forall>i r. srs_byID (supertokens (db w'')) i = Some r \<longrightarrow> sr_SuperuserID r = sr_SuperuserID t \<longrightarrow> sr_RevokedAt r \<noteq> None)"
    if now: "now \<le> sr_ExpiresAt t" for now
  proof -
    obtain st where st: "mem_RevokeAllSuperuserRefreshTokens now (sr_SuperuserID t) (supertokens (db w')) = (Inr (), st)"
      using super_revoke_all_eq [OF inv'] by blast
    let ?w = "w'\<lparr>clock := now, faults := [], db := (db w')\<lparr>supertokens := st\<rparr>,
      trail := trail w' @ [(event_of EventSuperuserTokenReuse ResultSuccess)
            \<lparr>ev_ActorID := sr_SuperuserID t, ev_UserAgent := ua', ev_IPAddress := ip',
             ev_Metadata := [(''refresh_token_id'', MStr (sr_ID t))]\<rparr>]\<rparr>"
    have "SU_Refresh s rt ua' ip' (w'\<lparr>clock := now, faults := []\<rparr>) = (Inl (Super Super_ErrInvalidToken), ?w)"
      using again now st by (simp add: SU_Refresh_def SU_refreshLookup_def SU_revokeFamilyOnReuse_def run_defs
          on_supertokens_def After_def)
    moreover have "\<forall>i r. srs_byID (supertokens (db ?w)) i = Some r \<longrightarrow> sr_SuperuserID r = sr_SuperuserID t \<longrightarrow> sr_RevokedAt r \<noteq> None"
      using super_revoke_all_revokes [OF inv' st] by auto
    ultimately show ?thesis by blast
  qed
  show ?thesis
    using l(1-5) issued_signed_in [OF iss] c1 db2 reuse by (intro exI [of _ t] exI [of _ su]) auto
qed

section \<open>The operator's password\<close>

lemma super_revoke_others_ok:
  assumes "super_revoke_others keep ts n w = (Inr m, w')" and "srs_inv (supertokens (db w))"
  shows "supers (db w') = supers (db w) \<and> srs_inv (supertokens (db w')) \<and>
    (\<forall>j r. srs_byID (supertokens (db w')) j = Some r \<longrightarrow>
       (\<exists>r0. srs_byID (supertokens (db w)) j = Some r0 \<and> sr_SuperuserID r = sr_SuperuserID r0 \<and>
          (sr_RevokedAt r = None \<longrightarrow> r = r0 \<and> j \<notin> sr_ID ` set ts - {keep})))"
  using assms
proof (induction ts arbitrary: n w)
  case Nil
  then show ?case by auto
next
  case (Cons t ts)
  show ?case
  proof (cases "sr_ID t = keep")
    case True
    then show ?thesis using Cons by auto
  next
    case False
    obtain u w1 where rev: "RevokeSuperuserRefreshToken (sr_ID t) w = (Inr u, w1)"
      and rest: "super_revoke_others keep ts (n + 1) w1 = (Inr m, w')"
      using Cons.prems(1) False by auto
    from rev obtain r1 where r1: "srs_byID (supertokens (db w)) (sr_ID t) = Some r1"
      and st: "supertokens (db w1) = (supertokens (db w))\<lparr>srs_byID :=
          (srs_byID (supertokens (db w)))(sr_ID t \<mapsto> r1\<lparr>sr_RevokedAt := Some (clock w)\<rparr>)\<rparr>"
      and same: "supers (db w1) = supers (db w)"
      by (auto simp: port_defs mem_RevokeSuperuserRefreshToken_def split: option.splits)
    have inv1: "srs_inv (supertokens (db w1))" unfolding st by (rule srs_inv_row [OF Cons.prems(2) r1]) simp_all
    note IH = Cons.IH [OF rest inv1]
    show ?thesis
    proof (intro conjI allI impI)
      show "supers (db w') = supers (db w)" and "srs_inv (supertokens (db w'))" using IH same by auto
      fix j r assume "srs_byID (supertokens (db w')) j = Some r"
      then obtain r0 where r0: "srs_byID (supertokens (db w1)) j = Some r0" "sr_SuperuserID r = sr_SuperuserID r0"
        "sr_RevokedAt r = None \<longrightarrow> r = r0 \<and> j \<notin> sr_ID ` set ts - {keep}"
        using IH by blast
      show "\<exists>r0. srs_byID (supertokens (db w)) j = Some r0 \<and> sr_SuperuserID r = sr_SuperuserID r0 \<and>
          (sr_RevokedAt r = None \<longrightarrow> r = r0 \<and> j \<notin> sr_ID ` set (t # ts) - {keep})"
        using r0 r1 by (cases "j = sr_ID t") (auto simp: st)
    qed
  qed
qed

lemma SU_revokeOthers_ok:
  assumes "SU_revokeOthers i keep w = (Inr n, w')" and inv: "srs_inv (supertokens (db w))"
  shows "supers (db w') = supers (db w)"
    and "\<And>j r. srs_byID (supertokens (db w')) j = Some r \<Longrightarrow> sr_SuperuserID r = i \<Longrightarrow> sr_RevokedAt r = None \<Longrightarrow>
           Before (clock w) (sr_ExpiresAt r) \<Longrightarrow> j = keep"
proof -
  obtain ts w1 where l: "ListActiveSuperuserRefreshTokens i w = (Inr ts, w1)"
    and rest: "super_revoke_others keep ts 0 w1 = (Inr n, w')"
    using assms(1) unfolding SU_revokeOthers_def by (rule seqE) auto
  have w1: "db w1 = db w" and ts: "ts = filter (\<lambda>t. sr_RevokedAt t = None \<and> Before (clock w) (sr_ExpiresAt t))
            (map (the \<circ> srs_byID (supertokens (db w))) (srs_bySuID (supertokens (db w)) i))"
    using l by (auto simp: ListActiveSuperuserRefreshTokens_def super_list_active [OF inv])
  note rev = super_revoke_others_ok [OF rest, unfolded w1, OF inv]
  show "supers (db w') = supers (db w)" using rev by blast
  show "j = keep" if r: "srs_byID (supertokens (db w')) j = Some r" "sr_SuperuserID r = i" "sr_RevokedAt r = None"
    "Before (clock w) (sr_ExpiresAt r)" for j r
  proof -
    from rev r(1,3) have "srs_byID (supertokens (db w)) j = Some r" and out: "j \<notin> sr_ID ` set ts - {keep}" by blast+
    then have "sr_ID r = j" and "j \<in> set (srs_bySuID (supertokens (db w)) i)"
      using inv r(2) unfolding srs_inv_def by blast+
    then have "r \<in> set ts" using ts r(3,4) \<open>srs_byID (supertokens (db w)) j = Some r\<close> by force
    then show "j = keep" using out \<open>sr_ID r = j\<close> by blast
  qed
qed

lemma updated_get: "mem_UpdateSuperuser su s = (Inr (), s') \<Longrightarrow> mem_GetSuperuserByID s' (su_ID su) = Inr su"
  by (auto simp: mem_UpdateSuperuser_def mem_GetSuperuserByID_def split: option.splits)

text \<open>
  Changing the password takes the old one and ends every other session: the old password verified, the
  validator accepted the new one, the account now stores a hash of it and is otherwise as it was, and of the
  operator's live sessions only the one the change came from is left.
\<close>

theorem operator_password_change:
  assumes "SU_ChangePassword s i session old new w = (Inr n, w')" and "srs_inv (supertokens (db w))" and "sus_inv (supers (db w))"
  shows "\<exists>su hash salt. mem_GetSuperuserByID (supers (db w)) i = Inr su \<and>
    h_Verify (oc_PasswordHasher (ov_cfg s)) old (su_PasswordHash su) \<and>
    oc_PasswordValidator (ov_cfg s) (su_Email su) new = None \<and> h_Hash (oc_PasswordHasher (ov_cfg s)) salt new = Inr hash \<and>
    mem_GetSuperuserByID (supers (db w')) i = Inr (su\<lparr>su_PasswordHash := hash, su_UpdatedAt := clock w\<rparr>) \<and>
    (\<forall>j r. srs_byID (supertokens (db w')) j = Some r \<longrightarrow> sr_SuperuserID r = i \<longrightarrow> sr_RevokedAt r = None \<longrightarrow>
       Before (clock w) (sr_ExpiresAt r) \<longrightarrow> j = session)"
proof -
  have "\<exists>su hash salt w1. mem_GetSuperuserByID (supers (db w)) i = Inr su \<and>
    h_Verify (oc_PasswordHasher (ov_cfg s)) old (su_PasswordHash su) \<and>
    oc_PasswordValidator (ov_cfg s) (su_Email su) new = None \<and> h_Hash (oc_PasswordHasher (ov_cfg s)) salt new = Inr hash \<and>
    (\<exists>w2. SU_revokeOthers i session w1 = (Inr n, w2) \<and> db w' = db w2) \<and>
    mem_UpdateSuperuser (su\<lparr>su_PasswordHash := hash, su_UpdatedAt := clock w\<rparr>) (supers (db w)) = (Inr (), supers (db w1)) \<and>
    supertokens (db w1) = supertokens (db w) \<and> clock w1 = clock w"
    using assms(1) unfolding SU_ChangePassword_def GetSuperuserByID_def UpdateSuperuser_def
    by (auto split: if_splits option.splits)
      (rule exI, rule conjI, rule exI, erule sym, rule exI, rule conjI, rule exI, rule conjI, assumption, simp, simp)
  then obtain su hash salt w1 w2 where f: "mem_GetSuperuserByID (supers (db w)) i = Inr su"
    "h_Verify (oc_PasswordHasher (ov_cfg s)) old (su_PasswordHash su)" "oc_PasswordValidator (ov_cfg s) (su_Email su) new = None"
    "h_Hash (oc_PasswordHasher (ov_cfg s)) salt new = Inr hash"
    and upd: "mem_UpdateSuperuser (su\<lparr>su_PasswordHash := hash, su_UpdatedAt := clock w\<rparr>) (supers (db w)) = (Inr (), supers (db w1))"
    and w1: "supertokens (db w1) = supertokens (db w)" "clock w1 = clock w"
    and rev: "SU_revokeOthers i session w1 = (Inr n, w2)" and db2: "db w' = db w2" by blast
  have inv1: "srs_inv (supertokens (db w1))" using assms(2) w1 by simp
  have "su_ID su = i" by (rule sus_get_id [OF assms(3) f(1)])
  then have "mem_GetSuperuserByID (supers (db w')) i = Inr (su\<lparr>su_PasswordHash := hash, su_UpdatedAt := clock w\<rparr>)"
    using updated_get [OF upd] SU_revokeOthers_ok(1) [OF rev inv1] db2 by simp
  moreover have "j = session" if "srs_byID (supertokens (db w')) j = Some r" "sr_SuperuserID r = i" "sr_RevokedAt r = None"
    "Before (clock w) (sr_ExpiresAt r)" for j r
    using SU_revokeOthers_ok(2) [OF rev inv1] that db2 w1(2) by simp
  ultimately show ?thesis using f by blast
qed

section \<open>Instances\<close>

lemmas demo_authenticate_defs = SU_Authenticate_def SU_admit_def SU_checkPassword_def SU_rehash_def SU_finishLogin_def
  SU_beginTwoFactorLogin_def SU_clearFailures_def SU_issueTokenPair_def SU_throttled_def AllowEach_def HasSuffix_colon_def
  Allow_def Noop_def demo_norm Let_def mem_defs row_via_def append_id_def no_ids_def demo_super_defs

theorem operator_login_sound_witness:
  "\<exists>res w' tp. SU_Authenticate demo_super_service ''a@x'' ''pw'' ''ua'' ''ip'' demo_super_world = (Inr res, w') \<and>
     lr_Tokens res = Some tp \<and> signed_in demo_super_service (db w') 0 ''op1'' ''a@x'' tp"
proof -
  obtain res w' tp where run: "SU_Authenticate demo_super_service ''a@x'' ''pw'' ''ua'' ''ip'' demo_super_world = (Inr res, w')"
    and tp: "lr_Tokens res = Some tp"
    by (simp add: demo_authenticate_defs)
  have "mem_GetSuperuserByEmail (supers (db demo_super_world)) (NormalizeEmail ''a@x'') = Inr demo_operator"
    and "clock demo_super_world = 0"
    by (simp_all add: demo_norm demo_super_defs mem_defs row_via_def)
  with operator_login_sound [OF run] tp have "signed_in demo_super_service (db w') 0 ''op1'' ''a@x'' tp"
    by (auto simp: demo_operator_def)
  then show ?thesis using run tp by blast
qed

text \<open>
  A sign-in writes its copy of the account back to record its instant: a deactivation between its read and its
  write is undone, although \<open>Deactivate\<close> reported success, and the operator has a live session again.
\<close>

theorem stale_login_undoes_deactivation:
  "\<exists>su w1 w2 res w3 su' row. SU_checkPassword demo_super_service ''a@x'' ''pw'' ''ua'' ''ip'' demo_super_world = (Inr su, w1) \<and>
     Deactivate ''op2'' ''op1'' w1 = (Inr (), w2) \<and>
     SU_finishLogin demo_super_service su ''a@x'' ''ua'' ''ip'' w2 = (Inr res, w3) \<and> lr_Tokens res \<noteq> None \<and>
     mem_GetSuperuserByID (supers (db w3)) ''op1'' = Inr su' \<and> su_IsActive su' \<and>
     mem_ListActiveSuperuserRefreshTokens 1 (supertokens (db w3)) ''op1'' = Inr [row]"
  by (simp add: demo_authenticate_defs Deactivate_def Before_def duration_defs time_defs)

text \<open>An operator with a second factor, a pending sign-in, and a lock an administrator has set since.\<close>

definition demo_super_pending :: pending_session where
  "demo_super_pending = \<lparr>ps_ID = ''p1'', ps_UserID = ''op1'', ps_TokenHash = HashToken ''ptok'', ps_ExpiresAt = minute, ps_CreatedAt = 0\<rparr>"

definition demo_super_world2 :: world where
  "demo_super_world2 = demo_super_world\<lparr>db := (db demo_super_world)\<lparr>
     superfactors := \<lparr>s2_totp = [''op1'' \<mapsto> demo_factor\<lparr>ts_UserID := ''op1''\<rparr>],
       s2_pending = snd (mem_CreatePendingTwoFactorSession demo_super_pending NewPendingTwoFactorStore)\<rparr>,
     lockouts := snd (mem_LockAccount ''op1'' NewLockoutStore)\<rparr>\<rparr>"

lemma demo_super_verify:
  "\<exists>tp w'. SU_VerifyTwoFactorLogin demo_super_service ''ptok'' ''123456'' ''ua'' ''ip'' demo_super_world2 = (Inr tp, w')"
  by (simp add: SU_VerifyTwoFactorLogin_def SU_pendingOperator_def SU_admitFactor_def SU_checkFactor_def SU_completeFactor_def
      SU_enabledTOTP_def SU_totp_def DecryptSecret_def NonceSize_def ValidateTOTPCode_def RunInTx_def
      demo_super_world2_def demo_super_pending_def demo_factor_def After_def in_pending_def in_totp_def
      demo_authenticate_defs duration_defs time_defs)

theorem operator_second_factor_sound_witness:
  "lo_locked (lockouts (db demo_super_world2)) ''op1'' \<and>
   (\<exists>tp w'. SU_VerifyTwoFactorLogin demo_super_service ''ptok'' ''123456'' ''ua'' ''ip'' demo_super_world2 = (Inr tp, w') \<and>
     (\<exists>su :: superuser. signed_in demo_super_service (db w') (clock demo_super_world2) (su_ID su) (su_Email su) tp))"
proof -
  obtain tp w' where run: "SU_VerifyTwoFactorLogin demo_super_service ''ptok'' ''123456'' ''ua'' ''ip'' demo_super_world2 = (Inr tp, w')"
    using demo_super_verify by blast
  have inv: "pss_inv (s2_pending (superfactors (db demo_super_world2)))"
    "\<forall>i t. s2_totp (superfactors (db demo_super_world2)) i = Some t \<longrightarrow> ts_UserID t = i"
    by (simp_all add: demo_super_world2_def demo_super_pending_def mem_CreatePendingTwoFactorSession_def pss_inv_def
        hash_indexed_def demo_defs)
  have locked: "lo_locked (lockouts (db demo_super_world2)) ''op1''" by (simp add: demo_super_world2_def mem_LockAccount_def)
  obtain su :: superuser where "signed_in demo_super_service (db w') (clock demo_super_world2) (su_ID su) (su_Email su) tp"
    using operator_second_factor_sound [OF run inv] by (elim exE conjE) (rule that)
  then have "\<exists>su :: superuser. signed_in demo_super_service (db w') (clock demo_super_world2) (su_ID su) (su_Email su) tp" by (rule exI)
  with run locked show ?thesis by blast
qed

definition demo_super_session :: superuser_token where
  "demo_super_session = \<lparr>sr_ID = ''s1'', sr_SuperuserID = ''op1'', sr_TokenHash = HashToken ''abc'', sr_ExpiresAt = hour,
     sr_RevokedAt = None, sr_UserAgent = ''ua'', sr_IPAddress = ''ip'', sr_CreatedAt = 0\<rparr>"

definition demo_super_world3 :: world where
  "demo_super_world3 = demo_super_world\<lparr>db := (db demo_super_world)
     \<lparr>supertokens := snd (mem_CreateSuperuserRefreshToken demo_super_session NewSuperuserRefreshTokenStore)\<rparr>\<rparr>"

lemma demo_super_inv:
  "srs_inv (supertokens (db demo_super_world3))" "sus_inv (supers (db demo_super_world3))"
  by (simp_all add: demo_super_world3_def demo_super_session_def demo_super_defs mem_defs srs_inv_def sus_inv_def
      points_into_def points_into_all_def append_id_def no_ids_def)

lemma demo_super_refresh:
  assumes "t = b64url_encode (map (\<lambda>k. of_nat k) [0..<32])"
  shows "\<exists>tp w' row. SU_Refresh demo_super_service ''abc'' ''ua'' ''ip'' demo_super_world3 = (Inr tp, w') \<and>
     tp_RefreshToken tp = t \<and> mem_GetSuperuserRefreshTokenByHash (supertokens (db w')) (HashToken t) = Inr row \<and>
     srs_byID (supertokens (db demo_super_world3)) (sr_ID row) = None"
  using assms
  by (simp add: SU_Refresh_def SU_refreshLookup_def SU_refreshSpend_def RunInTx_def After_def demo_super_world3_def
      demo_super_session_def demo_authenticate_defs duration_defs time_defs draw_def uuid_not)

theorem operator_refresh_reuse_witness:
  "\<exists>tp w' w''. SU_Refresh demo_super_service ''abc'' ''ua'' ''ip'' demo_super_world3 = (Inr tp, w') \<and>
     SU_Refresh demo_super_service ''abc'' ''evil'' ''ip2'' (w'\<lparr>clock := 5, faults := []\<rparr>) = (Inl (Super Super_ErrInvalidToken), w'')"
proof -
  define t where "t = b64url_encode (map (\<lambda>k. of_nat k :: byte) [0..<32])"
  obtain tp w' row where run: "SU_Refresh demo_super_service ''abc'' ''ua'' ''ip'' demo_super_world3 = (Inr tp, w')"
    and tp: "tp_RefreshToken tp = t" and row: "mem_GetSuperuserRefreshTokenByHash (supertokens (db w')) (HashToken t) = Inr row"
    "srs_byID (supertokens (db demo_super_world3)) (sr_ID row) = None"
    using demo_super_refresh [OF t_def] by blast
  have hash: "HashToken (tp_RefreshToken tp) \<noteq> HashToken ''abc''" using demo_fresh by (simp add: tp t_def)
  have new: "\<forall>row. mem_GetSuperuserRefreshTokenByHash (supertokens (db w')) (HashToken (tp_RefreshToken tp)) = Inr row \<longrightarrow>
           srs_byID (supertokens (db demo_super_world3)) (sr_ID row) = None"
    using row by (simp add: tp)
  have get: "mem_GetSuperuserRefreshTokenByHash (supertokens (db demo_super_world3)) (HashToken ''abc'') = Inr demo_super_session"
    by (simp add: demo_super_world3_def demo_super_session_def mem_defs row_via_def)
  have "(5::time) \<le> sr_ExpiresAt demo_super_session" by (simp add: demo_super_session_def duration_defs)
  then show ?thesis
    using operator_refresh_reuse [OF demo_super_inv(1) run hash new, where ?ua' = "''evil''" and ?ip' = "''ip2''"] get run
    by auto
qed

theorem operator_password_change_witness:
  "\<exists>n w'. SU_ChangePassword demo_super_service ''op1'' ''none'' ''pw'' ''new'' demo_super_world3 = (Inr n, w') \<and>
     (\<exists>su. mem_GetSuperuserByID (supers (db w')) ''op1'' = Inr su \<and> su_PasswordHash su = ''h:new'')"
proof -
  obtain n w' where run: "SU_ChangePassword demo_super_service ''op1'' ''none'' ''pw'' ''new'' demo_super_world3 = (Inr n, w')"
    by (simp add: SU_ChangePassword_def SU_revokeOthers_def demo_super_world3_def demo_super_session_def demo_authenticate_defs
        Before_def duration_defs time_defs)
  show ?thesis using operator_password_change [OF run demo_super_inv] run
    by (fastforce simp: demo_super_service_def demo_hasher_def)
qed

end
