(* ===== verification/OidcFlow.thy ===== *)
theory OidcFlow
  imports Contracts
begin

text \<open>
  Package \<open>oidc\<close>: signing in with an external identity provider (\<open>oidc/provider.go\<close>, \<open>oidc/service.go\<close>,
  \<open>oidc/flow.go\<close>). The OAuth library and the provider's HTTP endpoints are parameters; each call of one is a port
  that may fault. Definitions whose Go name a sibling package uses too start with \<open>OI_\<close>.
\<close>

section \<open>Providers (provider.go)\<close>

text \<open>A decoded JSON value, as \<open>encoding/json\<close> puts it into an \<open>any\<close>; a number is a \<open>float64\<close>, here rational.\<close>

datatype json = JNull | JBool bool | JNumber rat | JString string | JArray "json list" | JObject "(string \<times> json) list"

type_synonym claims_map = "string \<rightharpoonup> json"

record identity =
  id_Provider :: string
  id_Subject :: string
  id_Email :: string
  id_EmailVerified :: bool
  id_Name :: string
  id_Raw :: claims_map

record provider =
  pv_ID :: string
  pv_ClientID :: string
  pv_ClientSecret :: string
  pv_AuthURL :: string
  pv_TokenURL :: string
  pv_UserInfoURL :: string
  pv_Scopes :: "string list"
  pv_Map :: "(claims_map \<Rightarrow> error + identity) option"
  pv_AuthURLParams :: "(string \<times> string) list"

definition misconfigured :: "string \<Rightarrow> error" where
  "misconfigured msg = Wrapped (Oidc ErrProviderMisconfigured) (Fault msg)"

text \<open>The three endpoints are a Go map; here they are tested in the order they are written.\<close>

definition validate :: "provider \<Rightarrow> error option" where
  "validate p =
     (if pv_ID p = '''' then Some (misconfigured ''ID is required'')
      else if pv_ClientID p = '''' then Some (misconfigured (pv_ID p @ '' has no ClientID''))
      else if pv_AuthURL p = '''' \<or> pv_TokenURL p = '''' then Some (misconfigured (pv_ID p @ '' needs AuthURL and TokenURL''))
      else if pv_UserInfoURL p = '''' then Some (misconfigured (pv_ID p @ '' needs UserInfoURL''))
      else (case find (\<lambda>(name, u). \<not> HasPrefix u ''https://'')
                   [(''AuthURL'', pv_AuthURL p), (''TokenURL'', pv_TokenURL p), (''UserInfoURL'', pv_UserInfoURL p)] of
              None \<Rightarrow> None
            | Some (name, u) \<Rightarrow> Some (misconfigured (pv_ID p @ '' '' @ name @ '' must be https''))))"

text \<open>\<open>v, _ := raw[k].(string)\<close>\<close>

definition string_claim :: "claims_map \<Rightarrow> string \<Rightarrow> string" where
  "string_claim raw k = (case raw k of Some (JString s) \<Rightarrow> s | _ \<Rightarrow> '''')"

definition standardClaims :: "claims_map \<Rightarrow> error + identity" where
  "standardClaims raw =
     (let sub = string_claim raw ''sub'' in
      if sub = '''' then Inl (Wrapped (Oidc ErrIdentity) (Fault ''userinfo response has no 'sub' claim''))
      else Inr \<lparr>id_Provider = '''', id_Subject = sub, id_Email = NormalizeEmail (string_claim raw ''email''),
                id_EmailVerified = (case raw ''email_verified'' of
                   Some (JBool v) \<Rightarrow> v | Some (JString v) \<Rightarrow> v = ''true'' | _ \<Rightarrow> False),
                id_Name = string_claim raw ''name'', id_Raw = raw\<rparr>)"

text \<open>\<open>int64(x)\<close> of a \<open>float64\<close> in range: towards zero.\<close>

definition truncated :: "rat \<Rightarrow> int" where
  "truncated x = (if x < 0 then - \<lfloor>- x\<rfloor> else \<lfloor>x\<rfloor>)"

definition githubClaims :: "claims_map \<Rightarrow> error + identity" where
  "githubClaims raw =
     (case raw ''id'' of
        Some (JNumber idNum) \<Rightarrow>
          Inr \<lparr>id_Provider = '''', id_Subject = decimal_int (truncated idNum),
               id_Email = NormalizeEmail (string_claim raw ''email''), id_EmailVerified = False,
               id_Name = string_claim raw ''name'', id_Raw = raw\<rparr>
      | _ \<Rightarrow> Inl (Wrapped (Oidc ErrIdentity) (Fault ''github userinfo has no numeric id'')))"

definition Google :: "string \<Rightarrow> string \<Rightarrow> provider" where
  "Google clientID clientSecret =
     \<lparr>pv_ID = ''google'', pv_ClientID = clientID, pv_ClientSecret = clientSecret,
      pv_AuthURL = ''https://accounts.google.com/o/oauth2/v2/auth'',
      pv_TokenURL = ''https://oauth2.googleapis.com/token'',
      pv_UserInfoURL = ''https://openidconnect.googleapis.com/v1/userinfo'',
      pv_Scopes = [''openid'', ''email'', ''profile''], pv_Map = None, pv_AuthURLParams = []\<rparr>"

definition GitHub :: "string \<Rightarrow> string \<Rightarrow> provider" where
  "GitHub clientID clientSecret =
     \<lparr>pv_ID = ''github'', pv_ClientID = clientID, pv_ClientSecret = clientSecret,
      pv_AuthURL = ''https://github.com/login/oauth/authorize'',
      pv_TokenURL = ''https://github.com/login/oauth/access_token'',
      pv_UserInfoURL = ''https://api.github.com/user'',
      pv_Scopes = [''read:user'', ''user:email''], pv_Map = Some githubClaims, pv_AuthURLParams = []\<rparr>"

section \<open>The library, the network and the service (service.go)\<close>

record oauth_config =
  oa_ClientID :: string
  oa_ClientSecret :: string
  oa_RedirectURL :: string
  oa_Scopes :: "string list"
  oa_AuthURL :: string
  oa_TokenURL :: string

text \<open>\<open>oauth2.Token\<close>; a zero \<open>Expiry\<close> is \<open>None\<close>.\<close>

record oauth_token =
  ot_AccessToken :: string
  ot_RefreshToken :: string
  ot_Expiry :: "time option"

text \<open>The answer of a userinfo endpoint: status, and the first megabyte of the body, decoded.\<close>

record userinfo =
  ui_StatusCode :: nat
  ui_Status :: string
  ui_Body :: "error + claims_map"

text \<open>
  \<open>ol_Verifier\<close> makes a PKCE verifier of 32 random bytes; \<open>ol_AuthCodeURL\<close> takes the state, the verifier of the
  challenge and further parameters; \<open>ol_Exchange\<close> takes the code and the verifier; \<open>ol_NewRequest\<close> says why a URL
  does not parse; \<open>ol_Do\<close> asks a URL with a bearer token.
\<close>

record oidc_lib =
  ol_Verifier :: "byte list \<Rightarrow> string"
  ol_AuthCodeURL :: "oauth_config \<Rightarrow> string \<Rightarrow> string \<Rightarrow> (string \<times> string) list \<Rightarrow> string"
  ol_Exchange :: "oauth_config \<Rightarrow> string \<Rightarrow> string \<Rightarrow> error + oauth_token"
  ol_NewRequest :: "string \<Rightarrow> error option"
  ol_Do :: "string \<Rightarrow> string \<Rightarrow> error + userinfo"

definition remote :: "error + 'a \<Rightarrow> 'a prog" where "remote r = port (lift r)"

datatype linking_policy = LinkingManual | LinkingVerifiedEmail

record oidc_config =
  og_Linking :: linking_policy
  og_DisableSignUp :: bool
  og_ProviderTokenKey :: "byte list"

record oidc_service =
  oi_Tx :: bool
  oi_providers :: "string \<rightharpoonup> provider"
  oi_cfg :: oidc_config
  oi_aead :: aead
  oi_lib :: oidc_lib

text \<open>The loop of \<open>NewService\<close>.\<close>

fun register_providers :: "provider list \<Rightarrow> (string \<rightharpoonup> provider) \<Rightarrow> error + (string \<rightharpoonup> provider)" where
  "register_providers [] byID = Inr byID"
| "register_providers (p # ps) byID =
     (case validate p of
        Some e \<Rightarrow> Inl e
      | None \<Rightarrow>
          if byID (pv_ID p) \<noteq> None then Inl (Fault (''authit/oidc: duplicate provider ID '' @ pv_ID p))
          else register_providers ps (byID(pv_ID p \<mapsto> p)))"

definition OI_NewService :: "bool \<Rightarrow> aead \<Rightarrow> oidc_lib \<Rightarrow> provider list \<Rightarrow> oidc_config \<Rightarrow> error + oidc_service" where
  "OI_NewService tx a lib providers cfg =
     (if length (og_ProviderTokenKey cfg) \<noteq> 0 \<and> length (og_ProviderTokenKey cfg) \<noteq> 32
      then Inl (Fault ''authit/oidc: ProviderTokenKey must be exactly 32 bytes'')
      else (case register_providers providers Map.empty of
              Inl e \<Rightarrow> Inl e
            | Inr byID \<Rightarrow> Inr \<lparr>oi_Tx = tx, oi_providers = byID, oi_cfg = cfg, oi_aead = a, oi_lib = lib\<rparr>))"

definition Provider :: "oidc_service \<Rightarrow> string \<Rightarrow> provider prog" where
  "Provider s i = (case oi_providers s i of None \<Rightarrow> raise (Oidc ErrUnknownProvider) | Some p \<Rightarrow> ret p)"

definition fetchIdentity :: "oidc_service \<Rightarrow> provider \<Rightarrow> string \<Rightarrow> identity prog" where
  "fetchIdentity s p accessToken =
     seq (check (ol_NewRequest (oi_lib s) (pv_UserInfoURL p))) (\<lambda>_.
     on (remote (ol_Do (oi_lib s) (pv_UserInfoURL p) accessToken))
       (\<lambda>e. raise (Wrapped (Oidc ErrProviderUnreachable) e)) (\<lambda>resp.
     if ui_StatusCode resp \<noteq> 200
     then raise (Wrapped (Oidc ErrProviderUnreachable) (Fault (''userinfo returned '' @ ui_Status resp)))
     else on (lift (ui_Body resp)) (\<lambda>e. raise (Wrapped (Oidc ErrIdentity) e)) (\<lambda>raw.
     seq (lift ((case pv_Map p of None \<Rightarrow> standardClaims | Some mapper \<Rightarrow> mapper) raw)) (\<lambda>i.
     if id_Subject i = ''''
     then raise (Wrapped (Oidc ErrIdentity) (Fault (''provider '' @ pv_ID p @ '' returned no subject'')))
     else ret (i\<lparr>id_Provider := pv_ID p, id_Email := NormalizeEmail (id_Email i)\<rparr>)))))"

section \<open>The flow (flow.go)\<close>

record oidc_authorization =
  oz_URL :: string
  oz_State :: string
  oz_CodeVerifier :: string

record callback =
  cb_Code :: string
  cb_State :: string
  cb_ExpectedState :: string
  cb_CodeVerifier :: string

record oidc_result =
  or_User :: user
  or_Account :: account
  or_Identity :: identity
  or_CreatedUser :: bool

definition oauthConfig :: "provider \<Rightarrow> string \<Rightarrow> oauth_config" where
  "oauthConfig p redirectURI =
     \<lparr>oa_ClientID = pv_ClientID p, oa_ClientSecret = pv_ClientSecret p, oa_RedirectURL = redirectURI,
      oa_Scopes = pv_Scopes p, oa_AuthURL = pv_AuthURL p, oa_TokenURL = pv_TokenURL p\<rparr>"

text \<open>\<open>oauth2.GenerateVerifier\<close> panics when the random source fails.\<close>

definition Begin :: "oidc_service \<Rightarrow> string \<Rightarrow> string \<Rightarrow> oidc_authorization prog" where
  "Begin s providerID redirectURI =
     seq (Provider s providerID) (\<lambda>p.
     seq GenerateStateToken (\<lambda>state.
     on (rand_read 32) (\<lambda>_. raise Panic) (\<lambda>buf.
     let verifier = ol_Verifier (oi_lib s) buf in
     ret \<lparr>oz_URL = ol_AuthCodeURL (oi_lib s) (oauthConfig p redirectURI) state verifier (pv_AuthURLParams p),
          oz_State = state, oz_CodeVerifier = verifier\<rparr>)))"

definition OI_logEvent :: "event_type \<Rightarrow> string \<Rightarrow> string \<Rightarrow> string \<Rightarrow> unit prog" where
  "OI_logEvent t actorID email providerID =
     log ((event_of t ResultSuccess)\<lparr>ev_ActorID := actorID, ev_Email := email,
            ev_Metadata := [(''provider'', MStr providerID)]\<rparr>)"

text \<open>\<open>attachTokens\<close> changes the row in place; here it returns it.\<close>

definition encrypt_unless_empty :: "oidc_service \<Rightarrow> string \<Rightarrow> byte list \<Rightarrow> byte list prog" where
  "encrypt_unless_empty s token old =
     (if token \<noteq> '''' then EncryptSecret (oi_aead s) (og_ProviderTokenKey (oi_cfg s)) token else ret old)"

definition attachTokens :: "oidc_service \<Rightarrow> account \<Rightarrow> oauth_token option \<Rightarrow> account prog" where
  "attachTokens s a tok =
     (case tok of
        None \<Rightarrow> ret a
      | Some tok \<Rightarrow>
          if length (og_ProviderTokenKey (oi_cfg s)) = 0 then ret a
          else
            seq (encrypt_unless_empty s (ot_AccessToken tok) (ac_AccessTokenEncrypted a)) (\<lambda>access.
            seq (encrypt_unless_empty s (ot_RefreshToken tok) (ac_RefreshTokenEncrypted a)) (\<lambda>refreshTok.
            let a = a\<lparr>ac_AccessTokenEncrypted := access, ac_RefreshTokenEncrypted := refreshTok\<rparr> in
            ret (case ot_Expiry tok of None \<Rightarrow> a | Some expiry \<Rightarrow> a\<lparr>ac_TokenExpiresAt := Some expiry\<rparr>))))"

definition newAccount :: "oidc_service \<Rightarrow> string \<Rightarrow> provider \<Rightarrow> identity \<Rightarrow> oauth_token option \<Rightarrow> account prog" where
  "newAccount s userID p i tok =
     seq NewID (\<lambda>id. with_now (\<lambda>now.
     seq (attachTokens s
       \<lparr>ac_ID = id, ac_UserID = userID, ac_Provider = pv_ID p, ac_ProviderAccountID = id_Subject i,
        ac_Email = id_Email i, ac_EmailVerified = id_EmailVerified i, ac_AccessTokenEncrypted = [],
        ac_RefreshTokenEncrypted = [], ac_TokenExpiresAt = None, ac_Scopes = pv_Scopes p,
        ac_CreatedAt = now, ac_UpdatedAt = now\<rparr> tok) (\<lambda>a.
     seq (CreateAccount a) (\<lambda>_. ret a))))"

definition link :: "oidc_service \<Rightarrow> string \<Rightarrow> provider \<Rightarrow> identity \<Rightarrow> oauth_token option \<Rightarrow> account prog" where
  "link s userID p i tok =
     seq (newAccount s userID p i tok) (\<lambda>acct.
     seq (OI_logEvent EventAccountLinked userID (id_Email i) (pv_ID p)) (\<lambda>_. ret acct))"

definition refreshAccount :: "oidc_service \<Rightarrow> account \<Rightarrow> identity \<Rightarrow> oauth_token option \<Rightarrow> account prog" where
  "refreshAccount s a i tok = with_now (\<lambda>now.
     seq (attachTokens s (a\<lparr>ac_Email := id_Email i, ac_EmailVerified := id_EmailVerified i, ac_UpdatedAt := now\<rparr>) tok) (\<lambda>a.
     seq (UpdateAccount a) (\<lambda>_. ret a)))"

definition OI_signUp :: "oidc_service \<Rightarrow> provider \<Rightarrow> identity \<Rightarrow> oauth_token option \<Rightarrow> oidc_result prog" where
  "OI_signUp s p i tok =
     seq NewID (\<lambda>userID. with_now (\<lambda>now.
     let u = \<lparr>u_ID = userID, u_Email = id_Email i, u_PasswordHash = '''', u_EmailVerified = id_EmailVerified i,
              u_EmailVerifiedAt = (if id_EmailVerified i then Some now else None), u_CreatedAt = now, u_UpdatedAt = now\<rparr> in
     seq (RunInTx (oi_Tx s) (seq (CreateUser u) (\<lambda>_. newAccount s (u_ID u) p i tok))) (\<lambda>acct.
     seq (OI_logEvent EventUserRegistered (u_ID u) (u_Email u) (pv_ID p)) (\<lambda>_.
     ret \<lparr>or_User = u, or_Account = acct, or_Identity = i, or_CreatedUser = True\<rparr>))))"

text \<open>\<open>resolve\<close>: a returning identity, and the half that decides about an unknown one.\<close>

definition resolveReturning :: "oidc_service \<Rightarrow> provider \<Rightarrow> identity \<Rightarrow> oauth_token option \<Rightarrow> account \<Rightarrow> oidc_result prog" where
  "resolveReturning s p i tok existing =
     seq (GetUserByID (ac_UserID existing)) (\<lambda>u.
     seq (refreshAccount s existing i tok) (\<lambda>existing.
     seq (OI_logEvent EventUserLoginSucceeded (u_ID u) (u_Email u) (pv_ID p)) (\<lambda>_.
     ret \<lparr>or_User = u, or_Account = existing, or_Identity = i, or_CreatedUser = False\<rparr>)))"

definition resolveUnknown :: "oidc_service \<Rightarrow> provider \<Rightarrow> identity \<Rightarrow> oauth_token option \<Rightarrow> oidc_result prog" where
  "resolveUnknown s p i tok =
     (if id_Email i = '''' then raise (Oidc ErrNoEmail)
      else on (GetUserByEmail (id_Email i))
        (\<lambda>e. if e \<noteq> ErrNotFound then raise e
             else if og_DisableSignUp (oi_cfg s) then raise (Oidc Oidc_ErrSignUpDisabled)
             else OI_signUp s p i tok)
        (\<lambda>byEmail.
           if og_Linking (oi_cfg s) \<noteq> LinkingVerifiedEmail then raise (Oidc ErrAccountNotLinked)
           else if \<not> id_EmailVerified i then raise (Oidc ErrProviderEmailUnverified)
           else seq (link s (u_ID byEmail) p i tok) (\<lambda>acct.
                ret \<lparr>or_User = byEmail, or_Account = acct, or_Identity = i, or_CreatedUser = False\<rparr>)))"

definition OI_resolve :: "oidc_service \<Rightarrow> provider \<Rightarrow> identity \<Rightarrow> oauth_token option \<Rightarrow> oidc_result prog" where
  "OI_resolve s p i tok =
     on (GetAccountByProvider (pv_ID p) (id_Subject i))
       (\<lambda>e. if e \<noteq> ErrNotFound then raise e else resolveUnknown s p i tok)
       (\<lambda>existing. resolveReturning s p i tok existing)"

definition Complete :: "oidc_service \<Rightarrow> string \<Rightarrow> string \<Rightarrow> callback \<Rightarrow> oidc_result prog" where
  "Complete s providerID redirectURI cb =
     seq (Provider s providerID) (\<lambda>p.
     if cb_ExpectedState cb = '''' \<or> cb_State cb \<noteq> cb_ExpectedState cb then raise (Oidc ErrStateMismatch)
     else if cb_Code cb = '''' then raise (Wrapped (Oidc ErrExchange) (Fault ''no authorization code''))
     else on (remote (ol_Exchange (oi_lib s) (oauthConfig p redirectURI) (cb_Code cb) (cb_CodeVerifier cb)))
       (\<lambda>e. raise (Wrapped (Oidc ErrExchange) e)) (\<lambda>tok.
     seq (fetchIdentity s p (ot_AccessToken tok)) (\<lambda>i.
     OI_resolve s p i (Some tok))))"

definition OI_Link :: "oidc_service \<Rightarrow> string \<Rightarrow> identity \<Rightarrow> oauth_token option \<Rightarrow> account prog" where
  "OI_Link s userID i tok =
     seq (Provider s (id_Provider i)) (\<lambda>p.
     on (GetAccountByProvider (pv_ID p) (id_Subject i))
       (\<lambda>e. if e \<noteq> ErrNotFound then raise e else link s userID p i tok)
       (\<lambda>_. raise (Oidc ErrAlreadyLinked)))"

definition decrypt_unless_empty :: "oidc_service \<Rightarrow> byte list \<Rightarrow> error + string" where
  "decrypt_unless_empty s enc =
     (if length enc > 0 then DecryptSecret (oi_aead s) (og_ProviderTokenKey (oi_cfg s)) enc else Inr '''')"

definition ProviderTokens :: "oidc_service \<Rightarrow> account \<Rightarrow> error + (string \<times> string)" where
  "ProviderTokens s a =
     (if length (og_ProviderTokenKey (oi_cfg s)) = 0 then Inr ('''', '''')
      else (case decrypt_unless_empty s (ac_AccessTokenEncrypted a) of
              Inl e \<Rightarrow> Inl e
            | Inr access \<Rightarrow> (case decrypt_unless_empty s (ac_RefreshTokenEncrypted a) of
                              Inl e \<Rightarrow> Inl e
                            | Inr refreshTok \<Rightarrow> Inr (access, refreshTok))))"

definition ListAccounts :: "string \<Rightarrow> account list prog" where
  "ListAccounts userID = ListAccountsByUser userID"

text \<open>\<open>Unlink\<close>: what is read and decided, and the deletion.\<close>

definition unlinkTarget :: "string \<Rightarrow> string \<Rightarrow> account prog" where
  "unlinkTarget userID providerID =
     seq (ListAccountsByUser userID) (\<lambda>accounts.
     case find (\<lambda>a. ac_Provider a = providerID) accounts of
       None \<Rightarrow> raise ErrNotFound
     | Some target \<Rightarrow>
         if length accounts = 1
         then seq (GetUserByID userID) (\<lambda>u.
              if u_PasswordHash u = '''' then raise (Oidc Oidc_ErrLastCredential) else ret target)
         else ret target)"

definition unlinkDelete :: "string \<Rightarrow> string \<Rightarrow> account \<Rightarrow> unit prog" where
  "unlinkDelete userID providerID target =
     seq (DeleteAccount (ac_ID target)) (\<lambda>_. OI_logEvent EventAccountUnlinked userID (ac_Email target) providerID)"

definition Unlink :: "string \<Rightarrow> string \<Rightarrow> unit prog" where
  "Unlink userID providerID = seq (unlinkTarget userID providerID) (\<lambda>target. unlinkDelete userID providerID target)"

section \<open>What a provider and its tokens are\<close>

lemma registered_id:
  "register_providers ps byID = Inr byID' \<Longrightarrow> (\<And>i p. byID i = Some p \<Longrightarrow> pv_ID p = i \<and> validate p = None) \<Longrightarrow>
   byID' i = Some p \<Longrightarrow> pv_ID p = i \<and> validate p = None"
proof (induction ps arbitrary: byID)
  case Nil
  then show ?case by simp
next
  case (Cons q ps)
  from Cons.prems(1) have ok: "validate q = None" and rest: "register_providers ps (byID(pv_ID q \<mapsto> q)) = Inr byID'"
    by (auto split: option.splits if_splits)
  show ?case
  proof (rule Cons.IH [OF rest _ Cons.prems(3)])
    show "pv_ID p = i \<and> validate p = None" if "(byID(pv_ID q \<mapsto> q)) i = Some p" for i p
      using that Cons.prems(2) [of i p] ok by (cases "i = pv_ID q") auto
  qed
qed

lemma NewService_providers:
  "OI_NewService tx a lib ps cfg = Inr s \<Longrightarrow> oi_providers s i = Some p \<Longrightarrow> pv_ID p = i \<and> validate p = None"
  by (auto simp: OI_NewService_def split: if_splits sum.splits dest: registered_id)

lemma remoteE [elim!]:
  assumes "remote x w = (r, w')"
  obtains e fs where "r = Inl (Fault e)" and "w' = w\<lparr>faults := fs\<rparr>"
  | fs where "r = x" and "w' = w\<lparr>faults := fs\<rparr>"
  using assms unfolding remote_def by (auto elim!: portE)

lemma remote_run [simp]: "faults w = [] \<Longrightarrow> remote x w = (x, w)"
  by (simp add: remote_def port_def lift_def)

lemma keeps_remote [keeps_rules]: "db_order R \<Longrightarrow> keeps R (remote x)"
  by (rule db_order.keepsI) (auto dest: db_order.R_refl)

end
