(* ===== verification/OidcProps.thy ===== *)
theory OidcProps
  imports OidcFlow UserService
begin

text \<open>
  What signing in with an external provider guarantees: who a completed sign-in resolves to, that an identity never
  moves to another account, and that unlinking leaves a way to sign in.
\<close>

section \<open>What each part does to the stores\<close>

text \<open>Two versions of one link: the same row, of the same user, for the same identity.\<close>

definition same_link :: "account \<Rightarrow> account \<Rightarrow> bool" where
  "same_link a b \<longleftrightarrow> ac_ID a = ac_ID b \<and> ac_UserID a = ac_UserID b \<and> providerKey a = providerKey b"

lemma encrypt_unless_empty_db: "encrypt_unless_empty s t old w = (r, w') \<Longrightarrow> db w' = db w"
  unfolding encrypt_unless_empty_def EncryptSecret_def by (auto split: if_splits)

lemma attachTokens_db: "attachTokens s a tok w = (r, w') \<Longrightarrow> db w' = db w"
  unfolding attachTokens_def Let_def
  by (auto split: option.splits if_splits dest!: encrypt_unless_empty_db)

lemma attachTokens_ok:
  assumes "attachTokens s a tok w = (Inr b, w')"
  shows "same_link b a" and "ac_Email b = ac_Email a" and "ac_EmailVerified b = ac_EmailVerified a"
  using assms unfolding attachTokens_def Let_def same_link_def providerKey_def
  by (auto split: option.splits if_splits)

lemma newAccount_error: "newAccount s u p i tok w = (Inl e, w') \<Longrightarrow> db w' = db w"
  unfolding newAccount_def CreateAccount_def mem_CreateAccount_def
  by (auto split: if_splits dest!: attachTokens_db)

lemma newAccount_ok:
  assumes "newAccount s u p i tok w = (Inr a, w')"
  obtains acs where "mem_CreateAccount a (accounts (db w)) = (Inr (), acs)" and "db w' = (db w)\<lparr>accounts := acs\<rparr>"
    and "ac_UserID a = u" and "providerKey a = (pv_ID p, id_Subject i)"
proof -
  from assms obtain a0 w1 w2 where att: "attachTokens s a0 tok w1 = (Inr a, w2)" and a0: "ac_UserID a0 = u"
      "providerKey a0 = (pv_ID p, id_Subject i)" and db: "db w1 = db w" and cr: "CreateAccount a w2 = (Inr (), w')"
    unfolding newAccount_def by (auto simp: providerKey_def)
  then have same: "ac_UserID a = u" "providerKey a = (pv_ID p, id_Subject i)"
    using attachTokens_ok(1) [OF att] by (simp_all add: same_link_def)
  have "db w2 = db w" using attachTokens_db [OF att] db by simp
  with cr same that show thesis unfolding CreateAccount_def by (auto simp del: split_paired_Ex)
qed

lemma refreshAccount_error: "refreshAccount s a i tok w = (Inl e, w') \<Longrightarrow> db w' = db w"
  unfolding refreshAccount_def UpdateAccount_def mem_UpdateAccount_def
  by (auto split: if_splits dest!: attachTokens_db)

lemma refreshAccount_ok:
  assumes "refreshAccount s a i tok w = (Inr b, w')"
  obtains acs where "mem_UpdateAccount b (accounts (db w)) = (Inr (), acs)" and "db w' = (db w)\<lparr>accounts := acs\<rparr>"
    and "same_link b a"
proof -
  from assms obtain a0 w2 where att: "attachTokens s a0 tok w = (Inr b, w2)" and a0: "same_link a0 a"
      and up: "UpdateAccount b w2 = (Inr (), w')"
    unfolding refreshAccount_def by (auto simp: same_link_def providerKey_def)
  have "same_link b a" using attachTokens_ok(1) [OF att] a0 by (simp add: same_link_def)
  moreover have "db w2 = db w" by (rule attachTokens_db [OF att])
  ultimately show thesis using up that unfolding UpdateAccount_def by auto
qed

section \<open>Who a sign-in resolves to\<close>

text \<open>What the provider's userinfo endpoint says an access token is.\<close>

definition identifies :: "oidc_service \<Rightarrow> provider \<Rightarrow> string \<Rightarrow> identity \<Rightarrow> bool" where
  "identifies s p accessToken i \<longleftrightarrow>
     (\<exists>resp raw j. ol_Do (oi_lib s) (pv_UserInfoURL p) accessToken = Inr resp \<and> ui_StatusCode resp = 200 \<and>
        ui_Body resp = Inr raw \<and> (case pv_Map p of None \<Rightarrow> standardClaims | Some mapper \<Rightarrow> mapper) raw = Inr j \<and>
        id_Subject j \<noteq> '''' \<and> i = j\<lparr>id_Provider := pv_ID p, id_Email := NormalizeEmail (id_Email j)\<rparr>)"

lemma fetchIdentity_db: "fetchIdentity s p t w = (r, w') \<Longrightarrow> db w' = db w"
  unfolding fetchIdentity_def by (auto split: if_splits option.splits)

lemma fetchIdentity_ok: "fetchIdentity s p t w = (Inr i, w') \<Longrightarrow> identifies s p t i"
  unfolding fetchIdentity_def identifies_def by (auto split: if_splits) metis

lemma fetchIdentity_run:
  "identifies s p t i \<Longrightarrow> ol_NewRequest (oi_lib s) (pv_UserInfoURL p) = None \<Longrightarrow> faults w = [] \<Longrightarrow> fetchIdentity s p t w = (Inr i, w)"
  unfolding fetchIdentity_def identifies_def by (auto simp: run_defs)

text \<open>The three ways to a success, and what each does to the stores.\<close>

definition returning_case :: "provider \<Rightarrow> dbase \<Rightarrow> oidc_result \<Rightarrow> dbase \<Rightarrow> bool" where
  "returning_case p d x d' \<longleftrightarrow>
     (\<exists>a acs. mem_GetAccountByProvider (accounts d) (pv_ID p) (id_Subject (or_Identity x)) = Inr a \<and>
        mem_GetUserByID (users d) (ac_UserID a) = Inr (or_User x) \<and> same_link (or_Account x) a \<and>
        mem_UpdateAccount (or_Account x) (accounts d) = (Inr (), acs) \<and> d' = d\<lparr>accounts := acs\<rparr> \<and> \<not> or_CreatedUser x)"

definition new_link :: "provider \<Rightarrow> dbase \<Rightarrow> oidc_result \<Rightarrow> account_store \<Rightarrow> bool" where
  "new_link p d x acs \<longleftrightarrow>
     mem_GetAccountByProvider (accounts d) (pv_ID p) (id_Subject (or_Identity x)) = Inl ErrNotFound \<and>
     id_Email (or_Identity x) \<noteq> '''' \<and> ac_UserID (or_Account x) = u_ID (or_User x) \<and>
     providerKey (or_Account x) = (pv_ID p, id_Subject (or_Identity x)) \<and>
     mem_CreateAccount (or_Account x) (accounts d) = (Inr (), acs)"

definition linking_case :: "oidc_service \<Rightarrow> provider \<Rightarrow> dbase \<Rightarrow> oidc_result \<Rightarrow> dbase \<Rightarrow> bool" where
  "linking_case s p d x d' \<longleftrightarrow>
     (\<exists>acs. new_link p d x acs \<and> d' = d\<lparr>accounts := acs\<rparr> \<and>
        mem_GetUserByEmail (users d) (id_Email (or_Identity x)) = Inr (or_User x) \<and>
        og_Linking (oi_cfg s) = LinkingVerifiedEmail \<and> id_EmailVerified (or_Identity x) \<and> \<not> or_CreatedUser x)"

definition sign_up_case :: "oidc_service \<Rightarrow> provider \<Rightarrow> dbase \<Rightarrow> oidc_result \<Rightarrow> dbase \<Rightarrow> bool" where
  "sign_up_case s p d x d' \<longleftrightarrow>
     (\<exists>us acs. new_link p d x acs \<and> mem_CreateUser (or_User x) (users d) = (Inr (), us) \<and>
        d' = d\<lparr>users := us, accounts := acs\<rparr> \<and>
        mem_GetUserByEmail (users d) (id_Email (or_Identity x)) = Inl ErrNotFound \<and> \<not> og_DisableSignUp (oi_cfg s) \<and>
        u_Email (or_User x) = id_Email (or_Identity x) \<and> u_PasswordHash (or_User x) = '''' \<and>
        u_EmailVerified (or_User x) = id_EmailVerified (or_Identity x) \<and> or_CreatedUser x)"

lemma resolveReturning_ok:
  assumes "resolveReturning s p i tok a w = (Inr x, w')"
    and "mem_GetAccountByProvider (accounts (db w)) (pv_ID p) (id_Subject i) = Inr a"
  shows "returning_case p (db w) x (db w') \<and> or_Identity x = i"
proof -
  from assms(1) [unfolded resolveReturning_def] obtain u w1 where get: "GetUserByID (ac_UserID a) w = (Inr u, w1)"
    and rest: "seq (refreshAccount s a i tok) (\<lambda>existing.
       seq (OI_logEvent EventUserLoginSucceeded (u_ID u) (u_Email u) (pv_ID p)) (\<lambda>_.
       ret \<lparr>or_User = u, or_Account = existing, or_Identity = i, or_CreatedUser = False\<rparr>)) w1 = (Inr x, w')"
    by (rule seq_okE)
  from get have u: "mem_GetUserByID (users (db w)) (ac_UserID a) = Inr u" and "db w1 = db w"
    unfolding GetUserByID_def by auto
  moreover from rest obtain b w2 where re: "refreshAccount s a i tok w1 = (Inr b, w2)"
    and fin: "seq (OI_logEvent EventUserLoginSucceeded (u_ID u) (u_Email u) (pv_ID p)) (\<lambda>_.
       ret \<lparr>or_User = u, or_Account = b, or_Identity = i, or_CreatedUser = False\<rparr>) w2 = (Inr x, w')"
    by (rule seq_okE)
  moreover from fin have "db w' = db w2" and x: "x = \<lparr>or_User = u, or_Account = b, or_Identity = i, or_CreatedUser = False\<rparr>"
    unfolding OI_logEvent_def by auto
  moreover obtain acs where "mem_UpdateAccount b (accounts (db w1)) = (Inr (), acs)" and "db w2 = (db w1)\<lparr>accounts := acs\<rparr>"
    and "same_link b a"
    by (rule refreshAccount_ok [OF re])
  ultimately show ?thesis using assms(2) by (simp add: returning_case_def)
qed

lemma resolveReturning_error:
  "resolveReturning s p i tok a w = (Inl e, w') \<Longrightarrow> db w' = db w"
  unfolding resolveReturning_def GetUserByID_def OI_logEvent_def by (auto dest!: refreshAccount_error)

lemma link_ok:
  assumes "link s u p i tok w = (Inr a, w')"
  obtains acs where "mem_CreateAccount a (accounts (db w)) = (Inr (), acs)" and "db w' = (db w)\<lparr>accounts := acs\<rparr>"
    and "ac_UserID a = u" and "providerKey a = (pv_ID p, id_Subject i)"
proof -
  from assms obtain w1 where new: "newAccount s u p i tok w = (Inr a, w1)" and "db w' = db w1"
    unfolding link_def OI_logEvent_def by auto
  with that show thesis by (auto elim: newAccount_ok [OF new])
qed

lemma link_error: "link s u p i tok w = (Inl e, w') \<Longrightarrow> db w' = db w"
  unfolding link_def OI_logEvent_def by (auto dest!: newAccount_error)

lemma OI_signUp_ok:
  assumes "OI_signUp s p i tok w = (Inr x, w')"
  obtains us acs where "mem_CreateUser (or_User x) (users (db w)) = (Inr (), us)"
    and "mem_CreateAccount (or_Account x) (accounts (db w)) = (Inr (), acs)" and "db w' = (db w)\<lparr>users := us, accounts := acs\<rparr>"
    and "ac_UserID (or_Account x) = u_ID (or_User x)" and "providerKey (or_Account x) = (pv_ID p, id_Subject i)"
    and "u_Email (or_User x) = id_Email i" and "u_PasswordHash (or_User x) = ''''"
    and "u_EmailVerified (or_User x) = id_EmailVerified i" and "or_CreatedUser x" and "or_Identity x = i"
proof -
  from assms [unfolded OI_signUp_def] obtain userID w1 where new: "NewID w = (Inr userID, w1)"
    and rest: "with_now (\<lambda>now.
     let u = \<lparr>u_ID = userID, u_Email = id_Email i, u_PasswordHash = '''', u_EmailVerified = id_EmailVerified i,
              u_EmailVerifiedAt = (if id_EmailVerified i then Some now else None), u_CreatedAt = now, u_UpdatedAt = now\<rparr> in
     seq (RunInTx (oi_Tx s) (seq (CreateUser u) (\<lambda>_. newAccount s (u_ID u) p i tok))) (\<lambda>acct.
     seq (OI_logEvent EventUserRegistered (u_ID u) (u_Email u) (pv_ID p)) (\<lambda>_.
     ret \<lparr>or_User = u, or_Account = acct, or_Identity = i, or_CreatedUser = True\<rparr>))) w1 = (Inr x, w')"
    by (rule seq_okE)
  define u where "u = \<lparr>u_ID = userID, u_Email = id_Email i, u_PasswordHash = '''', u_EmailVerified = id_EmailVerified i,
              u_EmailVerifiedAt = (if id_EmailVerified i then Some (clock w1) else None), u_CreatedAt = clock w1, u_UpdatedAt = clock w1\<rparr>"
  have u: "u_Email u = id_Email i" "u_PasswordHash u = ''''" "u_EmailVerified u = id_EmailVerified i" by (simp_all add: u_def)
  from rest obtain a w2 where run: "RunInTx (oi_Tx s) (seq (CreateUser u) (\<lambda>_. newAccount s (u_ID u) p i tok)) w1 = (Inr a, w2)"
    and fin: "seq (OI_logEvent EventUserRegistered (u_ID u) (u_Email u) (pv_ID p)) (\<lambda>_.
     ret \<lparr>or_User = u, or_Account = a, or_Identity = i, or_CreatedUser = True\<rparr>) w2 = (Inr x, w')"
    unfolding with_now_eq Let_def u_def [symmetric] by (rule seq_okE)
  have db: "db w1 = db w" "db w' = db w2" and x: "x = \<lparr>or_User = u, or_Account = a, or_Identity = i, or_CreatedUser = True\<rparr>"
    using new fin unfolding OI_logEvent_def by auto
  obtain fs w3 fs' where body: "seq (CreateUser u) (\<lambda>_. newAccount s (u_ID u) p i tok) (w1\<lparr>faults := fs\<rparr>) = (Inr a, w3)"
    and w2: "w2 = w3\<lparr>faults := fs'\<rparr>" by (rule RunInTx_ok [OF run])
  then obtain w4 where cr: "CreateUser u (w1\<lparr>faults := fs\<rparr>) = (Inr (), w4)" and new: "newAccount s (u_ID u) p i tok w4 = (Inr a, w3)"
    by (elim seqE) auto
  obtain us where us: "mem_CreateUser u (users (db w)) = (Inr (), us)" and w4: "db w4 = (db w)\<lparr>users := us\<rparr>"
    using cr db(1) unfolding CreateUser_def by auto
  obtain acs where acs: "mem_CreateAccount a (accounts (db w4)) = (Inr (), acs)" and "db w3 = (db w4)\<lparr>accounts := acs\<rparr>"
    and "ac_UserID a = u_ID u" and "providerKey a = (pv_ID p, id_Subject i)"
    by (rule newAccount_ok [OF new])
  then show thesis using that us u x w2 w4 db(2) by simp
qed

lemma OI_signUp_error: "OI_signUp s p i tok w = (Inl e, w') \<Longrightarrow> oi_Tx s \<Longrightarrow> db w' = db w"
  unfolding OI_signUp_def Let_def OI_logEvent_def by (auto dest!: RunInTx_error)

lemma OI_signUp_error_accounts:
  assumes "OI_signUp s p i tok w = (Inl e, w')" shows "accounts (db w') = accounts (db w)"
proof -
  have tx: "accounts (db w2) = accounts (db w1)"
    if "RunInTx (oi_Tx s) (seq (CreateUser u) (\<lambda>_. newAccount s v p i tok)) w1 = (Inl e, w2)" for u v w1 w2
    using that
  proof (cases rule: RunInTx_errorE)
    case (body fs w3)
    then have "accounts (db w3) = accounts (db w1)"
      by (auto simp: CreateUser_def dest!: newAccount_error)
    then show ?thesis using body by (cases "oi_Tx s") auto
  qed simp
  show ?thesis using assms unfolding OI_signUp_def Let_def OI_logEvent_def by (auto dest!: tx)
qed

lemma OI_resolve_ok:
  assumes run: "OI_resolve s p i tok w = (Inr x, w')"
  shows "or_Identity x = i \<and>
    (returning_case p (db w) x (db w') \<or> linking_case s p (db w) x (db w') \<or> sign_up_case s p (db w) x (db w'))"
  using run [unfolded OI_resolve_def]
proof (cases rule: onE)
  case (1 e w1)
  then have none: "mem_GetAccountByProvider (accounts (db w)) (pv_ID p) (id_Subject i) = Inl ErrNotFound" and db1: "db w1 = db w"
    and unk: "resolveUnknown s p i tok w1 = (Inr x, w')"
    unfolding GetAccountByProvider_def by (auto split: if_splits)
  from unk have email: "id_Email i \<noteq> ''''" by (auto simp: resolveUnknown_def)
  from unk email show ?thesis unfolding resolveUnknown_def if_not_P [OF email]
  proof (cases rule: onE)
    case (1 e w2)
    then have no_user: "mem_GetUserByEmail (users (db w)) (id_Email i) = Inl ErrNotFound" and db2: "db w2 = db w"
      and su: "OI_signUp s p i tok w2 = (Inr x, w')" and allowed: "\<not> og_DisableSignUp (oi_cfg s)"
      using db1 unfolding GetUserByEmail_def by (auto split: if_splits)
    obtain us acs where "mem_CreateUser (or_User x) (users (db w2)) = (Inr (), us)"
      and "mem_CreateAccount (or_Account x) (accounts (db w2)) = (Inr (), acs)" and "db w' = (db w2)\<lparr>users := us, accounts := acs\<rparr>"
      and "ac_UserID (or_Account x) = u_ID (or_User x)" and "providerKey (or_Account x) = (pv_ID p, id_Subject i)"
      and "u_Email (or_User x) = id_Email i" and "u_PasswordHash (or_User x) = ''''"
      and "u_EmailVerified (or_User x) = id_EmailVerified i" and "or_CreatedUser x" and "or_Identity x = i"
      by (rule OI_signUp_ok [OF su])
    then show ?thesis using none no_user db2 allowed email by (simp add: sign_up_case_def new_link_def)
  next
    case (2 u w2)
    then have u: "mem_GetUserByEmail (users (db w)) (id_Email i) = Inr u" and db2: "db w2 = db w"
      using db1 unfolding GetUserByEmail_def by auto
    from 2(2) have pol: "og_Linking (oi_cfg s) = LinkingVerifiedEmail" "id_EmailVerified i" and
      rest: "seq (link s (u_ID u) p i tok) (\<lambda>acct. ret \<lparr>or_User = u, or_Account = acct, or_Identity = i, or_CreatedUser = False\<rparr>) w2
        = (Inr x, w')"
      by (auto split: if_splits)
    from rest obtain a w3 where li: "link s (u_ID u) p i tok w2 = (Inr a, w3)"
      and x: "ret \<lparr>or_User = u, or_Account = a, or_Identity = i, or_CreatedUser = False\<rparr> w3 = (Inr x, w')"
      by (rule seq_okE)
    obtain acs where "mem_CreateAccount a (accounts (db w2)) = (Inr (), acs)" and "db w3 = (db w2)\<lparr>accounts := acs\<rparr>"
      and "ac_UserID a = u_ID u" and "providerKey a = (pv_ID p, id_Subject i)"
      by (rule link_ok [OF li])
    then show ?thesis using none u db2 x pol email by (simp add: linking_case_def new_link_def)
  qed
next
  case (2 a w1)
  then have "mem_GetAccountByProvider (accounts (db w1)) (pv_ID p) (id_Subject i) = Inr a" and "db w1 = db w"
    unfolding GetAccountByProvider_def by auto
  then show ?thesis using resolveReturning_ok [OF 2(2)] by auto
qed

lemma OI_resolve_error:
  assumes "OI_resolve s p i tok w = (Inl e, w')"
  shows "accounts (db w') = accounts (db w)" and "oi_Tx s \<Longrightarrow> db w' = db w"
proof -
  note run = assms [unfolded OI_resolve_def resolveUnknown_def GetAccountByProvider_def GetUserByEmail_def]
  show "accounts (db w') = accounts (db w)"
    using run by (auto split: if_splits dest!: resolveReturning_error link_error OI_signUp_error_accounts)
  show "db w' = db w" if "oi_Tx s"
    using run that by (auto split: if_splits dest!: resolveReturning_error link_error OI_signUp_error)
qed

lemma Complete_ok:
  assumes "Complete s pid ru cb w = (Inr x, w')"
  obtains p tok where "oi_providers s pid = Some p" and "cb_ExpectedState cb \<noteq> ''''" and "cb_State cb = cb_ExpectedState cb"
    and "cb_Code cb \<noteq> ''''"
    and "ol_Exchange (oi_lib s) (oauthConfig p ru) (cb_Code cb) (cb_CodeVerifier cb) = Inr tok"
    and "identifies s p (ot_AccessToken tok) (or_Identity x)"
    and "\<exists>w1. db w1 = db w \<and> OI_resolve s p (or_Identity x) (Some tok) w1 = (Inr x, w')"
    and "returning_case p (db w) x (db w') \<or> linking_case s p (db w) x (db w') \<or> sign_up_case s p (db w) x (db w')"
proof -
  from assms [unfolded Complete_def] obtain p w1 where p: "Provider s pid w = (Inr p, w1)"
    and rest: "(if cb_ExpectedState cb = '''' \<or> cb_State cb \<noteq> cb_ExpectedState cb then raise (Oidc ErrStateMismatch)
     else if cb_Code cb = '''' then raise (Wrapped (Oidc ErrExchange) (Fault ''no authorization code''))
     else on (remote (ol_Exchange (oi_lib s) (oauthConfig p ru) (cb_Code cb) (cb_CodeVerifier cb)))
       (\<lambda>e. raise (Wrapped (Oidc ErrExchange) e)) (\<lambda>tok.
     seq (fetchIdentity s p (ot_AccessToken tok)) (\<lambda>i. OI_resolve s p i (Some tok)))) w1 = (Inr x, w')"
    by (rule seq_okE)
  from p have reg: "oi_providers s pid = Some p" "w1 = w" by (auto simp: Provider_def split: option.splits)
  from rest have cb: "cb_ExpectedState cb \<noteq> ''''" "cb_State cb = cb_ExpectedState cb" "cb_Code cb \<noteq> ''''"
    by (auto split: if_splits)
  with rest have "on (remote (ol_Exchange (oi_lib s) (oauthConfig p ru) (cb_Code cb) (cb_CodeVerifier cb)))
       (\<lambda>e. raise (Wrapped (Oidc ErrExchange) e)) (\<lambda>tok.
     seq (fetchIdentity s p (ot_AccessToken tok)) (\<lambda>i. OI_resolve s p i (Some tok))) w1 = (Inr x, w')" by simp
  then obtain tok w2 where ex: "remote (ol_Exchange (oi_lib s) (oauthConfig p ru) (cb_Code cb) (cb_CodeVerifier cb)) w1 = (Inr tok, w2)"
    and fe: "seq (fetchIdentity s p (ot_AccessToken tok)) (\<lambda>i. OI_resolve s p i (Some tok)) w2 = (Inr x, w')"
    by (cases rule: onE) auto
  from fe obtain i w3 where i: "fetchIdentity s p (ot_AccessToken tok) w2 = (Inr i, w3)" and re: "OI_resolve s p i (Some tok) w3 = (Inr x, w')"
    by (rule seq_okE)
  have db: "db w3 = db w" using fetchIdentity_db [OF i] ex reg(2) by auto
  from ex have "ol_Exchange (oi_lib s) (oauthConfig p ru) (cb_Code cb) (cb_CodeVerifier cb) = Inr tok" by auto
  then show thesis
    using that [OF reg(1) cb(1,2,3)] fetchIdentity_ok [OF i] OI_resolve_ok [OF re] re db by metis
qed

lemma Complete_error:
  assumes "Complete s pid ru cb w = (Inl e, w')"
  shows "accounts (db w') = accounts (db w)" and "oi_Tx s \<Longrightarrow> db w' = db w"
proof -
  note run = assms [unfolded Complete_def Provider_def]
  show "accounts (db w') = accounts (db w)"
    using run by (auto split: if_splits option.splits dest!: OI_resolve_error(1) fetchIdentity_db)
  show "db w' = db w" if "oi_Tx s"
    using run that by (auto split: if_splits option.splits dest!: OI_resolve_error(2) fetchIdentity_db)
qed

text \<open>What a success leaves: the identity is linked to the account that was answered.\<close>

lemma created_link:
  assumes "mem_CreateAccount a acs = (Inr (), acs')" shows "mem_GetAccountByProvider acs' (ac_Provider a) (ac_ProviderAccountID a) = Inr a"
  using assms by (auto simp: mem_CreateAccount_def mem_GetAccountByProvider_def providerKey_def split: if_splits)

lemma updated_link:
  assumes "mem_UpdateAccount a acs = (Inr (), acs')" shows "mem_GetAccountByProvider acs' (ac_Provider a) (ac_ProviderAccountID a) = Inr a"
  using assms by (auto simp: mem_UpdateAccount_def mem_GetAccountByProvider_def providerKey_def split: if_splits)

lemma success_links:
  assumes "returning_case p d x d' \<or> linking_case s p d x d' \<or> sign_up_case s p d x d'" and "acs_inv (accounts d)" and "us_inv (users d)"
  shows "mem_GetAccountByProvider (accounts d') (pv_ID p) (id_Subject (or_Identity x)) = Inr (or_Account x)"
    and "ac_UserID (or_Account x) = u_ID (or_User x)"
proof -
  have key: "providerKey (or_Account x) = (pv_ID p, id_Subject (or_Identity x))"
    using assms(1) acs_get_iff [OF assms(2)]
    by (auto simp: returning_case_def linking_case_def sign_up_case_def new_link_def same_link_def)
  have "\<exists>acs. (mem_UpdateAccount (or_Account x) (accounts d) = (Inr (), acs) \<or> mem_CreateAccount (or_Account x) (accounts d) = (Inr (), acs))
      \<and> accounts d' = acs"
    using assms(1) by (auto simp: returning_case_def linking_case_def sign_up_case_def new_link_def)
  then show "mem_GetAccountByProvider (accounts d') (pv_ID p) (id_Subject (or_Identity x)) = Inr (or_Account x)"
    using created_link [of "or_Account x"] updated_link [of "or_Account x"] key by (auto simp: providerKey_def)
  show "ac_UserID (or_Account x) = u_ID (or_User x)"
    using assms(1) us_get_id [OF assms(3)]
    by (auto simp: returning_case_def linking_case_def sign_up_case_def new_link_def same_link_def)
qed

text \<open>
  C9. A sign-in completed with an external provider resolves to the right account: the callback carried back the
  state of the flow, the provider exchanged its code under the PKCE verifier and said who the token belongs to, and
  the account answered is the one this identity was linked to before; or, only if the host links by verified address
  and the provider vouches for it, the account with that address; or, only if no account has the address and
  sign-up is open, a new account without a password. Afterwards the identity is linked to that account.
\<close>

theorem provider_sign_in_sound:
  assumes "Complete s pid ru cb w = (Inr x, w')" and "acs_inv (accounts (db w))" and "us_inv (users (db w))"
  shows "\<exists>p tok. oi_providers s pid = Some p \<and> cb_State cb = cb_ExpectedState cb \<and> cb_State cb \<noteq> '''' \<and>
    ol_Exchange (oi_lib s) (oauthConfig p ru) (cb_Code cb) (cb_CodeVerifier cb) = Inr tok \<and>
    identifies s p (ot_AccessToken tok) (or_Identity x) \<and>
    mem_GetAccountByProvider (accounts (db w')) (pv_ID p) (id_Subject (or_Identity x)) = Inr (or_Account x) \<and>
    ac_UserID (or_Account x) = u_ID (or_User x) \<and>
    ((\<exists>a. mem_GetAccountByProvider (accounts (db w)) (pv_ID p) (id_Subject (or_Identity x)) = Inr a \<and>
         mem_GetUserByID (users (db w)) (ac_UserID a) = Inr (or_User x) \<and> \<not> or_CreatedUser x) \<or>
     (mem_GetAccountByProvider (accounts (db w)) (pv_ID p) (id_Subject (or_Identity x)) = Inl ErrNotFound \<and>
      og_Linking (oi_cfg s) = LinkingVerifiedEmail \<and> id_EmailVerified (or_Identity x) \<and>
      mem_GetUserByEmail (users (db w)) (id_Email (or_Identity x)) = Inr (or_User x) \<and> \<not> or_CreatedUser x) \<or>
     (mem_GetAccountByProvider (accounts (db w)) (pv_ID p) (id_Subject (or_Identity x)) = Inl ErrNotFound \<and>
      \<not> og_DisableSignUp (oi_cfg s) \<and>
      mem_GetUserByEmail (users (db w)) (id_Email (or_Identity x)) = Inl ErrNotFound \<and>
      mem_GetUserByEmail (users (db w')) (id_Email (or_Identity x)) = Inr (or_User x) \<and>
      u_PasswordHash (or_User x) = '''' \<and> u_EmailVerified (or_User x) = id_EmailVerified (or_Identity x) \<and> or_CreatedUser x))"
proof -
  obtain p tok where p: "oi_providers s pid = Some p" "cb_ExpectedState cb \<noteq> ''''" "cb_State cb = cb_ExpectedState cb"
    "ol_Exchange (oi_lib s) (oauthConfig p ru) (cb_Code cb) (cb_CodeVerifier cb) = Inr tok"
    "identifies s p (ot_AccessToken tok) (or_Identity x)"
    and cases: "returning_case p (db w) x (db w') \<or> linking_case s p (db w) x (db w') \<or> sign_up_case s p (db w) x (db w')"
    using Complete_ok [OF assms(1)] by metis
  have created: "mem_GetUserByEmail us e = Inr u" if "mem_CreateUser u (users (db w)) = (Inr (), us)" and "u_Email u = e" for u us e
    using that by (auto simp: mem_CreateUser_def mem_GetUserByEmail_def split: if_splits option.splits)
  show ?thesis
    using p success_links [OF cases assms(2,3)] cases created
    by (auto simp: returning_case_def linking_case_def sign_up_case_def new_link_def)
qed

section \<open>An identity stays where it is\<close>

definition identity_owner :: "world \<Rightarrow> string \<Rightarrow> string \<Rightarrow> string option" where
  "identity_owner w provider subject =
     (case mem_GetAccountByProvider (accounts (db w)) provider subject of Inl _ \<Rightarrow> None | Inr a \<Rightarrow> Some (ac_UserID a))"

datatype oidc_request =
    Signs_in string string callback | Links string identity "oauth_token option" | Unlinks string string | Elsewhere

text \<open>A row under a new key takes an id not in use: \<open>NewID\<close> draws 122 random bits.\<close>

definition fresh_link :: "world \<Rightarrow> account \<Rightarrow> bool" where
  "fresh_link w a \<longleftrightarrow> (acs_byProvider (accounts (db w)) (providerKey a) = None \<longrightarrow> acs_byID (accounts (db w)) (ac_ID a) = None)"

inductive oidc_trace :: "oidc_service \<Rightarrow> oidc_request list \<Rightarrow> world \<Rightarrow> world \<Rightarrow> bool" for s where
  start: "oidc_trace s [] w w"
| sign_in: "oidc_trace s qs w w1 \<Longrightarrow> Complete s pid ru cb w1 = (r, w2) \<Longrightarrow> (\<forall>x. r = Inr x \<longrightarrow> fresh_link w1 (or_Account x)) \<Longrightarrow>
    oidc_trace s (qs @ [Signs_in pid ru cb]) w w2"
| link_it: "oidc_trace s qs w w1 \<Longrightarrow> OI_Link s u i tok w1 = (r, w2) \<Longrightarrow> (\<forall>a. r = Inr a \<longrightarrow> fresh_link w1 a) \<Longrightarrow>
    oidc_trace s (qs @ [Links u i tok]) w w2"
| unlink: "oidc_trace s qs w w1 \<Longrightarrow> Unlink u p w1 = (r, w2) \<Longrightarrow> oidc_trace s (qs @ [Unlinks u p]) w w2"
| elsewhere: "oidc_trace s qs w w1 \<Longrightarrow> accounts (db w2) = accounts (db w1) \<Longrightarrow> oidc_trace s (qs @ [Elsewhere]) w w2"

text \<open>
  The three ways the table of accounts changes: a row rewritten for the same identity and user, a row under a new
  key and a new id, and a row of one user at one provider taken out.
\<close>

lemma keeps_owner_update:
  assumes "acs_inv acs" and "acs_byID acs (ac_ID b) = Some a" and "same_link b a" and "mem_UpdateAccount b acs = (r, acs')"
    and "acs_byID acs j = Some c"
  shows "\<exists>c'. acs_byID acs' j = Some c' \<and> ac_UserID c' = ac_UserID c \<and> providerKey c' = providerKey c"
  using assms by (cases "j = ac_ID b") (auto simp: mem_UpdateAccount_def same_link_def)

lemma keeps_owner_create:
  assumes "acs_byID acs (ac_ID b) = None" and "mem_CreateAccount b acs = (r, acs')" and "acs_byID acs j = Some c"
  shows "acs_byID acs' j = Some c"
  using assms by (cases "j = ac_ID b") (auto simp: mem_CreateAccount_def split: if_splits)

lemma keeps_owner_delete:
  assumes "mem_DeleteAccount (ac_ID b) acs = (r, acs')" and "acs_byID acs j = Some c" and "ac_ID b \<noteq> j"
  shows "acs_byID acs' j = Some c"
  using assms by (auto simp: mem_DeleteAccount_def split: option.splits)

lemma identity_owner_iff:
  assumes "acs_inv (accounts (db w))"
  shows "identity_owner w p i = Some u \<longleftrightarrow> (\<exists>j a. acs_byID (accounts (db w)) j = Some a \<and> providerKey a = (p, i) \<and> ac_UserID a = u)"
proof
  assume "identity_owner w p i = Some u"
  then show "\<exists>j a. acs_byID (accounts (db w)) j = Some a \<and> providerKey a = (p, i) \<and> ac_UserID a = u"
    using acs_get_iff [OF assms] by (auto simp: identity_owner_def split: sum.splits)
next
  assume "\<exists>j a. acs_byID (accounts (db w)) j = Some a \<and> providerKey a = (p, i) \<and> ac_UserID a = u"
  then obtain j a where a: "acs_byID (accounts (db w)) j = Some a" "providerKey a = (p, i)" "ac_UserID a = u" by blast
  then have "mem_GetAccountByProvider (accounts (db w)) p i = Inr a"
    using acs_get_iff [OF assms] linkedD(4) [OF assms a(1)] by simp
  then show "identity_owner w p i = Some u" using a(3) by (simp add: identity_owner_def)
qed

definition link_kept :: "world \<Rightarrow> world \<Rightarrow> bool" where
  "link_kept w w' \<longleftrightarrow> acs_inv (accounts (db w')) \<and>
     (\<forall>p i u. identity_owner w p i = Some u \<longrightarrow> identity_owner w' p i = Some u)"

lemma link_kept_same: "acs_inv (accounts (db w)) \<Longrightarrow> accounts (db w') = accounts (db w) \<Longrightarrow> link_kept w w'"
  by (simp add: link_kept_def identity_owner_def)

lemma link_keptI:
  assumes inv: "acs_inv (accounts (db w))" and inv': "acs_inv (accounts (db w'))"
    and rows: "\<And>j c. acs_byID (accounts (db w)) j = Some c \<Longrightarrow>
      \<exists>c'. acs_byID (accounts (db w')) j = Some c' \<and> ac_UserID c' = ac_UserID c \<and> providerKey c' = providerKey c"
  shows "link_kept w w'"
proof -
  have "identity_owner w' p i = Some u" if "identity_owner w p i = Some u" for p i u
    using that rows unfolding identity_owner_iff [OF inv] identity_owner_iff [OF inv'] by metis
  then show ?thesis using inv' by (simp add: link_kept_def)
qed

lemma create_keeps:
  assumes inv: "acs_inv (accounts (db w))" and fresh: "fresh_link w a" and run: "mem_CreateAccount a (accounts (db w)) = (Inr (), acs)"
    and none: "mem_GetAccountByProvider (accounts (db w)) (fst (providerKey a)) (snd (providerKey a)) = Inl ErrNotFound"
    and w': "accounts (db w') = acs"
  shows "link_kept w w'"
proof -
  have free: "acs_byID (accounts (db w)) (ac_ID a) = None"
    using fresh acs_get_error(2) [OF inv none] by (simp add: fresh_link_def)
  show ?thesis
    using link_keptI [OF inv] acs_inv_create [OF inv free run] keeps_owner_create [OF free run] w' by auto
qed

lemma Complete_keeps:
  assumes run: "Complete s pid ru cb w = (r, w')" and fresh: "\<forall>x. r = Inr x \<longrightarrow> fresh_link w (or_Account x)"
    and inv: "acs_inv (accounts (db w))"
  shows "link_kept w w'"
proof (cases r)
  case (Inl e)
  then show ?thesis using Complete_error(1) run link_kept_same [OF inv] by blast
next
  case (Inr x)
  have created: "link_kept w w'" if "new_link p (db w) x acs" and "accounts (db w') = acs" for p acs
  proof (rule create_keeps [OF inv _ _ _ that(2)])
    show "fresh_link w (or_Account x)" using fresh Inr by simp
  qed (use that(1) in \<open>simp_all add: new_link_def\<close>)
  from Inr run have run': "Complete s pid ru cb w = (Inr x, w')" by simp
  obtain p where "returning_case p (db w) x (db w') \<or> linking_case s p (db w) x (db w') \<or> sign_up_case s p (db w) x (db w')"
    by (rule Complete_ok [OF run'])
  then consider "returning_case p (db w) x (db w')" | acs where "new_link p (db w) x acs" and "accounts (db w') = acs"
    by (auto simp: linking_case_def sign_up_case_def)
  then show ?thesis
  proof cases
    case 1
    then obtain a acs where a: "acs_byID (accounts (db w)) (ac_ID a) = Some a" "same_link (or_Account x) a"
      and up: "mem_UpdateAccount (or_Account x) (accounts (db w)) = (Inr (), acs)" and w': "accounts (db w') = acs"
      using acs_get_iff [OF inv] by (auto simp: returning_case_def)
    have row: "acs_byID (accounts (db w)) (ac_ID (or_Account x)) = Some a" using a by (simp add: same_link_def)
    have "acs_inv acs" using acs_inv_update [OF inv row _ _ up] a(2) by (simp add: same_link_def)
    then show ?thesis
      using link_keptI [OF inv] keeps_owner_update [OF inv row a(2) up] w' by simp
  next
    case 2
    then show ?thesis by (rule created)
  qed
qed

lemma OI_Link_cases:
  assumes "OI_Link s u i tok w = (r, w')"
  shows "db w' = db w \<or> (\<exists>p w1. db w1 = db w \<and> link s u p i tok w1 = (r, w') \<and>
    mem_GetAccountByProvider (accounts (db w)) (pv_ID p) (id_Subject i) = Inl ErrNotFound)"
proof (rule disjCI)
  assume no: "\<not> (\<exists>p w1. db w1 = db w \<and> link s u p i tok w1 = (r, w') \<and>
    mem_GetAccountByProvider (accounts (db w)) (pv_ID p) (id_Subject i) = Inl ErrNotFound)"
  have "db (w\<lparr>faults := fs\<rparr>) = db w" for fs by simp
  with no have "\<forall>p fs. link s u p i tok (w\<lparr>faults := fs\<rparr>) = (r, w') \<longrightarrow>
    mem_GetAccountByProvider (accounts (db w)) (pv_ID p) (id_Subject i) \<noteq> Inl ErrNotFound" by blast
  then show "db w' = db w"
    using assms unfolding OI_Link_def Provider_def GetAccountByProvider_def by (auto split: option.splits if_splits) blast
qed

lemma OI_Link_keeps:
  assumes run: "OI_Link s u i tok w = (r, w')" and fresh: "\<forall>a. r = Inr a \<longrightarrow> fresh_link w a" and inv: "acs_inv (accounts (db w))"
  shows "link_kept w w'"
proof -
  consider "db w' = db w" | p w1 where "db w1 = db w" and "link s u p i tok w1 = (r, w')"
    and "mem_GetAccountByProvider (accounts (db w)) (pv_ID p) (id_Subject i) = Inl ErrNotFound"
    using OI_Link_cases [OF run] by blast
  then show ?thesis
  proof cases
    case 1
    then show ?thesis using link_kept_same [OF inv] by simp
  next
    case 2
    show ?thesis
    proof (cases r)
      case (Inl e)
      then show ?thesis using link_error 2(1,2) link_kept_same [OF inv] by metis
    next
      case (Inr a)
      obtain acs where cr: "mem_CreateAccount a (accounts (db w1)) = (Inr (), acs)" and "db w' = (db w1)\<lparr>accounts := acs\<rparr>"
        and key: "providerKey a = (pv_ID p, id_Subject i)"
        using 2(2) Inr by (auto elim: link_ok)
      then show ?thesis using create_keeps [OF inv, of a acs w'] fresh Inr 2(1,3) by simp
    qed
  qed
qed

lemma unlinkTarget_ok:
  assumes "unlinkTarget u p w = (Inr a, w')"
  obtains "as" where "mem_ListAccountsByUser (accounts (db w)) u = Inr as" and "a \<in> set as" and "ac_Provider a = p"
    and "db w' = db w" and "length as = 1 \<longrightarrow> (\<exists>usr. mem_GetUserByID (users (db w)) u = Inr usr \<and> u_PasswordHash usr \<noteq> '''')"
proof -
  from assms [unfolded unlinkTarget_def] obtain "as" w1 where l: "ListAccountsByUser u w = (Inr as, w1)"
    and rest: "(case find (\<lambda>a. ac_Provider a = p) as of
       None \<Rightarrow> raise ErrNotFound
     | Some target \<Rightarrow>
         if length as = 1
         then seq (GetUserByID u) (\<lambda>u. if u_PasswordHash u = '''' then raise (Oidc Oidc_ErrLastCredential) else ret target)
         else ret target) w1 = (Inr a, w')"
    by (rule seq_okE)
  from l have listed: "mem_ListAccountsByUser (accounts (db w)) u = Inr as" and db: "db w1 = db w"
    unfolding ListAccountsByUser_def by auto
  from rest have "find (\<lambda>a. ac_Provider a = p) as = Some a" and "db w' = db w1" and
    one: "length as = 1 \<longrightarrow> (\<exists>usr. mem_GetUserByID (users (db w1)) u = Inr usr \<and> u_PasswordHash usr \<noteq> '''')"
    unfolding GetUserByID_def by (auto split: option.splits if_splits)
  moreover from this(1) have "a \<in> set as" "ac_Provider a = p" by (auto simp: find_Some_iff)
  ultimately show thesis using that listed db by simp
qed

lemma unlinkTarget_db: "unlinkTarget u p w = (r, w') \<Longrightarrow> db w' = db w"
  unfolding unlinkTarget_def ListAccountsByUser_def GetUserByID_def by (auto split: option.splits if_splits)

lemma unlinkDelete_ok:
  assumes "unlinkDelete u p a w = (r, w')"
  shows "db w' = db w \<or> (\<exists>acs. mem_DeleteAccount (ac_ID a) (accounts (db w)) = (r, acs) \<and> db w' = (db w)\<lparr>accounts := acs\<rparr>)"
    and "r = Inr () \<Longrightarrow> \<exists>acs. mem_DeleteAccount (ac_ID a) (accounts (db w)) = (Inr (), acs) \<and> db w' = (db w)\<lparr>accounts := acs\<rparr>"
  using assms unfolding unlinkDelete_def DeleteAccount_def OI_logEvent_def by auto

text \<open>
  C8. An identity never moves: once a provider's subject is linked to an account, it stays linked to that account
  through any sequence of sign-ins, deliberate links and unlinks with any faults, until the account's own user
  unlinks that provider. No callback, whoever sends it, and no other user takes it over or removes it.
\<close>

theorem linked_identity_never_moves:
  assumes "oidc_trace s qs w w'" and "acs_inv (accounts (db w))"
    and "identity_owner w p i = Some u" and "Unlinks u p \<notin> set qs"
  shows "identity_owner w' p i = Some u \<and> acs_inv (accounts (db w'))"
  using assms
proof (induction rule: oidc_trace.induct)
  case (start w)
  then show ?case by simp
next
  case (sign_in qs w w1 pid ru cb r w2)
  then show ?case using Complete_keeps [OF sign_in.hyps(2,3)] by (auto simp: link_kept_def)
next
  case (link_it qs w w1 v j tok r w2)
  then show ?case using OI_Link_keeps [OF link_it.hyps(2,3)] by (auto simp: link_kept_def)
next
  case (unlink qs w w1 v q r w2)
  then have IH: "identity_owner w1 p i = Some u" and inv: "acs_inv (accounts (db w1))" and other: "(v, q) \<noteq> (u, p)" by auto
  from unlink.hyps(2) [unfolded Unlink_def] show ?case
  proof (cases rule: seqE)
    case (1 e)
    then show ?thesis using unlinkTarget_db [OF 1(1)] IH inv by (simp add: identity_owner_def)
  next
    case (2 a w3)
    obtain "as" where "as": "mem_ListAccountsByUser (accounts (db w1)) v = Inr as" "a \<in> set as" and q: "ac_Provider a = q"
      and db3: "db w3 = db w1" by (rule unlinkTarget_ok [OF 2(1)])
    have a: "acs_byID (accounts (db w1)) (ac_ID a) = Some a" "ac_UserID a = v" using acs_listed(1) [OF inv "as"(1)] "as"(2) by auto
    obtain j c where c: "acs_byID (accounts (db w1)) j = Some c" "providerKey c = (p, i)" "ac_UserID c = u"
      using IH identity_owner_iff [OF inv] by blast
    have "j \<noteq> ac_ID a" using a c other q by (auto simp: providerKey_def)
    from unlinkDelete_ok(1) [OF 2(2)] show ?thesis
    proof
      assume "db w2 = db w3"
      then show ?thesis using IH inv db3 by (simp add: identity_owner_def)
    next
      assume "\<exists>acs. mem_DeleteAccount (ac_ID a) (accounts (db w3)) = (r, acs) \<and> db w2 = (db w3)\<lparr>accounts := acs\<rparr>"
      then obtain acs where del: "mem_DeleteAccount (ac_ID a) (accounts (db w1)) = (r, acs)" and w2: "accounts (db w2) = acs"
        using db3 by auto
      have inv2: "acs_inv (accounts (db w2))" using acs_inv_delete [OF inv del] w2 by simp
      have "acs_byID (accounts (db w2)) j = Some c" using keeps_owner_delete [OF del c(1)] \<open>j \<noteq> ac_ID a\<close> w2 by simp
      then show ?thesis using c inv2 identity_owner_iff [OF inv2] by blast
    qed
  qed
next
  case (elsewhere qs w w1 w2)
  then show ?case by (simp add: identity_owner_def)
qed

section \<open>Unlinking\<close>

text \<open>
  Unlinking takes out exactly one link of the caller, one at the named provider, and never the last thing the
  account can be reached with: afterwards the user still has another linked provider or a password.
\<close>

theorem unlink_keeps_credential:
  assumes "Unlink u p w = (Inr (), w')" and "acs_inv (accounts (db w))"
  shows "\<exists>a as. mem_ListAccountsByUser (accounts (db w)) u = Inr as \<and> a \<in> set as \<and> ac_Provider a = p \<and>
    mem_ListAccountsByUser (accounts (db w')) u = Inr (filter (\<lambda>b. ac_ID b \<noteq> ac_ID a) as) \<and>
    (filter (\<lambda>b. ac_ID b \<noteq> ac_ID a) as \<noteq> [] \<or>
     (\<exists>usr. mem_GetUserByID (users (db w')) u = Inr usr \<and> u_PasswordHash usr \<noteq> ''''))"
proof -
  from assms(1) obtain a w1 where t: "unlinkTarget u p w = (Inr a, w1)" and d: "unlinkDelete u p a w1 = (Inr (), w')"
    unfolding Unlink_def by (rule seq_okE)
  obtain "as" where "as": "mem_ListAccountsByUser (accounts (db w)) u = Inr as" "a \<in> set as" "ac_Provider a = p" and db: "db w1 = db w"
    and one: "length as = 1 \<longrightarrow> (\<exists>usr. mem_GetUserByID (users (db w)) u = Inr usr \<and> u_PasswordHash usr \<noteq> '''')"
    by (rule unlinkTarget_ok [OF t])
  obtain acs where del: "mem_DeleteAccount (ac_ID a) (accounts (db w)) = (Inr (), acs)" and w': "db w' = (db w)\<lparr>accounts := acs\<rparr>"
    using unlinkDelete_ok(2) [OF d] db by auto
  have listed: "mem_ListAccountsByUser acs u = Inr (filter (\<lambda>b. ac_ID b \<noteq> ac_ID a) as)"
    using account_tab.delete_listed [OF assms(2) "as"(1,2) del] by simp
  moreover have "filter (\<lambda>b. ac_ID b \<noteq> ac_ID a) as \<noteq> [] \<or> (\<exists>usr. mem_GetUserByID (users (db w')) u = Inr usr \<and> u_PasswordHash usr \<noteq> '''')"
  proof (cases "length as = 1")
    case True
    then show ?thesis using one w' by simp
  next
    case False
    then show ?thesis using account_tab.one_remains [OF assms(2) "as"(1,2) _ del] listed by auto
  qed
  ultimately show ?thesis using "as" w' by auto
qed

text \<open>
  The rule is checked before the deletion and not again: of a user without a password and with two links, two
  requests that both look before either deletes take both links, and nobody can sign in any more.
\<close>

lemma concurrent_unlinks_strand_account:
  assumes inv: "acs_inv (accounts (db w))" and two: "mem_ListAccountsByUser (accounts (db w)) u = Inr [a, b]"
    and "faults w = []" and "ac_Provider a \<noteq> ac_Provider b"
  shows "\<exists>w3. unlinkTarget u (ac_Provider a) w = (Inr a, w) \<and> unlinkTarget u (ac_Provider b) w = (Inr b, w) \<and>
    unlinkDelete u (ac_Provider b) b (snd (unlinkDelete u (ac_Provider a) a w)) = (Inr (), w3) \<and>
    mem_ListAccountsByUser (accounts (db w3)) u = Inr [] \<and> users (db w3) = users (db w)"
proof -
  have look: "unlinkTarget u (ac_Provider a) w = (Inr a, w)" "unlinkTarget u (ac_Provider b) w = (Inr b, w)"
    using two assms(3,4) by (simp_all add: unlinkTarget_def ListAccountsByUser_def seq_def on_def ret_def)
  obtain x acs1 where d1: "mem_DeleteAccount (ac_ID a) (accounts (db w)) = (x, acs1)" by fastforce
  obtain y acs2 where d2: "mem_DeleteAccount (ac_ID b) acs1 = (y, acs2)" by fastforce
  note gone = account_tab.two_deletions_empty [OF inv two d1 d2]
  have 1: "db (snd (unlinkDelete u (ac_Provider a) a w)) = (db w)\<lparr>accounts := acs1\<rparr>"
    "faults (snd (unlinkDelete u (ac_Provider a) a w)) = []"
    using d1 gone(1) assms(3) by (simp_all add: unlinkDelete_def DeleteAccount_def OI_logEvent_def run_defs)
  have "\<exists>w3. unlinkDelete u (ac_Provider b) b (snd (unlinkDelete u (ac_Provider a) a w)) = (Inr (), w3) \<and>
    db w3 = (db w)\<lparr>accounts := acs2\<rparr>"
    using d2 gone(2) 1 by (simp add: unlinkDelete_def DeleteAccount_def OI_logEvent_def run_defs)
  then show ?thesis using look gone(3) by fastforce
qed

section \<open>Refusals\<close>

text \<open>
  What happens to an identity the store does not know is decided by the host's policy alone: without an address
  it is refused; with the address of an existing account it is refused unless the host links by verified address and
  the provider vouches for the address; without one it is refused when sign-up is disabled. A refusal changes
  nothing in the stores.
\<close>

theorem unknown_identity_refused:
  assumes "mem_GetAccountByProvider (accounts (db w)) (pv_ID p) (id_Subject i) = Inl ErrNotFound" and "faults w = []"
    and "mem_GetUserByEmail (users (db w)) (id_Email i) = r" and "r \<noteq> Inl Panic"
  shows "OI_resolve s p i tok w =
    (if id_Email i = '''' then (Inl (Oidc ErrNoEmail), w)
     else case r of
       Inl _ \<Rightarrow> if og_DisableSignUp (oi_cfg s) then (Inl (Oidc Oidc_ErrSignUpDisabled), w) else OI_signUp s p i tok w
     | Inr u \<Rightarrow>
         if og_Linking (oi_cfg s) = LinkingManual then (Inl (Oidc ErrAccountNotLinked), w)
         else if \<not> id_EmailVerified i then (Inl (Oidc ErrProviderEmailUnverified), w)
         else seq (link s (u_ID u) p i tok) (\<lambda>acct.
              ret \<lparr>or_User = u, or_Account = acct, or_Identity = i, or_CreatedUser = False\<rparr>) w)"
proof -
  have "e = ErrNotFound" if "r = Inl e" for e
    using that assms(3,4) by (auto simp: mem_GetUserByEmail_def row_via_def split: option.splits)
  then show ?thesis
    using assms linking_policy.exhaust [of "og_Linking (oi_cfg s)"]
    by (auto simp: OI_resolve_def resolveUnknown_def GetAccountByProvider_def GetUserByEmail_def on_def raise_def split: sum.splits)
qed

text \<open>
  With a transaction runner, a sign-in that fails, at whatever step and for whatever fault, leaves the stores as
  they were: no account without its link, no link without its account.
\<close>

theorem failed_sign_in_changes_nothing:
  assumes "Complete s pid ru cb w = (Inl e, w')" and "oi_Tx s" shows "db w' = db w"
  using assms by (rule Complete_error(2))

section \<open>The provider's own tokens\<close>

definition holds_tokens :: "oidc_service \<Rightarrow> oauth_token \<Rightarrow> account \<Rightarrow> bool" where
  "holds_tokens s tok a \<longleftrightarrow> ProviderTokens s a = Inr (ot_AccessToken tok, ot_RefreshToken tok)"

definition keepable :: "oidc_service \<Rightarrow> oauth_token \<Rightarrow> bool" where
  "keepable s tok \<longleftrightarrow> aead_correct (oi_aead s) \<and> length (og_ProviderTokenKey (oi_cfg s)) = 32 \<and>
     ot_AccessToken tok \<noteq> '''' \<and> ot_RefreshToken tok \<noteq> ''''"

lemma encrypt_decrypts:
  assumes "encrypt_unless_empty s t old w = (Inr enc, w')" and "t \<noteq> ''''" and "aead_correct (oi_aead s)"
    and "length (og_ProviderTokenKey (oi_cfg s)) = 32"
  shows "decrypt_unless_empty s enc = Inr t"
proof -
  have "EncryptSecret (oi_aead s) (og_ProviderTokenKey (oi_cfg s)) t w = (Inr enc, w')"
    using assms(1,2) by (simp add: encrypt_unless_empty_def)
  moreover from this have "length enc > 0" using assms(4) by (auto simp: EncryptSecret_def NonceSize_def)
  ultimately show ?thesis
    using assms(3,4) by (auto simp: decrypt_unless_empty_def EncryptSecret_def DecryptSecret_def aead_correct_def NonceSize_def)
qed

lemma attachTokens_holds:
  assumes "attachTokens s a (Some tok) w = (Inr b, w')" and "keepable s tok" shows "holds_tokens s tok b"
proof -
  have key: "length (og_ProviderTokenKey (oi_cfg s)) = 32" using assms(2) by (simp add: keepable_def)
  then have "og_ProviderTokenKey (oi_cfg s) \<noteq> []" by auto
  with assms(1) obtain acc ref w1 w2 where e: "encrypt_unless_empty s (ot_AccessToken tok) (ac_AccessTokenEncrypted a) w = (Inr acc, w1)"
    "encrypt_unless_empty s (ot_RefreshToken tok) (ac_RefreshTokenEncrypted a) w1 = (Inr ref, w2)"
    and b: "ac_AccessTokenEncrypted b = acc" "ac_RefreshTokenEncrypted b = ref"
    by (auto simp: attachTokens_def Let_def elim!: seq_okE split: option.splits)
  show ?thesis
    using encrypt_decrypts [OF e(1)] encrypt_decrypts [OF e(2)] assms(2) key b
    by (auto simp: holds_tokens_def ProviderTokens_def keepable_def)
qed

lemma newAccount_holds: "newAccount s u p i (Some tok) w = (Inr a, w') \<Longrightarrow> keepable s tok \<Longrightarrow> holds_tokens s tok a"
  unfolding newAccount_def by (auto dest!: attachTokens_holds)

lemma refreshAccount_holds: "refreshAccount s b i (Some tok) w = (Inr a, w') \<Longrightarrow> keepable s tok \<Longrightarrow> holds_tokens s tok a"
  unfolding refreshAccount_def by (auto dest!: attachTokens_holds)

lemma OI_resolve_holds:
  assumes "OI_resolve s p i (Some tok) w = (Inr x, w')" and "keepable s tok" shows "holds_tokens s tok (or_Account x)"
proof -
  have up: "holds_tokens s tok (or_Account x)" if "OI_signUp s p i (Some tok) w1 = (Inr x, w')" for w1
    using that assms(2) unfolding OI_signUp_def Let_def
    by (auto elim!: RunInTx_ok dest!: newAccount_holds)
  show ?thesis
    using assms up unfolding OI_resolve_def resolveUnknown_def resolveReturning_def link_def
    by (auto split: if_splits dest!: newAccount_holds refreshAccount_holds)
qed

text \<open>
  With a token key set, the provider's tokens survive the store: after a completed sign-in the row kept for the
  identity decrypts to the very access and refresh token of the exchange, whatever was kept before.
\<close>

theorem provider_tokens_roundtrip:
  assumes "Complete s pid ru cb w = (Inr x, w')" and "oi_providers s pid = Some p"
    and "ol_Exchange (oi_lib s) (oauthConfig p ru) (cb_Code cb) (cb_CodeVerifier cb) = Inr tok" and "keepable s tok"
  shows "\<exists>a. mem_GetAccountByProvider (accounts (db w')) (ac_Provider (or_Account x)) (ac_ProviderAccountID (or_Account x)) = Inr a \<and>
    ProviderTokens s a = Inr (ot_AccessToken tok, ot_RefreshToken tok)"
proof -
  obtain w1 where "OI_resolve s p (or_Identity x) (Some tok) w1 = (Inr x, w')"
    and "returning_case p (db w) x (db w') \<or> linking_case s p (db w) x (db w') \<or> sign_up_case s p (db w) x (db w')"
    using Complete_ok [OF assms(1)] assms(2,3) by (metis (no_types, lifting) Inr_inject option.inject)
  then have "holds_tokens s tok (or_Account x)" and "\<exists>acs. accounts (db w') = acs \<and>
      (mem_UpdateAccount (or_Account x) (accounts (db w)) = (Inr (), acs) \<or> mem_CreateAccount (or_Account x) (accounts (db w)) = (Inr (), acs))"
    using OI_resolve_holds [OF _ assms(4)]
    by (auto simp: returning_case_def linking_case_def sign_up_case_def new_link_def)
  then show ?thesis using created_link updated_link by (auto simp: holds_tokens_def)
qed

section \<open>The properties at concrete inputs\<close>

definition demo_oidc_lib :: oidc_lib where
  "demo_oidc_lib = \<lparr>ol_Verifier = (\<lambda>_. ''verifier''), ol_AuthCodeURL = (\<lambda>_ state _ _. ''https://idp/?state='' @ state),
     ol_Exchange = (\<lambda>_ code _. Inr \<lparr>ot_AccessToken = code, ot_RefreshToken = ''r1'', ot_Expiry = None\<rparr>),
     ol_NewRequest = (\<lambda>_. None),
     ol_Do = (\<lambda>_ t. Inr \<lparr>ui_StatusCode = 200, ui_Status = ''200 OK'', ui_Body = Inr
       [''sub'' \<mapsto> JString ''42'', ''email'' \<mapsto> JString ''A@x'', ''email_verified'' \<mapsto> JBool True]\<rparr>)\<rparr>"

definition demo_oidc_service :: oidc_service where
  "demo_oidc_service = \<lparr>oi_Tx = True, oi_providers = [''google'' \<mapsto> Google ''cid'' ''secret''],
     oi_cfg = \<lparr>og_Linking = LinkingVerifiedEmail, og_DisableSignUp = False, og_ProviderTokenKey = replicate 32 0\<rparr>,
     oi_aead = demo_aead, oi_lib = demo_oidc_lib\<rparr>"

definition demo_callback :: callback where
  "demo_callback = \<lparr>cb_Code = ''c1'', cb_State = ''s'', cb_ExpectedState = ''s'', cb_CodeVerifier = ''verifier''\<rparr>"

definition demo_account :: account where
  "demo_account = \<lparr>ac_ID = ''a1'', ac_UserID = ''u1'', ac_Provider = ''google'', ac_ProviderAccountID = ''42'', ac_Email = ''a@x'',
     ac_EmailVerified = True, ac_AccessTokenEncrypted = [], ac_RefreshTokenEncrypted = [], ac_TokenExpiresAt = None,
     ac_Scopes = [], ac_CreatedAt = 0, ac_UpdatedAt = 0\<rparr>"

definition demo_linked_world :: world where
  "demo_linked_world = demo_world\<lparr>db := (db demo_world)\<lparr>accounts := snd (mem_CreateAccount demo_account NewAccountStore)\<rparr>\<rparr>"

lemmas demo_oidc_defs = demo_oidc_lib_def demo_oidc_service_def demo_callback_def demo_account_def demo_linked_world_def
  Google_def no_ids_def append_id_def providerKey_def

lemma demo_oidc_inv:
  "acs_inv (accounts (db demo_world))" "acs_inv (accounts (db demo_linked_world))" "us_inv (users (db demo_world))"
proof -
  have new: "mem_CreateAccount demo_account NewAccountStore = (Inr (), accounts (db demo_linked_world))"
    by (simp add: demo_linked_world_def mem_CreateAccount_def NewAccountStore_def)
  show "acs_inv (accounts (db demo_linked_world))"
    by (rule acs_inv_create [OF acs_inv_new _ new]) (simp add: NewAccountStore_def)
  have "accounts (db demo_world) = NewAccountStore" by (simp add: demo_world_def empty_db_def)
  then show "acs_inv (accounts (db demo_world))" by (simp add: acs_inv_new)
  show "us_inv (users (db demo_world))" by (simp add: us_inv_def demo_defs mem_defs points_into_def)
qed

lemmas demo_oidc_run = Complete_def Provider_def fetchIdentity_def OI_resolve_def resolveUnknown_def resolveReturning_def link_def
  newAccount_def refreshAccount_def attachTokens_def encrypt_unless_empty_def EncryptSecret_def OI_logEvent_def
  standardClaims_def string_claim_def row_via_def Let_def

lemma demo_address: "NormalizeEmail ''A@x'' = ''a@x''" "NormalizeEmail ''a@x'' = ''a@x''"
  by code_simp+

lemma demo_token: "keepable demo_oidc_service \<lparr>ot_AccessToken = ''c1'', ot_RefreshToken = ''r1'', ot_Expiry = None\<rparr>"
proof -
  have "char_of_byte \<circ> byte_of = id" by (simp add: fun_eq_iff)
  then show ?thesis by (simp add: keepable_def demo_oidc_service_def demo_aead_def aead_correct_def bytes_of_def)
qed

lemma demo_links: "\<exists>x w'. Complete demo_oidc_service ''google'' ''cb'' demo_callback demo_world = (Inr x, w')"
  by (simp add: demo_oidc_run demo_oidc_defs demo_defs run_defs mem_defs demo_address)

lemma demo_returns:
  "\<exists>x w'. Complete demo_oidc_service ''google'' ''cb'' demo_callback demo_linked_world = (Inr x, w') \<and>
     providerKey (or_Account x) = (''google'', ''42'')"
  by (simp add: demo_oidc_run demo_oidc_defs demo_defs run_defs mem_defs demo_address)

theorem provider_sign_in_sound_witness:
  "\<exists>x w'. Complete demo_oidc_service ''google'' ''cb'' demo_callback demo_world = (Inr x, w') \<and>
     ac_UserID (or_Account x) = u_ID (or_User x)"
proof -
  obtain x w' where run: "Complete demo_oidc_service ''google'' ''cb'' demo_callback demo_world = (Inr x, w')"
    using demo_links by blast
  from provider_sign_in_sound [OF run demo_oidc_inv(1,3)] have "ac_UserID (or_Account x) = u_ID (or_User x)" by blast
  with run show ?thesis by blast
qed

theorem provider_tokens_roundtrip_witness:
  "\<exists>x w' a. Complete demo_oidc_service ''google'' ''cb'' demo_callback demo_world = (Inr x, w') \<and>
     ProviderTokens demo_oidc_service a = Inr (''c1'', ''r1'')"
proof -
  obtain x w' where run: "Complete demo_oidc_service ''google'' ''cb'' demo_callback demo_world = (Inr x, w')"
    using demo_links by blast
  have p: "oi_providers demo_oidc_service ''google'' = Some (Google ''cid'' ''secret'')" by (simp add: demo_oidc_service_def)
  have ex: "ol_Exchange (oi_lib demo_oidc_service) (oauthConfig (Google ''cid'' ''secret'') ''cb'') (cb_Code demo_callback)
      (cb_CodeVerifier demo_callback) = Inr \<lparr>ot_AccessToken = ''c1'', ot_RefreshToken = ''r1'', ot_Expiry = None\<rparr>"
    by (simp add: demo_oidc_service_def demo_oidc_lib_def demo_callback_def)
  from provider_tokens_roundtrip [OF run p ex demo_token] run show ?thesis by auto
qed

theorem linked_identity_never_moves_witness:
  "\<exists>w'. oidc_trace demo_oidc_service [Signs_in ''google'' ''cb'' demo_callback, Unlinks ''u2'' ''google''] demo_linked_world w' \<and>
     identity_owner w' ''google'' ''42'' = Some ''u1''"
proof -
  obtain x w1 where run: "Complete demo_oidc_service ''google'' ''cb'' demo_callback demo_linked_world = (Inr x, w1)"
    and key: "providerKey (or_Account x) = (''google'', ''42'')"
    using demo_returns by blast
  have bound: "acs_byProvider (accounts (db demo_linked_world)) (''google'', ''42'') \<noteq> None"
    by (simp add: demo_oidc_defs demo_defs mem_CreateAccount_def)
  obtain r w2 where un: "Unlink ''u2'' ''google'' w1 = (r, w2)" by fastforce
  have "oidc_trace demo_oidc_service ([] @ [Signs_in ''google'' ''cb'' demo_callback]) demo_linked_world w1"
    by (rule oidc_trace.sign_in [OF oidc_trace.start run]) (use key bound in \<open>simp add: fresh_link_def\<close>)
  from oidc_trace.unlink [OF this un]
  have tr: "oidc_trace demo_oidc_service [Signs_in ''google'' ''cb'' demo_callback, Unlinks ''u2'' ''google''] demo_linked_world w2" by simp
  have "identity_owner demo_linked_world ''google'' ''42'' = Some ''u1''"
    by (simp add: identity_owner_def demo_oidc_defs demo_defs mem_defs row_via_def)
  from linked_identity_never_moves [OF tr demo_oidc_inv(2) this] tr show ?thesis by auto
qed

theorem unlink_keeps_credential_witness:
  "\<exists>w'. Unlink ''u1'' ''google'' demo_linked_world = (Inr (), w') \<and>
     (\<exists>usr. mem_GetUserByID (users (db w')) ''u1'' = Inr usr \<and> u_PasswordHash usr \<noteq> '''')"
proof -
  have "\<exists>w'. Unlink ''u1'' ''google'' demo_linked_world = (Inr (), w')"
    by (simp add: Unlink_def unlinkTarget_def unlinkDelete_def OI_logEvent_def demo_oidc_defs demo_defs run_defs mem_defs)
  then obtain w' where run: "Unlink ''u1'' ''google'' demo_linked_world = (Inr (), w')" by blast
  have "mem_ListAccountsByUser (accounts (db demo_linked_world)) ''u1'' = Inr [demo_account]"
    by (simp add: demo_oidc_defs demo_defs mem_defs)
  with unlink_keeps_credential [OF run demo_oidc_inv(2)] run show ?thesis by auto
qed

theorem unknown_identity_refused_witness:
  "OI_resolve demo_oidc_service (Google ''cid'' ''secret'')
     \<lparr>id_Provider = ''google'', id_Subject = ''7'', id_Email = ''a@x'', id_EmailVerified = False, id_Name = '''', id_Raw = Map.empty\<rparr>
     None demo_world = (Inl (Oidc ErrProviderEmailUnverified), demo_world)"
proof -
  let ?i = "\<lparr>id_Provider = ''google'', id_Subject = ''7'', id_Email = ''a@x'', id_EmailVerified = False, id_Name = '''', id_Raw = Map.empty\<rparr>"
  have "mem_GetAccountByProvider (accounts (db demo_world)) (pv_ID (Google ''cid'' ''secret'')) (id_Subject ?i) = Inl ErrNotFound"
    and "faults demo_world = []" and "mem_GetUserByEmail (users (db demo_world)) (id_Email ?i) = Inr demo_user"
    by (simp_all add: demo_defs mem_defs row_via_def)
  from unknown_identity_refused [OF this, where s = demo_oidc_service and tok = None] show ?thesis by (simp add: demo_oidc_service_def)
qed

definition demo_failing_world :: world where
  "demo_failing_world = (world0 0)\<lparr>faults := replicate 10 None @ [Some ''boom'']\<rparr>"

theorem failed_sign_in_changes_nothing_witness:
  "\<exists>w'. Complete demo_oidc_service ''google'' ''cb'' demo_callback demo_failing_world = (Inl (Fault ''boom''), w') \<and>
     db w' = db demo_failing_world"
proof -
  have "\<exists>w'. Complete demo_oidc_service ''google'' ''cb'' demo_callback demo_failing_world = (Inl (Fault ''boom''), w')"
    by (simp add: demo_oidc_run demo_oidc_defs OI_signUp_def RunInTx_def demo_failing_world_def demo_defs remote_def port_def rd_def wr_def
        rand_read_def numeral_eq_Suc NewID_def run_defs mem_defs demo_address with_now_eq log_def)
  then obtain w' where run: "Complete demo_oidc_service ''google'' ''cb'' demo_callback demo_failing_world = (Inl (Fault ''boom''), w')" by blast
  have "oi_Tx demo_oidc_service" by (simp add: demo_oidc_service_def)
  from failed_sign_in_changes_nothing [OF run this] run show ?thesis by blast
qed

text \<open>
  Linking by verified address asks about the provider's claim only: it joins the identity to an account whose own
  address nobody has verified, and whoever registered that account keeps its password.
\<close>

definition demo_squatted_world :: world where
  "demo_squatted_world = (world0 0)\<lparr>db := empty_db\<lparr>users := snd (mem_CreateUser (demo_user\<lparr>u_EmailVerified := False\<rparr>) NewUserStore)\<rparr>\<rparr>"

lemma linking_joins_unverified_account:
  "\<exists>x w'. Complete demo_oidc_service ''google'' ''cb'' demo_callback demo_squatted_world = (Inr x, w') \<and>
     \<not> u_EmailVerified (or_User x) \<and> \<not> or_CreatedUser x \<and>
     (\<exists>usr. mem_GetUserByEmail (users (db w')) ''a@x'' = Inr usr \<and> \<not> u_EmailVerified usr \<and> u_PasswordHash usr = ''h:pw'')"
  by (simp add: demo_squatted_world_def demo_oidc_run demo_oidc_defs demo_defs run_defs mem_defs demo_address row_via_def)

end
