(* ===== verification/Passkey.thy ===== *)
theory Passkey
  imports Contracts
begin

text \<open>
  Package \<open>passkey\<close>: the WebAuthn ceremonies (\<open>passkey/passkey.go\<close>, \<open>passkey/ceremony.go\<close>). The WebAuthn library, which
  makes challenges and verifies responses, is a parameter, as is the JSON encoding of its types; what this package
  relies on of it is \<open>wan_correct\<close>. Definitions whose Go name a sibling package uses too start with \<open>PK_\<close>.
\<close>

section \<open>What the library's types carry\<close>

text \<open>
  Of each type the fields the package reads or writes; the others are one opaque field. A zero \<open>Expires\<close> is \<open>None\<close>.
\<close>

record wan_session =
  ws_Origin :: string
  ws_RelyingPartyID :: string
  ws_Expires :: "time option"
  ws_rest :: string

record wan_credential =
  wn_ID :: "byte list"
  wn_BackupEligible :: bool
  wn_BackupState :: bool
  wn_Transport :: "string list"
  wn_CloneWarning :: bool
  wn_rest :: string

record wan_assertion =
  wa_UserVerified :: bool
  wa_rest :: string

record webAuthnUser =
  wu_u :: user
  wu_creds :: "wan_credential list"

definition WebAuthnID :: "webAuthnUser \<Rightarrow> string" where "WebAuthnID w = u_ID (wu_u w)"
definition WebAuthnName :: "webAuthnUser \<Rightarrow> string" where "WebAuthnName w = u_Email (wu_u w)"
definition WebAuthnDisplayName :: "webAuthnUser \<Rightarrow> string" where "WebAuthnDisplayName w = u_Email (wu_u w)"
definition WebAuthnCredentials :: "webAuthnUser \<Rightarrow> wan_credential list" where "WebAuthnCredentials w = wu_creds w"

type_synonym web_request = string

definition ceremonyRegistration :: string where "ceremonyRegistration = ''registration''"
definition ceremonyLogin :: string where "ceremonyLogin = ''login''"

record storedCeremony =
  cy_Kind :: string
  cy_Session :: wan_session

text \<open>
  The three \<open>Begin\<close> functions take 32 random bytes for the challenge, and the clock. \<open>wl_Discover\<close> is what
  \<open>ValidateDiscoverableLogin\<close> does before it calls its handler, with the raw id and the user handle it calls it with;
  \<open>wl_HandlerFailed\<close> is how it wraps the handler's error.
\<close>

record wan_lib =
  wl_BeginRegistration :: "byte list \<Rightarrow> time \<Rightarrow> webAuthnUser \<Rightarrow> string \<Rightarrow> string list \<Rightarrow> error + (string \<times> wan_session)"
  wl_FinishRegistration :: "time \<Rightarrow> webAuthnUser \<Rightarrow> wan_session \<Rightarrow> web_request \<Rightarrow> error + wan_credential"
  wl_BeginLogin :: "byte list \<Rightarrow> time \<Rightarrow> webAuthnUser \<Rightarrow> string \<Rightarrow> error + (string \<times> wan_session)"
  wl_BeginDiscoverableLogin :: "byte list \<Rightarrow> time \<Rightarrow> string \<Rightarrow> error + (string \<times> wan_session)"
  wl_ParseResponse :: "web_request \<Rightarrow> error + wan_assertion"
  wl_ValidateLogin :: "time \<Rightarrow> webAuthnUser \<Rightarrow> wan_session \<Rightarrow> wan_assertion \<Rightarrow> error + wan_credential"
  wl_Discover :: "wan_session \<Rightarrow> wan_assertion \<Rightarrow> error + (byte list \<times> string)"
  wl_HandlerFailed :: "error \<Rightarrow> error"
  wl_ValidateDiscoverable :: "time \<Rightarrow> webAuthnUser \<Rightarrow> wan_session \<Rightarrow> wan_assertion \<Rightarrow> error + wan_credential"
  wl_Descriptor :: "wan_credential \<Rightarrow> string"
  wl_Marshal :: "wan_credential \<Rightarrow> error + byte list"
  wl_Unmarshal :: "byte list \<Rightarrow> error + wan_credential"
  wl_MarshalCeremony :: "storedCeremony \<Rightarrow> error + byte list"
  wl_UnmarshalCeremony :: "byte list \<Rightarrow> error + storedCeremony"
  wl_MarshalOptions :: "string \<Rightarrow> error + string"

section \<open>Configuration and service (passkey.go)\<close>

datatype clone_action = CloneReject | CloneFlag

definition VerificationRequired :: string where "VerificationRequired = ''required''"

record passkey_config =
  kc_RPDisplayName :: string
  kc_RPID :: string
  kc_RPOrigins :: "string list"
  kc_UserVerification :: string
  kc_OnClone :: clone_action
  kc_Timeout :: duration

definition kc_withDefaults :: "passkey_config \<Rightarrow> passkey_config" where
  "kc_withDefaults c =
     (let c = (if kc_UserVerification c = '''' then c\<lparr>kc_UserVerification := VerificationRequired\<rparr> else c)
      in if kc_Timeout c \<le> 0 then c\<lparr>kc_Timeout := 60 * second\<rparr> else c)"

record passkey_service =
  ks_web :: wan_lib
  ks_cfg :: passkey_config

text \<open>\<open>new\<close> is \<open>webauthn.New\<close> of the library.\<close>

definition PK_NewService :: "(passkey_config \<Rightarrow> error + wan_lib) \<Rightarrow> passkey_config \<Rightarrow> error + passkey_service" where
  "PK_NewService new cfg =
     (if kc_RPID cfg = '''' then Inl (Passkey ErrConfig)
      else if length (kc_RPOrigins cfg) = 0 then Inl (Fault ''authit/passkey: at least one RPOrigin is required'')
      else let cfg = kc_withDefaults cfg in
           (case new cfg of Inl e \<Rightarrow> Inl e | Inr web \<Rightarrow> Inr \<lparr>ks_web = web, ks_cfg = cfg\<rparr>))"

section \<open>Ceremonies (ceremony.go)\<close>

record passkey_result =
  pk_User :: user
  pk_Credential :: webauthn_credential
  pk_UserVerified :: bool

definition wrapCeremony :: "error \<Rightarrow> error" where "wrapCeremony e = Wrapped (Passkey ErrCeremony) e"

definition verified :: "error + 'a \<Rightarrow> 'a prog" where "verified r = on (lift r) (\<lambda>e. raise (wrapCeremony e)) ret"

definition PK_log :: "event_type \<Rightarrow> string \<Rightarrow> string \<Rightarrow> string \<Rightarrow> unit prog" where
  "PK_log t userID email credentialID =
     log ((event_of t (if t = EventPasskeyCloneWarning then ResultDenied else ResultSuccess))
       \<lparr>ev_ActorID := userID, ev_Email := email, ev_Metadata := [(''credential_id'', MStr credentialID)]\<rparr>)"

text \<open>The loop of \<open>loadUser\<close>.\<close>

fun unmarshal_each :: "wan_lib \<Rightarrow> webauthn_credential list \<Rightarrow> error + wan_credential list" where
  "unmarshal_each l [] = Inr []"
| "unmarshal_each l (c # cs) =
     (case wl_Unmarshal l (wc_Data c) of
        Inl e \<Rightarrow> Inl e
      | Inr cred \<Rightarrow> (case unmarshal_each l cs of Inl e \<Rightarrow> Inl e | Inr creds \<Rightarrow> Inr (cred # creds)))"

definition loadUser :: "passkey_service \<Rightarrow> string \<Rightarrow> (webAuthnUser \<times> webauthn_credential list) prog" where
  "loadUser s userID =
     seq (GetUserByID userID) (\<lambda>u.
     seq (ListWebAuthnCredentialsByUser userID) (\<lambda>stored.
     seq (lift (unmarshal_each (ks_web s) stored)) (\<lambda>creds.
     ret (\<lparr>wu_u = u, wu_creds = creds\<rparr>, stored))))"

definition issueCeremony ::
  "passkey_service \<Rightarrow> string \<Rightarrow> wan_session \<Rightarrow> string \<Rightarrow> string option \<Rightarrow> (string \<times> string) prog" where
  "issueCeremony s options session kind userID =
     seq (lift (wl_MarshalOptions (ks_web s) options)) (\<lambda>opts.
     seq (lift (wl_MarshalCeremony (ks_web s) \<lparr>cy_Kind = kind, cy_Session = session\<rparr>)) (\<lambda>data.
     seq GenerateOpaqueToken (\<lambda>(raw, hash).
     seq NewID (\<lambda>id. with_now (\<lambda>now.
     let expires = (case ws_Expires session of None \<Rightarrow> now + kc_Timeout (ks_cfg s) | Some t \<Rightarrow> t) in
     seq (CreateWebAuthnChallenge
            \<lparr>ch_ID = id, ch_TokenHash = hash, ch_UserID = userID, ch_Data = data, ch_ExpiresAt = expires,
             ch_CreatedAt = now\<rparr>) (\<lambda>_.
     ret (opts, raw)))))))"

definition consumeCeremony :: "passkey_service \<Rightarrow> string \<Rightarrow> string \<Rightarrow> wan_session prog" where
  "consumeCeremony s sess kind =
     (if length sess = 0 then raise (Passkey ErrSession)
      else on (ConsumeWebAuthnChallenge (HashToken sess))
        (\<lambda>e. if e = ErrNotFound then raise (Passkey ErrSession) else raise e) (\<lambda>row. with_now (\<lambda>now.
      if After now (ch_ExpiresAt row) then raise (Passkey ErrSession)
      else (case wl_UnmarshalCeremony (ks_web s) (ch_Data row) of
              Inl _ \<Rightarrow> raise (Passkey ErrSession)
            | Inr held \<Rightarrow>
                if cy_Kind held \<noteq> kind then raise (Passkey ErrSession)
                else ret ((cy_Session held)\<lparr>ws_Origin := '''', ws_RelyingPartyID := ''''\<rparr>)))))"

section \<open>Registration\<close>

definition CredentialDescriptors :: "wan_lib \<Rightarrow> webAuthnUser \<Rightarrow> string list" where
  "CredentialDescriptors l w = map (wl_Descriptor l) (wu_creds w)"

definition BeginRegistration :: "passkey_service \<Rightarrow> string \<Rightarrow> (string \<times> string) prog" where
  "BeginRegistration s userID =
     seq (loadUser s userID) (\<lambda>(user, _). with_now (\<lambda>now.
     seq (rand_read 32) (\<lambda>buf.
     seq (lift (wl_BeginRegistration (ks_web s) buf now user (kc_UserVerification (ks_cfg s))
                  (CredentialDescriptors (ks_web s) user))) (\<lambda>(creation, session).
     issueCeremony s creation session ceremonyRegistration (Some userID)))))"

definition applyCredential :: "wan_lib \<Rightarrow> webauthn_credential \<Rightarrow> wan_credential \<Rightarrow> error + webauthn_credential" where
  "applyCredential l row cred =
     (case wl_Marshal l cred of
        Inl e \<Rightarrow> Inl e
      | Inr data \<Rightarrow> Inr (row\<lparr>wc_CredentialID := wn_ID cred, wc_Data := data, wc_BackupEligible := wn_BackupEligible cred,
            wc_BackupState := wn_BackupState cred, wc_Transports := wn_Transport cred,
            wc_UpdatedAt := (if wc_UpdatedAt row = zero_time then wc_CreatedAt row else wc_UpdatedAt row)\<rparr>))"

definition FinishRegistration ::
  "passkey_service \<Rightarrow> string \<Rightarrow> string \<Rightarrow> string \<Rightarrow> web_request \<Rightarrow> webauthn_credential prog" where
  "FinishRegistration s userID name sess r =
     seq (loadUser s userID) (\<lambda>(user, _).
     seq (consumeCeremony s sess ceremonyRegistration) (\<lambda>session. with_now (\<lambda>now.
     seq (verified (wl_FinishRegistration (ks_web s) now user session r)) (\<lambda>cred.
     seq (on (GetWebAuthnCredentialByCredentialID (wn_ID cred))
            (\<lambda>e. if e \<noteq> ErrNotFound then raise e else ret ()) (\<lambda>_. raise (Passkey ErrAlreadyRegistered))) (\<lambda>_.
     seq NewID (\<lambda>id.
     seq (lift (applyCredential (ks_web s)
            \<lparr>wc_ID = id, wc_UserID = userID, wc_CredentialID = [], wc_Data = [], wc_Name = name, wc_Transports = [],
             wc_BackupEligible = False, wc_BackupState = False, wc_CloneWarning = False, wc_LastUsedAt = None,
             wc_CreatedAt = now, wc_UpdatedAt = zero_time\<rparr> cred)) (\<lambda>row.
     seq (CreateWebAuthnCredential row) (\<lambda>_.
     seq (PK_log EventPasskeyRegistered userID (u_Email (wu_u user)) (wc_ID row)) (\<lambda>_.
     ret row)))))))))"

section \<open>Authentication\<close>

definition PK_BeginLogin :: "passkey_service \<Rightarrow> string \<Rightarrow> (string \<times> string) prog" where
  "PK_BeginLogin s userID =
     seq (loadUser s userID) (\<lambda>(user, stored). with_now (\<lambda>now.
     if length stored = 0 then raise (Passkey ErrNoCredentials)
     else seq (rand_read 32) (\<lambda>buf.
     seq (lift (wl_BeginLogin (ks_web s) buf now user (kc_UserVerification (ks_cfg s)))) (\<lambda>(assertion, session).
     issueCeremony s assertion session ceremonyLogin (Some userID)))))"

definition BeginDiscoverableLogin :: "passkey_service \<Rightarrow> (string \<times> string) prog" where
  "BeginDiscoverableLogin s = with_now (\<lambda>now.
     seq (rand_read 32) (\<lambda>buf.
     seq (lift (wl_BeginDiscoverableLogin (ks_web s) buf now (kc_UserVerification (ks_cfg s)))) (\<lambda>(assertion, session).
     issueCeremony s assertion session ceremonyLogin None)))"

definition assertionUserVerified :: "wan_assertion \<Rightarrow> bool" where
  "assertionUserVerified parsed = wa_UserVerified parsed"

text \<open>\<open>completeLogin\<close>: the counter check, and what a login writes.\<close>

definition cloneCheck :: "passkey_service \<Rightarrow> user \<Rightarrow> wan_credential \<Rightarrow> webauthn_credential \<Rightarrow> webauthn_credential prog" where
  "cloneCheck s u cred stored =
     (if \<not> wn_CloneWarning cred then ret stored
      else with_now (\<lambda>now.
        let stored = stored\<lparr>wc_CloneWarning := True, wc_UpdatedAt := now\<rparr> in
        seq (UpdateWebAuthnCredential stored) (\<lambda>_.
        seq (PK_log EventPasskeyCloneWarning (u_ID u) (u_Email u) (wc_ID stored)) (\<lambda>_.
        if kc_OnClone (ks_cfg s) = CloneReject then raise (Passkey ErrCloneWarning) else ret stored))))"

definition completeLogin :: "passkey_service \<Rightarrow> user \<Rightarrow> wan_credential \<Rightarrow> bool \<Rightarrow> passkey_result prog" where
  "completeLogin s u cred userVerified =
     on (GetWebAuthnCredentialByCredentialID (wn_ID cred))
       (\<lambda>e. if e = ErrNotFound then raise (Passkey ErrCredentialNotFound) else raise e) (\<lambda>stored.
     seq (cloneCheck s u cred stored) (\<lambda>stored. with_now (\<lambda>now.
     if kc_UserVerification (ks_cfg s) = VerificationRequired \<and> \<not> userVerified
     then raise (Passkey ErrUserVerificationRequired)
     else seq (lift (applyCredential (ks_web s) (stored\<lparr>wc_LastUsedAt := Some now, wc_UpdatedAt := now\<rparr>) cred)) (\<lambda>stored.
     seq (UpdateWebAuthnCredential stored) (\<lambda>_.
     seq (PK_log EventPasskeyLogin (u_ID u) (u_Email u) (wc_ID stored)) (\<lambda>_.
     ret \<lparr>pk_User = u, pk_Credential = stored, pk_UserVerified = userVerified\<rparr>))))))"

definition FinishLogin :: "passkey_service \<Rightarrow> string \<Rightarrow> string \<Rightarrow> web_request \<Rightarrow> passkey_result prog" where
  "FinishLogin s userID sess r =
     seq (loadUser s userID) (\<lambda>(user, _).
     seq (consumeCeremony s sess ceremonyLogin) (\<lambda>session. with_now (\<lambda>now.
     seq (verified (wl_ParseResponse (ks_web s) r)) (\<lambda>parsed.
     seq (verified (wl_ValidateLogin (ks_web s) now user session parsed)) (\<lambda>cred.
     completeLogin s (wu_u user) cred (assertionUserVerified parsed))))))"

text \<open>The handler given to \<open>ValidateDiscoverableLogin\<close>.\<close>

definition discoverUser :: "passkey_service \<Rightarrow> byte list \<Rightarrow> string \<Rightarrow> webAuthnUser prog" where
  "discoverUser s rawID userHandle =
     seq (GetWebAuthnCredentialByCredentialID rawID) (\<lambda>stored.
     if userHandle \<noteq> wc_UserID stored then raise (Passkey ErrCeremony)
     else seq (loadUser s (wc_UserID stored)) (\<lambda>(user, _). ret user))"

definition FinishDiscoverableLogin :: "passkey_service \<Rightarrow> string \<Rightarrow> web_request \<Rightarrow> passkey_result prog" where
  "FinishDiscoverableLogin s sess r =
     seq (consumeCeremony s sess ceremonyLogin) (\<lambda>session. with_now (\<lambda>now.
     seq (verified (wl_ParseResponse (ks_web s) r)) (\<lambda>parsed.
     seq (verified (wl_Discover (ks_web s) session parsed)) (\<lambda>(rawID, userHandle).
     on (discoverUser s rawID userHandle) (\<lambda>e. raise (wrapCeremony (wl_HandlerFailed (ks_web s) e))) (\<lambda>user.
     seq (verified (wl_ValidateDiscoverable (ks_web s) now user session parsed)) (\<lambda>cred.
     completeLogin s (wu_u user) cred (assertionUserVerified parsed)))))))"

section \<open>Management\<close>

definition PK_List :: "string \<Rightarrow> webauthn_credential list prog" where
  "PK_List userID = ListWebAuthnCredentialsByUser userID"

definition ownedCredential :: "string \<Rightarrow> string \<Rightarrow> webauthn_credential prog" where
  "ownedCredential userID credentialID =
     on (GetWebAuthnCredential credentialID)
       (\<lambda>e. if e = ErrNotFound then raise (Passkey ErrCredentialNotFound) else raise e) (\<lambda>c.
     if wc_UserID c \<noteq> userID then raise (Passkey ErrCredentialNotFound) else ret c)"

definition Rename :: "string \<Rightarrow> string \<Rightarrow> string \<Rightarrow> unit prog" where
  "Rename userID credentialID name =
     seq (ownedCredential userID credentialID) (\<lambda>c. with_now (\<lambda>now.
     UpdateWebAuthnCredential (c\<lparr>wc_Name := name, wc_UpdatedAt := now\<rparr>)))"

text \<open>\<open>Remove\<close>: what is read and decided, and the deletion.\<close>

definition removable :: "string \<Rightarrow> string \<Rightarrow> webauthn_credential prog" where
  "removable userID credentialID =
     seq (ownedCredential userID credentialID) (\<lambda>c.
     seq (ListWebAuthnCredentialsByUser userID) (\<lambda>all.
     if length all = 1
     then seq (GetUserByID userID) (\<lambda>u.
          if u_PasswordHash u = '''' then raise (Passkey Passkey_ErrLastCredential) else ret c)
     else ret c))"

definition removeNow :: "string \<Rightarrow> webauthn_credential \<Rightarrow> unit prog" where
  "removeNow userID c = seq (DeleteWebAuthnCredential (wc_ID c)) (\<lambda>_. PK_log EventPasskeyRemoved userID '''' (wc_ID c))"

definition Remove :: "string \<Rightarrow> string \<Rightarrow> unit prog" where
  "Remove userID credentialID = seq (removable userID credentialID) (\<lambda>c. removeNow userID c)"

section \<open>What the package relies on\<close>

text \<open>
  The library's documented behaviour: a validated assertion is by one of the credentials of the user it was given,
  and the JSON of a credential reads back as the credential.
\<close>

definition wan_correct :: "wan_lib \<Rightarrow> bool" where
  "wan_correct l \<longleftrightarrow>
     (\<forall>now u session a c. wl_ValidateLogin l now u session a = Inr c \<longrightarrow> wn_ID c \<in> wn_ID ` set (wu_creds u)) \<and>
     (\<forall>now u session a c. wl_ValidateDiscoverable l now u session a = Inr c \<longrightarrow> wn_ID c \<in> wn_ID ` set (wu_creds u)) \<and>
     (\<forall>c d. wl_Marshal l c = Inr d \<longrightarrow> wl_Unmarshal l d = Inr c)"

lemma verifiedE [elim!]:
  assumes "verified x w = (r, w')"
  obtains e where "x = Inl e" and "r = Inl (wrapCeremony e)" and "w' = w"
  | y where "x = Inr y" and "r = Inr y" and "w' = w"
  using assms by (auto simp: verified_def on_def lift_def raise_def ret_def split: sum.splits)

lemma verified_run [simp]: "verified (Inr y) w = (Inr y, w)" "verified (Inl e) w = (Inl (wrapCeremony e), w)"
  by (simp_all add: verified_def on_def lift_def raise_def ret_def)

end
