(* ===== verification/PasskeyProps.thy ===== *)
theory PasskeyProps
  imports Passkey UserService Formats "HOL-Library.Multiset"
begin

text \<open>
  What the WebAuthn ceremonies guarantee: what a completed login has shown and leaves behind, that a handle is good for
  one ceremony, what becomes of a registered authenticator, and that removing one leaves a way to sign in.
\<close>

section \<open>What each part reads and writes\<close>

lemma unmarshal_each_ok:
  "unmarshal_each l cs = Inr creds \<Longrightarrow> list_all2 (\<lambda>c d. wl_Unmarshal l (wc_Data c) = Inr d) cs creds"
  by (induction cs arbitrary: creds) (auto split: sum.splits)

lemma unmarshal_each_all:
  "(\<And>c. c \<in> set cs \<Longrightarrow> \<exists>d. wl_Unmarshal l (wc_Data c) = Inr d) \<Longrightarrow> \<exists>ds. unmarshal_each l cs = Inr ds"
  by (induction cs) (fastforce split: sum.splits)+

lemma loadUser_db: "loadUser s u w = (r, w') \<Longrightarrow> db w' = db w"
  unfolding loadUser_def GetUserByID_def ListWebAuthnCredentialsByUser_def by auto

lemma loadUser_ok:
  assumes "loadUser s u w = (Inr (wu, stored), w')"
  shows "mem_GetUserByID (users (db w)) u = Inr (wu_u wu)"
    and "mem_ListWebAuthnCredentialsByUser (passkeys (db w)) u = Inr stored"
    and "unmarshal_each (ks_web s) stored = Inr (wu_creds wu)"
  using assms unfolding loadUser_def GetUserByID_def ListWebAuthnCredentialsByUser_def by auto

lemma timeless_loadUser [timeless_rules]: "timeless (loadUser s u)"
  unfolding loadUser_def GetUserByID_def ListWebAuthnCredentialsByUser_def by (intro timeless_rules)

text \<open>What a handle must name for its ceremony to go on, and the session it is then finished with.\<close>

definition redeemable :: "passkey_service \<Rightarrow> string \<Rightarrow> string \<Rightarrow> world \<Rightarrow> wan_session \<Rightarrow> bool" where
  "redeemable s kind sess w session \<longleftrightarrow> sess \<noteq> '''' \<and>
     (\<exists>row held. chs_byTokenHash (challenges (db w)) (HashToken sess) = Some row \<and> clock w \<le> ch_ExpiresAt row \<and>
        wl_UnmarshalCeremony (ks_web s) (ch_Data row) = Inr held \<and> cy_Kind held = kind \<and>
        session = (cy_Session held)\<lparr>ws_Origin := '''', ws_RelyingPartyID := ''''\<rparr>)"

definition spent :: "string \<Rightarrow> dbase \<Rightarrow> dbase" where
  "spent sess d = d\<lparr>challenges := (challenges d)\<lparr>chs_byTokenHash := (chs_byTokenHash (challenges d))(HashToken sess := None)\<rparr>\<rparr>"

lemma spent_simps [simp]:
  "passkeys (spent sess d) = passkeys d" "users (spent sess d) = users d"
  "chs_byTokenHash (challenges (spent sess d)) = (chs_byTokenHash (challenges d))(HashToken sess := None)"
  by (simp_all add: spent_def)

lemma consumeCeremony_db:
  assumes "consumeCeremony s sess kind w = (r, w')"
  shows "db w' = db w \<or> db w' = spent sess (db w)"
  using assms unfolding consumeCeremony_def ConsumeWebAuthnChallenge_def
  by (auto simp: spent_def mem_defs split: if_splits option.splits sum.splits)

lemma timeless_consumeCeremony [timeless_rules]: "timeless (consumeCeremony s sess kind)"
proof -
  have row: "timeless (case wl_UnmarshalCeremony l d of Inl x \<Rightarrow> raise e | Inr held \<Rightarrow> if cy_Kind held \<noteq> k then raise e' else ret (f held))"
    for l d e e' k f by (cases "wl_UnmarshalCeremony l d") (auto intro: timeless_rules)
  show ?thesis unfolding consumeCeremony_def ConsumeWebAuthnChallenge_def on_challenges_def
    by (intro timeless_rules row)
qed

lemma consumeCeremony_ok:
  assumes "consumeCeremony s sess kind w = (Inr session, w')"
  shows "redeemable s kind sess w session" and "db w' = spent sess (db w)"
  using assms unfolding consumeCeremony_def ConsumeWebAuthnChallenge_def redeemable_def
  by (auto simp: spent_def mem_defs time_defs not_less split: if_splits option.splits sum.splits)

lemma consumeCeremony_gone:
  assumes "chs_byTokenHash (challenges (db w)) (HashToken sess) = None" and "consumeCeremony s sess kind w = (r, w')"
  shows "\<exists>e. r = Inl e" and "db w' = db w"
  using assms unfolding consumeCeremony_def ConsumeWebAuthnChallenge_def
  by (auto simp: mem_defs split: if_splits option.splits sum.splits)

section \<open>What becomes of a row\<close>

text \<open>
  A later version of a row: of the same authenticator and user, flagged if it was flagged before, its blob the old one
  or one the library wrote for the same authenticator.
\<close>

definition touched :: "wan_lib \<Rightarrow> webauthn_credential \<Rightarrow> webauthn_credential \<Rightarrow> bool" where
  "touched l c c' \<longleftrightarrow> wc_ID c' = wc_ID c \<and> wc_UserID c' = wc_UserID c \<and> wc_CredentialID c' = wc_CredentialID c \<and>
     (wc_CloneWarning c \<longrightarrow> wc_CloneWarning c') \<and>
     (wc_Data c' = wc_Data c \<or> (\<exists>cred. wl_Marshal l cred = Inr (wc_Data c') \<and> wn_ID cred = wc_CredentialID c'))"

lemma touched_refl [simp]: "touched l c c"
  by (simp add: touched_def)

lemma touched_trans [trans]: "touched l a b \<Longrightarrow> touched l b c \<Longrightarrow> touched l a c"
  unfolding touched_def by auto

definition row_of :: "dbase \<Rightarrow> string \<Rightarrow> webauthn_credential option" where
  "row_of d i = wcs_byID (passkeys d) i"

definition kept_rows :: "wan_lib \<Rightarrow> dbase \<Rightarrow> dbase \<Rightarrow> bool" where
  "kept_rows l d d' \<longleftrightarrow> (wcs_inv (passkeys d) \<longrightarrow> wcs_inv (passkeys d') \<and> dom (row_of d') = dom (row_of d) \<and>
     (\<forall>i c. row_of d i = Some c \<longrightarrow> (\<exists>c'. row_of d' i = Some c' \<and> touched l c c')))"

lemma kept_rows_same: "passkeys d' = passkeys d \<Longrightarrow> kept_rows l d d'"
  by (auto simp: kept_rows_def row_of_def)

lemma kept_rows_trans [trans]:
  assumes "kept_rows l a b" and "kept_rows l b c" shows "kept_rows l a c"
proof -
  have "\<exists>c'. row_of c i = Some c' \<and> touched l x c'" if inv: "wcs_inv (passkeys a)" and row: "row_of a i = Some x" for i x
  proof -
    obtain y where y: "row_of b i = Some y" "touched l x y" using assms(1) inv row unfolding kept_rows_def by blast
    then obtain z where "row_of c i = Some z" "touched l y z" using assms inv unfolding kept_rows_def by blast
    with y(2) show ?thesis by (blast intro: touched_trans)
  qed
  with assms show ?thesis unfolding kept_rows_def by auto
qed

lemma kept_rows_update:
  assumes row: "row_of d (wc_ID c) = Some c0" and same: "touched l c0 c"
    and run: "mem_UpdateWebAuthnCredential c (passkeys d) = (r, p)" and d': "passkeys d' = p"
  shows "kept_rows l d d'" and "r = Inr ()" and "row_of d' = (row_of d)(wc_ID c \<mapsto> c)"
proof -
  have upd: "wcs_byID p = (wcs_byID (passkeys d))(wc_ID c \<mapsto> c)" and r: "r = Inr ()"
    using run row by (auto simp: mem_UpdateWebAuthnCredential_def row_of_def)
  have "wcs_inv p" if "wcs_inv (passkeys d)"
    using wcs_inv_update [OF that _ _ _ run] row same by (simp add: row_of_def touched_def)
  then show "kept_rows l d d'"
    using row same d' upd unfolding kept_rows_def by (auto simp: row_of_def split: if_splits)
  show "r = Inr ()" by (rule r)
  show "row_of d' = (row_of d)(wc_ID c \<mapsto> c)" using upd d' by (auto simp: row_of_def)
qed

lemma applyCredential_ok:
  assumes "applyCredential l row cred = Inr c" and "wc_CredentialID row = wn_ID cred"
  shows "touched l row c" and "wl_Marshal l cred = Inr (wc_Data c)" and "wc_LastUsedAt c = wc_LastUsedAt row"
    and "wc_CloneWarning c = wc_CloneWarning row"
  using assms by (auto simp: applyCredential_def touched_def split: sum.splits)

lemma PK_log_db [simp]: "PK_log t u e i w = (r, w') \<longleftrightarrow> r = Inr () \<and> w' = snd (PK_log t u e i w)"
  by (auto simp: PK_log_def)

lemma PK_log_frame [simp]:
  "db (snd (PK_log t u e i w)) = db w" "clock (snd (PK_log t u e i w)) = clock w" "faults (snd (PK_log t u e i w)) = faults w"
  by (simp_all add: PK_log_def)

text \<open>What the clone check leaves, refused or not.\<close>

lemma cloneCheck_frame:
  assumes "cloneCheck s u cred c0 w = (r, w')" and row: "row_of (db w) (wc_ID c0) = Some c0"
  shows "kept_rows (ks_web s) (db w) (db w') \<and> users (db w') = users (db w) \<and> challenges (db w') = challenges (db w) \<and>
    (\<forall>c. r = Inr c \<longrightarrow> touched (ks_web s) c0 c \<and> row_of (db w') (wc_ID c0) = Some c \<and>
       (kc_OnClone (ks_cfg s) = CloneReject \<longrightarrow> \<not> wn_CloneWarning cred))"
proof -
  let ?c = "c0\<lparr>wc_CloneWarning := True, wc_UpdatedAt := clock w\<rparr>"
  have t: "touched (ks_web s) c0 ?c" by (simp add: touched_def)
  have up: "kept_rows (ks_web s) (db w) ((db w)\<lparr>passkeys := p\<rparr>) \<and> x = Inr () \<and> row_of ((db w)\<lparr>passkeys := p\<rparr>) (wc_ID c0) = Some ?c"
    if "mem_UpdateWebAuthnCredential ?c (passkeys (db w)) = (x, p)" for x p
    using kept_rows_update [OF _ t that, of "(db w)\<lparr>passkeys := p\<rparr>"] row by simp
  show ?thesis
    using assms(1) row t unfolding cloneCheck_def UpdateWebAuthnCredential_def Let_def
    by (auto simp: kept_rows_same split: if_splits dest!: up)
qed

text \<open>The end of \<open>completeLogin\<close>, after the clone check.\<close>

definition loginWrite :: "passkey_service \<Rightarrow> user \<Rightarrow> wan_credential \<Rightarrow> bool \<Rightarrow> webauthn_credential \<Rightarrow> passkey_result prog" where
  "loginWrite s u cred userVerified stored = with_now (\<lambda>now.
     if kc_UserVerification (ks_cfg s) = VerificationRequired \<and> \<not> userVerified
     then raise (Passkey ErrUserVerificationRequired)
     else seq (lift (applyCredential (ks_web s) (stored\<lparr>wc_LastUsedAt := Some now, wc_UpdatedAt := now\<rparr>) cred)) (\<lambda>stored.
     seq (UpdateWebAuthnCredential stored) (\<lambda>_.
     seq (PK_log EventPasskeyLogin (u_ID u) (u_Email u) (wc_ID stored)) (\<lambda>_.
     ret \<lparr>pk_User = u, pk_Credential = stored, pk_UserVerified = userVerified\<rparr>))))"

lemma completeLogin_eq:
  "completeLogin s u cred uv =
     on (GetWebAuthnCredentialByCredentialID (wn_ID cred))
       (\<lambda>e. if e = ErrNotFound then raise (Passkey ErrCredentialNotFound) else raise e) (\<lambda>stored.
     seq (cloneCheck s u cred stored) (loginWrite s u cred uv))"
  by (simp add: completeLogin_def loginWrite_def [abs_def])

text \<open>What a completed login has shown, and what it leaves of the row of the authenticator.\<close>

definition login_shows :: "passkey_service \<Rightarrow> user \<Rightarrow> wan_credential \<Rightarrow> bool \<Rightarrow> world \<Rightarrow> webauthn_credential \<Rightarrow> passkey_result \<Rightarrow> dbase \<Rightarrow> bool" where
  "login_shows s u cred uv w c0 x d' \<longleftrightarrow>
     touched (ks_web s) c0 (pk_Credential x) \<and> row_of d' (wc_ID c0) = Some (pk_Credential x) \<and>
     wl_Marshal (ks_web s) cred = Inr (wc_Data (pk_Credential x)) \<and> wc_LastUsedAt (pk_Credential x) = Some (clock w) \<and>
     pk_User x = u \<and> pk_UserVerified x = uv \<and> (kc_UserVerification (ks_cfg s) = VerificationRequired \<longrightarrow> uv)"

lemma loginWrite_frame:
  assumes run: "loginWrite s u cred uv c0 w = (r, w')" and row: "row_of (db w) (wc_ID c0) = Some c0"
    and cid: "wc_CredentialID c0 = wn_ID cred"
  shows "kept_rows (ks_web s) (db w) (db w') \<and> users (db w') = users (db w) \<and> challenges (db w') = challenges (db w) \<and>
    (\<forall>x. r = Inr x \<longrightarrow> login_shows s u cred uv w c0 x (db w'))"
proof -
  let ?c = "c0\<lparr>wc_LastUsedAt := Some (clock w), wc_UpdatedAt := clock w\<rparr>"
  have "touched (ks_web s) c0 ?c" by (simp add: touched_def)
  then have app: "touched (ks_web s) c0 c \<and> wl_Marshal (ks_web s) cred = Inr (wc_Data c) \<and> wc_LastUsedAt c = Some (clock w)"
    if "Inr c = applyCredential (ks_web s) ?c cred" for c
    using applyCredential_ok [OF that [symmetric]] cid by (auto intro: touched_trans)
  have up: "kept_rows (ks_web s) (db w) ((db w)\<lparr>passkeys := p\<rparr>) \<and> y = Inr () \<and> row_of ((db w)\<lparr>passkeys := p\<rparr>) (wc_ID c0) = Some c"
    if "mem_UpdateWebAuthnCredential c (passkeys (db w)) = (y, p)" "Inr c = applyCredential (ks_web s) ?c cred" for c y p
  proof -
    have t: "touched (ks_web s) c0 c" using app [OF that(2)] by simp
    then have "wc_ID c = wc_ID c0" by (simp add: touched_def)
    then show ?thesis using kept_rows_update [OF _ t that(1), of "(db w)\<lparr>passkeys := p\<rparr>"] row by simp
  qed
  show ?thesis
    using run unfolding loginWrite_def UpdateWebAuthnCredential_def login_shows_def
    by (auto simp: kept_rows_same split: if_splits dest: app up)
qed

lemma completeLogin_frame:
  assumes run: "completeLogin s u cred uv w = (r, w')" and inv: "wcs_inv (passkeys (db w))"
  shows "kept_rows (ks_web s) (db w) (db w') \<and> users (db w') = users (db w) \<and> challenges (db w') = challenges (db w) \<and>
    (\<forall>x. r = Inr x \<longrightarrow> (kc_OnClone (ks_cfg s) = CloneReject \<longrightarrow> \<not> wn_CloneWarning cred) \<and>
       (\<exists>c0. row_of (db w) (wc_ID c0) = Some c0 \<and> wc_CredentialID c0 = wn_ID cred \<and> login_shows s u cred uv w c0 x (db w')))"
  using run unfolding completeLogin_eq
proof (cases rule: onE)
  case (1 e w1)
  then show ?thesis
    unfolding GetWebAuthnCredentialByCredentialID_def by (auto simp: kept_rows_same split: if_splits)
next
  case (2 c0 w1)
  then have db1: "db w1 = db w" "clock w1 = clock w" and got: "row_of (db w) (wc_ID c0) = Some c0" "wc_CredentialID c0 = wn_ID cred"
    unfolding GetWebAuthnCredentialByCredentialID_def using wcs_get_iff [OF inv] by (auto simp: row_of_def)
  note row1 = got(1) [folded db1(1)]
  from 2(2) show ?thesis
  proof (cases rule: seqE)
    case (1 e)
    then show ?thesis using cloneCheck_frame [OF 1(1) row1] db1 by auto
  next
    case (2 c1 w2)
    note fr = cloneCheck_frame [OF 2(1) row1]
    have c1: "touched (ks_web s) c0 c1" "row_of (db w2) (wc_ID c0) = Some c1" and cl: "kc_OnClone (ks_cfg s) = CloneReject \<longrightarrow> \<not> wn_CloneWarning cred"
      using fr by auto
    have same: "wc_ID c1 = wc_ID c0" "wc_CredentialID c1 = wn_ID cred" using c1(1) got(2) by (simp_all add: touched_def)
    have "timeless (cloneCheck s u cred c0)"
      unfolding cloneCheck_def UpdateWebAuthnCredential_def on_passkeys_def PK_log_def Let_def by (intro timeless_rules)
    from timelessD [OF this 2(1)] have "clock w2 = clock w" using db1 by simp
    then have shows0: "login_shows s u cred uv w2 c1 x d' \<Longrightarrow> login_shows s u cred uv w c0 x d'" for x d'
      using c1(1) same by (auto simp: login_shows_def intro: touched_trans)
    have row2: "row_of (db w2) (wc_ID c1) = Some c1" using c1(2) same by simp
    from loginWrite_frame [OF 2(2) row2 same(2)] fr db1 got cl shows0 show ?thesis
      by (auto intro: kept_rows_trans)
  qed
qed


section \<open>The login ceremonies\<close>

text \<open>The end of both login ceremonies, from the library's verdict on.\<close>

lemma verdict_frame:
  assumes run: "seq (verified v) (\<lambda>cred. completeLogin s u cred uv) w = (r, w')" and inv: "wcs_inv (passkeys (db w))"
  shows "kept_rows (ks_web s) (db w) (db w') \<and> users (db w') = users (db w) \<and> challenges (db w') = challenges (db w) \<and>
    (\<forall>x. r = Inr x \<longrightarrow> (\<exists>cred c0. v = Inr cred \<and> (kc_OnClone (ks_cfg s) = CloneReject \<longrightarrow> \<not> wn_CloneWarning cred) \<and>
       row_of (db w) (wc_ID c0) = Some c0 \<and> wc_CredentialID c0 = wn_ID cred \<and> login_shows s u cred uv w c0 x (db w')))"
proof (cases v)
  case (Inl e)
  then show ?thesis using run by (auto simp: kept_rows_same seq_def on_def raise_def)
next
  case (Inr cred)
  then have "completeLogin s u cred uv w = (r, w')" using run by (simp add: seq_def on_def)
  from completeLogin_frame [OF this inv] show ?thesis using Inr by blast
qed

text \<open>The user a login is validated for: the named one, with the authenticators the store lists for it.\<close>

definition loads :: "passkey_service \<Rightarrow> string \<Rightarrow> dbase \<Rightarrow> webAuthnUser \<Rightarrow> bool" where
  "loads s u d wu \<longleftrightarrow> mem_GetUserByID (users d) u = Inr (wu_u wu) \<and>
     (\<exists>stored. mem_ListWebAuthnCredentialsByUser (passkeys d) u = Inr stored \<and>
        unmarshal_each (ks_web s) stored = Inr (wu_creds wu))"

lemma loadUser_loads: "loadUser s u w = (Inr (wu, stored), w') \<Longrightarrow> loads s u (db w) wu"
  using loadUser_ok unfolding loads_def by blast

definition login_rests_on ::
  "passkey_service \<Rightarrow> string \<Rightarrow> web_request \<Rightarrow> (time \<Rightarrow> webAuthnUser \<Rightarrow> wan_session \<Rightarrow> wan_assertion \<Rightarrow> error + wan_credential) \<Rightarrow>
   world \<Rightarrow> webAuthnUser \<Rightarrow> wan_session \<Rightarrow> wan_assertion \<Rightarrow> passkey_result \<Rightarrow> dbase \<Rightarrow> bool" where
  "login_rests_on s sess q validate w wu session parsed x d' \<longleftrightarrow>
     redeemable s ceremonyLogin sess w session \<and> wl_ParseResponse (ks_web s) q = Inr parsed \<and>
     (\<exists>cred c0. validate (clock w) wu session parsed = Inr cred \<and>
        (kc_OnClone (ks_cfg s) = CloneReject \<longrightarrow> \<not> wn_CloneWarning cred) \<and>
        row_of (db w) (wc_ID c0) = Some c0 \<and> wc_CredentialID c0 = wn_ID cred \<and>
        login_shows s (wu_u wu) cred (wa_UserVerified parsed) w c0 x d')"

text \<open>A ceremony leaves the handles alone, or spends the one it was given; a success has spent it.\<close>

definition spends :: "string \<Rightarrow> dbase \<Rightarrow> dbase \<Rightarrow> bool \<Rightarrow> bool" where
  "spends sess d d' ok \<longleftrightarrow> challenges d' = challenges (spent sess d) \<or> \<not> ok \<and> challenges d' = challenges d"

lemma ceremony_failed:
  assumes "db w' = d \<or> db w' = spent sess d" and "r = Inl e"
  shows "kept_rows l d (db w') \<and> users (db w') = users d \<and> spends sess d (db w') (\<exists>x. r = Inr x) \<and> (\<forall>x. r = Inr x \<longrightarrow> P x)"
  using assms by (auto simp: spends_def kept_rows_same)

text \<open>From the redeemed session to the answer, where the user is known.\<close>

lemma verdict_after_spending:
  assumes db: "db w2 = spent sess (db w)" and cl: "clock w2 = clock w" and inv: "wcs_inv (passkeys (db w))"
    and run: "seq (verified v) (\<lambda>cred. completeLogin s u cred uv) w2 = (r, w')"
  shows "kept_rows (ks_web s) (db w) (db w') \<and> users (db w') = users (db w) \<and> challenges (db w') = challenges (spent sess (db w)) \<and>
    (\<forall>x. r = Inr x \<longrightarrow> (\<exists>cred c0. v = Inr cred \<and> (kc_OnClone (ks_cfg s) = CloneReject \<longrightarrow> \<not> wn_CloneWarning cred) \<and>
       row_of (db w) (wc_ID c0) = Some c0 \<and> wc_CredentialID c0 = wn_ID cred \<and> login_shows s u cred uv w c0 x (db w')))"
proof -
  have rows: "row_of (db w2) = row_of (db w)" using db by (auto simp: row_of_def)
  have shown: "login_shows s u cred uv w2 = login_shows s u cred uv w" for cred
    using cl by (auto simp: login_shows_def fun_eq_iff)
  have inv2: "wcs_inv (passkeys (db w2))" using inv db by simp
  have "kept_rows (ks_web s) (db w) (db w2)" using db by (simp add: kept_rows_same)
  from kept_rows_trans [OF this, of "db w'"] verdict_frame [OF run inv2, unfolded rows shown]
  show ?thesis unfolding db by simp
qed

lemma FinishLogin_frame:
  assumes run: "FinishLogin s u sess q w = (r, w')" and inv: "wcs_inv (passkeys (db w))"
  shows "kept_rows (ks_web s) (db w) (db w') \<and> users (db w') = users (db w) \<and> spends sess (db w) (db w') (\<exists>x. r = Inr x) \<and>
    (\<forall>x. r = Inr x \<longrightarrow> (\<exists>wu session parsed. loads s u (db w) wu \<and>
       login_rests_on s sess q (wl_ValidateLogin (ks_web s)) w wu session parsed x (db w')))"
  using run unfolding FinishLogin_def
proof (cases rule: seqE)
  case (1 e)
  then show ?thesis by (intro ceremony_failed [OF disjI1 [OF loadUser_db [OF 1(1)]] 1(2)])
next
  case (2 p w1)
  obtain wu stored where p: "p = (wu, stored)" by fastforce
  note load = loadUser_loads [OF 2(1) [unfolded p]] and db1 = loadUser_db [OF 2(1)]
    and cl1 = timelessD [OF timeless_loadUser 2(1)]
  from 2(2) [unfolded p prod.case] show ?thesis
  proof (cases rule: seqE)
    case (1 e)
    show ?thesis by (rule ceremony_failed [OF consumeCeremony_db [OF 1(1), unfolded db1] 1(2)])
  next
    case (2 session w2)
    note red = consumeCeremony_ok [OF 2(1)]
    have db2: "db w2 = spent sess (db w)" and cl2: "clock w2 = clock w"
      using red(2) db1 cl1 timelessD [OF timeless_consumeCeremony 2(1)] by simp_all
    have red1: "redeemable s ceremonyLogin sess w session" using red(1) db1 cl1 by (simp add: redeemable_def)
    show ?thesis
    proof (cases "wl_ParseResponse (ks_web s) q")
      case (Inl e)
      then have "db w' = spent sess (db w)" and failed: "r = Inl (wrapCeremony e)" using 2(2) db2 by (auto simp: seq_def on_def raise_def)
      from ceremony_failed [OF disjI2 [OF this(1)] failed] show ?thesis .
    next
      case (Inr parsed)
      then have "seq (verified (wl_ValidateLogin (ks_web s) (clock w) wu session parsed))
          (\<lambda>cred. completeLogin s (wu_u wu) cred (wa_UserVerified parsed)) w2 = (r, w')"
        using 2(2) cl2 by (simp add: seq_def on_def assertionUserVerified_def)
      from verdict_after_spending [OF db2 cl2 inv this] show ?thesis
        using load red1 Inr unfolding login_rests_on_def spends_def by blast
    qed
  qed
qed


lemma discoverUser_db: "discoverUser s i h w = (r, w') \<Longrightarrow> db w' = db w"
  unfolding discoverUser_def GetWebAuthnCredentialByCredentialID_def
  by (auto split: if_splits dest!: loadUser_db)

lemma timeless_discoverUser [timeless_rules]: "timeless (discoverUser s i h)"
  unfolding discoverUser_def GetWebAuthnCredentialByCredentialID_def by (intro timeless_rules)

lemma discoverUser_ok:
  assumes "discoverUser s i h w = (Inr wu, w')"
  shows "\<exists>c. mem_GetWebAuthnCredentialByCredentialID (passkeys (db w)) i = Inr c \<and> wc_UserID c = h \<and> loads s h (db w) wu"
proof -
  from assms [unfolded discoverUser_def] obtain c w1 where get: "GetWebAuthnCredentialByCredentialID i w = (Inr c, w1)"
    and rest: "(if h \<noteq> wc_UserID c then raise (Passkey ErrCeremony) else seq (loadUser s (wc_UserID c)) (\<lambda>(user, _). ret user)) w1 = (Inr wu, w')"
    by (rule seq_okE)
  have c: "mem_GetWebAuthnCredentialByCredentialID (passkeys (db w)) i = Inr c" and db1: "db w1 = db w"
    using get unfolding GetWebAuthnCredentialByCredentialID_def by auto
  have h: "h = wc_UserID c" using rest by (auto split: if_splits)
  then have "seq (loadUser s h) (\<lambda>(user, _). ret user) w1 = (Inr wu, w')" using rest by simp
  then obtain p w2 where "loadUser s h w1 = (Inr p, w2)" and "(case p of (user, _) \<Rightarrow> ret user) w2 = (Inr wu, w')" by (rule seq_okE)
  then have "loads s h (db w1) wu" by (cases p) (auto dest: loadUser_loads)
  then show ?thesis using c h db1 by auto
qed

lemma FinishDiscoverableLogin_frame:
  assumes run: "FinishDiscoverableLogin s sess q w = (r, w')" and inv: "wcs_inv (passkeys (db w))"
  shows "kept_rows (ks_web s) (db w) (db w') \<and> users (db w') = users (db w) \<and> spends sess (db w) (db w') (\<exists>x. r = Inr x) \<and>
    (\<forall>x. r = Inr x \<longrightarrow> (\<exists>wu session parsed rawID c. wl_Discover (ks_web s) session parsed = Inr (rawID, wc_UserID c) \<and>
       mem_GetWebAuthnCredentialByCredentialID (passkeys (db w)) rawID = Inr c \<and> loads s (wc_UserID c) (db w) wu \<and>
       login_rests_on s sess q (wl_ValidateDiscoverable (ks_web s)) w wu session parsed x (db w')))"
  using run unfolding FinishDiscoverableLogin_def
proof (cases rule: seqE)
  case (1 e)
  show ?thesis by (rule ceremony_failed [OF consumeCeremony_db [OF 1(1)] 1(2)])
next
  case (2 session w2)
  note red = consumeCeremony_ok [OF 2(1)] and cl2 = timelessD [OF timeless_consumeCeremony 2(1)]
  have failed: ?thesis if "db w' = spent sess (db w)" "r = Inl e" for e
    by (rule ceremony_failed [OF disjI2 [OF that(1)] that(2)])
  show ?thesis
  proof (cases "wl_ParseResponse (ks_web s) q")
    case (Inl e)
    then have "w' = w2" and err: "r = Inl (wrapCeremony e)" using 2(2) by (simp_all add: seq_def on_def raise_def)
    from failed [OF _ err] this(1) red(2) show ?thesis by blast
  next
    case (Inr parsed)
    note parsed = this
    show ?thesis
    proof (cases "wl_Discover (ks_web s) session parsed")
      case (Inl e)
      then have "w' = w2" and err: "r = Inl (wrapCeremony e)" using 2(2) parsed by (simp_all add: seq_def on_def raise_def)
      from failed [OF _ err] this(1) red(2) show ?thesis by blast
    next
      case (Inr found)
      obtain rawID h where found: "found = (rawID, h)" by fastforce
      have "on (discoverUser s rawID h) (\<lambda>e. raise (wrapCeremony (wl_HandlerFailed (ks_web s) e))) (\<lambda>user.
         seq (verified (wl_ValidateDiscoverable (ks_web s) (clock w) user session parsed)) (\<lambda>cred.
         completeLogin s (wu_u user) cred (assertionUserVerified parsed))) w2 = (r, w')"
        using 2(2) parsed Inr found cl2 by (simp add: seq_def on_def)
      then show ?thesis
      proof (cases rule: onE)
        case (1 e w3)
        then have "db w' = spent sess (db w)" and err: "r = Inl (wrapCeremony (wl_HandlerFailed (ks_web s) e))"
          using discoverUser_db [OF 1(1)] red(2) by simp_all
        from failed [OF this] show ?thesis .
      next
        case (2 wu w3)
        have db3: "db w3 = spent sess (db w)" "clock w3 = clock w"
          using discoverUser_db [OF 2(1)] timelessD [OF timeless_discoverUser 2(1)] red(2) cl2 by simp_all
        obtain c where c: "mem_GetWebAuthnCredentialByCredentialID (passkeys (db w)) rawID = Inr c" "wc_UserID c = h" "loads s h (db w) wu"
          using discoverUser_ok [OF 2(1)] red(2) by (auto simp: loads_def)
        from verdict_after_spending [OF db3 inv 2(2)] show ?thesis
          using c red(1) parsed Inr found unfolding login_rests_on_def spends_def assertionUserVerified_def by blast
      qed
    qed
  qed
qed


section \<open>Registration\<close>

text \<open>What a registration stores: a row for what the library verified.\<close>

definition registers :: "passkey_service \<Rightarrow> string \<Rightarrow> string \<Rightarrow> wan_credential \<Rightarrow> dbase \<Rightarrow> webauthn_credential \<Rightarrow> dbase \<Rightarrow> bool" where
  "registers s u name cred d c d' \<longleftrightarrow>
     mem_GetWebAuthnCredentialByCredentialID (passkeys d) (wn_ID cred) = Inl ErrNotFound \<and>
     wc_UserID c = u \<and> wc_Name c = name \<and> wc_CredentialID c = wn_ID cred \<and> wl_Marshal (ks_web s) cred = Inr (wc_Data c) \<and>
     mem_CreateWebAuthnCredential c (passkeys d) = (Inr (), passkeys d')"

lemma applyCredential_fields:
  assumes "applyCredential l row cred = Inr c"
  shows "wc_UserID c = wc_UserID row \<and> wc_Name c = wc_Name row \<and> wc_CredentialID c = wn_ID cred \<and> wl_Marshal l cred = Inr (wc_Data c)"
  using assms by (auto simp: applyCredential_def split: sum.splits)

lemma applyCredential_turn: "y = applyCredential l row cred \<longleftrightarrow> applyCredential l row cred = y"
  by auto

lemma create_refused: "mem_CreateWebAuthnCredential c p = (Inl e, p') \<Longrightarrow> p' = p"
  by (auto simp: mem_CreateWebAuthnCredential_def Let_def split: if_splits)

text \<open>The end of \<open>FinishRegistration\<close>, from the library's verdict on.\<close>

lemma register_frame:
  assumes "seq (verified v) (\<lambda>cred.
     seq (on (GetWebAuthnCredentialByCredentialID (wn_ID cred))
            (\<lambda>e. if e \<noteq> ErrNotFound then raise e else ret ()) (\<lambda>_. raise (Passkey ErrAlreadyRegistered))) (\<lambda>_.
     seq NewID (\<lambda>id.
     seq (lift (applyCredential (ks_web s)
            \<lparr>wc_ID = id, wc_UserID = userID, wc_CredentialID = [], wc_Data = [], wc_Name = name, wc_Transports = [],
             wc_BackupEligible = False, wc_BackupState = False, wc_CloneWarning = False, wc_LastUsedAt = None,
             wc_CreatedAt = now, wc_UpdatedAt = zero_time\<rparr> cred)) (\<lambda>row.
     seq (CreateWebAuthnCredential row) (\<lambda>_.
     seq (PK_log EventPasskeyRegistered userID (u_Email u) (wc_ID row)) (\<lambda>_.
     ret row)))))) w = (r, w')"
  shows "users (db w') = users (db w) \<and> challenges (db w') = challenges (db w) \<and>
    (\<forall>e. r = Inl e \<longrightarrow> passkeys (db w') = passkeys (db w)) \<and>
    (\<forall>c. r = Inr c \<longrightarrow> (\<exists>cred. v = Inr cred \<and> registers s userID name cred (db w) c (db w')))"
  using assms unfolding GetWebAuthnCredentialByCredentialID_def CreateWebAuthnCredential_def
  by (auto simp: registers_def applyCredential_turn split: if_splits dest!: applyCredential_fields create_refused)


lemma FinishRegistration_frame:
  assumes run: "FinishRegistration s u name sess q w = (r, w')"
  shows "users (db w') = users (db w) \<and> spends sess (db w) (db w') (\<exists>x. r = Inr x) \<and>
    (\<forall>e. r = Inl e \<longrightarrow> passkeys (db w') = passkeys (db w)) \<and>
    (\<forall>c. r = Inr c \<longrightarrow> (\<exists>wu session cred. loads s u (db w) wu \<and> redeemable s ceremonyRegistration sess w session \<and>
       wl_FinishRegistration (ks_web s) (clock w) wu session q = Inr cred \<and> registers s u name cred (db w) c (db w')))"
  using run unfolding FinishRegistration_def
proof (cases rule: seqE)
  case (1 e)
  then show ?thesis using loadUser_db [OF 1(1)] by (simp add: spends_def)
next
  case (2 p w1)
  obtain wu stored where p: "p = (wu, stored)" by fastforce
  note load = loadUser_loads [OF 2(1) [unfolded p]] and db1 = loadUser_db [OF 2(1)]
    and cl1 = timelessD [OF timeless_loadUser 2(1)]
  from 2(2) [unfolded p prod.case] show ?thesis
  proof (cases rule: seqE)
    case (1 e)
    then show ?thesis using consumeCeremony_db [OF 1(1)] db1 by (auto simp: spends_def)
  next
    case (2 session w2)
    note red = consumeCeremony_ok [OF 2(1)]
    have db2: "db w2 = spent sess (db w)" and cl2: "clock w2 = clock w"
      using red(2) db1 cl1 timelessD [OF timeless_consumeCeremony 2(1)] by simp_all
    have red1: "redeemable s ceremonyRegistration sess w session" using red(1) db1 cl1 by (simp add: redeemable_def)
    from register_frame [OF 2(2) [unfolded with_now_eq]] show ?thesis
      using load red1 unfolding spends_def registers_def db2 cl2 spent_simps by blast
  qed
qed


section \<open>Management and issuing\<close>

lemma GetCredential_ok:
  "GetWebAuthnCredential i w = (Inr c, w') \<Longrightarrow> row_of (db w) i = Some c \<and> db w' = db w"
  unfolding GetWebAuthnCredential_def mem_GetWebAuthnCredential_def row_of_def by (auto split: option.splits)

lemma ownedCredential_ok:
  assumes "ownedCredential u i w = (Inr c, w')"
  shows "row_of (db w) i = Some c \<and> wc_UserID c = u \<and> db w' = db w"
  using assms unfolding ownedCredential_def by (auto split: if_splits dest!: GetCredential_ok)

lemma ownedCredential_db: "ownedCredential u i w = (r, w') \<Longrightarrow> db w' = db w"
  unfolding ownedCredential_def GetWebAuthnCredential_def by (auto split: if_splits)

lemma row_id: "wcs_inv (passkeys d) \<Longrightarrow> row_of d i = Some c \<Longrightarrow> wc_ID c = i"
  unfolding row_of_def by (rule linkedD(4))

lemma Rename_frame:
  assumes run: "Rename u i name w = (r, w')" and inv: "wcs_inv (passkeys (db w))"
  shows "kept_rows l (db w) (db w') \<and> users (db w') = users (db w) \<and> challenges (db w') = challenges (db w)"
  using run unfolding Rename_def
proof (cases rule: seqE)
  case (1 e)
  then show ?thesis using ownedCredential_db [OF 1(1)] by (simp add: kept_rows_same)
next
  case (2 c w1)
  let ?c = "c\<lparr>wc_Name := name, wc_UpdatedAt := clock w1\<rparr>"
  have own: "row_of (db w) i = Some c" "db w1 = db w" using ownedCredential_ok [OF 2(1)] by simp_all
  have row: "row_of (db w) (wc_ID ?c) = Some c" using own(1) row_id [OF inv own(1)] by simp
  have t: "touched l c ?c" by (simp add: touched_def)
  have "kept_rows l (db w) ((db w)\<lparr>passkeys := p\<rparr>)" if "mem_UpdateWebAuthnCredential ?c (passkeys (db w)) = (x, p)" for x p
    using kept_rows_update(1) [OF row t that] by simp
  then show ?thesis using 2(2) own(2) unfolding UpdateWebAuthnCredential_def by (auto simp: kept_rows_same)
qed

lemma removable_ok:
  assumes "removable u i w = (Inr c, w')"
  shows "row_of (db w) i = Some c \<and> wc_UserID c = u \<and> db w' = db w"
    and "\<exists>cs. mem_ListWebAuthnCredentialsByUser (passkeys (db w)) u = Inr cs \<and>
      (length cs = 1 \<longrightarrow> (\<exists>usr. mem_GetUserByID (users (db w)) u = Inr usr \<and> u_PasswordHash usr \<noteq> ''''))"
  using assms unfolding removable_def ListWebAuthnCredentialsByUser_def GetUserByID_def
  by (auto split: if_splits dest!: ownedCredential_ok)

lemma removable_db: "removable u i w = (r, w') \<Longrightarrow> db w' = db w"
  unfolding removable_def ListWebAuthnCredentialsByUser_def GetUserByID_def
  by (auto split: if_splits dest!: ownedCredential_db)

lemma removeNow_ok:
  assumes "removeNow u c w = (r, w')"
  shows "db w' = db w \<or> (\<exists>p. mem_DeleteWebAuthnCredential (wc_ID c) (passkeys (db w)) = (r, p) \<and> db w' = (db w)\<lparr>passkeys := p\<rparr>)"
    and "r = Inr () \<Longrightarrow> \<exists>p. mem_DeleteWebAuthnCredential (wc_ID c) (passkeys (db w)) = (Inr (), p) \<and> db w' = (db w)\<lparr>passkeys := p\<rparr>"
  using assms unfolding removeNow_def DeleteWebAuthnCredential_def by auto

text \<open>What a \<open>Begin\<close> function leaves: at most one more handle, the one it answers with.\<close>

definition issued :: "dbase \<Rightarrow> dbase \<Rightarrow> error + (string \<times> string) \<Rightarrow> bool" where
  "issued d d' r \<longleftrightarrow> passkeys d' = passkeys d \<and> users d' = users d \<and>
     (challenges d' = challenges d \<or> (\<exists>opts raw. r = Inr (opts, raw) \<and>
        (\<forall>h. h \<noteq> HashToken raw \<longrightarrow> chs_byTokenHash (challenges d') h = chs_byTokenHash (challenges d) h)))"

lemma issued_same: "d' = d \<Longrightarrow> issued d d' r"
  by (simp add: issued_def)

lemma issueCeremony_frame: "issueCeremony s opts session kind user w = (r, w') \<Longrightarrow> issued (db w) (db w') r"
  unfolding issueCeremony_def CreateWebAuthnChallenge_def Let_def
  by (auto simp: issued_def mem_CreateWebAuthnChallenge_def split: if_splits)

lemma Begin_frames:
  "BeginRegistration s u w = (r, w') \<Longrightarrow> issued (db w) (db w') r"
  "PK_BeginLogin s u w = (r, w') \<Longrightarrow> issued (db w) (db w') r"
  "BeginDiscoverableLogin s w = (r, w') \<Longrightarrow> issued (db w) (db w') r"
  unfolding BeginRegistration_def PK_BeginLogin_def BeginDiscoverableLogin_def
  by (fastforce intro: issued_same split: if_splits dest!: loadUser_db dest: issueCeremony_frame)+


section \<open>Any sequence of requests\<close>

datatype passkey_op =
    Registers string string string web_request
  | Logs_in string string web_request
  | Discovers string web_request
  | Renames string string string
  | Removes string string
  | Begins_registration string
  | Begins_login string
  | Begins_discoverable

datatype passkey_answer = Handle string | Row webauthn_credential | Signed_in passkey_result | Finished

fun perform :: "passkey_service \<Rightarrow> passkey_op \<Rightarrow> passkey_answer prog" where
  "perform s (Registers u name sess q) = seq (FinishRegistration s u name sess q) (\<lambda>c. ret (Row c))"
| "perform s (Logs_in u sess q) = seq (FinishLogin s u sess q) (\<lambda>x. ret (Signed_in x))"
| "perform s (Discovers sess q) = seq (FinishDiscoverableLogin s sess q) (\<lambda>x. ret (Signed_in x))"
| "perform s (Renames u i name) = seq (Rename u i name) (\<lambda>_. ret Finished)"
| "perform s (Removes u i) = seq (Remove u i) (\<lambda>_. ret Finished)"
| "perform s (Begins_registration u) = seq (BeginRegistration s u) (\<lambda>(_, raw). ret (Handle raw))"
| "perform s (Begins_login u) = seq (PK_BeginLogin s u) (\<lambda>(_, raw). ret (Handle raw))"
| "perform s (Begins_discoverable) = seq (BeginDiscoverableLogin s) (\<lambda>(_, raw). ret (Handle raw))"

text \<open>
  Requests in any order, with whatever handles and responses callers send and whatever faults the stores have,
  interleaved with the rest of the program, which leaves this package's rows alone. The random source is trusted for
  one thing: the id of a new row is not one in use.
\<close>

inductive passkey_run :: "passkey_service \<Rightarrow> (passkey_op \<times> (error + passkey_answer)) list \<Rightarrow> world \<Rightarrow> world \<Rightarrow> bool" for s where
  start: "passkey_run s [] w w"
| request: "passkey_run s tr w w1 \<Longrightarrow> perform s op w1 = (r, w2) \<Longrightarrow> \<forall>c. r = Inr (Row c) \<longrightarrow> row_of (db w1) (wc_ID c) = None \<Longrightarrow>
    passkey_run s (tr @ [(op, r)]) w w2"
| elsewhere: "passkey_run s tr w w1 \<Longrightarrow> passkeys (db w2) = passkeys (db w1) \<Longrightarrow> challenges (db w2) = challenges (db w1) \<Longrightarrow>
    passkey_run s tr w w2"

lemma seq_retE:
  assumes "seq m (\<lambda>x. ret (f x)) w = (r, w')"
  obtains e where "r = Inl e" and "m w = (Inl e, w')" | x where "r = Inr (f x)" and "m w = (Inr x, w')"
  using assms by (auto elim!: seqE)

text \<open>One request, seen from the rows: it keeps them, or adds a new one, or takes out one of the caller's own.\<close>

definition row_added :: "wan_lib \<Rightarrow> dbase \<Rightarrow> dbase \<Rightarrow> bool" where
  "row_added l d d' \<longleftrightarrow> wcs_inv (passkeys d') \<and>
     (\<exists>c cred. wc_CredentialID c = wn_ID cred \<and> wl_Marshal l cred = Inr (wc_Data c) \<and>
        row_of d (wc_ID c) = None \<and> row_of d' = (row_of d)(wc_ID c \<mapsto> c))"

definition row_removed :: "string \<Rightarrow> string \<Rightarrow> dbase \<Rightarrow> dbase \<Rightarrow> bool" where
  "row_removed u i d d' \<longleftrightarrow> wcs_inv (passkeys d') \<and>
     (\<exists>c. row_of d i = Some c \<and> wc_UserID c = u \<and> row_of d' = (row_of d)(i := None))"

lemma registers_rows:
  assumes reg: "registers s u name cred d c d'" and inv: "wcs_inv (passkeys d)" and new: "row_of d (wc_ID c) = None"
  shows "row_added (ks_web s) d d'" and "row_of d' = (row_of d)(wc_ID c \<mapsto> c)"
proof -
  have "wcs_byID p' = (wcs_byID p)(wc_ID c \<mapsto> c)" if "mem_CreateWebAuthnCredential c p = (Inr (), p')" for p p'
    using that by (auto simp: mem_CreateWebAuthnCredential_def Let_def split: if_splits)
  moreover have cr: "mem_CreateWebAuthnCredential c (passkeys d) = (Inr (), passkeys d')" using reg by (simp add: registers_def)
  ultimately show row: "row_of d' = (row_of d)(wc_ID c \<mapsto> c)" by (auto simp: row_of_def)
  have "wcs_inv (passkeys d')" using wcs_inv_create [OF inv _ cr] new by (simp add: row_of_def)
  then show "row_added (ks_web s) d d'" using reg new row unfolding registers_def row_added_def by blast
qed

lemma deleted_rows:
  assumes del: "mem_DeleteWebAuthnCredential i (passkeys d) = (x, p)" and inv: "wcs_inv (passkeys d)" and row: "row_of d i = Some c"
  shows "row_removed (wc_UserID c) i d (d\<lparr>passkeys := p\<rparr>)"
proof -
  have "row_of (d\<lparr>passkeys := p\<rparr>) = (row_of d)(i := None)"
    using del row by (auto simp: row_of_def mem_DeleteWebAuthnCredential_def)
  then show ?thesis using row wcs_inv_delete [OF inv del] unfolding row_removed_def by auto
qed

lemma Remove_frame:
  assumes run: "Remove u i w = (r, w')" and inv: "wcs_inv (passkeys (db w))"
  shows "db w' = db w \<or> users (db w') = users (db w) \<and> challenges (db w') = challenges (db w) \<and> row_removed u i (db w) (db w')"
  using run unfolding Remove_def
proof (cases rule: seqE)
  case (1 e)
  then show ?thesis using removable_db [OF 1(1)] by simp
next
  case (2 c w1)
  have own: "row_of (db w) i = Some c" "wc_UserID c = u" "db w1 = db w" using removable_ok(1) [OF 2(1)] by simp_all
  from removeNow_ok(1) [OF 2(2)] show ?thesis
    using own row_id [OF inv own(1)] deleted_rows [OF _ inv own(1)] by auto
qed

lemma perform_rows:
  assumes run: "perform s op w = (r, w')" and inv: "wcs_inv (passkeys (db w))"
    and fresh: "\<forall>c. r = Inr (Row c) \<longrightarrow> row_of (db w) (wc_ID c) = None"
  shows "kept_rows (ks_web s) (db w) (db w') \<or> row_added (ks_web s) (db w) (db w') \<or>
    (\<exists>u i. op = Removes u i \<and> row_removed u i (db w) (db w'))"
proof -
  have issued: "kept_rows (ks_web s) (db w) (db w')" if "issued (db w) (db w') x" for x
    using that by (simp add: issued_def kept_rows_same)
  show ?thesis
  proof (cases op)
    case (Registers u name sess q)
    with run have "seq (FinishRegistration s u name sess q) (\<lambda>c. ret (Row c)) w = (r, w')" by simp
    then show ?thesis
    proof (cases rule: seq_retE)
      case (1 e)
      then show ?thesis using FinishRegistration_frame [OF 1(2)] by (simp add: kept_rows_same)
    next
      case (2 c)
      then show ?thesis using FinishRegistration_frame [OF 2(2)] registers_rows(1) [OF _ inv] fresh by blast
    qed
  next
    case (Logs_in u sess q)
    then show ?thesis using run FinishLogin_frame [OF _ inv] by (auto elim!: seq_retE)
  next
    case (Discovers sess q)
    then show ?thesis using run FinishDiscoverableLogin_frame [OF _ inv] by (auto elim!: seq_retE)
  next
    case (Renames u i name)
    then show ?thesis using run Rename_frame [OF _ inv] by (auto elim!: seq_retE)
  next
    case (Removes u i)
    with run obtain x where "Remove u i w = (x, w')" by (auto elim!: seq_retE)
    then show ?thesis using Remove_frame [OF _ inv] Removes kept_rows_same by metis
  qed (use run in \<open>auto elim!: seq_retE split: prod.splits dest!: Begin_frames issued\<close>)
qed


text \<open>
  C17. An authenticator is bound for good: a row that was stored stays, for the same user and the same authenticator, and
  stays flagged once flagged, through any sequence of requests with any handles, responses and faults, until a request
  of its own user removes it. The store's indexes stay consistent all along.
\<close>

theorem passkey_never_moves:
  assumes "passkey_run s tr w w'" and "wcs_inv (passkeys (db w))" and "row_of (db w) i = Some c"
    and "\<forall>r. (Removes (wc_UserID c) i, r) \<notin> set tr"
  shows "wcs_inv (passkeys (db w')) \<and> (\<exists>c'. row_of (db w') i = Some c' \<and> wc_UserID c' = wc_UserID c \<and>
    wc_CredentialID c' = wc_CredentialID c \<and> (wc_CloneWarning c \<longrightarrow> wc_CloneWarning c'))"
  using assms
proof (induction rule: passkey_run.induct)
  case (start w)
  then show ?case by simp
next
  case (request tr w w1 op r w2)
  then obtain c1 where inv: "wcs_inv (passkeys (db w1))" and c1: "row_of (db w1) i = Some c1" "wc_UserID c1 = wc_UserID c"
      "wc_CredentialID c1 = wc_CredentialID c" "wc_CloneWarning c \<longrightarrow> wc_CloneWarning c1" and
      others: "op \<noteq> Removes (wc_UserID c) i" by auto
  from perform_rows [OF request.hyps(2) inv request.hyps(3)] show ?case
  proof (elim disjE exE conjE)
    assume "kept_rows (ks_web s) (db w1) (db w2)"
    then obtain c2 where "wcs_inv (passkeys (db w2))" "row_of (db w2) i = Some c2" "touched (ks_web s) c1 c2"
      using inv c1(1) unfolding kept_rows_def by blast
    then show ?thesis using c1 by (auto simp: touched_def)
  next
    assume "row_added (ks_web s) (db w1) (db w2)"
    then show ?thesis using c1 by (auto simp: row_added_def)
  next
    fix u j assume "op = Removes u j" and "row_removed u j (db w1) (db w2)"
    then show ?thesis using c1 others by (auto simp: row_removed_def)
  qed
next
  case (elsewhere tr w w1 w2)
  then show ?case by (simp add: row_of_def)
qed

text \<open>What the stored blobs are worth: each reads back as what the library knows of the row's authenticator.\<close>

definition readable :: "wan_lib \<Rightarrow> dbase \<Rightarrow> bool" where
  "readable l d \<longleftrightarrow> (\<forall>i c. row_of d i = Some c \<longrightarrow> (\<exists>cred. wl_Unmarshal l (wc_Data c) = Inr cred \<and> wn_ID cred = wc_CredentialID c))"

lemma readable_kept:
  assumes "readable l d" and "kept_rows l d d'" and "wcs_inv (passkeys d)" and "wan_correct l" shows "readable l d'"
  unfolding readable_def
proof (intro allI impI)
  fix i c' assume c': "row_of d' i = Some c'"
  then obtain c where c: "row_of d i = Some c" using assms(2,3) unfolding kept_rows_def by (metis domIff not_None_eq)
  then have "touched l c c'" using assms(2,3) c' unfolding kept_rows_def by force
  moreover have "\<exists>cred. wl_Unmarshal l (wc_Data c) = Inr cred \<and> wn_ID cred = wc_CredentialID c"
    using assms(1) c unfolding readable_def by blast
  ultimately show "\<exists>cred. wl_Unmarshal l (wc_Data c') = Inr cred \<and> wn_ID cred = wc_CredentialID c'"
    using assms(4) unfolding touched_def wan_correct_def by auto
qed

lemma readable_added:
  assumes "readable l d" and "row_added l d d'" and "wan_correct l" shows "readable l d'"
proof -
  obtain c cred where c: "wc_CredentialID c = wn_ID cred" "wl_Marshal l cred = Inr (wc_Data c)" "row_of d' = (row_of d)(wc_ID c \<mapsto> c)"
    using assms(2) unfolding row_added_def by blast
  then have "wl_Unmarshal l (wc_Data c) = Inr cred" using assms(3) unfolding wan_correct_def by blast
  then show ?thesis using assms(1) c unfolding readable_def by simp
qed

lemma readable_ids:
  assumes "list_all2 (\<lambda>c d. wl_Unmarshal l (wc_Data c) = Inr d) cs ds"
    and "\<forall>c \<in> set cs. \<exists>cred. wl_Unmarshal l (wc_Data c) = Inr cred \<and> wn_ID cred = wc_CredentialID c"
  shows "map wn_ID ds = map wc_CredentialID cs"
  using assms by (induction rule: list_all2_induct) auto

text \<open>
  No request leaves an unreadable row behind: from a store whose rows are consistent and read back, every sequence of
  requests leads to one, so that loading a user's authenticators, which every ceremony of the user starts with, never
  fails on what is stored.
\<close>

theorem passkey_rows_stay_readable:
  assumes "passkey_run s tr w w'" and "wcs_inv (passkeys (db w))" and "readable (ks_web s) (db w)" and "wan_correct (ks_web s)"
  shows "wcs_inv (passkeys (db w')) \<and> readable (ks_web s) (db w') \<and>
    (\<exists>stored creds. mem_ListWebAuthnCredentialsByUser (passkeys (db w')) u = Inr stored \<and>
       unmarshal_each (ks_web s) stored = Inr creds \<and> map wn_ID creds = map wc_CredentialID stored)"
proof -
  have good: "wcs_inv (passkeys (db w')) \<and> readable (ks_web s) (db w')"
    using assms
  proof (induction rule: passkey_run.induct)
    case (start w)
    then show ?case by simp
  next
    case (request tr w w1 op r w2)
    then have inv: "wcs_inv (passkeys (db w1))" and rd: "readable (ks_web s) (db w1)" by auto
    from perform_rows [OF request.hyps(2) inv request.hyps(3)] show ?case
    proof (elim disjE exE conjE)
      assume kept: "kept_rows (ks_web s) (db w1) (db w2)"
      then show ?thesis using readable_kept [OF rd kept inv request.prems(3)] inv unfolding kept_rows_def by blast
    next
      assume "row_added (ks_web s) (db w1) (db w2)"
      then show ?thesis using readable_added [OF rd _ request.prems(3)] by (simp add: row_added_def)
    next
      fix u j assume "row_removed u j (db w1) (db w2)"
      then show ?thesis using rd by (auto simp: row_removed_def readable_def split: if_splits)
    qed
  next
    case (elsewhere tr w w1 w2)
    then show ?case by (simp add: row_of_def readable_def)
  qed
  obtain stored where stored: "mem_ListWebAuthnCredentialsByUser (passkeys (db w')) u = Inr stored"
    by (simp add: mem_ListWebAuthnCredentialsByUser_def)
  have rows: "row_of (db w') (wc_ID c) = Some c" if "c \<in> set stored" for c
    using wcs_listed(1) [OF conjunct1 [OF good] stored] that by (simp add: row_of_def)
  then obtain creds where creds: "unmarshal_each (ks_web s) stored = Inr creds"
    using unmarshal_each_all [of stored "ks_web s"] good unfolding readable_def by blast
  have "map wn_ID creds = map wc_CredentialID stored"
    by (rule readable_ids [OF unmarshal_each_ok [OF creds]]) (use rows good in \<open>auto simp: readable_def\<close>)
  then show ?thesis using good stored creds by blast
qed


section \<open>Finishes cut at their store call\<close>

text \<open>The handle a request presents.\<close>

fun presented :: "passkey_op \<Rightarrow> string option" where
  "presented (Registers _ _ sess _) = Some sess"
| "presented (Logs_in _ sess _) = Some sess"
| "presented (Discovers sess _) = Some sess"
| "presented _ = None"

text \<open>
  The three \<open>Finish\<close> functions cut where another request can come between on the table of handles: what each does before
  it asks the store for the ceremony, the one call of \<open>ConsumeWebAuthnChallenge\<close>, and what it makes of the answer.
\<close>

fun finish_open :: "passkey_service \<Rightarrow> passkey_op \<Rightarrow> webAuthnUser option prog" where
  "finish_open s (Registers u name sess q) =
     seq (loadUser s u) (\<lambda>(user, _). if length sess = 0 then raise (Passkey ErrSession) else ret (Some user))"
| "finish_open s (Logs_in u sess q) =
     seq (loadUser s u) (\<lambda>(user, _). if length sess = 0 then raise (Passkey ErrSession) else ret (Some user))"
| "finish_open s (Discovers sess q) = (if length sess = 0 then raise (Passkey ErrSession) else ret None)"
| "finish_open s _ = raise Panic"

definition openCeremony :: "passkey_service \<Rightarrow> string \<Rightarrow> error + webauthn_challenge \<Rightarrow> wan_session prog" where
  "openCeremony s kind c =
     (case c of
        Inl e \<Rightarrow> if e = ErrNotFound then raise (Passkey ErrSession) else raise e
      | Inr row \<Rightarrow> with_now (\<lambda>now.
          if After now (ch_ExpiresAt row) then raise (Passkey ErrSession)
          else (case wl_UnmarshalCeremony (ks_web s) (ch_Data row) of
                  Inl _ \<Rightarrow> raise (Passkey ErrSession)
                | Inr held \<Rightarrow>
                    if cy_Kind held \<noteq> kind then raise (Passkey ErrSession)
                    else ret ((cy_Session held)\<lparr>ws_Origin := '''', ws_RelyingPartyID := ''''\<rparr>))))"

fun finish_close ::
  "passkey_service \<Rightarrow> passkey_op \<Rightarrow> webAuthnUser option \<Rightarrow> error + webauthn_challenge \<Rightarrow> passkey_answer prog" where
  "finish_close s (Registers u name sess q) (Some user) c =
     seq (openCeremony s ceremonyRegistration c) (\<lambda>session. with_now (\<lambda>now.
     seq (verified (wl_FinishRegistration (ks_web s) now user session q)) (\<lambda>cred.
     seq (on (GetWebAuthnCredentialByCredentialID (wn_ID cred))
            (\<lambda>e. if e \<noteq> ErrNotFound then raise e else ret ()) (\<lambda>_. raise (Passkey ErrAlreadyRegistered))) (\<lambda>_.
     seq NewID (\<lambda>id.
     seq (lift (applyCredential (ks_web s)
            \<lparr>wc_ID = id, wc_UserID = u, wc_CredentialID = [], wc_Data = [], wc_Name = name, wc_Transports = [],
             wc_BackupEligible = False, wc_BackupState = False, wc_CloneWarning = False, wc_LastUsedAt = None,
             wc_CreatedAt = now, wc_UpdatedAt = zero_time\<rparr> cred)) (\<lambda>row.
     seq (CreateWebAuthnCredential row) (\<lambda>_.
     seq (PK_log EventPasskeyRegistered u (u_Email (wu_u user)) (wc_ID row)) (\<lambda>_.
     ret (Row row)))))))))"
| "finish_close s (Logs_in u sess q) (Some user) c =
     seq (openCeremony s ceremonyLogin c) (\<lambda>session. with_now (\<lambda>now.
     seq (verified (wl_ParseResponse (ks_web s) q)) (\<lambda>parsed.
     seq (verified (wl_ValidateLogin (ks_web s) now user session parsed)) (\<lambda>cred.
     seq (completeLogin s (wu_u user) cred (assertionUserVerified parsed)) (\<lambda>x. ret (Signed_in x))))))"
| "finish_close s (Discovers sess q) None c =
     seq (openCeremony s ceremonyLogin c) (\<lambda>session. with_now (\<lambda>now.
     seq (verified (wl_ParseResponse (ks_web s) q)) (\<lambda>parsed.
     seq (verified (wl_Discover (ks_web s) session parsed)) (\<lambda>(rawID, userHandle).
     on (discoverUser s rawID userHandle) (\<lambda>e. raise (wrapCeremony (wl_HandlerFailed (ks_web s) e))) (\<lambda>user.
     seq (verified (wl_ValidateDiscoverable (ks_web s) now user session parsed)) (\<lambda>cred.
     seq (completeLogin s (wu_u user) cred (assertionUserVerified parsed)) (\<lambda>x. ret (Signed_in x))))))))"
| "finish_close s _ _ _ = raise Panic"

definition cut_finish :: "passkey_service \<Rightarrow> passkey_op \<Rightarrow> string \<Rightarrow> passkey_answer prog" where
  "cut_finish s op sess w =
     (case finish_open s op w of
        (Inl e, w1) \<Rightarrow> (Inl e, w1)
      | (Inr env, w1) \<Rightarrow> (case ConsumeWebAuthnChallenge (HashToken sess) w1 of (c, w2) \<Rightarrow> finish_close s op env c w2))"

text \<open>A \<open>Finish\<close> is its three parts run without anything between.\<close>

lemma finish_is_cut:
  assumes "presented op = Some sess" shows "perform s op = cut_finish s op sess"
proof (rule ext)
  fix w
  show "perform s op w = cut_finish s op sess w"
  proof (cases op)
    case (Registers u name s' q)
    then show ?thesis using assms
      by (auto simp: cut_finish_def FinishRegistration_def seq_def with_now_def on_def raise_def ret_def consumeCeremony_def openCeremony_def
          split: prod.splits sum.splits)
  next
    case (Logs_in u s' q)
    then show ?thesis using assms
      by (auto simp: cut_finish_def FinishLogin_def seq_def with_now_def on_def raise_def ret_def consumeCeremony_def openCeremony_def
          split: prod.splits sum.splits)
  next
    case (Discovers s' q)
    then show ?thesis using assms
      by (auto simp: cut_finish_def FinishDiscoverableLogin_def seq_def with_now_def on_def raise_def ret_def consumeCeremony_def openCeremony_def
          split: prod.splits sum.splits)
  qed (use assms in simp_all)
qed

section \<open>Any interleaving of requests\<close>

text \<open>
  A finish in flight: about to call the store, or holding what the store answered. A step is one part of one request: a
  request that presents no handle, run whole, for it makes at most one call on the table; the part of a finish up to its
  call; its call; the part after it; or anything the rest of the program and other processes do, as long as none writes
  a handle: it may drop rows of this table, and change any other table, the clock, the faults to come.
\<close>

datatype finish_stage =
    Opened passkey_op "webAuthnUser option"
  | Redeemed passkey_op "webAuthnUser option" "error + webauthn_challenge"

inductive passkey_race ::
  "passkey_service \<Rightarrow> (passkey_op \<times> (error + passkey_answer)) list \<Rightarrow> finish_stage multiset \<Rightarrow> world \<Rightarrow> world \<Rightarrow> bool" for s where
  start: "passkey_race s [] {#} w w"
| whole: "passkey_race s tr fl w w1 \<Longrightarrow> presented op = None \<Longrightarrow> perform s op w1 = (r, w2) \<Longrightarrow>
    passkey_race s (tr @ [(op, r)]) fl w w2"
| refused: "passkey_race s tr fl w w1 \<Longrightarrow> presented op = Some sess \<Longrightarrow> finish_open s op w1 = (Inl e, w2) \<Longrightarrow>
    passkey_race s (tr @ [(op, Inl e)]) fl w w2"
| opens: "passkey_race s tr fl w w1 \<Longrightarrow> finish_open s op w1 = (Inr env, w2) \<Longrightarrow>
    passkey_race s tr (add_mset (Opened op env) fl) w w2"
| calls: "passkey_race s tr (add_mset (Opened op env) fl) w w1 \<Longrightarrow> presented op = Some sess \<Longrightarrow>
    ConsumeWebAuthnChallenge (HashToken sess) w1 = (c, w2) \<Longrightarrow>
    passkey_race s tr (add_mset (Redeemed op env c) fl) w w2"
| closes: "passkey_race s tr (add_mset (Redeemed op env c) fl) w w1 \<Longrightarrow> finish_close s op env c w1 = (r, w2) \<Longrightarrow>
    passkey_race s (tr @ [(op, r)]) fl w w2"
| elsewhere: "passkey_race s tr fl w w1 \<Longrightarrow> chs_byTokenHash (challenges (db w2)) \<subseteq>\<^sub>m chs_byTokenHash (challenges (db w1)) \<Longrightarrow>
    passkey_race s tr fl w w2"

text \<open>Requests run one after the other are among the interleavings.\<close>

lemma race_finish:
  assumes race: "passkey_race s tr fl w w1" and op: "presented op = Some sess" and run: "perform s op w1 = (r, w2)"
  shows "passkey_race s (tr @ [(op, r)]) fl w w2"
proof -
  obtain x w3 where o: "finish_open s op w1 = (x, w3)" by fastforce
  show ?thesis
  proof (cases x)
    case (Inl e)
    then have "r = Inl e" "w3 = w2" using run o unfolding finish_is_cut [OF op] cut_finish_def by simp_all
    then show ?thesis using passkey_race.refused [OF race op o [unfolded Inl]] by simp
  next
    case (Inr env)
    obtain c w4 where c: "ConsumeWebAuthnChallenge (HashToken sess) w3 = (c, w4)" by fastforce
    have "passkey_race s tr (add_mset (Redeemed op env c) fl) w w4"
      by (rule passkey_race.calls [OF passkey_race.opens [OF race o [unfolded Inr]] op c])
    then show ?thesis using passkey_race.closes run o c unfolding finish_is_cut [OF op] cut_finish_def Inr by simp
  qed
qed

lemma run_is_race: "passkey_run s tr w w' \<Longrightarrow> passkey_race s tr {#} w w'"
proof (induction rule: passkey_run.induct)
  case (request tr w w1 op r w2)
  then show ?case by (cases "presented op") (auto intro: passkey_race.whole race_finish)
qed (auto intro: passkey_race.start passkey_race.elsewhere)

section \<open>Handles\<close>

text \<open>
  The requests answered well on a handle that hashes to \<open>h\<close>, the requests that issued it, the finishes in flight that hold
  its row, and whether the store has it.
\<close>

definition redeems :: "string \<Rightarrow> passkey_op \<times> (error + passkey_answer) \<Rightarrow> bool" where
  "redeems h = (\<lambda>(op, r). (\<exists>x. r = Inr x) \<and> (\<exists>sess. presented op = Some sess \<and> HashToken sess = h))"

definition issues :: "string \<Rightarrow> passkey_op \<times> (error + passkey_answer) \<Rightarrow> bool" where
  "issues h = (\<lambda>(op, r). \<exists>raw. r = Inr (Handle raw) \<and> HashToken raw = h)"

fun holding :: "string \<Rightarrow> finish_stage \<Rightarrow> bool" where
  "holding h (Redeemed op env (Inr row)) = (\<exists>sess. presented op = Some sess \<and> HashToken sess = h)"
| "holding h _ = False"

definition live :: "string \<Rightarrow> world \<Rightarrow> nat" where
  "live h w = (if chs_byTokenHash (challenges (db w)) h = None then 0 else 1)"

lemma live_same: "challenges (db w') = challenges (db w) \<Longrightarrow> live h w' = live h w"
  by (simp add: live_def)

lemma live_drop: "chs_byTokenHash (challenges (db w')) \<subseteq>\<^sub>m chs_byTokenHash (challenges (db w)) \<Longrightarrow> live h w' \<le> live h w"
  unfolding live_def map_le_def by (cases "chs_byTokenHash (challenges (db w')) h") force+

lemma finish_open_db: "finish_open s op w = (r, w') \<Longrightarrow> db w' = db w"
  by (cases op) (auto dest: loadUser_db split: if_splits)

lemma consume_live:
  assumes "ConsumeWebAuthnChallenge (HashToken sess) w = (c, w')"
  shows "(if holding h (Redeemed op env c) \<and> presented op = Some sess then 1 else 0) + live h w' \<le> live h w"
  using assms unfolding ConsumeWebAuthnChallenge_def
  by (auto simp: live_def mem_defs split: if_splits option.splits)

lemma leaves_openCeremony: "leaves g (openCeremony s kind c)"
proof -
  have "leaves g (case wl_UnmarshalCeremony l d of Inl x \<Rightarrow> raise e | Inr held \<Rightarrow> if cy_Kind held \<noteq> k then raise e' else ret (f held))"
    for l d e e' k f by (cases "wl_UnmarshalCeremony l d") (auto intro: keeps_rules)
  then show ?thesis unfolding openCeremony_def by (cases c) (auto intro!: keeps_rules)
qed

lemma leaves_loadUser: "leaves g (loadUser s u)"
  unfolding loadUser_def port_defs by (intro keeps_rules)

lemma leaves_completeLogin: "leaves challenges (completeLogin s u cred v)"
  unfolding completeLogin_def cloneCheck_def PK_log_def Let_def port_defs by (intro keeps_rules leaves_rules) simp_all

lemma leaves_discoverUser: "leaves g (discoverUser s raw h)"
  unfolding discoverUser_def port_defs by (intro keeps_rules leaves_loadUser)

lemmas leaves_finishes = keeps_rules leaves_rules leaves_openCeremony leaves_discoverUser leaves_completeLogin

lemma leaves_finish_close: "leaves challenges (finish_close s op env c)"
proof (cases op)
  case (Registers u name sess q)
  show ?thesis unfolding Registers
    by (cases env; simp only: finish_close.simps PK_log_def verified_def NewID_def port_defs; intro leaves_finishes; simp)
next
  case (Logs_in u sess q)
  show ?thesis unfolding Logs_in
    by (cases env; simp only: finish_close.simps verified_def; intro leaves_finishes; simp)
next
  case (Discovers sess q)
  show ?thesis unfolding Discovers
    by (cases env; simp only: finish_close.simps verified_def; intro leaves_finishes; simp)
qed (simp_all only: finish_close.simps keeps_rules)

lemma finish_close_ok:
  assumes "finish_close s op env c w = (Inr x, w')" shows "\<exists>row. c = Inr row"
proof (cases c)
  case (Inl e)
  have "openCeremony s kind c = (if e = ErrNotFound then raise (Passkey ErrSession) else raise e)" for kind
    using Inl by (simp add: openCeremony_def)
  then show ?thesis using assms by (cases op; cases env) (simp_all add: seq_run raise_def split: if_splits)
qed simp

lemma leaves_manage: "leaves challenges (Rename u i name)" "leaves challenges (Remove u i)"
  unfolding Rename_def Remove_def removable_def removeNow_def ownedCredential_def PK_log_def port_defs
  by (intro keeps_rules leaves_rules; simp)+

lemma whole_live:
  assumes "presented op = None" and "perform s op w = (r, w')"
  shows "live h w' \<le> live h w + (if issues h (op, r) then 1 else 0)"
  using assms leavesD [OF leaves_manage(1)] leavesD [OF leaves_manage(2)]
  by (cases op) (auto simp: issues_def issued_def live_def elim!: seq_retE split: prod.splits dest!: Begin_frames)

lemma close_redeems: "finish_close s op env c w = (r, w') \<Longrightarrow> redeems h (op, r) \<Longrightarrow> holding h (Redeemed op env c)"
  by (cases c) (auto simp: redeems_def dest: finish_close_ok)

text \<open>
  C16. A handle is good for one ceremony. Each finish is cut at its call on the table of handles, and any number of
  requests interleave, with each other and with the rest of the program, their calls in any order and with whatever
  faults: the requests answered well that present a handle, be they registrations, logins or usernameless logins, and
  the finishes in flight that hold its row, are never more than the times the handle was issued, plus one if it was in
  the store at the start.
\<close>

theorem passkey_handle_single_use:
  assumes "passkey_race s tr fl w w'"
  shows "length (filter (redeems h) tr) + size (filter_mset (holding h) fl) \<le>
    length (filter (issues h) tr) + (if chs_byTokenHash (challenges (db w)) h = None then 0 else 1)"
proof -
  have "length (filter (redeems h) tr) + size (filter_mset (holding h) fl) + live h w' \<le>
      live h w + length (filter (issues h) tr)"
    using assms
  proof (induction rule: passkey_race.induct)
    case (start w)
    show ?case by simp
  next
    case (whole tr fl w w1 op r w2)
    have "\<not> redeems h (op, r)" using whole.hyps(2) by (simp add: redeems_def)
    with whole.IH whole_live [OF whole.hyps(2,3), of h] show ?case by (cases "issues h (op, r)") simp_all
  next
    case (refused tr fl w w1 op sess e w2)
    have "\<not> redeems h (op, Inl e)" "\<not> issues h (op, Inl e)" "live h w2 = live h w1"
      using finish_open_db [OF refused.hyps(3)] by (simp_all add: redeems_def issues_def live_def)
    with refused.IH show ?case by simp
  next
    case (opens tr fl w w1 op env w2)
    have "live h w2 = live h w1" using finish_open_db [OF opens.hyps(2)] by (simp add: live_def)
    with opens.IH show ?case by simp
  next
    case (calls tr op env fl w w1 sess c w2)
    show ?case using calls.IH consume_live [OF calls.hyps(3), of h op env] calls.hyps(2) by (cases "holding h (Redeemed op env c)") simp_all
  next
    case (closes tr op env c fl w w1 r w2)
    have "redeems h (op, r) \<Longrightarrow> holding h (Redeemed op env c)"
      by (rule close_redeems [OF closes.hyps(2)])
    moreover have "live h w2 = live h w1" by (rule live_same [OF leavesD [OF leaves_finish_close closes.hyps(2)]])
    ultimately show ?case using closes.IH by (cases "redeems h (op, r)"; cases "issues h (op, r)"; cases "holding h (Redeemed op env c)") simp_all
  next
    case (elsewhere tr fl w w1 w2)
    show ?case using elsewhere.IH live_drop [OF elsewhere.hyps(2), of h] by simp
  qed
  then show ?thesis by (simp add: live_def split: if_splits)
qed

section \<open>What a login shows\<close>

lemma validated_row:
  assumes inv: "wcs_inv (passkeys d)" and rd: "readable (ks_web s) d" and load: "loads s u d wu"
    and member: "wn_ID cred \<in> wn_ID ` set (wu_creds wu)" and row: "row_of d (wc_ID c0) = Some c0" "wc_CredentialID c0 = wn_ID cred"
  shows "wc_UserID c0 = u"
proof -
  obtain stored where stored: "mem_ListWebAuthnCredentialsByUser (passkeys d) u = Inr stored"
    and creds: "unmarshal_each (ks_web s) stored = Inr (wu_creds wu)" using load unfolding loads_def by blast
  have listed: "row_of d (wc_ID c) = Some c \<and> wc_UserID c = u" if "c \<in> set stored" for c
    using wcs_listed(1) [OF inv stored] that by (simp add: row_of_def)
  have "\<forall>c \<in> set stored. \<exists>cred. wl_Unmarshal (ks_web s) (wc_Data c) = Inr cred \<and> wn_ID cred = wc_CredentialID c"
    using listed rd unfolding readable_def by blast
  from readable_ids [OF unmarshal_each_ok [OF creds] this]
  have "map wn_ID (wu_creds wu) = map wc_CredentialID stored" .
  then have "wn_ID cred \<in> wc_CredentialID ` set stored" using member by (metis list.set_map)
  then obtain c where c: "c \<in> set stored" "wc_CredentialID c = wn_ID cred" by auto
  then have "mem_GetWebAuthnCredentialByCredentialID (passkeys d) (wn_ID cred) = Inr c"
    and "mem_GetWebAuthnCredentialByCredentialID (passkeys d) (wn_ID cred) = Inr c0"
    using wcs_get_iff [OF inv] listed [OF c(1)] row by (simp_all add: row_of_def)
  then show ?thesis using listed [OF c(1)] by simp
qed

text \<open>What a completed login rests on and leaves, whoever was asked for.\<close>

definition sound_login ::
  "passkey_service \<Rightarrow> string \<Rightarrow> string \<Rightarrow> web_request \<Rightarrow> (time \<Rightarrow> webAuthnUser \<Rightarrow> wan_session \<Rightarrow> wan_assertion \<Rightarrow> error + wan_credential) \<Rightarrow>
   world \<Rightarrow> webAuthnUser \<Rightarrow> wan_session \<Rightarrow> wan_assertion \<Rightarrow> passkey_result \<Rightarrow> world \<Rightarrow> bool" where
  "sound_login s u sess q validate w wu session parsed x w' \<longleftrightarrow>
     redeemable s ceremonyLogin sess w session \<and> ws_Origin session = '''' \<and> ws_RelyingPartyID session = '''' \<and>
     chs_byTokenHash (challenges (db w')) (HashToken sess) = None \<and>
     loads s u (db w) wu \<and> wl_ParseResponse (ks_web s) q = Inr parsed \<and>
     (kc_UserVerification (ks_cfg s) = VerificationRequired \<longrightarrow> wa_UserVerified parsed) \<and>
     pk_User x = wu_u wu \<and> pk_UserVerified x = wa_UserVerified parsed \<and>
     (\<exists>cred. validate (clock w) wu session parsed = Inr cred \<and> wc_CredentialID (pk_Credential x) = wn_ID cred \<and>
        (kc_OnClone (ks_cfg s) = CloneReject \<longrightarrow> \<not> wn_CloneWarning cred)) \<and>
     wc_UserID (pk_Credential x) = u \<and> wc_LastUsedAt (pk_Credential x) = Some (clock w) \<and>
     row_of (db w') (wc_ID (pk_Credential x)) = Some (pk_Credential x)"

lemma sound_loginI:
  assumes inv: "wcs_inv (passkeys (db w))" and rd: "readable (ks_web s) (db w)" and load: "loads s u (db w) wu"
    and spent: "spends sess (db w) (db w') True" and rest: "login_rests_on s sess q validate w wu session parsed x (db w')"
    and own: "\<forall>cred. validate (clock w) wu session parsed = Inr cred \<longrightarrow> wn_ID cred \<in> wn_ID ` set (wu_creds wu)"
  shows "sound_login s u sess q validate w wu session parsed x w'"
proof -
  from rest obtain cred c0 where red: "redeemable s ceremonyLogin sess w session" and q: "wl_ParseResponse (ks_web s) q = Inr parsed"
    and v: "validate (clock w) wu session parsed = Inr cred"
    and clone: "kc_OnClone (ks_cfg s) = CloneReject \<longrightarrow> \<not> wn_CloneWarning cred"
    and c0: "row_of (db w) (wc_ID c0) = Some c0" "wc_CredentialID c0 = wn_ID cred"
    and sh: "login_shows s (wu_u wu) cred (wa_UserVerified parsed) w c0 x (db w')"
    unfolding login_rests_on_def by blast
  have "wc_UserID c0 = u" using validated_row [OF inv rd load _ c0] own v by blast
  moreover have "chs_byTokenHash (challenges (db w')) (HashToken sess) = None" using spent by (simp add: spends_def)
  moreover have "ws_Origin session = ''''" "ws_RelyingPartyID session = ''''" using red by (auto simp: redeemable_def)
  ultimately show ?thesis
    unfolding sound_login_def using load red q v clone c0(2) sh by (simp add: login_shows_def touched_def)
qed

text \<open>
  C10. A completed login of a named user rests on all of this: the handle named a login ceremony of this server that had
  not expired and had not been spent, and is spent now; the library validated this very response for this user and that
  ceremony, with no origin or relying party of the ceremony's own; the response showed user verification where the
  configuration requires it; the counter raised no alarm where alarms are refused; and the authenticator is one of this
  user's, marked as used now.
\<close>

theorem passkey_login_sound:
  assumes "FinishLogin s u sess q w = (Inr x, w')" and "wcs_inv (passkeys (db w))" and "readable (ks_web s) (db w)"
    and "wan_correct (ks_web s)"
  shows "\<exists>wu session parsed. sound_login s u sess q (wl_ValidateLogin (ks_web s)) w wu session parsed x w'"
proof -
  obtain wu session parsed where "loads s u (db w) wu" and "spends sess (db w) (db w') True"
    and "login_rests_on s sess q (wl_ValidateLogin (ks_web s)) w wu session parsed x (db w')"
    using FinishLogin_frame [OF assms(1,2)] by auto
  from sound_loginI [OF assms(2,3) this] assms(4) show ?thesis unfolding wan_correct_def by blast
qed

text \<open>
  A completed usernameless login signs in the owner of the authenticator that answered and nobody else: the user is
  looked up by the authenticator's id, the user handle the response carries has to agree, and the rest is shown for that
  user as for a named one.
\<close>

theorem discoverable_login_sound:
  assumes "FinishDiscoverableLogin s sess q w = (Inr x, w')" and "wcs_inv (passkeys (db w))" and "readable (ks_web s) (db w)"
    and "wan_correct (ks_web s)"
  shows "\<exists>c rawID wu session parsed. wl_Discover (ks_web s) session parsed = Inr (rawID, wc_UserID c) \<and>
    mem_GetWebAuthnCredentialByCredentialID (passkeys (db w)) rawID = Inr c \<and>
    sound_login s (wc_UserID c) sess q (wl_ValidateDiscoverable (ks_web s)) w wu session parsed x w'"
proof -
  obtain wu session parsed rawID c where disc: "wl_Discover (ks_web s) session parsed = Inr (rawID, wc_UserID c)"
      "mem_GetWebAuthnCredentialByCredentialID (passkeys (db w)) rawID = Inr c"
    and load: "loads s (wc_UserID c) (db w) wu" and sp: "spends sess (db w) (db w') True"
    and rest: "login_rests_on s sess q (wl_ValidateDiscoverable (ks_web s)) w wu session parsed x (db w')"
    using FinishDiscoverableLogin_frame [OF assms(1,2)] by auto
  have "sound_login s (wc_UserID c) sess q (wl_ValidateDiscoverable (ks_web s)) w wu session parsed x w'"
    using sound_loginI [OF assms(2,3) load sp rest] assms(4) unfolding wan_correct_def by blast
  with disc show ?thesis by blast
qed

text \<open>
  C18. What the library verified at a registration is what the store holds afterwards: the row is the user's, is found by
  the authenticator's id, is listed for the user with the others, and reads back as the very credential; an id the store
  already has is never registered again.
\<close>

theorem passkey_registration_roundtrip:
  assumes "FinishRegistration s u name sess q w = (Inr c, w')" and "wcs_inv (passkeys (db w))"
    and "row_of (db w) (wc_ID c) = None" and "wan_correct (ks_web s)"
  shows "\<exists>wu session cred. loads s u (db w) wu \<and> redeemable s ceremonyRegistration sess w session \<and>
    wl_FinishRegistration (ks_web s) (clock w) wu session q = Inr cred \<and>
    mem_GetWebAuthnCredentialByCredentialID (passkeys (db w)) (wn_ID cred) = Inl ErrNotFound \<and>
    mem_GetWebAuthnCredentialByCredentialID (passkeys (db w')) (wn_ID cred) = Inr c \<and>
    wc_UserID c = u \<and> wc_Name c = name \<and> wl_Unmarshal (ks_web s) (wc_Data c) = Inr cred \<and>
    (\<exists>cs. mem_ListWebAuthnCredentialsByUser (passkeys (db w')) u = Inr cs \<and> c \<in> set cs)"
proof -
  obtain wu session cred where f: "loads s u (db w) wu" "redeemable s ceremonyRegistration sess w session"
    "wl_FinishRegistration (ks_web s) (clock w) wu session q = Inr cred" and reg: "registers s u name cred (db w) c (db w')"
    using FinishRegistration_frame [OF assms(1)] by blast
  have inv: "wcs_inv (passkeys (db w'))" using registers_rows(1) [OF reg assms(2,3)] by (simp add: row_added_def)
  have row: "row_of (db w') (wc_ID c) = Some c" using registers_rows(2) [OF reg assms(2,3)] by simp
  have got: "mem_GetWebAuthnCredentialByCredentialID (passkeys (db w')) (wn_ID cred) = Inr c"
    using wcs_get_iff [OF inv] row reg by (simp add: row_of_def registers_def)
  obtain cs where cs: "mem_ListWebAuthnCredentialsByUser (passkeys (db w')) u = Inr cs"
    by (simp add: mem_ListWebAuthnCredentialsByUser_def)
  then have "c \<in> set cs" using wcs_listed(1) [OF inv cs] row reg by (simp add: row_of_def registers_def)
  moreover have "wl_Unmarshal (ks_web s) (wc_Data c) = Inr cred" using assms(4) reg unfolding wan_correct_def registers_def by blast
  ultimately show ?thesis using f reg got cs unfolding registers_def by blast
qed


section \<open>Clones, strangers and removals\<close>

text \<open>
  A login whose counter raised an alarm is refused where alarms are refused, and the refusal is recorded first: the
  authenticator's row is flagged, and the alarm is in the audit trail, before the caller hears of it.
\<close>

theorem clone_refused_and_recorded:
  assumes "wn_CloneWarning cred" and "kc_OnClone (ks_cfg s) = CloneReject" and "faults w = []" and "wcs_inv (passkeys (db w))"
    and "mem_GetWebAuthnCredentialByCredentialID (passkeys (db w)) (wn_ID cred) = Inr c"
  shows "\<exists>w'. completeLogin s u cred uv w = (Inl (Passkey ErrCloneWarning), w') \<and>
    row_of (db w') = (row_of (db w))(wc_ID c \<mapsto> c\<lparr>wc_CloneWarning := True, wc_UpdatedAt := clock w\<rparr>) \<and>
    (\<exists>e. trail w' = trail w @ [e] \<and> ev_Type e = EventPasskeyCloneWarning \<and> ev_ActorID e = u_ID u)"
proof -
  have row: "wcs_byID (passkeys (db w)) (wc_ID c) = Some c" using assms(4,5) wcs_get_iff by blast
  then show ?thesis
    using assms by (simp add: completeLogin_def cloneCheck_def GetWebAuthnCredentialByCredentialID_def UpdateWebAuthnCredential_def
        mem_UpdateWebAuthnCredential_def seq_def on_def raise_def PK_log_def row_of_def event_of_def fun_eq_iff)
qed

text \<open>
  To rename or remove an authenticator one does not own is the same, in the answer and in what it leaves, as to ask
  for one that does not exist: the ids cannot be probed.
\<close>

theorem foreign_passkey_like_missing:
  assumes "faults w = []" and "\<forall>c. row_of (db w) i = Some c \<longrightarrow> wc_UserID c \<noteq> u"
  shows "Rename u i name w = (Inl (Passkey ErrCredentialNotFound), w) \<and> Remove u i w = (Inl (Passkey ErrCredentialNotFound), w)"
proof -
  have "ownedCredential u i w = (Inl (Passkey ErrCredentialNotFound), w)"
    using assms by (cases "row_of (db w) i") (auto simp: ownedCredential_def GetWebAuthnCredential_def mem_GetWebAuthnCredential_def row_of_def on_def raise_def)
  then show ?thesis by (simp add: Rename_def Remove_def removable_def seq_def on_def raise_def)
qed

text \<open>
  Removing an authenticator takes out exactly the named one, which is the caller's own, and never the last thing the
  account can be reached with: afterwards the user still has another authenticator or a password.
\<close>

theorem passkey_removal_keeps_credential:
  assumes "Remove u i w = (Inr (), w')" and "wcs_inv (passkeys (db w))"
  shows "\<exists>c cs. row_of (db w) i = Some c \<and> wc_UserID c = u \<and> mem_ListWebAuthnCredentialsByUser (passkeys (db w)) u = Inr cs \<and>
    mem_ListWebAuthnCredentialsByUser (passkeys (db w')) u = Inr (filter (\<lambda>b. wc_ID b \<noteq> i) cs) \<and>
    (filter (\<lambda>b. wc_ID b \<noteq> i) cs \<noteq> [] \<or>
     (\<exists>usr. mem_GetUserByID (users (db w')) u = Inr usr \<and> u_PasswordHash usr \<noteq> ''''))"
proof -
  from assms(1) obtain c w1 where t: "removable u i w = (Inr c, w1)" and d: "removeNow u c w1 = (Inr (), w')"
    unfolding Remove_def by (rule seq_okE)
  obtain cs where cs: "mem_ListWebAuthnCredentialsByUser (passkeys (db w)) u = Inr cs"
    and one: "length cs = 1 \<longrightarrow> (\<exists>usr. mem_GetUserByID (users (db w)) u = Inr usr \<and> u_PasswordHash usr \<noteq> '''')"
    using removable_ok(2) [OF t] by blast
  have own: "row_of (db w) i = Some c" "wc_UserID c = u" "db w1 = db w" using removable_ok(1) [OF t] by simp_all
  have id: "wc_ID c = i" by (rule row_id [OF assms(2) own(1)])
  have mem: "c \<in> set cs" using wcs_listed(1) [OF assms(2) cs] own id by (simp add: row_of_def)
  obtain p where del: "mem_DeleteWebAuthnCredential (wc_ID c) (passkeys (db w)) = (Inr (), p)" and w': "db w' = (db w)\<lparr>passkeys := p\<rparr>"
    using removeNow_ok(2) [OF d] own(3) by auto
  have listed: "mem_ListWebAuthnCredentialsByUser p u = Inr (filter (\<lambda>b. wc_ID b \<noteq> i) cs)"
    using passkey_tab.delete_listed [OF assms(2) cs mem del] id by simp
  moreover have "filter (\<lambda>b. wc_ID b \<noteq> i) cs \<noteq> [] \<or> (\<exists>usr. mem_GetUserByID (users (db w')) u = Inr usr \<and> u_PasswordHash usr \<noteq> '''')"
  proof (cases "length cs = 1")
    case True
    then show ?thesis using one w' by simp
  next
    case False
    then show ?thesis using passkey_tab.one_remains [OF assms(2) cs mem _ del] listed id by auto
  qed
  ultimately show ?thesis using own cs w' by auto
qed

text \<open>
  The rule is checked before the deletion and not again: of a user without a password and with two authenticators, two
  requests that both look before either deletes take both, and nobody can sign in any more.
\<close>

lemma concurrent_removals_strand_account:
  assumes inv: "wcs_inv (passkeys (db w))" and two: "mem_ListWebAuthnCredentialsByUser (passkeys (db w)) u = Inr [a, b]"
    and calm: "faults w = []"
  shows "\<exists>w3. removable u (wc_ID a) w = (Inr a, w) \<and> removable u (wc_ID b) w = (Inr b, w) \<and>
    removeNow u b (snd (removeNow u a w)) = (Inr (), w3) \<and>
    mem_ListWebAuthnCredentialsByUser (passkeys (db w3)) u = Inr [] \<and> users (db w3) = users (db w)"
proof -
  have rows: "wcs_byID (passkeys (db w)) (wc_ID c) = Some c \<and> wc_UserID c = u" if "c \<in> {a, b}" for c
    using wcs_listed(1) [OF inv two] that by auto
  have look: "removable u (wc_ID c) w = (Inr c, w)" if "c \<in> {a, b}" for c
    using rows [OF that] two calm by (simp add: removable_def ownedCredential_def GetWebAuthnCredential_def mem_GetWebAuthnCredential_def
        ListWebAuthnCredentialsByUser_def seq_def on_def ret_def)
  obtain x p1 where d1: "mem_DeleteWebAuthnCredential (wc_ID a) (passkeys (db w)) = (x, p1)" by fastforce
  obtain y p2 where d2: "mem_DeleteWebAuthnCredential (wc_ID b) p1 = (y, p2)" by fastforce
  note gone = passkey_tab.two_deletions_empty [OF inv two d1 d2]
  have 1: "db (snd (removeNow u a w)) = (db w)\<lparr>passkeys := p1\<rparr>" "faults (snd (removeNow u a w)) = []"
    using d1 gone(1) calm by (simp_all add: removeNow_def DeleteWebAuthnCredential_def PK_log_def seq_def on_def)
  have "\<exists>w3. removeNow u b (snd (removeNow u a w)) = (Inr (), w3) \<and> db w3 = (db w)\<lparr>passkeys := p2\<rparr>"
    using d2 gone(2) 1 by (simp add: removeNow_def DeleteWebAuthnCredential_def PK_log_def seq_def on_def)
  then show ?thesis using look gone(3) by fastforce
qed


section \<open>The properties at concrete inputs\<close>

text \<open>A library that answers with the user's first authenticator, or with a new one of the id \<open>[7]\<close>.\<close>

definition demo_credential :: "byte list \<Rightarrow> wan_credential" where
  "demo_credential i = \<lparr>wn_ID = i, wn_BackupEligible = False, wn_BackupState = False, wn_Transport = [], wn_CloneWarning = False,
     wn_rest = ''''\<rparr>"

definition demo_ceremony :: wan_session where
  "demo_ceremony = \<lparr>ws_Origin = '''', ws_RelyingPartyID = '''', ws_Expires = None, ws_rest = ''challenge''\<rparr>"

definition demo_validate :: "time \<Rightarrow> webAuthnUser \<Rightarrow> wan_session \<Rightarrow> wan_assertion \<Rightarrow> error + wan_credential" where
  "demo_validate now wu session a = (case wu_creds wu of [] \<Rightarrow> Inl (Fault ''none'') | c # _ \<Rightarrow> Inr c)"

definition demo_wan :: wan_lib where
  "demo_wan = \<lparr>wl_BeginRegistration = (\<lambda>_ _ _ _ _. Inr (''options'', demo_ceremony)),
     wl_FinishRegistration = (\<lambda>_ _ _ _. Inr (demo_credential [7])),
     wl_BeginLogin = (\<lambda>_ _ _ _. Inr (''options'', demo_ceremony)),
     wl_BeginDiscoverableLogin = (\<lambda>_ _ _. Inr (''options'', demo_ceremony)),
     wl_ParseResponse = (\<lambda>q. Inr \<lparr>wa_UserVerified = True, wa_rest = q\<rparr>),
     wl_ValidateLogin = demo_validate, wl_Discover = (\<lambda>_ _. Inr ([5], ''u1'')), wl_HandlerFailed = id,
     wl_ValidateDiscoverable = demo_validate, wl_Descriptor = (\<lambda>_. ''descriptor''),
     wl_Marshal = (\<lambda>c. if c = demo_credential (wn_ID c) then Inr (wn_ID c) else Inl (Fault ''marshal'')),
     wl_Unmarshal = (\<lambda>d. Inr (demo_credential d)),
     wl_MarshalCeremony = (\<lambda>c. Inr (if cy_Kind c = ceremonyLogin then [1] else [2])),
     wl_UnmarshalCeremony = (\<lambda>d. Inr \<lparr>cy_Kind = (if d = [1] then ceremonyLogin else ceremonyRegistration), cy_Session = demo_ceremony\<rparr>),
     wl_MarshalOptions = Inr\<rparr>"

definition demo_passkey_service :: passkey_service where
  "demo_passkey_service = \<lparr>ks_web = demo_wan, ks_cfg = \<lparr>kc_RPDisplayName = ''authit'', kc_RPID = ''x'', kc_RPOrigins = [''https://x''],
     kc_UserVerification = VerificationRequired, kc_OnClone = CloneReject, kc_Timeout = minute\<rparr>\<rparr>"

definition demo_passkey :: webauthn_credential where
  "demo_passkey = \<lparr>wc_ID = ''k1'', wc_UserID = ''u1'', wc_CredentialID = [5], wc_Data = [5], wc_Name = ''phone'', wc_Transports = [],
     wc_BackupEligible = False, wc_BackupState = False, wc_CloneWarning = False, wc_LastUsedAt = None, wc_CreatedAt = 0,
     wc_UpdatedAt = 0\<rparr>"

definition demo_challenge :: "byte list \<Rightarrow> webauthn_challenge" where
  "demo_challenge d = \<lparr>ch_ID = ''c1'', ch_TokenHash = HashToken ''h'', ch_UserID = None, ch_Data = d, ch_ExpiresAt = 60, ch_CreatedAt = 0\<rparr>"

text \<open>A user with a password and one authenticator, and a ceremony of the given kind under way.\<close>

definition demo_passkey_world :: "byte list \<Rightarrow> world" where
  "demo_passkey_world d = demo_world\<lparr>db := (db demo_world)
     \<lparr>passkeys := snd (mem_CreateWebAuthnCredential demo_passkey NewWebAuthnCredentialStore),
      challenges := snd (mem_CreateWebAuthnChallenge (demo_challenge d) NewWebAuthnChallengeStore)\<rparr>\<rparr>"

lemmas demo_passkey_defs = demo_credential_def demo_ceremony_def demo_validate_def demo_wan_def demo_passkey_service_def
  demo_passkey_def demo_challenge_def demo_passkey_world_def no_ids_def append_id_def

lemma demo_wan_correct: "wan_correct (ks_web demo_passkey_service)"
  by (auto simp: wan_correct_def demo_passkey_service_def demo_wan_def demo_validate_def demo_credential_def split: list.splits if_splits)

lemma demo_passkey_inv:
  "wcs_inv (passkeys (db (demo_passkey_world d)))" "readable (ks_web demo_passkey_service) (db (demo_passkey_world d))"
  "faults (demo_passkey_world d) = []" "row_of (db (demo_passkey_world d)) = [''k1'' \<mapsto> demo_passkey]"
  "mem_ListWebAuthnCredentialsByUser (passkeys (db (demo_passkey_world d))) ''u1'' = Inr [demo_passkey]"
  "wcs_byID (passkeys (db (demo_passkey_world d))) = [''k1'' \<mapsto> demo_passkey]"
proof -
  have new: "mem_CreateWebAuthnCredential demo_passkey NewWebAuthnCredentialStore = (Inr (), passkeys (db (demo_passkey_world d)))"
    by (simp add: demo_passkey_world_def mem_CreateWebAuthnCredential_def NewWebAuthnCredentialStore_def Let_def)
  show "wcs_inv (passkeys (db (demo_passkey_world d)))"
    by (rule wcs_inv_create [OF wcs_inv_new _ new]) (simp add: NewWebAuthnCredentialStore_def)
  show rows: "wcs_byID (passkeys (db (demo_passkey_world d))) = [''k1'' \<mapsto> demo_passkey]"
    by (simp add: demo_passkey_defs demo_defs mem_defs Let_def)
  show row: "row_of (db (demo_passkey_world d)) = [''k1'' \<mapsto> demo_passkey]" by (rule ext) (simp add: row_of_def rows)
  show "readable (ks_web demo_passkey_service) (db (demo_passkey_world d))"
    unfolding readable_def row by (simp add: demo_passkey_defs)
  show "faults (demo_passkey_world d) = []" by (simp add: demo_passkey_world_def demo_defs)
  show "mem_ListWebAuthnCredentialsByUser (passkeys (db (demo_passkey_world d))) ''u1'' = Inr [demo_passkey]"
    by (simp add: demo_passkey_defs demo_defs mem_defs Let_def)
qed

lemmas demo_passkey_run = loadUser_def consumeCeremony_def completeLogin_def cloneCheck_def applyCredential_def PK_log_def
  verified_def assertionUserVerified_def time_defs Let_def

lemma demo_passkey_login: "\<exists>x w'. FinishLogin demo_passkey_service ''u1'' ''h'' ''response'' (demo_passkey_world [1]) = (Inr x, w')"
  by (simp add: FinishLogin_def demo_passkey_run demo_passkey_defs demo_defs run_defs mem_defs)

lemma demo_discoverable: "\<exists>x w'. FinishDiscoverableLogin demo_passkey_service ''h'' ''response'' (demo_passkey_world [1]) = (Inr x, w')"
  by (simp add: FinishDiscoverableLogin_def discoverUser_def demo_passkey_run demo_passkey_defs demo_defs run_defs mem_defs)

lemma demo_registration:
  "\<exists>c w'. FinishRegistration demo_passkey_service ''u1'' ''laptop'' ''h'' ''response'' (demo_passkey_world [2]) = (Inr c, w') \<and>
     length (wc_ID c) = 36"
  by (simp add: FinishRegistration_def demo_passkey_run demo_passkey_defs demo_defs run_defs mem_defs NewID_def ceremonyLogin_def
      ceremonyRegistration_def row_via_def uuid_of_length)

theorem passkey_never_moves_witness:
  "\<exists>w' c'. passkey_run demo_passkey_service [(Removes ''u2'' ''k1'', Inl (Passkey ErrCredentialNotFound))] (demo_passkey_world [1]) w' \<and>
     row_of (db w') ''k1'' = Some c' \<and> wc_UserID c' = ''u1''"
proof -
  let ?w = "demo_passkey_world [1]"
  have "perform demo_passkey_service (Removes ''u2'' ''k1'') ?w = (Inl (Passkey ErrCredentialNotFound), ?w)"
    by (simp add: demo_passkey_inv Remove_def removable_def ownedCredential_def GetWebAuthnCredential_def mem_GetWebAuthnCredential_def
        seq_def on_def raise_def demo_passkey_def)
  from passkey_run.request [OF passkey_run.start this]
  have run: "passkey_run demo_passkey_service [(Removes ''u2'' ''k1'', Inl (Passkey ErrCredentialNotFound))] ?w ?w" by simp
  have "row_of (db ?w) ''k1'' = Some demo_passkey" by (simp add: demo_passkey_inv)
  from passkey_never_moves [OF run demo_passkey_inv(1) this] run show ?thesis by (auto simp: demo_passkey_def)
qed

theorem passkey_rows_stay_readable_witness:
  "\<exists>stored creds. mem_ListWebAuthnCredentialsByUser (passkeys (db (demo_passkey_world [1]))) ''u1'' = Inr stored \<and>
     unmarshal_each demo_wan stored = Inr creds \<and> map wn_ID creds = [[5]]"
proof -
  have "ks_web demo_passkey_service = demo_wan" by (simp add: demo_passkey_service_def)
  moreover from passkey_rows_stay_readable [OF passkey_run.start demo_passkey_inv(1,2) demo_wan_correct, of "[1]" "''u1''"]
  obtain stored creds where "mem_ListWebAuthnCredentialsByUser (passkeys (db (demo_passkey_world [1]))) ''u1'' = Inr stored"
    "unmarshal_each (ks_web demo_passkey_service) stored = Inr creds" "map wn_ID creds = map wc_CredentialID stored" by blast
  moreover from this(1) have "stored = [demo_passkey]" using demo_passkey_inv(5) by simp
  ultimately show ?thesis by (simp add: demo_passkey_def)
qed

text \<open>Two logins with one handle that both looked the user up before either called the store.\<close>

lemma demo_passkey_open:
  "\<exists>env. finish_open demo_passkey_service (Logs_in ''u1'' ''h'' ''response'') (demo_passkey_world [1]) = (Inr env, demo_passkey_world [1])"
  by (simp add: demo_passkey_run demo_passkey_defs demo_defs run_defs mem_defs)

lemma consume_twice:
  "ConsumeWebAuthnChallenge h w = (c, w') \<Longrightarrow> faults w = [] \<Longrightarrow> ConsumeWebAuthnChallenge h w' = (Inl ErrNotFound, w')"
  by (auto simp: ConsumeWebAuthnChallenge_def on_challenges_def wr_def mem_defs split: option.splits)

theorem passkey_handle_single_use_witness:
  "\<exists>tr w'. passkey_race demo_passkey_service tr {#} (demo_passkey_world [1]) w' \<and>
     map fst tr = replicate 2 (Logs_in ''u1'' ''h'' ''response'') \<and> length (filter (redeems (HashToken ''h'')) tr) = 1"
proof -
  let ?s = demo_passkey_service and ?op = "Logs_in ''u1'' ''h'' ''response''" and ?w = "demo_passkey_world [1]"
  obtain x w1 where log1: "FinishLogin ?s ''u1'' ''h'' ''response'' ?w = (Inr x, w1)" using demo_passkey_login by blast
  obtain env where opened: "finish_open ?s ?op ?w = (Inr env, ?w)" using demo_passkey_open by blast
  obtain c w2 where call: "ConsumeWebAuthnChallenge (HashToken ''h'') ?w = (c, w2)" by fastforce
  note again = consume_twice [OF call demo_passkey_inv(3)]
  have "cut_finish ?s ?op ''h'' ?w = (Inr (Signed_in x), w1)"
    unfolding finish_is_cut [of ?op "''h''", symmetric, simplified] using log1 by (simp add: seq_def on_def ret_def)
  then have close: "finish_close ?s ?op env c w2 = (Inr (Signed_in x), w1)"
    by (simp only: cut_finish_def opened call prod.case sum.case)
  obtain r w3 where close': "finish_close ?s ?op env (Inl ErrNotFound) w1 = (r, w3)" by fastforce
  have "passkey_race ?s [] {#Opened ?op env, Opened ?op env#} ?w ?w"
    by (rule passkey_race.opens [OF passkey_race.opens [OF passkey_race.start opened] opened])
  from passkey_race.calls [OF this _ call]
  have "passkey_race ?s [] {#Opened ?op env, Redeemed ?op env c#} ?w w2" by (simp add: add_mset_commute)
  from passkey_race.calls [OF this _ again]
  have "passkey_race ?s [] {#Redeemed ?op env c, Redeemed ?op env (Inl ErrNotFound)#} ?w w2" by (simp add: add_mset_commute)
  from passkey_race.closes [OF passkey_race.closes [OF this close] close']
  have race: "passkey_race ?s [(?op, Inr (Signed_in x)), (?op, r)] {#} ?w w3" by simp
  have "\<nexists>raw. r = Inr (Handle raw)" using close' finish_close_ok by blast
  then have "length (filter (redeems (HashToken ''h'')) [(?op, Inr (Signed_in x)), (?op, r)]) \<le> 1"
    using passkey_handle_single_use [OF race, of "HashToken ''h''"] by (simp add: issues_def split: if_splits)
  moreover have "redeems (HashToken ''h'') (?op, Inr (Signed_in x))" by (simp add: redeems_def)
  ultimately have "length (filter (redeems (HashToken ''h'')) [(?op, Inr (Signed_in x)), (?op, r)]) = 1" by (simp split: if_splits)
  then show ?thesis using race
    by (intro exI [of _ "[(?op, Inr (Signed_in x)), (?op, r)]"] exI [of _ w3]) (simp add: numeral_2_eq_2)
qed

theorem passkey_login_sound_witness:
  "\<exists>x w'. FinishLogin demo_passkey_service ''u1'' ''h'' ''response'' (demo_passkey_world [1]) = (Inr x, w') \<and>
     wc_UserID (pk_Credential x) = ''u1'' \<and> pk_UserVerified x"
proof -
  obtain x w' where run: "FinishLogin demo_passkey_service ''u1'' ''h'' ''response'' (demo_passkey_world [1]) = (Inr x, w')"
    using demo_passkey_login by blast
  have "kc_UserVerification (ks_cfg demo_passkey_service) = VerificationRequired" by (simp add: demo_passkey_service_def)
  with passkey_login_sound [OF run demo_passkey_inv(1,2) demo_wan_correct] run show ?thesis by (auto simp: sound_login_def)
qed

theorem discoverable_login_sound_witness:
  "\<exists>x w'. FinishDiscoverableLogin demo_passkey_service ''h'' ''response'' (demo_passkey_world [1]) = (Inr x, w') \<and>
     wc_UserID (pk_Credential x) = ''u1''"
proof -
  obtain x w' where run: "FinishDiscoverableLogin demo_passkey_service ''h'' ''response'' (demo_passkey_world [1]) = (Inr x, w')"
    using demo_discoverable by blast
  have "wl_Discover (ks_web demo_passkey_service) = (\<lambda>_ _. Inr ([5], ''u1''))" by (simp add: demo_passkey_service_def demo_wan_def)
  with discoverable_login_sound [OF run demo_passkey_inv(1,2) demo_wan_correct] run show ?thesis by (auto simp: sound_login_def)
qed

theorem passkey_registration_roundtrip_witness:
  "\<exists>c w'. FinishRegistration demo_passkey_service ''u1'' ''laptop'' ''h'' ''response'' (demo_passkey_world [2]) = (Inr c, w') \<and>
     wl_Unmarshal demo_wan (wc_Data c) = Inr (demo_credential [7])"
proof -
  obtain c w' where run: "FinishRegistration demo_passkey_service ''u1'' ''laptop'' ''h'' ''response'' (demo_passkey_world [2]) = (Inr c, w')"
    and len: "length (wc_ID c) = 36"
    using demo_registration by blast
  have "wc_ID c \<noteq> ''k1''" using len by auto
  then have "row_of (db (demo_passkey_world [2])) (wc_ID c) = None" by (simp add: demo_passkey_inv)
  from passkey_registration_roundtrip [OF run demo_passkey_inv(1) this demo_wan_correct] run show ?thesis
    by (auto simp: demo_passkey_service_def demo_wan_def)
qed

theorem clone_refused_and_recorded_witness:
  "\<exists>w'. completeLogin demo_passkey_service demo_user ((demo_credential [5])\<lparr>wn_CloneWarning := True\<rparr>) True (demo_passkey_world [1]) =
     (Inl (Passkey ErrCloneWarning), w') \<and> (\<exists>c. row_of (db w') ''k1'' = Some c \<and> wc_CloneWarning c)"
proof -
  have "mem_GetWebAuthnCredentialByCredentialID (passkeys (db (demo_passkey_world [1]))) (wn_ID ((demo_credential [5])\<lparr>wn_CloneWarning := True\<rparr>)) =
      Inr demo_passkey"
    using wcs_get_iff [OF demo_passkey_inv(1)] by (simp add: demo_passkey_inv demo_credential_def) (simp add: demo_passkey_def)
  from clone_refused_and_recorded [OF _ _ demo_passkey_inv(3,1) this, of demo_passkey_service demo_user True] show ?thesis
    by (auto simp: demo_passkey_service_def demo_passkey_def)
qed

theorem foreign_passkey_like_missing_witness:
  "Remove ''u2'' ''k1'' (demo_passkey_world [1]) = (Inl (Passkey ErrCredentialNotFound), demo_passkey_world [1]) \<and>
   Remove ''u2'' ''k9'' (demo_passkey_world [1]) = (Inl (Passkey ErrCredentialNotFound), demo_passkey_world [1])"
proof -
  have "\<forall>c. row_of (db (demo_passkey_world [1])) i = Some c \<longrightarrow> wc_UserID c \<noteq> ''u2''" for i
    by (simp add: demo_passkey_inv demo_passkey_def)
  from foreign_passkey_like_missing [OF demo_passkey_inv(3) this] show ?thesis by blast
qed

theorem passkey_removal_keeps_credential_witness:
  "\<exists>w'. Remove ''u1'' ''k1'' (demo_passkey_world [1]) = (Inr (), w') \<and>
     (\<exists>usr. mem_GetUserByID (users (db w')) ''u1'' = Inr usr \<and> u_PasswordHash usr \<noteq> '''')"
proof -
  have "\<exists>w'. Remove ''u1'' ''k1'' (demo_passkey_world [1]) = (Inr (), w')"
    by (simp add: Remove_def removable_def removeNow_def ownedCredential_def PK_log_def demo_passkey_defs demo_defs run_defs mem_defs Let_def)
  then obtain w' where run: "Remove ''u1'' ''k1'' (demo_passkey_world [1]) = (Inr (), w')" by blast
  have "filter (\<lambda>b. wc_ID b \<noteq> ''k1'') [demo_passkey] = []" by (simp add: demo_passkey_def)
  with passkey_removal_keeps_credential [OF run demo_passkey_inv(1)] demo_passkey_inv(5) run show ?thesis by auto
qed

end
