(* ===== verification/Authz.thy ===== *)
theory Authz
  imports StoreTypes "HOL-Library.Mapping"
begin

text \<open>
  Package \<open>authz\<close>: the table of what each role may do to a team (\<open>authz/authz.go\<close>). A Go map is a \<open>mapping\<close>; a map
  with the value \<open>false\<close> at a key is one without it, which is how the code reads it.
\<close>

type_synonym action = string

definition ActionViewTeam :: action where "ActionViewTeam = ''view''"
definition ActionManageMembers :: action where "ActionManageMembers = ''manage_members''"
definition ActionManageInvitations :: action where "ActionManageInvitations = ''manage_invitations''"
definition ActionManageOwners :: action where "ActionManageOwners = ''manage_owners''"

record policy =
  py_grants :: "(role, (action, bool) mapping) mapping"

definition granted :: "action list \<Rightarrow> (action, bool) mapping" where
  "granted actions = fold (\<lambda>a m. Mapping.update a True m) actions Mapping.empty"

text \<open>\<open>NewPolicy\<close> ranges over a map, so over distinct roles, in any order.\<close>

definition NewPolicy :: "(role \<times> action list) list \<Rightarrow> policy" where
  "NewPolicy grants = \<lparr>py_grants = fold (\<lambda>(role, actions) m. Mapping.update role (granted actions) m) grants Mapping.empty\<rparr>"

definition DefaultPolicy :: policy where
  "DefaultPolicy = NewPolicy
     [(RoleOwner, [ActionViewTeam, ActionManageMembers, ActionManageInvitations, ActionManageOwners]),
      (RoleAdmin, [ActionViewTeam, ActionManageMembers, ActionManageInvitations]),
      (RoleMember, [ActionViewTeam])]"

definition With :: "policy \<Rightarrow> role \<Rightarrow> action list \<Rightarrow> policy" where
  "With p role actions = \<lparr>py_grants = Mapping.update role (granted actions) (py_grants p)\<rparr>"

definition Empty :: "policy \<Rightarrow> bool" where "Empty p \<longleftrightarrow> Mapping.size (py_grants p) = 0"

definition CanRole :: "policy \<Rightarrow> role \<Rightarrow> action \<Rightarrow> bool" where
  "CanRole p role action =
     (case Mapping.lookup (py_grants p) role of
        None \<Rightarrow> False
      | Some g \<Rightarrow> (case Mapping.lookup g action of None \<Rightarrow> False | Some b \<Rightarrow> b))"

definition Can :: "policy \<Rightarrow> member \<Rightarrow> action \<Rightarrow> bool" where
  "Can p m action = (if \<not> m_IsActive m then False else CanRole p (m_Role m) action)"

lemma lookup_granted: "Mapping.lookup (granted actions) a = (if a \<in> set actions then Some True else None)"
proof -
  have "Mapping.lookup (fold (\<lambda>a m. Mapping.update a True m) actions m) a =
      (if a \<in> set actions then Some True else Mapping.lookup m a)" for m
    by (induction actions arbitrary: m) (auto simp: lookup_update')
  then show ?thesis by (simp add: granted_def)
qed

lemma lookup_grants:
  "Mapping.lookup (py_grants (NewPolicy grants)) role = map_option granted (map_of (rev grants) role)"
proof -
  have "Mapping.lookup (fold (\<lambda>(r, as) m. Mapping.update r (granted as) m) grants m) role =
      (case map_of (rev grants) role of None \<Rightarrow> Mapping.lookup m role | Some as \<Rightarrow> Some (granted as))" for m
    by (induction grants arbitrary: m) (auto simp: lookup_update' map_add_def split: option.splits)
  then show ?thesis by (simp add: NewPolicy_def split: option.splits)
qed

text \<open>
  A policy grants what its table lists and nothing else: a member may take an action exactly when it is active and its
  role's entry lists the action; replacing the entry of one role decides that role and leaves every other as it was.
\<close>

lemma policy_grants_its_table:
  assumes "distinct (map fst grants)"
  shows "Can (NewPolicy grants) m a \<longleftrightarrow> m_IsActive m \<and> (\<exists>actions. (m_Role m, actions) \<in> set grants \<and> a \<in> set actions)"
proof -
  have d: "distinct (map fst (rev grants))" using assms by (simp add: rev_map [symmetric])
  have "CanRole (NewPolicy grants) r a \<longleftrightarrow> (\<exists>actions. map_of (rev grants) r = Some actions \<and> a \<in> set actions)" for r
    by (cases "map_of (rev grants) r") (simp_all add: CanRole_def lookup_grants lookup_granted)
  then show ?thesis by (simp add: Can_def map_of_eq_Some_iff [OF d])
qed

lemma With_replaces_one_role: "CanRole (With p r actions) r' a \<longleftrightarrow> (if r' = r then a \<in> set actions else CanRole p r' a)"
  by (simp add: CanRole_def With_def lookup_update' lookup_granted)

text \<open>The built-in policy is a ladder: an owner may do what an admin may, an admin what a member may, and only an owner may touch owners.\<close>

lemma default_policy_ladder:
  "CanRole DefaultPolicy RoleMember a \<Longrightarrow> CanRole DefaultPolicy RoleAdmin a"
  "CanRole DefaultPolicy RoleAdmin a \<Longrightarrow> CanRole DefaultPolicy RoleOwner a"
  "CanRole DefaultPolicy r ActionManageOwners \<longleftrightarrow> r = RoleOwner"
  by (auto simp: DefaultPolicy_def CanRole_def lookup_grants lookup_granted RoleOwner_def RoleAdmin_def RoleMember_def
      ActionViewTeam_def ActionManageMembers_def ActionManageInvitations_def ActionManageOwners_def split: if_splits)

lemma Empty_iff: "Empty p \<longleftrightarrow> (\<forall>r. Mapping.lookup (py_grants p) r = None)" if "finite (Mapping.keys (py_grants p))"
  using that by (auto simp: Empty_def size_def keys_dom_lookup)

end
