(* ===== verification/AuthHttp.thy ===== *)
theory AuthHttp
  imports UserService
begin

text \<open>
  Package \<open>authithttp\<close>: bearer tokens, cookies, the session middleware and the cross-origin check. A request is what the
  package reads of an \<open>*http.Request\<close>; what a handler does to the response is the list of its steps, where \<open>Serves\<close> is
  the call of the next handler. Header names are looked up as the code writes them, the canonical form being net/http's
  business; a parsed URL is a parameter. \<open>None\<close> is a nil request.
\<close>

section \<open>Requests and responses\<close>

record http_request =
  rq_Method :: string
  rq_Host :: string
  rq_TLS :: bool
  rq_Header :: "string \<Rightarrow> string list"
  rq_Cookies :: "(string \<times> string) list"
  rq_PostForm :: "string \<Rightarrow> string"
  rq_RequestURI :: string
  rq_claims :: "claims option"
  rq_csrf :: "string option"

definition header_get :: "http_request \<Rightarrow> string \<Rightarrow> string" where
  "header_get r name = (case rq_Header r name of [] \<Rightarrow> '''' | v # _ \<Rightarrow> v)"

datatype same_site = SameSiteUnset | SameSiteDefaultMode | SameSiteLaxMode | SameSiteStrictMode | SameSiteNoneMode

record http_cookie =
  ck_Name :: string
  ck_Value :: string
  ck_Path :: string
  ck_Domain :: string
  ck_MaxAge :: int
  ck_Expires :: "time option"
  ck_Secure :: bool
  ck_HttpOnly :: bool
  ck_SameSite :: same_site

datatype http_step = Sets_cookie http_cookie | Serves http_request | Fails int error | Redirects string int

text \<open>\<open>r.Cookie(name)\<close>: the first cookie of the name.\<close>

definition request_cookie :: "http_request \<Rightarrow> string \<Rightarrow> string option" where
  "request_cookie r name = map_of (rq_Cookies r) name"

text \<open>\<open>url.URL\<close>, as far as the package reads it; \<open>ul_SignIn\<close> is \<open>String\<close> of the URL with a query parameter set.\<close>

record url =
  ur_Scheme :: string
  ur_Host :: string
  ur_Path :: string
  ur_RawQuery :: string
  ur_User :: bool
  ur_Opaque :: string

record url_lib =
  ul_Parse :: "string \<Rightarrow> error + url"
  ul_SignIn :: "url \<Rightarrow> string \<Rightarrow> string \<Rightarrow> string"

text \<open>\<open>strings.EqualFold\<close> on ASCII\<close>

definition EqualFold :: "string \<Rightarrow> string \<Rightarrow> bool" where "EqualFold s t \<longleftrightarrow> ToLower s = ToLower t"

text \<open>\<open>int(d.Seconds())\<close>: towards zero.\<close>

definition max_age :: "duration \<Rightarrow> int" where "max_age d = (if d < 0 then - (- d div second) else d div second)"

section \<open>Bearer tokens (bearer.go)\<close>

definition is_blank :: "char \<Rightarrow> bool" where "is_blank c \<longleftrightarrow> c = CHR '' '' \<or> c = CHR 0x09"

definition trim_blank :: "string \<Rightarrow> string" where
  "trim_blank s = rev (dropWhile is_blank (rev (dropWhile is_blank s)))"

definition parseBearer :: "string \<Rightarrow> string option" where
  "parseBearer header =
     (if length header \<le> 6 \<or> \<not> EqualFold (take 6 header) ''bearer'' then None
      else let rest = drop 6 header in
        if rest ! 0 \<noteq> CHR '' '' \<and> rest ! 0 \<noteq> CHR 0x09 then None
        else let token = trim_blank rest in
          if token = '''' \<or> list_ex is_blank token then None else Some token)"

definition BearerToken :: "http_request option \<Rightarrow> string option" where
  "BearerToken r =
     (case r of
        None \<Rightarrow> None
      | Some r \<Rightarrow>
          let headers = rq_Header r ''Authorization'' in
          if length headers \<noteq> 1 then None else parseBearer (headers ! 0))"

section \<open>Cookies (cookie.go, session_cookie.go)\<close>

definition DefaultRefreshCookieName :: string where "DefaultRefreshCookieName = ''authit_refresh''"

record cookie_options =
  co_Name :: string
  co_Path :: string
  co_Domain :: string
  co_MaxAge :: duration
  co_SameSite :: same_site
  co_Insecure :: bool

definition co_name :: "cookie_options \<Rightarrow> string" where
  "co_name o' = (if co_Name o' = '''' then DefaultRefreshCookieName else co_Name o')"

definition co_sameSite :: "cookie_options \<Rightarrow> same_site" where
  "co_sameSite o' = (if co_SameSite o' = SameSiteUnset then SameSiteStrictMode else co_SameSite o')"

definition prefix_error :: "string \<Rightarrow> string \<Rightarrow> error" where
  "prefix_error name why = Wrapped (Http ErrCookiePrefix) (Fault (name @ why))"

definition co_validate :: "cookie_options \<Rightarrow> error option" where
  "co_validate o' =
     (if co_Path o' = '''' then Some (Http ErrCookiePathRequired)
      else let name = co_name o' in
        if HasPrefix name ''__Host-''
        then if co_Insecure o' then Some (prefix_error name '' requires Secure, but Insecure is set'')
             else if co_Path o' \<noteq> ''/'' then Some (prefix_error name ('' requires Path=/, got '' @ co_Path o'))
             else if co_Domain o' \<noteq> '''' then Some (prefix_error name ('' requires no Domain, got '' @ co_Domain o'))
             else None
        else if HasPrefix name ''__Secure-''
        then if co_Insecure o' then Some (prefix_error name '' requires Secure, but Insecure is set'') else None
        else None)"

definition cookie_byte :: "char \<Rightarrow> bool" where
  "cookie_byte c = (let b = (of_char c :: nat) in
     b = 0x21 \<or> 0x23 \<le> b \<and> b \<le> 0x2B \<or> 0x2D \<le> b \<and> b \<le> 0x3A \<or> 0x3C \<le> b \<and> b \<le> 0x5B \<or> 0x5D \<le> b \<and> b \<le> 0x7E)"

definition validCookieValue :: "string \<Rightarrow> bool" where
  "validCookieValue s \<longleftrightarrow> s \<noteq> '''' \<and> list_all cookie_byte s"

definition SetRefreshCookie :: "string \<Rightarrow> cookie_options \<Rightarrow> error + http_step list" where
  "SetRefreshCookie token opts =
     (case co_validate opts of
        Some e \<Rightarrow> Inl e
      | None \<Rightarrow>
          if \<not> validCookieValue token then Inl (Http ErrCookieValue)
          else Inr [Sets_cookie \<lparr>ck_Name = co_name opts, ck_Value = token, ck_Path = co_Path opts, ck_Domain = co_Domain opts,
            ck_MaxAge = max_age (co_MaxAge opts), ck_Expires = None, ck_Secure = \<not> co_Insecure opts, ck_HttpOnly = True,
            ck_SameSite = co_sameSite opts\<rparr>])"

text \<open>\<open>time.Unix(0, 0)\<close> is a point of the model's time line before any run.\<close>

definition unix_epoch :: time where "unix_epoch = 0"

definition ClearRefreshCookie :: "cookie_options \<Rightarrow> error + http_step list" where
  "ClearRefreshCookie opts =
     (case co_validate opts of
        Some e \<Rightarrow> Inl e
      | None \<Rightarrow> Inr [Sets_cookie \<lparr>ck_Name = co_name opts, ck_Value = '''', ck_Path = co_Path opts, ck_Domain = co_Domain opts,
            ck_MaxAge = -1, ck_Expires = Some unix_epoch, ck_Secure = \<not> co_Insecure opts, ck_HttpOnly = True,
            ck_SameSite = co_sameSite opts\<rparr>])"

definition RefreshCookie :: "http_request option \<Rightarrow> cookie_options \<Rightarrow> string option" where
  "RefreshCookie r opts =
     (case r of
        None \<Rightarrow> None
      | Some r \<Rightarrow> (case request_cookie r (co_name opts) of
                     None \<Rightarrow> None
                   | Some v \<Rightarrow> if v = '''' then None else Some v))"

definition DefaultSessionCookieName :: string where "DefaultSessionCookieName = ''authit_session''"

record session_cookie_options =
  sc_Name :: string
  sc_Path :: string
  sc_Domain :: string
  sc_MaxAge :: duration
  sc_SameSite :: same_site
  sc_AllowHTTP :: bool
  sc_TrustForwardedProto :: bool

definition sc_name :: "session_cookie_options \<Rightarrow> string" where
  "sc_name o' = (if sc_Name o' = '''' then DefaultSessionCookieName else sc_Name o')"

definition sc_path :: "session_cookie_options \<Rightarrow> string" where
  "sc_path o' = (if sc_Path o' = '''' then ''/'' else sc_Path o')"

definition sc_sameSite :: "session_cookie_options \<Rightarrow> same_site" where
  "sc_sameSite o' = (if sc_SameSite o' = SameSiteUnset then SameSiteLaxMode else sc_SameSite o')"

text \<open>\<open>strings.Cut(v, ",")\<close>: what comes before the first comma.\<close>

definition isHTTPS :: "http_request option \<Rightarrow> bool \<Rightarrow> bool" where
  "isHTTPS r trustForwardedProto =
     (case r of
        None \<Rightarrow> False
      | Some r \<Rightarrow>
          if rq_TLS r then True
          else if \<not> trustForwardedProto then False
          else let proto = takeWhile (\<lambda>c. c \<noteq> CHR '','') (header_get r ''X-Forwarded-Proto'')
               in EqualFold (TrimSpace proto) ''https'')"

definition sc_secure :: "session_cookie_options \<Rightarrow> http_request option \<Rightarrow> bool" where
  "sc_secure o' r \<longleftrightarrow> \<not> sc_AllowHTTP o' \<or> isHTTPS r (sc_TrustForwardedProto o')"

definition sc_validate :: "session_cookie_options \<Rightarrow> error option" where
  "sc_validate o' =
     (let name = sc_name o' in
      if HasPrefix name ''__Host-''
      then if sc_AllowHTTP o' then Some (prefix_error name '' requires Secure, but AllowHTTP is set'')
           else if sc_path o' \<noteq> ''/'' then Some (prefix_error name ('' requires Path=/, got '' @ sc_Path o'))
           else if sc_Domain o' \<noteq> '''' then Some (prefix_error name ('' requires no Domain, got '' @ sc_Domain o'))
           else None
      else if HasPrefix name ''__Secure-''
      then if sc_AllowHTTP o' then Some (prefix_error name '' requires Secure, but AllowHTTP is set'') else None
      else None)"

definition sc_cookie :: "session_cookie_options \<Rightarrow> http_request option \<Rightarrow> string \<Rightarrow> duration \<Rightarrow> http_cookie" where
  "sc_cookie o' r value maxAge =
     \<lparr>ck_Name = sc_name o', ck_Value = value, ck_Path = sc_path o', ck_Domain = sc_Domain o', ck_MaxAge = max_age maxAge,
      ck_Expires = None, ck_Secure = sc_secure o' r, ck_HttpOnly = True, ck_SameSite = sc_sameSite o'\<rparr>"

definition SetSessionCookie :: "http_request option \<Rightarrow> string \<Rightarrow> session_cookie_options \<Rightarrow> error + http_step list" where
  "SetSessionCookie r token opts =
     (case sc_validate opts of
        Some e \<Rightarrow> Inl e
      | None \<Rightarrow> if \<not> validCookieValue token then Inl (Http ErrCookieValue)
                else Inr [Sets_cookie (sc_cookie opts r token (sc_MaxAge opts))])"

definition ClearSessionCookie :: "http_request option \<Rightarrow> session_cookie_options \<Rightarrow> error + http_step list" where
  "ClearSessionCookie r opts =
     (case sc_validate opts of
        Some e \<Rightarrow> Inl e
      | None \<Rightarrow> Inr [Sets_cookie ((sc_cookie opts r '''' 0)\<lparr>ck_MaxAge := -1, ck_Expires := Some unix_epoch\<rparr>)])"

definition SessionCookie :: "http_request option \<Rightarrow> session_cookie_options \<Rightarrow> string option" where
  "SessionCookie r opts =
     (case r of
        None \<Rightarrow> None
      | Some r \<Rightarrow> (case request_cookie r (sc_name opts) of
                     None \<Rightarrow> None
                   | Some v \<Rightarrow> if v = '''' then None else Some v))"

section \<open>Validating a bearer token (validate.go, authenticator.go)\<close>

text \<open>\<open>errors.Is(err, target)\<close> for a sentinel target\<close>

fun error_is :: "error \<Rightarrow> error \<Rightarrow> bool" where
  "error_is (Wrapped e cause) target = (error_is e target \<or> error_is cause target)"
| "error_is e target = (e = target)"

definition tokenFaults :: "error list" where
  "tokenFaults = map Jwt
     [ErrTokenMalformed, ErrTokenUnverifiable, ErrTokenSignatureInvalid, ErrTokenRequiredClaimMissing,
      ErrTokenInvalidAudience, ErrTokenExpired, ErrTokenUsedBeforeIssued, ErrTokenInvalidIssuer, ErrTokenInvalidSubject,
      ErrTokenNotValidYet, ErrTokenInvalidId, ErrTokenInvalidClaims, ErrInvalidType]"

definition isTokenFault :: "error \<Rightarrow> bool" where
  "isTokenFault e \<longleftrightarrow> list_ex (error_is e) tokenFaults"

text \<open>
  A \<open>jwt.Verifier\<close> and a \<open>SessionValidator\<close> are programs from a token to its claims. \<open>None\<close> is a nil interface.
\<close>

type_synonym session_validator = "string \<Rightarrow> claims prog"

definition Validate :: "session_validator option \<Rightarrow> http_request option \<Rightarrow> claims prog" where
  "Validate v r =
     (case v of
        None \<Rightarrow> raise (Fault ''authit/http: nil verifier'')
      | Some v \<Rightarrow>
          (case BearerToken r of
             None \<Rightarrow> raise (Http ErrNoToken)
           | Some token \<Rightarrow>
               on (v token)
                 (\<lambda>e. if e = Panic then raise Panic
                      else if isTokenFault e then raise (Wrapped InvalidTokenClass e)
                      else raise (Wrapped (Fault ''authit/http: validating bearer token'') e))
                 ret))"

definition StatusFor :: "error option \<Rightarrow> int" where
  "StatusFor err =
     (case err of
        None \<Rightarrow> 200
      | Some e \<Rightarrow> if error_is e (Http ErrNoToken) \<or> is_invalid_token e then 401 else 500)"

type_synonym authenticator = "http_request option \<Rightarrow> claims prog"

definition VerifierAuth :: "session_validator option \<Rightarrow> authenticator" where
  "VerifierAuth v = Validate v"

definition SessionAuth :: "session_validator \<Rightarrow> authenticator" where
  "SessionAuth v r = (case BearerToken r of None \<Rightarrow> raise (Http ErrNoToken) | Some token \<Rightarrow> v token)"

section \<open>The session middleware (middleware.go)\<close>

text \<open>
  A handler is a program from a request to its steps. \<open>Fails\<close> is the call of the error handler, \<open>Redirects\<close> that of
  \<open>http.Redirect\<close>; a panic of the validator leaves the handler.
\<close>

type_synonym handler = "http_request \<Rightarrow> http_step list prog"

definition ContextWithClaims :: "http_request \<Rightarrow> claims \<Rightarrow> http_request" where
  "ContextWithClaims r c = r\<lparr>rq_claims := Some c\<rparr>"

definition ClaimsFrom :: "http_request \<Rightarrow> claims option" where "ClaimsFrom r = rq_claims r"

definition DefaultReturnToParam :: string where "DefaultReturnToParam = ''next''"

record session_options =
  so_Cookie :: session_cookie_options
  so_SignInURL :: string
  so_ReturnToParam :: string
  so_IsAPIRequest :: "(http_request \<Rightarrow> bool) option"
  so_Optional :: bool

definition isAPIRequest :: "http_request \<Rightarrow> bool" where
  "isAPIRequest r =
     (let mode = header_get r ''Sec-Fetch-Mode'' in
      if mode \<noteq> '''' then mode \<noteq> ''navigate''
      else \<not> contains_sub (header_get r ''Accept'') ''text/html'')"

definition slideCookie :: "time \<Rightarrow> http_request \<Rightarrow> string \<Rightarrow> claims \<Rightarrow> session_cookie_options \<Rightarrow> http_step list" where
  "slideCookie now r token c opts =
     (if sc_MaxAge opts \<le> 0 then []
      else let maxAge = (case cl_ExpiresAt c of None \<Rightarrow> sc_MaxAge opts | Some x \<Rightarrow> min (sc_MaxAge opts) (x - now)) in
        if maxAge < second then [] else [Sets_cookie (sc_cookie opts (Some r) token maxAge)])"

definition signInLocation :: "url_lib \<Rightarrow> url \<Rightarrow> string \<Rightarrow> http_request \<Rightarrow> string" where
  "signInLocation l signIn param r = ul_SignIn l signIn param (rq_RequestURI r)"

definition refuse :: "url_lib \<Rightarrow> session_options \<Rightarrow> url option \<Rightarrow> bool \<Rightarrow> error \<Rightarrow> http_request \<Rightarrow> http_step list" where
  "refuse l opts signIn presented e r =
     (let status = StatusFor (Some e);
          param = (if so_ReturnToParam opts = '''' then DefaultReturnToParam else so_ReturnToParam opts);
          isAPI = (case so_IsAPIRequest opts of None \<Rightarrow> isAPIRequest | Some f \<Rightarrow> f) in
      if status \<noteq> 401 then [Fails status e]
      else
        (if presented then (case ClearSessionCookie (Some r) (so_Cookie opts) of Inl _ \<Rightarrow> [] | Inr steps \<Rightarrow> steps) else []) @
        (if so_Optional opts then [Serves r]
         else case signIn of
                Some u \<Rightarrow> if (rq_Method r = ''GET'' \<or> rq_Method r = ''HEAD'') \<and> \<not> isAPI r
                          then [Redirects (signInLocation l u param r) 303] else [Fails status e]
              | None \<Rightarrow> [Fails status e]))"

definition session_handler :: "url_lib \<Rightarrow> session_validator \<Rightarrow> session_options \<Rightarrow> url option \<Rightarrow> handler" where
  "session_handler l v opts signIn r =
     (case SessionCookie (Some r) (so_Cookie opts) of
        None \<Rightarrow> ret (refuse l opts signIn False (Http ErrNoToken) r)
      | Some token \<Rightarrow>
          on (v token)
            (\<lambda>e. if e = Panic then raise Panic else ret (refuse l opts signIn True e r))
            (\<lambda>c. with_now (\<lambda>now.
               ret (slideCookie now r token c (so_Cookie opts) @ [Serves (ContextWithClaims r c)]))))"

definition SessionMiddleware :: "url_lib \<Rightarrow> session_validator option \<Rightarrow> session_options \<Rightarrow> error + handler" where
  "SessionMiddleware l v opts =
     (case v of
        None \<Rightarrow> Inl (Fault ''authit/http: nil session validator'')
      | Some v \<Rightarrow>
          (case sc_validate (so_Cookie opts) of
             Some e \<Rightarrow> Inl e
           | None \<Rightarrow>
               if so_SignInURL opts = '''' then Inr (session_handler l v opts None)
               else (case ul_Parse l (so_SignInURL opts) of
                       Inl e \<Rightarrow> Inl (Wrapped (Fault ''authit/http: SignInURL'') e)
                     | Inr u \<Rightarrow> Inr (session_handler l v opts (Some u)))))"

text \<open>\<open>SafeReturnTo\<close>: the bytes of the target, then what the URL parser makes of it.\<close>

definition plain_byte :: "char \<Rightarrow> bool" where
  "plain_byte c \<longleftrightarrow> \<not> ((of_char c :: nat) < 0x20 \<or> (of_char c :: nat) = 0x7F \<or> c = CHR 0x5C)"

definition SafeReturnTo :: "url_lib \<Rightarrow> string \<Rightarrow> string \<Rightarrow> string" where
  "SafeReturnTo l target fallback =
     (if target = '''' \<or> target ! 0 \<noteq> CHR ''/'' then fallback
      else if length target > 1 \<and> (target ! 1 = CHR ''/'' \<or> target ! 1 = CHR 0x5C) then fallback
      else if \<not> list_all plain_byte target then fallback
      else case ul_Parse l target of
             Inl _ \<Rightarrow> fallback
           | Inr u \<Rightarrow> if ur_Scheme u \<noteq> '''' \<or> ur_Host u \<noteq> '''' \<or> ur_User u \<or> ur_Opaque u \<noteq> '''' then fallback
                      else target)"

section \<open>The cross-origin check (csrf.go)\<close>

definition DefaultCSRFCookieName :: string where "DefaultCSRFCookieName = ''authit_csrf''"
definition DefaultCSRFHeader :: string where "DefaultCSRFHeader = ''X-CSRF-Token''"
definition DefaultCSRFField :: string where "DefaultCSRFField = ''csrf_token''"

record csrf_options =
  cs_TrustedOrigins :: "string list"
  cs_AllowMissingOrigin :: bool
  cs_DoubleSubmit :: bool
  cs_TokenCookie :: session_cookie_options
  cs_TokenHeader :: string
  cs_TokenField :: string

definition CSRFToken :: "http_request \<Rightarrow> string" where
  "CSRFToken r = (case rq_csrf r of None \<Rightarrow> '''' | Some token \<Rightarrow> token)"

definition origin_of :: "url \<Rightarrow> string" where "origin_of u = ur_Scheme u @ ''://'' @ ur_Host u"

text \<open>The map of trusted origins, as the list of its keys\<close>

fun trusted_origins :: "url_lib \<Rightarrow> string list \<Rightarrow> error + string list" where
  "trusted_origins l [] = Inr []"
| "trusted_origins l (o' # os) =
     (case ul_Parse l o' of
        Inl _ \<Rightarrow> Inl (Fault (''authit/http: TrustedOrigins entry is not an origin: '' @ o'))
      | Inr u \<Rightarrow>
          if ur_Scheme u = '''' \<or> ur_Host u = '''' \<or> ur_Path u \<noteq> '''' \<and> ur_Path u \<noteq> ''/'' \<or> ur_RawQuery u \<noteq> ''''
          then Inl (Fault (''authit/http: TrustedOrigins entry is not an origin: '' @ o'))
          else (case trusted_origins l os of Inl e \<Rightarrow> Inl e | Inr ts \<Rightarrow> Inr (ToLower (origin_of u) # ts)))"

definition csrf_cookie :: "csrf_options \<Rightarrow> session_cookie_options" where
  "csrf_cookie opts =
     (let c = cs_TokenCookie opts;
          c = (if sc_Name c = '''' then c\<lparr>sc_Name := DefaultCSRFCookieName\<rparr> else c)
      in if sc_SameSite c = SameSiteUnset then c\<lparr>sc_SameSite := SameSiteStrictMode\<rparr> else c)"

text \<open>The text of \<open>Origin\<close>, or what \<open>Referer\<close> says in its absence; \<open>None\<close> when \<open>Referer\<close> names no origin.\<close>

definition claimed_origin :: "url_lib \<Rightarrow> http_request \<Rightarrow> string option" where
  "claimed_origin l r =
     (if header_get r ''Origin'' \<noteq> '''' then Some (header_get r ''Origin'')
      else if header_get r ''Referer'' = '''' then Some ''''
      else case ul_Parse l (header_get r ''Referer'') of
             Inl _ \<Rightarrow> None
           | Inr u \<Rightarrow> if ur_Scheme u = '''' \<or> ur_Host u = '''' then None else Some (origin_of u))"

definition sameOrigin :: "url_lib \<Rightarrow> http_request \<Rightarrow> string list \<Rightarrow> bool \<Rightarrow> bool" where
  "sameOrigin l r trusted allowMissing =
     (case claimed_origin l r of
        None \<Rightarrow> False
      | Some origin \<Rightarrow>
          if origin = '''' then
            (let site = header_get r ''Sec-Fetch-Site'' in
             if site = ''same-origin'' \<or> site = ''none'' then True
             else if site = '''' then allowMissing
             else False)
          else if origin = ''null'' then False
          else (case ul_Parse l origin of
                  Inl _ \<Rightarrow> False
                | Inr u \<Rightarrow>
                    if ur_Host u = '''' then False
                    else if EqualFold (ur_Host u) (rq_Host r) then True
                    else ToLower (origin_of u) \<in> set trusted))"

text \<open>\<open>rand.Text\<close>: 26 characters of the base32 alphabet; a failing random source stops the program.\<close>

definition base32_alphabet :: string where "base32_alphabet = ''ABCDEFGHIJKLMNOPQRSTUVWXYZ234567''"

definition rand_text :: "string prog" where
  "rand_text = on (rand_read 26) (\<lambda>_. raise Panic) (\<lambda>buf. ret (map (\<lambda>b. base32_alphabet ! (unat b mod 32)) buf))"

definition csrf_serve :: "http_request \<Rightarrow> string \<Rightarrow> http_step" where
  "csrf_serve r token = Serves (r\<lparr>rq_csrf := Some token\<rparr>)"

definition csrf_handler :: "url_lib \<Rightarrow> csrf_options \<Rightarrow> string list \<Rightarrow> handler" where
  "csrf_handler l opts trusted r =
     (let safe = rq_Method r \<in> {''GET'', ''HEAD'', ''OPTIONS'', ''TRACE''};
          cookie = csrf_cookie opts;
          header = (if cs_TokenHeader opts = '''' then DefaultCSRFHeader else cs_TokenHeader opts);
          field = (if cs_TokenField opts = '''' then DefaultCSRFField else cs_TokenField opts) in
      if \<not> safe \<and> \<not> sameOrigin l r trusted (cs_AllowMissingOrigin opts) then ret [Fails 403 (Http ErrCrossOrigin)]
      else if \<not> cs_DoubleSubmit opts then ret [Serves r]
      else let token = SessionCookie (Some r) cookie;
               sent = (if header_get r header = '''' then rq_PostForm r field else header_get r header) in
        if \<not> safe \<and> (token = None \<or> sent = '''' \<or> token \<noteq> Some sent) then ret [Fails 403 (Http ErrCSRFToken)]
        else case token of
               Some token \<Rightarrow> ret [csrf_serve r token]
             | None \<Rightarrow> seq rand_text (\<lambda>token.
                 ret [Sets_cookie (sc_cookie cookie (Some r) token (sc_MaxAge cookie)), csrf_serve r token]))"

definition CSRFProtect :: "url_lib \<Rightarrow> csrf_options \<Rightarrow> error + handler" where
  "CSRFProtect l opts =
     (case trusted_origins l (cs_TrustedOrigins opts) of
        Inl e \<Rightarrow> Inl e
      | Inr trusted \<Rightarrow>
          (case (if cs_DoubleSubmit opts then sc_validate (csrf_cookie opts) else None) of
             Some e \<Rightarrow> Inl e
           | None \<Rightarrow> Inr (csrf_handler l opts trusted)))"


end
