(* ===== verification/AuthHttpProps.thy ===== *)
theory AuthHttpProps
  imports AuthHttp SessionProps Contracts
begin

text \<open>
  What package \<open>authithttp\<close> promises: the session middleware over \<open>user.ValidateSession\<close> tells a dead session from an
  outage, the cross-origin check lets no foreign origin change state, the double-submit token goes round, and no cookie is
  set that a browser discards for its prefix.
\<close>

section \<open>The session middleware\<close>

definition live_session :: "service \<Rightarrow> string \<Rightarrow> world \<Rightarrow> refresh_token \<Rightarrow> bool" where
  "live_session s tok w t \<longleftrightarrow> tok \<noteq> '''' \<and>
     mem_GetRefreshTokenByHash (refresh (db w)) (HashToken tok) = Inr t \<and>
     rt_RevokedAt t = None \<and> clock w \<le> rt_ExpiresAt t \<and>
     (\<exists>u. mem_GetUserByID (users (db w)) (rt_UserID t) = Inr u) \<and>
     (\<forall>team. rt_TeamID t = Some team \<longrightarrow> sv_Members s \<longrightarrow>
        (\<exists>m. mem_GetMemberByUserAndTeam (members (db w)) (rt_UserID t) team = Inr m \<and> m_IsActive m))"

lemma extendSession_errors: "extendSession s t now w = (Inl e, w') \<Longrightarrow> \<exists>f. e = Fault f"
  unfolding extendSession_def Let_def
  by (auto simp: port_defs mem_TouchRefreshToken_def split: if_splits option.splits)

lemma checkMembership_errors:
  "checkMembership u team refused w = (Inl e, w') \<Longrightarrow> (\<exists>f. e = Fault f) \<or>
     e = refused \<and> \<not> (\<exists>m. mem_GetMemberByUserAndTeam (members (db w)) u team = Inr m \<and> m_IsActive m)"
  unfolding checkMembership_def
  by (auto simp: port_defs mem_GetMemberByUserAndTeam_def split: if_splits option.splits)

lemma requireActiveMembership_errors:
  "requireActiveMembership s t w = (Inl e, w') \<Longrightarrow> (\<exists>f. e = Fault f) \<or>
     e = User ErrInvalidToken \<and> (\<exists>team. rt_TeamID t = Some team \<and> sv_Members s \<and>
       \<not> (\<exists>m. mem_GetMemberByUserAndTeam (members (db w)) (rt_UserID t) team = Inr m \<and> m_IsActive m))"
  unfolding requireActiveMembership_def
  by (auto split: option.splits if_splits dest!: checkMembership_errors)

lemma ValidateSession_errors:
  assumes "ValidateSession s tok w = (Inl e, w')" and "uc_SessionMode (sv_cfg s) = SessionModeOpaque"
    and "rs_inv (refresh (db w))"
  shows "(\<exists>f. e = Fault f) \<or> e = User ErrInvalidToken \<and> (\<nexists>t. live_session s tok w t)"
proof (cases "tok = ''''")
  case True
  then show ?thesis using assms by (auto simp: ValidateSession_def live_session_def raise_def)
next
  case False
  have "mem_GetRefreshTokenByHash (refresh (db w)) h = Inl x \<Longrightarrow> x = ErrNotFound" for h x
    unfolding mem_GetRefreshTokenByHash_def by (rule row_via_errors [OF rs_points [OF assms(3)]])
  then have hash: "mem_GetRefreshTokenByHash (refresh (db w)) h = Inl x \<longleftrightarrow>
      x = ErrNotFound \<and> (\<nexists>t. mem_GetRefreshTokenByHash (refresh (db w)) h = Inr t)" for h x
    by (cases "mem_GetRefreshTokenByHash (refresh (db w)) h") auto
  have user: "mem_GetUserByID st i = Inl x \<longleftrightarrow> x = ErrNotFound \<and> (\<nexists>u. mem_GetUserByID st i = Inr u)" for st i x
    by (auto simp: mem_GetUserByID_def split: option.splits)
  show ?thesis
    using assms(1,2) False unfolding ValidateSession_def
    by (auto simp: port_defs After_def live_session_def hash user split: if_splits dest!: extendSession_errors
        requireActiveMembership_errors)
qed

lemma ValidateSession_live:
  assumes "ValidateSession s tok w = (Inr c, w')" and "us_inv (users (db w))"
  shows "\<exists>t. live_session s tok w t \<and> cl_Subject c = rt_UserID t \<and> cl_ActorID c = ''''"
  using ValidateSession_ok [OF assms(1)] us_get_id [OF assms(2)] unfolding live_session_def by force

lemma ValidateSession_clock: "timeless (ValidateSession s tok)"
  unfolding ValidateSession_def extendSession_def requireActiveMembership_def checkMembership_def Let_def port_defs
    on_refresh_def
  by (intro timeless_rules)

text \<open>With an empty fault schedule no call fails as a store outage.\<close>

definition calm :: "'a prog \<Rightarrow> bool" where
  "calm m \<longleftrightarrow> (\<forall>w r w'. faults w = [] \<longrightarrow> m w = (r, w') \<longrightarrow> faults w' = [] \<and> (\<forall>f. r \<noteq> Inl (Fault f)))"

lemma calmD: "calm m \<Longrightarrow> faults w = [] \<Longrightarrow> m w = (r, w') \<Longrightarrow> faults w' = [] \<and> (\<forall>f. r \<noteq> Inl (Fault f))"
  unfolding calm_def by blast

lemma calm_basic: "calm (ret x)" "(\<And>f. e \<noteq> Fault f) \<Longrightarrow> calm (raise e)" "calm (log ev)"
  by (auto simp: calm_def ret_def raise_def log_def)

lemma calm_rd: "(\<And>d f. g d \<noteq> Inl (Fault f)) \<Longrightarrow> calm (rd g)"
  by (auto simp: calm_def rd_def port_def)

lemma calm_wr: "(\<And>d f. fst (g d) \<noteq> Inl (Fault f)) \<Longrightarrow> calm (wr g)"
  unfolding calm_def
proof (intro allI impI)
  fix w r w' assume g: "\<And>d f. fst (g d) \<noteq> Inl (Fault f)" and q: "faults w = []" and run: "wr g w = (r, w')"
  show "faults w' = [] \<and> (\<forall>f. r \<noteq> Inl (Fault f))"
    using g [of "db w"] q run by (cases "g (db w)") (auto simp: wr_def port_def)
qed

lemma calm_on:
  assumes "calm m" and "\<And>e. (\<And>f. e \<noteq> Fault f) \<Longrightarrow> calm (h e)" and "\<And>x. calm (k x)"
  shows "calm (on m h k)"
  unfolding calm_def
proof (intro allI impI)
  fix w r w' assume q: "faults w = []" and run: "on m h k w = (r, w')"
  obtain r1 w1 where m: "m w = (r1, w1)" by (cases "m w")
  have w1: "faults w1 = []" "\<And>f. r1 \<noteq> Inl (Fault f)" using calmD [OF assms(1) q m] by simp_all
  show "faults w' = [] \<and> (\<forall>f. r \<noteq> Inl (Fault f))"
  proof (cases r1)
    case (Inl e)
    then have "calm (h e)" using assms(2) w1(2) by simp
    moreover have "h e w1 = (r, w')" using run m Inl by (simp add: on_def)
    ultimately show ?thesis using calmD w1(1) by blast
  next
    case (Inr x)
    then have "k x w1 = (r, w')" using run m by (simp add: on_def)
    then show ?thesis using calmD [OF assms(3) w1(1)] by blast
  qed
qed

lemma calm_seq: "calm m \<Longrightarrow> (\<And>x. calm (k x)) \<Longrightarrow> calm (seq m k)"
  unfolding seq_def by (rule calm_on) (simp_all add: calm_basic)

lemma calm_ignoring: "calm m \<Longrightarrow> calm k \<Longrightarrow> calm (ignoring m k)"
  unfolding ignoring_def by (rule calm_on) simp_all

lemma calm_now: "(\<And>t. calm (k t)) \<Longrightarrow> calm (with_now k)"
  by (auto simp: calm_def with_now_def)

lemma calm_split: "(b \<Longrightarrow> calm m) \<Longrightarrow> (\<not> b \<Longrightarrow> calm n) \<Longrightarrow> calm (if b then m else n)"
  "(x = None \<Longrightarrow> calm m) \<Longrightarrow> (\<And>y. calm (k y)) \<Longrightarrow> calm (case x of None \<Rightarrow> m | Some y \<Rightarrow> k y)"
  by (auto split: option.splits)

lemmas calm_rules = calm_basic calm_rd calm_wr calm_on calm_seq calm_ignoring calm_now calm_split

lemma ValidateSession_calm: "calm (ValidateSession s tok)"
  unfolding ValidateSession_def extendSession_def requireActiveMembership_def checkMembership_def Let_def port_defs
    on_refresh_def
  by (intro calm_rules) (auto simp: mem_defs row_via_def split: option.splits)

lemma status_values [simp]:
  "StatusFor None = 200" "StatusFor (Some (Http ErrNoToken)) = 401" "StatusFor (Some (Fault f)) = 500"
  "StatusFor (Some (User ErrInvalidToken)) = 401"
  by (simp_all add: StatusFor_def)

text \<open>
  The planes whose \<open>ErrInvalidToken\<close> the status function knows, and the one it does not: a dead PIN device token is
  answered like a fault of the server.
\<close>

lemma plane_statuses:
  "StatusFor (Some (User ErrInvalidToken)) = 401" "StatusFor (Some (Super Super_ErrInvalidToken)) = 401"
  "StatusFor (Some (Pat Pat_ErrInvalidToken)) = 401" "StatusFor (Some (EmailLogin Email_ErrInvalidToken)) = 401"
  "StatusFor (Some (Pin Pin_ErrInvalidToken)) = 500" "StatusFor (Some (User ErrWrongSessionMode)) = 500"
  by (simp_all add: StatusFor_def)

text \<open>\<open>Validate\<close> blames the token exactly when the verifier's error is a token fault or in the class.\<close>

lemma Validate_status:
  assumes "Validate (Some v) r w = (Inl e, w')" and "e \<noteq> Panic"
  shows "StatusFor (Some e) = 401 \<longleftrightarrow>
     BearerToken r = None \<or>
     (\<exists>tok e'. BearerToken r = Some tok \<and> v tok w = (Inl e', w') \<and>
        (isTokenFault e' \<or> error_is e' (Http ErrNoToken) \<or> is_invalid_token e'))"
proof (cases "BearerToken r")
  case None
  then show ?thesis using assms by (auto simp: Validate_def raise_def StatusFor_def)
next
  case (Some tok)
  then obtain e' where "v tok w = (Inl e', w')"
    and "e = (if isTokenFault e' then Wrapped InvalidTokenClass e'
              else Wrapped (Fault ''authit/http: validating bearer token'') e')"
    using assms by (auto simp: Validate_def on_def raise_def ret_def split: prod.splits sum.splits if_splits)
  then show ?thesis using Some by (auto simp: StatusFor_def)
qed

lemma clear_cookie_step:
  assumes "sc_validate opts = None"
  obtains k where "ClearSessionCookie r opts = Inr [Sets_cookie k]" and "ck_Name k = sc_name opts" and "ck_MaxAge k = -1"
    and "ck_Value k = ''''" and "ck_Path k = sc_path opts" and "ck_Domain k = sc_Domain opts" and "ck_HttpOnly k"
  using assms that by (simp add: ClearSessionCookie_def sc_cookie_def)

lemma SessionMiddleware_handler:
  assumes "SessionMiddleware l (Some v) opts = Inr h"
  obtains signIn where "h = session_handler l v opts signIn" and "sc_validate (so_Cookie opts) = None"
  using assms that by (auto simp: SessionMiddleware_def split: option.splits if_splits sum.splits)

text \<open>The answers to a dead session: its cookie is cleared, and the request goes on without claims, is sent to sign in, or is a 401.\<close>

definition refused_steps :: "session_options \<Rightarrow> http_request \<Rightarrow> http_step list \<Rightarrow> bool" where
  "refused_steps opts r steps \<longleftrightarrow>
     (\<exists>k. ck_Name k = sc_name (so_Cookie opts) \<and> ck_MaxAge k = -1 \<and> ck_Value k = '''' \<and>
       ck_Path k = sc_path (so_Cookie opts) \<and> ck_Domain k = sc_Domain (so_Cookie opts) \<and> ck_HttpOnly k \<and>
       (if so_Optional opts then steps = [Sets_cookie k, Serves r]
        else steps = [Sets_cookie k, Fails 401 (User ErrInvalidToken)] \<or>
             rq_Method r \<in> {''GET'', ''HEAD''} \<and> so_SignInURL opts \<noteq> '''' \<and> (\<exists>u. steps = [Sets_cookie k, Redirects u 303])))"

lemma refuse_dead:
  assumes "sc_validate (so_Cookie opts) = None" and "so_SignInURL opts = '''' \<Longrightarrow> signIn = None"
  shows "refused_steps opts r (refuse l opts signIn True (User ErrInvalidToken) r)"
proof -
  obtain k where k: "ClearSessionCookie (Some r) (so_Cookie opts) = Inr [Sets_cookie k]"
      "ck_Name k = sc_name (so_Cookie opts)" "ck_MaxAge k = -1" "ck_Value k = ''''"
      "ck_Path k = sc_path (so_Cookie opts)" "ck_Domain k = sc_Domain (so_Cookie opts)" "ck_HttpOnly k"
    using clear_cookie_step [OF assms(1)] .
  then show ?thesis
    using assms(2) unfolding refused_steps_def
    by (intro exI [of _ k]) (auto simp: refuse_def Let_def split: option.splits if_splits)
qed

text \<open>
  C34. The session middleware tells a dead session from an outage. Over \<open>user.ValidateSession\<close> in the opaque mode, whatever
  faults the store has, it answers every request that carries a session cookie, and in one of three ways: a 500 that
  touches neither the cookie nor the next handler, which only a failing call of the store brings about; the
  next handler with claims that name the session's user and no actor, exactly when the session is alive in the
  store; or, exactly when it is not, the cookie cleared, under the name, the path and the domain it is set with, and
  then the next handler without claims where the options ask for that, a redirect of a \<open>GET\<close> or \<open>HEAD\<close> to sign in, or a 401.
\<close>

theorem session_middleware_exact:
  assumes "SessionMiddleware l (Some (ValidateSession s)) opts = Inr h"
    and "uc_SessionMode (sv_cfg s) = SessionModeOpaque" and "rs_inv (refresh (db w))" and "us_inv (users (db w))"
    and "SessionCookie (Some r) (so_Cookie opts) = Some tok"
  shows "\<exists>steps w'. h r w = (Inr steps, w') \<and>
     ((\<exists>f. faults w \<noteq> [] \<and> steps = [Fails 500 (Fault f)]) \<or>
      (\<exists>t c. live_session s tok w t \<and> cl_Subject c = rt_UserID t \<and> \<not> IsImpersonation c \<and>
         steps = slideCookie (clock w) r tok c (so_Cookie opts) @ [Serves (ContextWithClaims r c)]) \<or>
      (\<nexists>t. live_session s tok w t) \<and> refused_steps opts r steps)"
proof -
  obtain signIn where h: "h = session_handler l (ValidateSession s) opts signIn"
    and v: "sc_validate (so_Cookie opts) = None" and n: "so_SignInURL opts = '''' \<Longrightarrow> signIn = None"
    using assms(1) by (auto simp: SessionMiddleware_def split: option.splits if_splits sum.splits)
  obtain x w' where run: "ValidateSession s tok w = (x, w')" by (cases "ValidateSession s tok w")
  show ?thesis
  proof (cases x)
    case (Inl e)
    from ValidateSession_errors [OF run [unfolded Inl] assms(2,3)] show ?thesis
    proof
      assume "\<exists>f. e = Fault f"
      moreover from this have "faults w \<noteq> []" using calmD [OF ValidateSession_calm _ run] Inl by auto
      ultimately show ?thesis
        using run Inl assms(5) by (auto simp: h session_handler_def on_def ret_def refuse_def)
    next
      assume "e = User ErrInvalidToken \<and> (\<nexists>t. live_session s tok w t)"
      then show ?thesis
        using run Inl assms(5) refuse_dead [OF v n, of r l] by (auto simp: h session_handler_def on_def ret_def)
    qed
  next
    case (Inr c)
    from ValidateSession_live [OF run [unfolded Inr] assms(4)] obtain t where
      "live_session s tok w t" "cl_Subject c = rt_UserID t" "cl_ActorID c = ''''" by blast
    then show ?thesis
      using run Inr assms(5) timelessD [OF ValidateSession_clock run]
      by (auto simp: h session_handler_def on_def ret_def with_now_def IsImpersonation_def)
  qed
qed

text \<open>A request without a session cookie is refused on the spot: the stores are not asked and no cookie is touched.\<close>

lemma session_middleware_no_cookie:
  assumes "SessionMiddleware l (Some v) opts = Inr h" and "SessionCookie (Some r) (so_Cookie opts) = None"
  shows "\<exists>step. h r w = (Inr [step], w) \<and>
     (if so_Optional opts then step = Serves r else step = Fails 401 (Http ErrNoToken) \<or> (\<exists>u. step = Redirects u 303))"
proof -
  obtain signIn where "h = session_handler l v opts signIn" using assms(1) by (rule SessionMiddleware_handler)
  then have h: "h r w = (Inr (refuse l opts signIn False (Http ErrNoToken) r), w)"
    using assms(2) by (simp add: session_handler_def ret_def)
  show ?thesis
  proof (cases "so_Optional opts")
    case True
    then show ?thesis by (simp add: h refuse_def)
  next
    case False
    then show ?thesis by (simp add: h refuse_def Let_def split: option.splits)
  qed
qed

text \<open>A sliding cookie never outlives the session it carries, and is never one the browser deletes at once.\<close>

lemma slide_capped:
  assumes "Sets_cookie k \<in> set (slideCookie now r tok c opts)"
  shows "1 \<le> ck_MaxAge k" and "ck_MaxAge k * second \<le> sc_MaxAge opts"
    and "cl_ExpiresAt c = Some x \<Longrightarrow> now + ck_MaxAge k * second \<le> x"
  using assms
  by (auto simp: slideCookie_def Let_def sc_cookie_def max_age_def second_def min_def split: if_splits option.splits)

lemma session_auth_live:
  assumes "SessionAuth (ValidateSession s) r w = (Inr c, w')" and "us_inv (users (db w))"
  shows "\<exists>tok t. BearerToken r = Some tok \<and> live_session s tok w t \<and> cl_Subject c = rt_UserID t"
  using assms ValidateSession_live by (fastforce simp: SessionAuth_def raise_def split: option.splits)


section \<open>The cross-origin check\<close>

lemma trusted_originsD:
  "trusted_origins l os = Inr ts \<Longrightarrow> x \<in> set ts \<Longrightarrow> \<exists>o' u. o' \<in> set os \<and> ul_Parse l o' = Inr u \<and> x = ToLower (origin_of u)"
  by (induction os arbitrary: ts) (fastforce split: sum.splits if_splits)+

lemma CSRFProtect_handler:
  assumes "CSRFProtect l opts = Inr h"
  obtains trusted where "trusted_origins l (cs_TrustedOrigins opts) = Inr trusted" and "h = csrf_handler l opts trusted"
    and "cs_DoubleSubmit opts \<Longrightarrow> sc_validate (csrf_cookie opts) = None"
  using assms that by (auto simp: CSRFProtect_def split: option.splits if_splits sum.splits)

definition safe_method :: "http_request \<Rightarrow> bool" where
  "safe_method r \<longleftrightarrow> rq_Method r \<in> {''GET'', ''HEAD'', ''OPTIONS'', ''TRACE''}"

text \<open>What a request sends as its double-submit token: the header, or the form field in its absence.\<close>

definition sent_token :: "csrf_options \<Rightarrow> http_request \<Rightarrow> string" where
  "sent_token opts r =
     (let h = header_get r (if cs_TokenHeader opts = '''' then DefaultCSRFHeader else cs_TokenHeader opts) in
      if h = '''' then rq_PostForm r (if cs_TokenField opts = '''' then DefaultCSRFField else cs_TokenField opts) else h)"

text \<open>The origins a request may come from: its own host, or one the host lists.\<close>

definition allowed_origin :: "url_lib \<Rightarrow> csrf_options \<Rightarrow> http_request \<Rightarrow> url \<Rightarrow> bool" where
  "allowed_origin l opts r u \<longleftrightarrow> ur_Host u \<noteq> '''' \<and>
     (ToLower (ur_Host u) = ToLower (rq_Host r) \<or>
      (\<exists>o' \<in> set (cs_TrustedOrigins opts). \<exists>u'. ul_Parse l o' = Inr u' \<and> ToLower (origin_of u') = ToLower (origin_of u)))"

lemma sameOriginD:
  assumes "sameOrigin l r trusted m" and "trusted_origins l (cs_TrustedOrigins opts) = Inr trusted"
  shows "(\<exists>origin u. claimed_origin l r = Some origin \<and> origin \<notin> {'''', ''null''} \<and> ul_Parse l origin = Inr u \<and> allowed_origin l opts r u) \<or>
     header_get r ''Origin'' = '''' \<and> header_get r ''Referer'' = '''' \<and>
     (header_get r ''Sec-Fetch-Site'' \<in> {''same-origin'', ''none''} \<or> header_get r ''Sec-Fetch-Site'' = '''' \<and> m)"
proof (cases "claimed_origin l r")
  case None
  then show ?thesis using assms(1) by (simp add: sameOrigin_def)
next
  case (Some origin)
  show ?thesis
  proof (cases "origin = ''''")
    case True
    then have "header_get r ''Origin'' = '''' \<and> header_get r ''Referer'' = ''''"
      using Some by (auto simp: claimed_origin_def origin_of_def split: if_splits sum.splits)
    then show ?thesis using assms(1) Some True by (auto simp: sameOrigin_def Let_def split: if_splits)
  next
    case False
    then obtain u where u: "origin \<noteq> ''null''" "ul_Parse l origin = Inr u" "ur_Host u \<noteq> ''''"
      "EqualFold (ur_Host u) (rq_Host r) \<or> ToLower (origin_of u) \<in> set trusted"
      using assms(1) Some by (auto simp: sameOrigin_def split: if_splits sum.splits)
    then have "allowed_origin l opts r u"
      using trusted_originsD [OF assms(2)] unfolding allowed_origin_def EqualFold_def by metis
    then show ?thesis using Some False u by blast
  qed
qed

text \<open>
  C35. No foreign page changes state. When the next handler is called for a request whose method may change state, either
  the \<open>Origin\<close> header, or \<open>Referer\<close> in its absence, names the host of the request or an origin that the options list, or
  both headers are absent and the browser's \<open>Sec-Fetch-Site\<close> says the same origin or no site, or that header is absent too
  and the options let such a request through; an opaque \<open>null\<close> origin never passes. With the double submit the request
  also sends, in the header or the form, the very token of its cookie. A refused request is a 403 and sets no cookie.
\<close>

theorem csrf_refuses_foreign:
  assumes "CSRFProtect l opts = Inr h" and "h r w = (Inr steps, w')" and "\<not> safe_method r"
  shows "if \<exists>r'. Serves r' \<in> set steps
     then ((\<exists>origin u. claimed_origin l r = Some origin \<and> origin \<notin> {'''', ''null''} \<and> ul_Parse l origin = Inr u \<and>
              allowed_origin l opts r u) \<or>
           header_get r ''Origin'' = '''' \<and> header_get r ''Referer'' = '''' \<and>
           (header_get r ''Sec-Fetch-Site'' \<in> {''same-origin'', ''none''} \<or>
            header_get r ''Sec-Fetch-Site'' = '''' \<and> cs_AllowMissingOrigin opts)) \<and>
          (cs_DoubleSubmit opts \<longrightarrow> sent_token opts r \<noteq> '''' \<and>
             SessionCookie (Some r) (csrf_cookie opts) = Some (sent_token opts r))
     else \<exists>e. steps = [Fails 403 e] \<and> e \<in> {Http ErrCrossOrigin, Http ErrCSRFToken}"
proof -
  obtain trusted where t: "trusted_origins l (cs_TrustedOrigins opts) = Inr trusted" and h: "h = csrf_handler l opts trusted"
    using assms(1) by (rule CSRFProtect_handler)
  let ?same = "sameOrigin l r trusted (cs_AllowMissingOrigin opts)"
  let ?echo = "sent_token opts r \<noteq> '''' \<and> SessionCookie (Some r) (csrf_cookie opts) = Some (sent_token opts r)"
  have run: "h r w = (if \<not> ?same then ret [Fails 403 (Http ErrCrossOrigin)]
      else if \<not> cs_DoubleSubmit opts then ret [Serves r]
      else if \<not> ?echo then ret [Fails 403 (Http ErrCSRFToken)]
      else ret [csrf_serve r (sent_token opts r)]) w"
    using assms(3) by (auto simp: h csrf_handler_def safe_method_def sent_token_def Let_def split: option.splits)
  show ?thesis
  proof (cases ?same)
    case False
    then show ?thesis using run assms(2) by (auto simp: ret_def)
  next
    case True
    then show ?thesis
      using run assms(2) sameOriginD [OF True t] by (auto simp: ret_def csrf_serve_def split: if_splits)
  qed
qed

lemma base32_alphabet_bytes: "i < 32 \<Longrightarrow> cookie_byte (base32_alphabet ! i)"
proof -
  assume "i < 32"
  moreover have "length base32_alphabet = 32" "list_all cookie_byte base32_alphabet"
    by (simp_all add: base32_alphabet_def cookie_byte_def)
  ultimately show ?thesis by (simp add: list_all_length)
qed

lemma rand_textE:
  assumes "rand_text w = (Inr tok, w')"
  shows "length tok = 26" and "validCookieValue tok" and "clock w' = clock w" and "db w' = db w"
  using assms unfolding rand_text_def validCookieValue_def
  by (auto simp: list_all_iff base32_alphabet_bytes)

lemma sameOrigin_mono: "sameOrigin l r [] False \<Longrightarrow> sameOrigin l r trusted m"
  by (auto simp: sameOrigin_def Let_def split: option.splits if_splits sum.splits)

text \<open>
  C36. The double-submit token goes round. A request of a safe method that has no token cookie yet gets one, and the
  page gets the same token to render: 26 characters that a cookie may hold. Every later request from the host's own
  pages that carries this cookie and echoes the token, in the header or, where the header is absent, in the form, is
  passed to the next handler, with the same token and no new cookie.
\<close>

theorem csrf_token_roundtrip:
  assumes "CSRFProtect l opts = Inr h" and "cs_DoubleSubmit opts" and "safe_method r"
    and "SessionCookie (Some r) (csrf_cookie opts) = None" and "h r w = (Inr steps, w')"
  shows "\<exists>k tok. steps = [Sets_cookie k, Serves (r\<lparr>rq_csrf := Some tok\<rparr>)] \<and>
     CSRFToken (r\<lparr>rq_csrf := Some tok\<rparr>) = tok \<and> ck_Value k = tok \<and> length tok = 26 \<and> validCookieValue tok \<and>
     (\<forall>r2 w2. request_cookie r2 (ck_Name k) = Some (ck_Value k) \<longrightarrow> sameOrigin l r2 [] False \<longrightarrow>
        sent_token opts r2 = tok \<longrightarrow> h r2 w2 = (Inr [Serves (r2\<lparr>rq_csrf := Some tok\<rparr>)], w2))"
proof -
  obtain trusted where h: "h = csrf_handler l opts trusted" using assms(1) by (rule CSRFProtect_handler)
  have "h r w = (seq rand_text (\<lambda>tok.
      ret [Sets_cookie (sc_cookie (csrf_cookie opts) (Some r) tok (sc_MaxAge (csrf_cookie opts))), csrf_serve r tok])) w"
    using assms(2-4) by (simp add: h csrf_handler_def safe_method_def Let_def)
  then obtain tok where tok: "rand_text w = (Inr tok, w')"
    and steps: "steps = [Sets_cookie (sc_cookie (csrf_cookie opts) (Some r) tok (sc_MaxAge (csrf_cookie opts))), csrf_serve r tok]"
    using assms(5) by (auto simp: seq_def on_def ret_def raise_def split: prod.splits sum.splits)
  note t = rand_textE [OF tok]
  have later: "h r2 w2 = (Inr [csrf_serve r2 tok], w2)"
    if "request_cookie r2 (sc_name (csrf_cookie opts)) = Some tok" "sameOrigin l r2 [] False" "sent_token opts r2 = tok" for r2 w2
    using that t(2) assms(2) sameOrigin_mono [OF that(2), of trusted "cs_AllowMissingOrigin opts"]
    by (auto simp: h csrf_handler_def SessionCookie_def sent_token_def validCookieValue_def Let_def ret_def)
  show ?thesis
    using t later by (auto simp: steps sc_cookie_def csrf_serve_def CSRFToken_def)
qed

section \<open>Cookies, return targets and bearer tokens\<close>

text \<open>What a browser asks of a cookie whose name has one of the two prefixes.\<close>

definition browser_keeps :: "http_cookie \<Rightarrow> bool" where
  "browser_keeps k \<longleftrightarrow>
     (HasPrefix (ck_Name k) ''__Host-'' \<longrightarrow> ck_Secure k \<and> ck_Path k = ''/'' \<and> ck_Domain k = '''') \<and>
     (HasPrefix (ck_Name k) ''__Secure-'' \<longrightarrow> ck_Secure k)"

lemma prefixes_differ: "HasPrefix n ''__Secure-'' \<Longrightarrow> \<not> HasPrefix n ''__Host-''"
proof
  have at: "HasPrefix n p \<Longrightarrow> i < length p \<Longrightarrow> n ! i = p ! i" for p i
    unfolding HasPrefix_def by (metis nth_take)
  assume "HasPrefix n ''__Secure-''" "HasPrefix n ''__Host-''"
  from at [OF this(1), of 2] at [OF this(2), of 2] show False by simp
qed

lemma co_validate_keeps:
  "co_validate o' = None \<Longrightarrow> browser_keeps k" if "ck_Name k = co_name o'" "ck_Path k = co_Path o'" "ck_Domain k = co_Domain o'"
    "ck_Secure k = (\<not> co_Insecure o')"
  using that prefixes_differ by (auto simp: browser_keeps_def co_validate_def Let_def split: if_splits)

lemma sc_validate_keeps: "sc_validate o' = None \<Longrightarrow> browser_keeps (sc_cookie o' r v m)"
  using prefixes_differ by (auto simp: browser_keeps_def sc_validate_def sc_cookie_def sc_secure_def Let_def split: if_splits)

lemma browser_keeps_aged [simp]: "browser_keeps (k\<lparr>ck_MaxAge := a, ck_Expires := e\<rparr>) = browser_keeps k"
  by (simp add: browser_keeps_def)

definition sets_good_cookies :: "http_step list \<Rightarrow> bool" where
  "sets_good_cookies steps \<longleftrightarrow> (\<forall>k. Sets_cookie k \<in> set steps \<longrightarrow> browser_keeps k \<and> ck_HttpOnly k)"

lemma sets_good_cookies_simps [simp]:
  "sets_good_cookies []" "sets_good_cookies (xs @ ys) \<longleftrightarrow> sets_good_cookies xs \<and> sets_good_cookies ys"
  "sets_good_cookies (Sets_cookie k # xs) \<longleftrightarrow> browser_keeps k \<and> ck_HttpOnly k \<and> sets_good_cookies xs"
  "sets_good_cookies (Serves r # xs) \<longleftrightarrow> sets_good_cookies xs"
  "sets_good_cookies (Fails n e # xs) \<longleftrightarrow> sets_good_cookies xs"
  "sets_good_cookies (Redirects u n # xs) \<longleftrightarrow> sets_good_cookies xs"
  by (auto simp: sets_good_cookies_def)

lemma sc_cookie_http_only [simp]: "ck_HttpOnly (sc_cookie o' r v m)"
  by (simp add: sc_cookie_def)

lemma refresh_cookies_good:
  "SetRefreshCookie tok co = Inr steps \<Longrightarrow> sets_good_cookies steps"
  "ClearRefreshCookie co = Inr steps \<Longrightarrow> sets_good_cookies steps"
  by (auto simp: SetRefreshCookie_def ClearRefreshCookie_def intro!: co_validate_keeps [of _ co]
      split: option.splits if_splits)

lemma session_cookies_good:
  "SetSessionCookie r tok so = Inr steps \<Longrightarrow> sets_good_cookies steps"
  "ClearSessionCookie r so = Inr steps \<Longrightarrow> sets_good_cookies steps"
  by (auto simp: SetSessionCookie_def ClearSessionCookie_def intro: sc_validate_keeps split: option.splits if_splits)


lemma refuse_good: "sc_validate (so_Cookie opts) = None \<Longrightarrow> sets_good_cookies (refuse l opts signIn p e r)"
  by (auto simp: refuse_def Let_def split: option.splits sum.splits intro: session_cookies_good(2))

lemma session_handler_good:
  assumes "sc_validate (so_Cookie opts) = None" and "session_handler l v opts signIn q w = (Inr steps, w')"
  shows "sets_good_cookies steps"
proof (cases "SessionCookie (Some q) (so_Cookie opts)")
  case None
  then show ?thesis using assms(2) refuse_good [OF assms(1)] by (auto simp: session_handler_def ret_def)
next
  case (Some tok)
  have "sets_good_cookies (slideCookie now q tok c (so_Cookie opts))" for now c
    by (simp add: slideCookie_def Let_def sc_validate_keeps [OF assms(1)])
  then show ?thesis
    using assms(2) Some refuse_good [OF assms(1)]
    by (auto simp: session_handler_def on_def ret_def raise_def with_now_def split: prod.splits sum.splits if_splits)
qed

lemma csrf_handler_good:
  assumes "cs_DoubleSubmit opts \<Longrightarrow> sc_validate (csrf_cookie opts) = None" and "csrf_handler l opts trusted q w = (Inr steps, w')"
  shows "sets_good_cookies steps"
  using assms sc_validate_keeps [of "csrf_cookie opts"]
  by (auto simp: csrf_handler_def Let_def ret_def csrf_serve_def seq_def on_def raise_def
      split: if_splits option.splits prod.splits sum.splits)

lemma middleware_good:
  "SessionMiddleware l v mo = Inr h \<Longrightarrow> h q w = (Inr steps, w') \<Longrightarrow> sets_good_cookies steps"
  "CSRFProtect l cs = Inr h \<Longrightarrow> h q w = (Inr steps, w') \<Longrightarrow> sets_good_cookies steps"
  by (auto simp: SessionMiddleware_def CSRFProtect_def split: option.splits if_splits sum.splits
      elim!: session_handler_good [rotated] csrf_handler_good [rotated])

text \<open>
  No operation of the package sets a cookie that a browser throws away for its name: of the refresh cookie, the
  session cookie, its renewals and its removal by the middleware, and the double-submit cookie, each that carries the
  prefix \<open>__Host-\<close> is Secure, has the path \<open>/\<close> and no domain, each with \<open>__Secure-\<close> is Secure, and each is HttpOnly.
\<close>

theorem cookies_keep_their_prefix:
  assumes "SetRefreshCookie tok co = Inr steps \<or> ClearRefreshCookie co = Inr steps \<or>
     SetSessionCookie r tok so = Inr steps \<or> ClearSessionCookie r so = Inr steps \<or>
     (\<exists>h. SessionMiddleware l v mo = Inr h \<and> h q w = (Inr steps, w')) \<or>
     (\<exists>h. CSRFProtect l cs = Inr h \<and> h q w = (Inr steps, w'))"
    and "Sets_cookie k \<in> set steps"
  shows "ck_HttpOnly k \<and>
     (HasPrefix (ck_Name k) ''__Host-'' \<longrightarrow> ck_Secure k \<and> ck_Path k = ''/'' \<and> ck_Domain k = '''') \<and>
     (HasPrefix (ck_Name k) ''__Secure-'' \<longrightarrow> ck_Secure k)"
proof -
  have "sets_good_cookies steps"
    using assms(1) by (elim disjE exE conjE) (rule refresh_cookies_good session_cookies_good middleware_good, assumption+)+
  then show ?thesis using assms(2) by (simp add: sets_good_cookies_def browser_keeps_def)
qed

text \<open>A return target that passes is a path of this site: one slash, no backslash, no control character, and nothing but a path to the URL parser.\<close>

lemma safe_return_rooted:
  "SafeReturnTo l target fallback = fallback \<or>
   SafeReturnTo l target fallback = target \<and>
   (\<exists>rest u. target = CHR ''/'' # rest \<and> (rest \<noteq> [] \<longrightarrow> hd rest \<notin> {CHR ''/'', CHR 0x5C}) \<and>
      (\<forall>c \<in> set target. plain_byte c) \<and> ul_Parse l target = Inr u \<and> ur_Scheme u = '''' \<and> ur_Host u = '''')"
proof (cases target)
  case Nil
  then show ?thesis by (simp add: SafeReturnTo_def)
next
  case (Cons c rest)
  then show ?thesis
    by (cases rest) (auto simp: SafeReturnTo_def list_all_iff split: sum.splits if_splits)
qed

lemma trim_blank_split: "\<exists>pre post. s = pre @ trim_blank s @ post \<and> list_all is_blank pre \<and> list_all is_blank post"
proof -
  let ?x = "dropWhile is_blank s"
  have "?x = rev (dropWhile is_blank (rev ?x)) @ rev (takeWhile is_blank (rev ?x))"
    by (metis rev_append rev_rev_ident takeWhile_dropWhile_id)
  then have "s = takeWhile is_blank s @ trim_blank s @ rev (takeWhile is_blank (rev ?x))"
    unfolding trim_blank_def by (metis takeWhile_dropWhile_id)
  moreover have "list_all is_blank (takeWhile is_blank y)" for y by (auto simp: list_all_iff dest: set_takeWhileD)
  ultimately show ?thesis by (metis list_all_rev)
qed

lemma dropWhile_blank:
  "list_all is_blank pre \<Longrightarrow> t \<noteq> [] \<Longrightarrow> \<not> list_ex is_blank t \<Longrightarrow> dropWhile is_blank (pre @ t @ post) = t @ post"
  by (induction pre) (auto simp: neq_Nil_conv)

lemma trim_blank_core:
  assumes "list_all is_blank pre" and "list_all is_blank post" and "t \<noteq> []" and "\<not> list_ex is_blank t"
  shows "trim_blank (pre @ t @ post) = t"
proof -
  have "list_all is_blank (rev post)" "rev t \<noteq> []" "\<not> list_ex is_blank (rev t)"
    using assms by (simp_all add: list_ex_iff)
  from dropWhile_blank [OF this, of "[]"] show ?thesis
    by (simp add: trim_blank_def dropWhile_blank [OF assms(1,3,4)])
qed

text \<open>
  Parsing an \<open>Authorization\<close> header, against its grammar: \<open>parseBearer\<close> answers a token exactly when the header is
  the scheme in any case, at least one blank, the token, not empty and without blanks, and blanks; in every other case
  it answers none.
\<close>

lemma parseBearer_grammar:
  "parseBearer header = Some token \<longleftrightarrow>
     (\<exists>scheme pre post. header = scheme @ pre @ token @ post \<and> EqualFold scheme ''bearer'' \<and>
        pre \<noteq> [] \<and> list_all is_blank pre \<and> list_all is_blank post \<and> token \<noteq> [] \<and> \<not> list_ex is_blank token)"
    (is "_ = ?grammar")
proof
  assume p: "parseBearer header = Some token"
  let ?rest = "drop 6 header"
  have a: "length header > 6" "EqualFold (take 6 header) ''bearer''" "is_blank (?rest ! 0)"
      "token = trim_blank ?rest" "token \<noteq> []" "\<not> list_ex is_blank token"
    using p by (auto simp: parseBearer_def Let_def is_blank_def split: if_splits)
  obtain pre post where s: "?rest = pre @ token @ post" "list_all is_blank pre" "list_all is_blank post"
    using trim_blank_split [of ?rest] a(4) by metis
  have "pre \<noteq> []"
  proof
    assume "pre = []"
    then have "?rest ! 0 \<in> set token" using s(1) a(5) by (cases token) auto
    then show False using a(3,6) by (auto simp: list_ex_iff)
  qed
  moreover have "header = take 6 header @ pre @ token @ post" using s(1) by (metis append_take_drop_id)
  ultimately show ?grammar using a s by blast
next
  assume ?grammar
  then obtain scheme pre post where g: "header = scheme @ pre @ token @ post" "EqualFold scheme ''bearer''"
      "pre \<noteq> []" "list_all is_blank pre" "list_all is_blank post" "token \<noteq> []" "\<not> list_ex is_blank token" by blast
  have n: "length scheme = 6" using arg_cong [OF g(2) [unfolded EqualFold_def], of length] by (simp add: ToLower_def)
  then have d: "drop 6 header = pre @ token @ post" "take 6 header = scheme" "\<not> length header \<le> 6"
    using g(1,3) by (cases pre; simp)+
  have "is_blank ((pre @ token @ post) ! 0)" using g(3,4) by (cases pre) auto
  then show "parseBearer header = Some token"
    using g(2,6,7) trim_blank_core [OF g(4-7)] by (simp add: parseBearer_def d Let_def is_blank_def)
qed

section \<open>Witnesses\<close>

definition demo_url :: url where
  "demo_url = \<lparr>ur_Scheme = ''https'', ur_Host = ''a'', ur_Path = '''', ur_RawQuery = '''', ur_User = False, ur_Opaque = ''''\<rparr>"

definition demo_url_lib :: url_lib where
  "demo_url_lib = \<lparr>ul_Parse = (\<lambda>s. if s = ''https://a'' then Inr demo_url else Inr (demo_url\<lparr>ur_Host := ''evil''\<rparr>)),
     ul_SignIn = (\<lambda>_ _ to. ''https://a?next='' @ to)\<rparr>"

definition demo_cookie_options :: session_cookie_options where
  "demo_cookie_options = \<lparr>sc_Name = '''', sc_Path = '''', sc_Domain = '''', sc_MaxAge = 0, sc_SameSite = SameSiteUnset,
     sc_AllowHTTP = False, sc_TrustForwardedProto = False\<rparr>"

definition demo_middleware :: session_options where
  "demo_middleware = \<lparr>so_Cookie = demo_cookie_options, so_SignInURL = '''', so_ReturnToParam = '''',
     so_IsAPIRequest = None, so_Optional = False\<rparr>"

definition demo_csrf :: csrf_options where
  "demo_csrf = \<lparr>cs_TrustedOrigins = [''https://a''], cs_AllowMissingOrigin = False, cs_DoubleSubmit = True,
     cs_TokenCookie = demo_cookie_options\<lparr>sc_Name := ''__Host-csrf''\<rparr>, cs_TokenHeader = '''', cs_TokenField = ''''\<rparr>"

definition demo_request :: "string \<Rightarrow> (string \<times> string) list \<Rightarrow> (string \<times> string) list \<Rightarrow> http_request" where
  "demo_request m headers cookies = \<lparr>rq_Method = m, rq_Host = ''a'', rq_TLS = True,
     rq_Header = (\<lambda>n. case map_of headers n of None \<Rightarrow> [] | Some v \<Rightarrow> [v]), rq_Cookies = cookies,
     rq_PostForm = (\<lambda>_. ''''), rq_RequestURI = ''/'', rq_claims = None, rq_csrf = None\<rparr>"

lemmas demo_http_defs = demo_url_def demo_url_lib_def demo_cookie_options_def demo_middleware_def demo_csrf_def
  demo_request_def sc_validate_def sc_name_def sc_path_def HasPrefix_def Let_def DefaultSessionCookieName_def
  DefaultCSRFCookieName_def header_get_def request_cookie_def SessionCookie_def csrf_cookie_def safe_method_def

lemma demo_middleware_setup:
  "SessionMiddleware l (Some v) demo_middleware = Inr (session_handler l v demo_middleware None)"
  by (simp add: SessionMiddleware_def demo_http_defs)

lemma demo_csrf_setup:
  "CSRFProtect demo_url_lib demo_csrf = Inr (csrf_handler demo_url_lib demo_csrf [''https://a''])"
  by (simp add: CSRFProtect_def demo_http_defs origin_of_def ToLower_def lower_char_def)

theorem session_middleware_exact_witness:
  "\<exists>w' c. session_handler demo_url_lib (ValidateSession demo_opaque) demo_middleware None
     (demo_request ''GET'' [] [(''authit_session'', ''abc'')]) (demo_world3\<lparr>clock := hour\<rparr>) =
       (Inr [Serves (ContextWithClaims (demo_request ''GET'' [] [(''authit_session'', ''abc'')]) c)], w') \<and>
     cl_Subject c = ''u1''"
proof -
  let ?w = "demo_world3\<lparr>clock := hour\<rparr>" and ?r = "demo_request ''GET'' [] [(''authit_session'', ''abc'')]"
  have us: "us_inv (users (db ?w))" by (simp add: us_inv_def points_into_def demo_session_defs)
  have row: "mem_GetRefreshTokenByHash (refresh (db ?w)) (HashToken ''abc'') = Inr demo_session"
    by (simp add: row_via_def demo_session_defs)
  obtain c0 w0 where "ValidateSession demo_opaque ''abc'' ?w = (Inr c0, w0)" using demo_validate by blast
  from ValidateSession_live [OF this us] obtain t where live: "live_session demo_opaque ''abc'' ?w t" by blast
  have mode: "uc_SessionMode (sv_cfg demo_opaque) = SessionModeOpaque" by (simp add: demo_opaque_def)
  have quiet: "faults ?w = []" by (simp add: demo_session_defs)
  have rs: "rs_inv (refresh (db ?w))" using demo_rs_inv(2) by simp
  have cookie: "SessionCookie (Some ?r) (so_Cookie demo_middleware) = Some ''abc''" by (simp add: demo_http_defs)
  have still: "slideCookie now ?r ''abc'' c (so_Cookie demo_middleware) = []" for now c
    by (simp add: slideCookie_def demo_http_defs)
  have "t = demo_session" "rt_UserID demo_session = ''u1''"
    using live row by (auto simp: live_session_def demo_session_def)
  then show ?thesis
    using session_middleware_exact [OF demo_middleware_setup mode rs us cookie, of demo_url_lib] live quiet row
    by (auto simp: still live_session_def)
qed

theorem csrf_refuses_foreign_witness:
  "\<exists>e. csrf_handler demo_url_lib demo_csrf [''https://a''] (demo_request ''POST'' [(''Origin'', ''https://evil'')] []) (world0 0) =
     (Inr [Fails 403 e], world0 0)"
proof -
  let ?r = "demo_request ''POST'' [(''Origin'', ''https://evil'')] []"
  obtain steps w' where run: "csrf_handler demo_url_lib demo_csrf [''https://a''] ?r (world0 0) = (Inr steps, w')"
    and w': "w' = world0 0"
    by (simp add: csrf_handler_def sameOrigin_def claimed_origin_def demo_http_defs ret_def EqualFold_def ToLower_def
        lower_char_def origin_of_def)
  have "\<not> safe_method ?r" by (simp add: demo_http_defs)
  moreover have "SessionCookie (Some ?r) (csrf_cookie demo_csrf) = None" by (simp add: demo_http_defs)
  moreover have "cs_DoubleSubmit demo_csrf" by (simp add: demo_http_defs)
  ultimately show ?thesis
    using csrf_refuses_foreign [OF demo_csrf_setup run] run w' by (auto split: if_splits)
qed

theorem csrf_token_roundtrip_witness:
  "\<exists>k tok w'. csrf_handler demo_url_lib demo_csrf [''https://a''] (demo_request ''GET'' [] []) (world0 0) =
     (Inr [Sets_cookie k, Serves ((demo_request ''GET'' [] [])\<lparr>rq_csrf := Some tok\<rparr>)], w') \<and> ck_Value k = tok \<and> length tok = 26"
proof -
  let ?r = "demo_request ''GET'' [] []"
  have safe: "safe_method ?r" and ds: "cs_DoubleSubmit demo_csrf" and none: "SessionCookie (Some ?r) (csrf_cookie demo_csrf) = None"
    by (simp_all add: demo_http_defs)
  obtain steps w' where run: "csrf_handler demo_url_lib demo_csrf [''https://a''] ?r (world0 0) = (Inr steps, w')"
    by (simp add: csrf_handler_def rand_text_def rand_read_def port_def world0_def seq_def on_def ret_def csrf_serve_def
        demo_http_defs)
  then show ?thesis
    using csrf_token_roundtrip [OF demo_csrf_setup ds safe none run] by blast
qed

theorem cookies_keep_their_prefix_witness:
  "\<exists>k. SetSessionCookie None ''t'' (demo_cookie_options\<lparr>sc_Name := ''__Host-s''\<rparr>) = Inr [Sets_cookie k] \<and> ck_Secure k \<and> ck_Path k = ''/''"
proof -
  let ?o = "demo_cookie_options\<lparr>sc_Name := ''__Host-s''\<rparr>"
  obtain k where set: "SetSessionCookie None ''t'' ?o = Inr [Sets_cookie k]" and "ck_Name k = ''__Host-s''"
    by (simp add: SetSessionCookie_def demo_http_defs validCookieValue_def cookie_byte_def sc_cookie_def)
  moreover have "HasPrefix ''__Host-s'' ''__Host-''" by (simp add: HasPrefix_def)
  ultimately show ?thesis
    using cookies_keep_their_prefix [where k = k, OF disjI2 [OF disjI2 [OF disjI1 [OF set]]]] by auto
qed

end
