(* ===== verification/PasswordHash.thy ===== *)
theory PasswordHash
  imports Crypto
begin

text \<open>
  The password hashers of \<open>crypto/hasher.go\<close> and \<open>crypto/password.go\<close>: the PHC text of an Argon2id hash, printed and parsed
  byte for byte, the bcrypt hasher, and the dispatch on a hash's prefix. The two key derivations are parameters.
\<close>

section \<open>Base64 without padding (\<open>RawStdEncoding\<close>)\<close>

definition std_alphabet :: string where
  "std_alphabet = ''ABCDEFGHIJKLMNOPQRSTUVWXYZabcdefghijklmnopqrstuvwxyz0123456789+/''"

definition b64std_encode :: "byte list \<Rightarrow> string" where
  "b64std_encode bs = map (\<lambda>i. std_alphabet ! i) (sextets (map unat bs))"

text \<open>The decoder skips line breaks, wants every other character in the alphabet, and ignores the bits left over.\<close>

fun join_sextets :: "nat list \<Rightarrow> nat list option" where
  "join_sextets (a # b # c # d # r) =
     map_option (\<lambda>bs. (a * 4 + b div 16) # ((b mod 16) * 16 + c div 4) # ((c mod 4) * 64 + d) # bs) (join_sextets r)"
| "join_sextets [a, b, c] = Some [a * 4 + b div 16, (b mod 16) * 16 + c div 4]"
| "join_sextets [a, b] = Some [a * 4 + b div 16]"
| "join_sextets [a] = None"
| "join_sextets [] = Some []"

definition std_value :: "char \<Rightarrow> nat option" where
  "std_value c = map_of (zip std_alphabet [0..<64]) c"

definition b64std_decode :: "string \<Rightarrow> byte list option" where
  "b64std_decode s =
     (case those (map std_value (filter (\<lambda>c. c \<noteq> CHR 0x0A \<and> c \<noteq> CHR 0x0D) s)) of
        None \<Rightarrow> None
      | Some xs \<Rightarrow> map_option (map of_nat) (join_sextets xs))"

lemma std_alphabet_length [simp]: "length std_alphabet = 64"
  by (simp add: std_alphabet_def)

lemma std_alphabet_distinct: "distinct std_alphabet"
  by (simp add: std_alphabet_def)

lemma std_value_nth: "i < 64 \<Longrightarrow> std_value (std_alphabet ! i) = Some i"
  unfolding std_value_def by (rule map_of_zip_nth [THEN trans]) (simp_all add: std_alphabet_distinct)

lemma std_alphabet_plain: "c \<in> set std_alphabet \<Longrightarrow> c \<notin> {CHR 0x0A, CHR 0x0D, CHR ''$''}"
  by (auto simp: std_alphabet_def)

lemma b64std_encode_set: "set (b64std_encode bs) \<subseteq> set std_alphabet"
proof
  fix c assume "c \<in> set (b64std_encode bs)"
  then obtain i where i: "i \<in> set (sextets (map unat bs))" "c = std_alphabet ! i"
    by (auto simp: b64std_encode_def)
  have "i < 64"
  proof (rule sextets_less [OF _ i(1)])
    fix x assume "x \<in> set (map unat bs)"
    then obtain b :: byte where "x = unat b" by auto
    then show "x < 256" using unsigned_less [of b] by simp
  qed
  then show "c \<in> set std_alphabet" using i(2) by simp
qed

lemma join_sextets_inverse: "(\<And>x. x \<in> set xs \<Longrightarrow> x < 256) \<Longrightarrow> join_sextets (sextets xs) = Some xs"
proof (induction xs rule: sextets.induct)
  case (1 a b c r)
  have less: "a < 256" "b < 256" "c < 256" using "1.prems" by auto
  have "(a mod 4 * 16 + b div 16) div 16 = a mod 4" "(a mod 4 * 16 + b div 16) mod 16 = b div 16"
    using less(2) by (simp_all add: div_bound)
  moreover have "(b mod 16 * 4 + c div 64) div 4 = b mod 16" "(b mod 16 * 4 + c div 64) mod 4 = c div 64"
    using less(3) by (simp_all add: div_bound)
  ultimately show ?case using "1.IH" "1.prems" by simp
next
  case (2 a b)
  have "(a mod 4 * 16 + b div 16) div 16 = a mod 4" "(a mod 4 * 16 + b div 16) mod 16 = b div 16"
    using "2.prems" [of b] by (simp_all add: div_bound)
  then show ?case by simp
qed simp_all

lemma those_map: "(\<And>x. x \<in> set xs \<Longrightarrow> f (g x) = Some x) \<Longrightarrow> those (map f (map g xs)) = Some xs"
  by (induction xs) auto

lemma b64std_roundtrip: "b64std_decode (b64std_encode bs) = Some bs"
proof -
  have bytes: "x < 256" if "x \<in> set (map unat bs)" for x
  proof -
    from that obtain b :: byte where "x = unat b" by auto
    then show "x < 256" using unsigned_less [of b] by simp
  qed
  have plain: "filter (\<lambda>c. c \<noteq> CHR 0x0A \<and> c \<noteq> CHR 0x0D) (b64std_encode bs) = b64std_encode bs"
    using b64std_encode_set std_alphabet_plain by (intro filter_True) blast
  have "those (map std_value (b64std_encode bs)) = Some (sextets (map unat bs))"
    unfolding b64std_encode_def using sextets_less [OF bytes] std_value_nth by (intro those_map) blast
  then show ?thesis
    using join_sextets_inverse [of "map unat bs", OF bytes] by (simp add: b64std_decode_def plain comp_def)
qed

section \<open>Splitting and scanning\<close>

text \<open>\<open>strings.Split(s, "$")\<close>\<close>

fun split_at :: "char \<Rightarrow> string \<Rightarrow> string list" where
  "split_at c [] = [[]]"
| "split_at c (x # xs) =
     (if x = c then [] # split_at c xs
      else case split_at c xs of [] \<Rightarrow> [[x]] | p # ps \<Rightarrow> (x # p) # ps)"

lemma split_at_plain: "c \<notin> set s \<Longrightarrow> split_at c s = [s]"
  by (induction s) auto

lemma split_at_field: "c \<notin> set s \<Longrightarrow> split_at c (s @ c # t) = s # split_at c t"
  by (induction s) auto

text \<open>
  \<open>fmt.Sscanf\<close> on ASCII text, for a format of literals and \<open>%d\<close>: a literal must be there; a number may have white space
  before it, but no line break, and must have a digit and fit its width. What follows the last verb is not looked at.
\<close>

definition scan_literal :: "string \<Rightarrow> string \<Rightarrow> string option" where
  "scan_literal lit s = (if HasPrefix s lit then Some (drop (length lit) s) else None)"

fun skip_space :: "string \<Rightarrow> string option" where
  "skip_space [] = Some []"
| "skip_space (c # s) = (if c = CHR 0x0A then None else if is_space c then skip_space s else Some (c # s))"

definition decimal_digit :: "char \<Rightarrow> bool" where "decimal_digit c \<longleftrightarrow> c \<in> set ''0123456789''"

definition digit_value :: "char \<Rightarrow> nat" where "digit_value c = of_char c - 48"

definition number_of :: "string \<Rightarrow> nat" where "number_of s = foldl (\<lambda>n c. n * 10 + digit_value c) 0 s"

definition scan_digits :: "string \<Rightarrow> (nat \<times> string) option" where
  "scan_digits s = (let ds = takeWhile decimal_digit s in if ds = [] then None else Some (number_of ds, dropWhile decimal_digit s))"

definition scan_uint :: "nat \<Rightarrow> string \<Rightarrow> (nat \<times> string) option" where
  "scan_uint bits s =
     (case skip_space s of
        None \<Rightarrow> None
      | Some s \<Rightarrow> (case scan_digits s of
                     None \<Rightarrow> None
                   | Some (n, r) \<Rightarrow> if n < 2 ^ bits then Some (n, r) else None))"

definition scan_int :: "string \<Rightarrow> (int \<times> string) option" where
  "scan_int s =
     (case skip_space s of
        None \<Rightarrow> None
      | Some s \<Rightarrow>
          let neg = (s \<noteq> [] \<and> hd s = CHR ''-'');
              body = (if s \<noteq> [] \<and> hd s \<in> {CHR ''-'', CHR ''+''} then tl s else s) in
          (case scan_digits body of
             None \<Rightarrow> None
           | Some (n, r) \<Rightarrow>
               let i = (if neg then - int n else int n) in
               if - (2 ^ 63) \<le> i \<and> i < 2 ^ 63 then Some (i, r) else None))"

lemma digit_chars: "d < 10 \<Longrightarrow> decimal_digit (''0123456789'' ! d)" "d < 10 \<Longrightarrow> digit_value (''0123456789'' ! d) = d"
proof -
  have "\<forall>d \<in> {0..<10}. decimal_digit (''0123456789'' ! d) \<and> digit_value (''0123456789'' ! d) = d"
    by (simp add: decimal_digit_def digit_value_def atLeastLessThan_nat_numeral)
  then show "d < 10 \<Longrightarrow> decimal_digit (''0123456789'' ! d)" "d < 10 \<Longrightarrow> digit_value (''0123456789'' ! d) = d" by simp_all
qed

lemma decimal_digits: "list_all decimal_digit (decimal n) \<and> decimal n \<noteq> []"
proof (induction n rule: decimal.induct)
  case (1 n)
  show ?case
  proof (cases "n < 10")
    case True
    then show ?thesis by (subst (1 2) decimal.simps) (simp add: digit_chars)
  next
    case False
    then show ?thesis using 1 digit_chars(1) [of "n mod 10"] by (subst (1 2) decimal.simps) simp
  qed
qed

lemma number_of_decimal: "number_of (decimal n) = n"
proof (induction n rule: decimal.induct)
  case (1 n)
  show ?case
  proof (cases "n < 10")
    case True
    then show ?thesis by (subst decimal.simps) (simp add: number_of_def digit_chars)
  next
    case False
    then show ?thesis using 1 digit_chars(2) [of "n mod 10"]
      by (subst decimal.simps) (simp add: number_of_def)
  qed
qed

lemma scan_digits_decimal:
  assumes "r = [] \<or> \<not> decimal_digit (hd r)"
  shows "scan_digits (decimal n @ r) = Some (n, r)"
proof -
  have d: "list_all decimal_digit (decimal n)" "decimal n \<noteq> []" using decimal_digits by blast+
  have "takeWhile decimal_digit (decimal n @ r) = decimal n" "dropWhile decimal_digit (decimal n @ r) = r"
    using d(1) assms by (cases r; auto simp: list_all_iff takeWhile_eq_all_conv)+
  then show ?thesis using d(2) by (simp add: scan_digits_def number_of_decimal)
qed

lemma skip_space_decimal: "skip_space (decimal n @ r) = Some (decimal n @ r)"
proof (cases "decimal n")
  case Nil
  then show ?thesis using decimal_digits by blast
next
  case (Cons c s)
  then have "decimal_digit c" using decimal_digits [of n] by simp
  then have "c \<noteq> CHR 0x0A" "\<not> is_space c" by (auto simp: decimal_digit_def is_space_def)
  then show ?thesis using Cons by simp
qed

lemma scan_uint_decimal:
  "r = [] \<or> \<not> decimal_digit (hd r) \<Longrightarrow> scan_uint bits (decimal n @ r) = (if n < 2 ^ bits then Some (n, r) else None)"
  by (simp add: scan_uint_def skip_space_decimal scan_digits_decimal)

lemma scan_int_decimal:
  assumes "r = [] \<or> \<not> decimal_digit (hd r)" and "n < 2 ^ 63"
  shows "scan_int (decimal n @ r) = Some (int n, r)"
proof -
  obtain c s where d: "decimal n = c # s" using decimal_digits by (cases "decimal n") blast+
  then have "decimal_digit c" using decimal_digits [of n] by simp
  then have "c \<noteq> CHR ''-''" "c \<noteq> CHR ''+''" by (auto simp: decimal_digit_def)
  moreover have "int n < 2 ^ 63" using assms(2) by (metis of_nat_less_iff of_nat_numeral of_nat_power)
  ultimately show ?thesis
    using scan_digits_decimal [OF assms(1), of n] skip_space_decimal [of n r]
    by (simp add: d scan_int_def Let_def del: of_nat_power skip_space.simps)
qed

section \<open>Argon2id (hasher.go)\<close>

text \<open>
  \<open>argon2.IDKey\<close> is a parameter, which may panic; \<open>idkey_length\<close> is what it documents: a key of the length asked for, when
  every cost and the length are at least one.
\<close>

type_synonym idkey = "byte list \<Rightarrow> byte list \<Rightarrow> 32 word \<Rightarrow> 32 word \<Rightarrow> 8 word \<Rightarrow> 32 word \<Rightarrow> error + byte list"

definition idkey_length :: "idkey \<Rightarrow> bool" where
  "idkey_length k \<longleftrightarrow> (\<forall>p salt t m threads n key. k p salt t m threads n = Inr key \<longrightarrow> length key = unat n)"

definition argon2_Version :: int where "argon2_Version = 19"

definition DefaultArgon2Memory :: "32 word" where "DefaultArgon2Memory = 19 * 1024"
definition DefaultArgon2Time :: "32 word" where "DefaultArgon2Time = 2"
definition DefaultArgon2Threads :: "8 word" where "DefaultArgon2Threads = 1"
definition DefaultArgon2KeyLen :: "32 word" where "DefaultArgon2KeyLen = 32"
definition DefaultArgon2SaltLen :: "32 word" where "DefaultArgon2SaltLen = 16"

record argon2id_hasher =
  ah_Memory :: "32 word"
  ah_Time :: "32 word"
  ah_Threads :: "8 word"
  ah_KeyLen :: "32 word"
  ah_SaltLen :: "32 word"

definition NewArgon2idHasher :: argon2id_hasher where
  "NewArgon2idHasher = \<lparr>ah_Memory = DefaultArgon2Memory, ah_Time = DefaultArgon2Time, ah_Threads = DefaultArgon2Threads,
     ah_KeyLen = DefaultArgon2KeyLen, ah_SaltLen = DefaultArgon2SaltLen\<rparr>"

definition ah_withDefaults :: "argon2id_hasher \<Rightarrow> argon2id_hasher" where
  "ah_withDefaults h =
     (let d = NewArgon2idHasher;
          h = (if ah_Memory h = 0 then h\<lparr>ah_Memory := ah_Memory d\<rparr> else h);
          h = (if ah_Time h = 0 then h\<lparr>ah_Time := ah_Time d\<rparr> else h);
          h = (if ah_Threads h = 0 then h\<lparr>ah_Threads := ah_Threads d\<rparr> else h);
          h = (if ah_KeyLen h = 0 then h\<lparr>ah_KeyLen := ah_KeyLen d\<rparr> else h)
      in if ah_SaltLen h = 0 then h\<lparr>ah_SaltLen := ah_SaltLen d\<rparr> else h)"

definition argon2_text :: "argon2id_hasher \<Rightarrow> byte list \<Rightarrow> byte list \<Rightarrow> string" where
  "argon2_text h salt key =
     ''$argon2id$v='' @ decimal_int argon2_Version @ ''$m='' @ decimal (unat (ah_Memory h)) @ '',t='' @ decimal (unat (ah_Time h)) @
     '',p='' @ decimal (unat (ah_Threads h)) @ ''$'' @ b64std_encode salt @ ''$'' @ b64std_encode key"

definition derive :: "idkey \<Rightarrow> argon2id_hasher \<Rightarrow> byte list \<Rightarrow> string \<Rightarrow> error + string" where
  "derive k h salt password =
     map_sum id (argon2_text h salt) (k (bytes_of password) salt (ah_Time h) (ah_Memory h) (ah_Threads h) (ah_KeyLen h))"

definition Argon2id_Hash :: "idkey \<Rightarrow> argon2id_hasher \<Rightarrow> string \<Rightarrow> string prog" where
  "Argon2id_Hash k h password =
     (let h = ah_withDefaults h in
      seq (rand_read (unat (ah_SaltLen h))) (\<lambda>salt. lift (derive k h salt password)))"

record argon2_params =
  ap_Memory :: "32 word"
  ap_Time :: "32 word"
  ap_Threads :: "8 word"
  ap_KeyLen :: "32 word"

definition scan_costs :: "string \<Rightarrow> (nat \<times> nat \<times> nat) option" where
  "scan_costs s =
     (case Option.bind (scan_literal ''m='' s) (scan_uint 32) of
        None \<Rightarrow> None
      | Some (m, s) \<Rightarrow>
          (case Option.bind (scan_literal '',t='' s) (scan_uint 32) of
             None \<Rightarrow> None
           | Some (t, s) \<Rightarrow>
               (case Option.bind (scan_literal '',p='' s) (scan_uint 8) of
                  None \<Rightarrow> None
                | Some (p, _) \<Rightarrow> Some (m, t, p))))"

definition parseArgon2id :: "string \<Rightarrow> error + (argon2_params \<times> byte list \<times> byte list)" where
  "parseArgon2id hash =
     (let parts = split_at CHR ''$'' hash in
      if length parts \<noteq> 6 \<or> parts ! 0 \<noteq> '''' \<or> parts ! 1 \<noteq> ''argon2id'' then Inl ErrUnknownHashFormat
      else case Option.bind (scan_literal ''v='' (parts ! 2)) scan_int of
        None \<Rightarrow> Inl ErrUnknownHashFormat
      | Some (version, _) \<Rightarrow>
          if version \<noteq> argon2_Version then Inl (Wrapped ErrUnknownHashFormat (Fault (''argon2 version '' @ decimal_int version)))
          else case scan_costs (parts ! 3) of
            None \<Rightarrow> Inl ErrUnknownHashFormat
          | Some (m, t, p) \<Rightarrow>
              (case b64std_decode (parts ! 4) of
                 None \<Rightarrow> Inl ErrUnknownHashFormat
               | Some salt \<Rightarrow>
                   (case b64std_decode (parts ! 5) of
                      None \<Rightarrow> Inl ErrUnknownHashFormat
                    | Some key \<Rightarrow> Inr (\<lparr>ap_Memory = of_nat m, ap_Time = of_nat t, ap_Threads = of_nat p,
                                         ap_KeyLen = of_nat (length key)\<rparr>, salt, key))))"

definition verifyArgon2id :: "idkey \<Rightarrow> string \<Rightarrow> string \<Rightarrow> error + bool" where
  "verifyArgon2id k password hash =
     (case parseArgon2id hash of
        Inl _ \<Rightarrow> Inr False
      | Inr (p, salt, key) \<Rightarrow>
          map_sum id (\<lambda>candidate. candidate = key)
            (k (bytes_of password) salt (ap_Time p) (ap_Memory p) (ap_Threads p) (ap_KeyLen p)))"

definition Argon2id_NeedsRehash :: "argon2id_hasher \<Rightarrow> string \<Rightarrow> bool" where
  "Argon2id_NeedsRehash h hash =
     (let h = ah_withDefaults h in
      case parseArgon2id hash of
        Inl _ \<Rightarrow> True
      | Inr (p, _, _) \<Rightarrow> ap_Memory p < ah_Memory h \<or> ap_Time p < ah_Time h \<or> ap_KeyLen p < ah_KeyLen h)"

section \<open>bcrypt and the dispatch (hasher.go, password.go)\<close>

text \<open>The bcrypt library: \<open>bc_Generate\<close> draws 16 bytes of salt; \<open>bc_Compare\<close> takes the password and the hash.\<close>

record bcrypt_lib =
  bc_Generate :: "byte list \<Rightarrow> string \<Rightarrow> int \<Rightarrow> error + string"
  bc_Compare :: "string \<Rightarrow> string \<Rightarrow> bool"
  bc_Cost :: "string \<Rightarrow> error + int"

definition DefaultBcryptCost :: int where "DefaultBcryptCost = 10"

definition bcrypt_cost :: "int \<Rightarrow> int" where
  "bcrypt_cost c = (if c \<le> 0 then DefaultBcryptCost else c)"

definition HashPasswordWithCost :: "bcrypt_lib \<Rightarrow> string \<Rightarrow> int \<Rightarrow> string prog" where
  "HashPasswordWithCost l password c = seq (rand_read 16) (\<lambda>salt. lift (bc_Generate l salt password c))"

definition HashPassword :: "bcrypt_lib \<Rightarrow> string \<Rightarrow> string prog" where
  "HashPassword l password = HashPasswordWithCost l password DefaultBcryptCost"

definition CheckPassword :: "bcrypt_lib \<Rightarrow> string \<Rightarrow> string \<Rightarrow> bool" where
  "CheckPassword l password hash = bc_Compare l password hash"

definition Bcrypt_Hash :: "bcrypt_lib \<Rightarrow> int \<Rightarrow> string \<Rightarrow> string prog" where
  "Bcrypt_Hash l c password = HashPasswordWithCost l password (bcrypt_cost c)"

definition verifyAny :: "idkey \<Rightarrow> bcrypt_lib \<Rightarrow> string \<Rightarrow> string \<Rightarrow> error + bool" where
  "verifyAny k l password hash =
     (if HasPrefix hash ''$argon2id$'' then verifyArgon2id k password hash
      else if HasPrefix hash ''$2'' then Inr (bc_Compare l password hash)
      else Inr False)"

definition Bcrypt_NeedsRehash :: "bcrypt_lib \<Rightarrow> int \<Rightarrow> string \<Rightarrow> bool" where
  "Bcrypt_NeedsRehash l c hash =
     (if \<not> HasPrefix hash ''$2'' then True
      else case bc_Cost l hash of
        Inl _ \<Rightarrow> True
      | Inr stored \<Rightarrow> stored < bcrypt_cost c)"

text \<open>The two as the \<open>Hasher\<close> the services take, and the default one.\<close>

definition argon2id_as_hasher :: "idkey \<Rightarrow> bcrypt_lib \<Rightarrow> argon2id_hasher \<Rightarrow> hasher" where
  "argon2id_as_hasher k l h =
     \<lparr>h_salt = unat (ah_SaltLen (ah_withDefaults h)), h_Hash = derive k (ah_withDefaults h),
      h_Verify = (\<lambda>password hash. verifyAny k l password hash = Inr True), h_NeedsRehash = Argon2id_NeedsRehash h\<rparr>"

definition bcrypt_as_hasher :: "idkey \<Rightarrow> bcrypt_lib \<Rightarrow> int \<Rightarrow> hasher" where
  "bcrypt_as_hasher k l c =
     \<lparr>h_salt = 16, h_Hash = (\<lambda>salt password. bc_Generate l salt password (bcrypt_cost c)),
      h_Verify = (\<lambda>password hash. verifyAny k l password hash = Inr True), h_NeedsRehash = Bcrypt_NeedsRehash l c\<rparr>"

definition DefaultHasher :: "idkey \<Rightarrow> bcrypt_lib \<Rightarrow> hasher" where
  "DefaultHasher k l = argon2id_as_hasher k l NewArgon2idHasher"

lemma hashers_agree:
  "Hash (argon2id_as_hasher k l h) = Argon2id_Hash k h" "Hash (bcrypt_as_hasher k l c) = Bcrypt_Hash l c"
  by (simp_all add: fun_eq_iff Hash_def argon2id_as_hasher_def bcrypt_as_hasher_def Argon2id_Hash_def Bcrypt_Hash_def
      HashPasswordWithCost_def Let_def)


section \<open>What a hash says of itself\<close>

lemma scan_literal_there [simp]: "scan_literal lit (lit @ s) = Some s"
  by (simp add: scan_literal_def HasPrefix_def)

lemma word_bounds: "unat (x :: 32 word) < 2 ^ 32" "unat (y :: 8 word) < 2 ^ 8"
  using unsigned_less [of x] unsigned_less [of y] by simp_all

lemma scan_costs_printed:
  "scan_costs (''m='' @ decimal (unat m) @ '',t='' @ decimal (unat t) @ '',p='' @ decimal (unat p)) =
     Some (unat m, unat t, unat p)" for m t :: "32 word" and p :: "8 word"
proof -
  have "\<not> decimal_digit (CHR '','')" by (simp add: decimal_digit_def)
  then have "scan_uint 32 (decimal (unat m) @ '',t='' @ r) = Some (unat m, '',t='' @ r)"
    "scan_uint 32 (decimal (unat t) @ '',p='' @ r) = Some (unat t, '',p='' @ r)" for r
    using word_bounds(1) by (simp_all add: scan_uint_decimal)
  moreover have "scan_uint 8 (decimal (unat p)) = Some (unat p, [])"
    using scan_uint_decimal [of "[]" 8 "unat p"] word_bounds(2) [of p] by simp
  ultimately show ?thesis by (simp add: scan_costs_def del: append_Cons)
qed

lemma no_dollar: "CHR ''$'' \<notin> set (decimal n)" "CHR ''$'' \<notin> set (b64std_encode bs)"
proof -
  have "\<not> decimal_digit (CHR ''$'')" by (simp add: decimal_digit_def)
  then show "CHR ''$'' \<notin> set (decimal n)"
    using decimal_digits [of n] unfolding list_all_iff by blast
  show "CHR ''$'' \<notin> set (b64std_encode bs)"
    using b64std_encode_set std_alphabet_plain by blast
qed

text \<open>Parsing what was printed gives the costs, the salt and the key back, for every value of every field.\<close>

lemma parse_argon2_text:
  "parseArgon2id (argon2_text h salt key) =
     Inr (\<lparr>ap_Memory = ah_Memory h, ap_Time = ah_Time h, ap_Threads = ah_Threads h, ap_KeyLen = of_nat (length key)\<rparr>, salt, key)"
proof -
  define V where "V = ''v='' @ decimal_int argon2_Version"
  define C where "C = ''m='' @ decimal (unat (ah_Memory h)) @ '',t='' @ decimal (unat (ah_Time h)) @ '',p='' @ decimal (unat (ah_Threads h))"
  have "argon2_text h salt key = '''' @ CHR ''$'' # ''argon2id'' @ CHR ''$'' # V @ CHR ''$'' # C @ CHR ''$'' #
      b64std_encode salt @ CHR ''$'' # b64std_encode key"
    by (simp add: argon2_text_def V_def C_def)
  moreover have "CHR ''$'' \<notin> set V" "CHR ''$'' \<notin> set C"
    using no_dollar(1) by (simp_all add: decimal_int_def argon2_Version_def V_def C_def)
  moreover have "CHR ''$'' \<notin> set ''argon2id''" "CHR ''$'' \<notin> set ''''" by simp_all
  ultimately have parts: "split_at CHR ''$'' (argon2_text h salt key) =
      ['''', ''argon2id'', V, C, b64std_encode salt, b64std_encode key]"
    using no_dollar(2) by (simp only: split_at_field split_at_plain not_False_eq_True)
  have "scan_int (decimal 19 @ []) = Some (int 19, [])" by (rule scan_int_decimal) simp_all
  then have "Option.bind (scan_literal ''v='' V) scan_int = Some (argon2_Version, [])"
    unfolding V_def scan_literal_there by (simp add: decimal_int_def argon2_Version_def)
  moreover have "scan_costs C = Some (unat (ah_Memory h), unat (ah_Time h), unat (ah_Threads h))"
    unfolding C_def by (rule scan_costs_printed)
  ultimately show ?thesis
    unfolding parseArgon2id_def Let_def parts by (simp add: b64std_roundtrip)
qed

lemma argon2_text_prefix: "HasPrefix (argon2_text h salt key) ''$argon2id$''" "\<not> HasPrefix (argon2_text h salt key) ''$2''"
  by (simp_all add: argon2_text_def HasPrefix_def)

lemma derive_ok: "derive k h salt p = Inr s \<longleftrightarrow>
     (\<exists>key. k (bytes_of p) salt (ah_Time h) (ah_Memory h) (ah_Threads h) (ah_KeyLen h) = Inr key \<and> s = argon2_text h salt key)"
  by (cases "k (bytes_of p) salt (ah_Time h) (ah_Memory h) (ah_Threads h) (ah_KeyLen h)") (auto simp: derive_def)

lemma argon2id_hash_text:
  assumes "Argon2id_Hash k h password w = (Inr hash, w')"
  obtains salt key where "hash = argon2_text (ah_withDefaults h) salt key" and "length salt = unat (ah_SaltLen (ah_withDefaults h))"
    and "k (bytes_of password) salt (ah_Time (ah_withDefaults h)) (ah_Memory (ah_withDefaults h))
       (ah_Threads (ah_withDefaults h)) (ah_KeyLen (ah_withDefaults h)) = Inr key"
proof -
  let ?h = "ah_withDefaults h"
  let ?salt = "map (\<lambda>k. rsrc w (rpos w + k)) [0..<unat (ah_SaltLen ?h)]"
  have "derive k ?h ?salt password = Inr hash" using assms unfolding Argon2id_Hash_def Let_def by auto
  then obtain key where "k (bytes_of password) ?salt (ah_Time ?h) (ah_Memory ?h) (ah_Threads ?h) (ah_KeyLen ?h) = Inr key"
    and "hash = argon2_text ?h ?salt key"
    unfolding derive_ok by blast
  then show thesis by (intro that [of ?salt key]) simp_all
qed

lemma verify_argon2_text:
  assumes "length key = unat (ah_KeyLen h)"
  shows "verifyAny k l password (argon2_text h salt key) =
     map_sum id (\<lambda>candidate. candidate = key)
       (k (bytes_of password) salt (ah_Time h) (ah_Memory h) (ah_Threads h) (ah_KeyLen h))"
  by (simp add: verifyAny_def verifyArgon2id_def argon2_text_prefix(1) parse_argon2_text assms)

text \<open>
  C33. A stored Argon2id hash carries all that its later checks need. Whatever costs it was made with, the password it
  was made from verifies under every hasher of the package, and another password only if it derives the very same hash from
  the same salt; the hasher that made it does not ask for it to be made again; a hasher with other costs asks exactly
  when the memory, the time or the key length of the stored one is smaller than its own; and the bcrypt hasher always asks.
\<close>

theorem argon2id_hash_verifies:
  assumes "Argon2id_Hash k h password w = (Inr hash, w')" and "idkey_length k"
  shows "h_Verify (argon2id_as_hasher k l h') password hash \<and> h_Verify (bcrypt_as_hasher k l c) password hash \<and>
     (\<exists>salt. derive k (ah_withDefaults h) salt password = Inr hash \<and>
        (\<forall>other. h_Verify (argon2id_as_hasher k l h') other hash \<longleftrightarrow> derive k (ah_withDefaults h) salt other = Inr hash)) \<and>
     \<not> Argon2id_NeedsRehash h hash \<and>
     (Argon2id_NeedsRehash h' hash \<longleftrightarrow>
        ah_Memory (ah_withDefaults h) < ah_Memory (ah_withDefaults h') \<or> ah_Time (ah_withDefaults h) < ah_Time (ah_withDefaults h') \<or>
        ah_KeyLen (ah_withDefaults h) < ah_KeyLen (ah_withDefaults h')) \<and>
     Bcrypt_NeedsRehash l c hash"
proof -
  let ?h = "ah_withDefaults h"
  obtain salt key where t: "hash = argon2_text ?h salt key"
    and key: "k (bytes_of password) salt (ah_Time ?h) (ah_Memory ?h) (ah_Threads ?h) (ah_KeyLen ?h) = Inr key"
    using assms(1) by (rule argon2id_hash_text)
  have n: "length key = unat (ah_KeyLen ?h)" using assms(2) key unfolding idkey_length_def by blast
  have same: "argon2_text ?h salt key' = argon2_text ?h salt key \<longleftrightarrow> key' = key" for key'
    using parse_argon2_text [of ?h salt key] parse_argon2_text [of ?h salt key'] by auto
  have verify: "verifyAny k l other hash = Inr True \<longleftrightarrow> derive k ?h salt other = Inr hash" for other
    by (cases "k (bytes_of other) salt (ah_Time ?h) (ah_Memory ?h) (ah_Threads ?h) (ah_KeyLen ?h)")
      (simp_all add: t verify_argon2_text [OF n] derive_def same)
  have made: "derive k ?h salt password = Inr hash" by (simp add: t derive_def key)
  have rehash: "Argon2id_NeedsRehash h' hash \<longleftrightarrow> ah_Memory ?h < ah_Memory (ah_withDefaults h') \<or>
      ah_Time ?h < ah_Time (ah_withDefaults h') \<or> ah_KeyLen ?h < ah_KeyLen (ah_withDefaults h')" for h'
    by (simp add: Argon2id_NeedsRehash_def Let_def t parse_argon2_text n)
  have "Bcrypt_NeedsRehash l c hash" using argon2_text_prefix(2) by (simp add: Bcrypt_NeedsRehash_def t)
  then show ?thesis
    using verify made rehash [of h'] rehash [of h] by (auto simp: argon2id_as_hasher_def bcrypt_as_hasher_def)
qed

text \<open>Both hashers keep the promise the services rest on, so their theorems hold with the real hashers in place.\<close>

lemma argon2id_hasher_correct: "idkey_length k \<Longrightarrow> hasher_correct (argon2id_as_hasher k l h)"
proof -
  assume law: "idkey_length k"
  have "verifyAny k l p s = Inr True" if made: "derive k (ah_withDefaults h) salt p = Inr s" for salt p s
  proof -
    let ?h = "ah_withDefaults h"
    obtain key where key: "k (bytes_of p) salt (ah_Time ?h) (ah_Memory ?h) (ah_Threads ?h) (ah_KeyLen ?h) = Inr key"
      and s: "s = argon2_text ?h salt key"
      using made unfolding derive_ok by blast
    have "length key = unat (ah_KeyLen ?h)" using law key unfolding idkey_length_def by blast
    then show ?thesis by (simp add: s verify_argon2_text key)
  qed
  then show ?thesis by (simp add: hasher_correct_def argon2id_as_hasher_def)
qed

lemma HasPrefix_nth: "HasPrefix s p \<Longrightarrow> i < length p \<Longrightarrow> s ! i = p ! i"
  unfolding HasPrefix_def by (metis nth_take)

lemma bcrypt_hasher_correct:
  assumes "\<And>salt p c s. bc_Generate l salt p c = Inr s \<Longrightarrow> HasPrefix s ''$2'' \<and> bc_Compare l p s"
  shows "hasher_correct (bcrypt_as_hasher k l c)"
proof -
  have "\<not> HasPrefix s ''$argon2id$''" if "HasPrefix s ''$2''" for s
  proof
    assume "HasPrefix s ''$argon2id$''"
    from HasPrefix_nth [OF this, of 1] HasPrefix_nth [OF that, of 1] show False by simp
  qed
  then show ?thesis using assms by (auto simp: hasher_correct_def bcrypt_as_hasher_def verifyAny_def)
qed

text \<open>Checking a password against any text returns, unless the key derivation itself fails on the costs the text asks for.\<close>

lemma verifyAny_total:
  assumes "verifyAny k l password hash = Inl e"
  shows "\<exists>p salt key. parseArgon2id hash = Inr (p, salt, key) \<and>
     k (bytes_of password) salt (ap_Time p) (ap_Memory p) (ap_Threads p) (ap_KeyLen p) = Inl e"
  using assms by (auto simp: verifyAny_def verifyArgon2id_def map_sum_def split: if_splits sum.splits prod.splits)

text \<open>
  Such texts exist, and the parser accepts them: no rounds, no lanes, no key. It is not strict either: text after a number
  and white space before one go unnoticed.
\<close>

lemma zero_costs_reach_the_derivation:
  "verifyAny k l password ''$argon2id$v=19$m=1,t=0,p=0$$'' = map_sum id (\<lambda>candidate. candidate = []) (k (bytes_of password) [] 0 1 0 0)"
  by (simp add: verifyAny_def verifyArgon2id_def parseArgon2id_def HasPrefix_def scan_literal_def scan_int_def scan_uint_def
      scan_digits_def scan_costs_def decimal_digit_def is_space_def number_of_def digit_value_def argon2_Version_def b64std_decode_def)

lemma parse_is_loose:
  "parseArgon2id ''$argon2id$v= 19.5$m=1,t= 2,p=1;q=7$$'' =
   Inr (\<lparr>ap_Memory = 1, ap_Time = 2, ap_Threads = 1, ap_KeyLen = 0\<rparr>, [], [])"
  by (simp add: parseArgon2id_def HasPrefix_def scan_literal_def scan_int_def scan_uint_def
      scan_digits_def scan_costs_def decimal_digit_def is_space_def number_of_def digit_value_def argon2_Version_def b64std_decode_def)

section \<open>Witness\<close>

definition demo_idkey :: idkey where
  "demo_idkey password salt t m threads n = Inr (take (unat n) (password @ replicate (unat n) 0))"

definition demo_bcrypt :: bcrypt_lib where
  "demo_bcrypt = \<lparr>bc_Generate = (\<lambda>_ p _. Inr (''$2a$'' @ p)), bc_Compare = (\<lambda>p h. h = ''$2a$'' @ p), bc_Cost = (\<lambda>_. Inr 10)\<rparr>"

theorem argon2id_hash_verifies_witness:
  "\<exists>hash w'. Argon2id_Hash demo_idkey NewArgon2idHasher ''pw'' (world0 0) = (Inr hash, w') \<and>
     h_Verify (DefaultHasher demo_idkey demo_bcrypt) ''pw'' hash \<and> \<not> h_NeedsRehash (DefaultHasher demo_idkey demo_bcrypt) hash"
proof -
  have law: "idkey_length demo_idkey" by (auto simp: idkey_length_def demo_idkey_def)
  obtain hash w' where run: "Argon2id_Hash demo_idkey NewArgon2idHasher ''pw'' (world0 0) = (Inr hash, w')"
    by (simp add: Argon2id_Hash_def Let_def derive_def demo_idkey_def rand_read_def port_def seq_def on_def lift_def world0_def)
  from argon2id_hash_verifies [OF run law, of demo_bcrypt NewArgon2idHasher 0] run show ?thesis
    by (auto simp: DefaultHasher_def argon2id_as_hasher_def)
qed


end
