(* ===== verification/JwtKeys.thy ===== *)
theory JwtKeys
  imports AuthHttp
begin

text \<open>
  Package \<open>jwt\<close>: the HMAC signer (\<open>signer.go\<close>), the asymmetric signer and the verifier of public keys
  (\<open>asymmetric.go\<close>), key thumbprints and the published key set (\<open>jwks.go\<close>). Parsing, signing and checking a signature are
  the JWT library's, a parameter; which key a token is checked with is the package's.
\<close>

section \<open>Keys\<close>

text \<open>An RSA key is its modulus and exponent; \<open>OtherKey\<close> is a value of any other type, a private key say.\<close>

datatype public_key = RSAPublicKey nat int | Ed25519PublicKey "byte list" | OtherKey

fun bit_len :: "nat \<Rightarrow> nat" where "bit_len n = (if n = 0 then 0 else Suc (bit_len (n div 2)))"

declare bit_len.simps [simp del]

text \<open>\<open>big.Int.Bytes\<close>: the absolute value, big-endian, no leading zero.\<close>

fun big_bytes :: "nat \<Rightarrow> byte list" where
  "big_bytes n = (if n = 0 then [] else big_bytes (n div 256) @ [of_nat (n mod 256)])"

declare big_bytes.simps [simp del]

definition MinRSABits :: nat where "MinRSABits = 2048"

definition weak_key :: "nat \<Rightarrow> error" where
  "weak_key n = Wrapped (Key ErrWeakKey) (Fault (''got '' @ decimal (bit_len n)))"

definition checkPublicKey :: "public_key \<Rightarrow> error option" where
  "checkPublicKey k =
     (case k of
        RSAPublicKey n e \<Rightarrow> if bit_len n < MinRSABits then Some (weak_key n) else None
      | Ed25519PublicKey b \<Rightarrow> if length b \<noteq> 32 then Some (Key ErrUnsupportedKey) else None
      | OtherKey \<Rightarrow> Some (Key ErrUnsupportedKey))"

text \<open>\<open>%q\<close> of a text with nothing to escape, as base64 is, and one member of a JSON object of such texts.\<close>

definition quoted :: "string \<Rightarrow> string" where "quoted s = CHR 0x22 # s @ [CHR 0x22]"

definition member_text :: "string \<Rightarrow> string \<Rightarrow> string" where "member_text name v = quoted name @ '':'' @ quoted v"

definition b64 :: "byte list \<Rightarrow> string" where "b64 b = b64url_encode b"

definition canonical :: "public_key \<Rightarrow> string" where
  "canonical k =
     (case k of
        RSAPublicKey n e \<Rightarrow> ''{'' @ member_text ''e'' (b64 (big_bytes (nat \<bar>e\<bar>))) @ '','' @ member_text ''kty'' ''RSA'' @ '','' @
          member_text ''n'' (b64 (big_bytes n)) @ ''}''
      | Ed25519PublicKey b \<Rightarrow> ''{'' @ member_text ''crv'' ''Ed25519'' @ '','' @ member_text ''kty'' ''OKP'' @ '','' @
          member_text ''x'' (b64 b) @ ''}''
      | OtherKey \<Rightarrow> '''')"

definition KeyID :: "public_key \<Rightarrow> error + string" where
  "KeyID k =
     (case k of
        RSAPublicKey _ _ \<Rightarrow> Inr (b64 (Sum256 (bytes_of (canonical k))))
      | Ed25519PublicKey b \<Rightarrow> if length b \<noteq> 32 then Inl (Key ErrUnsupportedKey)
                               else Inr (b64 (Sum256 (bytes_of (canonical k))))
      | OtherKey \<Rightarrow> Inl (Key ErrUnsupportedKey))"

record jwk =
  jw_Kty :: string
  jw_Use :: string
  jw_Alg :: string
  jw_Kid :: string
  jw_N :: string
  jw_E :: string
  jw_Crv :: string
  jw_X :: string

definition toJWK :: "public_key \<Rightarrow> error + jwk" where
  "toJWK key =
     (case KeyID key of
        Inl e \<Rightarrow> Inl e
      | Inr kid \<Rightarrow>
          (case key of
             RSAPublicKey n e \<Rightarrow>
               if bit_len n < MinRSABits then Inl (weak_key n)
               else Inr \<lparr>jw_Kty = ''RSA'', jw_Use = ''sig'', jw_Alg = ''RS256'', jw_Kid = kid,
                  jw_N = b64 (big_bytes n), jw_E = b64 (big_bytes (nat \<bar>e\<bar>)), jw_Crv = '''', jw_X = ''''\<rparr>
           | Ed25519PublicKey b \<Rightarrow>
               if length b \<noteq> 32 then Inl (Key ErrUnsupportedKey)
               else Inr \<lparr>jw_Kty = ''OKP'', jw_Use = ''sig'', jw_Alg = ''EdDSA'', jw_Kid = kid, jw_N = '''', jw_E = '''',
                  jw_Crv = ''Ed25519'', jw_X = b64 b\<rparr>
           | OtherKey \<Rightarrow> Inl (Key ErrUnsupportedKey)))"

text \<open>\<open>json.Marshal\<close> of the set: four members always, the others when not empty.\<close>

fun comma_separated :: "string list \<Rightarrow> string" where
  "comma_separated [] = ''''"
| "comma_separated [x] = x"
| "comma_separated (x # y # ys) = x @ '','' @ comma_separated (y # ys)"

definition jwk_text :: "jwk \<Rightarrow> string" where
  "jwk_text j = ''{'' @ comma_separated (map (\<lambda>(n, v). member_text n v)
     ([(''kty'', jw_Kty j), (''use'', jw_Use j), (''alg'', jw_Alg j), (''kid'', jw_Kid j)] @
      filter (\<lambda>(n, v). v \<noteq> '''') [(''n'', jw_N j), (''e'', jw_E j), (''crv'', jw_Crv j), (''x'', jw_X j)])) @ ''}''"

fun toJWKs :: "public_key list \<Rightarrow> error + jwk list" where
  "toJWKs [] = Inr []"
| "toJWKs (k # ks) =
     (case toJWK k of
        Inl e \<Rightarrow> Inl e
      | Inr j \<Rightarrow> (case toJWKs ks of Inl e \<Rightarrow> Inl e | Inr js \<Rightarrow> Inr (j # js)))"

definition JWKS :: "public_key list \<Rightarrow> error + string" where
  "JWKS keys = map_sum id (\<lambda>js. ''{'' @ quoted ''keys'' @ '':['' @ comma_separated (map jwk_text js) @ '']}'') (toJWKs keys)"

section \<open>The library\<close>

text \<open>
  A signing method with its name; \<open>alg\<close> and \<open>kid\<close> are what a token's header says, \<open>kid\<close> when it is a text. \<open>jl_Parse\<close> is
  \<open>ParseWithClaims\<close> at an instant: it asks the key function for the key of the header, and says whether the token is valid.
  \<open>jl_header\<close>, \<open>jl_claims\<close> and \<open>jl_signed\<close> say what a token's header and claims are, and whether its signature is good by a
  method under a key; they stand in laws only.
\<close>

datatype signing_method = MethodHMAC string | MethodRSA string | MethodRSAPSS string | MethodECDSA string | MethodEd25519 | MethodNone

record token_header =
  th_alg :: signing_method
  th_kid :: "string option"

text \<open>A private key with what it adds to its public half.\<close>

datatype private_key = RSAPrivateKey nat int nat | Ed25519PrivateKey "byte list"

datatype verifying_key = SharedSecret "byte list" | PublicKey public_key

datatype signing_key = Secret "byte list" | PrivateKey private_key

record jwt_lib =
  jl_Parse :: "time \<Rightarrow> string \<Rightarrow> (token_header \<Rightarrow> error + verifying_key) \<Rightarrow> error + claims \<times> bool"
  jl_SignedString :: "token_header \<Rightarrow> claims \<Rightarrow> signing_key \<Rightarrow> error + string"
  jl_header :: "string \<Rightarrow> token_header option"
  jl_claims :: "string \<Rightarrow> claims"
  jl_signed :: "string \<Rightarrow> signing_method \<Rightarrow> verifying_key \<Rightarrow> bool"

section \<open>The HMAC signer (signer.go)\<close>

record hmac_signer =
  hs_secret :: "byte list"
  hs_Issuer :: string
  hs_TTL :: duration

definition NewHMACSigner :: "byte list \<Rightarrow> string \<Rightarrow> duration \<Rightarrow> error + hmac_signer" where
  "NewHMACSigner secret issuer ttl =
     (if length secret < 32 then Inl (Key ErrInvalidSecret)
      else Inr \<lparr>hs_secret = secret, hs_Issuer = issuer, hs_TTL = (if ttl \<le> 0 then hour else ttl)\<rparr>)"

definition HMAC_Sign :: "jwt_lib \<Rightarrow> hmac_signer \<Rightarrow> claims \<Rightarrow> error + string" where
  "HMAC_Sign l s c = jl_SignedString l \<lparr>th_alg = MethodHMAC ''HS256'', th_kid = None\<rparr> c (Secret (hs_secret s))"

definition HMAC_key :: "hmac_signer \<Rightarrow> token_header \<Rightarrow> error + verifying_key" where
  "HMAC_key s t = (case th_alg t of MethodHMAC _ \<Rightarrow> Inr (SharedSecret (hs_secret s)) | _ \<Rightarrow> Inl (Jwt ErrTokenSignatureInvalid))"

text \<open>What both \<open>Verify\<close> methods do with the library's answer.\<close>

definition parse_answer :: "error + claims \<times> bool \<Rightarrow> error + claims" where
  "parse_answer r = (case r of Inl e \<Rightarrow> Inl e | Inr (c, valid) \<Rightarrow> if \<not> valid then Inl (Jwt ErrTokenInvalidClaims) else Inr c)"

definition HMAC_Verify :: "jwt_lib \<Rightarrow> hmac_signer \<Rightarrow> time \<Rightarrow> string \<Rightarrow> error + claims" where
  "HMAC_Verify l s now token = parse_answer (jl_Parse l now token (HMAC_key s))"

definition HMAC_Validate :: "jwt_lib \<Rightarrow> hmac_signer \<Rightarrow> string \<Rightarrow> claims prog" where
  "HMAC_Validate l s token = with_now (\<lambda>now. lift (HMAC_Verify l s now token))"

text \<open>The signer the services take.\<close>

definition hmac_as_signer :: "jwt_lib \<Rightarrow> hmac_signer \<Rightarrow> signer" where
  "hmac_as_signer l s = \<lparr>sg_Sign = HMAC_Sign l s, sg_Issuer = hs_Issuer s, sg_TTL = hs_TTL s\<rparr>"

definition HMAC_Generate :: "jwt_lib \<Rightarrow> hmac_signer \<Rightarrow> claims \<Rightarrow> string prog" where
  "HMAC_Generate l s = Generate (hmac_as_signer l s)"

section \<open>The verifier of public keys (asymmetric.go)\<close>

record public_key_verifier =
  kv_byKID :: "string \<rightharpoonup> public_key"
  kv_order :: "public_key list"

fun add_keys :: "public_key list \<Rightarrow> public_key_verifier \<Rightarrow> error + public_key_verifier" where
  "add_keys [] v = Inr v"
| "add_keys (k # ks) v =
     (case checkPublicKey k of
        Some e \<Rightarrow> Inl e
      | None \<Rightarrow>
          (case KeyID k of
             Inl e \<Rightarrow> Inl e
           | Inr kid \<Rightarrow> add_keys ks \<lparr>kv_byKID = (kv_byKID v)(kid \<mapsto> k), kv_order = kv_order v @ [k]\<rparr>))"

definition NewVerifier :: "public_key list \<Rightarrow> error + public_key_verifier" where
  "NewVerifier keys =
     (if length keys = 0 then Inl (Key ErrNoKeys) else add_keys keys \<lparr>kv_byKID = Map.empty, kv_order = []\<rparr>)"

definition methodMatchesKey :: "signing_method \<Rightarrow> public_key \<Rightarrow> bool" where
  "methodMatchesKey m k =
     (case k of
        RSAPublicKey _ _ \<Rightarrow> (case m of MethodRSA _ \<Rightarrow> True | _ \<Rightarrow> False)
      | Ed25519PublicKey _ \<Rightarrow> m = MethodEd25519
      | OtherKey \<Rightarrow> False)"

definition matched :: "signing_method \<Rightarrow> public_key \<Rightarrow> error + verifying_key" where
  "matched m k = (if \<not> methodMatchesKey m k then Inl (Jwt ErrTokenSignatureInvalid) else Inr (PublicKey k))"

definition KV_key :: "public_key_verifier \<Rightarrow> token_header \<Rightarrow> error + verifying_key" where
  "KV_key v t =
     (if th_kid t \<notin> {None, Some ''''}
      then (case kv_byKID v (the (th_kid t)) of
              None \<Rightarrow> Inl (Wrapped (Jwt ErrTokenSignatureInvalid) (Fault (''unknown kid '' @ quoted (the (th_kid t)))))
            | Some key \<Rightarrow> matched (th_alg t) key)
      else if length (kv_order v) \<noteq> 1
           then Inl (Wrapped (Jwt ErrTokenSignatureInvalid)
             (Fault (''token has no kid and this verifier holds '' @ decimal (length (kv_order v)) @ '' keys'')))
      else matched (th_alg t) (kv_order v ! 0))"

definition KV_Verify :: "jwt_lib \<Rightarrow> public_key_verifier \<Rightarrow> time \<Rightarrow> string \<Rightarrow> error + claims" where
  "KV_Verify l v now token = parse_answer (jl_Parse l now token (KV_key v))"

definition KV_Validate :: "jwt_lib \<Rightarrow> public_key_verifier \<Rightarrow> string \<Rightarrow> claims prog" where
  "KV_Validate l v token = with_now (\<lambda>now. lift (KV_Verify l v now token))"

definition KV_JWKS :: "public_key_verifier \<Rightarrow> error + string" where "KV_JWKS v = JWKS (kv_order v)"

section \<open>The asymmetric signer (asymmetric.go)\<close>

text \<open>\<open>priv.Public()\<close>: the second half of an Ed25519 private key is its public key.\<close>

definition public_of :: "private_key \<Rightarrow> public_key" where
  "public_of k = (case k of RSAPrivateKey n e d \<Rightarrow> RSAPublicKey n e | Ed25519PrivateKey b \<Rightarrow> Ed25519PublicKey (drop 32 b))"

record asymmetric_signer =
  as_priv :: private_key
  as_pub :: public_key
  as_method :: signing_method
  as_kid :: string
  as_verifier :: public_key_verifier
  as_Issuer :: string
  as_TTL :: duration

definition newAsymmetricSigner :: "private_key \<Rightarrow> signing_method \<Rightarrow> string \<Rightarrow> duration \<Rightarrow> error + asymmetric_signer" where
  "newAsymmetricSigner priv m issuer ttl =
     (case KeyID (public_of priv) of
        Inl e \<Rightarrow> Inl e
      | Inr kid \<Rightarrow>
          (case NewVerifier [public_of priv] of
             Inl e \<Rightarrow> Inl e
           | Inr v \<Rightarrow> Inr \<lparr>as_priv = priv, as_pub = public_of priv, as_method = m, as_kid = kid, as_verifier = v,
               as_Issuer = issuer, as_TTL = (if ttl \<le> 0 then hour else ttl)\<rparr>))"

text \<open>\<open>None\<close> is a nil key.\<close>

definition NewRS256Signer :: "(nat \<times> int \<times> nat) option \<Rightarrow> string \<Rightarrow> duration \<Rightarrow> error + asymmetric_signer" where
  "NewRS256Signer priv issuer ttl =
     (case priv of
        None \<Rightarrow> Inl (Key ErrUnsupportedKey)
      | Some (n, e, d) \<Rightarrow>
          if bit_len n < MinRSABits then Inl (weak_key n)
          else newAsymmetricSigner (RSAPrivateKey n e d) (MethodRSA ''RS256'') issuer ttl)"

definition NewEd25519Signer :: "byte list \<Rightarrow> string \<Rightarrow> duration \<Rightarrow> error + asymmetric_signer" where
  "NewEd25519Signer priv issuer ttl =
     (if length priv \<noteq> 64 then Inl (Key ErrUnsupportedKey)
      else newAsymmetricSigner (Ed25519PrivateKey priv) MethodEd25519 issuer ttl)"

definition AS_JWKS :: "asymmetric_signer \<Rightarrow> error + string" where "AS_JWKS s = JWKS [as_pub s]"

definition AS_Sign :: "jwt_lib \<Rightarrow> asymmetric_signer \<Rightarrow> claims \<Rightarrow> error + string" where
  "AS_Sign l s c = jl_SignedString l \<lparr>th_alg = as_method s, th_kid = Some (as_kid s)\<rparr> c (PrivateKey (as_priv s))"

definition AS_Verify :: "jwt_lib \<Rightarrow> asymmetric_signer \<Rightarrow> time \<Rightarrow> string \<Rightarrow> error + claims" where
  "AS_Verify l s = KV_Verify l (as_verifier s)"

definition asymmetric_as_signer :: "jwt_lib \<Rightarrow> asymmetric_signer \<Rightarrow> signer" where
  "asymmetric_as_signer l s = \<lparr>sg_Sign = AS_Sign l s, sg_Issuer = as_Issuer s, sg_TTL = as_TTL s\<rparr>"

definition AS_Generate :: "jwt_lib \<Rightarrow> asymmetric_signer \<Rightarrow> claims \<Rightarrow> string prog" where
  "AS_Generate l s = Generate (asymmetric_as_signer l s)"

definition AS_Validate :: "jwt_lib \<Rightarrow> asymmetric_signer \<Rightarrow> string \<Rightarrow> claims prog" where
  "AS_Validate l s = KV_Validate l (as_verifier s)"

end
