(* ===== verification/JwtProps.thy ===== *)
theory JwtProps
  imports JwtKeys
begin

text \<open>
  What package \<open>jwt\<close> promises of the keys it checks tokens with, from what the JWT library documents.
\<close>

section \<open>What the library documents\<close>

text \<open>A token is valid only with a good signature under the key that the key function gave for the token's header.\<close>

definition jwt_sound :: "jwt_lib \<Rightarrow> bool" where
  "jwt_sound l \<longleftrightarrow> (\<forall>now tok kf c. jl_Parse l now tok kf = Inr (c, True) \<longrightarrow>
     (\<exists>h key. jl_header l tok = Some h \<and> kf h = Inr key \<and> jl_signed l tok (th_alg h) key))"

text \<open>The error of the key function is wrapped in \<open>ErrTokenUnverifiable\<close>.\<close>

definition jwt_reports :: "jwt_lib \<Rightarrow> bool" where
  "jwt_reports l \<longleftrightarrow> (\<forall>now tok kf h e. jl_header l tok = Some h \<longrightarrow> kf h = Inl e \<longrightarrow>
     jl_Parse l now tok kf = Inl (Wrapped (Jwt ErrTokenUnverifiable) e))"

text \<open>The claims a token carries: those it was signed over, the instants cut to whole seconds.\<close>

definition whole :: "time \<Rightarrow> time" where "whole t = t div second * second"

definition cut_claims :: "claims \<Rightarrow> claims" where
  "cut_claims c = c\<lparr>cl_ExpiresAt := map_option whole (cl_ExpiresAt c), cl_NotBefore := map_option whole (cl_NotBefore c),
     cl_IssuedAt := map_option whole (cl_IssuedAt c)\<rparr>"

text \<open>JSON carries a text as it is if it is well-formed UTF-8; Go replaces what is not.\<close>

function well_formed :: "nat list \<Rightarrow> bool" where
  "well_formed bs = (if bs = [] then True else if 128 \<le> hd bs \<and> rune_size bs = 1 then False else well_formed (drop (rune_size bs) bs))"
  by pat_completeness auto

termination
  by (relation "measure length") (use rune_size_pos in \<open>auto simp: diff_less\<close>)

declare well_formed.simps [simp del]

definition valid_text :: "string \<Rightarrow> bool" where "valid_text s = well_formed (map of_char s)"

definition valid_texts :: "claims \<Rightarrow> bool" where
  "valid_texts c \<longleftrightarrow> list_all valid_text ([cl_Issuer c, cl_Subject c, cl_ID c, cl_Email c, cl_ActorID c, cl_TeamID c] @ cl_Audience c)"

text \<open>A token's time: from its \<open>nbf\<close>, where it has one, until its \<open>exp\<close>, where it has one.\<close>

definition in_time :: "time \<Rightarrow> claims \<Rightarrow> bool" where
  "in_time now c \<longleftrightarrow> (\<forall>x. cl_ExpiresAt c = Some x \<longrightarrow> now < x) \<and> (\<forall>x. cl_NotBefore c = Some x \<longrightarrow> x \<le> now)"

definition verifying :: "signing_key \<Rightarrow> verifying_key" where
  "verifying k = (case k of Secret s \<Rightarrow> SharedSecret s | PrivateKey p \<Rightarrow> PublicKey (public_of p))"

text \<open>Signing: the token has the header and the claims given, and a signature good under the other half of the key.\<close>

definition jwt_signs :: "jwt_lib \<Rightarrow> bool" where
  "jwt_signs l \<longleftrightarrow> (\<forall>h c key tok. jl_SignedString l h c key = Inr tok \<longrightarrow>
     jl_signed l tok (th_alg h) (verifying key) \<and>
     (pred_option valid_text (th_kid h) \<longrightarrow> jl_header l tok = Some h) \<and>
     (valid_texts c \<longrightarrow> jl_claims l tok = cut_claims c))"

text \<open>Parsing: a token whose signature is good under the key its header is given, within its time, is valid.\<close>

definition jwt_accepts :: "jwt_lib \<Rightarrow> bool" where
  "jwt_accepts l \<longleftrightarrow> (\<forall>now tok kf h key. jl_header l tok = Some h \<longrightarrow> kf h = Inr key \<longrightarrow> jl_signed l tok (th_alg h) key \<longrightarrow>
     in_time now (jl_claims l tok) \<longrightarrow> jl_Parse l now tok kf = Inr (jl_claims l tok, True))"

section \<open>Thumbprints\<close>

lemma big_bytes_value: "foldl (\<lambda>n b. n * 256 + unat b) 0 (big_bytes n) = n"
proof (induction n rule: big_bytes.induct)
  case (1 n)
  show ?case
  proof (cases "n = 0")
    case True
    then show ?thesis by (simp add: big_bytes.simps)
  next
    case False
    have "unat (of_nat (n mod 256) :: byte) = n mod 256" by (simp add: unat_of_nat)
    then show ?thesis using 1 False by (subst big_bytes.simps) simp
  qed
qed

lemma big_bytes_eq_iff [simp]: "big_bytes m = big_bytes n \<longleftrightarrow> m = n"
  by (metis big_bytes_value)

lemma b64_alphabet: "set (b64 b) \<subseteq> set url_alphabet"
proof
  fix c assume "c \<in> set (b64 b)"
  then obtain i where i: "i \<in> set (sextets (map unat b))" "url_alphabet ! i = c"
    by (auto simp: b64_def b64url_encode_def)
  have "i < 64"
  proof (rule sextets_less [OF _ i(1)])
    fix x assume "x \<in> set (map unat b)"
    then obtain y :: byte where "x = unat y" by auto
    then show "x < 256" using unsigned_less [of y] by simp
  qed
  then show "c \<in> set url_alphabet" using i(2) by auto
qed

lemma b64_unquoted: "CHR 0x22 \<notin> set (b64 b)"
  using b64_alphabet [of b] by (auto simp: url_alphabet_def)

lemma well_formed_ascii: "\<forall>b \<in> set bs. b < 128 \<Longrightarrow> well_formed bs"
proof (induction bs)
  case (Cons b bs)
  then have "rune_size (b # bs) = 1" by (simp add: rune_size_def Let_def)
  then show ?case using Cons by (subst well_formed.simps) simp
next
  case Nil
  show ?case by (subst well_formed.simps) simp
qed

lemma valid_ascii: "\<forall>c \<in> set s. of_char c < (128 :: nat) \<Longrightarrow> valid_text s"
  unfolding valid_text_def by (rule well_formed_ascii) auto

lemma b64_valid: "valid_text (b64 b)"
proof (rule valid_ascii, rule ballI)
  fix c assume "c \<in> set (b64 b)"
  then have "c \<in> set url_alphabet" using b64_alphabet by blast
  then show "of_char c < (128 :: nat)" by (auto simp: url_alphabet_def)
qed

lemma b64_eq_iff [simp]: "b64 x = b64 y \<longleftrightarrow> x = y"
  by (simp add: b64_def)

lemma field_end: "q \<notin> set x \<Longrightarrow> q \<notin> set y \<Longrightarrow> x @ q # r = y @ q # s \<longleftrightarrow> x = y \<and> r = s"
proof (induction x arbitrary: y)
  case Nil
  then show ?case by (cases y) auto
next
  case (Cons c x)
  then show ?case by (cases y) auto
qed

lemma canonical_inj:
  assumes "canonical k = canonical k'" and "k \<noteq> OtherKey" and "k' \<noteq> OtherKey"
    and "\<And>n e. k = RSAPublicKey n e \<Longrightarrow> 0 \<le> e" and "\<And>n e. k' = RSAPublicKey n e \<Longrightarrow> 0 \<le> e"
  shows "k = k'"
  using assms
  by (cases k; cases k') (simp_all add: canonical_def member_text_def quoted_def field_end b64_unquoted)

text \<open>Two keys of one thumbprint are one key, or SHA-256 gives two different texts one sum.\<close>

lemma same_thumbprint:
  assumes "KeyID k = Inr kid" and "KeyID k' = Inr kid"
    and "\<And>n e. k = RSAPublicKey n e \<Longrightarrow> 0 \<le> e" and "\<And>n e. k' = RSAPublicKey n e \<Longrightarrow> 0 \<le> e"
  shows "k = k' \<or> (\<exists>a b. a \<noteq> b \<and> Sum256 a = Sum256 b)"
proof -
  have other: "k \<noteq> OtherKey" "k' \<noteq> OtherKey" using assms(1,2) by (auto simp: KeyID_def)
  have sums: "Sum256 (bytes_of (canonical k)) = Sum256 (bytes_of (canonical k'))"
    using assms(1,2) by (auto simp: KeyID_def split: public_key.splits if_splits)
  have inv: "map char_of_byte (bytes_of s) = s" for s by (simp add: bytes_of_def comp_def)
  show ?thesis
  proof (cases "bytes_of (canonical k) = bytes_of (canonical k')")
    case True
    from arg_cong [OF this, of "map char_of_byte"] have "canonical k = canonical k'" unfolding inv .
    from canonical_inj [OF this other assms(3,4)] show ?thesis ..
  next
    case False
    then show ?thesis using sums by blast
  qed
qed

lemma KeyID_some: "KeyID k = Inr kid \<Longrightarrow> kid \<noteq> ''''"
proof -
  assume "KeyID k = Inr kid"
  then have "kid = b64 (Sum256 (bytes_of (canonical k)))" by (simp add: KeyID_def split: public_key.splits if_splits)
  then have "length kid = 43" by (simp add: b64_def b64url_encode_def sextets_length Sum256_length)
  then show "kid \<noteq> ''''" by (metis list.size(3) zero_neq_numeral)
qed

section \<open>Which key a token is checked with\<close>

text \<open>The verifier's index has under a thumbprint only a key of that thumbprint, and the list is the keys given.\<close>

lemma add_keys_ok:
  assumes "add_keys ks v = Inr v'"
  shows "kv_order v' = kv_order v @ ks" and "k \<in> set ks \<Longrightarrow> checkPublicKey k = None"
    and "kv_byKID v' kid = Some k \<Longrightarrow> kv_byKID v kid = Some k \<or> k \<in> set ks \<and> KeyID k = Inr kid"
    and "k \<in> set ks \<Longrightarrow> KeyID k = Inr kid \<Longrightarrow> kv_byKID v' kid \<noteq> None"
proof -
  show "kv_order v' = kv_order v @ ks"
    using assms by (induction ks arbitrary: v) (fastforce split: option.splits sum.splits)+
  show "k \<in> set ks \<Longrightarrow> checkPublicKey k = None"
    using assms by (induction ks arbitrary: v) (auto split: option.splits sum.splits)
  show "kv_byKID v' kid = Some k \<Longrightarrow> kv_byKID v kid = Some k \<or> k \<in> set ks \<and> KeyID k = Inr kid"
    using assms by (induction ks arbitrary: v) (fastforce split: option.splits sum.splits if_splits)+
  have keep: "dom (kv_byKID v) \<subseteq> dom (kv_byKID v')" if "add_keys ks v = Inr v'" for ks v
    using that
  proof (induction ks arbitrary: v)
    case (Cons a ks)
    then obtain i where i: "KeyID a = Inr i" "add_keys ks \<lparr>kv_byKID = (kv_byKID v)(i \<mapsto> a), kv_order = kv_order v @ [a]\<rparr> = Inr v'"
      by (auto split: option.splits sum.splits)
    have "dom (kv_byKID v) \<subseteq> dom ((kv_byKID v)(i \<mapsto> a))" unfolding dom_fun_upd by auto
    moreover have "dom ((kv_byKID v)(i \<mapsto> a)) \<subseteq> dom (kv_byKID v')" using Cons.IH [OF i(2)] by (simp only: public_key_verifier.select_convs)
    ultimately show ?case by (rule subset_trans)
  qed simp
  show "k \<in> set ks \<Longrightarrow> KeyID k = Inr kid \<Longrightarrow> kv_byKID v' kid \<noteq> None"
    using assms
  proof (induction ks arbitrary: v)
    case (Cons a ks)
    then obtain i where i: "KeyID a = Inr i" "add_keys ks \<lparr>kv_byKID = (kv_byKID v)(i \<mapsto> a), kv_order = kv_order v @ [a]\<rparr> = Inr v'"
      by (auto split: option.splits sum.splits)
    then show ?case using Cons keep [OF i(2)] by (cases "k = a") auto
  qed simp
qed

lemma NewVerifier_ok:
  assumes "NewVerifier keys = Inr v"
  shows "keys \<noteq> []" and "kv_order v = keys" and "k \<in> set keys \<Longrightarrow> checkPublicKey k = None"
    and "kv_byKID v kid = Some k \<Longrightarrow> k \<in> set keys \<and> KeyID k = Inr kid"
    and "k \<in> set keys \<Longrightarrow> KeyID k = Inr kid \<Longrightarrow> kv_byKID v kid \<noteq> None"
proof -
  have a: "keys \<noteq> []" "add_keys keys \<lparr>kv_byKID = Map.empty, kv_order = []\<rparr> = Inr v"
    using assms by (auto simp: NewVerifier_def split: if_splits)
  show "keys \<noteq> []" by (rule a(1))
  show "kv_order v = keys" using add_keys_ok(1) [OF a(2)] by simp
  show "k \<in> set keys \<Longrightarrow> checkPublicKey k = None" by (rule add_keys_ok(2) [OF a(2)])
  show "kv_byKID v kid = Some k \<Longrightarrow> k \<in> set keys \<and> KeyID k = Inr kid" using add_keys_ok(3) [OF a(2)] by simp
  show "k \<in> set keys \<Longrightarrow> KeyID k = Inr kid \<Longrightarrow> kv_byKID v kid \<noteq> None" by (rule add_keys_ok(4) [OF a(2)])
qed

lemma KV_Validate_ok:
  assumes "KV_Validate l v tok w = (Inr c, w')"
  shows "jl_Parse l (clock w) tok (KV_key v) = Inr (c, True)"
  using assms
  by (auto simp: KV_Validate_def KV_Verify_def with_now_def lift_def parse_answer_def split: sum.splits prod.splits if_splits)

text \<open>
  C31. A token is accepted only on the signature of a key the verifier was built with. The key is one of those given to
  \<open>NewVerifier\<close> and passed its size check; the token's method is the one of the key's type, so that no token under a shared
  secret is accepted; when the token names a key, it is the key of that thumbprint, and when it names none, it is the only key
  there is.
\<close>

theorem verifier_uses_its_keys:
  assumes "NewVerifier keys = Inr v" and "jwt_sound l" and "KV_Validate l v tok w = (Inr c, w')"
  shows "\<exists>h key. jl_header l tok = Some h \<and> jl_signed l tok (th_alg h) (PublicKey key) \<and>
     key \<in> set keys \<and> checkPublicKey key = None \<and> methodMatchesKey (th_alg h) key \<and> (\<forall>m. th_alg h \<noteq> MethodHMAC m) \<and>
     (if th_kid h \<in> {None, Some ''''} then keys = [key] else \<exists>kid. th_kid h = Some kid \<and> KeyID key = Inr kid)"
proof -
  note ok = NewVerifier_ok [OF assms(1)]
  from assms(2) KV_Validate_ok [OF assms(3)] obtain h k where h: "jl_header l tok = Some h" "KV_key v h = Inr k"
      "jl_signed l tok (th_alg h) k"
    unfolding jwt_sound_def by blast
  obtain key where key: "k = PublicKey key" "methodMatchesKey (th_alg h) key"
    "if th_kid h \<in> {None, Some ''''} then keys = [key] else \<exists>kid. th_kid h = Some kid \<and> kv_byKID v kid = Some key"
  proof (cases "th_kid h \<in> {None, Some ''''}")
    case True
    then have "length keys = 1" "matched (th_alg h) (keys ! 0) = Inr k"
      using h(2) ok(2) by (auto simp: KV_key_def split: if_splits)
    then show ?thesis using True that [of "keys ! 0"] by (auto simp: matched_def length_Suc_conv split: if_splits)
  next
    case False
    then obtain kid where kid: "th_kid h = Some kid" by (cases "th_kid h") auto
    then obtain key where "kv_byKID v kid = Some key" "matched (th_alg h) key = Inr k"
      using h(2) False by (auto simp: KV_key_def split: option.splits)
    then show ?thesis using False kid that [of key] by (auto simp: matched_def split: if_splits)
  qed
  have mem: "key \<in> set keys" using key(3) ok(4) by (auto split: if_splits)
  have "th_alg h \<noteq> MethodHMAC m" for m using key(2) by (auto simp: methodMatchesKey_def split: public_key.splits)
  then show ?thesis
    using h key mem ok(3) [OF mem] ok(4) by (intro exI [of _ h] exI [of _ key]) (auto split: if_splits)
qed

lemma newAsymmetricSigner_ok:
  assumes "newAsymmetricSigner priv m issuer ttl = Inr s"
  shows "KeyID (public_of priv) = Inr (as_kid s)" and "as_priv s = priv" and "as_pub s = public_of priv" and "as_method s = m"
    and "NewVerifier [public_of priv] = Inr (as_verifier s)" and "0 < as_TTL s" and "as_Issuer s = issuer"
  using assms by (auto simp: newAsymmetricSigner_def hour_def minute_def second_def split: sum.splits)

lemma verifier_accepts:
  assumes "newAsymmetricSigner priv m issuer ttl = Inr s" and "methodMatchesKey m (public_of priv)"
    and "NewVerifier keys = Inr v" and "public_of priv \<in> set keys"
    and "\<forall>k \<in> set keys. KeyID k = KeyID (public_of priv) \<longrightarrow> k = public_of priv"
    and "jwt_signs l" and "jwt_accepts l" and "AS_Generate l s c w = (Inr tok, w')"
    and "valid_texts (applyDefaults (asymmetric_as_signer l s) (clock w) c)"
    and "in_time (clock w2) (cut_claims (applyDefaults (asymmetric_as_signer l s) (clock w) c))"
  shows "KV_Validate l v tok w2 = (Inr (cut_claims (applyDefaults (asymmetric_as_signer l s) (clock w) c)), w2)"
proof -
  note s = newAsymmetricSigner_ok [OF assms(1)] and ok = NewVerifier_ok [OF assms(3)]
  let ?c = "applyDefaults (asymmetric_as_signer l s) (clock w) c" and ?h = "\<lparr>th_alg = m, th_kid = Some (as_kid s)\<rparr>"
  have tok: "jl_SignedString l ?h ?c (PrivateKey priv) = Inr tok"
    using assms(8) s(2,4)
    by (auto simp: AS_Generate_def Generate_def with_now_def lift_def asymmetric_as_signer_def AS_Sign_def)
  obtain key where key: "kv_byKID v (as_kid s) = Some key"
    using ok(5) [OF assms(4) s(1)] by (cases "kv_byKID v (as_kid s)") auto
  then have "key = public_of priv" using ok(4) [OF key] assms(5) s(1) by simp
  then have "KV_key v ?h = Inr (verifying (PrivateKey priv))"
    using key assms(2) KeyID_some [OF s(1)] by (simp add: KV_key_def matched_def verifying_def)
  moreover have "valid_text (as_kid s)" using s(1) b64_valid [of "Sum256 (bytes_of (canonical (public_of priv)))"]
    by (auto simp: KeyID_def split: public_key.splits if_splits)
  then have "jl_header l tok = Some ?h" "jl_signed l tok (th_alg ?h) (verifying (PrivateKey priv))" "jl_claims l tok = cut_claims ?c"
    using assms(6,9) tok unfolding jwt_signs_def by fastforce+
  ultimately have "jl_Parse l (clock w2) tok (KV_key v) = Inr (cut_claims ?c, True)"
    using assms(7,10) unfolding jwt_accepts_def by metis
  then show ?thesis by (simp add: KV_Validate_def KV_Verify_def with_now_def lift_def parse_answer_def)
qed

text \<open>
  C32. What a signer issues, every verifier that holds its public key accepts from the token's \<open>nbf\<close>, where the claims have
  one, until its \<open>exp\<close>, whatever other keys it holds: so a key can be added before its signer is switched on, and a retired
  one kept until its tokens are gone. The claims come back as they were signed, all the registered ones included, the
  defaults filled in and the instants cut to whole seconds; their texts are UTF-8. The premises are that the signer's method
  is of its key's type and that no other key of the verifier has the signer's thumbprint.
\<close>

theorem signed_token_verifies:
  assumes "newAsymmetricSigner priv m issuer ttl = Inr s" and "methodMatchesKey m (public_of priv)"
    and "NewVerifier keys = Inr v" and "public_of priv \<in> set keys"
    and "\<forall>k \<in> set keys. KeyID k = KeyID (public_of priv) \<longrightarrow> k = public_of priv"
    and "jwt_signs l" and "jwt_accepts l" and "AS_Generate l s c w = (Inr tok, w')"
    and "valid_texts (applyDefaults (asymmetric_as_signer l s) (clock w) c)"
    and "in_time (clock w2) (cut_claims (applyDefaults (asymmetric_as_signer l s) (clock w) c))"
  shows "KV_Validate l v tok w2 = (Inr (cut_claims (applyDefaults (asymmetric_as_signer l s) (clock w) c)), w2)"
  by (rule verifier_accepts [OF assms])

text \<open>A signer accepts what it issued.\<close>

lemma signer_accepts_its_own:
  assumes "newAsymmetricSigner priv m issuer ttl = Inr s" and "methodMatchesKey m (public_of priv)" and "jwt_signs l" and "jwt_accepts l"
    and "AS_Generate l s c w = (Inr tok, w')" and "valid_texts (applyDefaults (asymmetric_as_signer l s) (clock w) c)"
    and "in_time (clock w2) (cut_claims (applyDefaults (asymmetric_as_signer l s) (clock w) c))"
  shows "AS_Validate l s tok w2 = (Inr (cut_claims (applyDefaults (asymmetric_as_signer l s) (clock w) c)), w2)"
  using verifier_accepts [OF assms(1,2) newAsymmetricSigner_ok(5) [OF assms(1)] _ _ assms(3-7)]
  by (simp add: AS_Validate_def)

text \<open>
  A token whose header asks for a key the verifier does not hold, for a method that is not of its key, or for no key where
  there are several, is the caller's fault: 401, and the error is not one that speaks of the verifier's own keys.
\<close>

lemma KV_key_errors: "KV_key v h = Inl e \<Longrightarrow> error_is e (Jwt ErrTokenSignatureInvalid) \<and> \<not> error_is e (Jwt ErrInvalidKeyType) \<and> e \<noteq> Panic"
  by (auto simp: KV_key_def matched_def split: if_splits option.splits)

lemma forged_header_is_unauthorized:
  assumes "jwt_reports l" and "jl_header l tok = Some h" and "KV_key v h = Inl e" and "BearerToken r = Some tok"
  shows "\<exists>e'. Validate (Some (KV_Validate l v)) r w = (Inl e', w) \<and> StatusFor (Some e') = 401 \<and>
     \<not> error_is e' (Jwt ErrInvalidKeyType)"
proof -
  let ?e = "Wrapped (Jwt ErrTokenUnverifiable) e"
  have "jl_Parse l (clock w) tok (KV_key v) = Inl ?e" using assms(1-3) unfolding jwt_reports_def by blast
  then have run: "KV_Validate l v tok w = (Inl ?e, w)"
    by (simp add: KV_Validate_def KV_Verify_def with_now_def lift_def parse_answer_def)
  have "isTokenFault ?e" by (simp add: isTokenFault_def tokenFaults_def)
  then have "Validate (Some (KV_Validate l v)) r w = (Inl (Wrapped InvalidTokenClass ?e), w)"
    using run by (simp add: Validate_def assms(4) on_def raise_def)
  then show ?thesis using KV_key_errors [OF assms(3)] by (auto simp: StatusFor_def)
qed

text \<open>A key set is published only of keys that may verify, so of no private key, and a verifier's keys can always be.\<close>

lemma toJWK_iff: "(\<exists>j. toJWK k = Inr j) \<longleftrightarrow> checkPublicKey k = None"
  by (auto simp: toJWK_def checkPublicKey_def KeyID_def split: public_key.splits)

lemma toJWKs_iff: "(\<exists>js. toJWKs ks = Inr js) \<longleftrightarrow> (\<forall>k \<in> set ks. checkPublicKey k = None)"
proof (induction ks)
  case (Cons k ks)
  have "(\<exists>js. toJWKs (k # ks) = Inr js) \<longleftrightarrow> (\<exists>j. toJWK k = Inr j) \<and> (\<exists>js. toJWKs ks = Inr js)"
    by (auto split: sum.splits)
  then show ?case using Cons.IH toJWK_iff [of k] by simp
qed simp

lemma JWKS_iff: "(\<exists>text. JWKS ks = Inr text) \<longleftrightarrow> (\<forall>k \<in> set ks. checkPublicKey k = None)"
  unfolding toJWKs_iff [symmetric] by (cases "toJWKs ks") (auto simp: JWKS_def)

lemma verifier_publishes: "NewVerifier keys = Inr v \<Longrightarrow> \<exists>text. KV_JWKS v = Inr text"
  unfolding KV_JWKS_def JWKS_iff using NewVerifier_ok(2,3) by metis


section \<open>Witnesses\<close>

text \<open>A library that can sign one token, under an Ed25519 key.\<close>

definition demo_private :: private_key where "demo_private = Ed25519PrivateKey (replicate 64 0)"

definition demo_public :: public_key where "demo_public = Ed25519PublicKey (replicate 32 0)"

definition demo_kid :: string where "demo_kid = b64 (Sum256 (bytes_of (canonical demo_public)))"

definition demo_token_header :: token_header where
  "demo_token_header = \<lparr>th_alg = MethodEd25519, th_kid = Some demo_kid\<rparr>"

definition demo_claims :: claims where
  "demo_claims = \<lparr>cl_Issuer = ''i'', cl_Subject = ''u1'', cl_Audience = [''web''], cl_ExpiresAt = Some hour,
     cl_NotBefore = Some minute, cl_IssuedAt = Some 0, cl_ID = ''j1'', cl_Email = '''',
     cl_ActorID = '''', cl_TeamID = ''''\<rparr>"

definition demo_jwt :: jwt_lib where
  "demo_jwt = \<lparr>jl_Parse = (\<lambda>now tok kf.
       if tok \<noteq> ''token'' then Inl (Jwt ErrTokenMalformed)
       else case kf demo_token_header of
         Inl e \<Rightarrow> Inl (Wrapped (Jwt ErrTokenUnverifiable) e)
       | Inr key \<Rightarrow> if key = PublicKey demo_public \<and> in_time now demo_claims then Inr (demo_claims, True) else Inl (Jwt ErrTokenExpired)),
     jl_SignedString = (\<lambda>h c key.
       if h = demo_token_header \<and> c = demo_claims \<and> key = PrivateKey demo_private then Inr ''token'' else Inl (Jwt ErrInvalidKey)),
     jl_header = (\<lambda>tok. if tok = ''token'' then Some demo_token_header else None),
     jl_claims = (\<lambda>tok. demo_claims),
     jl_signed = (\<lambda>tok m key. tok = ''token'' \<and> m = MethodEd25519 \<and> key = PublicKey demo_public)\<rparr>"

lemma demo_key: "public_of demo_private = demo_public" "KeyID demo_public = Inr demo_kid" "checkPublicKey demo_public = None"
  by (simp_all add: demo_private_def demo_public_def demo_kid_def public_of_def KeyID_def checkPublicKey_def)

lemma demo_whole: "cut_claims demo_claims = demo_claims" "in_time minute demo_claims" "valid_texts demo_claims"
  by (simp_all add: cut_claims_def demo_claims_def whole_def in_time_def hour_def minute_def second_def valid_texts_def valid_ascii)

lemma demo_jwt_laws: "jwt_sound demo_jwt" "jwt_signs demo_jwt" "jwt_accepts demo_jwt" "jwt_reports demo_jwt"
proof -
  show "jwt_reports demo_jwt"
    by (auto simp: jwt_reports_def demo_jwt_def split: if_splits)
  show "jwt_sound demo_jwt"
    by (auto simp: jwt_sound_def demo_jwt_def demo_token_header_def split: if_splits sum.splits)
  show "jwt_signs demo_jwt"
    by (auto simp: jwt_signs_def demo_jwt_def demo_whole verifying_def demo_key demo_token_header_def split: if_splits)
  show "jwt_accepts demo_jwt"
    by (auto simp: jwt_accepts_def demo_jwt_def demo_token_header_def split: if_splits)
qed

lemma demo_verifier: "NewVerifier [demo_public] = Inr \<lparr>kv_byKID = [demo_kid \<mapsto> demo_public], kv_order = [demo_public]\<rparr>"
  by (simp add: NewVerifier_def demo_key)

lemma demo_asymmetric: "\<exists>s. newAsymmetricSigner demo_private MethodEd25519 ''i'' hour = Inr s"
  by (simp add: newAsymmetricSigner_def demo_key demo_verifier)

lemma demo_defaults: "applyDefaults g t demo_claims = demo_claims"
  by (simp add: applyDefaults_def demo_claims_def)

lemma demo_matches: "methodMatchesKey MethodEd25519 demo_public"
  by (simp add: methodMatchesKey_def demo_public_def)

theorem signed_token_verifies_witness:
  "\<exists>s tok w' v. newAsymmetricSigner demo_private MethodEd25519 ''i'' hour = Inr s \<and>
     AS_Generate demo_jwt s demo_claims (world0 minute) = (Inr tok, w') \<and> NewVerifier [demo_public] = Inr v \<and>
     KV_Validate demo_jwt v tok (world0 minute) = (Inr demo_claims, world0 minute)"
proof -
  obtain s where s: "newAsymmetricSigner demo_private MethodEd25519 ''i'' hour = Inr s" using demo_asymmetric by blast
  note ok = newAsymmetricSigner_ok [OF s]
  have kid: "as_kid s = demo_kid" using ok(1) demo_key by simp
  have gen: "AS_Generate demo_jwt s demo_claims (world0 minute) = (Inr ''token'', world0 minute)"
    using ok(2,4) kid
    by (simp add: AS_Generate_def Generate_def with_now_def lift_def asymmetric_as_signer_def AS_Sign_def demo_defaults demo_jwt_def
        demo_token_header_def)
  have matches: "methodMatchesKey MethodEd25519 (public_of demo_private)" by (simp add: demo_key demo_matches)
  have mem: "public_of demo_private \<in> set [demo_public]" by (simp add: demo_key)
  have one: "\<forall>k \<in> set [demo_public]. KeyID k = KeyID (public_of demo_private) \<longrightarrow> k = public_of demo_private"
    by (simp add: demo_key)
  have "valid_texts (applyDefaults (asymmetric_as_signer demo_jwt s) (clock (world0 minute)) demo_claims)"
    "in_time (clock (world0 minute)) (cut_claims (applyDefaults (asymmetric_as_signer demo_jwt s) (clock (world0 minute)) demo_claims))"
    by (simp_all add: demo_defaults demo_whole world0_def)
  from signed_token_verifies [OF s matches demo_verifier mem one demo_jwt_laws(2,3) gen this]
  show ?thesis using s gen demo_verifier by (auto simp: demo_defaults demo_whole)
qed

theorem verifier_uses_its_keys_witness:
  "\<exists>v c w'. NewVerifier [demo_public] = Inr v \<and> KV_Validate demo_jwt v ''token'' (world0 minute) = (Inr c, w') \<and>
     jl_signed demo_jwt ''token'' MethodEd25519 (PublicKey demo_public)"
proof -
  let ?v = "\<lparr>kv_byKID = [demo_kid \<mapsto> demo_public], kv_order = [demo_public]\<rparr>"
  have "KV_key ?v demo_token_header = Inr (PublicKey demo_public)"
    using KeyID_some [OF demo_key(2)] demo_matches by (simp add: KV_key_def demo_token_header_def matched_def)
  then have run: "KV_Validate demo_jwt ?v ''token'' (world0 minute) = (Inr demo_claims, world0 minute)"
    by (simp add: KV_Validate_def KV_Verify_def with_now_def lift_def parse_answer_def demo_jwt_def world0_def demo_whole)
  from verifier_uses_its_keys [OF demo_verifier demo_jwt_laws(1) run]
  have "jl_signed demo_jwt ''token'' MethodEd25519 (PublicKey demo_public)"
    by (auto simp: demo_jwt_def demo_token_header_def)
  then show ?thesis using run demo_verifier by blast
qed


end
