(* ===== verification/Spec2Isabelle.thy ===== *)
theory Spec2Isabelle
  imports LimitProps FormatProps LoginProps RefreshRace TwoFactorProps AccountProps TeamProps PatService DeviceFlow EmailProps PinProps SuperProps OidcProps PasskeyProps
    Authz AuthHttpProps PasswordHash JwtProps
begin

text \<open>
  A model of the Go library \<open>authit\<close> and its correctness.

  \<^bold>\<open>The program.\<close> \<open>authit\<close> is an authentication library. Services (\<open>user\<close>, \<open>team\<close>, \<open>pin\<close>,
  \<open>emaillogin\<close>, \<open>device\<close>, \<open>pat\<close>, \<open>superuser\<close>, \<open>passkey\<close>, \<open>oidc\<close>) talk to storage through the
  interfaces of package \<open>store\<close>, to a rate limiter (\<open>ratelimit\<close>), to password hashing, token and code
  generation (\<open>crypto\<close>), to a signer (\<open>jwt\<close>) and to an audit trail (\<open>audit\<close>). \<open>memstore\<close> implements
  the storage in memory, each method under a mutex. \<open>authithttp\<close> puts the services under an HTTP
  server; \<open>authz\<close> is the table a host asks what a role may do.

  \<^bold>\<open>How it is modelled.\<close> A service method is a function from a \<open>world\<close> (theory \<open>World\<close>) to a result and
  the next world. The world holds the stores, the clock, the random source, the audit trail, the
  messages sent, the keys charged to the limiter and a schedule of faults: every call of a store, of
  the random source or of a sender takes the next entry of the schedule and fails when it names an
  error. A result is \<open>Inl\<close> of an error value or \<open>Inr\<close> of the Go result; a nil dereference is the error
  \<open>Panic\<close>. \<open>seq\<close>, \<open>on\<close> and \<open>ignoring\<close> are the three ways the code treats an error: return it, handle
  it, drop it. A failed write is taken not to have happened. One method reads the clock at one instant.

  \<^bold>\<open>Theories.\<close>
  \<^item> \<open>Prelude\<close>: time and durations, index maps, lists of ids, the collections \<open>mem_defs\<close> and \<open>port_defs\<close>.
  \<^item> \<open>Errors\<close>, \<open>StoreTypes\<close>: the sentinel errors of every package, audit events, and the rows of
    package \<open>store\<close>.
  \<^item> \<open>Ports\<close>: the contracts as locales: \<open>hash_table\<close> (a token table looked up by hash), \<open>spend_once\<close>
    (compare-and-set), \<open>attempt_counter\<close> (the failed-attempt table). \<open>MemSession\<close>, \<open>MemTeam\<close>, \<open>MemCreds\<close>, \<open>MemSuper\<close>,
    \<open>MemLinks\<close>: every method of the in-memory stores (\<open>memstore/*.go\<close>, names prefixed \<open>mem_\<close>), their
    invariants, and the interpretations of the contracts. \<open>MemLinks\<close> has a contract of its own,
    \<open>credential_table\<close>: deleting a listed row takes it, and only it, out of its user's listing.
  \<^item> \<open>Encoding\<close>, \<open>Crypto\<close>: SHA-256, hexadecimal and base64url written out, \<open>NewID\<close>, user codes, numeric
    codes, opaque tokens, the password policy; argon2id, bcrypt, AES-GCM and the TOTP library are records
    of functions with the documented laws as predicates. \<open>HashVectors\<close>, \<open>Formats\<close>, \<open>FormatProps\<close>: a
    published test vector, and the shape of identifiers and codes. \<open>PasswordHash\<close>: the hashers of
    \<open>crypto/hasher.go\<close>, with the text of an Argon2id hash printed and parsed byte for byte; only
    \<open>argon2.IDKey\<close> and bcrypt are parameters there.
  \<^item> \<open>JwtKeys\<close>: package \<open>jwt\<close>, the signers and the verifier of public keys, thumbprints and the
    published key set. Parsing, signing and checking a signature are the JWT library's, a parameter.
    \<open>JwtProps\<close>: what the library documents, as four predicates with one instance (a valid token has a good
    signature; signing; parsing within \<open>nbf\<close> and \<open>exp\<close>; the error of a key function), and from them which
    key a token is checked with, that key rotation works, and what a thumbprint tells.
  \<^item> \<open>World\<close>, \<open>Stores\<close>: programs, faults, \<open>RunInTx\<close>, and the store interfaces as world-level ports. The
    locale \<open>db_order\<close> proves once that a program keeps a relation on the stores.
  \<^item> \<open>RateLimit\<close>, \<open>TokenBucket\<close>, \<open>LimitProps\<close>: \<open>ratelimit\<close>. Token counts are rationals where the code
    has \<open>float64\<close>.
  \<^item> \<open>UserService\<close> (configuration, hooks, sessions, lockout, membership), \<open>UserLogin\<close> (Register,
    Authenticate, Refresh, Logout, IssueSession), \<open>UserTwoFactor\<close>, \<open>UserSessions\<close>, \<open>UserAccount\<close>: package
    \<open>user\<close>. \<open>LoginProps\<close>, \<open>RefreshProps\<close>, \<open>TwoFactorProps\<close>, \<open>SessionProps\<close>, \<open>AccountProps\<close>: its
    guarantees. A claim "at any later instant" is about the stores as the operation left them, at any
    clock; one about what requests do afterwards names the run it speaks of. \<open>RefreshRace\<close>: concurrent refreshes as a step relation and its invariant.
  \<^item> \<open>TeamService\<close>, \<open>TeamProps\<close>: package \<open>team\<close>; that a team keeps an active owner is an invariant of
    the step relation \<open>team_step\<close>. \<open>PatService\<close>: package \<open>pat\<close>, with any sequence of requests as
    \<open>pat_run\<close>, and how a use already in flight undoes a revocation. \<open>DeviceFlow\<close>: package \<open>device\<close>, with a step
    relation in which other requests come between a poll's read and its answer. \<open>EmailLogin\<close>, \<open>EmailProps\<close>:
    package \<open>emaillogin\<close>. \<open>PinService\<close>, \<open>PinProps\<close>: package \<open>pin\<close>; an attempt is charged in three
    store calls, and the step relation \<open>charge_step\<close> lets other attempts come between them.
  \<^item> \<open>Contracts\<close>: a program logic over worlds; \<open>holds P m Q E\<close> says what a program leaves behind when it
    returns and when it fails, with one rule for each way of putting programs together.
  \<^item> \<open>SuperUser\<close>: package \<open>superuser\<close> (names that another package has too start with \<open>SU_\<close>).
    \<open>SuperContracts\<close>: the locale \<open>operator_plane\<close>: for a class of errors that the parameters of a service
    stay in, every method keeps the invariant of the operators' tables and fails only within the class.
    \<open>SuperPlane\<close>: the interpretations of the locale, and the plane as a step relation, with what holds of
    every sequence of requests. \<open>SuperProps\<close>: what each method guarantees.

  \<^item> \<open>OidcFlow\<close>, \<open>OidcProps\<close>: package \<open>oidc\<close> (shared names start with \<open>OI_\<close>). The OAuth library, the
    userinfo endpoint and the cipher are parameters. The flow as a sequence of sign-ins, links and unlinks
    with any faults, and what holds of every such sequence.
  \<^item> \<open>Passkey\<close>, \<open>PasskeyProps\<close>: package \<open>passkey\<close> (shared names start with \<open>PK_\<close>). The WebAuthn library
    and the JSON of its types are a parameter; \<open>wan_correct\<close> is what the package relies on of it. Any
    sequence of requests is \<open>passkey_run\<close>; its invariants are about rows. In \<open>passkey_race\<close> each finish is
    cut at its call on the table of handles and any number are in flight; \<open>finish_is_cut\<close> says that the
    parts run on end are the request, and the invariant counts what a handle is good for.
  \<^item> \<open>Authz\<close>: package \<open>authz\<close>, what a role may do to a team. \<open>AuthHttp\<close>, \<open>AuthHttpProps\<close>: package
    \<open>authithttp\<close>. A handler is a program from what it reads of a request to the list of what it does: cookies
    set, the next handler called, an error or a redirect. Parsing a URL is a parameter. The middleware is
    proved over \<open>ValidateSession\<close>, with any faults of the stores below it; the cross-origin check, the
    double-submit token, the bearer grammar, and the rules browsers put on cookie names.

  \<^bold>\<open>Fuel and bounds.\<close> The only loop whose end depends on data is the rejection sampling of
  \<open>GenerateNumericCode\<close>; its fuel counts reads of the source, and the sampling theorem says how much is
  enough for a given source. Time is an integer number of nanoseconds; the year-292 overflow of
  \<open>time.Duration\<close> is outside the model.

  \<^bold>\<open>Not modelled.\<close> The SQL stores (their work is done by a database) and the conformance tests of
  \<open>storetest\<close>, and the log sink.
\<close>

end
